(* ===== verification/Prelude.thy ===== *)
theory Prelude
  imports Main
begin

text \<open>
  Shared vocabulary of the development: the result type of a handler (an error or a value, with
  the sequencing operator \<open>ebind\<close> and its simplification rules), the Python string operations the
  services use (\<open>strip\<close>, \<open>upper\<close>, slicing, zero-padded numbers), and generic list facts.

  Strings are ASCII \<open>char\<close> lists. A Python \<open>raise\<close> is an \<open>Inl\<close>; every handler commits at
  its end, so an \<open>Inl\<close> also means that the session is closed without a commit and the stored
  state is the one before the call.
\<close>

named_theorems db_simps \<open>characteristic equations of the table operations\<close>
named_theorems errs \<open>rules that turn a successful result into the guards it passed\<close>

subsection \<open>Results\<close>

type_synonym uuid = nat
type_synonym sku = string

datatype error =
    HTTPError nat string            \<comment> \<open>\<open>fastapi.HTTPException(status_code, detail)\<close>\<close>
  | ApiError nat string string      \<comment> \<open>\<open>app.errors.ApiError\<close>: status, code, message\<close>
  | ValueError string
  | BillingTransitionError string
  | IntegrityError                  \<comment> \<open>a constraint of the database refused the flush\<close>
  | PendingRollbackError            \<comment> \<open>a session used again after a failed flush\<close>
  | MultipleResultsFound            \<comment> \<open>\<open>scalar_one_or_none\<close> on two or more rows\<close>
  | NoResultFound                   \<comment> \<open>\<open>scalar_one\<close> on no row\<close>
  | OperationalError                \<comment> \<open>the database or another service failed\<close>
  | PaymentProviderError string bool "nat option"   \<comment> \<open>message, \<open>transient\<close>, \<open>code\<close>\<close>
  | PaymentConfigError string
  | InvalidWebhookSignature string
  | MalformedWebhook string
  | ProviderUnavailable string
  | CloudflareHostnameError string "nat option"      \<comment> \<open>message, status code\<close>
  | PyError string                  \<comment> \<open>another exception of the standard library, by its class\<close>

type_synonym 'a result = "error + 'a"

definition ebind :: "'a result \<Rightarrow> ('a \<Rightarrow> 'b result) \<Rightarrow> 'b result" where
  "ebind m f = (case m of Inl e \<Rightarrow> Inl e | Inr x \<Rightarrow> f x)"

text \<open>Evaluation looks at the first result before it looks at the rest.\<close>

declare ebind_def [code_unfold]

lemma ebind_Inl [simp]: "ebind (Inl e) f = Inl e"
  by (simp add: ebind_def)

lemma ebind_Inr [simp]: "ebind (Inr x) f = f x"
  by (simp add: ebind_def)

lemma ebind_eq_Inr [errs]: "ebind m f = Inr y \<longleftrightarrow> (\<exists>x. m = Inr x \<and> f x = Inr y)"
  by (cases m) auto

lemma ebind_eq_Inl: "ebind m f = Inl e \<longleftrightarrow> m = Inl e \<or> (\<exists>x. m = Inr x \<and> f x = Inl e)"
  by (cases m) auto

lemma Inr_PairE: "Inr (a, b) = Inr (c, d) \<Longrightarrow> (a = c \<Longrightarrow> b = d \<Longrightarrow> P) \<Longrightarrow> P"
  by simp

lemma ebind_cong [fundef_cong]:
  "m = m' \<Longrightarrow> (\<And>x. m' = Inr x \<Longrightarrow> f x = f' x) \<Longrightarrow> ebind m f = ebind m' f'"
  by (cases m') auto

definition raise_if :: "bool \<Rightarrow> error \<Rightarrow> unit result" where
  "raise_if c e = (if c then Inl e else Inr ())"

lemma raise_if_Inr [errs]: "raise_if c e = Inr u \<longleftrightarrow> \<not> c"
  by (simp add: raise_if_def)

lemma raise_if_simps [simp]:
  "raise_if True e = Inl e" "raise_if False e = Inr ()"
  by (simp_all add: raise_if_def)

definition get_or :: "error \<Rightarrow> 'a option \<Rightarrow> 'a result" where
  "get_or e v = (case v of None \<Rightarrow> Inl e | Some x \<Rightarrow> Inr x)"

lemma get_or_simps [simp]: "get_or e None = Inl e" "get_or e (Some x) = Inr x"
  by (simp_all add: get_or_def)

lemma get_or_Inr [errs]: "get_or e v = Inr x \<longleftrightarrow> v = Some x"
  by (cases v) auto

text \<open>The same as elimination rules, for the long chains of the handlers.\<close>

lemma bindE:
  assumes "ebind m f = Inr y" obtains x where "m = Inr x" "f x = Inr y"
  using assms by (auto simp: errs)

lemma guard_E: "raise_if c e = Inr u \<Longrightarrow> (\<not> c \<Longrightarrow> P) \<Longrightarrow> P"
  by (simp add: errs)

lemma get_E: "get_or e v = Inr x \<Longrightarrow> (v = Some x \<Longrightarrow> P) \<Longrightarrow> P"
  by (simp add: errs)

lemmas guardE = bindE guard_E get_E

text \<open>A loop whose body may raise.\<close>

fun efold :: "('a \<Rightarrow> 's \<Rightarrow> 's result) \<Rightarrow> 'a list \<Rightarrow> 's \<Rightarrow> 's result" where
  "efold f [] s = Inr s"
| "efold f (x # xs) s = ebind (f x s) (efold f xs)"

definition or_else :: "'a option \<Rightarrow> 'a \<Rightarrow> 'a" where
  "or_else v x = (case v of None \<Rightarrow> x | Some y \<Rightarrow> y)"

lemma or_else_simps [simp]: "or_else None x = x" "or_else (Some y) x = y"
  by (simp_all add: or_else_def)

text \<open>SQLAlchemy's \<open>scalar_one_or_none\<close>: an error on two or more rows.\<close>

fun scalar_one_or_none :: "'a list \<Rightarrow> 'a option result" where
  "scalar_one_or_none [] = Inr None"
| "scalar_one_or_none [x] = Inr (Some x)"
| "scalar_one_or_none (x # y # xs) = Inl MultipleResultsFound"

lemma scalar_one_or_none_None [errs]: "scalar_one_or_none xs = Inr None \<longleftrightarrow> xs = []"
  by (cases xs rule: scalar_one_or_none.cases) auto

lemma scalar_one_or_none_Some [errs]: "scalar_one_or_none xs = Inr (Some x) \<longleftrightarrow> xs = [x]"
  by (cases xs rule: scalar_one_or_none.cases) auto

text \<open>\<open>.limit(1)\<close> followed by \<open>scalar_one_or_none\<close>.\<close>

definition first_row :: "'a list \<Rightarrow> 'a option" where
  "first_row xs = (case xs of [] \<Rightarrow> None | x # _ \<Rightarrow> Some x)"

lemma first_row_simps [simp]: "first_row [] = None" "first_row (x # xs) = Some x"
  by (simp_all add: first_row_def)

lemma first_row_None [simp]: "first_row xs = None \<longleftrightarrow> xs = []"
  by (cases xs) auto

lemma first_row_Some: "first_row xs = Some x \<Longrightarrow> x \<in> set xs"
  by (cases xs) auto

subsection \<open>Strings\<close>

definition is_space :: "char \<Rightarrow> bool" where
  "is_space c = (let n = of_char c :: nat in
     (9 \<le> n \<and> n \<le> 13) \<or> (28 \<le> n \<and> n \<le> 32))"

definition strip :: "string \<Rightarrow> string" where
  "strip s = rev (dropWhile is_space (rev (dropWhile is_space s)))"

definition upper_char :: "char \<Rightarrow> char" where
  "upper_char c = (let n = of_char c :: nat in if 97 \<le> n \<and> n \<le> 122 then char_of (n - 32) else c)"

definition upper :: "string \<Rightarrow> string" where
  "upper s = map upper_char s"

definition lower_char :: "char \<Rightarrow> char" where
  "lower_char c = (let n = of_char c :: nat in if 65 \<le> n \<and> n \<le> 90 then char_of (n + 32) else c)"

definition lower :: "string \<Rightarrow> string" where
  "lower s = map lower_char s"

lemma upper_char_idem [simp]: "upper_char (upper_char c) = upper_char c"
  by (auto simp: upper_char_def Let_def)

lemma upper_idem [simp]: "upper (upper s) = upper s"
  by (simp add: upper_def)

lemma length_upper [simp]: "length (upper s) = length s"
  by (simp add: upper_def)

lemma dropWhile_none: "\<forall>c\<in>set t. \<not> P c \<Longrightarrow> dropWhile P t = t"
  by (cases t) auto

lemma strip_nonspace: "\<forall>c\<in>set s. \<not> is_space c \<Longrightarrow> strip s = s"
  by (simp add: strip_def dropWhile_none)

definition quoted :: "string \<Rightarrow> string" where   \<comment> \<open>in single quotes\<close>
  "quoted s = CHR 0x27 # s @ [CHR 0x27]"

text \<open>Python's \<open>x or y\<close> on optional strings: the empty string is falsy.\<close>

definition or_str :: "string option \<Rightarrow> string option \<Rightarrow> string option" where
  "or_str a b = (case a of None \<Rightarrow> b | Some s \<Rightarrow> if s = [] then b else a)"

definition none_if_empty :: "string \<Rightarrow> string option" where
  "none_if_empty s = (if s = [] then None else Some s)"

definition str_or_empty :: "string option \<Rightarrow> string" where
  "str_or_empty v = (case v of None \<Rightarrow> [] | Some s \<Rightarrow> s)"

definition rstrip_dots :: "string \<Rightarrow> string" where   \<comment> \<open>\<open>s.rstrip(".")\<close>\<close>
  "rstrip_dots s = rev (dropWhile (\<lambda>c. c = CHR ''.'') (rev s))"

fun split_on :: "char \<Rightarrow> string \<Rightarrow> string list" where   \<comment> \<open>\<open>s.split(d)\<close>\<close>
  "split_on d [] = [[]]"
| "split_on d (c # s) = (if c = d then [] # split_on d s else (case split_on d s of p # ps \<Rightarrow> (c # p) # ps | [] \<Rightarrow> [[c]]))"

definition starts_with :: "string \<Rightarrow> string \<Rightarrow> bool" where   \<comment> \<open>\<open>s.startswith(p)\<close>\<close>
  "starts_with p s \<longleftrightarrow> take (length p) s = p"

definition ends_with :: "string \<Rightarrow> string \<Rightarrow> bool" where   \<comment> \<open>\<open>s.endswith(e)\<close>\<close>
  "ends_with e s \<longleftrightarrow> length e \<le> length s \<and> drop (length s - length e) s = e"

definition infix_of :: "string \<Rightarrow> string \<Rightarrow> bool" where   \<comment> \<open>\<open>p in s\<close>\<close>
  "infix_of p s \<longleftrightarrow> list_ex (\<lambda>k. take (length p) (drop k s) = p) [0 ..< Suc (length s)]"

definition text_before :: "char \<Rightarrow> string \<Rightarrow> string" where   \<comment> \<open>\<open>s.split(c)[0]\<close>\<close>
  "text_before c s = takeWhile (\<lambda>x. x \<noteq> c) s"

definition join_on :: "char \<Rightarrow> string list \<Rightarrow> string" where   \<comment> \<open>\<open>d.join(ps)\<close>\<close>
  "join_on d ps = (case ps of [] \<Rightarrow> [] | p # rest \<Rightarrow> p @ concat (map ((#) d) rest))"

lemma starts_with_append: "starts_with p s \<longleftrightarrow> (\<exists>r. s = p @ r)"
  by (metis append_eq_conv_conj append_take_drop_id starts_with_def)

lemma split_on_none: "c \<notin> set p \<Longrightarrow> split_on c p = [p]"
  by (induction p) auto

lemma split_on_append: "c \<notin> set p \<Longrightarrow> split_on c (p @ c # s) = p # split_on c s"
  by (induction p) auto

lemma split_on_nonempty [simp]: "split_on c s \<noteq> []"
  by (induction s) (auto split: list.split)

lemma split_on_pieces: "p \<in> set (split_on c s) \<Longrightarrow> c \<notin> set p"
  by (induction s arbitrary: p) (auto split: list.splits if_splits)

lemma split_join: "ps \<noteq> [] \<Longrightarrow> (\<And>p. p \<in> set ps \<Longrightarrow> c \<notin> set p) \<Longrightarrow> split_on c (join_on c ps) = ps"
proof (induction ps)
  case (Cons p ps)
  then show ?case
    by (cases ps) (auto simp: join_on_def split_on_none split_on_append)
qed simp

lemma or_str_simps [simp]: "or_str None b = b" "or_str (Some []) b = b" "or_str (Some (c # s)) b = Some (c # s)"
  by (simp_all add: or_str_def)

subsection \<open>Decimal numerals\<close>

fun show_nat :: "nat \<Rightarrow> string" where
  "show_nat n = (if n < 10 then [char_of (48 + n)]
     else show_nat (n div 10) @ [char_of (48 + n mod 10)])"

declare show_nat.simps [simp del]

definition show_int :: "int \<Rightarrow> string" where
  "show_int i = (if i < 0 then CHR ''-'' # show_nat (nat (- i)) else show_nat (nat i))"

text \<open>The format specification \<open>:0wd\<close> on a non-negative number.\<close>

definition zpad :: "nat \<Rightarrow> nat \<Rightarrow> string" where
  "zpad w n = replicate (w - length (show_nat n)) (CHR ''0'') @ show_nat n"

fun read_nat :: "nat \<Rightarrow> string \<Rightarrow> nat" where
  "read_nat acc [] = acc"
| "read_nat acc (c # cs) = read_nat (10 * acc + (of_char c - 48)) cs"

lemma read_nat_append: "read_nat acc (xs @ ys) = read_nat (read_nat acc xs) ys"
  by (induction xs arbitrary: acc) auto

lemma of_char_digit: "d < 10 \<Longrightarrow> (of_char (char_of (48 + d) :: char) :: nat) = 48 + d"
  by simp

lemma read_show_nat: "read_nat 0 (show_nat n) = n"
proof (induction n rule: show_nat.induct)
  case (1 n)
  show ?case
  proof (cases "n < 10")
    case True
    then show ?thesis by (subst show_nat.simps) simp
  next
    case False
    then have "read_nat 0 (show_nat n) = 10 * (n div 10) + n mod 10"
      using 1 by (subst show_nat.simps) (simp add: read_nat_append)
    then show ?thesis by simp
  qed
qed

lemma read_nat_zeros: "read_nat 0 (replicate k (CHR ''0'') @ s) = read_nat 0 s"
  by (induction k) auto

lemma read_zpad: "read_nat 0 (zpad w n) = n"
  by (simp add: zpad_def read_nat_zeros read_show_nat)

lemma zpad_inj: "zpad w m = zpad w n \<longleftrightarrow> m = n"
  by (metis read_zpad)

subsection \<open>Lists\<close>

definition count_where :: "('a \<Rightarrow> bool) \<Rightarrow> 'a list \<Rightarrow> nat" where
  "count_where P xs = length (filter P xs)"

lemma count_where_simps [simp]:
  "count_where P [] = 0"
  "count_where P (x # xs) = (if P x then Suc (count_where P xs) else count_where P xs)"
  "count_where P (xs @ ys) = count_where P xs + count_where P ys"
  by (simp_all add: count_where_def)

lemma count_where_zero: "count_where P xs = 0 \<longleftrightarrow> (\<forall>x\<in>set xs. \<not> P x)"
  by (auto simp: count_where_def filter_empty_conv)

lemma count_where_cong: "(\<And>x. x \<in> set xs \<Longrightarrow> P x = Q x) \<Longrightarrow> count_where P xs = count_where Q xs"
  unfolding count_where_def by (metis filter_cong)

definition unique_by :: "('a \<Rightarrow> 'b) \<Rightarrow> 'a list \<Rightarrow> bool" where
  "unique_by f xs = distinct (map f xs)"

lemma unique_by_simps [simp]:
  "unique_by f []" "unique_by f (x # xs) \<longleftrightarrow> f x \<notin> f ` set xs \<and> unique_by f xs"
  by (auto simp: unique_by_def)

lemma unique_by_append1:
  "unique_by f (xs @ [x]) \<longleftrightarrow> unique_by f xs \<and> f x \<notin> f ` set xs"
  by (auto simp: unique_by_def)

lemma unique_byD: "unique_by f xs \<Longrightarrow> x \<in> set xs \<Longrightarrow> y \<in> set xs \<Longrightarrow> f x = f y \<Longrightarrow> x = y"
  by (auto simp: unique_by_def distinct_map dest: inj_onD)

text \<open>A sorted list of rows, newest first, as \<open>order_by(created_at.desc())\<close> gives it.\<close>

definition desc_by :: "('a \<Rightarrow> int) \<Rightarrow> 'a list \<Rightarrow> 'a list" where
  "desc_by f xs = sort_key (\<lambda>x. - f x) xs"

lemma set_desc_by [simp]: "set (desc_by f xs) = set xs"
  by (simp add: desc_by_def)

lemma desc_by_Nil [simp]: "desc_by f xs = [] \<longleftrightarrow> xs = []"
  by (simp add: desc_by_def flip: length_0_conv)

definition page_of :: "nat \<Rightarrow> nat \<Rightarrow> 'a list \<Rightarrow> 'a list" where
  "page_of page page_size xs = take page_size (drop ((page - 1) * page_size) xs)"

end
