(* ===== verification/Rows.thy ===== *)
theory Rows
  imports Prelude
begin

text \<open>
  A table of the database: its rows in insertion order, addressed by a primary key. The
  SQLAlchemy session reads a row with \<open>db.get(Model, key)\<close> and writes the attributes of a row it
  has read; \<open>row_get\<close>, \<open>row_upd\<close>, \<open>row_del\<close> are these operations on a list of rows.

  \<open>row_store\<close> is the interface the services rely on: a state with a table inside it, its lens
  (\<open>tbl\<close> and \<open>tbl_upd\<close>) and its key. Its lemmas say what a lookup returns after an insert, an
  update or a delete; every table of the schema interprets it.
\<close>

definition row_get :: "('r \<Rightarrow> 'k) \<Rightarrow> 'k \<Rightarrow> 'r list \<Rightarrow> 'r option" where
  "row_get key k rows = find (\<lambda>r. key r = k) rows"

definition row_upd :: "('r \<Rightarrow> 'k) \<Rightarrow> 'k \<Rightarrow> ('r \<Rightarrow> 'r) \<Rightarrow> 'r list \<Rightarrow> 'r list" where
  "row_upd key k f rows = map (\<lambda>r. if key r = k then f r else r) rows"

definition row_del :: "('r \<Rightarrow> 'k) \<Rightarrow> 'k \<Rightarrow> 'r list \<Rightarrow> 'r list" where
  "row_del key k rows = filter (\<lambda>r. key r \<noteq> k) rows"

lemma row_get_Some: "row_get key k rows = Some r \<Longrightarrow> r \<in> set rows \<and> key r = k"
  by (auto simp: row_get_def find_Some_iff)

lemma row_get_None: "row_get key k rows = None \<longleftrightarrow> k \<notin> key ` set rows"
  by (auto simp: row_get_def find_None_iff)

lemma row_get_map: "(\<And>r. key (f r) = key r) \<Longrightarrow> row_get key k (map f rows) = map_option f (row_get key k rows)"
  by (induction rows) (auto simp: row_get_def)

lemma row_get_append [db_simps]:
  "row_get key k (rows @ [r]) =
     (case row_get key k rows of None \<Rightarrow> if key r = k then Some r else None | Some x \<Rightarrow> Some x)"
  by (induction rows) (auto simp: row_get_def)

lemma row_get_unique:
  "unique_by key rows \<Longrightarrow> r \<in> set rows \<Longrightarrow> row_get key (key r) rows = Some r"
  by (induction rows) (auto simp: row_get_def)

lemma row_get_upd:
  "(\<And>r. key (f r) = key r) \<Longrightarrow>
   row_get key k (row_upd key k' f rows) =
     (if k = k' then map_option f (row_get key k rows) else row_get key k rows)"
  by (induction rows) (auto simp: row_get_def row_upd_def)

lemma row_get_del:
  "row_get key k (row_del key k' rows) = (if k = k' then None else row_get key k rows)"
  by (induction rows) (auto simp: row_get_def row_del_def)

lemma map_key_row_upd: "(\<And>r. g (f r) = g r) \<Longrightarrow> map g (row_upd key k f rows) = map g rows"
  by (simp add: row_upd_def)

lemma unique_by_row_upd:
  "(\<And>r. g (f r) = g r) \<Longrightarrow> unique_by g (row_upd key k f rows) = unique_by g rows"
  unfolding unique_by_def by (simp add: map_key_row_upd)

lemma unique_by_row_del: "unique_by g rows \<Longrightarrow> unique_by g (row_del key k rows)"
  unfolding unique_by_def row_del_def by (rule distinct_map_filter)

lemma set_row_upd: "x \<in> set (row_upd key k f rows) \<longleftrightarrow>
    (x \<in> set rows \<and> key x \<noteq> k) \<or> (\<exists>r\<in>set rows. key r = k \<and> x = f r)"
  by (auto simp: row_upd_def)

lemma set_row_del [simp]: "set (row_del key k rows) = {r \<in> set rows. key r \<noteq> k}"
  by (auto simp: row_del_def)

lemma length_row_upd [simp]: "length (row_upd key k f rows) = length rows"
  by (simp add: row_upd_def)

lemma row_upd_absent: "k \<notin> key ` set rows \<Longrightarrow> row_upd key k f rows = rows"
  by (induction rows) (auto simp: row_upd_def)

lemma count_row_upd_same:
  "(\<And>r. P (f r) = P r) \<Longrightarrow> count_where P (row_upd key k f rows) = count_where P rows"
  by (induction rows) (auto simp: row_upd_def)

lemma count_row_replace:
  "unique_by key rows \<Longrightarrow> row_get key k rows = Some t \<Longrightarrow>
   count_where P (row_upd key k f rows) + (if P t then 1 else 0) =
     count_where P rows + (if P (f t) then 1 else 0)"
proof (induction rows)
  case (Cons r rows)
  show ?case
  proof (cases "key r = k")
    case True
    with Cons.prems have "k \<notin> key ` set rows" "r = t" by (auto simp: row_get_def)
    then have "row_upd key k f rows = rows" by (simp add: row_upd_absent)
    with True \<open>r = t\<close> show ?thesis by (simp add: row_upd_def)
  next
    case False
    with Cons show ?thesis by (simp add: row_upd_def row_get_def split: if_splits)
  qed
qed (simp add: row_get_def)

lemma unique_by_row_replace:
  assumes "unique_by g rows" "unique_by key rows" "\<And>r. key r = k \<Longrightarrow> r \<in> set rows \<Longrightarrow> g (f r) = c"
    "\<And>x. x \<in> set rows \<Longrightarrow> key x \<noteq> k \<Longrightarrow> g x \<noteq> c"
  shows "unique_by g (row_upd key k f rows)"
  using assms
proof (induction rows)
  case (Cons r rows)
  then have IH: "unique_by g (row_upd key k f rows)" by simp
  show ?case
  proof (cases "key r = k")
    case True
    with Cons.prems have "k \<notin> key ` set rows" by auto
    then have "row_upd key k f rows = rows" by (rule row_upd_absent)
    moreover have "g (f r) = c" using Cons.prems(3) [of r] True by simp
    moreover have "g x \<noteq> c" if "x \<in> set rows" for x
      using Cons.prems(4) [of x] that \<open>k \<notin> key ` set rows\<close> by auto
    ultimately show ?thesis using True Cons.prems by (auto simp: row_upd_def)
  next
    case False
    have "g r \<notin> g ` set (row_upd key k f rows)"
    proof
      assume "g r \<in> g ` set (row_upd key k f rows)"
      then obtain x where x: "x \<in> set (row_upd key k f rows)" "g x = g r" by auto
      from x(1) consider "x \<in> set rows" | r' where "r' \<in> set rows" "key r' = k" "x = f r'"
        by (auto simp: set_row_upd)
      then show False
        using Cons.prems(1,3) Cons.prems(4) [of r] False x(2) by cases (auto simp: image_iff)
    qed
    with IH False show ?thesis by (simp add: row_upd_def)
  qed
qed (simp add: row_upd_def)

lemma list_all_row_upd:
  "list_all P rows \<Longrightarrow> (\<And>r. r \<in> set rows \<Longrightarrow> key r = k \<Longrightarrow> P r \<Longrightarrow> P (f r)) \<Longrightarrow>
   list_all P (row_upd key k f rows)"
  by (auto simp: row_upd_def list_all_iff)

locale row_store =
  fixes tbl :: "'s \<Rightarrow> 'r list"
    and tbl_upd :: "('r list \<Rightarrow> 'r list) \<Rightarrow> 's \<Rightarrow> 's"
    and key :: "'r \<Rightarrow> 'k"
  assumes tbl_of_upd: "tbl (tbl_upd f s) = f (tbl s)"
begin

lemma lookup_insert:
  "k \<notin> key ` set (tbl s) \<Longrightarrow> key r = k \<Longrightarrow>
   row_get key k (tbl (tbl_upd (\<lambda>rs. rs @ [r]) s)) = Some r"
  by (simp add: tbl_of_upd row_get_append flip: row_get_None)

lemma lookup_insert_other:
  "key r \<noteq> k \<Longrightarrow> row_get key k (tbl (tbl_upd (\<lambda>rs. rs @ [r]) s)) = row_get key k (tbl s)"
  by (simp add: tbl_of_upd row_get_append split: option.split)

lemma lookup_update:
  "(\<And>r. key (f r) = key r) \<Longrightarrow> row_get key k (tbl s) = Some r \<Longrightarrow>
   row_get key k (tbl (tbl_upd (row_upd key k f) s)) = Some (f r)"
  by (simp add: tbl_of_upd row_get_upd)

lemma lookup_update_other:
  "(\<And>r. key (f r) = key r) \<Longrightarrow> k \<noteq> k' \<Longrightarrow>
   row_get key k (tbl (tbl_upd (row_upd key k' f) s)) = row_get key k (tbl s)"
  by (simp add: tbl_of_upd row_get_upd)

lemma lookup_delete: "row_get key k (tbl (tbl_upd (row_del key k) s)) = None"
  by (simp add: tbl_of_upd row_get_del)

lemma keys_distinct_update:
  "(\<And>r. key (f r) = key r) \<Longrightarrow> unique_by key (tbl s) \<Longrightarrow>
   unique_by key (tbl (tbl_upd (row_upd key k f) s))"
  by (simp add: tbl_of_upd unique_by_row_upd)

end

end
