(* ===== verification/Calendar.thy ===== *)
theory Calendar
  imports Prelude
begin

text \<open>
  Python's \<open>datetime\<close> as far as the services use it. An aware UTC datetime is its number of
  microseconds since the day before 0001-01-01 (the ordinal of \<open>date.toordinal\<close> times the length
  of a day, plus the time of day), so comparison, \<open>timedelta\<close> addition and subtraction are those
  of \<open>int\<close>. The proleptic Gregorian calendar (\<open>year_of\<close>, \<open>month_of\<close>, \<open>monthrange\<close>) is that of
  the standard library; the lemmas show that it inverts the construction of a date.
\<close>

type_synonym datetime = int   \<comment> \<open>microseconds, UTC\<close>

definition day_us :: int where "day_us = 86400000000"

datatype pydatetime = Naive int | Aware int int   \<comment> \<open>wall clock; wall clock and UTC offset\<close>

definition is_leap :: "int \<Rightarrow> bool" where
  "is_leap y \<longleftrightarrow> y mod 4 = 0 \<and> (y mod 100 \<noteq> 0 \<or> y mod 400 = 0)"

definition days_before_year :: "int \<Rightarrow> int" where
  "days_before_year y = (let z = y - 1 in z * 365 + z div 4 - z div 100 + z div 400)"

definition days_in_month :: "int \<Rightarrow> int \<Rightarrow> int" where
  "days_in_month y m = (if m = 2 then (if is_leap y then 29 else 28)
     else if m = 4 \<or> m = 6 \<or> m = 9 \<or> m = 11 then 30 else 31)"

definition days_before_month :: "int \<Rightarrow> int \<Rightarrow> int" where
  "days_before_month y m =
     (if m \<le> 1 then 0 else if m = 2 then 31
      else (if m = 3 then 59 else if m = 4 then 90 else if m = 5 then 120 else if m = 6 then 151
            else if m = 7 then 181 else if m = 8 then 212 else if m = 9 then 243
            else if m = 10 then 273 else if m = 11 then 304 else 334)
           + (if is_leap y then 1 else 0))"

definition ymd2ord :: "int \<Rightarrow> int \<Rightarrow> int \<Rightarrow> int" where
  "ymd2ord y m d = days_before_year y + days_before_month y m + d"

definition year_of_ord :: "int \<Rightarrow> int" where
  "year_of_ord n = (let m = n - 1; q400 = m div 146097; r400 = m mod 146097;
     q100 = min 3 (r400 div 36524); r100 = r400 - q100 * 36524;
     q4 = r100 div 1461; r4 = r100 mod 1461; q1 = min 3 (r4 div 365)
     in 400 * q400 + 100 * q100 + 4 * q4 + q1 + 1)"

definition month_of_ord :: "int \<Rightarrow> int" where
  "month_of_ord n = (let y = year_of_ord n; k = n - days_before_year y - 1;
     l = (if is_leap y then 1 else 0) in
     if k < 31 then 1 else if k < 59 + l then 2 else if k < 90 + l then 3
     else if k < 120 + l then 4 else if k < 151 + l then 5 else if k < 181 + l then 6
     else if k < 212 + l then 7 else if k < 243 + l then 8 else if k < 273 + l then 9
     else if k < 304 + l then 10 else if k < 334 + l then 11 else 12)"

definition datetime_ymd :: "int \<Rightarrow> int \<Rightarrow> int \<Rightarrow> datetime" where
  "datetime_ymd y m d = ymd2ord y m d * day_us"

definition date_of :: "datetime \<Rightarrow> int" where "date_of t = t div day_us"
definition year_of :: "datetime \<Rightarrow> int" where "year_of t = year_of_ord (date_of t)"
definition month_of :: "datetime \<Rightarrow> int" where "month_of t = month_of_ord (date_of t)"

definition days_of :: "int \<Rightarrow> int" where   \<comment> \<open>\<open>timedelta.days\<close>\<close>
  "days_of delta = delta div day_us"

lemma diff_of_sums:
  fixes A B y :: int
  assumes "A = y * 365 + p4 - p100 + p400" "B = (y - 1) * 365 + q4 - q100 + q400"
    "p4 = q4 + c4" "p100 = q100 + c100" "p400 = q400 + c400"
  shows "A = B + 365 + (c4 - c100 + c400)"
  using assms by simp

lemma four_hundred_rule:
  assumes "p100 \<longrightarrow> p4" "p400 \<longrightarrow> p100"
  shows "(if p4 then 1 else 0) - (if p100 then 1 else 0) + (if p400 then 1 else 0)
    = (if p4 \<and> (\<not> p100 \<or> p400) then 1 else (0::int))"
proof (cases p100)
  case True
  with assms have p4 by blast
  with True show ?thesis by (cases p400) simp_all
next
  case False
  with assms have "\<not> p400" by blast
  with False show ?thesis by (cases p4) simp_all
qed

lemma split_capped:
  fixes r :: int
  assumes "0 \<le> r" "r \<le> 4 * k" "0 < k" "q = min 3 (r div k)"
  shows "0 \<le> q" "q \<le> 3" "0 \<le> r - q * k" "r - q * k \<le> k" "q < 3 \<Longrightarrow> r - q * k < k"
    "r - q * k < k \<or> r = 4 * k"
proof -
  define p where "p = r div k"
  define s where "s = r mod k"
  have r: "r = k * p + s" and s: "0 \<le> s" "s < k" and q: "q = min 3 p"
    using assms by (simp_all add: p_def s_def)
  have p0: "0 \<le> p" using assms by (simp add: p_def pos_imp_zdiv_nonneg_iff)
  have "k * p \<le> k * 4" using r s assms(2) by linarith
  with assms(3) have p4: "p \<le> 4" by simp
  show "0 \<le> q" "q \<le> 3" using q p0 by simp_all
  have cs: "q = p \<and> p \<le> 3 \<or> q = 3 \<and> p = 4 \<and> s = 0"
  proof (cases "p \<le> 3")
    case False
    with p4 have "p = 4" by simp
    with r s assms(2) q show ?thesis by simp
  qed (use q in simp)
  then show "0 \<le> r - q * k" "r - q * k \<le> k" "q < 3 \<Longrightarrow> r - q * k < k"
    "r - q * k < k \<or> r = 4 * k"
    using r s by auto
qed

lemma days_before_year_step:
  "days_before_year (y + 1) = days_before_year y + 365 + (if is_leap y then 1 else 0)"
proof -
  have step: "y div k = (y - 1) div k + (if y mod k = 0 then 1 else 0)" if "0 < k" for k :: int
  proof (cases "y mod k = 0")
    case True
    have "(y - 1) div k = y div k - 1"
    proof (rule int_div_pos_eq)
      show "y - 1 = k * (y div k - 1) + (k - 1)"
        using True mult_div_mod_eq [of k y] by (simp add: algebra_simps)
    qed (use that in simp_all)
    with True show ?thesis by simp
  next
    case False
    have "(y - 1) div k = y div k"
    proof (rule int_div_pos_eq)
      show "y - 1 = k * (y div k) + (y mod k - 1)" by simp
      show "0 \<le> y mod k - 1" using False that by (simp add: order_less_le)
      show "y mod k - 1 < k" using pos_mod_bound [OF that, of y] by simp
    qed
    with False show ?thesis by simp
  qed
  have 4: "y mod 4 = 0" if "y mod 100 = 0"
    using that dvd_trans [of 4 100 y] by (simp add: mod_eq_0_iff_dvd)
  have 100: "y mod 100 = 0" if "y mod 400 = 0"
    using that dvd_trans [of 100 400 y] by (simp add: mod_eq_0_iff_dvd)
  define c where "c = (\<lambda>k. if y mod k = 0 then 1 else 0 :: int)"
  have s: "y div k = (y - 1) div k + c k" if "0 < k" for k using step [OF that] by (simp add: c_def)
  have "days_before_year (y + 1) = y * 365 + y div 4 - y div 100 + y div 400"
    and "days_before_year y = (y - 1) * 365 + (y - 1) div 4 - (y - 1) div 100 + (y - 1) div 400"
    by (simp_all add: days_before_year_def Let_def)
  moreover have "y div 4 = (y - 1) div 4 + c 4" "y div 100 = (y - 1) div 100 + c 100"
      "y div 400 = (y - 1) div 400 + c 400"
    by (rule s, simp)+
  ultimately have "days_before_year (y + 1) = days_before_year y + 365 + (c 4 - c 100 + c 400)"
    by (rule diff_of_sums)
  moreover have "c 4 - c 100 + c 400 = (if is_leap y then 1 else 0)"
  proof -
    have "c 4 - c 100 + c 400 = (if y mod 4 = 0 then 1 else 0) - (if y mod 100 = 0 then 1 else 0)
        + (if y mod 400 = 0 then 1 else 0)"
      unfolding c_def by (rule refl)
    then show ?thesis using four_hundred_rule [OF impI [OF 4] impI [OF 100]]
      unfolding is_leap_def by (rule trans)
  qed
  ultimately show ?thesis by simp
qed

lemma days_before_year_decomp:
  assumes "0 \<le> b" "b \<le> 3" "0 \<le> c" "c \<le> 24" "0 \<le> d" "d \<le> 3"
  shows "days_before_year (400 * a + 100 * b + 4 * c + d + 1)
     = 146097 * a + 36524 * b + 1461 * c + 365 * d"
proof -
  let ?z = "400 * a + 100 * b + 4 * c + d"
  have "?z div 4 = 100 * a + 25 * b + c"
    by (rule int_div_pos_eq [where r = d]) (use assms in auto)
  moreover have "?z div 100 = 4 * a + b"
    by (rule int_div_pos_eq [where r = "4 * c + d"]) (use assms in auto)
  moreover have "?z div 400 = a"
    by (rule int_div_pos_eq [where r = "100 * b + 4 * c + d"]) (use assms in auto)
  ultimately show ?thesis by (simp add: days_before_year_def)
qed

lemma is_leap_decomp:
  assumes "0 \<le> b" "b \<le> 3" "0 \<le> c" "c \<le> 24" "c \<noteq> 24 \<or> b = 3"
  shows "is_leap (400 * a + 100 * b + 4 * c + 3 + 1)"
proof -
  let ?y = "400 * a + 100 * b + 4 * c + 3 + 1"
  have 4: "?y mod 4 = 0" by presburger
  have "?y mod 100 \<noteq> 0 \<or> ?y mod 400 = 0"
  proof (cases "c = 24")
    case True
    with assms have "b = 3" by simp
    with True have "?y = 400 * (a + 1)" by simp
    then show ?thesis by (simp only: mod_mult_self1_is_0) simp
  next
    case False
    have "?y mod 100 = 4 * c + 4"
      by (rule int_mod_pos_eq [where q = "4 * a + b"]) (use assms False in auto)
    with assms show ?thesis by simp
  qed
  with 4 show ?thesis unfolding is_leap_def by blast
qed

lemma year_of_ord_bounds:
  "days_before_year (year_of_ord n) < n \<and> n \<le> days_before_year (year_of_ord n + 1)"
proof -
  define m where "m = n - 1"
  define a where "a = m div 146097"
  define r where "r = m mod 146097"
  define b where "b = min 3 (r div 36524)"
  define r1 where "r1 = r - b * 36524"
  define c where "c = r1 div 1461"
  define r2 where "r2 = r1 mod 1461"
  define d where "d = min 3 (r2 div 365)"
  have y: "year_of_ord n = 400 * a + 100 * b + 4 * c + d + 1"
    unfolding year_of_ord_def Let_def d_def r2_def c_def r1_def b_def r_def a_def m_def by (rule refl)
  have mr: "m = 146097 * a + r" by (simp add: a_def r_def)
  have r: "0 \<le> r" "r < 146097" by (simp_all add: r_def)
  note cb = split_capped [OF r(1) _ _ b_def]
  have b: "0 \<le> b" "b \<le> 3" using cb(1,2) r by simp_all
  have r1: "0 \<le> r1" "r1 < 36525" "b < 3 \<Longrightarrow> r1 < 36524"
    using cb(3-5) r by (simp_all add: r1_def)
  have rc: "r1 = 1461 * c + r2" by (simp add: c_def r2_def)
  have r2: "0 \<le> r2" "r2 < 1461" by (simp_all add: r2_def)
  have c: "0 \<le> c" "c \<le> 24" using r1(1) zdiv_mono1 [of r1 36524 1461] r1(2)
    by (simp_all add: c_def pos_imp_zdiv_nonneg_iff)
  note cd = split_capped [OF r2(1) _ _ d_def]
  have d: "0 \<le> d" "d \<le> 3" using cd(1,2) r2 by simp_all
  have r3: "365 * d \<le> r2" "r2 < 365 * d + 365 \<or> d = 3 \<and> r2 = 1460"
    using cd(3,6) r2 d by (auto simp: d_def)
  have top: "n = days_before_year (year_of_ord n) + (r2 - 365 * d) + 1"
  proof -
    have "days_before_year (year_of_ord n) = 146097 * a + 36524 * b + 1461 * c + 365 * d"
      unfolding y by (rule days_before_year_decomp [OF b c d])
    moreover have "n = m + 1" "r = r1 + 36524 * b" by (simp_all add: m_def r1_def)
    ultimately show ?thesis using mr rc by linarith
  qed
  have leap: "is_leap (year_of_ord n)" if "d = 3" "r2 = 1460"
  proof -
    have "c \<noteq> 24 \<or> b = 3" using r1 rc that(2) b by (cases "b < 3") auto
    with is_leap_decomp [OF b c, of a] show ?thesis by (simp add: y that)
  qed
  show ?thesis
    using top r3 leap by (auto simp: days_before_year_step)
qed

lemma month_of_ord_bounds:
  assumes "y = year_of_ord n" "m = month_of_ord n"
  shows "1 \<le> m \<and> m \<le> 12 \<and> ymd2ord y m 1 \<le> n \<and> n < ymd2ord y m 1 + days_in_month y m"
proof -
  define k where "k = n - days_before_year y - 1"
  define l :: int where "l = (if is_leap y then 1 else 0)"
  have l: "l = 0 \<or> l = 1" by (simp add: l_def)
  have k: "0 \<le> k" "k < 365 + l" "n = days_before_year y + k + 1"
    using year_of_ord_bounds [of n] assms(1) by (simp_all add: days_before_year_step k_def l_def)
  have m: "m = (if k < 31 then 1 else if k < 59 + l then 2 else if k < 90 + l then 3
     else if k < 120 + l then 4 else if k < 151 + l then 5 else if k < 181 + l then 6
     else if k < 212 + l then 7 else if k < 243 + l then 8 else if k < 273 + l then 9
     else if k < 304 + l then 10 else if k < 334 + l then 11 else 12)"
    unfolding assms(2) month_of_ord_def Let_def k_def l_def assms(1) ..
  have l0: "0 \<le> l" "l \<le> 1" using l by auto
  consider "k < 31"
    | "31 \<le> k" "k < 59 + l"
    | "59 + l \<le> k" "k < 90 + l"
    | "90 + l \<le> k" "k < 120 + l"
    | "120 + l \<le> k" "k < 151 + l"
    | "151 + l \<le> k" "k < 181 + l"
    | "181 + l \<le> k" "k < 212 + l"
    | "212 + l \<le> k" "k < 243 + l"
    | "243 + l \<le> k" "k < 273 + l"
    | "273 + l \<le> k" "k < 304 + l"
    | "304 + l \<le> k" "k < 334 + l"
    | "334 + l \<le> k"
    by (meson not_less)
  then show ?thesis
  proof cases
    case 1
    with l0 have "m = 1" by (simp add: m)
    with 1 k l0 show ?thesis
      by (simp add: ymd2ord_def days_before_month_def days_in_month_def l_def split: if_splits)
  next
    case 2
    with l0 have "m = 2" by (simp add: m)
    with 2 k l0 show ?thesis
      by (simp add: ymd2ord_def days_before_month_def days_in_month_def l_def split: if_splits)
  next
    case 3
    with l0 have "m = 3" by (simp add: m)
    with 3 k l0 show ?thesis
      by (simp add: ymd2ord_def days_before_month_def days_in_month_def l_def split: if_splits)
  next
    case 4
    with l0 have "m = 4" by (simp add: m)
    with 4 k l0 show ?thesis
      by (simp add: ymd2ord_def days_before_month_def days_in_month_def l_def split: if_splits)
  next
    case 5
    with l0 have "m = 5" by (simp add: m)
    with 5 k l0 show ?thesis
      by (simp add: ymd2ord_def days_before_month_def days_in_month_def l_def split: if_splits)
  next
    case 6
    with l0 have "m = 6" by (simp add: m)
    with 6 k l0 show ?thesis
      by (simp add: ymd2ord_def days_before_month_def days_in_month_def l_def split: if_splits)
  next
    case 7
    with l0 have "m = 7" by (simp add: m)
    with 7 k l0 show ?thesis
      by (simp add: ymd2ord_def days_before_month_def days_in_month_def l_def split: if_splits)
  next
    case 8
    with l0 have "m = 8" by (simp add: m)
    with 8 k l0 show ?thesis
      by (simp add: ymd2ord_def days_before_month_def days_in_month_def l_def split: if_splits)
  next
    case 9
    with l0 have "m = 9" by (simp add: m)
    with 9 k l0 show ?thesis
      by (simp add: ymd2ord_def days_before_month_def days_in_month_def l_def split: if_splits)
  next
    case 10
    with l0 have "m = 10" by (simp add: m)
    with 10 k l0 show ?thesis
      by (simp add: ymd2ord_def days_before_month_def days_in_month_def l_def split: if_splits)
  next
    case 11
    with l0 have "m = 11" by (simp add: m)
    with 11 k l0 show ?thesis
      by (simp add: ymd2ord_def days_before_month_def days_in_month_def l_def split: if_splits)
  next
    case 12
    with l0 have "m = 12" by (simp add: m)
    with 12 k l0 show ?thesis
      by (simp add: ymd2ord_def days_before_month_def days_in_month_def l_def split: if_splits)
  qed
qed

lemma next_month_start:
  assumes "1 \<le> m" "m \<le> 12"
  shows "ymd2ord y m 1 + days_in_month y m =
     (if m = 12 then ymd2ord (y + 1) 1 1 else ymd2ord y (m + 1) 1)"
proof -
  have "m = 1 \<or> m = 2 \<or> m = 3 \<or> m = 4 \<or> m = 5 \<or> m = 6 \<or> m = 7 \<or> m = 8 \<or> m = 9 \<or> m = 10 \<or>
      m = 11 \<or> m = 12"
    using assms by presburger
  then show ?thesis
    by (elim disjE)
      (simp_all add: ymd2ord_def days_before_month_def days_in_month_def days_before_year_step)
qed

lemma ymd2ord_year_step: "ymd2ord y m 1 < ymd2ord (y + 1) m 1"
  by (simp add: ymd2ord_def days_before_month_def days_before_year_step split: if_split)

end
