(* ===== verification/Schema.thy ===== *)
theory Schema
  imports Rows Calendar "HOL-Library.List_Lexorder" "HOL-Library.Char_ord"
begin

text \<open>
  The rows of the database (\<open>backend/app/models/*.py\<close>) that the commercial core of the service
  reads and writes, the \<open>CHECK\<close> and \<open>UNIQUE\<close> constraints the models declare, and the database
  itself as a record of tables. Columns restricted to a fixed set of strings by a constraint are
  datatypes; ids are numbers; datetimes are UTC instants. The surrogate ids of the append-only
  history and ledger tables are left out, since nothing addresses those rows by id.
\<close>

subsection \<open>Organizations, tiers and the price catalog\<close>

datatype product = Scan | Host | Uptime | Guard

definition INVOICE_PRODUCTS :: "product list" where
  "INVOICE_PRODUCTS = [Scan, Host, Uptime, Guard]"

fun product_name :: "product \<Rightarrow> string" where
  "product_name Scan = ''scan''"
| "product_name Host = ''host''"
| "product_name Uptime = ''uptime''"
| "product_name Guard = ''guard''"

fun product_title :: "product \<Rightarrow> string" where   \<comment> \<open>\<open>product.capitalize()\<close>\<close>
  "product_title Scan = ''Scan''"
| "product_title Host = ''Host''"
| "product_title Uptime = ''Uptime''"
| "product_title Guard = ''Guard''"

text \<open>\<open>ORDER BY product\<close> sorts by name.\<close>

fun product_order :: "product \<Rightarrow> nat" where
  "product_order Guard = 0" | "product_order Host = 1" | "product_order Scan = 2" | "product_order Uptime = 3"

instantiation product :: linorder
begin

definition less_eq_product :: "product \<Rightarrow> product \<Rightarrow> bool" where
  "p \<le> q \<longleftrightarrow> product_order p \<le> product_order q"

definition less_product :: "product \<Rightarrow> product \<Rightarrow> bool" where
  "p < q \<longleftrightarrow> product_order p < product_order q"

instance
proof
  fix x y :: product
  show "x \<le> y \<Longrightarrow> y \<le> x \<Longrightarrow> x = y"
    by (cases x; cases y) (simp_all add: less_eq_product_def)
qed (auto simp: less_eq_product_def less_product_def)

end

lemma product_order_by_name: "p \<le> q \<longleftrightarrow> product_name p \<le> product_name q" for p q :: product
  by (cases p; cases q) (simp_all add: less_eq_product_def less_eq_char_def less_char_def)

record user =
  user_id :: uuid
  user_email :: string
  user_is_verified :: bool
  user_is_admin :: bool
  user_credits :: int
  user_locale :: string
  user_last_active :: "uuid option"     \<comment> \<open>\<open>last_active_organization_id\<close>\<close>

record organization =
  org_id :: uuid
  org_name :: string
  org_slug :: string
  org_kind :: string
  org_sku :: sku
  org_tag_colors :: "(string \<times> string) list"
  org_created_by :: "uuid option"
  org_created_at :: datetime
  org_updated_at :: datetime

datatype role = Owner | Admin | Member | Viewer

record membership =
  mem_id :: uuid
  mem_org :: uuid
  mem_user :: uuid
  mem_role :: role
  mem_created_at :: datetime
  mem_updated_at :: datetime

datatype invite_status = InvPending | InvAccepted | InvRevoked | InvExpired

record invite =
  ivt_id :: uuid
  ivt_org :: uuid
  ivt_email :: string
  ivt_role :: role
  ivt_token_hash :: string
  ivt_invited_by :: uuid
  ivt_status :: invite_status
  ivt_expires_at :: datetime
  ivt_accepted_user :: "uuid option"
  ivt_created_at :: datetime
  ivt_updated_at :: datetime

record sku_tier =
  tier_code :: sku
  tier_label :: string
  tier_rank :: int
  tier_active :: bool
  tier_requestable :: bool
  tier_sales_led :: bool
  tier_is_default :: bool
  tier_bundle_idr :: "int option"
  tier_limit_scan :: int
  tier_limit_host :: int
  tier_limit_uptime :: int
  tier_limit_guard :: int
  tier_allow_status_page :: bool
  tier_allow_custom_host :: bool
  tier_allow_waf_protect :: bool
  tier_allow_siem :: bool
  tier_billing_unrestricted :: bool
  tier_editor_limit :: "int option"
  tier_viewer_limit :: "int option"
  tier_created_at :: datetime
  tier_updated_at :: datetime
  tier_updated_by :: "uuid option"

definition opt_all :: "('a \<Rightarrow> bool) \<Rightarrow> 'a option \<Rightarrow> bool" where   \<comment> \<open>\<open>x IS NULL OR P x\<close>\<close>
  "opt_all P v = (case v of None \<Rightarrow> True | Some x \<Rightarrow> P x)"

lemma opt_all_simps [simp]: "opt_all P None" "opt_all P (Some x) = P x"
  by (simp_all add: opt_all_def)

definition tier_ok :: "sku_tier \<Rightarrow> bool" where
  "tier_ok t \<longleftrightarrow> 1 \<le> tier_rank t \<and> opt_all (\<lambda>b. 0 \<le> b) (tier_bundle_idr t)
     \<and> 1 \<le> tier_limit_scan t \<and> 1 \<le> tier_limit_host t
     \<and> 1 \<le> tier_limit_uptime t \<and> 1 \<le> tier_limit_guard t
     \<and> opt_all (\<lambda>n. 1 \<le> n) (tier_editor_limit t) \<and> opt_all (\<lambda>n. 1 \<le> n) (tier_viewer_limit t)"

datatype jval = JNull | JBool bool | JInt int | JStr string | JTime datetime | JId uuid

type_synonym changes = "(string \<times> jval \<times> jval) list"   \<comment> \<open>field, \<open>from\<close>, \<open>to\<close>\<close>

definition jopt :: "('a \<Rightarrow> jval) \<Rightarrow> 'a option \<Rightarrow> jval" where
  "jopt f v = (case v of None \<Rightarrow> JNull | Some x \<Rightarrow> f x)"

record tier_history =
  sth_code :: sku
  sth_action :: string
  sth_actor :: "uuid option"
  sth_org :: "uuid option"
  sth_changes :: changes
  sth_at :: datetime

record catalog_row =
  cat_product :: product
  cat_sku :: sku
  cat_list_idr :: int
  cat_invoicable :: bool
  cat_updated_at :: datetime
  cat_updated_by :: "uuid option"

definition catalog_ok :: "catalog_row \<Rightarrow> bool" where
  "catalog_ok r \<longleftrightarrow> 0 \<le> cat_list_idr r"

subsection \<open>Promo codes\<close>

datatype promo_kind = Percent | Fixed

record promo_code =
  promo_id :: uuid
  promo_code :: string
  promo_description :: string
  promo_kind :: promo_kind
  promo_percent_off_bp :: "int option"
  promo_amount_idr :: "int option"
  promo_min_amount_idr :: int
  promo_max_discount_idr :: "int option"
  promo_applies_to_sku :: "sku option"
  promo_applies_to_product :: "product option"
  promo_starts_at :: "datetime option"
  promo_ends_at :: "datetime option"
  promo_max_redemptions :: "int option"
  promo_max_per_org :: int
  promo_active :: bool
  promo_requires_approval :: bool
  promo_approved_by :: "uuid option"
  promo_approved_at :: "datetime option"
  promo_created_by :: "uuid option"
  promo_updated_by :: "uuid option"
  promo_created_at :: datetime
  promo_updated_at :: datetime

definition is_code_char :: "char \<Rightarrow> bool" where   \<comment> \<open>\<open>[A-Z0-9]\<close>\<close>
  "is_code_char c = (let n = of_char c :: nat in (65 \<le> n \<and> n \<le> 90) \<or> (48 \<le> n \<and> n \<le> 57))"

definition promo_code_pattern :: "string \<Rightarrow> bool" where   \<comment> \<open>\<open>^[A-Z0-9][A-Z0-9_-]{7,31}$\<close>\<close>
  "promo_code_pattern s = (8 \<le> length s \<and> length s \<le> 32 \<and> is_code_char (hd s)
     \<and> list_all (\<lambda>c. is_code_char c \<or> c = CHR ''_'' \<or> c = CHR ''-'') (tl s))"

definition promo_ok :: "promo_code \<Rightarrow> bool" where
  "promo_ok p \<longleftrightarrow> promo_code p = upper (promo_code p) \<and> promo_code_pattern (promo_code p)
     \<and> opt_all (\<lambda>b. 1 \<le> b \<and> b \<le> 10000) (promo_percent_off_bp p)
     \<and> opt_all (\<lambda>a. 0 < a) (promo_amount_idr p)
     \<and> ((promo_kind p = Percent \<and> promo_percent_off_bp p \<noteq> None \<and> promo_amount_idr p = None)
        \<or> (promo_kind p = Fixed \<and> promo_amount_idr p \<noteq> None \<and> promo_percent_off_bp p = None))
     \<and> 0 \<le> promo_min_amount_idr p \<and> opt_all (\<lambda>m. 0 < m) (promo_max_discount_idr p)
     \<and> (promo_starts_at p = None \<or> promo_ends_at p = None
        \<or> the (promo_starts_at p) < the (promo_ends_at p))
     \<and> opt_all (\<lambda>m. 1 \<le> m) (promo_max_redemptions p) \<and> 1 \<le> promo_max_per_org p"

datatype redemption_status = Applied | Released

record redemption =
  red_id :: uuid
  red_promo :: uuid
  red_org :: uuid
  red_invoice :: uuid
  red_request :: "uuid option"
  red_code :: string
  red_discount_idr :: int
  red_status :: redemption_status
  red_created_by :: "uuid option"
  red_created_at :: datetime
  red_released_at :: "datetime option"

definition redemption_ok :: "redemption \<Rightarrow> bool" where
  "redemption_ok r \<longleftrightarrow> red_code r = upper (red_code r) \<and> 0 < red_discount_idr r
     \<and> (red_status r = Released) = (red_released_at r \<noteq> None)"

record promo_history =
  ph_promo :: uuid
  ph_action :: string
  ph_actor :: "uuid option"
  ph_changes :: changes
  ph_at :: datetime

subsection \<open>Invoices, subscriptions and payments\<close>

datatype cycle = Monthly | Annual
datatype invoice_status = Draft | Sent | Paid | Void

definition ANNUAL_MONTHS_PAID :: int where "ANNUAL_MONTHS_PAID = 10"
definition ANNUAL_MONTHS_SERVED :: int where "ANNUAL_MONTHS_SERVED = 12"

record invoice =
  inv_id :: uuid
  inv_org :: uuid
  inv_number :: string
  inv_product :: product
  inv_sku :: sku
  inv_request :: "uuid option"
  inv_amount_idr :: int
  inv_discount_idr :: int
  inv_promo_code :: "string option"
  inv_dpp_idr :: int
  inv_ppn_idr :: int
  inv_pph23_idr :: int
  inv_total_idr :: int
  inv_period_start :: datetime
  inv_period_end :: datetime
  inv_due_date :: datetime
  inv_sent_at :: "datetime option"
  inv_status :: invoice_status
  inv_bank_ref :: "string option"
  inv_notes :: string
  inv_paid_at :: "datetime option"
  inv_created_by :: "uuid option"
  inv_created_at :: datetime
  inv_updated_at :: datetime

definition invoice_ok :: "invoice \<Rightarrow> bool" where
  "invoice_ok i \<longleftrightarrow> 0 \<le> inv_amount_idr i
     \<and> opt_all (\<lambda>c. c = upper c) (inv_promo_code i)
     \<and> 0 \<le> inv_discount_idr i \<and> inv_discount_idr i \<le> inv_amount_idr i
     \<and> inv_total_idr i = inv_amount_idr i - inv_discount_idr i + inv_ppn_idr i"

datatype direction = Upgrade | Downgrade
datatype request_status = RPending | RApproved | RRejected | RCanceled

record sub_request =
  req_id :: uuid
  req_org :: uuid
  req_by :: "uuid option"
  req_direction :: direction
  req_current_sku :: sku
  req_target_sku :: sku
  req_cycle :: cycle
  req_promo_code :: "string option"
  req_note :: string
  req_status :: request_status
  req_resolution_note :: string
  req_resolved_by :: "uuid option"
  req_resolved_at :: "datetime option"
  req_created_at :: datetime
  req_updated_at :: datetime

datatype sub_status = Incomplete | Active | PastDue | Canceled

record subscription =
  sub_id :: uuid
  sub_org :: uuid
  sub_sku :: sku
  sub_status :: sub_status
  sub_cycle :: cycle
  sub_period_start :: "datetime option"
  sub_period_end :: "datetime option"
  sub_cancel_at_period_end :: bool
  sub_cancel_note :: string
  sub_canceled_at :: "datetime option"
  sub_ended_at :: "datetime option"
  sub_provider :: string
  sub_provider_ref :: "string option"
  sub_created_at :: datetime
  sub_updated_at :: datetime

datatype attempt_status = APending | ASucceeded | AFailed | AExpired | ARefunded

record payment_attempt =
  att_id :: uuid
  att_org :: uuid
  att_subscription :: "uuid option"
  att_invoice :: "uuid option"
  att_provider :: string
  att_provider_ref :: "string option"
  att_order_id :: "string option"
  att_payment_id :: "string option"
  att_token :: "string option"
  att_checkout_url :: "string option"
  att_expires_at :: "datetime option"
  att_provider_status :: "string option"
  att_seq :: "int option"
  att_created_by :: "uuid option"
  att_amount_idr :: int
  att_currency :: string
  att_status :: attempt_status
  att_method :: "string option"
  att_failure_code :: "string option"
  att_failure_message :: "string option"
  att_fee_idr :: int
  att_refunded_idr :: int
  att_next_retry_at :: "datetime option"
  att_succeeded_at :: "datetime option"
  att_failed_at :: "datetime option"
  att_created_at :: datetime
  att_updated_at :: datetime

definition attempt_ok :: "payment_attempt \<Rightarrow> bool" where
  "attempt_ok a \<longleftrightarrow> 0 \<le> att_amount_idr a \<and> 0 \<le> att_fee_idr a \<and> 0 \<le> att_refunded_idr a"

datatype event_status = EReceived | EProcessed | EIgnored | EFailed

record payment_event =
  evt_provider :: string
  evt_id :: string
  evt_type :: string
  evt_payload :: "(string \<times> string) list"
  evt_status :: event_status
  evt_error :: "string option"
  evt_received_at :: datetime
  evt_processed_at :: "datetime option"

datatype pkp_status = PkpUnknown | Pkp | NonPkp

record billing_profile =
  prof_org :: uuid
  prof_legal_name :: string
  prof_tax_id :: string
  prof_nitku :: string
  prof_address_line1 :: string
  prof_address_line2 :: string
  prof_city :: string
  prof_province :: string
  prof_postal_code :: string
  prof_country :: string
  prof_billing_email :: string
  prof_po_required :: bool
  prof_po_number :: string
  prof_terms_days :: int
  prof_pkp :: pkp_status
  prof_created_at :: datetime
  prof_updated_at :: datetime

record billing_recipient =
  rcp_id :: uuid
  rcp_org :: uuid
  rcp_email :: string
  rcp_kind :: string
  rcp_is_primary :: bool
  rcp_verified_at :: "datetime option"
  rcp_disabled_at :: "datetime option"
  rcp_created_at :: datetime
  rcp_updated_at :: datetime

record billing_reminder =
  rem_invoice :: uuid
  rem_org :: uuid
  rem_stage :: string
  rem_stage_rank :: nat
  rem_attempts :: nat
  rem_sent_count :: nat
  rem_failed_count :: nat
  rem_last_error :: "string option"
  rem_updated_at :: datetime

subsection \<open>The database\<close>

record db =
  users :: "user list"
  orgs :: "organization list"
  memberships :: "membership list"
  invites :: "invite list"
  tiers :: "sku_tier list"
  tier_log :: "tier_history list"
  catalog :: "catalog_row list"
  promos :: "promo_code list"
  promo_log :: "promo_history list"
  redemptions :: "redemption list"
  invoices :: "invoice list"
  requests :: "sub_request list"
  subs :: "subscription list"
  attempts :: "payment_attempt list"
  events :: "payment_event list"
  profiles :: "billing_profile list"
  recipients :: "billing_recipient list"
  reminders :: "billing_reminder list"
  scan_assets :: "uuid list"             \<comment> \<open>the \<open>organization_id\<close> of each row\<close>
  host_sites :: "uuid list"
  uptime_monitors :: "uuid list"
  guard_agents :: "(uuid \<times> bool) list"  \<comment> \<open>\<open>organization_id\<close>, \<open>disabled_at IS NOT NULL\<close>\<close>

definition empty_db :: db where
  "empty_db = \<lparr>users = [], orgs = [], memberships = [], invites = [], tiers = [], tier_log = [], catalog = [],
     promos = [], promo_log = [], redemptions = [], invoices = [], requests = [], subs = [],
     attempts = [], events = [], profiles = [], recipients = [],
     reminders = [], scan_assets = [], host_sites = [],
     uptime_monitors = [], guard_agents = []\<rparr>"

interpretation org_tbl: row_store orgs orgs_update org_id
  by unfold_locales simp

interpretation membership_tbl: row_store memberships memberships_update "\<lambda>m. (mem_org m, mem_user m)"
  by unfold_locales simp

interpretation invite_tbl: row_store invites invites_update ivt_id
  by unfold_locales simp

interpretation reminder_tbl: row_store reminders reminders_update "\<lambda>r. (rem_invoice r, rem_stage r)"
  by unfold_locales simp

interpretation tier_tbl: row_store tiers tiers_update tier_code
  by unfold_locales simp

interpretation catalog_tbl: row_store catalog catalog_update "\<lambda>r. (cat_product r, cat_sku r)"
  by unfold_locales simp

interpretation promo_tbl: row_store promos promos_update promo_id
  by unfold_locales simp

interpretation redemption_tbl: row_store redemptions redemptions_update red_invoice
  by unfold_locales simp

interpretation invoice_tbl: row_store invoices invoices_update inv_id
  by unfold_locales simp

interpretation request_tbl: row_store requests requests_update req_id
  by unfold_locales simp

interpretation sub_tbl: row_store subs subs_update sub_org
  by unfold_locales simp

interpretation attempt_tbl: row_store attempts attempts_update att_id
  by unfold_locales simp

interpretation event_tbl: row_store events events_update "\<lambda>e. (evt_provider e, evt_id e)"
  by unfold_locales simp

abbreviation get_org :: "db \<Rightarrow> uuid \<Rightarrow> organization option" where
  "get_org d i \<equiv> row_get org_id i (orgs d)"

abbreviation get_invoice :: "db \<Rightarrow> uuid \<Rightarrow> invoice option" where
  "get_invoice d i \<equiv> row_get inv_id i (invoices d)"

abbreviation get_request :: "db \<Rightarrow> uuid \<Rightarrow> sub_request option" where
  "get_request d i \<equiv> row_get req_id i (requests d)"

abbreviation get_sub :: "db \<Rightarrow> uuid \<Rightarrow> subscription option" where
  "get_sub d i \<equiv> row_get sub_org i (subs d)"

abbreviation get_attempt :: "db \<Rightarrow> uuid \<Rightarrow> payment_attempt option" where
  "get_attempt d i \<equiv> row_get att_id i (attempts d)"

subsection \<open>Inserts, with the constraints the database checks at the flush\<close>

definition insert_tier :: "sku_tier \<Rightarrow> db \<Rightarrow> db result" where
  "insert_tier t d =
     (if tier_ok t \<and> tier_code t \<notin> set (map tier_code (tiers d))
         \<and> tier_rank t \<notin> set (map tier_rank (tiers d))
         \<and> (tier_is_default t \<longrightarrow> \<not> list_ex tier_is_default (tiers d))
      then Inr (d\<lparr>tiers := tiers d @ [t]\<rparr>) else Inl IntegrityError)"

definition insert_promo :: "promo_code \<Rightarrow> db \<Rightarrow> db result" where
  "insert_promo p d =
     (if promo_ok p \<and> promo_id p \<notin> set (map promo_id (promos d))
         \<and> promo_code p \<notin> set (map promo_code (promos d))
         \<and> opt_all (\<lambda>c. c \<in> set (map tier_code (tiers d))) (promo_applies_to_sku p)
      then Inr (d\<lparr>promos := promos d @ [p]\<rparr>) else Inl IntegrityError)"

definition insert_redemption :: "redemption \<Rightarrow> db \<Rightarrow> db result" where
  "insert_redemption r d =
     (if redemption_ok r \<and> red_id r \<notin> set (map red_id (redemptions d))
         \<and> red_invoice r \<notin> set (map red_invoice (redemptions d))
         \<and> (red_request r = None \<or> red_request r \<notin> set (map red_request (redemptions d)))
      then Inr (d\<lparr>redemptions := redemptions d @ [r]\<rparr>) else Inl IntegrityError)"

definition insert_invoice :: "invoice \<Rightarrow> db \<Rightarrow> db result" where
  "insert_invoice i d =
     (if invoice_ok i \<and> inv_id i \<notin> set (map inv_id (invoices d)) \<and> inv_number i \<notin> set (map inv_number (invoices d))
         \<and> (inv_request i = None \<or> inv_request i \<notin> set (map inv_request (invoices d)))
      then Inr (d\<lparr>invoices := invoices d @ [i]\<rparr>) else Inl IntegrityError)"

definition insert_attempt :: "payment_attempt \<Rightarrow> db \<Rightarrow> db result" where
  "insert_attempt a d =
     (if attempt_ok a \<and> att_id a \<notin> set (map att_id (attempts d))
         \<and> (att_order_id a = None \<or> (att_provider a, att_order_id a)
              \<notin> set (map (\<lambda>b. (att_provider b, att_order_id b)) (attempts d)))
         \<and> (att_status a = APending \<and> att_invoice a \<noteq> None \<longrightarrow> att_invoice a
              \<notin> set (map att_invoice (filter (\<lambda>b. att_status b = APending) (attempts d))))
      then Inr (d\<lparr>attempts := attempts d @ [a]\<rparr>) else Inl IntegrityError)"

lemma insert_tier_Inr [errs]: "insert_tier t d = Inr d' \<longleftrightarrow>
    tier_ok t \<and> tier_code t \<notin> tier_code ` set (tiers d) \<and> tier_rank t \<notin> tier_rank ` set (tiers d)
    \<and> (tier_is_default t \<longrightarrow> (\<forall>x\<in>set (tiers d). \<not> tier_is_default x))
    \<and> d' = d\<lparr>tiers := tiers d @ [t]\<rparr>"
  by (auto simp: insert_tier_def list_ex_iff)

lemma insert_promo_Inr [errs]: "insert_promo p d = Inr d' \<longleftrightarrow>
    promo_ok p \<and> promo_id p \<notin> promo_id ` set (promos d) \<and> promo_code p \<notin> promo_code ` set (promos d)
    \<and> opt_all (\<lambda>c. c \<in> tier_code ` set (tiers d)) (promo_applies_to_sku p)
    \<and> d' = d\<lparr>promos := promos d @ [p]\<rparr>"
  by (auto simp: insert_promo_def)

lemma insert_redemption_Inr [errs]: "insert_redemption r d = Inr d' \<longleftrightarrow>
    redemption_ok r \<and> red_id r \<notin> red_id ` set (redemptions d) \<and> red_invoice r \<notin> red_invoice ` set (redemptions d)
    \<and> (red_request r = None \<or> red_request r \<notin> red_request ` set (redemptions d))
    \<and> d' = d\<lparr>redemptions := redemptions d @ [r]\<rparr>"
  by (auto simp: insert_redemption_def)

lemma insert_invoice_Inr [errs]: "insert_invoice i d = Inr d' \<longleftrightarrow>
    invoice_ok i \<and> inv_id i \<notin> inv_id ` set (invoices d) \<and> inv_number i \<notin> inv_number ` set (invoices d)
    \<and> (inv_request i = None \<or> inv_request i \<notin> inv_request ` set (invoices d))
    \<and> d' = d\<lparr>invoices := invoices d @ [i]\<rparr>"
  by (auto simp: insert_invoice_def)

lemma insert_attempt_Inr [errs]: "insert_attempt a d = Inr d' \<Longrightarrow>
    attempt_ok a \<and> att_id a \<notin> att_id ` set (attempts d) \<and> d' = d\<lparr>attempts := attempts d @ [a]\<rparr>"
  by (auto simp: insert_attempt_def split: if_splits)

end
