(* ===== verification/SkuTier.thy ===== *)
theory SkuTier
  imports Schema
begin

text \<open>
  The catalog of subscription tiers (\<open>services/sku_tier.py\<close>): reads, the admin mutations
  \<open>create\<close>, \<open>update\<close>, \<open>deactivate\<close>, \<open>reactivate\<close> and \<open>delete\<close>, and their audit rows. A handler
  maps the database to an error or to its result and the committed database. An instant \<open>now\<close>
  stands for the handler's clock reads.

  \<open>tiers_inv\<close> is what the mutations promise: codes and ranks identify tiers, there is exactly one
  default tier and it can be requested, and the flags of a sales-led tier are consistent.
  \<open>catalog_inv\<close> says that exactly the tiers that are not sales-led have a price for each product.
\<close>

subsection \<open>Bodies and projections\<close>

record price_body =
  pb_list_idr :: int
  pb_invoicable :: bool

record tier_create_body =
  cb_code :: sku
  cb_label :: string
  cb_rank :: "int option"
  cb_active :: bool
  cb_requestable :: bool
  cb_sales_led :: bool
  cb_is_default :: bool
  cb_bundle_idr :: "int option"
  cb_limit_scan :: int
  cb_limit_host :: int
  cb_limit_uptime :: int
  cb_limit_guard :: int
  cb_allow_status_page :: bool
  cb_allow_custom_host :: bool
  cb_allow_waf_protect :: bool
  cb_allow_siem :: bool
  cb_billing_unrestricted :: bool
  cb_editor_limit :: "int option"
  cb_viewer_limit :: "int option"
  cb_prices :: "(product \<Rightarrow> price_body option) option"

text \<open>
  An absent field of an update and an explicit null mean the same for most fields. Where the code
  asks \<open>in model_fields_set\<close> alone the field is an option of an option: \<open>None\<close> is absent.
\<close>

record tier_update_body =
  ub_label :: "string option"
  ub_rank :: "int option"
  ub_active :: "bool option"
  ub_requestable :: "bool option"
  ub_sales_led :: "bool option"
  ub_is_default :: "bool option"
  ub_bundle_idr :: "int option option"
  ub_limit_scan :: "int option"
  ub_limit_host :: "int option"
  ub_limit_uptime :: "int option"
  ub_limit_guard :: "int option"
  ub_allow_status_page :: "bool option"
  ub_allow_custom_host :: "bool option"
  ub_allow_waf_protect :: "bool option"
  ub_allow_siem :: "bool option option"
  ub_billing_unrestricted :: "bool option option"
  ub_editor_limit :: "int option option"
  ub_viewer_limit :: "int option option"
  ub_prices :: "(product \<Rightarrow> price_body option) option"

record sku_features =
  feat_status_page :: bool
  feat_custom_host :: bool
  feat_waf_protect :: bool
  feat_siem :: bool
  feat_billing_unrestricted :: bool
  feat_sales_led :: bool
  feat_requestable :: bool

definition from_tier :: "sku_tier \<Rightarrow> sku_features" where
  "from_tier t = \<lparr>feat_status_page = tier_allow_status_page t,
     feat_custom_host = tier_allow_custom_host t, feat_waf_protect = tier_allow_waf_protect t,
     feat_siem = tier_allow_siem t, feat_billing_unrestricted = tier_billing_unrestricted t,
     feat_sales_led = tier_sales_led t, feat_requestable = tier_requestable t\<rparr>"

definition tier_values :: "sku_tier \<Rightarrow> (string \<times> jval) list" where
  "tier_values t =
    [(''label'', JStr (tier_label t)), (''rank'', JInt (tier_rank t)),
     (''active'', JBool (tier_active t)), (''requestable'', JBool (tier_requestable t)),
     (''sales_led'', JBool (tier_sales_led t)), (''is_default'', JBool (tier_is_default t)),
     (''bundle_idr'', jopt JInt (tier_bundle_idr t)),
     (''limit_scan'', JInt (tier_limit_scan t)), (''limit_host'', JInt (tier_limit_host t)),
     (''limit_uptime'', JInt (tier_limit_uptime t)), (''limit_guard'', JInt (tier_limit_guard t)),
     (''allow_status_page'', JBool (tier_allow_status_page t)),
     (''allow_custom_host'', JBool (tier_allow_custom_host t)),
     (''allow_waf_protect'', JBool (tier_allow_waf_protect t)),
     (''allow_siem'', JBool (tier_allow_siem t)),
     (''billing_unrestricted'', JBool (tier_billing_unrestricted t)),
     (''workspace_editor_limit'', jopt JInt (tier_editor_limit t)),
     (''workspace_viewer_limit'', jopt JInt (tier_viewer_limit t))]"

definition create_defaults :: "(string \<times> jval) list" where
  "create_defaults =
    [(''active'', JBool True), (''requestable'', JBool True), (''sales_led'', JBool False),
     (''is_default'', JBool False), (''bundle_idr'', JNull), (''allow_status_page'', JBool False),
     (''allow_custom_host'', JBool False), (''allow_waf_protect'', JBool False),
     (''allow_siem'', JBool False), (''billing_unrestricted'', JBool False),
     (''workspace_editor_limit'', JNull), (''workspace_viewer_limit'', JNull)]"

definition price_field :: "product \<Rightarrow> string \<Rightarrow> string" where
  "price_field p f = ''price.'' @ product_name p @ ''.'' @ f"

definition price_values :: "(product \<Rightarrow> catalog_row option) \<Rightarrow> (string \<times> jval) list" where
  "price_values rows = concat (map (\<lambda>p.
     [(price_field p ''list_idr'', jopt (\<lambda>r. JInt (cat_list_idr r)) (rows p)),
      (price_field p ''invoicable'', jopt (\<lambda>r. JBool (cat_invoicable r)) (rows p))])
     INVOICE_PRODUCTS)"

definition dict_get :: "(string \<times> jval) list \<Rightarrow> string \<Rightarrow> jval" where
  "dict_get kvs k = or_else (map_of kvs k) JNull"

definition diff_changes :: "(string \<times> jval) list \<Rightarrow> (string \<times> jval) list \<Rightarrow> changes" where
  "diff_changes before after =
     map (\<lambda>(f, v). (f, dict_get before f, v))
       (filter (\<lambda>(f, v). dict_get before f \<noteq> v) after)"

definition created_changes :: "sku_tier \<Rightarrow> (product \<Rightarrow> price_body option) option \<Rightarrow> changes" where
  "created_changes t prices =
     map (\<lambda>(f, v). (f, JNull, v))
       (filter (\<lambda>(f, v). map_of create_defaults f \<noteq> Some v) (tier_values t))
     @ (case prices of None \<Rightarrow> [] | Some ps \<Rightarrow>
         concat (map (\<lambda>p. case ps p of None \<Rightarrow> [] | Some b \<Rightarrow>
           [(price_field p ''list_idr'', JNull, JInt (pb_list_idr b)),
            (price_field p ''invoicable'', JNull, JBool (pb_invoicable b))]) INVOICE_PRODUCTS))"

definition deleted_changes :: "sku_tier \<Rightarrow> (product \<Rightarrow> catalog_row option) \<Rightarrow> changes" where
  "deleted_changes t rows = map (\<lambda>(f, v). (f, JNull, v)) (tier_values t @ price_values rows)"

definition seat_word :: "int option \<Rightarrow> string \<Rightarrow> string" where
  "seat_word limit noun = (case limit of
     None \<Rightarrow> ''unlimited '' @ noun @ ''s''
   | Some n \<Rightarrow> if n = 1 then show_int n @ '' '' @ noun else show_int n @ '' '' @ noun @ ''s'')"

definition workspace_seat_cap_detail :: "string \<Rightarrow> int option \<Rightarrow> int option \<Rightarrow> string" where
  "workspace_seat_cap_detail label editor_limit viewer_limit =
     label @ '' workspace allows '' @ seat_word editor_limit ''editor'' @ '' and ''
     @ seat_word viewer_limit ''viewer'' @ ''. Upgrade for more seats.''"

definition bad_request :: "string \<Rightarrow> error" where "bad_request detail = HTTPError 400 detail"
definition conflict :: "string \<Rightarrow> error" where "conflict detail = HTTPError 409 detail"

definition clean_label :: "string \<Rightarrow> string result" where
  "clean_label label = (let cleaned = strip label in
     if 1 \<le> length cleaned \<and> length cleaned \<le> 60 then Inr cleaned
     else Inl (bad_request ''label must be 1..60 characters after trimming''))"

definition check_limits :: "(product \<times> int) list \<Rightarrow> unit result" where
  "check_limits limits = efold (\<lambda>(p, v) u. raise_if (v < 1)
     (bad_request (''limit_'' @ product_name p @ '' must be >= 1''))) limits ()"

definition check_cross_field ::
    "bool \<Rightarrow> bool \<Rightarrow> bool \<Rightarrow> bool \<Rightarrow> bool \<Rightarrow> bool \<Rightarrow> (bool \<times> bool \<times> bool) result" where
  "check_cross_field sales_led requestable allow_status_page allow_custom_host allow_siem
       billing_unrestricted =
     (if sales_led then Inr (False, True, True)
      else if allow_siem then Inl (bad_request ''allow_siem requires sales_led=true'')
      else if billing_unrestricted
        then Inl (bad_request ''billing_unrestricted requires sales_led=true'')
      else if allow_custom_host \<and> \<not> allow_status_page
        then Inl (bad_request ''allow_custom_host requires allow_status_page=true'')
      else Inr (requestable, allow_siem, billing_unrestricted))"

subsection \<open>History\<close>

definition log_tier :: "sku \<Rightarrow> string \<Rightarrow> uuid option \<Rightarrow> changes \<Rightarrow> datetime \<Rightarrow> db \<Rightarrow> db" where
  "log_tier code action actor ch now d =
     d\<lparr>tier_log := tier_log d @ [\<lparr>sth_code = code, sth_action = action, sth_actor = actor,
        sth_org = None, sth_changes = ch, sth_at = now\<rparr>]\<rparr>"

definition record_tier_assignment ::
    "uuid \<Rightarrow> sku \<Rightarrow> sku option \<Rightarrow> uuid option \<Rightarrow> string option \<Rightarrow> datetime \<Rightarrow> db \<Rightarrow> db" where
  "record_tier_assignment organization code previous actor source now d =
     d\<lparr>tier_log := tier_log d @ [\<lparr>sth_code = code, sth_action = ''assigned'', sth_actor = actor,
        sth_org = Some organization,
        sth_changes = (''tier'', jopt JStr previous, JStr code)
          # (case source of None \<Rightarrow> []
             | Some s \<Rightarrow> if s = [] then [] else [(''source'', JNull, JStr s)]),
        sth_at = now\<rparr>]\<rparr>"

definition tier_history_page ::
    "(tier_history \<Rightarrow> bool) \<Rightarrow> nat \<Rightarrow> nat \<Rightarrow> db \<Rightarrow> (tier_history \<times> string option \<times> string option) list \<times> nat"
    where
  "tier_history_page clause page page_size d =
     (let rows = desc_by sth_at (filter clause (tier_log d)) in
      (map (\<lambda>h. (h,
          (case sth_actor h of None \<Rightarrow> None
           | Some u \<Rightarrow> map_option user_email (row_get user_id u (users d))),
          (case sth_org h of None \<Rightarrow> None
           | Some org_ref \<Rightarrow> map_option org_name (row_get org_id org_ref (orgs d)))))
        (page_of page page_size rows), length rows))"

definition history_for_tier :: "sku \<Rightarrow> nat \<Rightarrow> nat \<Rightarrow> db \<Rightarrow> (tier_history \<times> string option \<times> string option) list \<times> nat"
    where
  "history_for_tier code = tier_history_page (\<lambda>h. sth_code h = code)"

definition history_for_org :: "uuid \<Rightarrow> nat \<Rightarrow> nat \<Rightarrow> db \<Rightarrow> (tier_history \<times> string option \<times> string option) list \<times> nat"
    where
  "history_for_org organization = tier_history_page (\<lambda>h. sth_org h = Some organization)"

subsection \<open>Reads\<close>

definition tier_list :: "bool \<Rightarrow> db \<Rightarrow> sku_tier list" where
  "tier_list include_inactive d =
     filter (\<lambda>t. include_inactive \<or> tier_active t) (sort_key tier_rank (tiers d))"

definition tier_get :: "db \<Rightarrow> sku \<Rightarrow> sku_tier result" where
  "tier_get d code = get_or (HTTPError 404 (''Unknown SKU tier '' @ quoted code))
     (row_get tier_code code (tiers d))"

definition tier_get_active :: "db \<Rightarrow> sku \<Rightarrow> sku_tier result" where
  "tier_get_active d code = ebind (tier_get d code) (\<lambda>t.
     if \<not> tier_active t then Inl (HTTPError 400 (''SKU tier '' @ quoted (tier_label t) @ '' is inactive''))
     else Inr t)"

definition tier_default :: "db \<Rightarrow> sku_tier result" where
  "tier_default d = get_or (HTTPError 500 ''No default SKU tier configured (sku_tiers.is_default)'')
     (first_row (filter tier_is_default (tiers d)))"

definition limit_for :: "sku_tier \<Rightarrow> product \<Rightarrow> int" where
  "limit_for t p = (case p of Scan \<Rightarrow> tier_limit_scan t | Host \<Rightarrow> tier_limit_host t
     | Uptime \<Rightarrow> tier_limit_uptime t | Guard \<Rightarrow> tier_limit_guard t)"

definition tier_limits :: "db \<Rightarrow> sku \<Rightarrow> (product \<Rightarrow> int) result" where
  "tier_limits d code = ebind (tier_get d code) (\<lambda>t. Inr (limit_for t))"

definition product_limit :: "db \<Rightarrow> sku \<Rightarrow> product \<Rightarrow> int result" where
  "product_limit d code p = ebind (tier_get d code) (\<lambda>t. Inr (limit_for t p))"

definition tier_features :: "db \<Rightarrow> sku \<Rightarrow> sku_features result" where
  "tier_features d code = ebind (tier_get d code) (\<lambda>t. Inr (from_tier t))"

definition workspace_limits :: "db \<Rightarrow> sku \<Rightarrow> (int option \<times> int option) result" where
  "workspace_limits d code =
     ebind (tier_get d code) (\<lambda>t. Inr (tier_editor_limit t, tier_viewer_limit t))"

record sku_usage =
  use_orgs :: nat
  use_subscriptions :: nat
  use_invoices :: nat
  use_requests :: nat
  use_promos :: nat

definition usage_counts :: "db \<Rightarrow> sku \<Rightarrow> sku_usage" where
  "usage_counts d code =
     \<lparr>use_orgs = count_where (\<lambda>x. org_sku x = code) (orgs d),
      use_subscriptions = count_where (\<lambda>s. sub_sku s = code) (subs d),
      use_invoices = count_where (\<lambda>i. inv_sku i = code) (invoices d),
      use_requests = count_where (\<lambda>r. req_current_sku r = code \<or> req_target_sku r = code) (requests d),
      use_promos = count_where (\<lambda>p. promo_applies_to_sku p = Some code) (promos d)\<rparr>"

text \<open>One grouped statement: \<open>GROUP BY column\<close> over the rows whose column is in the list.\<close>

definition grouped :: "('r \<Rightarrow> sku option) \<Rightarrow> 'r list \<Rightarrow> sku list \<Rightarrow> (sku \<times> nat) list" where
  "grouped column rows unique =
     (let present = filter (\<lambda>r. column r \<in> Some ` set unique) rows in
      map (\<lambda>code. (code, count_where (\<lambda>r. column r = Some code) present))
        (filter (\<lambda>code. list_ex (\<lambda>r. column r = Some code) present) unique))"

definition count_of :: "(sku \<times> nat) list \<Rightarrow> sku \<Rightarrow> nat" where
  "count_of kvs code = or_else (map_of kvs code) 0"

definition usage_counts_many :: "db \<Rightarrow> sku list \<Rightarrow> (sku \<times> sku_usage) list" where
  "usage_counts_many d codes =
     (if codes = [] then [] else
      let unique = rev (remdups (rev codes));
          o_n = grouped (\<lambda>x. Some (org_sku x)) (orgs d) unique;
          s_n = grouped (\<lambda>s. Some (sub_sku s)) (subs d) unique;
          i_n = grouped (\<lambda>i. Some (inv_sku i)) (invoices d) unique;
          c_n = grouped (\<lambda>r. Some (req_current_sku r)) (requests d) unique;
          t_n = grouped (\<lambda>r. Some (req_target_sku r)) (requests d) unique;
          p_n = grouped promo_applies_to_sku (promos d) unique
      in map (\<lambda>code. (code, \<lparr>use_orgs = count_of o_n code, use_subscriptions = count_of s_n code,
            use_invoices = count_of i_n code,
            use_requests = count_of c_n code + count_of t_n code,
            use_promos = count_of p_n code\<rparr>)) unique)"

definition catalog_presence_many :: "db \<Rightarrow> sku list \<Rightarrow> sku set" where
  "catalog_presence_many d codes = set (filter (\<lambda>c. c \<in> set codes) (map cat_sku (catalog d)))"

definition rank_taken :: "db \<Rightarrow> int \<Rightarrow> sku option \<Rightarrow> bool" where
  "rank_taken d rank exclude =
     list_ex (\<lambda>t. tier_rank t = rank \<and> exclude \<noteq> Some (tier_code t)) (tiers d)"

definition next_rank :: "db \<Rightarrow> int" where
  "next_rank d = (if tiers d = [] then 0 else Max (set (map tier_rank (tiers d)))) + 1"

definition requestable_codes :: "db \<Rightarrow> sku option \<Rightarrow> sku list" where
  "requestable_codes d exclude = map tier_code
     (filter (\<lambda>t. tier_active t \<and> tier_requestable t \<and> exclude \<noteq> Some (tier_code t)) (tiers d))"

definition ensure_not_last_requestable :: "db \<Rightarrow> sku \<Rightarrow> string \<Rightarrow> unit result" where
  "ensure_not_last_requestable d code label = raise_if (requestable_codes d (Some code) = [])
     (conflict (label @ '' is the last tier a customer can request; make another tier requestable before retiring it''))"

definition demote_default :: "datetime \<Rightarrow> sku_tier list \<Rightarrow> sku_tier list" where
  "demote_default now ts = map (\<lambda>t. if tier_is_default t
     then t\<lparr>tier_is_default := False, tier_updated_at := now\<rparr> else t) ts"

definition catalog_row_of :: "catalog_row list \<Rightarrow> sku \<Rightarrow> product \<Rightarrow> catalog_row option" where
  "catalog_row_of c code p = find (\<lambda>r. cat_product r = p \<and> cat_sku r = code) c"

definition catalog_rows :: "db \<Rightarrow> sku \<Rightarrow> product \<Rightarrow> catalog_row option" where
  "catalog_rows d code = catalog_row_of (catalog d) code"

definition has_all_prices :: "(product \<Rightarrow> price_body option) option \<Rightarrow> bool" where
  "has_all_prices prices = (case prices of None \<Rightarrow> False
     | Some ps \<Rightarrow> list_all (\<lambda>p. ps p \<noteq> None) INVOICE_PRODUCTS)"

definition price_for :: "(product \<Rightarrow> price_body option) option \<Rightarrow> product \<Rightarrow> price_body option" where
  "price_for prices p = (case prices of None \<Rightarrow> None | Some ps \<Rightarrow> ps p)"

subsection \<open>Mutations\<close>

definition new_catalog_row :: "sku \<Rightarrow> uuid \<Rightarrow> datetime \<Rightarrow> product \<Rightarrow> price_body \<Rightarrow> catalog_row" where
  "new_catalog_row code actor now p b = \<lparr>cat_product = p, cat_sku = code,
     cat_list_idr = pb_list_idr b, cat_invoicable = pb_invoicable b,
     cat_updated_at = now, cat_updated_by = Some actor\<rparr>"

text \<open>An insert into \<open>sku_catalog\<close>: its primary key is \<open>(product, sku)\<close>.\<close>

definition insert_catalog :: "catalog_row \<Rightarrow> catalog_row list \<Rightarrow> catalog_row list result" where
  "insert_catalog r c =
     (if catalog_ok r \<and> catalog_row_of c (cat_sku r) (cat_product r) = None
      then Inr (c @ [r]) else Inl IntegrityError)"

definition on_integrity_error :: "error \<Rightarrow> 'a result \<Rightarrow> 'a result" where
  "on_integrity_error e m = (case m of Inl IntegrityError \<Rightarrow> Inl e | r \<Rightarrow> r)"

lemma on_integrity_error_Inr [errs]: "on_integrity_error e m = Inr x \<longleftrightarrow> m = Inr x"
  by (auto simp: on_integrity_error_def split: sum.splits error.splits)

definition tier_taken :: "sku \<Rightarrow> int \<Rightarrow> error" where
  "tier_taken code rank =
     conflict (''SKU tier '' @ quoted code @ '' or rank '' @ show_int rank @ '' already exists'')"

definition tier_of_body ::
    "tier_create_body \<Rightarrow> string \<Rightarrow> int \<Rightarrow> bool \<times> bool \<times> bool \<Rightarrow> uuid \<Rightarrow> datetime \<Rightarrow> sku_tier" where
  "tier_of_body b label rank flags actor now =
     (let (requestable, allow_siem, billing_unrestricted) = flags in
      \<lparr>tier_code = cb_code b, tier_label = label, tier_rank = rank, tier_active = cb_active b,
       tier_requestable = requestable, tier_sales_led = cb_sales_led b,
       tier_is_default = cb_is_default b, tier_bundle_idr = cb_bundle_idr b,
       tier_limit_scan = cb_limit_scan b, tier_limit_host = cb_limit_host b,
       tier_limit_uptime = cb_limit_uptime b, tier_limit_guard = cb_limit_guard b,
       tier_allow_status_page = cb_allow_status_page b,
       tier_allow_custom_host = cb_allow_custom_host b,
       tier_allow_waf_protect = cb_allow_waf_protect b, tier_allow_siem = allow_siem,
       tier_billing_unrestricted = billing_unrestricted,
       tier_editor_limit = cb_editor_limit b, tier_viewer_limit = cb_viewer_limit b,
       tier_created_at = now, tier_updated_at = now, tier_updated_by = Some actor\<rparr>)"

definition tier_create :: "tier_create_body \<Rightarrow> uuid \<Rightarrow> datetime \<Rightarrow> db \<Rightarrow> (sku_tier \<times> db) result" where
  "tier_create body actor now d =
    (let code = cb_code body in
     ebind (raise_if (row_get tier_code code (tiers d) \<noteq> None)
       (conflict (''SKU tier '' @ quoted code @ '' already exists''))) (\<lambda>_.
     ebind (clean_label (cb_label body)) (\<lambda>label.
     ebind (check_limits [(Scan, cb_limit_scan body), (Host, cb_limit_host body),
       (Uptime, cb_limit_uptime body), (Guard, cb_limit_guard body)]) (\<lambda>_.
     let rank = or_else (cb_rank body) (next_rank d) in
     ebind (raise_if (rank_taken d rank None)
       (conflict (''Tier rank '' @ show_int rank @ '' is already in use''))) (\<lambda>_.
     ebind (check_cross_field (cb_sales_led body) (cb_requestable body)
       (cb_allow_status_page body) (cb_allow_custom_host body) (cb_allow_siem body)
       (cb_billing_unrestricted body)) (\<lambda>flags.
     ebind (raise_if (cb_is_default body \<and> \<not> (cb_active body \<and> \<not> cb_sales_led body \<and> fst flags))
       (bad_request ''The default tier must be active, requestable and not sales-led'')) (\<lambda>_.
     ebind (raise_if (\<not> cb_sales_led body \<and> \<not> has_all_prices (cb_prices body))
       (bad_request ''sales_led=false requires prices for scan, host, uptime and guard'')) (\<lambda>_.
     let d1 = (if cb_is_default body then d\<lparr>tiers := demote_default now (tiers d)\<rparr> else d);
         t = tier_of_body body label rank flags actor now in
     ebind (insert_tier t d1) (\<lambda>d2.
     ebind (on_integrity_error (tier_taken code rank)
       (if cb_sales_led body then Inr (catalog d2)
        else efold (\<lambda>p c. case price_for (cb_prices body) p of
            None \<Rightarrow> Inr c
          | Some b \<Rightarrow> insert_catalog (new_catalog_row code actor now p b) c)
          INVOICE_PRODUCTS (catalog d2))) (\<lambda>c.
     Inr (t, log_tier code ''created'' (Some actor) (created_changes t (cb_prices body)) now
       (d2\<lparr>catalog := c\<rparr>))))))))))))"

text \<open>
  The update: the effective values of the body over the stored tier (\<open>merged_tier\<close> after the
  cross-field check), the guards on the default tier and on the last requestable tier, the price
  rows, and the audit row if anything changed.
\<close>

definition update_label :: "tier_update_body \<Rightarrow> sku_tier \<Rightarrow> string result" where
  "update_label b t = (case ub_label b of None \<Rightarrow> Inr (tier_label t) | Some l \<Rightarrow> clean_label l)"

definition update_rank :: "db \<Rightarrow> sku \<Rightarrow> tier_update_body \<Rightarrow> sku_tier \<Rightarrow> int result" where
  "update_rank d code b t = (case ub_rank b of None \<Rightarrow> Inr (tier_rank t)
     | Some r \<Rightarrow> if r \<noteq> tier_rank t \<and> rank_taken d r (Some code)
         then Inl (conflict (''Tier rank '' @ show_int r @ '' is already in use'')) else Inr r)"

definition present_flag :: "bool option option \<Rightarrow> bool \<Rightarrow> bool" where
  "present_flag f x = (case f of Some (Some v) \<Rightarrow> v | _ \<Rightarrow> x)"

definition update_flags :: "tier_update_body \<Rightarrow> sku_tier \<Rightarrow> (bool \<times> bool \<times> bool) result" where
  "update_flags b t =
     (let sales_led = or_else (ub_sales_led b) (tier_sales_led t);
          siem = present_flag (ub_allow_siem b) (tier_allow_siem t);
          unrestricted = present_flag (ub_billing_unrestricted b) (tier_billing_unrestricted t);
          leaving = tier_sales_led t \<and> \<not> sales_led;
          siem' = (if leaving \<and> ub_allow_siem b = None then False else siem);
          unrestricted' = (if leaving \<and> ub_billing_unrestricted b = None then False
                           else unrestricted)
      in check_cross_field sales_led (or_else (ub_requestable b) (tier_requestable t))
           (or_else (ub_allow_status_page b) (tier_allow_status_page t))
           (or_else (ub_allow_custom_host b) (tier_allow_custom_host t)) siem' unrestricted')"

definition merged_tier ::
    "tier_update_body \<Rightarrow> sku_tier \<Rightarrow> string \<Rightarrow> int \<Rightarrow> bool \<times> bool \<times> bool \<Rightarrow> uuid \<Rightarrow> datetime \<Rightarrow> sku_tier"
    where
  "merged_tier b t label rank flags actor now =
     (let (requestable, allow_siem, billing_unrestricted) = flags in
      \<lparr>tier_code = tier_code t, tier_label = label, tier_rank = rank,
       tier_active = or_else (ub_active b) (tier_active t), tier_requestable = requestable,
       tier_sales_led = or_else (ub_sales_led b) (tier_sales_led t),
       tier_is_default = or_else (ub_is_default b) (tier_is_default t),
       tier_bundle_idr = or_else (ub_bundle_idr b) (tier_bundle_idr t),
       tier_limit_scan = or_else (ub_limit_scan b) (tier_limit_scan t),
       tier_limit_host = or_else (ub_limit_host b) (tier_limit_host t),
       tier_limit_uptime = or_else (ub_limit_uptime b) (tier_limit_uptime t),
       tier_limit_guard = or_else (ub_limit_guard b) (tier_limit_guard t),
       tier_allow_status_page = or_else (ub_allow_status_page b) (tier_allow_status_page t),
       tier_allow_custom_host = or_else (ub_allow_custom_host b) (tier_allow_custom_host t),
       tier_allow_waf_protect = or_else (ub_allow_waf_protect b) (tier_allow_waf_protect t),
       tier_allow_siem = allow_siem, tier_billing_unrestricted = billing_unrestricted,
       tier_editor_limit = or_else (ub_editor_limit b) (tier_editor_limit t),
       tier_viewer_limit = or_else (ub_viewer_limit b) (tier_viewer_limit t),
       tier_created_at = tier_created_at t, tier_updated_at = now,
       tier_updated_by = Some actor\<rparr>)"

definition check_default :: "sku_tier \<Rightarrow> sku_tier \<Rightarrow> unit result" where
  "check_default t t' =
     (if tier_is_default t' then
        raise_if (\<not> (tier_active t' \<and> \<not> tier_sales_led t' \<and> tier_requestable t'))
          (bad_request ''The default tier must be active, requestable and not sales-led'')
      else raise_if (tier_is_default t)
          (bad_request ''Cannot unset the default tier; promote another tier first''))"

definition check_prices ::
    "(product \<Rightarrow> price_body option) option \<Rightarrow> (product \<Rightarrow> catalog_row option) \<Rightarrow> sku_tier \<Rightarrow> sku_tier
     \<Rightarrow> unit result" where
  "check_prices prices before_rows t t' =
     (if tier_sales_led t' then Inr ()
      else if tier_sales_led t then raise_if (\<not> has_all_prices prices)
        (bad_request ''Switching away from sales_led requires prices for scan, host, uptime and guard'')
      else efold (\<lambda>p u. raise_if (before_rows p = None \<and> price_for prices p = None)
        (bad_request (''Missing price for '' @ product_name p @ ''; a catalog row must be created'')))
        INVOICE_PRODUCTS ())"

definition upsert_price ::
    "(product \<Rightarrow> price_body option) option \<Rightarrow> (product \<Rightarrow> catalog_row option) \<Rightarrow> sku \<Rightarrow> uuid \<Rightarrow> datetime
     \<Rightarrow> product \<Rightarrow> catalog_row list \<Rightarrow> catalog_row list result" where
  "upsert_price prices existing code actor now p c =
     (case existing p of
        None \<Rightarrow> (case price_for prices p of
            None \<Rightarrow> Inl (bad_request (''Missing price for '' @ product_name p))
          | Some b \<Rightarrow> insert_catalog (new_catalog_row code actor now p b) c)
      | Some _ \<Rightarrow> Inr (map (\<lambda>r. if cat_product r = p \<and> cat_sku r = code then
            (case price_for prices p of
               None \<Rightarrow> r\<lparr>cat_updated_at := now, cat_updated_by := Some actor\<rparr>
             | Some b \<Rightarrow> r\<lparr>cat_list_idr := pb_list_idr b, cat_invoicable := pb_invoicable b,
                 cat_updated_at := now, cat_updated_by := Some actor\<rparr>) else r) c))"

definition after_price_values ::
    "(product \<Rightarrow> price_body option) option \<Rightarrow> (product \<Rightarrow> catalog_row option) \<Rightarrow> (string \<times> jval) list" where
  "after_price_values prices existing = concat (map (\<lambda>p.
     case price_for prices p of
       Some b \<Rightarrow> [(price_field p ''list_idr'', JInt (pb_list_idr b)),
                  (price_field p ''invoicable'', JBool (pb_invoicable b))]
     | None \<Rightarrow> [(price_field p ''list_idr'', jopt (\<lambda>r. JInt (cat_list_idr r)) (existing p)),
                (price_field p ''invoicable'', jopt (\<lambda>r. JBool (cat_invoicable r)) (existing p))])
     INVOICE_PRODUCTS)"

text \<open>The constraints checked at the commit of a changed tier row and its price rows.\<close>

definition commit_tier :: "sku_tier \<Rightarrow> db \<Rightarrow> db result" where
  "commit_tier t d =
     (if list_all catalog_ok (catalog d) \<and> tier_ok t \<and> (\<forall>x\<in>set (tiers d). tier_code x \<noteq> tier_code t \<longrightarrow> tier_rank x \<noteq> tier_rank t
          \<and> \<not> (tier_is_default x \<and> tier_is_default t))
      then Inr d else Inl IntegrityError)"

definition tier_save ::
    "(product \<Rightarrow> price_body option) option \<Rightarrow> (product \<Rightarrow> catalog_row option) \<Rightarrow> sku_tier \<Rightarrow> sku_tier
     \<Rightarrow> uuid \<Rightarrow> datetime \<Rightarrow> db \<Rightarrow> db result" where
  "tier_save prices before_rows t t' actor now d =
    (let code = tier_code t;
         ts = (if tier_is_default t' \<and> \<not> tier_is_default t then demote_default now (tiers d)
              else tiers d);
         existing = (if tier_sales_led t' then (\<lambda>_. None) else before_rows) in
     ebind (if tier_sales_led t' then Inr (filter (\<lambda>r. cat_sku r \<noteq> code) (catalog d))
            else efold (upsert_price prices existing code actor now)
              INVOICE_PRODUCTS (catalog d)) (\<lambda>c.
     let d1 = d\<lparr>tiers := row_upd tier_code code (\<lambda>_. t') ts, catalog := c\<rparr>;
         ch = diff_changes (tier_values t @ price_values before_rows)
           (tier_values t' @ (if tier_sales_led t' then price_values (\<lambda>_. None)
              else after_price_values prices existing)) in
     commit_tier t'
       (if ch = [] then d1 else log_tier code ''updated'' (Some actor) ch now d1)))"

definition tier_update ::
    "sku \<Rightarrow> tier_update_body \<Rightarrow> uuid \<Rightarrow> datetime \<Rightarrow> db \<Rightarrow> (sku_tier \<times> db) result" where
  "tier_update code body actor now d =
    ebind (tier_get d code) (\<lambda>t.
    let before_rows = catalog_rows d code in
    ebind (update_label body t) (\<lambda>label.
    ebind (update_rank d code body t) (\<lambda>rank.
    ebind (check_limits
      [(Scan, or_else (ub_limit_scan body) (tier_limit_scan t)),
       (Host, or_else (ub_limit_host body) (tier_limit_host t)),
       (Uptime, or_else (ub_limit_uptime body) (tier_limit_uptime t)),
       (Guard, or_else (ub_limit_guard body) (tier_limit_guard t))]) (\<lambda>_.
    ebind (update_flags body t) (\<lambda>flags.
    let t' = merged_tier body t label rank flags actor now in
    ebind (check_default t t') (\<lambda>_.
    ebind (if tier_active t \<and> tier_requestable t \<and> \<not> (tier_active t' \<and> tier_requestable t')
           then ensure_not_last_requestable d code label else Inr ()) (\<lambda>_.
    ebind (check_prices (ub_prices body) before_rows t t') (\<lambda>_.
    ebind (on_integrity_error (tier_taken code rank)
      (tier_save (ub_prices body) before_rows t t' actor now d)) (\<lambda>d'.
    Inr (t', d'))))))))))"

definition set_tier_active :: "bool \<Rightarrow> string \<Rightarrow> sku_tier \<Rightarrow> uuid \<Rightarrow> datetime \<Rightarrow> db \<Rightarrow> sku_tier \<times> db" where
  "set_tier_active v action t actor now d =
     (let t' = t\<lparr>tier_active := v, tier_updated_at := now, tier_updated_by := Some actor\<rparr> in
      (t', log_tier (tier_code t) action (Some actor) [(''active'', JBool (tier_active t), JBool v)] now
         (d\<lparr>tiers := row_upd tier_code (tier_code t) (\<lambda>_. t') (tiers d)\<rparr>)))"

definition tier_deactivate :: "sku \<Rightarrow> uuid \<Rightarrow> datetime \<Rightarrow> db \<Rightarrow> (sku_tier \<times> db) result" where
  "tier_deactivate code actor now d =
    ebind (tier_get d code) (\<lambda>t.
    ebind (raise_if (tier_is_default t) (conflict ''The default tier cannot be deactivated'')) (\<lambda>_.
    ebind (if tier_active t \<and> tier_requestable t
           then ensure_not_last_requestable d code (tier_label t) else Inr ()) (\<lambda>_.
    Inr (set_tier_active False ''deactivated'' t actor now d))))"

definition tier_reactivate :: "sku \<Rightarrow> uuid \<Rightarrow> datetime \<Rightarrow> db \<Rightarrow> (sku_tier \<times> db) result" where
  "tier_reactivate code actor now d =
    ebind (tier_get d code) (\<lambda>t.
    ebind (raise_if (rank_taken d (tier_rank t) (Some code))
      (conflict (''Tier rank '' @ show_int (tier_rank t) @ '' is already in use''))) (\<lambda>_.
    Inr (set_tier_active True ''reactivated'' t actor now d)))"

definition tier_delete :: "sku \<Rightarrow> uuid \<Rightarrow> datetime \<Rightarrow> db \<Rightarrow> db result" where
  "tier_delete code actor now d =
    ebind (tier_get d code) (\<lambda>t.
    ebind (raise_if (tier_is_default t) (conflict ''The default tier cannot be deleted'')) (\<lambda>_.
    let u = usage_counts d code in
    ebind (raise_if (use_orgs u \<noteq> 0 \<or> use_subscriptions u \<noteq> 0 \<or> use_invoices u \<noteq> 0
        \<or> use_requests u \<noteq> 0 \<or> use_promos u \<noteq> 0)
      (conflict (''Tier '' @ quoted code @ '' is in use (orgs='' @ show_nat (use_orgs u)
         @ '', subscriptions='' @ show_nat (use_subscriptions u)
         @ '', invoices='' @ show_nat (use_invoices u) @ '', requests='' @ show_nat (use_requests u)
         @ '', promos='' @ show_nat (use_promos u) @ '')''))) (\<lambda>_.
    let d1 = log_tier code ''deleted'' (Some actor) (deleted_changes t (catalog_rows d code)) now d in
    Inr (d1\<lparr>catalog := filter (\<lambda>r. cat_sku r \<noteq> code) (catalog d1),
           tiers := row_del tier_code code (tiers d1)\<rparr>))))"

subsection \<open>Invariants\<close>

definition tier_consistent :: "sku_tier \<Rightarrow> bool" where
  "tier_consistent t \<longleftrightarrow>
     (if tier_sales_led t
      then \<not> tier_requestable t \<and> tier_allow_siem t \<and> tier_billing_unrestricted t
      else \<not> tier_allow_siem t \<and> \<not> tier_billing_unrestricted t
        \<and> (tier_allow_custom_host t \<longrightarrow> tier_allow_status_page t))"

definition tier_good :: "sku_tier \<Rightarrow> bool" where
  "tier_good t \<longleftrightarrow> tier_ok t \<and> tier_consistent t
     \<and> (tier_is_default t \<longrightarrow> tier_active t \<and> \<not> tier_sales_led t \<and> tier_requestable t)"

definition tiers_inv :: "db \<Rightarrow> bool" where
  "tiers_inv d \<longleftrightarrow> unique_by tier_code (tiers d) \<and> unique_by tier_rank (tiers d)
     \<and> list_all tier_good (tiers d) \<and> count_where tier_is_default (tiers d) = 1"

definition catalog_inv :: "db \<Rightarrow> bool" where
  "catalog_inv d \<longleftrightarrow> cat_sku ` set (catalog d) \<subseteq> tier_code ` set (tiers d)
     \<and> (\<forall>t\<in>set (tiers d). \<forall>p. (catalog_row_of (catalog d) (tier_code t) p \<noteq> None) = (\<not> tier_sales_led t))"

inductive tier_step :: "db \<Rightarrow> db \<Rightarrow> bool" where
  create: "tier_create body actor now d = Inr (t, d') \<Longrightarrow> tier_step d d'"
| update: "tier_update code ubody actor now d = Inr (t, d') \<Longrightarrow> tier_step d d'"
| deactivate: "tier_deactivate code actor now d = Inr (t, d') \<Longrightarrow> tier_step d d'"
| reactivate: "tier_reactivate code actor now d = Inr (t, d') \<Longrightarrow> tier_step d d'"
| delete: "tier_delete code actor now d = Inr d' \<Longrightarrow> tier_step d d'"

lemma tier_get_Inr [errs]: "tier_get d code = Inr t \<longleftrightarrow> row_get tier_code code (tiers d) = Some t"
  by (simp add: tier_get_def get_or_Inr)

lemma check_cross_field_consistent:
  "check_cross_field sl rq sp ch si bu = Inr (rq', si', bu') \<Longrightarrow>
   (if sl then \<not> rq' \<and> si' \<and> bu' else \<not> si' \<and> \<not> bu' \<and> (ch \<longrightarrow> sp))"
  by (auto simp: check_cross_field_def split: if_splits)

lemma rank_taken_None: "\<not> rank_taken d r None \<longleftrightarrow> r \<notin> tier_rank ` set (tiers d)"
  by (auto simp: rank_taken_def list_ex_iff)

lemma rank_taken_Some:
  "\<not> rank_taken d r (Some code) \<longleftrightarrow> (\<forall>t\<in>set (tiers d). tier_code t \<noteq> code \<longrightarrow> tier_rank t \<noteq> r)"
  by (auto simp: rank_taken_def list_ex_iff)

lemma demote_default_simps [simp]:
  "map tier_code (demote_default now ts) = map tier_code ts"
  "map tier_rank (demote_default now ts) = map tier_rank ts"
  "count_where tier_is_default (demote_default now ts) = 0"
  by (induction ts) (auto simp: demote_default_def)

lemma set_demote_default: "x \<in> set (demote_default now ts) \<Longrightarrow>
    \<not> tier_is_default x \<and> (\<exists>t\<in>set ts. tier_code x = tier_code t \<and> tier_rank x = tier_rank t
      \<and> tier_sales_led x = tier_sales_led t)"
  by (auto simp: demote_default_def)

lemma tier_good_demote: "list_all tier_good ts \<Longrightarrow> list_all tier_good (demote_default now ts)"
  by (auto simp: demote_default_def list_all_iff tier_good_def tier_ok_def tier_consistent_def)

lemma unique_by_demote [simp]:
  "unique_by tier_code (demote_default now ts) = unique_by tier_code ts"
  "unique_by tier_rank (demote_default now ts) = unique_by tier_rank ts"
  by (simp_all add: unique_by_def)

lemma row_get_demote:
  "row_get tier_code code (demote_default now ts) = None \<longleftrightarrow> row_get tier_code code ts = None"
proof -
  have "tier_code ` set (demote_default now ts) = tier_code ` set ts"
    by (metis demote_default_simps(1) list.set_map)
  then show ?thesis by (simp add: row_get_None)
qed

text \<open>Replacing the row of a tier, after a demotion if the new row becomes the default.\<close>

lemma tiers_inv_replace:
  assumes inv: "tiers_inv d" and get: "row_get tier_code code (tiers d) = Some t"
    and t': "tier_code t' = code" "tier_good t'"
    and rank: "\<And>x. x \<in> set (tiers d) \<Longrightarrow> tier_code x \<noteq> code \<Longrightarrow> tier_rank x \<noteq> tier_rank t'"
    and dflt: "tier_is_default t \<longrightarrow> tier_is_default t'"
    and ts: "ts = (if tier_is_default t' \<and> \<not> tier_is_default t then demote_default now (tiers d)
                   else tiers d)"
    and d': "tiers d' = row_upd tier_code code (\<lambda>_. t') ts"
  shows "tiers_inv d'"
proof -
  have u: "unique_by tier_code ts" "unique_by tier_rank ts" "list_all tier_good ts"
    using inv ts tier_good_demote by (auto simp: tiers_inv_def)
  obtain x where x: "row_get tier_code code ts = Some x"
    using get ts row_get_demote by (metis option.exhaust)
  have r: "tier_rank y \<noteq> tier_rank t'" if "y \<in> set ts" "tier_code y \<noteq> code" for y
    using that rank ts set_demote_default by (metis (no_types, lifting))
  have cnt: "count_where tier_is_default (tiers d') + (if tier_is_default x then 1 else 0) =
      count_where tier_is_default ts + (if tier_is_default t' then 1 else 0)"
    unfolding d' using count_row_replace [OF u(1) x] by simp
  have "count_where tier_is_default (tiers d') = 1"
  proof (cases "tier_is_default t' \<and> \<not> tier_is_default t")
    case True
    then have "\<not> tier_is_default x"
      using ts row_get_Some [OF x] set_demote_default by auto
    with True cnt ts show ?thesis by simp
  next
    case False
    then have "x = t" "count_where tier_is_default ts = 1"
      using ts get x inv by (auto simp: tiers_inv_def)
    with False cnt dflt show ?thesis by (auto split: if_splits)
  qed
  moreover have "unique_by tier_code (tiers d')"
    unfolding d' by (rule unique_by_row_replace [OF u(1) u(1), where c = code]) (use t' in auto)
  moreover have "unique_by tier_rank (tiers d')"
    unfolding d' by (rule unique_by_row_replace [OF u(2,1), where c = "tier_rank t'"]) (use r in auto)
  moreover have "list_all tier_good (tiers d')"
    unfolding d' using u(3) t' by (intro list_all_row_upd) auto
  ultimately show ?thesis by (simp add: tiers_inv_def)
qed

subsection \<open>The price rows\<close>

lemma catalog_row_of_present:
  "catalog_row_of c code p \<noteq> None \<longleftrightarrow> (code, p) \<in> (\<lambda>r. (cat_sku r, cat_product r)) ` set c"
  by (auto simp: catalog_row_of_def find_None_iff)

lemma catalog_row_of_None:
  "catalog_row_of c code p = None \<longleftrightarrow> (code, p) \<notin> (\<lambda>r. (cat_sku r, cat_product r)) ` set c"
  using catalog_row_of_present [of c code p] by blast

lemma insert_catalog_Inr [errs]: "insert_catalog r c = Inr c' \<longleftrightarrow>
    catalog_ok r \<and> catalog_row_of c (cat_sku r) (cat_product r) = None \<and> c' = c @ [r]"
  by (auto simp: insert_catalog_def)

lemma upsert_price_keys:
  assumes "upsert_price prices existing code actor now p c = Inr c'"
  shows "(\<lambda>r. (cat_sku r, cat_product r)) ` set c' =
     (\<lambda>r. (cat_sku r, cat_product r)) ` set c \<union> (if existing p = None then {(code, p)} else {})"
proof (cases "existing p")
  case None
  with assms show ?thesis
    by (auto simp: upsert_price_def new_catalog_row_def insert_catalog_Inr split: option.splits)
next
  case (Some x)
  define h where "h = (\<lambda>r::catalog_row. if cat_product r = p \<and> cat_sku r = code then
            (case price_for prices p of
               None \<Rightarrow> r\<lparr>cat_updated_at := now, cat_updated_by := Some actor\<rparr>
             | Some b \<Rightarrow> r\<lparr>cat_list_idr := pb_list_idr b, cat_invoicable := pb_invoicable b,
                 cat_updated_at := now, cat_updated_by := Some actor\<rparr>) else r)"
  have h: "cat_sku (h r) = cat_sku r \<and> cat_product (h r) = cat_product r" for r
    by (simp add: h_def split: option.split)
  have "c' = map h c" using assms Some by (simp add: upsert_price_def h_def)
  then show ?thesis using Some h by (simp add: image_image)
qed

lemma efold_upsert_keys:
  "efold (upsert_price prices existing code actor now) ps c = Inr c' \<Longrightarrow>
   (\<lambda>r. (cat_sku r, cat_product r)) ` set c' =
     (\<lambda>r. (cat_sku r, cat_product r)) ` set c \<union> {(code, p) |p. p \<in> set ps \<and> existing p = None}"
proof (induction ps arbitrary: c)
  case (Cons p ps)
  then obtain c1 where c1: "upsert_price prices existing code actor now p c = Inr c1"
    "efold (upsert_price prices existing code actor now) ps c1 = Inr c'"
    by (auto simp: ebind_eq_Inr)
  from upsert_price_keys [OF c1(1)] Cons.IH [OF c1(2)] show ?case by auto
qed auto

lemma efold_insert_keys:
  "efold (\<lambda>p c. case price_for prices p of None \<Rightarrow> Inr c
      | Some b \<Rightarrow> insert_catalog (new_catalog_row code actor now p b) c) ps c = Inr c' \<Longrightarrow>
   (\<lambda>r. (cat_sku r, cat_product r)) ` set c' =
     (\<lambda>r. (cat_sku r, cat_product r)) ` set c \<union> {(code, p) |p. p \<in> set ps \<and> price_for prices p \<noteq> None}"
proof (induction ps arbitrary: c)
  case (Cons p ps)
  show ?case
  proof (cases "price_for prices p")
    case None
    with Cons show ?thesis by auto
  next
    case (Some b)
    then have r: "efold (\<lambda>p c. case price_for prices p of None \<Rightarrow> Inr c
      | Some b \<Rightarrow> insert_catalog (new_catalog_row code actor now p b) c) ps
        (c @ [new_catalog_row code actor now p b]) = Inr c'"
      using Cons.prems by (auto simp: ebind_eq_Inr insert_catalog_Inr)
    show ?thesis
      unfolding Cons.IH [OF r] using Some by (auto simp: new_catalog_row_def)
  qed
qed auto

lemma all_products [simp]: "p \<in> set INVOICE_PRODUCTS"
  by (cases p) (simp_all add: INVOICE_PRODUCTS_def)

lemma has_all_pricesD: "has_all_prices prices \<Longrightarrow> price_for prices p \<noteq> None"
  using all_products [of p]
  by (auto simp: has_all_prices_def price_for_def list_all_iff split: option.splits)

lemma catalog_inv_alt: "catalog_inv d \<longleftrightarrow>
    cat_sku ` set (catalog d) \<subseteq> tier_code ` set (tiers d)
    \<and> (\<forall>t\<in>set (tiers d). \<forall>p. ((tier_code t, p) \<in> (\<lambda>r. (cat_sku r, cat_product r)) ` set (catalog d))
         = (\<not> tier_sales_led t))"
  by (simp only: catalog_inv_def catalog_row_of_present)

lemma sku_of_keys: "cat_sku ` set c = fst ` (\<lambda>r. (cat_sku r, cat_product r)) ` set c"
  by force

subsection \<open>Every mutation keeps the invariants\<close>

lemma tier_create_Inr:
  assumes "tier_create body actor now d = Inr (t, d')"
  obtains "tier_code t = cb_code body" "tier_code t \<notin> tier_code ` set (tiers d)"
    "tier_rank t \<notin> tier_rank ` set (tiers d)" "tier_good t"
    "tiers d' = (if tier_is_default t then demote_default now (tiers d) else tiers d) @ [t]"
    "(\<lambda>r. (cat_sku r, cat_product r)) ` set (catalog d') =
       (\<lambda>r. (cat_sku r, cat_product r)) ` set (catalog d)
       \<union> (if tier_sales_led t then {} else range (Pair (tier_code t)))"
proof -
  obtain label rank rq si bu d2 c where a:
    "row_get tier_code (cb_code body) (tiers d) = None"
    "check_limits [(Scan, cb_limit_scan body), (Host, cb_limit_host body),
       (Uptime, cb_limit_uptime body), (Guard, cb_limit_guard body)] = Inr ()"
    "\<not> rank_taken d rank None"
    "check_cross_field (cb_sales_led body) (cb_requestable body)
       (cb_allow_status_page body) (cb_allow_custom_host body) (cb_allow_siem body)
       (cb_billing_unrestricted body) = Inr (rq, si, bu)"
    "cb_is_default body \<longrightarrow> cb_active body \<and> \<not> cb_sales_led body \<and> rq"
    "\<not> cb_sales_led body \<longrightarrow> has_all_prices (cb_prices body)"
    "t = tier_of_body body label rank (rq, si, bu) actor now"
    "insert_tier t (if cb_is_default body then d\<lparr>tiers := demote_default now (tiers d)\<rparr> else d) = Inr d2"
    "(if cb_sales_led body then Inr (catalog d2)
      else efold (\<lambda>p c. case price_for (cb_prices body) p of None \<Rightarrow> Inr c
          | Some b \<Rightarrow> insert_catalog (new_catalog_row (cb_code body) actor now p b) c)
          INVOICE_PRODUCTS (catalog d2)) = Inr c"
    "tiers d' = tiers d2" "catalog d' = c"
    using assms
    by (simp add: tier_create_def Let_def ebind_eq_Inr raise_if_Inr on_integrity_error_Inr
        log_tier_def split: prod.splits) (elim exE conjE, force)
  note t = a(7)
  have f: "tier_code t = cb_code body" "tier_rank t = rank" "tier_sales_led t = cb_sales_led body"
    "tier_is_default t = cb_is_default body" "tier_active t = cb_active body"
    "tier_requestable t = rq" "tier_allow_siem t = si" "tier_billing_unrestricted t = bu"
    "tier_allow_custom_host t = cb_allow_custom_host body"
    "tier_allow_status_page t = cb_allow_status_page body"
    by (simp_all add: t tier_of_body_def)
  have ins: "tier_ok t" "tiers d2 = (if tier_is_default t then demote_default now (tiers d) else tiers d) @ [t]"
    "catalog d2 = catalog d"
    using a(8) by (auto simp: insert_tier_Inr f)
  have "tier_consistent t"
    using check_cross_field_consistent [OF a(4)] by (simp add: tier_consistent_def f split: if_splits)
  with ins(1) a(5) have "tier_good t" by (simp add: tier_good_def f)
  moreover have "(\<lambda>r. (cat_sku r, cat_product r)) ` set (catalog d') =
       (\<lambda>r. (cat_sku r, cat_product r)) ` set (catalog d)
       \<union> (if tier_sales_led t then {} else range (Pair (tier_code t)))"
  proof (cases "cb_sales_led body")
    case False
    have "{(cb_code body, p) |p. p \<in> set INVOICE_PRODUCTS \<and> price_for (cb_prices body) p \<noteq> None}
        = range (Pair (cb_code body))"
      using has_all_pricesD a(6) False by auto
    with False a(9,11) ins(3) efold_insert_keys show ?thesis by (simp add: f)
  qed (use a(9,11) ins(3) in \<open>simp add: f\<close>)
  ultimately show ?thesis
    using that a(1,3,10) ins(2) by (simp add: f row_get_None rank_taken_None)
qed


lemma tier_save_Inr:
  assumes "tier_save prices (catalog_rows d (tier_code t)) t t' actor now d = Inr d'"
  obtains "tier_ok t'"
    "tiers d' = row_upd tier_code (tier_code t) (\<lambda>_. t')
       (if tier_is_default t' \<and> \<not> tier_is_default t then demote_default now (tiers d) else tiers d)"
    "(\<lambda>r. (cat_sku r, cat_product r)) ` set (catalog d') =
       (if tier_sales_led t'
        then {k \<in> (\<lambda>r. (cat_sku r, cat_product r)) ` set (catalog d). fst k \<noteq> tier_code t}
        else (\<lambda>r. (cat_sku r, cat_product r)) ` set (catalog d) \<union> range (Pair (tier_code t)))"
proof -
  let ?K = "\<lambda>c. (\<lambda>r. (cat_sku r, cat_product r)) ` set c"
  obtain c e where c: "(if tier_sales_led t' then Inr (filter (\<lambda>r. cat_sku r \<noteq> tier_code t) (catalog d))
      else efold (upsert_price prices (if tier_sales_led t' then (\<lambda>_. None)
          else catalog_rows d (tier_code t)) (tier_code t) actor now)
             INVOICE_PRODUCTS (catalog d)) = Inr c"
    and e: "commit_tier t' e = Inr d'" "catalog e = c"
      "tiers e = row_upd tier_code (tier_code t) (\<lambda>_. t')
       (if tier_is_default t' \<and> \<not> tier_is_default t then demote_default now (tiers d) else tiers d)"
    using assms unfolding tier_save_def Let_def ebind_eq_Inr
    by (elim exE conjE) (rule that, assumption, assumption, simp_all add: log_tier_def)
  have K: "?K c = (if tier_sales_led t' then {k \<in> ?K (catalog d). fst k \<noteq> tier_code t}
        else ?K (catalog d) \<union> range (Pair (tier_code t)))"
  proof (cases "tier_sales_led t'")
    case True
    with c show ?thesis by auto
  next
    case False
    have "{(tier_code t, p) |p. p \<in> set INVOICE_PRODUCTS \<and> catalog_rows d (tier_code t) p = None}
        \<union> ?K (catalog d) = ?K (catalog d) \<union> range (Pair (tier_code t))"
      unfolding catalog_rows_def by (intro set_eqI) (auto simp: catalog_row_of_None)
    with False c efold_upsert_keys show ?thesis by (simp add: Un_commute)
  qed
  have "tier_ok t'" "d' = e" using e(1) by (auto simp: commit_tier_def split: if_splits)
  with that K e show ?thesis by simp
qed

lemma tier_update_Inr:
  assumes "tier_update code body actor now d = Inr (t', d')"
  obtains t where "row_get tier_code code (tiers d) = Some t" "tier_code t' = code"
    "tier_rank t' = tier_rank t \<or> \<not> rank_taken d (tier_rank t') (Some code)"
    "tier_consistent t'" "check_default t t' = Inr ()"
    "tier_save (ub_prices body) (catalog_rows d (tier_code t)) t t' actor now d = Inr d'"
proof -
  obtain t label rank flags where a:
    "row_get tier_code code (tiers d) = Some t"
    "update_rank d code body t = Inr rank"
    "update_flags body t = Inr flags"
    and t': "merged_tier body t label rank flags actor now = t'"
    and b: "check_default t t' = Inr ()"
    "tier_save (ub_prices body) (catalog_rows d code) t t' actor now d = Inr d'"
    using assms unfolding tier_update_def Let_def ebind_eq_Inr on_integrity_error_Inr tier_get_Inr
    by (elim exE conjE Inr_PairE) (rule that; (assumption | simp))
  obtain rq si bu where fl: "flags = (rq, si, bu)" by (cases flags) auto
  have f: "tier_code t' = tier_code t" "tier_rank t' = rank"
      "tier_sales_led t' = or_else (ub_sales_led body) (tier_sales_led t)"
      "tier_requestable t' = rq" "tier_allow_siem t' = si" "tier_billing_unrestricted t' = bu"
      "tier_allow_custom_host t' = or_else (ub_allow_custom_host body) (tier_allow_custom_host t)"
      "tier_allow_status_page t' = or_else (ub_allow_status_page body) (tier_allow_status_page t)"
    by (simp_all add: fl merged_tier_def flip: t')
  have code: "tier_code t = code" using row_get_Some [OF a(1)] by simp
  have "tier_consistent t'"
    using check_cross_field_consistent [OF a(3) [unfolded fl update_flags_def Let_def]]
    by (simp add: tier_consistent_def f split: if_splits)
  moreover have "tier_rank t' = tier_rank t \<or> \<not> rank_taken d (tier_rank t') (Some code)"
    using a(2) by (auto simp: update_rank_def f split: option.splits if_splits)
  ultimately show ?thesis using that [OF a(1)] b f(1) code by simp
qed


text \<open>Replacing a tier row by one that keeps the contract.\<close>

lemma tier_update_keeps:
  assumes "tier_update code body actor now d = Inr (t', d')" and inv: "tiers_inv d"
  shows "tiers_inv d'"
proof -
  obtain t where t: "row_get tier_code code (tiers d) = Some t" "tier_code t' = code"
    "tier_rank t' = tier_rank t \<or> \<not> rank_taken d (tier_rank t') (Some code)"
    "tier_consistent t'" "check_default t t' = Inr ()"
    and sv: "tier_save (ub_prices body) (catalog_rows d (tier_code t)) t t' actor now d = Inr d'"
    using tier_update_Inr [OF assms(1)] .
  have code: "tier_code t = code" and tin: "t \<in> set (tiers d)" using row_get_Some [OF t(1)] by auto
  have df: "tier_is_default t' \<longrightarrow> tier_active t' \<and> \<not> tier_sales_led t' \<and> tier_requestable t'"
      "tier_is_default t \<longrightarrow> tier_is_default t'"
    using t(5) by (auto simp: check_default_def raise_if_Inr split: if_splits)
  have rank: "tier_rank x \<noteq> tier_rank t'" if "x \<in> set (tiers d)" "tier_code x \<noteq> code" for x
    using t(3)
  proof
    assume "tier_rank t' = tier_rank t"
    then show ?thesis using inv that tin code by (auto simp: tiers_inv_def dest: unique_byD)
  qed (use that in \<open>simp add: rank_taken_Some\<close>)
  show ?thesis
  proof (rule tier_save_Inr [OF sv])
    assume a: "tier_ok t'" and b: "tiers d' = row_upd tier_code (tier_code t) (\<lambda>_. t')
       (if tier_is_default t' \<and> \<not> tier_is_default t then demote_default now (tiers d) else tiers d)"
    have "tier_good t'" using a t(4) df(1) by (simp add: tier_good_def)
    from tiers_inv_replace [OF inv t(1,2) this rank df(2) refl b [unfolded code]]
    show ?thesis .
  qed
qed

lemma set_tier_active_Pair:
  "fst (set_tier_active v action t actor now d) =
     t\<lparr>tier_active := v, tier_updated_at := now, tier_updated_by := Some actor\<rparr>"
  "tiers (snd (set_tier_active v action t actor now d)) = row_upd tier_code (tier_code t)
     (\<lambda>_. t\<lparr>tier_active := v, tier_updated_at := now, tier_updated_by := Some actor\<rparr>) (tiers d)"
  "catalog (snd (set_tier_active v action t actor now d)) = catalog d"
  by (simp_all add: set_tier_active_def Let_def log_tier_def)

lemma set_tier_active_keeps:
  assumes inv: "tiers_inv d" and get: "row_get tier_code code (tiers d) = Some t"
    and v: "tier_is_default t \<longrightarrow> v"
  shows "tiers_inv (snd (set_tier_active v action t actor now d))"
proof -
  let ?t = "t\<lparr>tier_active := v, tier_updated_at := now, tier_updated_by := Some actor\<rparr>"
  have t: "tier_code t = code" "t \<in> set (tiers d)" using row_get_Some [OF get] by auto
  then have "tier_good t" using inv by (auto simp: tiers_inv_def list_all_iff)
  then have "tier_good ?t" using v by (auto simp: tier_good_def tier_ok_def tier_consistent_def)
  moreover have "tier_rank x \<noteq> tier_rank ?t" if "x \<in> set (tiers d)" "tier_code x \<noteq> code" for x
    using inv that t by (auto simp: tiers_inv_def dest: unique_byD)
  ultimately show ?thesis
    by (intro tiers_inv_replace [OF inv get, where t' = ?t and ts = "tiers d"])
      (auto simp: set_tier_active_Pair t)
qed

lemma tier_deactivate_Inr: "tier_deactivate code actor now d = Inr r \<Longrightarrow>
    \<exists>t. row_get tier_code code (tiers d) = Some t \<and> \<not> tier_is_default t
      \<and> r = set_tier_active False ''deactivated'' t actor now d"
  by (auto simp: tier_deactivate_def ebind_eq_Inr raise_if_Inr tier_get_Inr)

lemma tier_reactivate_Inr: "tier_reactivate code actor now d = Inr r \<Longrightarrow>
    \<exists>t. row_get tier_code code (tiers d) = Some t
      \<and> r = set_tier_active True ''reactivated'' t actor now d"
  by (auto simp: tier_reactivate_def ebind_eq_Inr raise_if_Inr tier_get_Inr)

lemma tier_delete_Inr: "tier_delete code actor now d = Inr d' \<Longrightarrow>
    \<exists>t. row_get tier_code code (tiers d) = Some t \<and> \<not> tier_is_default t
      \<and> usage_counts d code = \<lparr>use_orgs = 0, use_subscriptions = 0, use_invoices = 0,
          use_requests = 0, use_promos = 0\<rparr>
      \<and> catalog d' = filter (\<lambda>r. cat_sku r \<noteq> code) (catalog d)
      \<and> tiers d' = row_del tier_code code (tiers d)"
  by (auto simp: tier_delete_def ebind_eq_Inr raise_if_Inr tier_get_Inr Let_def log_tier_def)


lemma fst_image_mem: "k \<in> fst ` S \<longleftrightarrow> (\<exists>p. (k, p) \<in> S)"
  by force

lemma catalog_inv_add:
  assumes "catalog_inv d" "tier_code ` set (tiers d') = insert code (tier_code ` set (tiers d))"
    "\<And>x. x \<in> set (tiers d') \<Longrightarrow> tier_code x \<noteq> code \<Longrightarrow>
       \<exists>y\<in>set (tiers d). tier_code y = tier_code x \<and> tier_sales_led y = tier_sales_led x"
    "\<And>x. x \<in> set (tiers d') \<Longrightarrow> tier_code x = code \<Longrightarrow> tier_sales_led x = led"
    "{k \<in> (\<lambda>r. (cat_sku r, cat_product r)) ` set (catalog d'). fst k \<noteq> code}
       = {k \<in> (\<lambda>r. (cat_sku r, cat_product r)) ` set (catalog d). fst k \<noteq> code}"
    "\<And>p. ((code, p) \<in> (\<lambda>r. (cat_sku r, cat_product r)) ` set (catalog d')) = (\<not> led)"
  shows "catalog_inv d'"
proof -
  let ?K = "\<lambda>c. (\<lambda>r. (cat_sku r, cat_product r)) ` set c"
  have mem: "(k, p) \<in> ?K (catalog d') \<longleftrightarrow> (if k = code then \<not> led else (k, p) \<in> ?K (catalog d))" for k p
    using eqset_imp_iff [OF assms(5), of "(k, p)"] assms(6) by (cases "k = code") simp_all
  have a: "\<And>k p. (k, p) \<in> ?K (catalog d) \<Longrightarrow> k \<in> tier_code ` set (tiers d)"
    "\<And>t p. t \<in> set (tiers d) \<Longrightarrow> ((tier_code t, p) \<in> ?K (catalog d)) = (\<not> tier_sales_led t)"
    using assms(1) unfolding catalog_inv_alt sku_of_keys by force+
  have "fst ` ?K (catalog d') \<subseteq> tier_code ` set (tiers d')"
  proof
    fix k
    assume "k \<in> fst ` ?K (catalog d')"
    then obtain p where "(k, p) \<in> ?K (catalog d')" by (simp only: fst_image_mem) blast
    then show "k \<in> tier_code ` set (tiers d')"
      using mem [of k p] a(1) [of k p] assms(2) by (cases "k = code") simp_all
  qed
  moreover have "((tier_code t, p) \<in> ?K (catalog d')) = (\<not> tier_sales_led t)"
    if t: "t \<in> set (tiers d')" for t p
  proof (cases "tier_code t = code")
    case True
    then show ?thesis using mem [of "tier_code t" p] assms(4) [OF t] by simp
  next
    case False
    then obtain y where "y \<in> set (tiers d)" "tier_code y = tier_code t"
      "tier_sales_led y = tier_sales_led t" using assms(3) [OF t] by blast
    then show ?thesis using mem [of "tier_code t" p] a(2) [of y p] False by simp
  qed
  ultimately show ?thesis unfolding catalog_inv_alt sku_of_keys by blast
qed

lemma tier_code_demote: "tier_code ` set (demote_default now ts) = tier_code ` set ts"
  by (metis demote_default_simps(1) list.set_map)

lemma tier_create_keeps:
  assumes "tier_create body actor now d = Inr (t, d')" and inv: "tiers_inv d" "catalog_inv d"
  shows "tiers_inv d' \<and> catalog_inv d'"
proof (rule tier_create_Inr [OF assms(1)])
  assume a: "tier_code t \<notin> tier_code ` set (tiers d)" "tier_rank t \<notin> tier_rank ` set (tiers d)"
    "tier_good t"
    and ts: "tiers d' = (if tier_is_default t then demote_default now (tiers d) else tiers d) @ [t]"
    and c: "(\<lambda>r. (cat_sku r, cat_product r)) ` set (catalog d') =
       (\<lambda>r. (cat_sku r, cat_product r)) ` set (catalog d)
       \<union> (if tier_sales_led t then {} else range (Pair (tier_code t)))"
  have r: "tier_rank ` set (demote_default now (tiers d)) = tier_rank ` set (tiers d)"
    by (metis demote_default_simps(2) list.set_map)
  have "tiers_inv d'"
    using inv(1) a ts r tier_code_demote tier_good_demote
    by (auto simp: tiers_inv_def unique_by_append1)
  moreover have "catalog_inv d'"
  proof (rule catalog_inv_add [OF inv(2), where code = "tier_code t" and led = "tier_sales_led t"])
    have new: "(tier_code t, p) \<notin> (\<lambda>r. (cat_sku r, cat_product r)) ` set (catalog d)" for p
      using inv(2) a(1) unfolding catalog_inv_alt sku_of_keys by force
    show "((tier_code t, p) \<in> (\<lambda>r. (cat_sku r, cat_product r)) ` set (catalog d')) = (\<not> tier_sales_led t)"
      for p
      unfolding c using new by (cases "tier_sales_led t") simp_all
    show "{k \<in> (\<lambda>r. (cat_sku r, cat_product r)) ` set (catalog d'). fst k \<noteq> tier_code t}
       = {k \<in> (\<lambda>r. (cat_sku r, cat_product r)) ` set (catalog d). fst k \<noteq> tier_code t}"
      unfolding c by (auto split: if_splits)
    show "tier_code ` set (tiers d') = insert (tier_code t) (tier_code ` set (tiers d))"
      using ts tier_code_demote by simp
    show "\<exists>y\<in>set (tiers d). tier_code y = tier_code x \<and> tier_sales_led y = tier_sales_led x"
      if "x \<in> set (tiers d')" "tier_code x \<noteq> tier_code t" for x
    proof -
      have "x \<in> set (if tier_is_default t then demote_default now (tiers d) else tiers d)"
        using that ts by auto
      then show ?thesis using set_demote_default [of x now "tiers d"] by (metis (full_types))
    qed
    show "tier_sales_led x = tier_sales_led t"
      if "x \<in> set (tiers d')" "tier_code x = tier_code t" for x
    proof -
      have "x = t \<or> tier_code x \<in> tier_code ` set (tiers d)"
        using that(1) ts tier_code_demote [of now "tiers d"] by (auto split: if_splits)
      then show ?thesis using that(2) a(1) by auto
    qed
  qed
  ultimately show ?thesis by blast
qed

lemma tier_update_keeps_catalog:
  assumes "tier_update code body actor now d = Inr (t', d')" and inv: "catalog_inv d"
  shows "catalog_inv d'"
proof -
  obtain t where t: "row_get tier_code code (tiers d) = Some t" "tier_code t' = code"
    and sv: "tier_save (ub_prices body) (catalog_rows d (tier_code t)) t t' actor now d = Inr d'"
    using tier_update_Inr [OF assms(1)] by metis
  have code: "tier_code t = code" and tin: "t \<in> set (tiers d)" using row_get_Some [OF t(1)] by auto
  show ?thesis
  proof (rule tier_save_Inr [OF sv])
    define ts where "ts = (if tier_is_default t' \<and> \<not> tier_is_default t then demote_default now (tiers d)
                           else tiers d)"
    assume b: "tiers d' = row_upd tier_code (tier_code t) (\<lambda>_. t')
       (if tier_is_default t' \<and> \<not> tier_is_default t then demote_default now (tiers d) else tiers d)"
      and c: "(\<lambda>r. (cat_sku r, cat_product r)) ` set (catalog d') =
       (if tier_sales_led t'
        then {k \<in> (\<lambda>r. (cat_sku r, cat_product r)) ` set (catalog d). fst k \<noteq> tier_code t}
        else (\<lambda>r. (cat_sku r, cat_product r)) ` set (catalog d) \<union> range (Pair (tier_code t)))"
    have ts: "tiers d' = row_upd tier_code code (\<lambda>_. t') ts" using b code by (simp add: ts_def)
    have tsc: "tier_code ` set ts = tier_code ` set (tiers d)"
      using tier_code_demote by (simp add: ts_def)
    have old: "\<exists>y\<in>set (tiers d). tier_code y = tier_code x \<and> tier_sales_led y = tier_sales_led x"
      if "x \<in> set ts" for x
      using that set_demote_default [of x now "tiers d"] by (auto simp: ts_def split: if_splits)
    show ?thesis
    proof (rule catalog_inv_add [OF inv, where code = code and led = "tier_sales_led t'"])
      have "tier_code ` set (tiers d') = set (map tier_code (row_upd tier_code code (\<lambda>_. t') ts))"
        by (simp add: ts)
      also have "map tier_code (row_upd tier_code code (\<lambda>_. t') ts) = map tier_code ts"
        using t(2) by (auto simp: row_upd_def)
      finally show "tier_code ` set (tiers d') = insert code (tier_code ` set (tiers d))"
        using tsc tin code by auto
    qed (use ts old c code t(2) in \<open>auto simp: set_row_upd split: if_splits\<close>)
  qed
qed


lemma tier_delete_keeps:
  assumes "tier_delete code actor now d = Inr d'" and inv: "tiers_inv d" "catalog_inv d"
  shows "tiers_inv d' \<and> catalog_inv d'"
proof -
  obtain t where t: "row_get tier_code code (tiers d) = Some t" "\<not> tier_is_default t"
    and d': "catalog d' = filter (\<lambda>r. cat_sku r \<noteq> code) (catalog d)"
      "tiers d' = row_del tier_code code (tiers d)"
    using tier_delete_Inr [OF assms(1)] by blast
  have tin: "t \<in> set (tiers d)" "tier_code t = code" using row_get_Some [OF t(1)] by auto
  have nd: "\<not> tier_is_default x" if "x \<in> set (tiers d)" "tier_code x = code" for x
    using that tin t(2) inv(1) by (auto simp: tiers_inv_def dest: unique_byD)
  have "count_where tier_is_default (row_del tier_code code ts) = count_where tier_is_default ts"
    if "\<forall>x\<in>set ts. tier_code x = code \<longrightarrow> \<not> tier_is_default x" for ts
    using that by (induction ts) (auto simp: row_del_def)
  then have "count_where tier_is_default (row_del tier_code code (tiers d))
      = count_where tier_is_default (tiers d)" using nd by blast
  then have "tiers_inv d'"
    using inv(1) by (simp add: tiers_inv_def d' unique_by_row_del list_all_iff)
  moreover have "catalog_inv d'"
    unfolding catalog_inv_def d'
  proof (intro conjI ballI allI)
    show "cat_sku ` set (filter (\<lambda>r. cat_sku r \<noteq> code) (catalog d))
        \<subseteq> tier_code ` set (row_del tier_code code (tiers d))"
      using inv(2) by (auto simp: catalog_inv_def)
    fix x p
    assume x: "x \<in> set (row_del tier_code code (tiers d))"
    then have "catalog_row_of (filter (\<lambda>r. cat_sku r \<noteq> code) c) (tier_code x) p
        = catalog_row_of c (tier_code x) p" for c
      by (induction c) (auto simp: catalog_row_of_def)
    then show "(catalog_row_of (filter (\<lambda>r. cat_sku r \<noteq> code) (catalog d)) (tier_code x) p \<noteq> None)
        = (\<not> tier_sales_led x)"
      using inv(2) x by (simp add: catalog_inv_def)
  qed
  ultimately show ?thesis by blast
qed

lemma set_tier_active_keeps_catalog:
  assumes "row_get tier_code code (tiers d) = Some t" "tiers_inv d" "catalog_inv d"
  shows "catalog_inv (snd (set_tier_active v action t actor now d))"
proof -
  let ?t = "t\<lparr>tier_active := v, tier_updated_at := now, tier_updated_by := Some actor\<rparr>"
  have t: "tier_code t = code" "t \<in> set (tiers d)" using row_get_Some [OF assms(1)] by auto
  have eq: "x = t" if "x \<in> set (tiers d)" "tier_code x = code" for x
    using that t assms(2) by (auto simp: tiers_inv_def dest: unique_byD)
  have "map tier_code (row_upd tier_code code (\<lambda>_. ?t) (tiers d)) = map tier_code (tiers d)"
    using t by (auto simp: row_upd_def)
  then have codes: "tier_code ` set (row_upd tier_code code (\<lambda>_. ?t) (tiers d)) = tier_code ` set (tiers d)"
    by (metis list.set_map)
  have "\<exists>y\<in>set (tiers d). tier_code y = tier_code x \<and> tier_sales_led y = tier_sales_led x"
    if "x \<in> set (row_upd tier_code code (\<lambda>_. ?t) (tiers d))" for x
  proof -
    have "x \<in> set (tiers d) \<or> x = ?t" using that by (auto simp: set_row_upd)
    then show ?thesis
    proof
      assume x: "x = ?t"
      show ?thesis by (rule bexI [OF _ t(2)]) (simp add: x)
    qed blast
  qed
  then show ?thesis
    using assms(3) codes unfolding catalog_inv_def set_tier_active_Pair t(1) by (metis (no_types, lifting))
qed

lemma tier_step_keeps:
  "tier_step d d' \<Longrightarrow> tiers_inv d \<and> catalog_inv d \<Longrightarrow> tiers_inv d' \<and> catalog_inv d'"
proof (induction rule: tier_step.induct)
  case (create body actor now d t d')
  then show ?case using tier_create_keeps by blast
next
  case (update code ubody actor now d t d')
  then show ?case using tier_update_keeps tier_update_keeps_catalog by blast
next
  case (deactivate code actor now d t d')
  then obtain u where "row_get tier_code code (tiers d) = Some u" "\<not> tier_is_default u"
    "(t, d') = set_tier_active False ''deactivated'' u actor now d"
    using tier_deactivate_Inr by blast
  note u = this(1) and nd = this(2) and d' = arg_cong [OF this(3), of snd]
  show ?case
    using deactivate(2) set_tier_active_keeps [OF _ u] set_tier_active_keeps_catalog [OF u] nd
    unfolding d' [simplified] by blast
next
  case (reactivate code actor now d t d')
  then obtain u where "row_get tier_code code (tiers d) = Some u"
    "(t, d') = set_tier_active True ''reactivated'' u actor now d"
    using tier_reactivate_Inr by blast
  note u = this(1) and d' = arg_cong [OF this(2), of snd]
  show ?case
    using reactivate(2) set_tier_active_keeps [OF _ u] set_tier_active_keeps_catalog [OF u]
    unfolding d' [simplified] by blast
next
  case (delete code actor now d d')
  then show ?case using tier_delete_keeps by blast
qed

lemma tier_default_of_inv:
  assumes "tiers_inv d"
  obtains t where "tier_default d = Inr t" "t \<in> set (tiers d)" "tier_is_default t" "tier_active t"
    "tier_requestable t" "\<not> tier_sales_led t"
proof -
  have "filter tier_is_default (tiers d) \<noteq> []"
    using assms unfolding tiers_inv_def count_where_def by force
  then obtain t ts where f: "filter tier_is_default (tiers d) = t # ts"
    by (cases "filter tier_is_default (tiers d)") auto
  then have "t \<in> set (filter tier_is_default (tiers d))" by simp
  then have t: "t \<in> set (tiers d)" "tier_is_default t" by simp_all
  moreover have "tier_good t" using assms t by (simp add: tiers_inv_def list_all_iff)
  moreover have "tier_default d = Inr t" using f by (simp add: tier_default_def)
  ultimately show ?thesis using that by (simp add: tier_good_def)
qed


subsection \<open>Properties\<close>

definition seed_tier :: sku_tier where
  "seed_tier = \<lparr>tier_code = ''FREE'', tier_label = ''Free'', tier_rank = 1, tier_active = True,
     tier_requestable = True, tier_sales_led = False, tier_is_default = True,
     tier_bundle_idr = None, tier_limit_scan = 1, tier_limit_host = 1, tier_limit_uptime = 1,
     tier_limit_guard = 1, tier_allow_status_page = False, tier_allow_custom_host = False,
     tier_allow_waf_protect = False, tier_allow_siem = False, tier_billing_unrestricted = False,
     tier_editor_limit = None, tier_viewer_limit = None, tier_created_at = 0,
     tier_updated_at = 0, tier_updated_by = None\<rparr>"

definition seed_db :: db where
  "seed_db = empty_db\<lparr>tiers := [seed_tier],
     catalog := map (\<lambda>p. new_catalog_row ''FREE'' 0 0 p \<lparr>pb_list_idr = 0, pb_invoicable = False\<rparr>)
       INVOICE_PRODUCTS\<rparr>"

definition pro_body :: tier_create_body where
  "pro_body = \<lparr>cb_code = ''PRO'', cb_label = '' Pro '', cb_rank = None, cb_active = True,
     cb_requestable = True, cb_sales_led = False, cb_is_default = True, cb_bundle_idr = None,
     cb_limit_scan = 5, cb_limit_host = 5, cb_limit_uptime = 5, cb_limit_guard = 5,
     cb_allow_status_page = True, cb_allow_custom_host = False, cb_allow_waf_protect = False,
     cb_allow_siem = False, cb_billing_unrestricted = False, cb_editor_limit = None,
     cb_viewer_limit = None,
     cb_prices = Some (\<lambda>p. Some \<lparr>pb_list_idr = 500000, pb_invoicable = True\<rparr>)\<rparr>"

text \<open>The database after the creation of a second tier as the default.\<close>

definition two_tiers :: db where
  "two_tiers = (case tier_create pro_body 7 10 seed_db of Inl _ \<Rightarrow> seed_db | Inr (_, d) \<Rightarrow> d)"

lemma product_list_all: "(\<forall>p::product. P p) \<longleftrightarrow> P Scan \<and> P Host \<and> P Uptime \<and> P Guard"
  by (metis product.exhaust)

lemma seed_db_inv: "tiers_inv seed_db \<and> catalog_inv seed_db"
  unfolding tiers_inv_def catalog_inv_def product_list_all by code_simp

lemma two_tiers_step: "tier_step seed_db two_tiers"
proof -
  have "\<not> isl (tier_create pro_body 7 10 seed_db)" by code_simp
  then obtain t d' where "tier_create pro_body 7 10 seed_db = Inr (t, d')"
    by (cases "tier_create pro_body 7 10 seed_db") auto
  then show ?thesis unfolding two_tiers_def by (auto intro: tier_step.create)
qed

text \<open>C7: whatever sequence of admin mutations (create, update, deactivate, reactivate, delete) has
  been committed, tier codes and ranks stay unique, there is exactly one default tier, it is active,
  requestable and not sales-led, so \<open>default\<close> finds it and a customer always has a tier to request,
  the flags of every tier are consistent, and exactly the tiers that are not sales-led have a price
  for each of the four products.\<close>

theorem tier_catalog_invariant:
  assumes "tier_step\<^sup>*\<^sup>* d d'" "tiers_inv d" "catalog_inv d"
  shows "tiers_inv d' \<and> catalog_inv d' \<and> (\<exists>t. tier_default d' = Inr t \<and> tier_active t \<and>
    tier_requestable t \<and> \<not> tier_sales_led t) \<and> requestable_codes d' None \<noteq> []"
proof -
  have inv: "tiers_inv d' \<and> catalog_inv d'"
    using assms by (induction rule: rtranclp_induct) (auto dest: tier_step_keeps)
  then obtain t where t: "tier_default d' = Inr t" "t \<in> set (tiers d')" "tier_active t"
    "tier_requestable t" "\<not> tier_sales_led t" using tier_default_of_inv by metis
  then have "requestable_codes d' None \<noteq> []"
    by (auto simp: requestable_codes_def filter_empty_conv)
  with inv t show ?thesis by blast
qed

theorem tier_catalog_invariant_witness:
  "tier_step\<^sup>*\<^sup>* seed_db two_tiers \<and> length (tiers two_tiers) = 2
   \<and> tiers_inv two_tiers \<and> catalog_inv two_tiers"
proof -
  have "length (tiers two_tiers) = 2" by code_simp
  then show ?thesis
    using tier_catalog_invariant [OF r_into_rtranclp [of tier_step, OF two_tiers_step]] seed_db_inv two_tiers_step
    by blast
qed

lemma map_of_const: "map_of (map (\<lambda>k. (k, f k)) ks) k = (if k \<in> set ks then Some (f k) else None)"
  by (induction ks) auto

lemma grouped_count: "code \<in> set unique \<Longrightarrow>
    count_of (grouped column rows unique) code = count_where (\<lambda>r. column r = Some code) rows"
proof -
  assume u: "code \<in> set unique"
  let ?p = "filter (\<lambda>r. column r \<in> Some ` set unique) rows"
  have f: "count_where (\<lambda>r. column r = Some code) ?p = count_where (\<lambda>r. column r = Some code) rows"
    using u by (induction rows) auto
  show ?thesis
  proof (cases "list_ex (\<lambda>r. column r = Some code) ?p")
    case True
    then show ?thesis using u f by (simp add: count_of_def grouped_def Let_def map_of_const)
  next
    case False
    then have "count_where (\<lambda>r. column r = Some code) ?p = 0"
      by (auto simp: count_where_zero list_ex_iff)
    with False f show ?thesis by (simp add: count_of_def grouped_def Let_def map_of_const)
  qed
qed

text \<open>the grouped usage query answers for every requested tier what the query of that tier
  alone answers, on a database where no upgrade request has the same current and target tier (such
  a request would be counted twice by the grouped query).\<close>

theorem usage_counts_many_agrees:
  assumes "code \<in> set codes" "\<forall>r\<in>set (requests d). req_current_sku r \<noteq> req_target_sku r"
  shows "map_of (usage_counts_many d codes) code = Some (usage_counts d code)"
proof -
  have "count_where (\<lambda>r. req_current_sku r = code) rs + count_where (\<lambda>r. req_target_sku r = code) rs
      = count_where (\<lambda>r. req_current_sku r = code \<or> req_target_sku r = code) rs"
    if "\<forall>r\<in>set rs. req_current_sku r \<noteq> req_target_sku r" for rs
    using that by (induction rs) auto
  from this [OF assms(2)] assms(1) show ?thesis
    by (auto simp: usage_counts_many_def Let_def map_of_const grouped_count usage_counts_def)
qed

definition refs_ok :: "db \<Rightarrow> bool" where
  "refs_ok d \<longleftrightarrow> (let codes = set (map tier_code (tiers d)) in
     set (map org_sku (orgs d)) \<subseteq> codes \<and> set (map sub_sku (subs d)) \<subseteq> codes
     \<and> set (map inv_sku (invoices d)) \<subseteq> codes \<and> set (map req_current_sku (requests d)) \<subseteq> codes
     \<and> set (map req_target_sku (requests d)) \<subseteq> codes
     \<and> (\<forall>p\<in>set (promos d). opt_all (\<lambda>c. c \<in> codes) (promo_applies_to_sku p)))"

text \<open>deleting a tier leaves no dangling reference: every tier named by an organization, a
  subscription, an invoice, an upgrade request or a promo code still exists afterwards, its price
  rows are gone, all other tiers are untouched and the deletion is in the audit log.\<close>

theorem tier_delete_safe:
  assumes "tier_delete code actor now d = Inr d'" "refs_ok d"
  shows "refs_ok d' \<and> row_get tier_code code (tiers d') = None \<and> (\<forall>p. catalog_rows d' code p = None)
    \<and> (\<forall>c. c \<noteq> code \<longrightarrow> row_get tier_code c (tiers d') = row_get tier_code c (tiers d))
    \<and> (\<exists>h. tier_log d' = tier_log d @ [h] \<and> sth_code h = code \<and> sth_action h = ''deleted'')"
proof -
  obtain t where u: "usage_counts d code = \<lparr>use_orgs = 0, use_subscriptions = 0, use_invoices = 0,
          use_requests = 0, use_promos = 0\<rparr>"
    and d': "d' = (log_tier code ''deleted'' (Some actor) (deleted_changes t (catalog_rows d code)) now d)
        \<lparr>catalog := filter (\<lambda>r. cat_sku r \<noteq> code) (catalog d),
         tiers := row_del tier_code code (tiers d)\<rparr>"
    using assms(1) tier_delete_Inr [OF assms(1)]
    by (auto simp: tier_delete_def ebind_eq_Inr raise_if_Inr tier_get_Inr Let_def log_tier_def)
  have s: "set (map tier_code (tiers d')) = set (map tier_code (tiers d)) - {code}"
    by (auto simp: d')
  have "refs_ok d'"
    using assms(2) u unfolding refs_ok_def Let_def s usage_counts_def
    by (auto simp: d' log_tier_def count_where_zero subset_iff opt_all_def split: option.splits)
  then show ?thesis
    by (auto simp: d' log_tier_def row_get_del catalog_rows_def catalog_row_of_def find_None_iff)
qed

lemma diff_changes_mem: "(f, a, b) \<in> set (diff_changes before after) \<longleftrightarrow>
    (f, b) \<in> set after \<and> a = dict_get before f \<and> a \<noteq> b"
  by (auto simp: diff_changes_def)

lemma tier_values_field: "f \<in> fst ` set (tier_values t) \<longleftrightarrow> f \<in> fst ` set (tier_values u)"
  by (simp add: tier_values_def)

lemma tier_values_get: "f \<in> fst ` set (tier_values t) \<Longrightarrow>
    (f, b) \<in> set (tier_values t) \<longleftrightarrow> b = dict_get (tier_values t) f"
proof -
  assume f: "f \<in> fst ` set (tier_values t)"
  have d: "distinct (map fst (tier_values t))" by (simp add: tier_values_def)
  obtain v where v: "(f, v) \<in> set (tier_values t)" using f by auto
  with d have m: "map_of (tier_values t) f = Some v" by simp
  have "(f, b) \<in> set (tier_values t) \<longleftrightarrow> map_of (tier_values t) f = Some b" using d by simp
  with m show ?thesis by (auto simp: dict_get_def)
qed

lemma price_fields:
  "f \<in> fst ` set (price_values r) \<Longrightarrow> take 6 f = ''price.''"
  "f \<in> fst ` set (after_price_values ps r) \<Longrightarrow> take 6 f = ''price.''"
  "f \<in> fst ` set (tier_values t) \<Longrightarrow> take 6 f \<noteq> ''price.''"
  subgoal by (auto simp: price_values_def price_field_def)
  subgoal by (auto simp: after_price_values_def price_field_def split: option.splits)
  subgoal by (simp add: tier_values_def) (elim disjE; simp)
  done

lemma dict_get_append: "f \<in> fst ` set xs \<Longrightarrow> dict_get (xs @ ys) f = dict_get xs f"
  by (induction xs) (auto simp: dict_get_def)

lemma tier_diff_mem:
  assumes "f \<in> fst ` set (tier_values t)"
    "\<And>g. g \<in> fst ` set after \<Longrightarrow> take 6 g = ''price.''"
  shows "(f, a, b) \<in> set (diff_changes (tier_values t @ before) (tier_values t' @ after)) \<longleftrightarrow>
     a = dict_get (tier_values t) f \<and> b = dict_get (tier_values t') f \<and> a \<noteq> b"
proof -
  have "(f, b) \<notin> set after"
    using assms price_fields(3) by (metis fst_conv image_eqI)
  moreover have "f \<in> fst ` set (tier_values t')" using assms(1) tier_values_field by blast
  ultimately show ?thesis
    using tier_values_get dict_get_append [OF assms(1)] by (auto simp: diff_changes_mem)
qed

lemma tier_save_log:
  assumes "tier_save prices before_rows t t' actor now d = Inr d'"
  obtains ch where "\<And>f a b. f \<in> fst ` set (tier_values t) \<Longrightarrow> (f, a, b) \<in> set ch \<longleftrightarrow>
       a = dict_get (tier_values t) f \<and> b = dict_get (tier_values t') f \<and> a \<noteq> b"
    "tier_log d' = tier_log d @ (if ch = [] then [] else [\<lparr>sth_code = tier_code t,
        sth_action = ''updated'', sth_actor = Some actor, sth_org = None, sth_changes = ch, sth_at = now\<rparr>])"
proof -
  let ?after = "if tier_sales_led t' then price_values (\<lambda>_. None) else after_price_values prices
        (if tier_sales_led t' then (\<lambda>_. None) else before_rows)"
  let ?ch = "diff_changes (tier_values t @ price_values before_rows) (tier_values t' @ ?after)"
  obtain c where "commit_tier t'
       (if ?ch = [] then d\<lparr>tiers := row_upd tier_code (tier_code t) (\<lambda>_. t')
           (if tier_is_default t' \<and> \<not> tier_is_default t then demote_default now (tiers d)
            else tiers d), catalog := c\<rparr>
        else log_tier (tier_code t) ''updated'' (Some actor) ?ch now
          (d\<lparr>tiers := row_upd tier_code (tier_code t) (\<lambda>_. t')
           (if tier_is_default t' \<and> \<not> tier_is_default t then demote_default now (tiers d)
            else tiers d), catalog := c\<rparr>)) = Inr d'"
    using assms unfolding tier_save_def Let_def ebind_eq_Inr by blast
  then have log: "tier_log d' = tier_log d @ (if ?ch = [] then [] else [\<lparr>sth_code = tier_code t,
        sth_action = ''updated'', sth_actor = Some actor, sth_org = None, sth_changes = ?ch, sth_at = now\<rparr>])"
    by (simp add: commit_tier_def log_tier_def split: if_split_asm) auto
  have pf: "take 6 g = ''price.''" if "g \<in> fst ` set ?after" for g
    using that price_fields(1,2) [of g] by (cases "tier_sales_led t'") metis+
  show ?thesis by (rule that [OF tier_diff_mem [OF _ pf] log])
qed

text \<open>a committed update is audited exactly: the audit row carries a field of the tier if and
  only if the update changed its value, with the value before and the value after; an update with
  nothing to report writes no row; earlier rows are never touched.\<close>

theorem tier_update_audited:
  assumes "tier_update code body actor now d = Inr (t', d')" "row_get tier_code code (tiers d) = Some t"
  shows "\<exists>ch. tier_log d' = tier_log d @ (if ch = [] then [] else [\<lparr>sth_code = code,
        sth_action = ''updated'', sth_actor = Some actor, sth_org = None, sth_changes = ch, sth_at = now\<rparr>])
    \<and> (\<forall>f\<in>fst ` set (tier_values t). \<forall>a b. (f, a, b) \<in> set ch \<longleftrightarrow>
       a = dict_get (tier_values t) f \<and> b = dict_get (tier_values t') f \<and> a \<noteq> b)"
proof (rule tier_update_Inr [OF assms(1)])
  fix u
  assume u: "row_get tier_code code (tiers d) = Some u"
    and sv: "tier_save (ub_prices body) (catalog_rows d (tier_code u)) u t' actor now d = Inr d'"
  have "u = t" "tier_code t = code" using assms(2) u row_get_Some [OF u] by auto
  then show ?thesis using tier_save_log [OF sv] by metis
qed

end
