(* ===== verification/Decimals.thy ===== *)
theory Decimals
  imports Prelude
begin

text \<open>
  Python's \<open>decimal\<close> arithmetic on the fixed-point values the services use. A decimal is the
  integer number of units of its column (whole IDR, \<open>10^-6\<close> USD, \<open>10^-12\<close> USD):
  \<^item> \<open>half_up a b\<close>: \<open>a / b\<close> rounded to an integer, ties away from zero (\<open>ROUND_HALF_UP\<close>);
  \<^item> \<open>ceil_div a b\<close>: \<open>a / b\<close> rounded up (\<open>ROUND_CEILING\<close>);
  \<^item> \<open>ctx28 c\<close>: the rounding of the default context, which keeps 28 significant digits of the
    result of an operation (\<open>ROUND_HALF_EVEN\<close>).
  The lemmas give their error bounds and that each of them is monotone.
\<close>

subsection \<open>Rounding a quotient\<close>

definition half_up :: "int \<Rightarrow> int \<Rightarrow> int" where
  "half_up a b = sgn a * ((2 * \<bar>a\<bar> + b) div (2 * b))"

definition ceil_div :: "int \<Rightarrow> int \<Rightarrow> int" where
  "ceil_div a b = - ((- a) div b)"

lemma half_up_nonneg_eq: "0 \<le> a \<Longrightarrow> 0 < b \<Longrightarrow> half_up a b = (2 * a + b) div (2 * b)"
  by (cases "a = 0") (auto simp: half_up_def)

lemma half_up_0 [simp]: "half_up 0 b = 0"
  by (simp add: half_up_def)

lemma half_up_nonneg: "0 \<le> a \<Longrightarrow> 0 < b \<Longrightarrow> 0 \<le> half_up a b"
  by (simp add: half_up_nonneg_eq pos_imp_zdiv_nonneg_iff)

lemma half_up_error:
  assumes "0 \<le> a" "0 < b"
  shows "2 * (b * half_up a b) \<le> 2 * a + b" and "2 * a - b < 2 * (b * half_up a b)"
proof -
  define q where "q = (2 * a + b) div (2 * b)"
  define r where "r = (2 * a + b) mod (2 * b)"
  have eq: "half_up a b = q" using assms unfolding q_def by (rule half_up_nonneg_eq)
  have m: "2 * (b * q) + r = 2 * a + b"
    unfolding q_def r_def by (metis mult.assoc mult_div_mod_eq)
  have "0 \<le> r" and "r < 2 * b" using assms by (simp_all add: r_def)
  with m show "2 * (b * half_up a b) \<le> 2 * a + b" and "2 * a - b < 2 * (b * half_up a b)"
    unfolding eq by linarith+
qed

lemma half_up_mono: "0 \<le> a \<Longrightarrow> a \<le> a' \<Longrightarrow> 0 < b \<Longrightarrow> half_up a b \<le> half_up a' b"
  by (simp add: half_up_nonneg_eq zdiv_mono1)

lemma half_up_le:
  assumes "0 \<le> a" "0 < b" "a \<le> c * b"
  shows "half_up a b \<le> c"
proof -
  have "2 * (b * half_up a b) \<le> 2 * a + b" and "a \<le> b * c"
    using half_up_error(1) [OF assms(1,2)] assms(3) by (simp_all add: mult.commute)
  then have "b * (2 * half_up a b) < b * (2 * (c + 1))"
    using assms(2) by (simp add: distrib_left)
  with assms(2) show ?thesis by simp
qed

lemma ceil_div_mono: "a \<le> a' \<Longrightarrow> 0 < b \<Longrightarrow> ceil_div a b \<le> ceil_div a' b"
  by (simp add: ceil_div_def zdiv_mono1)

lemma ceil_div_nonneg: "0 \<le> a \<Longrightarrow> 0 < b \<Longrightarrow> 0 \<le> ceil_div a b"
  by (simp add: ceil_div_def div_nonpos_pos_le0)

lemma ceil_div_bounds:
  assumes "0 < b"
  shows "a \<le> b * ceil_div a b" and "b * ceil_div a b < a + b"
proof -
  define q where "q = (- a) div b"
  define r where "r = (- a) mod b"
  have m: "b * q + r = - a" unfolding q_def r_def by (rule mult_div_mod_eq)
  have eq: "b * ceil_div a b = - (b * q)" by (simp add: ceil_div_def q_def)
  have "0 \<le> r" and "r < b" using assms by (simp_all add: r_def)
  with m show "a \<le> b * ceil_div a b" and "b * ceil_div a b < a + b"
    unfolding eq by linarith+
qed

lemma ceil_div_pos: "0 < a \<Longrightarrow> 0 < b \<Longrightarrow> 0 < ceil_div a b"
  by (metis ceil_div_bounds(1) less_le_trans zero_less_mult_pos)

subsection \<open>The 28-digit context\<close>

function excess_digits :: "int \<Rightarrow> nat" where
  "excess_digits c = (if c < 10 ^ 28 then 0 else Suc (excess_digits (c div 10)))"
  by pat_completeness auto
termination
  by (relation "measure nat") auto

declare excess_digits.simps [simp del]

definition half_even :: "int \<Rightarrow> int \<Rightarrow> int" where
  "half_even c d = (let q = c div d; r = c mod d in
     if 2 * r < d then q else if d < 2 * r then q + 1 else if even q then q else q + 1)"

definition ctx28 :: "int \<Rightarrow> int" where
  "ctx28 c = (let d = 10 ^ excess_digits \<bar>c\<bar> in sgn c * (half_even \<bar>c\<bar> d * d))"

lemma excess_digits_small: "c < 10 ^ 28 \<Longrightarrow> excess_digits c = 0"
  by (subst excess_digits.simps) simp

lemma ctx28_exact: "\<bar>c\<bar> < 10 ^ 28 \<Longrightarrow> ctx28 c = c"
  by (simp add: ctx28_def excess_digits_small half_even_def sgn_mult_abs)

lemma ctx28_0 [simp]: "ctx28 0 = 0"
  by (simp add: ctx28_def)

lemma excess_digits_upper: "c < 10 ^ (28 + excess_digits c)"
proof (induction c rule: excess_digits.induct)
  case (1 c)
  show ?case
  proof (cases "c < 10 ^ 28")
    case True
    then show ?thesis by (simp add: excess_digits_small)
  next
    case False
    then have "c div 10 < 10 ^ (28 + excess_digits (c div 10))" by (rule 1)
    then have "c < 10 * 10 ^ (28 + excess_digits (c div 10))" by linarith
    then have "c < 10 ^ (28 + Suc (excess_digits (c div 10)))"
      unfolding add_Suc_right power_Suc .
    with False show ?thesis by (metis excess_digits.simps)
  qed
qed

lemma excess_digits_lower: "0 < excess_digits c \<Longrightarrow> 10 ^ (27 + excess_digits c) \<le> c"
proof (induction c rule: excess_digits.induct)
  case (1 c)
  then have False': "\<not> c < 10 ^ 28" by (auto simp: excess_digits_small)
  have e: "excess_digits c = Suc (excess_digits (c div 10))"
    using False' by (subst excess_digits.simps) simp
  show ?case
  proof (cases "excess_digits (c div 10) = 0")
    case True
    with e False' show ?thesis by simp
  next
    case False
    then have "10 ^ (27 + excess_digits (c div 10)) \<le> c div 10"
      using 1 False' by simp
    then have "10 * 10 ^ (27 + excess_digits (c div 10)) \<le> c" by linarith
    then show ?thesis unfolding e add_Suc_right power_Suc .
  qed
qed

lemma excess_digits_mono: "0 \<le> a \<Longrightarrow> a \<le> b \<Longrightarrow> excess_digits a \<le> excess_digits b"
proof (rule ccontr)
  assume ab: "0 \<le> a" "a \<le> b" and "\<not> excess_digits a \<le> excess_digits b"
  then have lt: "excess_digits b < excess_digits a" by simp
  then have "(10::int) ^ (27 + excess_digits a) \<le> a" by (intro excess_digits_lower) simp
  moreover have "(10::int) ^ (28 + excess_digits b) \<le> 10 ^ (27 + excess_digits a)"
    using lt by (intro power_increasing) auto
  ultimately show False using excess_digits_upper [of b] ab by linarith
qed

lemma half_even_bounds: "c div d \<le> half_even c d" "half_even c d \<le> c div d + 1"
  by (auto simp: half_even_def Let_def)

lemma half_even_mono:
  assumes "0 < d" "a \<le> b"
  shows "half_even a d \<le> half_even b d"
proof (cases "a div d = b div d")
  case True
  have "a = d * (b div d) + a mod d" "b = d * (b div d) + b mod d"
    using mult_div_mod_eq [of d a] True by simp_all
  with \<open>a \<le> b\<close> have "a mod d \<le> b mod d" by linarith
  with True show ?thesis by (auto simp: half_even_def Let_def)
next
  case False
  have "a div d \<le> b div d" using assms by (simp add: zdiv_mono1)
  with False have "a div d + 1 \<le> b div d" by simp
  with half_even_bounds [of a d] half_even_bounds [of b d] show ?thesis by linarith
qed

lemma ctx28_nonneg_eq:
  "0 \<le> c \<Longrightarrow> ctx28 c = half_even c (10 ^ excess_digits c) * 10 ^ excess_digits c"
  by (cases "c = 0") (simp_all add: ctx28_def half_even_def Let_def)

lemma ctx28_nonneg: "0 \<le> c \<Longrightarrow> 0 \<le> ctx28 c"
proof -
  assume "0 \<le> c"
  then have "0 \<le> c div 10 ^ excess_digits c" by (simp add: pos_imp_zdiv_nonneg_iff)
  then have "0 \<le> half_even c (10 ^ excess_digits c)"
    using half_even_bounds(1) order_trans by blast
  with \<open>0 \<le> c\<close> show ?thesis by (simp add: ctx28_nonneg_eq)
qed

lemma ctx28_upper: "0 \<le> c \<Longrightarrow> ctx28 c \<le> 10 ^ (28 + excess_digits c)"
proof -
  assume "0 \<le> c"
  have "c < 10 ^ 28 * 10 ^ excess_digits c"
    using excess_digits_upper [of c] by (simp add: power_add)
  then have "c div 10 ^ excess_digits c < 10 ^ 28"
    by (smt (verit) nonzero_mult_div_cancel_right pos_imp_zdiv_pos_iff zdiv_mono1 zero_less_power
        div_mult2_eq mult_div_mod_eq pos_mod_sign mult_le_cancel_right mult.commute)
  then have "half_even c (10 ^ excess_digits c) \<le> 10 ^ 28"
    using half_even_bounds(2) [of c "10 ^ excess_digits c"] by linarith
  then have "half_even c (10 ^ excess_digits c) * 10 ^ excess_digits c
      \<le> 10 ^ 28 * 10 ^ excess_digits c"
    by (rule mult_right_mono) simp
  with \<open>0 \<le> c\<close> show ?thesis by (simp add: ctx28_nonneg_eq power_add)
qed

lemma ctx28_lower: "0 < excess_digits c \<Longrightarrow> 0 \<le> c \<Longrightarrow> 10 ^ (27 + excess_digits c) \<le> ctx28 c"
proof -
  assume e: "0 < excess_digits c" and "0 \<le> c"
  have "10 ^ 27 * 10 ^ excess_digits c \<le> c"
    using excess_digits_lower [OF e] by (simp add: power_add)
  then have "10 ^ 27 \<le> c div 10 ^ excess_digits c"
    by (metis nonzero_mult_div_cancel_right power_not_zero zdiv_mono1 zero_less_power
        zero_less_numeral zero_neq_numeral)
  then have "10 ^ 27 \<le> half_even c (10 ^ excess_digits c)"
    using half_even_bounds(1) order_trans by blast
  then have "10 ^ 27 * 10 ^ excess_digits c
      \<le> half_even c (10 ^ excess_digits c) * 10 ^ excess_digits c"
    by (rule mult_right_mono) simp
  with \<open>0 \<le> c\<close> show ?thesis by (simp add: ctx28_nonneg_eq power_add)
qed

lemma ctx28_mono:
  assumes "0 \<le> a" "a \<le> b"
  shows "ctx28 a \<le> ctx28 b"
proof (cases "excess_digits a = excess_digits b")
  case True
  have "half_even a (10 ^ excess_digits b) \<le> half_even b (10 ^ excess_digits b)"
    using assms by (intro half_even_mono) auto
  then have "half_even a (10 ^ excess_digits b) * 10 ^ excess_digits b
      \<le> half_even b (10 ^ excess_digits b) * 10 ^ excess_digits b"
    by (rule mult_right_mono) simp
  with assms True show ?thesis by (simp add: ctx28_nonneg_eq)
next
  case False
  with excess_digits_mono [OF assms] have lt: "excess_digits a < excess_digits b" by simp
  have "ctx28 a \<le> 10 ^ (28 + excess_digits a)" using assms by (intro ctx28_upper)
  also have "(10::int) ^ (28 + excess_digits a) \<le> 10 ^ (27 + excess_digits b)"
    using lt by (intro power_increasing) auto
  also have "\<dots> \<le> ctx28 b" using lt assms by (intro ctx28_lower) auto
  finally show ?thesis .
qed

lemma ctx28_pos: "0 < c \<Longrightarrow> 0 < ctx28 c"
proof -
  assume "0 < c"
  have "ctx28 1 = 1" by (rule ctx28_exact) simp
  moreover have "ctx28 1 \<le> ctx28 c" using \<open>0 < c\<close> by (intro ctx28_mono) auto
  ultimately show ?thesis by simp
qed

end
