(* ===== verification/InvoiceMath.thy ===== *)
theory InvoiceMath
  imports Schema Decimals
begin

text \<open>
  Invoice and promo arithmetic (\<open>services/invoice_math.py\<close>, \<open>services/promo_math.py\<close>): billing
  periods in UTC, the amounts of an invoice, and the discount of a promo code.

  \<open>Decimal(taxable) * 11 / 12\<close> is rounded by the 28-digit context before it is quantized. For
  amounts below \<open>10^26\<close> IDR (the columns hold 32-bit integers) that rounding moves the quotient by
  less than the distance of a twelfth to a half, so the result is \<open>half_up\<close> of the exact quotient.
\<close>

subsection \<open>Billing periods\<close>

definition as_utc :: "pydatetime \<Rightarrow> datetime" where
  "as_utc v = (case v of Naive t \<Rightarrow> t | Aware t offset \<Rightarrow> t - offset)"

definition month_bounds_utc :: "datetime \<Rightarrow> datetime \<times> datetime" where
  "month_bounds_utc t = (let y = year_of t; m = month_of t in
     (datetime_ymd y m 1, datetime_ymd y m (days_in_month y m) + (day_us - 1)))"

text \<open>\<open>datetime(next_year, ...)\<close> refuses a year after 9999.\<close>

definition period_bounds_utc :: "datetime \<Rightarrow> cycle \<Rightarrow> (datetime \<times> datetime) result" where
  "period_bounds_utc t c = (let (start, end) = month_bounds_utc t in
     case c of
       Monthly \<Rightarrow> Inr (start, end)
     | Annual \<Rightarrow>
         if year_of start + 1 > 9999 then Inl (ValueError ''year is out of range'')
         else Inr (start, datetime_ymd (year_of start + 1) (month_of start) 1 - 1))"

lemma days_before_year_less: "y < y' \<Longrightarrow> days_before_year (y + 1) \<le> days_before_year y'"
proof (induction y' rule: int_gr_induct [of y])
  case (step i)
  have "days_before_year i \<le> days_before_year (i + 1)"
    by (simp add: days_before_year_step split: if_split)
  with step show ?case by linarith
qed auto

lemma year_of_ord_unique:
  assumes "days_before_year y < n" "n \<le> days_before_year (y + 1)"
  shows "year_of_ord n = y"
proof (rule linorder_cases [of "year_of_ord n" y])
  assume "year_of_ord n < y"
  from days_before_year_less [OF this] year_of_ord_bounds [of n] assms show ?thesis by linarith
next
  assume "y < year_of_ord n"
  from days_before_year_less [OF this] year_of_ord_bounds [of n] assms show ?thesis by linarith
qed

lemma months: "1 \<le> m \<Longrightarrow> m \<le> 12 \<Longrightarrow> m = 1 \<or> m = 2 \<or> m = 3 \<or> m = 4 \<or> m = 5 \<or> m = 6 \<or> m = 7 \<or> m = 8
    \<or> m = 9 \<or> m = 10 \<or> m = 11 \<or> m = (12::int)"
  by presburger

lemma month_in_year:
  assumes "1 \<le> m" "m \<le> 12" "ymd2ord y m 1 \<le> n" "n < ymd2ord y m 1 + days_in_month y m"
  shows "days_before_year y < n \<and> n \<le> days_before_year (y + 1)"
  using months [OF assms(1,2)] assms(3,4)
  by (elim disjE) (simp_all add: ymd2ord_def days_before_month_def days_in_month_def
      days_before_year_step split: if_splits)

lemma ord_unique:
  assumes "1 \<le> m" "m \<le> 12" "ymd2ord y m 1 \<le> n" "n < ymd2ord y m 1 + days_in_month y m"
  shows "year_of_ord n = y \<and> month_of_ord n = m"
proof -
  have y: "year_of_ord n = y"
    using month_in_year [OF assms] year_of_ord_unique by blast
  define k where "k = n - days_before_year y - 1"
  have "n = days_before_year y + k + 1" by (simp add: k_def)
  then have "month_of_ord n = m"
    using months [OF assms(1,2)] assms(3,4) y
    by (elim disjE) (simp_all add: month_of_ord_def ymd2ord_def days_before_month_def
        days_in_month_def Let_def split: if_splits)
  with y show ?thesis by blast
qed

lemma month_bounds_start: "fst (month_bounds_utc t) = ymd2ord (year_of t) (month_of t) 1 * day_us"
  by (simp add: month_bounds_utc_def Let_def datetime_ymd_def)

lemma month_bounds_end:
  "snd (month_bounds_utc t) =
     (ymd2ord (year_of t) (month_of t) 1 + days_in_month (year_of t) (month_of t)) * day_us - 1"
  by (simp add: month_bounds_utc_def Let_def datetime_ymd_def ymd2ord_def algebra_simps)

lemma day_us_pos: "0 < day_us" by (simp add: day_us_def)

lemma date_of_ge: "k * day_us \<le> t \<longleftrightarrow> k \<le> date_of t"
proof -
  define q where "q = t div day_us"
  define r where "r = t mod day_us"
  have t: "t = q * day_us + r" and r: "0 \<le> r" "r < day_us"
    using day_us_pos by (simp_all add: q_def r_def)
  have "k * day_us \<le> t \<longleftrightarrow> k \<le> q"
  proof (cases "k \<le> q")
    case True
    then have "k * day_us \<le> q * day_us" using day_us_pos by simp
    with True t r show ?thesis by linarith
  next
    case False
    then have "(q + 1) * day_us \<le> k * day_us" using day_us_pos by simp
    then have "q * day_us + day_us \<le> k * day_us" by (simp add: distrib_right)
    with False t r show ?thesis by linarith
  qed
  then show ?thesis by (simp add: date_of_def q_def)
qed

lemma date_of_less: "t \<le> k * day_us - 1 \<longleftrightarrow> date_of t < k"
  using date_of_ge [of k t] by linarith

lemma date_of_mult [simp]: "date_of (k * day_us) = k"
  by (simp add: date_of_def day_us_def)

lemma month_valid: "1 \<le> month_of t \<and> month_of t \<le> 12
    \<and> ymd2ord (year_of t) (month_of t) 1 \<le> date_of t
    \<and> date_of t < ymd2ord (year_of t) (month_of t) 1 + days_in_month (year_of t) (month_of t)"
  using month_of_ord_bounds [OF refl refl, of "date_of t"] by (simp add: year_of_def month_of_def)

lemma in_month_iff: "fst (month_bounds_utc t) \<le> t' \<and> t' \<le> snd (month_bounds_utc t) \<longleftrightarrow>
    year_of t' = year_of t \<and> month_of t' = month_of t"
proof
  assume "fst (month_bounds_utc t) \<le> t' \<and> t' \<le> snd (month_bounds_utc t)"
  then have "ymd2ord (year_of t) (month_of t) 1 \<le> date_of t'"
    "date_of t' < ymd2ord (year_of t) (month_of t) 1 + days_in_month (year_of t) (month_of t)"
    unfolding month_bounds_start month_bounds_end date_of_ge date_of_less by blast+
  then have "year_of_ord (date_of t') = year_of t \<and> month_of_ord (date_of t') = month_of t"
    using month_valid [of t] by (intro ord_unique) blast+
  then show "year_of t' = year_of t \<and> month_of t' = month_of t"
    by (simp add: year_of_def month_of_def)
next
  assume "year_of t' = year_of t \<and> month_of t' = month_of t"
  with month_valid [of t'] show "fst (month_bounds_utc t) \<le> t' \<and> t' \<le> snd (month_bounds_utc t)"
    unfolding month_bounds_start month_bounds_end date_of_ge date_of_less by simp
qed

lemma month_bounds_contain: "fst (month_bounds_utc t) \<le> t \<and> t \<le> snd (month_bounds_utc t)"
  by (simp add: in_month_iff)

lemma year_month_of_start:
  "year_of (fst (month_bounds_utc t)) = year_of t \<and> month_of (fst (month_bounds_utc t)) = month_of t"
  using in_month_iff [of t "fst (month_bounds_utc t)"] month_bounds_contain [of t] by simp

lemma period_bounds_cases:
  assumes "period_bounds_utc t c = Inr (s, e)"
  shows "s = fst (month_bounds_utc t)" and "s \<le> e"
    and "c = Monthly \<Longrightarrow> e = snd (month_bounds_utc t)"
    and "c = Annual \<Longrightarrow> e = datetime_ymd (year_of t + 1) (month_of t) 1 - 1"
proof -
  have mb: "month_bounds_utc t = (fst (month_bounds_utc t), snd (month_bounds_utc t))" by simp
  show s: "s = fst (month_bounds_utc t)"
    using assms by (auto simp: period_bounds_utc_def Let_def split: cycle.splits if_splits prod.splits)
  show e1: "c = Monthly \<Longrightarrow> e = snd (month_bounds_utc t)"
    using assms by (auto simp: period_bounds_utc_def Let_def split: prod.splits)
  show e2: "c = Annual \<Longrightarrow> e = datetime_ymd (year_of t + 1) (month_of t) 1 - 1"
    using assms year_month_of_start [of t]
    by (auto simp: period_bounds_utc_def Let_def split: prod.splits if_splits)
  show "s \<le> e"
  proof (cases c)
    case Monthly
    with e1 s month_bounds_contain [of t] show ?thesis by simp
  next
    case Annual
    have "ymd2ord (year_of t) (month_of t) 1 * day_us
        < ymd2ord (year_of t + 1) (month_of t) 1 * day_us"
      using ymd2ord_year_step day_us_pos by (simp add: mult_less_cancel_right_pos)
    with Annual e2 s show ?thesis by (simp add: month_bounds_start datetime_ymd_def)
  qed
qed

text \<open>Billing months partition time: a month contains the instant it was computed from, and
  the months of two instants are either the same interval or disjoint, so consecutive monthly
  invoices neither overlap nor leave a gap.\<close>

theorem month_bounds_partition:
  "fst (month_bounds_utc t) \<le> t \<and> t \<le> snd (month_bounds_utc t) \<and>
   (month_bounds_utc t' = month_bounds_utc t
      \<or> snd (month_bounds_utc t') < fst (month_bounds_utc t)
      \<or> snd (month_bounds_utc t) < fst (month_bounds_utc t'))
   \<and> month_bounds_utc (snd (month_bounds_utc t) + 1) =
      (snd (month_bounds_utc t) + 1, snd (month_bounds_utc (snd (month_bounds_utc t) + 1)))"
proof (intro conjI)
  let ?s = "\<lambda>t. fst (month_bounds_utc t)" and ?e = "\<lambda>t. snd (month_bounds_utc t)"
  have cont: "?s t \<le> t \<and> t \<le> ?e t" for t by (rule month_bounds_contain)
  show "?s t \<le> t" "t \<le> ?e t" using cont by simp_all
  have same: "month_bounds_utc t' = month_bounds_utc t" if "?s t \<le> u" "u \<le> ?e t" "?s t' \<le> u" "u \<le> ?e t'"
    for u
    using that in_month_iff [of t u] in_month_iff [of t' u] by (simp add: month_bounds_utc_def)
  show "month_bounds_utc t' = month_bounds_utc t \<or> ?e t' < ?s t \<or> ?e t < ?s t'"
  proof (rule ccontr)
    assume "\<not> ?thesis"
    then have n: "month_bounds_utc t' \<noteq> month_bounds_utc t" "?s t \<le> ?e t'" "?s t' \<le> ?e t" by auto
    have "?s t \<le> ?e t" "?s t' \<le> ?e t'" using cont order_trans by blast+
    then show False using same [of "max (?s t) (?s t')"] n by (cases "?s t \<le> ?s t'") (simp_all add: max_def)
  qed
  have m: "1 \<le> month_of t" "month_of t \<le> 12" using month_valid [of t] by simp_all
  have "\<exists>y m. 1 \<le> m \<and> m \<le> 12 \<and> ?e t + 1 = ymd2ord y m 1 * day_us"
  proof (cases "month_of t = 12")
    case True
    then have "?e t + 1 = ymd2ord (year_of t + 1) 1 1 * day_us"
      using next_month_start [OF m, of "year_of t"] by (simp add: month_bounds_end)
    then show ?thesis by (intro exI [of _ "year_of t + 1"] exI [of _ 1]) simp
  next
    case False
    then have "?e t + 1 = ymd2ord (year_of t) (month_of t + 1) 1 * day_us"
      using next_month_start [OF m, of "year_of t"] by (simp add: month_bounds_end)
    with m False show ?thesis by (intro exI [of _ "year_of t"] exI [of _ "month_of t + 1"]) simp
  qed
  then obtain y m where ym: "1 \<le> m" "m \<le> 12" "?e t + 1 = ymd2ord y m 1 * day_us" by blast
  have "0 < days_in_month y m" by (simp add: days_in_month_def)
  then have "year_of (?e t + 1) = y \<and> month_of (?e t + 1) = m"
    using ord_unique [OF ym(1,2), of y "ymd2ord y m 1"]
    by (simp add: ym(3) year_of_def month_of_def)
  then have "?s (?e t + 1) = ?e t + 1" using ym(3) by (simp add: month_bounds_start)
  then show "month_bounds_utc (?e t + 1) = (?e t + 1, ?e (?e t + 1))"
    by (metis prod.collapse)
qed

subsection \<open>Invoice amounts\<close>

record price =
  pr_amount :: int
  pr_discount :: int
  pr_dpp :: int
  pr_ppn :: int
  pr_pph23 :: int
  pr_total :: int

definition taxed_price :: "int \<Rightarrow> int \<Rightarrow> bool \<Rightarrow> price" where
  "taxed_price base discount pkp =
     (let taxable = base - discount in
      if \<not> pkp then
        \<lparr>pr_amount = base, pr_discount = discount, pr_dpp = taxable, pr_ppn = 0, pr_pph23 = 0,
         pr_total = taxable\<rparr>
      else
        let dpp = half_up (taxable * 11) 12;
            ppn = half_up (dpp * 12) 100;
            pph23 = half_up (taxable * 2) 100 in
        \<lparr>pr_amount = base, pr_discount = discount, pr_dpp = dpp, pr_ppn = ppn, pr_pph23 = pph23,
         pr_total = taxable + ppn\<rparr>)"

definition price_breakdown :: "int \<Rightarrow> bool \<Rightarrow> bool \<Rightarrow> int \<Rightarrow> price" where
  "price_breakdown base_list_idr annual pkp discount_idr =
     (let base = base_list_idr * (if annual then ANNUAL_MONTHS_PAID else 1);
          discount = max 0 (min discount_idr base)
      in taxed_price base discount pkp)"

lemma taxed_amount [simp]: "pr_amount (taxed_price b d k) = b"
  and taxed_discount [simp]: "pr_discount (taxed_price b d k) = d"
  by (simp_all add: taxed_price_def Let_def)

lemma taxed_total: "pr_total (taxed_price b d k) = b - d + pr_ppn (taxed_price b d k)"
  by (simp add: taxed_price_def Let_def)

lemma taxed_ppn:
  "pr_ppn (taxed_price b d k) = (if k then half_up (half_up ((b - d) * 11) 12 * 12) 100 else 0)"
  by (simp add: taxed_price_def Let_def)

lemma taxed_pph23: "pr_pph23 (taxed_price b d True) = half_up ((b - d) * 2) 100"
  by (simp add: taxed_price_def Let_def)

lemma taxed_ppn_nonneg: "d \<le> b \<Longrightarrow> 0 \<le> pr_ppn (taxed_price b d k)"
  by (simp add: taxed_ppn half_up_nonneg)

lemma taxed_free: "pr_total (taxed_price b b k) = 0"
  by (simp add: taxed_total taxed_ppn)

lemma price_breakdown_obtain:
  assumes "0 \<le> base"
  obtains b d where "price_breakdown base annual pkp discount = taxed_price b d pkp"
    "b = base * (if annual then ANNUAL_MONTHS_PAID else 1)" "d = max 0 (min discount b)"
    "0 \<le> d" "d \<le> b"
proof -
  define b where "b = base * (if annual then ANNUAL_MONTHS_PAID else 1)"
  have "0 \<le> b" using assms by (simp add: b_def ANNUAL_MONTHS_PAID_def)
  then show ?thesis
    by (intro that [of b "max 0 (min discount b)"]) (simp_all add: price_breakdown_def b_def Let_def)
qed

text \<open>C18: Whatever discount is asked for, the amounts of an invoice on a non-negative list price
  are those the database constraints demand (discount within the amount, total = amount -
  discount + PPN), the total is never negative, and it is zero exactly when the discount takes
  the whole amount.\<close>

theorem price_breakdown_sound:
  fixes base discount :: int and annual pkp :: bool
  assumes "0 \<le> base"
  defines "p \<equiv> price_breakdown base annual pkp discount"
  shows "0 \<le> pr_discount p \<and> pr_discount p \<le> pr_amount p
    \<and> pr_total p = pr_amount p - pr_discount p + pr_ppn p
    \<and> 0 \<le> pr_ppn p \<and> 0 \<le> pr_total p \<and> (pr_total p = 0 \<longleftrightarrow> pr_discount p = pr_amount p)"
proof -
  obtain b d where p: "p = taxed_price b d pkp" and d: "0 \<le> d" "d \<le> b"
    using price_breakdown_obtain [OF assms(1), of annual pkp discount] p_def by metis
  have ppn: "0 \<le> pr_ppn p" using d p taxed_ppn_nonneg by simp
  have total: "pr_total p = b - d + pr_ppn p" by (simp add: p taxed_total)
  have "pr_total p = 0 \<longleftrightarrow> d = b"
  proof
    assume "pr_total p = 0"
    with ppn total d show "d = b" by linarith
  qed (simp add: p taxed_free)
  with ppn total d show ?thesis by (simp add: p)
qed

theorem price_breakdown_sound_witness:
  "(0::int) \<le> 299000 \<and> pr_total (price_breakdown 299000 True True 500000) = 2763900
   \<and> pr_total (price_breakdown 299000 True True 500000)
     = pr_amount (price_breakdown 299000 True True 500000)
       - pr_discount (price_breakdown 299000 True True 500000)
       + pr_ppn (price_breakdown 299000 True True 500000)"
proof -
  have h: "(0::int) \<le> 299000" by simp
  have "pr_total (price_breakdown 299000 True True 500000) = 2763900" by code_simp
  with h price_breakdown_sound [OF h, of True True 500000] show ?thesis by blast
qed

text \<open>For a taxable (PKP) buyer the two roundings of the tax base and of the tax keep the PPN
  within 56 hundredths of a rupiah of 11 percent of the discounted amount, and the PPh 23
  withholding within half a rupiah of 2 percent of it.\<close>

theorem ppn_accuracy:
  fixes base discount :: int and annual :: bool
  assumes "0 \<le> base"
  defines "p \<equiv> price_breakdown base annual True discount"
  shows "\<bar>100 * pr_ppn p - 11 * (pr_amount p - pr_discount p)\<bar> \<le> 56
    \<and> \<bar>100 * pr_pph23 p - 2 * (pr_amount p - pr_discount p)\<bar> \<le> 50"
proof -
  obtain b d where p: "p = taxed_price b d True" and d: "0 \<le> d" "d \<le> b"
    using price_breakdown_obtain [OF assms(1), of annual True discount] p_def by metis
  define t where "t = b - d"
  define e where "e = half_up (t * 11) 12"
  have t0: "0 \<le> t" using d by (simp add: t_def)
  then have e0: "0 \<le> e" by (simp add: e_def half_up_nonneg)
  have ppn: "pr_ppn p = half_up (e * 12) 100" "pr_pph23 p = half_up (t * 2) 100"
    by (simp_all add: p t_def e_def taxed_ppn taxed_pph23)
  have dpp: "2 * (12 * e) \<le> 2 * (t * 11) + 12" "2 * (t * 11) - 12 < 2 * (12 * e)"
    unfolding e_def using t0 by (intro half_up_error; simp)+
  have vat: "2 * (100 * half_up (e * 12) 100) \<le> 2 * (e * 12) + 100"
    "2 * (e * 12) - 100 < 2 * (100 * half_up (e * 12) 100)"
    using e0 by (intro half_up_error; simp)+
  have pph: "2 * (100 * half_up (t * 2) 100) \<le> 2 * (t * 2) + 100"
    "2 * (t * 2) - 100 < 2 * (100 * half_up (t * 2) 100)"
    using t0 by (intro half_up_error; simp)+
  have "\<bar>100 * pr_ppn p - 11 * t\<bar> \<le> 56" using dpp vat ppn(1) by linarith
  moreover have "\<bar>100 * pr_pph23 p - 2 * t\<bar> \<le> 50" using pph ppn(2) by linarith
  ultimately show ?thesis by (simp add: p t_def)
qed

subsection \<open>Promo discounts\<close>

definition cap_discount :: "int option \<Rightarrow> int \<Rightarrow> int \<Rightarrow> int" where
  "cap_discount max_discount_idr base discount =
     (let discount = (case max_discount_idr of None \<Rightarrow> discount | Some m \<Rightarrow> min discount m)
      in max 0 (min discount base))"

definition discount_for ::
    "int \<Rightarrow> promo_kind \<Rightarrow> int option \<Rightarrow> int option \<Rightarrow> int option \<Rightarrow> int result" where
  "discount_for base_idr kind percent_off_bp amount_idr max_discount_idr =
     (let base = max 0 base_idr in
      case kind of
        Percent \<Rightarrow>
          (case (percent_off_bp, amount_idr) of
             (Some bp, None) \<Rightarrow> Inr (cap_discount max_discount_idr base ((base * bp + 5000) div 10000))
           | _ \<Rightarrow> Inl (ValueError ''percent promos require percent_off_bp and no amount_idr''))
      | Fixed \<Rightarrow>
          (case (percent_off_bp, amount_idr) of
             (None, Some a) \<Rightarrow> Inr (cap_discount max_discount_idr base a)
           | _ \<Rightarrow> Inl (ValueError ''fixed promos require amount_idr and no percent_off_bp'')))"

lemma cap_discount_bounds: "0 \<le> b \<Longrightarrow> 0 \<le> cap_discount m b x \<and> cap_discount m b x \<le> b"
  by (simp add: cap_discount_def Let_def)

lemma cap_discount_cap: "0 \<le> m \<Longrightarrow> cap_discount (Some m) b x \<le> m"
  by (auto simp: cap_discount_def Let_def)

lemma cap_discount_le: "cap_discount m b x \<le> max 0 x"
  by (auto simp: cap_discount_def Let_def split: option.split)

lemma cap_discount_exact: "0 \<le> x \<Longrightarrow> x \<le> b \<Longrightarrow> cap_discount None b x = x"
  by (simp add: cap_discount_def)

lemma discount_for_eq: "discount_for b k bp a m = Inr d \<longleftrightarrow>
    (\<exists>q. k = Percent \<and> bp = Some q \<and> a = None
       \<and> d = cap_discount m (max 0 b) ((max 0 b * q + 5000) div 10000))
    \<or> (\<exists>v. k = Fixed \<and> bp = None \<and> a = Some v \<and> d = cap_discount m (max 0 b) v)"
  unfolding discount_for_def Let_def
  by (cases k; cases bp; cases a; simp; blast)

lemma discount_for_bounds: "discount_for b k bp a m = Inr d \<Longrightarrow> 0 \<le> d \<and> d \<le> max 0 b"
  using cap_discount_bounds [of "max 0 b" m] by (auto simp only: discount_for_eq max.cobounded1)

lemma discount_for_defined:
  "k = Percent \<and> bp \<noteq> None \<and> a = None \<or> k = Fixed \<and> a \<noteq> None \<and> bp = None \<Longrightarrow>
   \<exists>d. discount_for b k bp a m = Inr d"
  by (auto simp only: discount_for_eq)

lemma percent_rounding:
  fixes b q :: int
  assumes "0 \<le> b" "0 \<le> q" "q \<le> 10000"
  shows "\<bar>10000 * cap_discount None b ((b * q + 5000) div 10000) - b * q\<bar> \<le> 5000"
proof -
  define x where "x = b * q"
  have "0 \<le> x" "x \<le> b * 10000"
    using assms mult_left_mono [of q 10000 b] by (simp_all add: x_def)
  then have "0 \<le> (x + 5000) div 10000" "(x + 5000) div 10000 \<le> b" by linarith+
  then have "cap_discount None b ((x + 5000) div 10000) = (x + 5000) div 10000"
    by (rule cap_discount_exact)
  moreover have "\<bar>10000 * ((x + 5000) div 10000) - x\<bar> \<le> 5000" by linarith
  ultimately show ?thesis by (simp only: x_def)
qed

text \<open>A discount is computed exactly for the two well-formed kinds of promo; it lies between
  zero and the (non-negative) base, respects the cap, and a percentage is rounded half up: it is
  within half a rupiah of \<open>base * bp / 10000\<close> when nothing clamps it.\<close>

theorem discount_for_sound:
  assumes "discount_for base kind bp amount cap = Inr d"
  shows "0 \<le> d \<and> d \<le> max 0 base \<and> opt_all (\<lambda>m. 0 \<le> m \<longrightarrow> d \<le> m) cap
    \<and> (kind = Fixed \<longrightarrow> bp = None \<and> d \<le> max 0 (the amount))
    \<and> (kind = Percent \<and> cap = None \<and> 0 \<le> base \<and> 0 \<le> the bp \<and> the bp \<le> 10000 \<longrightarrow>
         amount = None \<and> \<bar>10000 * d - base * the bp\<bar> \<le> 5000)"
proof (intro conjI impI)
  show "0 \<le> d" "d \<le> max 0 base" using discount_for_bounds [OF assms] by simp_all
  show "opt_all (\<lambda>m. 0 \<le> m \<longrightarrow> d \<le> m) cap"
    using assms cap_discount_cap by (cases cap) (auto simp only: discount_for_eq opt_all_simps)
  show "bp = None" if "kind = Fixed" using assms that by (auto simp only: discount_for_eq promo_kind.distinct)
  show "d \<le> max 0 (the amount)" if "kind = Fixed"
    using assms that cap_discount_le
    by (auto simp only: discount_for_eq promo_kind.distinct option.sel)
  assume p: "kind = Percent \<and> cap = None \<and> 0 \<le> base \<and> 0 \<le> the bp \<and> the bp \<le> 10000"
  then obtain q where q: "bp = Some q" "amount = None"
    "d = cap_discount None (max 0 base) ((max 0 base * q + 5000) div 10000)"
    using assms by (auto simp only: discount_for_eq promo_kind.distinct)
  show "amount = None" by (rule q)
  show "\<bar>10000 * d - base * the bp\<bar> \<le> 5000"
    using percent_rounding [of base q] p q by (simp add: max_def)
qed

end
