(* ===== verification/Promo.thy ===== *)
theory Promo
  imports InvoiceMath
begin

text \<open>
  Promo codes (\<open>services/promo.py\<close>): the admin handlers with the second-admin approval, the quote
  of a code for a purchase, and the redemption ledger that the invoice service writes inside its
  own transaction (\<open>record_redemption\<close>, \<open>release_for_invoice\<close>).

  \<open>promos_inv\<close> is the approval contract; the locale \<open>quota_ledger\<close> states what makes a redemption
  quota hold, and is interpreted for the quota of a code and for the quota of a code in one
  organization.
\<close>

subsection \<open>Bodies, terms and errors\<close>

record promo_create_body =
  pc_code :: string
  pc_description :: string
  pc_kind :: promo_kind
  pc_percent_off_bp :: "int option"
  pc_amount_idr :: "int option"
  pc_min_amount_idr :: int
  pc_max_discount_idr :: "int option"
  pc_applies_to_sku :: "sku option"
  pc_applies_to_product :: "product option"
  pc_starts_at :: "pydatetime option"
  pc_ends_at :: "pydatetime option"
  pc_max_redemptions :: "int option"
  pc_max_per_org :: int

text \<open>The fields of an update that are in \<open>model_fields_set\<close>: an outer \<open>None\<close> is absent.\<close>

record promo_update_body =
  pu_code :: "string option option"
  pu_description :: "string option option"
  pu_kind :: "promo_kind option option"
  pu_percent_off_bp :: "int option option"
  pu_amount_idr :: "int option option"
  pu_min_amount_idr :: "int option option"
  pu_max_discount_idr :: "int option option"
  pu_applies_to_sku :: "sku option option"
  pu_applies_to_product :: "product option option"
  pu_starts_at :: "pydatetime option option"
  pu_ends_at :: "pydatetime option option"
  pu_max_redemptions :: "int option option"
  pu_max_per_org :: "int option option"

text \<open>The dictionary \<open>_redemption_values\<close>. An update may put a null in any of its fields; the two
  fields whose columns are not nullable are options too, and the commit refuses them.\<close>

record promo_terms =
  pt_code :: string
  pt_description :: string
  pt_kind :: promo_kind
  pt_percent_off_bp :: "int option"
  pt_amount_idr :: "int option"
  pt_min_amount_idr :: "int option"
  pt_max_discount_idr :: "int option"
  pt_applies_to_sku :: "sku option"
  pt_applies_to_product :: "product option"
  pt_starts_at :: "datetime option"
  pt_ends_at :: "datetime option"
  pt_max_redemptions :: "int option"
  pt_max_per_org :: "int option"

definition promo_invalid :: error where
  "promo_invalid = HTTPError 400 ''Promo code is not valid for this purchase''"

definition promo_conflict :: "string \<Rightarrow> error" where "promo_conflict detail = HTTPError 409 detail"

definition promo_not_found :: error where "promo_not_found = HTTPError 404 ''Promo code not found''"

definition normalize_code :: "string \<Rightarrow> string result" where
  "normalize_code code = (let value = upper (strip code) in
     if promo_code_pattern value then Inr value else Inl promo_invalid)"

definition check_window :: "datetime option \<Rightarrow> datetime option \<Rightarrow> unit result" where
  "check_window starts_at ends_at = raise_if
     (starts_at \<noteq> None \<and> ends_at \<noteq> None \<and> the ends_at \<le> the starts_at)
     (HTTPError 400 ''ends_at must be after starts_at'')"

definition check_kind :: "promo_kind \<Rightarrow> int option \<Rightarrow> int option \<Rightarrow> unit result" where
  "check_kind kind percent_off_bp amount_idr = (case kind of
     Percent \<Rightarrow> raise_if (percent_off_bp = None \<or> amount_idr \<noteq> None)
       (HTTPError 400 ''percent promos require percent_off_bp and no amount_idr'')
   | Fixed \<Rightarrow> raise_if (amount_idr = None \<or> percent_off_bp \<noteq> None)
       (HTTPError 400 ''fixed promos require amount_idr and no percent_off_bp''))"

definition APPROVAL_PERCENT_BP :: int where "APPROVAL_PERCENT_BP = 5000"
definition APPROVAL_AMOUNT_IDR :: int where "APPROVAL_AMOUNT_IDR = 5000000"

definition requires_approval :: "promo_kind \<Rightarrow> int option \<Rightarrow> int option \<Rightarrow> int option \<Rightarrow> bool" where
  "requires_approval kind percent_off_bp amount_idr max_discount_idr =
     (if kind = Percent \<and> or_else percent_off_bp 0 > APPROVAL_PERCENT_BP then True
      else if kind = Fixed \<and> or_else amount_idr 0 > APPROVAL_AMOUNT_IDR then True
      else (case max_discount_idr of None \<Rightarrow> False | Some m \<Rightarrow> m > APPROVAL_AMOUNT_IDR))"

definition approval_required :: error where
  "approval_required = ApiError 409 ''PROMO_APPROVAL_REQUIRED''
     ''Promo code requires a second admin approval before it can be enabled''"

definition self_approval :: error where
  "self_approval = ApiError 409 ''PROMO_SELF_APPROVAL''
     ''A promo code must be approved by a different platform admin''"

definition approval_not_required :: error where
  "approval_not_required = ApiError 400 ''PROMO_APPROVAL_NOT_REQUIRED''
     ''This promo code does not require approval''"

definition already_approved :: error where
  "already_approved = ApiError 409 ''PROMO_ALREADY_APPROVED''
     ''This promo code has already been approved''"

definition in_window :: "datetime \<Rightarrow> promo_code \<Rightarrow> bool" where
  "in_window now p \<longleftrightarrow> opt_all (\<lambda>s. s \<le> now) (promo_starts_at p) \<and> opt_all (\<lambda>e. now \<le> e) (promo_ends_at p)"

definition redemption_values :: "promo_code \<Rightarrow> promo_terms" where
  "redemption_values p = \<lparr>pt_code = promo_code p, pt_description = promo_description p,
     pt_kind = promo_kind p, pt_percent_off_bp = promo_percent_off_bp p,
     pt_amount_idr = promo_amount_idr p, pt_min_amount_idr = Some (promo_min_amount_idr p),
     pt_max_discount_idr = promo_max_discount_idr p, pt_applies_to_sku = promo_applies_to_sku p,
     pt_applies_to_product = promo_applies_to_product p, pt_starts_at = promo_starts_at p,
     pt_ends_at = promo_ends_at p, pt_max_redemptions = promo_max_redemptions p,
     pt_max_per_org = Some (promo_max_per_org p)\<rparr>"

fun kind_name :: "promo_kind \<Rightarrow> string" where
  "kind_name Percent = ''percent''" | "kind_name Fixed = ''fixed''"

definition terms_json :: "promo_terms \<Rightarrow> (string \<times> jval) list" where
  "terms_json v = [(''code'', JStr (pt_code v)), (''description'', JStr (pt_description v)),
     (''kind'', JStr (kind_name (pt_kind v))), (''percent_off_bp'', jopt JInt (pt_percent_off_bp v)),
     (''amount_idr'', jopt JInt (pt_amount_idr v)),
     (''min_amount_idr'', jopt JInt (pt_min_amount_idr v)),
     (''max_discount_idr'', jopt JInt (pt_max_discount_idr v)),
     (''applies_to_sku'', jopt JStr (pt_applies_to_sku v)),
     (''applies_to_product'', jopt (\<lambda>p. JStr (product_name p)) (pt_applies_to_product v)),
     (''starts_at'', jopt JTime (pt_starts_at v)), (''ends_at'', jopt JTime (pt_ends_at v)),
     (''max_redemptions'', jopt JInt (pt_max_redemptions v)),
     (''max_redemptions_per_org'', jopt JInt (pt_max_per_org v))]"

definition terms_changes :: "promo_terms \<Rightarrow> promo_terms \<Rightarrow> changes" where
  "terms_changes before after =
     map (\<lambda>((f, a), (_, b)). (f, a, b))
       (filter (\<lambda>((_, a), (_, b)). a \<noteq> b) (zip (terms_json before) (terms_json after)))"

subsection \<open>Reads\<close>

definition promo_get :: "db \<Rightarrow> uuid \<Rightarrow> promo_code result" where
  "promo_get d pid = get_or promo_not_found (row_get promo_id pid (promos d))"

definition applied_count :: "db \<Rightarrow> uuid \<Rightarrow> uuid option \<Rightarrow> nat" where
  "applied_count d pid organization = count_where (\<lambda>r. red_promo r = pid \<and> red_status r = Applied
     \<and> (organization = None \<or> organization = Some (red_org r))) (redemptions d)"

definition redemption_count :: "db \<Rightarrow> uuid \<Rightarrow> nat" where
  "redemption_count d pid = applied_count d pid None"

definition redemption_counts :: "db \<Rightarrow> uuid list \<Rightarrow> uuid \<Rightarrow> nat option" where
  "redemption_counts d pids = (let ids = remdups pids;
       rows = filter (\<lambda>r. red_promo r \<in> set ids \<and> red_status r = Applied) (redemptions d);
       groups = map (\<lambda>pid. (pid, count_where (\<lambda>r. red_promo r = pid) rows))
         (remdups (map red_promo rows))
     in if ids = [] then Map.empty
        else map_of (rev (map (\<lambda>pid. (pid, 0)) ids @ groups)))"

text \<open>\<open>ILIKE\<close> on ASCII text: \<open>%\<close> matches any text, \<open>_\<close> one character, a backslash escapes.\<close>

fun ilike :: "string \<Rightarrow> string \<Rightarrow> bool" where
  "ilike [] s = (s = [])"
| "ilike (p # ps) [] = (p = CHR ''%'' \<and> ilike ps [])"
| "ilike (p # ps) (c # s) =
     (if p = CHR ''%'' then ilike ps (c # s) \<or> ilike (p # ps) s
      else if p = CHR ''_'' then ilike ps s
      else if p = CHR 0x5C then
        (case ps of [] \<Rightarrow> False | q # qs \<Rightarrow> upper_char q = upper_char c \<and> ilike qs s)
      else upper_char p = upper_char c \<and> ilike ps s)"

datatype promo_filter = FActive | FInactive | FExpired | FScheduled

definition promo_list_filter ::
    "promo_filter option \<Rightarrow> string option \<Rightarrow> datetime \<Rightarrow> promo_code \<Rightarrow> bool" where
  "promo_list_filter status_filter q now p \<longleftrightarrow>
     (case status_filter of
        None \<Rightarrow> True
      | Some FActive \<Rightarrow> promo_active p
      | Some FInactive \<Rightarrow> \<not> promo_active p
      | Some FExpired \<Rightarrow> (case promo_ends_at p of None \<Rightarrow> False | Some e \<Rightarrow> e < now)
      | Some FScheduled \<Rightarrow> (case promo_starts_at p of None \<Rightarrow> False | Some s \<Rightarrow> now < s))
     \<and> (case q of None \<Rightarrow> True
        | Some q \<Rightarrow> q = [] \<or> (let pat = ''%'' @ strip q @ ''%'' in
            ilike pat (promo_code p) \<or> ilike pat (promo_description p)))"

definition promo_list ::
    "nat \<Rightarrow> nat \<Rightarrow> promo_filter option \<Rightarrow> string option \<Rightarrow> datetime \<Rightarrow> db
     \<Rightarrow> (promo_code \<times> nat) list \<times> nat" where
  "promo_list page page_size status_filter q now d =
     (let rows = filter (promo_list_filter status_filter q now)
            (desc_by promo_created_at (desc_by (\<lambda>p. int (promo_id p)) (promos d)));
          page_rows = page_of page page_size rows;
          counts = redemption_counts d (map promo_id page_rows) in
      (map (\<lambda>p. (p, the (counts (promo_id p)))) page_rows, length rows))"

definition promo_history_page ::
    "uuid \<Rightarrow> nat \<Rightarrow> nat \<Rightarrow> db \<Rightarrow> (promo_history \<times> string option) list \<times> nat" where
  "promo_history_page pid page page_size d =
     (let rows = desc_by ph_at (filter (\<lambda>h. ph_promo h = pid) (promo_log d)) in
      (map (\<lambda>h. (h, case ph_actor h of None \<Rightarrow> None
          | Some u \<Rightarrow> map_option user_email (row_get user_id u (users d))))
        (page_of page page_size rows), length rows))"

definition promo_redemptions ::
    "uuid \<Rightarrow> nat \<Rightarrow> nat \<Rightarrow> db \<Rightarrow> (redemption \<times> string option \<times> string option) list \<times> nat" where
  "promo_redemptions pid page page_size d =
     (let rows = desc_by red_created_at
            (desc_by (\<lambda>r. int (red_id r)) (filter (\<lambda>r. red_promo r = pid) (redemptions d))) in
      (map (\<lambda>r. (r, map_option org_name (get_org d (red_org r)),
                 map_option inv_number (get_invoice d (red_invoice r))))
        (page_of page page_size rows), length rows))"

definition get_by_code :: "db \<Rightarrow> string \<Rightarrow> promo_code option result" where
  "get_by_code d code = ebind (normalize_code code) (\<lambda>c.
     Inr (first_row (filter (\<lambda>p. promo_code p = c) (promos d))))"

subsection \<open>Quotes\<close>

record purchase =
  pur_product :: product
  pur_sku :: sku
  pur_cycle :: cycle
  pur_base_idr :: int
  pur_org :: uuid

record promo_quote =
  quote_promo :: promo_code
  quote_discount :: int
  quote_org :: uuid

definition check_eligible :: "db \<Rightarrow> promo_code \<Rightarrow> purchase \<Rightarrow> datetime \<Rightarrow> int result" where
  "check_eligible d p pur now =
     (if pur_cycle pur = Annual then Inl promo_invalid
      else if \<not> promo_active p then Inl promo_invalid
      else if (case promo_starts_at p of None \<Rightarrow> False | Some s \<Rightarrow> now < s) then Inl promo_invalid
      else if (case promo_ends_at p of None \<Rightarrow> False | Some e \<Rightarrow> e < now) then Inl promo_invalid
      else if promo_applies_to_product p \<noteq> None \<and> promo_applies_to_product p \<noteq> Some (pur_product pur)
        then Inl promo_invalid
      else if promo_applies_to_sku p \<noteq> None \<and> promo_applies_to_sku p \<noteq> Some (pur_sku pur)
        then Inl promo_invalid
      else if pur_base_idr pur < promo_min_amount_idr p then Inl promo_invalid
      else if (case promo_max_redemptions p of None \<Rightarrow> False
               | Some m \<Rightarrow> m \<le> int (applied_count d (promo_id p) None)) then Inl promo_invalid
      else if promo_max_per_org p \<le> int (applied_count d (promo_id p) (Some (pur_org pur)))
        then Inl promo_invalid
      else discount_for (pur_base_idr pur) (promo_kind p) (promo_percent_off_bp p)
        (promo_amount_idr p) (promo_max_discount_idr p))"

definition promo_validate :: "db \<Rightarrow> string \<Rightarrow> purchase \<Rightarrow> datetime \<Rightarrow> promo_quote result" where
  "promo_validate d code pur now =
     ebind (get_by_code d code) (\<lambda>found.
     ebind (get_or promo_invalid found) (\<lambda>p.
     ebind (check_eligible d p pur now) (\<lambda>discount.
     Inr \<lparr>quote_promo = p, quote_discount = discount, quote_org = pur_org pur\<rparr>)))"

text \<open>The quote under the row lock: the same rules on the state the lock protects.\<close>

definition lock_and_quote :: "db \<Rightarrow> string \<Rightarrow> purchase \<Rightarrow> datetime \<Rightarrow> promo_quote result" where
  "lock_and_quote d code pur now =
     ebind (get_by_code d code) (\<lambda>found.
     ebind (get_or promo_invalid found) (\<lambda>p.
     ebind (check_eligible d p pur now) (\<lambda>discount.
     Inr \<lparr>quote_promo = p, quote_discount = discount, quote_org = pur_org pur\<rparr>)))"

definition has_active_codes :: "db \<Rightarrow> uuid \<Rightarrow> datetime \<Rightarrow> bool" where
  "has_active_codes d organization now =
     list_ex (\<lambda>p. promo_active p \<and> in_window now p
       \<and> opt_all (\<lambda>m. int (applied_count d (promo_id p) None) < m) (promo_max_redemptions p))
       (promos d)"

subsection \<open>Admin handlers\<close>

definition log_promo :: "uuid \<Rightarrow> string \<Rightarrow> uuid \<Rightarrow> changes \<Rightarrow> datetime \<Rightarrow> db \<Rightarrow> db" where
  "log_promo pid action actor ch now d =
     d\<lparr>promo_log := promo_log d @ [\<lparr>ph_promo = pid, ph_action = action, ph_actor = Some actor,
        ph_changes = ch, ph_at = now\<rparr>]\<rparr>"

definition has_redemptions :: "db \<Rightarrow> uuid \<Rightarrow> bool" where
  "has_redemptions d pid = list_ex (\<lambda>r. red_promo r = pid) (redemptions d)"

definition promo_of_body :: "uuid \<Rightarrow> promo_create_body \<Rightarrow> uuid \<Rightarrow> datetime \<Rightarrow> promo_code" where
  "promo_of_body pid b actor now =
     (let ra = requires_approval (pc_kind b) (pc_percent_off_bp b) (pc_amount_idr b)
           (pc_max_discount_idr b) in
      \<lparr>promo_id = pid, promo_code = pc_code b, promo_description = strip (pc_description b),
       promo_kind = pc_kind b, promo_percent_off_bp = pc_percent_off_bp b,
       promo_amount_idr = pc_amount_idr b, promo_min_amount_idr = pc_min_amount_idr b,
       promo_max_discount_idr = pc_max_discount_idr b, promo_applies_to_sku = pc_applies_to_sku b,
       promo_applies_to_product = pc_applies_to_product b,
       promo_starts_at = map_option as_utc (pc_starts_at b),
       promo_ends_at = map_option as_utc (pc_ends_at b),
       promo_max_redemptions = pc_max_redemptions b, promo_max_per_org = pc_max_per_org b,
       promo_active = (\<not> ra), promo_requires_approval = ra, promo_approved_by = None,
       promo_approved_at = None, promo_created_by = Some actor, promo_updated_by = Some actor,
       promo_created_at = now, promo_updated_at = now\<rparr>)"

definition promo_create ::
    "uuid \<Rightarrow> promo_create_body \<Rightarrow> uuid \<Rightarrow> datetime \<Rightarrow> db \<Rightarrow> (promo_code \<times> db) result" where
  "promo_create pid b actor now d =
     ebind (check_kind (pc_kind b) (pc_percent_off_bp b) (pc_amount_idr b)) (\<lambda>_.
     ebind (check_window (map_option as_utc (pc_starts_at b)) (map_option as_utc (pc_ends_at b))) (\<lambda>_.
     ebind (get_by_code d (pc_code b)) (\<lambda>found.
     ebind (raise_if (found \<noteq> None)
       (promo_conflict (''Promo code '' @ quoted (pc_code b) @ '' already exists''))) (\<lambda>_.
     let p = promo_of_body pid b actor now in
     ebind (insert_promo p d) (\<lambda>d1.
     Inr (p, log_promo pid ''created'' actor
       (map (\<lambda>(f, v). (f, JNull, v)) (terms_json (redemption_values p))
        @ (if promo_requires_approval p
           then [(''requires_approval'', JNull, JBool True),
                 (''approved_by_user_id'', JNull, JNull), (''approved_at'', JNull, JNull)]
           else [])) now d1))))))"

definition merged_terms :: "promo_update_body \<Rightarrow> promo_terms \<Rightarrow> promo_terms result" where
  "merged_terms b v =
     (if pu_kind b = Some None then Inl (HTTPError 400 ''kind cannot be null'')
      else Inr (v\<lparr>pt_description :=
            (case pu_description b of Some (Some s) \<Rightarrow> strip s | _ \<Rightarrow> pt_description v),
          pt_kind := (case pu_kind b of Some (Some k) \<Rightarrow> k | _ \<Rightarrow> pt_kind v),
          pt_percent_off_bp := or_else (pu_percent_off_bp b) (pt_percent_off_bp v),
          pt_amount_idr := or_else (pu_amount_idr b) (pt_amount_idr v),
          pt_min_amount_idr := or_else (pu_min_amount_idr b) (pt_min_amount_idr v),
          pt_max_discount_idr := or_else (pu_max_discount_idr b) (pt_max_discount_idr v),
          pt_applies_to_sku := or_else (pu_applies_to_sku b) (pt_applies_to_sku v),
          pt_applies_to_product := or_else (pu_applies_to_product b) (pt_applies_to_product v),
          pt_starts_at := or_else (map_option (map_option as_utc) (pu_starts_at b)) (pt_starts_at v),
          pt_ends_at := or_else (map_option (map_option as_utc) (pu_ends_at b)) (pt_ends_at v),
          pt_max_redemptions := or_else (pu_max_redemptions b) (pt_max_redemptions v),
          pt_max_per_org := or_else (pu_max_per_org b) (pt_max_per_org v)\<rparr>))"

definition immutable_error :: "string \<Rightarrow> error" where
  "immutable_error field = promo_conflict (field @ '' is immutable after the first redemption'')"

definition check_immutable :: "promo_terms \<Rightarrow> promo_terms \<Rightarrow> unit result" where
  "check_immutable v w =
     (if pt_kind w \<noteq> pt_kind v then Inl (immutable_error ''kind'')
      else if pt_percent_off_bp w \<noteq> pt_percent_off_bp v then Inl (immutable_error ''percent_off_bp'')
      else if pt_amount_idr w \<noteq> pt_amount_idr v then Inl (immutable_error ''amount_idr'')
      else if pt_max_discount_idr w \<noteq> pt_max_discount_idr v
        then Inl (immutable_error ''max_discount_idr'')
      else if pt_min_amount_idr w \<noteq> pt_min_amount_idr v
        then Inl (immutable_error ''min_amount_idr'')
      else if pt_applies_to_sku w \<noteq> pt_applies_to_sku v
        then Inl (immutable_error ''applies_to_sku'')
      else if pt_applies_to_product w \<noteq> pt_applies_to_product v
        then Inl (immutable_error ''applies_to_product'')
      else Inr ())"

definition approval_terms_changed :: "promo_terms \<Rightarrow> promo_terms \<Rightarrow> bool" where
  "approval_terms_changed v w \<longleftrightarrow> pt_kind w \<noteq> pt_kind v \<or> pt_percent_off_bp w \<noteq> pt_percent_off_bp v
     \<or> pt_amount_idr w \<noteq> pt_amount_idr v \<or> pt_max_discount_idr w \<noteq> pt_max_discount_idr v"

text \<open>\<open>setattr\<close> of every term, then the approval fields.\<close>

definition updated_promo ::
    "promo_code \<Rightarrow> promo_terms \<Rightarrow> bool \<Rightarrow> bool \<Rightarrow> uuid \<Rightarrow> datetime \<Rightarrow> promo_code" where
  "updated_promo p w ra reset actor now =
     p\<lparr>promo_code := pt_code w, promo_description := pt_description w, promo_kind := pt_kind w,
       promo_percent_off_bp := pt_percent_off_bp w, promo_amount_idr := pt_amount_idr w,
       promo_min_amount_idr := or_else (pt_min_amount_idr w) 0,
       promo_max_discount_idr := pt_max_discount_idr w,
       promo_applies_to_sku := pt_applies_to_sku w,
       promo_applies_to_product := pt_applies_to_product w, promo_starts_at := pt_starts_at w,
       promo_ends_at := pt_ends_at w, promo_max_redemptions := pt_max_redemptions w,
       promo_max_per_org := or_else (pt_max_per_org w) 0,
       promo_requires_approval := ra, promo_updated_by := Some actor, promo_updated_at := now,
       promo_active := (if reset then False else promo_active p),
       promo_approved_by := (if reset \<or> \<not> ra then None else promo_approved_by p),
       promo_approved_at := (if reset \<or> \<not> ra then None else promo_approved_at p)\<rparr>"

definition update_changes :: "promo_code \<Rightarrow> promo_terms \<Rightarrow> bool \<Rightarrow> bool \<Rightarrow> changes" where
  "update_changes p w ra reset =
     terms_changes (redemption_values p) w
     @ (if ra \<noteq> promo_requires_approval p
        then [(''requires_approval'', JBool (promo_requires_approval p), JBool ra)] else [])
     @ (if \<not> reset \<and> \<not> ra \<and> promo_approved_by p \<noteq> None
        then [(''approved_by_user_id'', jopt JId (promo_approved_by p), JNull)] else [])
     @ (if \<not> reset \<and> \<not> ra \<and> promo_approved_at p \<noteq> None
        then [(''approved_at'', jopt JTime (promo_approved_at p), JNull)] else [])"

definition reset_changes :: "promo_code \<Rightarrow> changes" where
  "reset_changes p =
     [(''requires_approval'', JBool (promo_requires_approval p), JBool True),
      (''approved_by_user_id'', jopt JId (promo_approved_by p), JNull),
      (''approved_at'', jopt JTime (promo_approved_at p), JNull),
      (''active'', JBool (promo_active p), JBool False)]"

definition log_update :: "promo_code \<Rightarrow> changes \<Rightarrow> bool \<Rightarrow> uuid \<Rightarrow> datetime \<Rightarrow> db \<Rightarrow> db" where
  "log_update p ch reset actor now d =
     (let d' = (if ch = [] then d else log_promo (promo_id p) ''updated'' actor ch now d) in
      if reset then log_promo (promo_id p) ''approval_reset'' actor (reset_changes p) now d' else d')"

text \<open>The constraints at the commit of the changed row.\<close>

definition promo_row_ok :: "db \<Rightarrow> promo_terms \<Rightarrow> promo_code \<Rightarrow> bool" where
  "promo_row_ok d w p \<longleftrightarrow> pt_min_amount_idr w \<noteq> None \<and> pt_max_per_org w \<noteq> None \<and> promo_ok p
     \<and> opt_all (\<lambda>c. c \<in> set (map tier_code (tiers d))) (promo_applies_to_sku p)"

definition promo_update ::
    "uuid \<Rightarrow> promo_update_body \<Rightarrow> uuid \<Rightarrow> datetime \<Rightarrow> db \<Rightarrow> (promo_code \<times> db) result" where
  "promo_update pid b actor now d =
     ebind (promo_get d pid) (\<lambda>p.
     ebind (raise_if (case pu_code b of Some (Some c) \<Rightarrow> c \<noteq> promo_code p | _ \<Rightarrow> False)
       (promo_conflict ''code is immutable; create a new promo code instead'')) (\<lambda>_.
     let before = redemption_values p in
     ebind (merged_terms b before) (\<lambda>w.
     ebind (if has_redemptions d pid then check_immutable before w else Inr ()) (\<lambda>_.
     ebind (check_kind (pt_kind w) (pt_percent_off_bp w) (pt_amount_idr w)) (\<lambda>_.
     ebind (check_window (pt_starts_at w) (pt_ends_at w)) (\<lambda>_.
     let ra = requires_approval (pt_kind w) (pt_percent_off_bp w) (pt_amount_idr w)
           (pt_max_discount_idr w);
         reset = (ra \<and> approval_terms_changed before w);
         p' = updated_promo p w ra reset actor now;
         ch = update_changes p w ra reset;
         d1 = d\<lparr>promos := row_upd promo_id pid (\<lambda>_. p') (promos d)\<rparr> in
     ebind (raise_if (\<not> promo_row_ok d w p')
       (promo_conflict ''Promo code update violates a unique constraint'')) (\<lambda>_.
     Inr (p', log_update p ch reset actor now d1))))))))"

definition save_promo :: "promo_code \<Rightarrow> string \<Rightarrow> uuid \<Rightarrow> changes \<Rightarrow> datetime \<Rightarrow> db \<Rightarrow> promo_code \<times> db" where
  "save_promo p action actor ch now d =
     (p, log_promo (promo_id p) action actor ch now
       (d\<lparr>promos := row_upd promo_id (promo_id p) (\<lambda>_. p) (promos d)\<rparr>))"

definition promo_deactivate :: "uuid \<Rightarrow> uuid \<Rightarrow> datetime \<Rightarrow> db \<Rightarrow> (promo_code \<times> db) result" where
  "promo_deactivate pid actor now d = ebind (promo_get d pid) (\<lambda>p.
     Inr (save_promo (p\<lparr>promo_active := False, promo_updated_by := Some actor, promo_updated_at := now\<rparr>)
       ''deactivated'' actor [(''active'', JBool (promo_active p), JBool False)] now d))"

definition promo_reactivate :: "uuid \<Rightarrow> uuid \<Rightarrow> datetime \<Rightarrow> db \<Rightarrow> (promo_code \<times> db) result" where
  "promo_reactivate pid actor now d = ebind (promo_get d pid) (\<lambda>p.
     ebind (raise_if (promo_requires_approval p \<and> promo_approved_at p = None) approval_required) (\<lambda>_.
     Inr (save_promo (p\<lparr>promo_active := True, promo_updated_by := Some actor, promo_updated_at := now\<rparr>)
       ''reactivated'' actor [(''active'', JBool (promo_active p), JBool True)] now d)))"

definition promo_approve :: "uuid \<Rightarrow> uuid \<Rightarrow> datetime \<Rightarrow> db \<Rightarrow> (promo_code \<times> db) result" where
  "promo_approve pid actor now d = ebind (promo_get d pid) (\<lambda>p.
     ebind (raise_if (promo_created_by p = Some actor) self_approval) (\<lambda>_.
     ebind (raise_if (\<not> promo_requires_approval p) approval_not_required) (\<lambda>_.
     ebind (raise_if (promo_approved_at p \<noteq> None) already_approved) (\<lambda>_.
     Inr (save_promo (p\<lparr>promo_approved_by := Some actor, promo_approved_at := Some now,
            promo_active := True, promo_updated_by := Some actor, promo_updated_at := now\<rparr>)
       ''approved'' actor [(''approved_by_user_id'', JNull, JId actor),
         (''approved_at'', JNull, JTime now)] now d)))))"

definition promo_delete :: "uuid \<Rightarrow> uuid \<Rightarrow> datetime \<Rightarrow> db \<Rightarrow> db result" where
  "promo_delete pid actor now d = ebind (promo_get d pid) (\<lambda>p.
     ebind (raise_if (has_redemptions d pid)
       (promo_conflict ''Promo code has redemptions and cannot be deleted; deactivate it instead'')) (\<lambda>_.
     let d1 = log_promo pid ''deleted'' actor
           (map (\<lambda>(f, v). (f, v, JNull)) (terms_json (redemption_values p))) now d in
     Inr (d1\<lparr>promos := row_del promo_id pid (promos d1)\<rparr>)))"

subsection \<open>The redemption ledger\<close>

definition record_redemption ::
    "uuid \<Rightarrow> promo_quote \<Rightarrow> uuid \<Rightarrow> uuid \<Rightarrow> uuid option \<Rightarrow> datetime \<Rightarrow> db \<Rightarrow> (redemption \<times> db) result" where
  "record_redemption rid q invoice_ref actor request now d =
     (let r = \<lparr>red_id = rid, red_promo = promo_id (quote_promo q), red_org = quote_org q,
          red_invoice = invoice_ref, red_request = request, red_code = promo_code (quote_promo q),
          red_discount_idr = quote_discount q, red_status = Applied, red_created_by = Some actor,
          red_created_at = now, red_released_at = None\<rparr> in
      ebind (insert_redemption r d) (\<lambda>d'. Inr (r, d')))"

definition release_for_invoice :: "uuid \<Rightarrow> datetime \<Rightarrow> db \<Rightarrow> db" where
  "release_for_invoice invoice_ref now d =
     (case first_row (filter (\<lambda>r. red_invoice r = invoice_ref \<and> red_status r = Applied) (redemptions d)) of
        None \<Rightarrow> d
      | Some r \<Rightarrow> d\<lparr>redemptions := row_upd red_id (red_id r)
            (\<lambda>r. r\<lparr>red_status := Released, red_released_at := Some now\<rparr>) (redemptions d)\<rparr>)"


subsection \<open>The approval contract\<close>

definition promo_good :: "promo_code \<Rightarrow> bool" where
  "promo_good p \<longleftrightarrow> promo_ok p
     \<and> promo_requires_approval p = requires_approval (promo_kind p) (promo_percent_off_bp p)
         (promo_amount_idr p) (promo_max_discount_idr p)
     \<and> (promo_requires_approval p \<and> promo_active p \<longrightarrow> promo_approved_at p \<noteq> None)
     \<and> (promo_approved_at p \<noteq> None) = (promo_approved_by p \<noteq> None)
     \<and> (promo_approved_by p \<noteq> None \<longrightarrow> promo_requires_approval p \<and> promo_approved_by p \<noteq> promo_created_by p)"

definition promos_inv :: "db \<Rightarrow> bool" where
  "promos_inv d \<longleftrightarrow> unique_by promo_id (promos d) \<and> unique_by promo_code (promos d)
     \<and> list_all promo_good (promos d)
     \<and> red_promo ` set (redemptions d) \<subseteq> promo_id ` set (promos d)"

inductive promo_step :: "db \<Rightarrow> db \<Rightarrow> bool" where
  create: "promo_create pid body actor now d = Inr (p, d') \<Longrightarrow> promo_step d d'"
| update: "promo_update pid ubody actor now d = Inr (p, d') \<Longrightarrow> promo_step d d'"
| deactivate: "promo_deactivate pid actor now d = Inr (p, d') \<Longrightarrow> promo_step d d'"
| reactivate: "promo_reactivate pid actor now d = Inr (p, d') \<Longrightarrow> promo_step d d'"
| approve: "promo_approve pid actor now d = Inr (p, d') \<Longrightarrow> promo_step d d'"
| delete: "promo_delete pid actor now d = Inr d' \<Longrightarrow> promo_step d d'"

lemma promo_get_Inr [errs]: "promo_get d pid = Inr p \<longleftrightarrow> row_get promo_id pid (promos d) = Some p"
  by (simp add: promo_get_def get_or_Inr)

text \<open>The terms a redemption freezes.\<close>

definition frozen_terms :: "promo_code \<Rightarrow> promo_kind \<times> int option \<times> int option \<times> int option \<times> int
    \<times> sku option \<times> product option" where
  "frozen_terms p = (promo_kind p, promo_percent_off_bp p, promo_amount_idr p,
     promo_max_discount_idr p, promo_min_amount_idr p, promo_applies_to_sku p,
     promo_applies_to_product p)"

lemma merged_terms_code: "merged_terms b v = Inr w \<Longrightarrow> pt_code w = pt_code v"
  by (auto simp: merged_terms_def split: if_splits)

lemma check_immutable_Inr: "check_immutable v w = Inr u \<Longrightarrow>
    pt_kind w = pt_kind v \<and> pt_percent_off_bp w = pt_percent_off_bp v \<and> pt_amount_idr w = pt_amount_idr v
    \<and> pt_max_discount_idr w = pt_max_discount_idr v \<and> pt_min_amount_idr w = pt_min_amount_idr v
    \<and> pt_applies_to_sku w = pt_applies_to_sku v \<and> pt_applies_to_product w = pt_applies_to_product v"
  by (simp add: check_immutable_def split: if_splits)

lemma log_promo_simps [simp]:
  "promos (log_promo pid a u c now d) = promos d"
  "redemptions (log_promo pid a u c now d) = redemptions d"
  "tiers (log_promo pid a u c now d) = tiers d"
  by (simp_all add: log_promo_def)

lemma log_update_simps [simp]:
  "promos (log_update p ch reset actor now d) = promos d"
  "redemptions (log_update p ch reset actor now d) = redemptions d"
  by (simp_all add: log_update_def Let_def)

lemma promo_update_Inr:
  assumes "promo_update pid b actor now d = Inr (p', d')"
  obtains p w ra where "row_get promo_id pid (promos d) = Some p"
    "ra = requires_approval (pt_kind w) (pt_percent_off_bp w) (pt_amount_idr w) (pt_max_discount_idr w)"
    "p' = updated_promo p w ra (ra \<and> approval_terms_changed (redemption_values p) w) actor now"
    "promo_row_ok d w p'" "pt_code w = promo_code p"
    "has_redemptions d pid \<Longrightarrow> frozen_terms p' = frozen_terms p"
    "promos d' = row_upd promo_id pid (\<lambda>_. p') (promos d)" "redemptions d' = redemptions d"
proof -
  obtain p w ra u where a: "row_get promo_id pid (promos d) = Some p"
    "merged_terms b (redemption_values p) = Inr w"
    "(if has_redemptions d pid then check_immutable (redemption_values p) w else Inr ()) = Inr u"
    "ra = requires_approval (pt_kind w) (pt_percent_off_bp w) (pt_amount_idr w) (pt_max_discount_idr w)"
    "promo_row_ok d w (updated_promo p w ra
       (ra \<and> approval_terms_changed (redemption_values p) w) actor now)"
    and p': "updated_promo p w ra (ra \<and> approval_terms_changed (redemption_values p) w) actor now = p'"
    and d': "promos d' = row_upd promo_id pid (\<lambda>_. p') (promos d)" "redemptions d' = redemptions d"
    using assms
    unfolding promo_update_def Let_def ebind_eq_Inr raise_if_Inr promo_get_Inr not_not
    by (elim exE conjE Inr_PairE) (rule that, assumption, assumption, assumption, rule refl,
      simp_all, auto)
  have f: "frozen_terms p' = frozen_terms p" if "has_redemptions d pid"
    using a(3) that
    by (auto dest!: check_immutable_Inr simp: frozen_terms_def updated_promo_def redemption_values_def
        simp flip: p')
  have "pt_code w = promo_code p"
    using merged_terms_code [OF a(2)] by (simp add: redemption_values_def)
  with that a p' d' f show ?thesis by simp
qed


lemma updated_promo_good:
  assumes "promo_good p" "promo_row_ok d w (updated_promo p w ra reset actor now)"
    and ra: "ra = requires_approval (pt_kind w) (pt_percent_off_bp w) (pt_amount_idr w) (pt_max_discount_idr w)"
    and reset: "reset = (ra \<and> approval_terms_changed (redemption_values p) w)"
  shows "promo_good (updated_promo p w ra reset actor now)"
proof -
  have "promo_requires_approval p = ra" if "\<not> approval_terms_changed (redemption_values p) w"
    using assms(1) that
    by (simp add: promo_good_def ra approval_terms_changed_def redemption_values_def)
  with assms show ?thesis
    by (auto simp: promo_good_def promo_row_ok_def updated_promo_def)
qed

lemma promos_inv_replace:
  assumes inv: "promos_inv d" and get: "row_get promo_id pid (promos d) = Some p"
    and p': "promo_good p'" "promo_id p' = promo_id p" "promo_code p' = promo_code p"
    and d': "promos d' = row_upd promo_id pid (\<lambda>_. p') (promos d)" "redemptions d' = redemptions d"
  shows "promos_inv d'"
proof -
  have pin: "p \<in> set (promos d)" "promo_id p = pid" using row_get_Some [OF get] by auto
  have eq: "r = p" if "r \<in> set (promos d)" "promo_id r = pid" for r
    using inv pin that by (auto simp: promos_inv_def dest: unique_byD)
  have m: "map g (promos d') = map g (promos d)" if "g p' = g p" for g :: "promo_code \<Rightarrow> 'a"
    using eq that by (auto simp: d' row_upd_def)
  have "promo_id ` set (promos d') = promo_id ` set (promos d)"
    using m [of promo_id] p' by (metis list.set_map)
  moreover have "list_all promo_good (promos d')"
    using inv p'(1) unfolding d' promos_inv_def by (intro list_all_row_upd) auto
  ultimately show ?thesis
    using inv m [of promo_id] m [of promo_code] p' d'(2) by (simp add: promos_inv_def unique_by_def)
qed

lemma save_promo_simps [simp]:
  "fst (save_promo p act actor ch now d) = p"
  "promos (snd (save_promo p act actor ch now d)) = row_upd promo_id (promo_id p) (\<lambda>_. p) (promos d)"
  "redemptions (snd (save_promo p act actor ch now d)) = redemptions d"
  by (simp_all add: save_promo_def)

text \<open>A change of the approval fields and nothing else.\<close>

definition same_terms :: "promo_code \<Rightarrow> promo_code \<Rightarrow> bool" where
  "same_terms p p' \<longleftrightarrow> promo_id p' = promo_id p \<and> redemption_values p' = redemption_values p
     \<and> promo_requires_approval p' = promo_requires_approval p \<and> promo_created_by p' = promo_created_by p"

lemma promo_flag_step:
  assumes "promo_deactivate pid actor now d = Inr r \<or> promo_reactivate pid actor now d = Inr r
    \<or> promo_approve pid actor now d = Inr r"
  obtains p p' act ch where "row_get promo_id pid (promos d) = Some p" "same_terms p p'"
    "promo_good p \<longrightarrow> promo_good p'" "r = save_promo p' act actor ch now d"
  using assms
proof (elim disjE)
  assume "promo_deactivate pid actor now d = Inr r"
  then obtain p where p: "row_get promo_id pid (promos d) = Some p"
    "save_promo (p\<lparr>promo_active := False, promo_updated_by := Some actor, promo_updated_at := now\<rparr>)
       ''deactivated'' actor [(''active'', JBool (promo_active p), JBool False)] now d = r"
    unfolding promo_deactivate_def ebind_eq_Inr promo_get_Inr by auto
  show ?thesis
    by (rule that [OF p(1) _ _ p(2) [symmetric]])
      (auto simp: same_terms_def redemption_values_def promo_good_def promo_ok_def)
next
  assume "promo_reactivate pid actor now d = Inr r"
  then obtain p where p: "row_get promo_id pid (promos d) = Some p"
    "\<not> (promo_requires_approval p \<and> promo_approved_at p = None)"
    "save_promo (p\<lparr>promo_active := True, promo_updated_by := Some actor, promo_updated_at := now\<rparr>)
       ''reactivated'' actor [(''active'', JBool (promo_active p), JBool True)] now d = r"
    unfolding promo_reactivate_def ebind_eq_Inr raise_if_Inr promo_get_Inr by auto
  show ?thesis
    by (rule that [OF p(1) _ _ p(3) [symmetric]], use p(2) in
      \<open>auto simp: same_terms_def redemption_values_def promo_good_def promo_ok_def\<close>)
next
  assume "promo_approve pid actor now d = Inr r"
  then obtain p where p: "row_get promo_id pid (promos d) = Some p"
    "promo_created_by p \<noteq> Some actor" "promo_requires_approval p"
    "save_promo (p\<lparr>promo_approved_by := Some actor, promo_approved_at := Some now,
            promo_active := True, promo_updated_by := Some actor, promo_updated_at := now\<rparr>)
       ''approved'' actor [(''approved_by_user_id'', JNull, JId actor),
         (''approved_at'', JNull, JTime now)] now d = r"
    unfolding promo_approve_def ebind_eq_Inr raise_if_Inr promo_get_Inr by auto
  show ?thesis
    by (rule that [OF p(1) _ _ p(4) [symmetric]], use p(2,3) in
      \<open>auto simp: same_terms_def redemption_values_def promo_good_def promo_ok_def\<close>)
qed

lemma same_terms_frozen: "same_terms p p' \<Longrightarrow> frozen_terms p' = frozen_terms p \<and> promo_code p' = promo_code p"
  by (simp add: same_terms_def redemption_values_def frozen_terms_def)

lemma promo_create_Inr:
  assumes "promo_create pid b actor now d = Inr (p, d')"
  obtains "p = promo_of_body pid b actor now" "promo_ok p" "pid \<notin> promo_id ` set (promos d)"
    "promo_code p \<notin> promo_code ` set (promos d)" "promos d' = promos d @ [p]"
    "redemptions d' = redemptions d"
  using assms
  unfolding promo_create_def Let_def ebind_eq_Inr raise_if_Inr insert_promo_Inr
  by (elim exE conjE Inr_PairE) (rule that, auto simp: promo_of_body_def Let_def)

lemma promo_of_body_good: "promo_ok (promo_of_body pid b actor now) \<Longrightarrow> promo_good (promo_of_body pid b actor now)"
  by (simp add: promo_good_def promo_of_body_def Let_def)

lemma promo_delete_Inr:
  assumes "promo_delete pid actor now d = Inr d'"
  obtains "\<not> has_redemptions d pid" "promos d' = row_del promo_id pid (promos d)"
    "redemptions d' = redemptions d"
  using assms by (auto simp: promo_delete_def ebind_eq_Inr raise_if_Inr Let_def)

text \<open>What one admin handler does: the contract is kept, and the row of a code with a redemption
  stays and keeps its frozen terms.\<close>

lemma promo_replace_frozen:
  assumes "promos_inv d" "row_get promo_id pid (promos d) = Some p"
    "promo_id p' = promo_id p" "promos d' = row_upd promo_id pid (\<lambda>_. p') (promos d)"
    "row_get promo_id k (promos d) = Some q"
  shows "row_get promo_id k (promos d') = Some (if k = pid then p' else q)"
proof -
  have pid: "promo_id p = pid" using row_get_Some [OF assms(2)] by simp
  have "row_get promo_id k (row_upd promo_id pid (\<lambda>_. p') rs) =
      (if k = pid then map_option (\<lambda>_. p') (row_get promo_id k rs) else row_get promo_id k rs)" for rs
    using pid assms(3) by (induction rs) (auto simp: row_get_def row_upd_def)
  with assms(4,5) show ?thesis by auto
qed

lemma promo_flag_keeps:
  assumes "promo_deactivate pid actor now d = Inr (x, d') \<or> promo_reactivate pid actor now d = Inr (x, d')
    \<or> promo_approve pid actor now d = Inr (x, d')"
    and inv: "promos_inv d"
  shows "promos_inv d' \<and> redemptions d' = redemptions d \<and>
    (\<forall>k q. has_redemptions d k \<longrightarrow> row_get promo_id k (promos d) = Some q \<longrightarrow>
       (\<exists>q'. row_get promo_id k (promos d') = Some q' \<and> frozen_terms q' = frozen_terms q
         \<and> promo_code q' = promo_code q))"
proof -
  obtain p p' act ch where a: "row_get promo_id pid (promos d) = Some p" "same_terms p p'"
    "promo_good p \<longrightarrow> promo_good p'" and r: "(x, d') = save_promo p' act actor ch now d"
    using promo_flag_step [OF assms(1)] by metis
  have pid: "promo_id p' = pid" "promo_id p' = promo_id p"
    using a(2) row_get_Some [OF a(1)] by (simp_all add: same_terms_def)
  have d': "promos d' = row_upd promo_id pid (\<lambda>_. p') (promos d)" "redemptions d' = redemptions d"
    using arg_cong [OF r, of snd] pid by simp_all
  have "promo_good p'" using a(3) row_get_Some [OF a(1)] inv by (simp add: promos_inv_def list_all_iff)
  then have "promos_inv d'"
    using promos_inv_replace [OF inv a(1)] pid(2) d' same_terms_frozen [OF a(2)] by blast
  then show ?thesis
    using promo_replace_frozen [OF inv a(1) pid(2) d'(1)] same_terms_frozen [OF a(2)] a(1) d'(2) by auto
qed

lemma promo_step_keeps:
  assumes "promo_step d d'" "promos_inv d"
  shows "promos_inv d' \<and> redemptions d' = redemptions d \<and>
    (\<forall>k q. has_redemptions d k \<longrightarrow> row_get promo_id k (promos d) = Some q \<longrightarrow>
       (\<exists>q'. row_get promo_id k (promos d') = Some q' \<and> frozen_terms q' = frozen_terms q
         \<and> promo_code q' = promo_code q))"
  using assms(1)
proof cases
  case (create pid body actor now p)
  from create show ?thesis
  proof (rule promo_create_Inr)
    assume a: "p = promo_of_body pid body actor now" "promo_ok p" "pid \<notin> promo_id ` set (promos d)"
      "promo_code p \<notin> promo_code ` set (promos d)" "promos d' = promos d @ [p]"
      "redemptions d' = redemptions d"
    have "promo_good p" "promo_id p = pid"
      using a(1,2) promo_of_body_good by (simp_all add: promo_of_body_def Let_def)
    with a assms(2) have "promos_inv d'"
      by (auto simp: promos_inv_def unique_by_append1)
    with a show ?thesis by (auto simp: row_get_append)
  qed
next
  case (update pid ubody actor now p')
  from update show ?thesis
  proof (rule promo_update_Inr)
    fix p w ra
    assume a: "row_get promo_id pid (promos d) = Some p"
      "ra = requires_approval (pt_kind w) (pt_percent_off_bp w) (pt_amount_idr w) (pt_max_discount_idr w)"
      "p' = updated_promo p w ra (ra \<and> approval_terms_changed (redemption_values p) w) actor now"
      "promo_row_ok d w p'" "pt_code w = promo_code p"
      and f: "has_redemptions d pid \<Longrightarrow> frozen_terms p' = frozen_terms p"
      and d': "promos d' = row_upd promo_id pid (\<lambda>_. p') (promos d)" "redemptions d' = redemptions d"
    have "promo_good p" using row_get_Some [OF a(1)] assms(2) by (simp add: promos_inv_def list_all_iff)
    then have "promo_good p'" using updated_promo_good a(2,3,4) by blast
    moreover have c: "promo_id p' = promo_id p" "promo_code p' = promo_code p"
      using a(3,5) by (simp_all add: updated_promo_def)
    ultimately have "promos_inv d'" using promos_inv_replace [OF assms(2) a(1)] d' by blast
    then show ?thesis
      using promo_replace_frozen [OF assms(2) a(1) c(1) d'(1)] f c(2) a(1) d'(2) by auto
  qed
next
  case (delete pid actor now)
  from delete show ?thesis
  proof (rule promo_delete_Inr)
    assume a: "\<not> has_redemptions d pid" "promos d' = row_del promo_id pid (promos d)"
      "redemptions d' = redemptions d"
    have "red_promo ` set (redemptions d) \<subseteq> promo_id ` set (promos d')"
      using assms(2) a(1) by (auto simp: promos_inv_def a(2) has_redemptions_def list_ex_iff)
    with assms(2) a have "promos_inv d'"
      by (auto simp: promos_inv_def unique_by_row_del list_all_iff)
    with a show ?thesis by (auto simp: row_get_del)
  qed
next
  case (deactivate pid actor now p)
  then show ?thesis using promo_flag_keeps [OF _ assms(2)] by blast
next
  case (reactivate pid actor now p)
  then show ?thesis using promo_flag_keeps [OF _ assms(2)] by blast
next
  case (approve pid actor now p)
  then show ?thesis using promo_flag_keeps [OF _ assms(2)] by blast
qed


subsection \<open>Quotas\<close>

text \<open>A counter under a cap that only steps which see room left may raise.\<close>

locale quota_ledger =
  fixes valid :: "'s \<Rightarrow> bool"
    and used :: "'s \<Rightarrow> nat"
    and cap :: "'s \<Rightarrow> int option"
    and step :: "'s \<Rightarrow> 's \<Rightarrow> bool"
  assumes step_valid: "valid s \<Longrightarrow> step s s' \<Longrightarrow> valid s'"
    and step_cap: "valid s \<Longrightarrow> step s s' \<Longrightarrow> cap s' = cap s"
    and step_used: "valid s \<Longrightarrow> step s s' \<Longrightarrow>
      used s' \<le> used s \<or> used s' = Suc (used s) \<and> opt_all (\<lambda>m. int (used s) < m) (cap s)"
begin

definition within :: "'s \<Rightarrow> bool" where
  "within s \<longleftrightarrow> opt_all (\<lambda>m. int (used s) \<le> m) (cap s)"

lemma step_within: "valid s \<Longrightarrow> step s s' \<Longrightarrow> within s \<Longrightarrow> within s'"
  using step_cap [of s s'] step_used [of s s'] by (cases "cap s") (auto simp: within_def)

lemma run_keeps:
  "step\<^sup>*\<^sup>* s s' \<Longrightarrow> valid s \<Longrightarrow> valid s' \<and> cap s' = cap s \<and> (within s \<longrightarrow> within s')"
  by (induction rule: rtranclp_induct) (auto intro: step_valid step_within simp: step_cap)

end

inductive ledger_step :: "db \<Rightarrow> db \<Rightarrow> bool" where
  redeem: "lock_and_quote d code pur now = Inr q \<Longrightarrow>
    record_redemption rid q invoice_ref actor request now d = Inr (r, d') \<Longrightarrow> ledger_step d d'"
| release: "ledger_step d (release_for_invoice invoice_ref now d)"

definition code_cap :: "uuid \<Rightarrow> db \<Rightarrow> int option" where
  "code_cap pid d = (case row_get promo_id pid (promos d) of None \<Rightarrow> None
     | Some p \<Rightarrow> promo_max_redemptions p)"

definition org_cap :: "uuid \<Rightarrow> db \<Rightarrow> int option" where
  "org_cap pid d = map_option promo_max_per_org (row_get promo_id pid (promos d))"

lemma get_by_code_Some: "get_by_code d code = Inr (Some p) \<Longrightarrow>
    p \<in> set (promos d) \<and> normalize_code code = Inr (promo_code p)"
  by (auto simp: get_by_code_def ebind_eq_Inr dest!: first_row_Some)

lemma lock_and_quote_Inr: "lock_and_quote d code pur now = Inr q \<longleftrightarrow>
    (\<exists>p n. get_by_code d code = Inr (Some p) \<and> check_eligible d p pur now = Inr n
       \<and> q = \<lparr>quote_promo = p, quote_discount = n, quote_org = pur_org pur\<rparr>)"
  by (auto simp: lock_and_quote_def ebind_eq_Inr get_or_Inr)

lemma check_eligible_Inr: "check_eligible d p pur now = Inr n \<longleftrightarrow>
    pur_cycle pur = Monthly \<and> promo_active p \<and> in_window now p
    \<and> opt_all (\<lambda>x. x = pur_product pur) (promo_applies_to_product p)
    \<and> opt_all (\<lambda>x. x = pur_sku pur) (promo_applies_to_sku p)
    \<and> promo_min_amount_idr p \<le> pur_base_idr pur
    \<and> opt_all (\<lambda>m. int (applied_count d (promo_id p) None) < m) (promo_max_redemptions p)
    \<and> int (applied_count d (promo_id p) (Some (pur_org pur))) < promo_max_per_org p
    \<and> discount_for (pur_base_idr pur) (promo_kind p) (promo_percent_off_bp p)
        (promo_amount_idr p) (promo_max_discount_idr p) = Inr n"
  unfolding check_eligible_def in_window_def opt_all_def
  by (cases "pur_cycle pur"; cases "promo_starts_at p"; cases "promo_ends_at p";
      cases "promo_applies_to_product p"; cases "promo_applies_to_sku p";
      cases "promo_max_redemptions p"; simp) 

lemma record_redemption_Inr:
  assumes "record_redemption rid q invoice_ref actor request now d = Inr (r, d')"
  shows "d' = d\<lparr>redemptions := redemptions d @ [r]\<rparr> \<and> red_promo r = promo_id (quote_promo q)
    \<and> red_org r = quote_org q \<and> red_invoice r = invoice_ref \<and> red_status r = Applied
    \<and> red_discount_idr r = quote_discount q \<and> red_code r = promo_code (quote_promo q)
    \<and> red_request r = request \<and> red_id r = rid
    \<and> redemption_ok r \<and> rid \<notin> red_id ` set (redemptions d) \<and> invoice_ref \<notin> red_invoice ` set (redemptions d)"
  using assms by (auto simp: record_redemption_def Let_def ebind_eq_Inr insert_redemption_Inr)

lemma applied_count_append: "applied_count (d\<lparr>redemptions := redemptions d @ [r]\<rparr>) pid x =
    applied_count d pid x + (if red_promo r = pid \<and> red_status r = Applied
      \<and> (x = None \<or> x = Some (red_org r)) then 1 else 0)"
  by (simp add: applied_count_def)

lemma count_row_upd_le: "(\<And>r. P (f r) \<Longrightarrow> P r) \<Longrightarrow> count_where P (row_upd key k f rows) \<le> count_where P rows"
  by (induction rows) (auto simp: row_upd_def)

lemma release_simps [simp]:
  "promos (release_for_invoice i now d) = promos d"
  "invoices (release_for_invoice i now d) = invoices d"
  by (auto simp: release_for_invoice_def split: option.split)

lemma applied_count_release: "applied_count (release_for_invoice i now d) pid x \<le> applied_count d pid x"
  by (auto simp: applied_count_def release_for_invoice_def split: option.split intro!: count_row_upd_le)

lemma ledger_step_cases:
  assumes "ledger_step d d'"
  shows "promos d' = promos d \<and>
    ((\<forall>pid x. applied_count d' pid x \<le> applied_count d pid x)
     \<or> (\<exists>p\<in>set (promos d). \<exists>u. opt_all (\<lambda>m. int (applied_count d (promo_id p) None) < m) (promo_max_redemptions p)
          \<and> int (applied_count d (promo_id p) (Some u)) < promo_max_per_org p
          \<and> (\<forall>pid x. applied_count d' pid x = applied_count d pid x
               + (if pid = promo_id p \<and> (x = None \<or> x = Some u) then 1 else 0))))"
  using assms
proof cases
  case (redeem code pur now q rid invoice_ref actor request r)
  obtain p n where p: "get_by_code d code = Inr (Some p)" "check_eligible d p pur now = Inr n"
    "q = \<lparr>quote_promo = p, quote_discount = n, quote_org = pur_org pur\<rparr>"
    using redeem(1) unfolding lock_and_quote_Inr by blast
  have r: "d' = d\<lparr>redemptions := redemptions d @ [r]\<rparr>" "red_promo r = promo_id p"
    "red_org r = pur_org pur" "red_status r = Applied"
    using record_redemption_Inr [OF redeem(2)] p(3) by simp_all
  have "\<forall>pid x. applied_count d' pid x = applied_count d pid x
      + (if pid = promo_id p \<and> (x = None \<or> x = Some (pur_org pur)) then 1 else 0)"
    unfolding r(1) applied_count_append using r(2-4) by auto
  moreover have "p \<in> set (promos d)" using get_by_code_Some [OF p(1)] by blast
  ultimately show ?thesis
    using p(2) r(1) unfolding check_eligible_Inr by (intro conjI disjI2) auto
next
  case (release invoice_ref now)
  then show ?thesis using applied_count_release by simp
qed

interpretation code_quota: quota_ledger "\<lambda>d. unique_by promo_id (promos d)"
  "\<lambda>d. applied_count d pid None" "code_cap pid" ledger_step for pid
proof unfold_locales
  fix d d'
  assume u: "unique_by promo_id (promos d)" and st: "ledger_step d d'"
  note c = ledger_step_cases [OF st]
  show "unique_by promo_id (promos d')" using u c by simp
  show "code_cap pid d' = code_cap pid d" using c by (simp add: code_cap_def)
  show "applied_count d' pid None \<le> applied_count d pid None
    \<or> applied_count d' pid None = Suc (applied_count d pid None)
      \<and> opt_all (\<lambda>m. int (applied_count d pid None) < m) (code_cap pid d)"
    using conjunct2 [OF c]
  proof (elim disjE bexE exE conjE)
    fix p
    assume p: "p \<in> set (promos d)"
      "opt_all (\<lambda>m. int (applied_count d (promo_id p) None) < m) (promo_max_redemptions p)"
    fix v
    assume a: "\<forall>pid x. applied_count d' pid x = applied_count d pid x
               + (if pid = promo_id p \<and> (x = None \<or> x = Some v) then 1 else 0)"
    have "code_cap (promo_id p) d = promo_max_redemptions p"
      using row_get_unique [OF u p(1)] by (simp add: code_cap_def)
    with p a show ?thesis by (cases "pid = promo_id p") auto
  qed blast
qed

interpretation org_quota: quota_ledger "\<lambda>d. unique_by promo_id (promos d)"
  "\<lambda>d. applied_count d pid (Some u)" "org_cap pid" ledger_step for pid u
proof unfold_locales
  fix d d'
  assume u: "unique_by promo_id (promos d)" and st: "ledger_step d d'"
  note c = ledger_step_cases [OF st]
  show "unique_by promo_id (promos d')" using u c by simp
  show "org_cap pid d' = org_cap pid d" using c by (simp add: org_cap_def)
  show "applied_count d' pid (Some u) \<le> applied_count d pid (Some u)
    \<or> applied_count d' pid (Some u) = Suc (applied_count d pid (Some u))
      \<and> opt_all (\<lambda>m. int (applied_count d pid (Some u)) < m) (org_cap pid d)" for u
    using conjunct2 [OF c]
  proof (elim disjE bexE exE conjE)
    fix p v
    assume p: "p \<in> set (promos d)" "int (applied_count d (promo_id p) (Some v)) < promo_max_per_org p"
      and a: "\<forall>pid x. applied_count d' pid x = applied_count d pid x
               + (if pid = promo_id p \<and> (x = None \<or> x = Some v) then 1 else 0)"
    have "org_cap (promo_id p) d = Some (promo_max_per_org p)"
      using row_get_unique [OF u p(1)] by (simp add: org_cap_def)
    with p a show ?thesis by (cases "pid = promo_id p \<and> u = v") auto
  qed blast
qed


subsection \<open>Properties\<close>

definition big_promo :: promo_create_body where
  "big_promo = \<lparr>pc_code = ''LAUNCH2026'', pc_description = ''Launch'', pc_kind = Percent,
     pc_percent_off_bp = Some 6000, pc_amount_idr = None, pc_min_amount_idr = 0,
     pc_max_discount_idr = None, pc_applies_to_sku = None, pc_applies_to_product = None,
     pc_starts_at = Some (Aware 100 40), pc_ends_at = None, pc_max_redemptions = Some 1,
     pc_max_per_org = 1\<rparr>"

definition no_promo_update :: promo_update_body where
  "no_promo_update = \<lparr>pu_code = None, pu_description = None, pu_kind = None,
     pu_percent_off_bp = None, pu_amount_idr = None, pu_min_amount_idr = None,
     pu_max_discount_idr = None, pu_applies_to_sku = None, pu_applies_to_product = None,
     pu_starts_at = None, pu_ends_at = None, pu_max_redemptions = None, pu_max_per_org = None\<rparr>"

definition db_of :: "('a \<times> db) result \<Rightarrow> db" where
  "db_of m = (case m of Inl _ \<Rightarrow> empty_db | Inr (_, d) \<Rightarrow> d)"

lemma db_of_Inr: "\<not> isl m \<Longrightarrow> \<exists>x. m = Inr (x, db_of m)"
  by (cases m) (auto simp: db_of_def)

definition promo_db0 :: db where "promo_db0 = db_of (promo_create 5 big_promo 1 10 empty_db)"
definition promo_db1 :: db where "promo_db1 = db_of (promo_approve 5 2 20 promo_db0)"

definition sample_purchase :: purchase where
  "sample_purchase = \<lparr>pur_product = Scan, pur_sku = ''PRO'', pur_cycle = Monthly,
     pur_base_idr = 299000, pur_org = 9\<rparr>"

lemma promo_db_steps: "promo_step\<^sup>*\<^sup>* empty_db promo_db1"
proof -
  have "\<not> isl (promo_create 5 big_promo 1 10 empty_db)" "\<not> isl (promo_approve 5 2 20 promo_db0)"
    by code_simp+
  then have "promo_step empty_db promo_db0" "promo_step promo_db0 promo_db1"
    unfolding promo_db0_def promo_db1_def by (blast dest: db_of_Inr intro: promo_step.intros)+
  then show ?thesis by (meson rtranclp.simps)
qed

lemma empty_promos_inv: "promos_inv empty_db"
  by (simp add: promos_inv_def empty_db_def)

lemma promo_run_keeps: "promo_step\<^sup>*\<^sup>* d d' \<Longrightarrow> promos_inv d \<Longrightarrow> promos_inv d'"
  by (induction rule: rtranclp_induct) (auto dest: promo_step_keeps)

text \<open>C2: whatever admin actions have been committed, a code whose discount is above the finance cap
  (more than 50 percent, or more than 5,000,000 IDR) is never active without the recorded approval
  of an admin who is not its creator.\<close>

theorem promo_four_eyes:
  assumes "promo_step\<^sup>*\<^sup>* d d'" "promos_inv d" "p \<in> set (promos d')" "promo_active p"
    "requires_approval (promo_kind p) (promo_percent_off_bp p) (promo_amount_idr p) (promo_max_discount_idr p)"
  shows "promo_requires_approval p \<and> promo_approved_at p \<noteq> None
    \<and> (\<exists>a. promo_approved_by p = Some a \<and> promo_created_by p \<noteq> Some a)"
proof -
  have "promo_good p" using promo_run_keeps [OF assms(1,2)] assms(3) by (simp add: promos_inv_def list_all_iff)
  with assms(4,5) show ?thesis by (auto simp: promo_good_def)
qed

theorem promo_four_eyes_witness:
  "\<exists>p\<in>set (promos promo_db1). promo_percent_off_bp p = Some 6000 \<and> promo_active p
     \<and> (\<exists>a. promo_approved_by p = Some a \<and> promo_created_by p \<noteq> Some a)"
proof -
  have "list_ex (\<lambda>p. promo_percent_off_bp p = Some 6000 \<and> promo_active p
      \<and> requires_approval (promo_kind p) (promo_percent_off_bp p) (promo_amount_idr p)
          (promo_max_discount_idr p)) (promos promo_db1)" by code_simp
  then show ?thesis
    using promo_four_eyes [OF promo_db_steps empty_promos_inv] unfolding list_ex_iff by blast
qed

text \<open>The approval is bound to the creator, not to the author of the terms: an admin who raises
  the discount of another admin's code may approve the change alone.\<close>

lemma promo_editor_approves_own_terms:
  "let small = db_of (promo_create 5 (big_promo\<lparr>pc_percent_off_bp := Some 100\<rparr>) 1 10 empty_db);
       raised = db_of (promo_update 5 (no_promo_update\<lparr>pu_percent_off_bp := Some (Some 10000)\<rparr>) 2 20 small);
       final = db_of (promo_approve 5 2 30 raised)
   in map (\<lambda>p. (promo_percent_off_bp p, promo_active p, promo_approved_by p)) (promos final)
        = [(Some 10000, True, Some 2)]
      \<and> map ph_actor (filter (\<lambda>h. ph_action h \<noteq> ''created'') (promo_log final)) = [Some 2, Some 2, Some 2]"
  by code_simp

text \<open>\<open>create\<close> flushes the new row before the \<open>try\<close> that translates constraint errors, so a code that
  names an unknown tier is an unhandled error.\<close>

lemma promo_create_unhandled_integrity_error:
  "promo_create 5 (big_promo\<lparr>pc_applies_to_sku := Some ''NOPE''\<rparr>) 1 10 empty_db = Inl IntegrityError"
  by code_simp

text \<open>once a code has a redemption (released or not) no sequence of admin actions deletes it or
  changes its kind, its amounts, its cap, its minimum or its scope.\<close>

theorem promo_terms_frozen:
  assumes "promo_step\<^sup>*\<^sup>* d d'" "promos_inv d" "has_redemptions d pid"
    "row_get promo_id pid (promos d) = Some p"
  shows "\<exists>p'. row_get promo_id pid (promos d') = Some p' \<and> frozen_terms p' = frozen_terms p
    \<and> promo_code p' = promo_code p"
proof -
  have "promos_inv d' \<and> redemptions d' = redemptions d
    \<and> (\<exists>p'. row_get promo_id pid (promos d') = Some p' \<and> frozen_terms p' = frozen_terms p
        \<and> promo_code p' = promo_code p)"
    using assms(1)
  proof (induction rule: rtranclp_induct)
    case base
    then show ?case using assms(2,4) by blast
  next
    case (step y z)
    then obtain q where q: "row_get promo_id pid (promos y) = Some q" "frozen_terms q = frozen_terms p"
      "promo_code q = promo_code p" and y: "promos_inv y" "redemptions y = redemptions d" by blast
    have "has_redemptions y pid" using assms(3) y(2) by (simp add: has_redemptions_def)
    with promo_step_keeps [OF step.hyps(2) y(1)] q y(2) show ?case by metis
  qed
  then show ?thesis by blast
qed

definition redeemed_db :: db where
  "redeemed_db = (case lock_and_quote promo_db1 ''launch2026 '' sample_purchase 70 of
     Inl _ \<Rightarrow> empty_db | Inr q \<Rightarrow> db_of (record_redemption 40 q 30 1 None 70 promo_db1))"

lemma redeemed_ledger: "ledger_step promo_db1 redeemed_db"
proof -
  have "\<not> isl (lock_and_quote promo_db1 ''launch2026 '' sample_purchase 70)" by code_simp
  then obtain q where q: "lock_and_quote promo_db1 ''launch2026 '' sample_purchase 70 = Inr q"
    by (cases "lock_and_quote promo_db1 ''launch2026 '' sample_purchase 70") auto
  have "case lock_and_quote promo_db1 ''launch2026 '' sample_purchase 70 of Inl _ \<Rightarrow> False
      | Inr q \<Rightarrow> \<not> isl (record_redemption 40 q 30 1 None 70 promo_db1)" by code_simp
  with q have "\<not> isl (record_redemption 40 q 30 1 None 70 promo_db1)" by simp
  then obtain r where "record_redemption 40 q 30 1 None 70 promo_db1 = Inr (r, redeemed_db)"
    unfolding redeemed_db_def q sum.case by (blast dest: db_of_Inr)
  with q show ?thesis by (rule ledger_step.redeem)
qed

text \<open>C8: redemptions and releases, in any order and number, never take the applied redemptions of a
  code above \<open>max_redemptions\<close>, nor those of one organization above \<open>max_redemptions_per_org\<close>.\<close>

theorem redemption_quota:
  assumes "ledger_step\<^sup>*\<^sup>* d d'" "unique_by promo_id (promos d)"
    "row_get promo_id pid (promos d) = Some p"
    "opt_all (\<lambda>m. int (applied_count d pid None) \<le> m) (promo_max_redemptions p)"
    "int (applied_count d pid (Some u)) \<le> promo_max_per_org p"
  shows "row_get promo_id pid (promos d') = Some p
    \<and> opt_all (\<lambda>m. int (applied_count d' pid None) \<le> m) (promo_max_redemptions p)
    \<and> int (applied_count d' pid (Some u)) \<le> promo_max_per_org p"
proof -
  have p: "promos d' = promos d"
    using assms(1) by (induction rule: rtranclp_induct) (auto dest: ledger_step_cases)
  have c: "code_cap pid d = promo_max_redemptions p" "org_cap pid d = Some (promo_max_per_org p)"
    using assms(3) by (simp_all add: code_cap_def org_cap_def)
  have "code_quota.within pid d'"
    using code_quota.run_keeps [OF assms(1,2), of pid] assms(4) c by (auto simp: code_quota.within_def)
  moreover have "org_quota.within pid u d'"
    using org_quota.run_keeps [OF assms(1,2), where pid = pid and u = u] assms(5) c by (auto simp: org_quota.within_def)
  ultimately show ?thesis
    using c p assms(3) by (simp add: code_quota.within_def org_quota.within_def code_cap_def org_cap_def)
qed

theorem redemption_quota_witness:
  "applied_count redeemed_db 5 None = 1 \<and> (\<exists>p. row_get promo_id 5 (promos redeemed_db) = Some p
     \<and> promo_max_redemptions p = Some 1 \<and> int (applied_count redeemed_db 5 (Some 9)) \<le> promo_max_per_org p)"
proof -
  have "map_option (\<lambda>p. (promo_max_redemptions p, promo_max_per_org p))
      (row_get promo_id 5 (promos promo_db1)) = Some (Some 1, 1)" by code_simp
  then obtain p where p: "row_get promo_id 5 (promos promo_db1) = Some p"
    "promo_max_redemptions p = Some 1" "promo_max_per_org p = 1" by auto
  have a: "applied_count promo_db1 5 None = 0" "applied_count promo_db1 5 (Some 9) = 0"
    "applied_count redeemed_db 5 None = 1" "unique_by promo_id (promos promo_db1)" by code_simp+
  show ?thesis
    using redemption_quota [OF r_into_rtranclp [of ledger_step, OF redeemed_ledger] a(4) p(1), where u = 9]
      a p by simp
qed

text \<open>on a well-formed catalog a quote either fails with the one generic error, whatever the
  reason, so that codes cannot be probed, or it prices a monthly purchase with an active, in-window
  and (above the cap) approved code that has quota left, and the discount is within the price.\<close>

theorem quote_sound:
  assumes "promos_inv d"
  shows "case lock_and_quote d code pur now of
      Inl e \<Rightarrow> e = promo_invalid
    | Inr q \<Rightarrow> quote_promo q \<in> set (promos d) \<and> promo_code (quote_promo q) = upper (strip code)
        \<and> pur_cycle pur = Monthly \<and> promo_active (quote_promo q) \<and> in_window now (quote_promo q)
        \<and> (promo_requires_approval (quote_promo q) \<longrightarrow> promo_approved_by (quote_promo q) \<noteq> None)
        \<and> opt_all (\<lambda>m. int (applied_count d (promo_id (quote_promo q)) None) < m)
            (promo_max_redemptions (quote_promo q))
        \<and> 0 \<le> quote_discount q \<and> quote_discount q \<le> max 0 (pur_base_idr pur)"
proof (cases "get_by_code d code")
  case (Inl e)
  then have "e = promo_invalid"
    by (auto simp: get_by_code_def normalize_code_def Let_def ebind_def split: if_splits)
  with Inl show ?thesis by (simp add: lock_and_quote_def)
next
  case (Inr found)
  show ?thesis
  proof (cases found)
    case None
    with Inr show ?thesis by (simp add: lock_and_quote_def)
  next
    case (Some p)
    have p: "p \<in> set (promos d)" "normalize_code code = Inr (promo_code p)"
      using get_by_code_Some Inr Some by blast+
    then have good: "promo_good p" using assms by (simp add: promos_inv_def list_all_iff)
    then have k: "promo_kind p = Percent \<and> promo_percent_off_bp p \<noteq> None \<and> promo_amount_idr p = None
        \<or> promo_kind p = Fixed \<and> promo_amount_idr p \<noteq> None \<and> promo_percent_off_bp p = None"
      unfolding promo_good_def promo_ok_def by blast
    then obtain n where n: "discount_for (pur_base_idr pur) (promo_kind p) (promo_percent_off_bp p)
        (promo_amount_idr p) (promo_max_discount_idr p) = Inr n"
      using discount_for_defined [OF k] by blast
    have code: "promo_code p = upper (strip code)"
      using p(2) by (simp add: normalize_code_def Let_def split: if_splits)
    show ?thesis
    proof (cases "check_eligible d p pur now")
      case (Inl e)
      then have "e = promo_invalid"
        using n by (auto simp: check_eligible_def split: if_splits)
      with Inl Inr Some show ?thesis by (simp add: lock_and_quote_def)
    next
      case (Inr k)
      with \<open>get_by_code d code = Inr found\<close> Some
      have q: "lock_and_quote d code pur now
          = Inr \<lparr>quote_promo = p, quote_discount = k, quote_org = pur_org pur\<rparr>"
        by (simp add: lock_and_quote_def)
      have e: "check_eligible d p pur now = Inr k" by (rule Inr)
      then have "0 \<le> k \<and> k \<le> max 0 (pur_base_idr pur)"
        unfolding check_eligible_Inr using discount_for_bounds by blast
      moreover have "promo_requires_approval p \<longrightarrow> promo_approved_by p \<noteq> None"
        using good e unfolding check_eligible_Inr promo_good_def by blast
      ultimately show ?thesis
        unfolding q sum.case promo_quote.simps using e p(1) code unfolding check_eligible_Inr by blast
    qed
  qed
qed

text \<open>voiding an invoice returns the quota its redemption used: exactly the applied redemption of
  that invoice becomes released, the code's count drops by one, every other invoice keeps its
  redemption, and releasing again changes nothing.\<close>

theorem release_returns_quota:
  fixes now later :: datetime
  assumes "unique_by red_id (redemptions d)" "unique_by red_invoice (redemptions d)"
    "r \<in> set (redemptions d)" "red_status r = Applied"
  defines "d' \<equiv> release_for_invoice (red_invoice r) now d"
  shows "row_get red_invoice (red_invoice r) (redemptions d')
      = Some (r\<lparr>red_status := Released, red_released_at := Some now\<rparr>)
    \<and> (\<forall>i. i \<noteq> red_invoice r \<longrightarrow> row_get red_invoice i (redemptions d') = row_get red_invoice i (redemptions d))
    \<and> Suc (applied_count d' (red_promo r) None) = applied_count d (red_promo r) None
    \<and> release_for_invoice (red_invoice r) later d' = d'"
proof -
  let ?f = "\<lambda>r. r\<lparr>red_status := Released, red_released_at := Some now\<rparr>"
  have "filter (\<lambda>x. red_invoice x = red_invoice r \<and> red_status x = Applied) (redemptions d) \<noteq> []"
    using assms(3,4) by (auto simp: filter_empty_conv)
  then obtain x xs where f: "filter (\<lambda>x. red_invoice x = red_invoice r \<and> red_status x = Applied) (redemptions d) = x # xs"
    by (meson list.exhaust)
  then have "x \<in> set (filter (\<lambda>x. red_invoice x = red_invoice r \<and> red_status x = Applied) (redemptions d))"
    by simp
  then have "x = r" using assms(2,3) by (auto dest: unique_byD)
  then have d': "redemptions d' = row_upd red_id (red_id r) ?f (redemptions d)"
    using f by (simp add: d'_def release_for_invoice_def)
  have same: "row_upd red_id (red_id r) ?f (redemptions d) = row_upd red_invoice (red_invoice r) ?f (redemptions d)"
    using assms(1-3) by (auto simp: row_upd_def dest: unique_byD)
  have get: "row_get red_invoice (red_invoice r) (redemptions d) = Some r"
    by (rule row_get_unique [OF assms(2,3)])
  have rel: "\<forall>y\<in>set (redemptions d'). red_invoice y = red_invoice r \<longrightarrow> red_status y = Released"
    unfolding d' same by (auto simp: row_upd_def)
  have "Suc (applied_count d' (red_promo r) None) = applied_count d (red_promo r) None"
    using count_row_replace [OF assms(2) get, of "\<lambda>x. red_promo x = red_promo r \<and> red_status x = Applied" ?f] assms(4)
    by (simp add: applied_count_def d' same)
  moreover have "filter (\<lambda>x. red_invoice x = red_invoice r \<and> red_status x = Applied) (redemptions d') = []"
    using rel by (auto simp: filter_empty_conv)
  then have "release_for_invoice (red_invoice r) later d' = d'" by (simp add: release_for_invoice_def)
  ultimately show ?thesis
    using get unfolding d' same by (simp add: row_get_upd)
qed

end
