(* ===== verification/Orgs.thy ===== *)
theory Orgs
  imports SkuTier Promo
begin

text \<open>
  Organizations, memberships and invites (\<open>services/organization.py\<close>). The random part of a slug and
  of an invite token, and the hash of a token, are arguments. \<open>accept_invite\<close> commits the expiry of an
  invite before it refuses it, so it returns the database next to its result; every other handler
  commits once, at its end.
\<close>

subsection \<open>Roles\<close>

fun role_of_rank :: "role \<Rightarrow> nat" where   \<comment> \<open>\<open>ROLE_RANK\<close>\<close>
  "role_of_rank Viewer = 1" | "role_of_rank Member = 2" | "role_of_rank Admin = 3" | "role_of_rank Owner = 4"

definition role_rank :: "role option \<Rightarrow> nat" where
  "role_rank r = (case r of None \<Rightarrow> 0 | Some x \<Rightarrow> role_of_rank x)"

definition role_at_least :: "role option \<Rightarrow> role \<Rightarrow> bool" where
  "role_at_least r minimum \<longleftrightarrow> role_rank (Some minimum) \<le> role_rank r"

definition WRITE_ROLES :: "role list" where "WRITE_ROLES = [Owner, Admin, Member]"
definition INVITE_ROLES :: "role list" where "INVITE_ROLES = [Admin, Member, Viewer]"
definition MAX_NON_PERSONAL_ORGS_CREATED :: nat where "MAX_NON_PERSONAL_ORGS_CREATED = 5"
definition INVITE_TTL_DAYS :: int where "INVITE_TTL_DAYS = 14"

subsection \<open>Slugs\<close>

definition slug_char :: "char \<Rightarrow> bool" where   \<comment> \<open>\<open>[a-z0-9]\<close>\<close>
  "slug_char c = (let n = of_char c :: nat in (97 \<le> n \<and> n \<le> 122) \<or> (48 \<le> n \<and> n \<le> 57))"

text \<open>\<open>re.sub("[^a-z0-9]+", "-", s)\<close>\<close>

function slug_sub :: "string \<Rightarrow> string" where
  "slug_sub [] = []"
| "slug_sub (c # s) = (if slug_char c then c # slug_sub s
     else CHR ''-'' # slug_sub (dropWhile (\<lambda>x. \<not> slug_char x) s))"
  by pat_completeness auto

termination
  by (relation "measure length") (auto simp: le_imp_less_Suc length_dropWhile_le)

definition strip_dashes :: "string \<Rightarrow> string" where
  "strip_dashes s = rev (dropWhile (\<lambda>c. c = CHR ''-'') (rev (dropWhile (\<lambda>c. c = CHR ''-'') s)))"

definition slugify_base :: "string \<Rightarrow> string" where
  "slugify_base v = (let cleaned = strip_dashes (slug_sub (lower (if v = [] then ''org'' else v))) in
     take 40 (if cleaned = [] then ''org'' else cleaned))"

definition make_unique_slug :: "string \<Rightarrow> string \<Rightarrow> string" where
  "make_unique_slug base tail = take 64 (slugify_base base @ ''-'' @ tail)"

subsection \<open>Rows\<close>

definition get_membership :: "db \<Rightarrow> uuid \<Rightarrow> uuid \<Rightarrow> membership option" where
  "get_membership d u v = row_get (\<lambda>m. (mem_org m, mem_user m)) (u, v) (memberships d)"

definition insert_org :: "organization \<Rightarrow> db \<Rightarrow> db result" where
  "insert_org r d = (if org_id r \<notin> org_id ` set (orgs d) \<and> org_slug r \<notin> org_slug ` set (orgs d)
     then Inr (d\<lparr>orgs := orgs d @ [r]\<rparr>) else Inl IntegrityError)"

definition insert_membership :: "membership \<Rightarrow> db \<Rightarrow> db result" where
  "insert_membership m d = (if mem_id m \<notin> mem_id ` set (memberships d)
       \<and> (mem_org m, mem_user m) \<notin> (\<lambda>m. (mem_org m, mem_user m)) ` set (memberships d)
     then Inr (d\<lparr>memberships := memberships d @ [m]\<rparr>) else Inl IntegrityError)"

definition save_user :: "user \<Rightarrow> db \<Rightarrow> db" where
  "save_user u d = d\<lparr>users := row_upd user_id (user_id u) (\<lambda>_. u) (users d)\<rparr>"

definition save_membership :: "membership \<Rightarrow> db \<Rightarrow> db" where
  "save_membership m d = d\<lparr>memberships := row_upd (\<lambda>m. (mem_org m, mem_user m)) (mem_org m, mem_user m)
     (\<lambda>_. m) (memberships d)\<rparr>"

definition save_invite :: "invite \<Rightarrow> db \<Rightarrow> db" where
  "save_invite i d = d\<lparr>invites := row_upd ivt_id (ivt_id i) (\<lambda>_. i) (invites d)\<rparr>"

definition delete_membership :: "membership \<Rightarrow> db \<Rightarrow> db" where
  "delete_membership m d = d\<lparr>memberships := row_del (\<lambda>m. (mem_org m, mem_user m)) (mem_org m, mem_user m)
     (memberships d)\<rparr>"

definition new_membership :: "uuid \<Rightarrow> uuid \<Rightarrow> uuid \<Rightarrow> role \<Rightarrow> datetime \<Rightarrow> membership" where
  "new_membership mid u v r now = \<lparr>mem_id = mid, mem_org = u, mem_user = v, mem_role = r,
     mem_created_at = now, mem_updated_at = now\<rparr>"

definition new_org :: "uuid \<Rightarrow> string \<Rightarrow> string \<Rightarrow> string \<Rightarrow> sku \<Rightarrow> uuid \<Rightarrow> datetime \<Rightarrow> organization" where
  "new_org oid name slug kind code creator now = \<lparr>org_id = oid, org_name = name, org_slug = slug,
     org_kind = kind, org_sku = code, org_tag_colors = [], org_created_by = Some creator,
     org_created_at = now, org_updated_at = now\<rparr>"

subsection \<open>Module functions\<close>

definition personal_org :: "db \<Rightarrow> uuid \<Rightarrow> bool \<Rightarrow> organization option" where
  "personal_org d v owned = first_row (concat (map (\<lambda>m. if mem_user m = v \<and> (owned \<longrightarrow> mem_role m = Owner)
       then (case row_get org_id (mem_org m) (orgs d) of None \<Rightarrow> []
             | Some r \<Rightarrow> if org_kind r = ''personal'' then [r] else []) else []) (memberships d)))"

definition ensure_personal_org ::
    "uuid \<Rightarrow> uuid \<Rightarrow> string \<Rightarrow> user \<Rightarrow> datetime \<Rightarrow> db \<Rightarrow> (organization \<times> db) result" where
  "ensure_personal_org oid mid tail u now d = (case personal_org d (user_id u) True of
     Some r \<Rightarrow> Inr (r, d)
   | None \<Rightarrow>
     (let local = takeWhile (\<lambda>c. c \<noteq> CHR ''@'') (if user_email u = [] then ''user'' else user_email u) in
      ebind (tier_default d) (\<lambda>t.
      let r = new_org oid (take 255 (local @ [CHR 0x27] @ ''s workspace'')) (make_unique_slug local tail)
            ''personal'' (tier_code t) (user_id u) now in
      ebind (insert_org r d) (\<lambda>d1.
      ebind (insert_membership (new_membership mid oid (user_id u) Owner now) d1) (\<lambda>d2.
      Inr (r, if user_last_active u = None then save_user (u\<lparr>user_last_active := Some oid\<rparr>) d2 else d2))))))"

definition resolve_default_org_id :: "db \<Rightarrow> user \<Rightarrow> uuid option" where
  "resolve_default_org_id d u =
     (case (case user_last_active u of None \<Rightarrow> None
            | Some o' \<Rightarrow> map_option (\<lambda>_. o') (get_membership d o' (user_id u))) of
        Some o' \<Rightarrow> Some o'
      | None \<Rightarrow> (case personal_org d (user_id u) False of
          Some r \<Rightarrow> Some (org_id r)
        | None \<Rightarrow> map_option mem_org (first_row (sort_key mem_created_at
            (filter (\<lambda>m. mem_user m = user_id u) (memberships d))))))"

definition require_membership :: "db \<Rightarrow> uuid \<Rightarrow> uuid \<Rightarrow> role \<Rightarrow> membership result" where
  "require_membership d o' v min_role =
     ebind (get_or (HTTPError 404 ''Organization not found'') (get_membership d o' v)) (\<lambda>m.
     ebind (raise_if (\<not> role_at_least (Some (mem_role m)) min_role)
       (HTTPError 403 ''Insufficient organization role'')) (\<lambda>_. Inr m))"

definition count_owners :: "db \<Rightarrow> uuid \<Rightarrow> nat" where
  "count_owners d o' = count_where (\<lambda>m. mem_org m = o' \<and> mem_role m = Owner) (memberships d)"

definition seat_count :: "db \<Rightarrow> uuid \<Rightarrow> uuid option \<Rightarrow> (role \<Rightarrow> bool) \<Rightarrow> nat" where
  "seat_count d o' exclude P = count_where (\<lambda>m. mem_org m = o' \<and> exclude \<noteq> Some (mem_user m) \<and> P (mem_role m))
     (memberships d)"

definition enforce_workspace_seat_cap :: "db \<Rightarrow> uuid \<Rightarrow> role \<Rightarrow> uuid option \<Rightarrow> unit result" where
  "enforce_workspace_seat_cap d o' r exclude =
     ebind (get_or (HTTPError 404 ''Organization not found'') (row_get org_id o' (orgs d))) (\<lambda>x.
     ebind (tier_get d (org_sku x)) (\<lambda>t.
     let el = tier_editor_limit t; vl = tier_viewer_limit t;
         detail = workspace_seat_cap_detail (tier_label t) el vl in
     if el = None \<and> vl = None then Inr ()
     else ebind (raise_if (r \<in> set WRITE_ROLES \<and> (case el of None \<Rightarrow> False
             | Some n \<Rightarrow> n \<le> int (seat_count d o' exclude (\<lambda>x. x \<in> set WRITE_ROLES)))) (HTTPError 403 detail)) (\<lambda>_.
          raise_if (r = Viewer \<and> (case vl of None \<Rightarrow> False
             | Some n \<Rightarrow> n \<le> int (seat_count d o' exclude (\<lambda>x. x = Viewer)))) (HTTPError 403 detail))))"

subsection \<open>Organization handlers\<close>

definition list_my_orgs :: "user \<Rightarrow> db \<Rightarrow> (organization \<times> sku_tier \<times> role) list result" where
  "list_my_orgs u d = efold (\<lambda>m acc. case row_get org_id (mem_org m) (orgs d) of
       None \<Rightarrow> Inr acc
     | Some r \<Rightarrow> ebind (tier_get d (org_sku r)) (\<lambda>t. Inr (acc @ [(r, t, mem_role m)])))
     (sort_key mem_created_at (filter (\<lambda>m. mem_user m = user_id u) (memberships d))) []"

fun free_slug :: "db \<Rightarrow> string \<Rightarrow> (nat \<Rightarrow> string) \<Rightarrow> nat \<Rightarrow> nat \<Rightarrow> string" where
  "free_slug d desired tails k 0 = make_unique_slug desired (tails k)"
| "free_slug d desired tails k (Suc left) =
     (if list_ex (\<lambda>r. org_slug r = make_unique_slug desired (tails k)) (orgs d)
      then free_slug d desired tails (Suc k) left else make_unique_slug desired (tails k))"

definition create_org ::
    "uuid \<Rightarrow> uuid \<Rightarrow> (nat \<Rightarrow> string) \<Rightarrow> user \<Rightarrow> string \<Rightarrow> string option \<Rightarrow> string \<Rightarrow> datetime \<Rightarrow> db
     \<Rightarrow> (organization \<times> db) result" where
  "create_org oid mid tails u name slug kind now d =
     ebind (raise_if (kind = ''personal'') (HTTPError 400 ''Cannot create additional personal organizations'')) (\<lambda>_.
     ebind (raise_if (kind \<notin> {''company'', ''hotel''})
       (HTTPError 400 (''kind must be '' @ quoted ''company'' @ '' or '' @ quoted ''hotel''))) (\<lambda>_.
     ebind (raise_if (MAX_NON_PERSONAL_ORGS_CREATED
         \<le> count_where (\<lambda>r. org_created_by r = Some (user_id u) \<and> org_kind r \<noteq> ''personal'') (orgs d))
       (HTTPError 400 (''Maximum '' @ show_nat MAX_NON_PERSONAL_ORGS_CREATED
          @ '' non-personal organizations per user''))) (\<lambda>_.
     let desired = slugify_base (if str_or_empty slug = [] then name else str_or_empty slug);
         candidate = free_slug d desired tails 0 8 in
     ebind (tier_default d) (\<lambda>t.
     let r = new_org oid (take 255 (strip name)) candidate kind (tier_code t) (user_id u) now in
     ebind (insert_org r d) (\<lambda>d1.
     ebind (insert_membership (new_membership mid oid (user_id u) Owner now) d1) (\<lambda>d2.
     Inr (r, d2)))))))"

definition org_found :: "db \<Rightarrow> uuid \<Rightarrow> organization result" where
  "org_found d o' = get_or (HTTPError 404 ''Organization not found'') (row_get org_id o' (orgs d))"

definition org_get :: "uuid \<Rightarrow> user \<Rightarrow> db \<Rightarrow> organization result" where
  "org_get o' u d = ebind (require_membership d o' (user_id u) Viewer) (\<lambda>_. org_found d o')"

text \<open>The \<open>sku\<close> part of an update: only an admin of the platform may change it.\<close>

definition update_org_sku ::
    "user \<Rightarrow> sku option \<Rightarrow> organization \<Rightarrow> datetime \<Rightarrow> db \<Rightarrow> (organization \<times> db) result" where
  "update_org_sku u code r now d = (case code of None \<Rightarrow> Inr (r, d) | Some c \<Rightarrow>
     ebind (if c \<noteq> org_sku r then ebind (tier_get_active d c) (\<lambda>_. Inr ()) else Inr ()) (\<lambda>_.
     ebind (raise_if (\<not> user_is_admin u) (HTTPError 403 ''sku is billed; ask ops to issue a Scan invoice'')) (\<lambda>_.
     let d1 = (if c \<noteq> org_sku r then
           record_tier_assignment (org_id r) c (Some (org_sku r)) (Some (user_id u)) (Some ''admin_update'') now
             (d\<lparr>subs := row_upd sub_org (org_id r) (\<lambda>s. s\<lparr>sub_sku := c, sub_updated_at := now\<rparr>) (subs d)\<rparr>)
         else d) in
     Inr (r\<lparr>org_sku := c\<rparr>, d1))))"

text \<open>The \<open>slug\<close> part.\<close>

definition update_org_slug :: "uuid \<Rightarrow> string option \<Rightarrow> organization \<Rightarrow> db \<Rightarrow> organization result" where
  "update_org_slug o' slug r d = (case slug of None \<Rightarrow> Inr r | Some s \<Rightarrow>
     let cleaned = slugify_base s in
     ebind (raise_if (cleaned = []) (HTTPError 400 ''Invalid slug'')) (\<lambda>_.
     ebind (raise_if (list_ex (\<lambda>x. org_slug x = cleaned \<and> org_id x \<noteq> o') (orgs d))
       (HTTPError 409 ''Slug already taken'')) (\<lambda>_.
     Inr (r\<lparr>org_slug := take 64 cleaned\<rparr>))))"

definition update_org_name :: "string option \<Rightarrow> organization \<Rightarrow> organization" where
  "update_org_name name r = (case name of None \<Rightarrow> r | Some n \<Rightarrow> r\<lparr>org_name := take 255 (strip n)\<rparr>)"

definition update_org ::
    "uuid \<Rightarrow> user \<Rightarrow> string option \<Rightarrow> string option \<Rightarrow> sku option \<Rightarrow> datetime \<Rightarrow> db \<Rightarrow> (organization \<times> db) result" where
  "update_org o' u name slug code now d =
     ebind (require_membership d o' (user_id u) Admin) (\<lambda>_.
     ebind (org_found d o') (\<lambda>r.
     ebind (update_org_slug o' slug (update_org_name name r) d) (\<lambda>r2.
     ebind (update_org_sku u code r2 now d) (\<lambda>(r3, d1).
     let r4 = r3\<lparr>org_updated_at := now\<rparr> in
     Inr (r4, d1\<lparr>orgs := row_upd org_id o' (\<lambda>_. r4) (orgs d1)\<rparr>)))))"

subsection \<open>Membership handlers\<close>

definition list_members :: "uuid \<Rightarrow> user \<Rightarrow> db \<Rightarrow> membership list result" where
  "list_members o' u d = ebind (require_membership d o' (user_id u) Viewer) (\<lambda>_.
     Inr (sort_key mem_created_at (filter (\<lambda>m. mem_org m = o') (memberships d))))"

definition change_role ::
    "uuid \<Rightarrow> user \<Rightarrow> uuid \<Rightarrow> role \<Rightarrow> datetime \<Rightarrow> db \<Rightarrow> (membership \<times> db) result" where
  "change_role o' actor target new_role now d =
     ebind (require_membership d o' (user_id actor) Admin) (\<lambda>am.
     ebind (get_or (HTTPError 404 ''Member not found'') (get_membership d o' target)) (\<lambda>m.
     ebind (raise_if (new_role = Owner \<and> target = user_id actor \<and> mem_role am \<noteq> Owner)
       (HTTPError 403 ''Cannot self-promote to owner'')) (\<lambda>_.
     ebind (raise_if (mem_role am = Admin \<and> (mem_role m = Owner \<or> new_role = Owner))
       (HTTPError 403 ''Admin cannot modify owner role'')) (\<lambda>_.
     ebind (raise_if (mem_role m = Owner \<and> new_role \<noteq> Owner \<and> count_owners d o' \<le> 1)
       (HTTPError 400 ''Cannot demote the last owner'')) (\<lambda>_.
     ebind (enforce_workspace_seat_cap d o' new_role (Some target)) (\<lambda>_.
     let m' = m\<lparr>mem_role := new_role, mem_updated_at := now\<rparr> in Inr (m', save_membership m' d)))))))"

definition remove_member :: "uuid \<Rightarrow> user \<Rightarrow> uuid \<Rightarrow> db \<Rightarrow> db result" where
  "remove_member o' actor target d =
     ebind (require_membership d o' (user_id actor) Admin) (\<lambda>am.
     ebind (get_or (HTTPError 404 ''Member not found'') (get_membership d o' target)) (\<lambda>m.
     ebind (raise_if (mem_role m = Owner \<and> count_owners d o' \<le> 1)
       (HTTPError 400 ''Cannot remove the last owner'')) (\<lambda>_.
     ebind (raise_if (mem_role m = Owner \<and> mem_role am \<noteq> Owner)
       (HTTPError 403 ''Only owner can remove another owner'')) (\<lambda>_.
     ebind (raise_if (mem_role am = Admin \<and> mem_role m = Owner)
       (HTTPError 403 ''Admin cannot remove owner'')) (\<lambda>_.
     Inr (delete_membership m d))))))"

text \<open>\<open>leave\<close> in its two halves: what it reads, and what it then writes and commits. No lock is held
  between them.\<close>

definition leave_check :: "uuid \<Rightarrow> user \<Rightarrow> db \<Rightarrow> membership result" where
  "leave_check o' u d =
     ebind (get_or (HTTPError 404 ''Organization not found'') (get_membership d o' (user_id u))) (\<lambda>m.
     ebind (raise_if (mem_role m = Owner \<and> count_owners d o' \<le> 1)
       (HTTPError 400 ''Last owner cannot leave without transferring ownership'')) (\<lambda>_. Inr m))"

definition leave_commit :: "uuid \<Rightarrow> user \<Rightarrow> membership \<Rightarrow> db \<Rightarrow> db" where
  "leave_commit o' u m d = (let d1 = delete_membership m d in
     if user_last_active u = Some o' then save_user (u\<lparr>user_last_active := None\<rparr>) d1 else d1)"

definition leave :: "uuid \<Rightarrow> user \<Rightarrow> db \<Rightarrow> db result" where
  "leave o' u d = ebind (leave_check o' u d) (\<lambda>m. Inr (leave_commit o' u m d))"

definition switch_org :: "user \<Rightarrow> uuid \<Rightarrow> db \<Rightarrow> (uuid \<times> db) result" where
  "switch_org u o' d = ebind (require_membership d o' (user_id u) Viewer) (\<lambda>_.
     Inr (o', save_user (u\<lparr>user_last_active := Some o'\<rparr>) d))"

subsection \<open>Invite handlers\<close>

definition create_invite ::
    "uuid \<Rightarrow> string \<Rightarrow> uuid \<Rightarrow> user \<Rightarrow> string \<Rightarrow> role \<Rightarrow> datetime \<Rightarrow> db \<Rightarrow> (invite \<times> db) result" where
  "create_invite iid token_hash o' actor email r now d =
     ebind (require_membership d o' (user_id actor) Admin) (\<lambda>_.
     ebind (raise_if (r \<notin> set INVITE_ROLES)
       (HTTPError 400 ''Invite role must be admin, member, or viewer (not owner)'')) (\<lambda>_.
     let email_norm = lower (strip email) in
     ebind (raise_if (email_norm = []) (HTTPError 400 ''Email required'')) (\<lambda>_.
     ebind (raise_if (case row_get user_email email_norm (users d) of None \<Rightarrow> False
         | Some v \<Rightarrow> get_membership d o' (user_id v) \<noteq> None) (HTTPError 409 ''User is already a member'')) (\<lambda>_.
     ebind (enforce_workspace_seat_cap d o' r None) (\<lambda>_.
     let i = \<lparr>ivt_id = iid, ivt_org = o', ivt_email = email_norm, ivt_role = r, ivt_token_hash = token_hash,
           ivt_invited_by = user_id actor, ivt_status = InvPending,
           ivt_expires_at = now + INVITE_TTL_DAYS * day_us, ivt_accepted_user = None,
           ivt_created_at = now, ivt_updated_at = now\<rparr> in
     ebind (raise_if (iid \<in> ivt_id ` set (invites d) \<or> token_hash \<in> ivt_token_hash ` set (invites d))
       IntegrityError) (\<lambda>_.
     Inr (i, d\<lparr>invites := invites d @ [i]\<rparr>)))))))"

definition list_invites :: "uuid \<Rightarrow> user \<Rightarrow> db \<Rightarrow> invite list result" where
  "list_invites o' actor d = ebind (require_membership d o' (user_id actor) Admin) (\<lambda>_.
     Inr (desc_by ivt_created_at (filter (\<lambda>i. ivt_org i = o' \<and> ivt_status i = InvPending) (invites d))))"

definition revoke_invite :: "uuid \<Rightarrow> user \<Rightarrow> uuid \<Rightarrow> datetime \<Rightarrow> db \<Rightarrow> db result" where
  "revoke_invite o' actor iid now d =
     ebind (require_membership d o' (user_id actor) Admin) (\<lambda>_.
     ebind (get_or (HTTPError 404 ''Invite not found'') (row_get ivt_id iid (invites d))) (\<lambda>i.
     ebind (raise_if (ivt_org i \<noteq> o') (HTTPError 404 ''Invite not found'')) (\<lambda>_.
     Inr (save_invite (i\<lparr>ivt_status := InvRevoked, ivt_updated_at := now\<rparr>) d))))"

definition accepted :: "user \<Rightarrow> datetime \<Rightarrow> invite \<Rightarrow> invite" where
  "accepted u now i = i\<lparr>ivt_status := InvAccepted, ivt_accepted_user := Some (user_id u), ivt_updated_at := now\<rparr>"

text \<open>The part of \<open>accept_invite\<close> after the expiry check.\<close>

definition join_by_invite :: "uuid \<Rightarrow> user \<Rightarrow> invite \<Rightarrow> datetime \<Rightarrow> db \<Rightarrow> (membership \<times> db) result" where
  "join_by_invite mid u i now d =
     ebind (raise_if (lower (ivt_email i) \<noteq> lower (user_email u))
       (HTTPError 403 ''Invite email does not match current user'')) (\<lambda>_.
     case get_membership d (ivt_org i) (user_id u) of
       Some m \<Rightarrow> Inr (m, save_invite (accepted u now i) d)
     | None \<Rightarrow>
       ebind (enforce_workspace_seat_cap d (ivt_org i) (ivt_role i) None) (\<lambda>_.
       let m = new_membership mid (ivt_org i) (user_id u) (ivt_role i) now in
       ebind (insert_membership m d) (\<lambda>d1. Inr (m, save_invite (accepted u now i) d1))))"

definition accept_invite ::
    "(string \<Rightarrow> string) \<Rightarrow> uuid \<Rightarrow> user \<Rightarrow> string \<Rightarrow> datetime \<Rightarrow> db \<Rightarrow> membership result \<times> db" where
  "accept_invite hash mid u raw_token now d =
     (case row_get ivt_token_hash (hash raw_token) (invites d) of
        None \<Rightarrow> (Inl (HTTPError 400 ''Invalid invite token''), d)
      | Some i \<Rightarrow>
        if ivt_status i \<noteq> InvPending then (Inl (HTTPError 400 ''Invite is no longer pending''), d)
        else if ivt_expires_at i < now
        then (Inl (HTTPError 400 ''Invite has expired''), save_invite (i\<lparr>ivt_status := InvExpired\<rparr>) d)
        else (case join_by_invite mid u i now d of Inl e \<Rightarrow> (Inl e, d) | Inr (m, d') \<Rightarrow> (Inr m, d')))"

subsection \<open>What a handler does to the memberships\<close>

abbreviation mkey :: "membership \<Rightarrow> uuid \<times> uuid" where
  "mkey m \<equiv> (mem_org m, mem_user m)"

text \<open>Every mutating handler, labelled with the user who calls it.\<close>

inductive org_step :: "uuid \<Rightarrow> db \<Rightarrow> db \<Rightarrow> bool" where
  personal: "ensure_personal_org oid mid tail u now d = Inr (r, d') \<Longrightarrow> org_step (user_id u) d d'"
| create: "create_org oid mid tails u name slug kind now d = Inr (r, d') \<Longrightarrow> org_step (user_id u) d d'"
| update: "update_org o' u name slug code now d = Inr (r, d') \<Longrightarrow> org_step (user_id u) d d'"
| role: "change_role o' u target new_role now d = Inr (m, d') \<Longrightarrow> org_step (user_id u) d d'"
| remove: "remove_member o' u target d = Inr d' \<Longrightarrow> org_step (user_id u) d d'"
| leave: "leave o' u d = Inr d' \<Longrightarrow> org_step (user_id u) d d'"
| switch: "switch_org u o' d = Inr (x, d') \<Longrightarrow> org_step (user_id u) d d'"
| invite: "create_invite iid token_hash o' u email r now d = Inr (i, d') \<Longrightarrow> org_step (user_id u) d d'"
| revoke: "revoke_invite o' u iid now d = Inr d' \<Longrightarrow> org_step (user_id u) d d'"
| accept: "accept_invite hash mid u raw_token now d = (x, d') \<Longrightarrow> org_step (user_id u) d d'"

lemma save_user_simps [simp]:
  "memberships (save_user u d) = memberships d" "orgs (save_user u d) = orgs d" "invites (save_user u d) = invites d"
  "tiers (save_user u d) = tiers d"
  by (simp_all add: save_user_def)

lemma save_invite_simps [simp]:
  "memberships (save_invite i d) = memberships d" "orgs (save_invite i d) = orgs d" "tiers (save_invite i d) = tiers d"
  "invites (save_invite i d) = row_upd ivt_id (ivt_id i) (\<lambda>_. i) (invites d)"
  by (simp_all add: save_invite_def)

lemma membership_write_simps [simp]:
  "orgs (save_membership m d) = orgs d" "invites (save_membership m d) = invites d" "tiers (save_membership m d) = tiers d"
  "memberships (save_membership m d) = row_upd mkey (mkey m) (\<lambda>_. m) (memberships d)"
  "orgs (delete_membership m d) = orgs d" "invites (delete_membership m d) = invites d"
  "tiers (delete_membership m d) = tiers d"
  "memberships (delete_membership m d) = row_del mkey (mkey m) (memberships d)"
  by (simp_all add: save_membership_def delete_membership_def)

lemma insert_org_Inr [errs]: "insert_org r d = Inr d' \<longleftrightarrow> org_id r \<notin> org_id ` set (orgs d) \<and>
    org_slug r \<notin> org_slug ` set (orgs d) \<and> d' = d\<lparr>orgs := orgs d @ [r]\<rparr>"
  by (auto simp: insert_org_def)

lemma insert_membership_Inr [errs]: "insert_membership m d = Inr d' \<longleftrightarrow> mem_id m \<notin> mem_id ` set (memberships d) \<and>
    mkey m \<notin> mkey ` set (memberships d) \<and> d' = d\<lparr>memberships := memberships d @ [m]\<rparr>"
  by (auto simp: insert_membership_def)

lemma new_fields [simp]:
  "mem_org (new_membership mid u v r now) = u" "mem_user (new_membership mid u v r now) = v"
  "mem_role (new_membership mid u v r now) = r" "org_id (new_org oid name slug kind code creator now) = oid"
  by (simp_all add: new_membership_def new_org_def)

lemma require_membership_Inr [errs]: "require_membership d o' v r = Inr m \<longleftrightarrow>
    get_membership d o' v = Some m \<and> role_at_least (Some (mem_role m)) r"
  by (auto simp: require_membership_def ebind_eq_Inr get_or_Inr raise_if_Inr)

lemma get_membership_Some: "get_membership d o' v = Some m \<Longrightarrow> m \<in> set (memberships d) \<and> mkey m = (o', v)"
  unfolding get_membership_def by (rule row_get_Some)

lemma personal_Inr:
  assumes "ensure_personal_org oid mid tail u now d = Inr (r, d')"
  obtains "d' = d" | "oid \<notin> org_id ` set (orgs d)" "org_id r = oid" "orgs d' = orgs d @ [r]" "invites d' = invites d"
    "memberships d' = memberships d @ [new_membership mid oid (user_id u) Owner now]"
    "(oid, user_id u) \<notin> mkey ` set (memberships d)" "tiers d' = tiers d"
proof (cases "personal_org d (user_id u) True")
  case None
  then show ?thesis
    using assms that(2) unfolding ensure_personal_org_def None option.case Let_def ebind_eq_Inr insert_org_Inr
      insert_membership_Inr by (elim exE conjE Inr_PairE) auto
next
  case (Some x)
  with assms that(1) show ?thesis by (simp add: ensure_personal_org_def)
qed

lemma create_org_Inr:
  assumes "create_org oid mid tails u name slug kind now d = Inr (r, d')"
  obtains "oid \<notin> org_id ` set (orgs d)" "org_id r = oid" "orgs d' = orgs d @ [r]" "invites d' = invites d"
    "memberships d' = memberships d @ [new_membership mid oid (user_id u) Owner now]"
    "(oid, user_id u) \<notin> mkey ` set (memberships d)" "tiers d' = tiers d"
  using assms unfolding create_org_def Let_def ebind_eq_Inr insert_org_Inr insert_membership_Inr raise_if_Inr
  by (elim exE conjE Inr_PairE) auto

lemma update_org_sku_Inr:
  assumes "update_org_sku u code r now d = Inr (r', d')"
  shows "org_id r' = org_id r" "orgs d' = orgs d" "memberships d' = memberships d" "invites d' = invites d"
    "tiers d' = tiers d"
  using assms unfolding update_org_sku_def Let_def
  by (auto simp: ebind_eq_Inr record_tier_assignment_def split: option.splits if_splits)

lemma update_org_slug_Inr: "update_org_slug o' slug r d = Inr r' \<Longrightarrow> org_id r' = org_id r"
  by (auto simp: update_org_slug_def Let_def ebind_eq_Inr split: option.splits)

lemma update_org_Inr:
  assumes "update_org o' u name slug code now d = Inr (r, d')"
  obtains "orgs d' = row_upd org_id o' (\<lambda>_. r) (orgs d)" "org_id r = o'" "memberships d' = memberships d"
    "invites d' = invites d" "tiers d' = tiers d"
proof -
  from assms obtain r0 r2 r3 d1 where r0: "org_found d o' = Inr r0"
    and r2: "update_org_slug o' slug (update_org_name name r0) d = Inr r2"
    and r3: "update_org_sku u code r2 now d = Inr (r3, d1)"
    and d': "r = r3\<lparr>org_updated_at := now\<rparr>" "d' = d1\<lparr>orgs := row_upd org_id o' (\<lambda>_. r) (orgs d1)\<rparr>"
    unfolding update_org_def Let_def ebind_eq_Inr by (auto simp: ebind_eq_Inr)
  have "org_id r0 = o'" using r0 row_get_Some [of org_id o' "orgs d" r0] by (simp add: org_found_def get_or_Inr)
  with update_org_slug_Inr [OF r2] update_org_sku_Inr [OF r3] d' show ?thesis
    by (intro that) (simp_all add: update_org_name_def split: option.splits)
qed

lemma change_role_Inr:
  assumes "change_role o' u target new_role now d = Inr (m', d')"
  obtains am m where "get_membership d o' (user_id u) = Some am" "role_at_least (Some (mem_role am)) Admin"
    "get_membership d o' target = Some m" "mem_role am = Admin \<Longrightarrow> mem_role m \<noteq> Owner \<and> new_role \<noteq> Owner"
    "mem_role m = Owner \<Longrightarrow> new_role = Owner \<or> 1 < count_owners d o'"
    "enforce_workspace_seat_cap d o' new_role (Some target) = Inr ()"
    "m' = m\<lparr>mem_role := new_role, mem_updated_at := now\<rparr>" "d' = save_membership m' d"
  using assms unfolding change_role_def Let_def ebind_eq_Inr require_membership_Inr get_or_Inr raise_if_Inr
  by (elim exE conjE Inr_PairE) (rule that; auto)

lemma remove_member_Inr:
  assumes "remove_member o' u target d = Inr d'"
  obtains am m where "get_membership d o' (user_id u) = Some am" "role_at_least (Some (mem_role am)) Admin"
    "get_membership d o' target = Some m" "mem_role m = Owner \<Longrightarrow> mem_role am = Owner \<and> 1 < count_owners d o'"
    "d' = delete_membership m d"
  using assms unfolding remove_member_def ebind_eq_Inr require_membership_Inr get_or_Inr raise_if_Inr
  by (elim exE conjE) (rule that; auto)

lemma leave_Inr:
  assumes "leave o' u d = Inr d'"
  obtains m where "get_membership d o' (user_id u) = Some m" "mem_role m = Owner \<Longrightarrow> 1 < count_owners d o'"
    "memberships d' = row_del mkey (o', user_id u) (memberships d)" "orgs d' = orgs d" "invites d' = invites d"
    "tiers d' = tiers d"
  using assms unfolding leave_def leave_check_def ebind_eq_Inr get_or_Inr raise_if_Inr
  by (elim exE conjE) (rule that, auto simp: leave_commit_def Let_def dest: get_membership_Some)

lemma switch_Inr: "switch_org u o' d = Inr (x, d') \<Longrightarrow>
    memberships d' = memberships d \<and> orgs d' = orgs d \<and> invites d' = invites d \<and> tiers d' = tiers d"
  unfolding switch_org_def ebind_eq_Inr by (elim exE conjE Inr_PairE) auto

lemma create_invite_Inr:
  assumes "create_invite iid token_hash o' u email r now d = Inr (i, d')"
  obtains am where "get_membership d o' (user_id u) = Some am" "role_at_least (Some (mem_role am)) Admin"
    "r \<noteq> Owner" "enforce_workspace_seat_cap d o' r None = Inr ()"
    "ivt_id i = iid" "ivt_org i = o'" "ivt_email i = lower (strip email)" "ivt_role i = r"
    "ivt_token_hash i = token_hash" "ivt_status i = InvPending" "ivt_expires_at i = now + INVITE_TTL_DAYS * day_us"
    "iid \<notin> ivt_id ` set (invites d)" "token_hash \<notin> ivt_token_hash ` set (invites d)"
    "d' = d\<lparr>invites := invites d @ [i]\<rparr>"
  using assms unfolding create_invite_def Let_def ebind_eq_Inr require_membership_Inr get_or_Inr raise_if_Inr
  by (elim exE conjE Inr_PairE) (rule that; auto simp: INVITE_ROLES_def)

lemma revoke_Inr:
  assumes "revoke_invite o' u iid now d = Inr d'"
  obtains i am where "get_membership d o' (user_id u) = Some am" "role_at_least (Some (mem_role am)) Admin"
    "row_get ivt_id iid (invites d) = Some i" "ivt_org i = o'"
    "d' = save_invite (i\<lparr>ivt_status := InvRevoked, ivt_updated_at := now\<rparr>) d"
  using assms unfolding revoke_invite_def ebind_eq_Inr require_membership_Inr get_or_Inr raise_if_Inr
  by (elim exE conjE) (rule that; auto)

lemma join_Inr:
  assumes "join_by_invite mid u i now d = Inr (m, d')"
  obtains (already) "get_membership d (ivt_org i) (user_id u) = Some m" "d' = save_invite (accepted u now i) d"
      "lower (ivt_email i) = lower (user_email u)"
  | (joined) "get_membership d (ivt_org i) (user_id u) = None" "m = new_membership mid (ivt_org i) (user_id u) (ivt_role i) now"
      "enforce_workspace_seat_cap d (ivt_org i) (ivt_role i) None = Inr ()"
      "mem_id m \<notin> mem_id ` set (memberships d)" "lower (ivt_email i) = lower (user_email u)"
      "d' = save_invite (accepted u now i) (d\<lparr>memberships := memberships d @ [m]\<rparr>)"
  using assms unfolding join_by_invite_def Let_def
  by (auto simp: ebind_eq_Inr raise_if_Inr insert_membership_Inr simp del: membership_write_simps split: option.splits)

lemma accept_cases:
  assumes "accept_invite hash mid u raw_token now d = (x, d')"
  obtains (refused) e where "x = Inl e" "d' = d"
  | (expired) i where "x = Inl (HTTPError 400 ''Invite has expired'')"
      "row_get ivt_token_hash (hash raw_token) (invites d) = Some i" "ivt_status i = InvPending" "ivt_expires_at i < now"
      "d' = save_invite (i\<lparr>ivt_status := InvExpired\<rparr>) d"
  | (joined) i m where "x = Inr m" "row_get ivt_token_hash (hash raw_token) (invites d) = Some i"
      "ivt_status i = InvPending" "now \<le> ivt_expires_at i" "join_by_invite mid u i now d = Inr (m, d')"
  using assms unfolding accept_invite_def
  by (auto simp del: save_invite_simps split: option.splits if_splits sum.splits)


subsection \<open>Counting members\<close>

lemma count_row_del:
  "unique_by key rows \<Longrightarrow> row_get key k rows = Some t \<Longrightarrow>
   count_where P (row_del key k rows) + (if P t then 1 else 0) = count_where P rows"
proof (induction rows)
  case (Cons r rows)
  show ?case
  proof (cases "key r = k")
    case True
    with Cons.prems have "k \<notin> key ` set rows" "r = t" by (auto simp: row_get_def)
    then have "row_del key k rows = rows" unfolding row_del_def by (intro filter_True) auto
    with True \<open>r = t\<close> show ?thesis by (simp add: row_del_def)
  next
    case False
    with Cons show ?thesis by (simp add: row_del_def row_get_def)
  qed
qed (simp add: row_get_def)

definition org_good :: "db \<Rightarrow> bool" where
  "org_good d \<longleftrightarrow> unique_by org_id (orgs d) \<and> unique_by mkey (memberships d)
     \<and> unique_by ivt_id (invites d) \<and> unique_by ivt_token_hash (invites d)
     \<and> (\<forall>i\<in>set (invites d). ivt_role i \<noteq> Owner)"

definition owned :: "db \<Rightarrow> bool" where
  "owned d \<longleftrightarrow> (\<forall>r\<in>set (orgs d). 1 \<le> count_owners d (org_id r))"

lemma unique_by_alter:
  "mkey m' = mkey m \<Longrightarrow> unique_by mkey ms \<Longrightarrow> unique_by mkey (row_upd mkey (mkey m) (\<lambda>_. m') ms)"
  by (rule unique_by_row_replace [where c = "mkey m"]) auto

lemma admin_or_owner: "role_at_least (Some r) Admin \<longleftrightarrow> r = Admin \<or> r = Owner"
  by (cases r) (simp_all add: role_at_least_def role_rank_def)

lemma org_ids_row_upd: "org_id r = o' \<Longrightarrow> map org_id (row_upd org_id o' (\<lambda>_. r) rows) = map org_id rows"
  by (auto simp: row_upd_def)

lemma org_step_effect:
  assumes "org_step a d d'" "org_good d"
  obtains (same) "memberships d' = memberships d" "map org_id (orgs d') = map org_id (orgs d)"
  | (founded) r m where "orgs d' = orgs d @ [r]" "org_id r \<notin> org_id ` set (orgs d)" "memberships d' = memberships d @ [m]"
      "mkey m = (org_id r, a)" "mem_role m = Owner" "mkey m \<notin> mkey ` set (memberships d)"
  | (joined) m where "orgs d' = orgs d" "memberships d' = memberships d @ [m]" "mem_role m \<noteq> Owner"
      "enforce_workspace_seat_cap d (mem_org m) (mem_role m) None = Inr ()" "mkey m \<notin> mkey ` set (memberships d)"
  | (altered) m m' where "orgs d' = orgs d" "memberships d' = row_upd mkey (mkey m) (\<lambda>_. m') (memberships d)"
      "row_get mkey (mkey m) (memberships d) = Some m" "mkey m' = mkey m"
      "mem_role m = Owner \<Longrightarrow> mem_role m' = Owner \<or> 1 < count_owners d (mem_org m)"
      "mem_role m' = Owner \<Longrightarrow> mem_role m = Owner \<or>
         (\<exists>x. get_membership d (mem_org m) a = Some x \<and> mem_role x = Owner)"
      "enforce_workspace_seat_cap d (mem_org m) (mem_role m') (Some (mem_user m)) = Inr ()"
  | (deleted) m where "orgs d' = orgs d" "memberships d' = row_del mkey (mkey m) (memberships d)"
      "row_get mkey (mkey m) (memberships d) = Some m" "mem_role m = Owner \<Longrightarrow> 1 < count_owners d (mem_org m)"
  using assms(1)
proof cases
  case (personal oid mid tail u now r)
  then show ?thesis
    by (elim personal_Inr) (auto intro: same founded)
next
  case (create oid mid tails u name slug kind now r)
  then show ?thesis by (elim create_org_Inr) (auto intro: founded)
next
  case (update o' u name slug code now r)
  from this(2) show ?thesis by (rule update_org_Inr) (auto intro!: same simp: org_ids_row_upd)
next
  case (role o' u target new_role now m)
  from this(2) show ?thesis
  proof (rule change_role_Inr)
    fix am m0
    assume *: "get_membership d o' (user_id u) = Some am" "role_at_least (Some (mem_role am)) Admin"
      "get_membership d o' target = Some m0" "mem_role am = Admin \<Longrightarrow> mem_role m0 \<noteq> Owner \<and> new_role \<noteq> Owner"
      "mem_role m0 = Owner \<Longrightarrow> new_role = Owner \<or> 1 < count_owners d o'"
      "enforce_workspace_seat_cap d o' new_role (Some target) = Inr ()"
      "m = m0\<lparr>mem_role := new_role, mem_updated_at := now\<rparr>" "d' = save_membership m d"
    have m0: "mem_org m0 = o'" "mem_user m0 = target" using get_membership_Some [OF *(3)] by simp_all
    show ?thesis
      by (rule altered [of m0 m]) (use * role(1) m0 in \<open>auto simp: get_membership_def admin_or_owner\<close>)
  qed
next
  case (remove o' u target)
  from this(2) show ?thesis
  proof (rule remove_member_Inr)
    fix am m0
    assume *: "get_membership d o' target = Some m0" "mem_role m0 = Owner \<Longrightarrow> mem_role am = Owner \<and> 1 < count_owners d o'"
      "d' = delete_membership m0 d"
    have m0: "mem_org m0 = o'" "mem_user m0 = target" using get_membership_Some [OF *(1)] by simp_all
    show ?thesis by (rule deleted [of m0]) (use * m0 in \<open>auto simp: get_membership_def\<close>)
  qed
next
  case (leave o' u)
  from this(2) show ?thesis
  proof (rule leave_Inr)
    fix m0
    assume *: "get_membership d o' (user_id u) = Some m0" "mem_role m0 = Owner \<Longrightarrow> 1 < count_owners d o'"
      "memberships d' = row_del mkey (o', user_id u) (memberships d)" "orgs d' = orgs d"
    have m0: "mem_org m0 = o'" "mem_user m0 = user_id u" using get_membership_Some [OF *(1)] by simp_all
    show ?thesis by (rule deleted [of m0]) (use * m0 in \<open>auto simp: get_membership_def\<close>)
  qed
next
  case (switch u o' x)
  with switch_Inr [OF this(2)] show ?thesis by (intro same) simp_all
next
  case (invite iid token_hash o' u email r now i)
  from this(2) show ?thesis by (rule create_invite_Inr) (rule same; simp)
next
  case (revoke o' u iid now)
  from this(2) show ?thesis by (rule revoke_Inr) (rule same; simp)
next
  case (accept hash mid u raw_token now x)
  from this(2) show ?thesis
  proof (cases rule: accept_cases)
    case (joined i m)
    from joined(2) have "i \<in> set (invites d)" using row_get_Some by fast
    with assms(2) have "ivt_role i \<noteq> Owner" by (auto simp: org_good_def)
    from joined(5) show ?thesis
    proof (cases rule: join_Inr)
      case already
      then show ?thesis by (intro same) simp_all
    next
      case joined
      then show ?thesis using \<open>ivt_role i \<noteq> Owner\<close>
        by (intro that(3) [of m]) (auto simp: get_membership_def row_get_None)
    qed
  qed (auto intro: same)
qed

lemma unique_by_map: "map f xs = map f ys \<Longrightarrow> unique_by f xs = unique_by f ys"
  by (simp add: unique_by_def)

lemma invites_kept:
  assumes "org_step a d d'"
  obtains "invites d' = invites d"
  | i where "invites d' = invites d @ [i]" "ivt_id i \<notin> ivt_id ` set (invites d)" "ivt_status i = InvPending"
      "ivt_token_hash i \<notin> ivt_token_hash ` set (invites d)" "ivt_role i \<noteq> Owner"
  | i i' where "invites d' = row_upd ivt_id (ivt_id i) (\<lambda>_. i') (invites d)" "i \<in> set (invites d)" "ivt_id i' = ivt_id i"
      "ivt_token_hash i' = ivt_token_hash i" "ivt_role i' = ivt_role i" "ivt_status i' \<noteq> InvPending"
  using assms
proof cases
  case (personal oid mid tail u now r)
  then show ?thesis by (elim personal_Inr) (auto intro: that(1))
next
  case (create oid mid tails u name slug kind now r)
  then show ?thesis by (elim create_org_Inr) (auto intro: that(1))
next
  case (update o' u name slug code now r)
  from this(2) show ?thesis by (rule update_org_Inr) (auto intro: that(1))
next
  case (role o' u target new_role now m)
  from this(2) show ?thesis by (rule change_role_Inr) (auto intro: that(1))
next
  case (remove o' u target)
  from this(2) show ?thesis by (rule remove_member_Inr) (auto intro: that(1))
next
  case (leave o' u)
  from this(2) show ?thesis by (rule leave_Inr) (auto intro: that(1))
next
  case (switch u o' x)
  with switch_Inr [OF this(2)] show ?thesis by (intro that(1)) simp
next
  case (invite iid token_hash o' u email r now i)
  from this(2) show ?thesis by (rule create_invite_Inr) (rule that(2) [of i]; simp)
next
  case (revoke o' u iid now)
  from this(2) show ?thesis
  proof (rule revoke_Inr)
    fix i
    assume "row_get ivt_id iid (invites d) = Some i"
      "d' = save_invite (i\<lparr>ivt_status := InvRevoked, ivt_updated_at := now\<rparr>) d"
    then show ?thesis
      by (intro that(3) [of i "i\<lparr>ivt_status := InvRevoked, ivt_updated_at := now\<rparr>"]) (auto dest: row_get_Some)
  qed
next
  case (accept hash mid u raw_token now x)
  from this(2) show ?thesis
  proof (cases rule: accept_cases)
    case (expired i)
    then show ?thesis
      by (intro that(3) [of i "i\<lparr>ivt_status := InvExpired\<rparr>"]) (auto dest: row_get_Some)
  next
    case (joined i m)
    from joined(2) have "i \<in> set (invites d)" using row_get_Some by fast
    with joined(5) show ?thesis
      by (elim join_Inr) (auto intro!: that(3) [of i "accepted u now i"] simp: accepted_def)
  qed (auto intro: that(1))
qed


lemma org_good_step:
  assumes "org_step a d d'" "org_good d"
  shows "org_good d'"
proof -
  have "unique_by org_id (orgs d') \<and> unique_by mkey (memberships d')"
    using assms
  proof (cases rule: org_step_effect)
    case same
    with assms(2) unique_by_map [OF same(2)] show ?thesis by (simp add: org_good_def)
  next
    case (founded r m)
    with assms(2) show ?thesis by (auto simp: org_good_def unique_by_append1)
  next
    case (joined m)
    with assms(2) show ?thesis by (auto simp: org_good_def unique_by_append1)
  next
    case (altered m m')
    with unique_by_alter [OF altered(4), of "memberships d"] assms(2) show ?thesis by (simp add: org_good_def)
  next
    case (deleted m)
    with assms(2) show ?thesis by (auto simp: org_good_def intro: unique_by_row_del)
  qed
  moreover have "unique_by ivt_id (invites d') \<and> unique_by ivt_token_hash (invites d')
      \<and> (\<forall>i\<in>set (invites d'). ivt_role i \<noteq> Owner)"
    using assms(1)
  proof (cases rule: invites_kept)
    case 1
    with assms(2) show ?thesis by (simp add: org_good_def)
  next
    case (2 i)
    with assms(2) show ?thesis by (auto simp: org_good_def unique_by_append1)
  next
    case (3 i i')
    have inj: "x = i" if "x \<in> set (invites d)" "ivt_token_hash x = ivt_token_hash i" for x
      using assms(2) that 3(2) unique_byD [of ivt_token_hash "invites d"] by (auto simp: org_good_def)
    have "unique_by ivt_id (invites d')" "unique_by ivt_token_hash (invites d')"
      unfolding 3(1) using 3 assms(2) inj
      by (auto simp: org_good_def intro!: unique_by_row_replace [where c = "ivt_id i"]
          unique_by_row_replace [where c = "ivt_token_hash i"])
    moreover have "ivt_role i' \<noteq> Owner" using 3(2,5) assms(2) by (simp add: org_good_def)
    then have "\<forall>x\<in>set (invites d'). ivt_role x \<noteq> Owner"
      using assms(2) unfolding 3(1) by (auto simp: org_good_def set_row_upd)
    ultimately show ?thesis by simp
  qed
  ultimately show ?thesis by (simp add: org_good_def)
qed

lemma count_owners_step:
  assumes "org_step a d d'" "org_good d" "o' \<in> org_id ` set (orgs d)"
  shows "1 \<le> count_owners d o' \<Longrightarrow> 1 \<le> count_owners d' o'"
  using assms(1,2)
proof (cases rule: org_step_effect)
  case (altered m m')
  let ?P = "\<lambda>m. mem_org m = o' \<and> mem_role m = Owner"
  assume le: "1 \<le> count_owners d o'"
  have "unique_by mkey (memberships d)" using assms(2) by (simp add: org_good_def)
  from count_row_replace [OF this altered(3), of ?P "\<lambda>_. m'"]
  have "count_owners d' o' + (if ?P m then 1 else 0) = count_owners d o' + (if ?P m' then 1 else 0)"
    by (simp add: count_owners_def altered(2))
  with le altered(4,5) show "1 \<le> count_owners d' o'" by (auto split: if_splits)
next
  case (deleted m)
  let ?P = "\<lambda>m. mem_org m = o' \<and> mem_role m = Owner"
  assume le: "1 \<le> count_owners d o'"
  have "unique_by mkey (memberships d)" using assms(2) by (simp add: org_good_def)
  from count_row_del [OF this deleted(3), of ?P]
  have "count_owners d' o' + (if ?P m then 1 else 0) = count_owners d o'"
    by (simp add: count_owners_def deleted(2))
  with le deleted(4) show "1 \<le> count_owners d' o'" by (auto split: if_splits)
qed (simp_all add: count_owners_def)

definition org_run :: "db \<Rightarrow> db \<Rightarrow> bool" where
  "org_run d d' \<longleftrightarrow> (\<lambda>d d'. \<exists>a. org_step a d d')\<^sup>*\<^sup>* d d'"

lemma owned_step:
  assumes "org_step a d d'" "org_good d" "owned d"
  shows "owned d'"
  unfolding owned_def
proof
  fix r assume r: "r \<in> set (orgs d')"
  show "1 \<le> count_owners d' (org_id r)"
  proof (cases "org_id r \<in> org_id ` set (orgs d)")
    case True
    with assms(3) have "1 \<le> count_owners d (org_id r)" by (auto simp: owned_def)
    with count_owners_step [OF assms(1,2) True] show ?thesis .
  next
    case False
    from assms(1,2) show ?thesis
    proof (cases rule: org_step_effect)
      case same
      from arg_cong [OF same(2), of set] r False show ?thesis by auto
    next
      case (founded r' m)
      with r False have "r = r'" by auto
      with founded show ?thesis by (simp add: count_owners_def)
    qed (use r False in auto)
  qed
qed

lemma org_run_keeps:
  assumes "org_run d d'" "org_good d" "owned d"
  shows "org_good d' \<and> owned d'"
  using assms(1) unfolding org_run_def
  by (induction rule: rtranclp_induct) (use assms(2,3) in \<open>auto intro: org_good_step owned_step\<close>)

lemma enforce_seat_cap_Inr:
  assumes "enforce_workspace_seat_cap d o' r excl = Inr ()" "row_get org_id o' (orgs d) = Some x" "tier_get d (org_sku x) = Inr t"
  shows "r \<noteq> Viewer \<Longrightarrow> tier_editor_limit t = Some n \<Longrightarrow> int (seat_count d o' excl (\<lambda>r. r \<noteq> Viewer)) < n"
    and "r = Viewer \<Longrightarrow> tier_viewer_limit t = Some n \<Longrightarrow> int (seat_count d o' excl (\<lambda>r. r = Viewer)) < n"
proof -
  have W: "(r \<in> set WRITE_ROLES) = (r \<noteq> Viewer)" for r by (cases r) (simp_all add: WRITE_ROLES_def)
  show "r \<noteq> Viewer \<Longrightarrow> tier_editor_limit t = Some n \<Longrightarrow> int (seat_count d o' excl (\<lambda>r. r \<noteq> Viewer)) < n"
    "r = Viewer \<Longrightarrow> tier_viewer_limit t = Some n \<Longrightarrow> int (seat_count d o' excl (\<lambda>r. r = Viewer)) < n"
    using assms(1) unfolding enforce_workspace_seat_cap_def assms(2,3) W
    by (auto simp: Let_def ebind_eq_Inr raise_if_Inr assms(2,3) not_le split: if_splits option.splits)
qed


lemma count_where_filter: "count_where P (filter Q xs) = count_where (\<lambda>x. P x \<and> Q x) xs"
  by (induction xs) auto

lemma seat_count_kept:
  assumes "org_step a d d'" "org_good d" "row_get org_id o' (orgs d) = Some x" "tier_get d (org_sku x) = Inr t"
  shows "tier_editor_limit t = Some n \<Longrightarrow>
      int (seat_count d' o' None (\<lambda>r. r \<noteq> Viewer)) \<le> max n (int (seat_count d o' None (\<lambda>r. r \<noteq> Viewer)))"
    and "tier_viewer_limit t = Some n \<Longrightarrow>
      int (seat_count d' o' None (\<lambda>r. r = Viewer)) \<le> max n (int (seat_count d o' None (\<lambda>r. r = Viewer)))"
proof -
  have o': "o' \<in> org_id ` set (orgs d)" using row_get_Some [OF assms(3)] by auto
  have gen: "int (seat_count d' o' None Q) \<le> max n (int (seat_count d o' None Q))"
    if cap: "\<And>r excl. enforce_workspace_seat_cap d o' r excl = Inr () \<Longrightarrow> Q r \<Longrightarrow> int (seat_count d o' excl Q) < n" for Q
    using assms(1,2)
  proof (cases rule: org_step_effect)
    case same
    then show ?thesis by (simp add: seat_count_def)
  next
    case (founded r m)
    with o' show ?thesis by (auto simp: seat_count_def)
  next
    case (joined m)
    with cap [of "mem_role m" None] show ?thesis by (cases "mem_org m = o' \<and> Q (mem_role m)") (auto simp: seat_count_def)
  next
    case (altered m m')
    have u: "unique_by mkey (memberships d)" using assms(2) by (simp add: org_good_def)
    have alter: "count_where P (memberships d') + (if P m then 1 else 0) = count_where P (memberships d) + (if P m' then 1 else 0)" for P
      unfolding altered(2) by (rule count_row_replace [OF u altered(3)])
    have others: "seat_count d o' (Some (mem_user m)) Q + (if Q (mem_role m) then 1 else 0) = seat_count d o' None Q" if "mem_org m = o'"
    proof -
      have "count_where (\<lambda>y. mem_org y = o' \<and> Some (mem_user m) \<noteq> Some (mem_user y) \<and> Q (mem_role y)) (memberships d)
          = count_where (\<lambda>y. mem_org y = o' \<and> Q (mem_role y)) (row_del mkey (mkey m) (memberships d))"
        unfolding row_del_def count_where_filter using that by (intro arg_cong2 [where f = count_where]) auto
      with count_row_del [OF u altered(3), of "\<lambda>y. mem_org y = o' \<and> Q (mem_role y)"] that show ?thesis
        by (simp add: seat_count_def)
    qed
    show ?thesis
    proof (cases "mem_org m = o' \<and> Q (mem_role m')")
      case True
      with cap [OF _ , of "mem_role m'" "Some (mem_user m)"] altered(7)
      have "int (seat_count d o' (Some (mem_user m)) Q) < n" by simp
      with True others alter [of "\<lambda>y. mem_org y = o' \<and> Q (mem_role y)"] altered(4) show ?thesis
        by (auto simp: seat_count_def split: if_splits)
    next
      case False
      with alter [of "\<lambda>y. mem_org y = o' \<and> Q (mem_role y)"] altered(4) show ?thesis
        by (auto simp: seat_count_def split: if_splits)
    qed
  next
    case (deleted m)
    have "unique_by mkey (memberships d)" using assms(2) by (simp add: org_good_def)
    from count_row_del [OF this deleted(3), of "\<lambda>y. mem_org y = o' \<and> Q (mem_role y)"] show ?thesis
      by (simp add: seat_count_def deleted(2) split: if_splits)
  qed
  show "tier_editor_limit t = Some n \<Longrightarrow>
      int (seat_count d' o' None (\<lambda>r. r \<noteq> Viewer)) \<le> max n (int (seat_count d o' None (\<lambda>r. r \<noteq> Viewer)))"
    by (rule gen) (rule enforce_seat_cap_Inr(1) [OF _ assms(3,4)])
  show "tier_viewer_limit t = Some n \<Longrightarrow>
      int (seat_count d' o' None (\<lambda>r. r = Viewer)) \<le> max n (int (seat_count d o' None (\<lambda>r. r = Viewer)))"
    by (rule gen) (rule enforce_seat_cap_Inr(2) [OF _ assms(3,4)])
qed


subsection \<open>A sample organization\<close>

definition team_user :: "uuid \<Rightarrow> user" where
  "team_user k = \<lparr>user_id = k, user_email = ''u'' @ show_nat k @ ''@acme.id'', user_is_verified = True, user_is_admin = False,
     user_credits = 0, user_locale = ''en'', user_last_active = None\<rparr>"

definition team_db0 :: db where
  "team_db0 = seed_db\<lparr>users := map team_user [1, 2, 3],
     tiers := [seed_tier\<lparr>tier_editor_limit := Some 2, tier_viewer_limit := Some 1\<rparr>]\<rparr>"

definition team_db :: db where   \<comment> \<open>user 1 founds organization 7\<close>
  "team_db = db_of (create_org 7 70 (\<lambda>_. ''a1'') (team_user 1) ''Acme'' None ''company'' 1000 team_db0)"


text \<open>User 2 is invited as a member, user 3 as a viewer; both accept.\<close>

definition invited_db :: db where
  "invited_db = db_of (create_invite 91 ''h3'' 7 (team_user 1) ''u3@acme.id'' Viewer 1002
     (db_of (create_invite 90 ''h2'' 7 (team_user 1) '' U2@acme.id'' Member 1001 team_db)))"

definition joined_db :: db where
  "joined_db = snd (accept_invite ((#) CHR ''h'') 71 (team_user 2) ''2'' 1003 invited_db)"

lemma team_runs: "org_step 1 team_db0 team_db" "org_run team_db0 team_db" "org_run team_db joined_db" "org_run team_db invited_db"
proof -
  have ok: "\<not> isl (create_org 7 70 (\<lambda>_. ''a1'') (team_user 1) ''Acme'' None ''company'' 1000 team_db0)"
    "\<not> isl (create_invite 90 ''h2'' 7 (team_user 1) '' U2@acme.id'' Member 1001 team_db)"
    "\<not> isl (create_invite 91 ''h3'' 7 (team_user 1) ''u3@acme.id'' Viewer 1002
       (db_of (create_invite 90 ''h2'' 7 (team_user 1) '' U2@acme.id'' Member 1001 team_db)))"
    by code_simp+
  have u: "user_id (team_user k) = k" for k by (simp add: team_user_def)
  from db_of_Inr [OF ok(1)] show c: "org_step 1 team_db0 team_db"
    using org_step.create [where u = "team_user 1"] unfolding u team_db_def by blast
  then show "org_run team_db0 team_db" unfolding org_run_def by blast
  have i: "\<exists>a. org_step a team_db (db_of (create_invite 90 ''h2'' 7 (team_user 1) '' U2@acme.id'' Member 1001 team_db))"
    "\<exists>a. org_step a (db_of (create_invite 90 ''h2'' 7 (team_user 1) '' U2@acme.id'' Member 1001 team_db)) invited_db"
    using db_of_Inr [OF ok(2)] db_of_Inr [OF ok(3)] org_step.invite unfolding invited_db_def by blast+
  have "\<exists>a. org_step a invited_db joined_db"
    using org_step.accept [OF surjective_pairing] unfolding joined_db_def by blast
  note step = converse_rtranclp_into_rtranclp [where r = "\<lambda>d d'. \<exists>a. org_step a d d'"]
  show "org_run team_db joined_db"
    unfolding org_run_def using i \<open>\<exists>a. org_step a invited_db joined_db\<close> by (intro step [OF i(1)] step [OF i(2)] r_into_rtranclp)
  show "org_run team_db invited_db"
    unfolding org_run_def using i by (intro step [OF i(1)] r_into_rtranclp)
qed

lemma team_good: "org_good team_db0" "owned team_db0"
  by (simp_all add: org_good_def owned_def team_db0_def seed_db_def empty_db_def)

lemma owner_by_grant:
  assumes "org_step a d d'" "org_good d" "get_membership d' o' v = Some m" "mem_role m = Owner"
    "\<And>m0. get_membership d o' v = Some m0 \<Longrightarrow> mem_role m0 \<noteq> Owner"
  shows "(\<exists>x. get_membership d o' a = Some x \<and> mem_role x = Owner) \<or> (o' \<notin> org_id ` set (orgs d) \<and> v = a)"
  using assms(1,2)
proof (cases rule: org_step_effect)
  case same
  with assms(3-5) show ?thesis by (simp add: get_membership_def)
next
  case (founded r x)
  with assms(3-5) show ?thesis
    by (auto simp: get_membership_def row_get_append split: option.splits if_splits)
next
  case (joined x)
  with assms(3-5) show ?thesis
    by (auto simp: get_membership_def row_get_append split: option.splits if_splits)
next
  case (altered x x')
  from get_membership_Some [OF assms(3)] have m: "m \<in> set (memberships d')" "mkey m = (o', v)" by auto
  have u: "unique_by mkey (memberships d)" using assms(2) by (simp add: org_good_def)
  show ?thesis
  proof (cases "mkey x = (o', v)")
    case True
    with m altered(2-4) have "m = x'" by (auto simp: set_row_upd)
    with True altered(3,6) assms(4,5) show ?thesis by (auto simp: get_membership_def)
  next
    case False
    with m altered(2,4) have "m \<in> set (memberships d)" by (auto simp: set_row_upd)
    with row_get_unique [OF u this] m(2) assms(4,5) show ?thesis by (simp add: get_membership_def)
  qed
next
  case (deleted x)
  with assms(3-5) show ?thesis by (auto simp: get_membership_def row_get_del split: if_splits)
qed


lemma org_run_good: "org_run d d' \<Longrightarrow> org_good d \<Longrightarrow> org_good d'"
  unfolding org_run_def by (induction rule: rtranclp_induct) (auto intro: org_good_step)

text \<open>What is left of an invite that was spent, and what it refuses from then on.\<close>

lemma spent_invite:
  assumes "org_run d d'" "org_good d" "row_get ivt_token_hash h (invites d) = Some i" "ivt_status i \<noteq> InvPending"
  shows "\<exists>i'. row_get ivt_token_hash h (invites d') = Some i' \<and> ivt_status i' \<noteq> InvPending"
  using assms(1) unfolding org_run_def
proof (induction rule: rtranclp_induct)
  case base
  show ?case using assms(3,4) by blast
next
  case (step d1 d2)
  have "org_run d d1" unfolding org_run_def by (rule step(1))
  then have "org_good d1" using assms(2) by (rule org_run_good)
  from step.IH obtain i1 where i1: "row_get ivt_token_hash h (invites d1) = Some i1" "ivt_status i1 \<noteq> InvPending" by blast
  from step(2) obtain a where "org_step a d1 d2" by blast
  then show ?case
  proof (cases rule: invites_kept)
    case 1
    with i1 show ?thesis by simp
  next
    case (2 j)
    with i1 show ?thesis by (simp add: row_get_append)
  next
    case (3 j j')
    have u: "unique_by ivt_token_hash (invites d1)" "unique_by ivt_id (invites d1)"
      using \<open>org_good d1\<close> by (simp_all add: org_good_def)
    have "row_get ivt_token_hash h (invites d2) = (if h = ivt_token_hash j then Some j' else Some i1)"
    proof (cases "h = ivt_token_hash j")
      case True
      then have "j' \<in> set (invites d2)" using 3(1,2) by (auto simp: set_row_upd)
      moreover have "unique_by ivt_token_hash (invites d2)"
        using org_good_step [OF \<open>org_step a d1 d2\<close> \<open>org_good d1\<close>] by (simp add: org_good_def)
      ultimately show ?thesis using row_get_unique [of ivt_token_hash "invites d2" j'] 3(4) True by simp
    next
      case False
      have "i1 \<in> set (invites d1)" "ivt_token_hash i1 = h" using row_get_Some [OF i1(1)] by auto
      with False have "ivt_id i1 \<noteq> ivt_id j" using unique_byD [OF u(2) _ 3(2), of i1] by auto
      with \<open>i1 \<in> set (invites d1)\<close> have "i1 \<in> set (invites d2)" unfolding 3(1) by (auto simp: set_row_upd)
      moreover have "unique_by ivt_token_hash (invites d2)"
        using org_good_step [OF \<open>org_step a d1 d2\<close> \<open>org_good d1\<close>] by (simp add: org_good_def)
      ultimately show ?thesis using row_get_unique [of ivt_token_hash "invites d2" i1] \<open>ivt_token_hash i1 = h\<close> False by simp
    qed
    with i1 3(6) show ?thesis by auto
  qed
qed


subsection \<open>Properties\<close>

text \<open>C29: Every organization keeps an owner: from a database in which each organization has one and the keys are
  unique, no sequence of handler calls (creating, updating, inviting, joining, changing roles, removing, leaving,
  switching), each by any user, ends with an organization that has no owner; and the keys stay unique.\<close>

theorem last_owner_kept:
  assumes "org_run d d'" "org_good d" "owned d"
  shows "org_good d' \<and> (\<forall>r\<in>set (orgs d'). 1 \<le> count_owners d' (org_id r))"
  using org_run_keeps [OF assms] by (simp add: owned_def)

theorem last_owner_kept_witness:
  "org_run team_db joined_db \<and> (\<exists>r\<in>set (orgs joined_db). org_id r = 7 \<and> 1 \<le> count_owners joined_db (org_id r))"
proof -
  have "7 \<in> org_id ` set (orgs joined_db)" by code_simp
  then show ?thesis using last_owner_kept [OF team_runs(3)] org_run_keeps [OF team_runs(2) team_good] team_runs(3) by force
qed

text \<open>C30: Ownership is only given by owners: a user who becomes an owner of an organization through a step was made
  one by a call of an owner of that organization, or has just founded it. Invites and admins cannot make owners.\<close>

theorem ownership_only_by_owner:
  assumes "org_step a d d'" "org_good d" "get_membership d' o' v = Some m" "mem_role m = Owner"
    "\<forall>m0. get_membership d o' v = Some m0 \<longrightarrow> mem_role m0 \<noteq> Owner"
  shows "(\<exists>x. get_membership d o' a = Some x \<and> mem_role x = Owner) \<or> (o' \<notin> org_id ` set (orgs d) \<and> v = a)"
  using owner_by_grant [OF assms(1-4)] assms(5) by blast

theorem ownership_only_by_owner_witness:
  "org_step 1 team_db0 team_db \<and> map_option mem_role (get_membership team_db 7 1) = Some Owner
   \<and> ((\<exists>x. get_membership team_db0 7 1 = Some x \<and> mem_role x = Owner) \<or> (7 \<notin> org_id ` set (orgs team_db0) \<and> (1 :: uuid) = 1))"
proof -
  have m: "map_option mem_role (get_membership team_db 7 1) = Some Owner" by code_simp
  then obtain m where m': "get_membership team_db 7 1 = Some m" "mem_role m = Owner" by auto
  have n: "\<forall>m0. get_membership team_db0 7 1 = Some m0 \<longrightarrow> mem_role m0 \<noteq> Owner"
    by (simp add: get_membership_def row_get_def team_db0_def seed_db_def empty_db_def)
  from m ownership_only_by_owner [OF team_runs(1) team_good(1) m' n] team_runs(1) show ?thesis by blast
qed

text \<open>Seat caps hold: with the limits of the organization's tier before the step, no step brings the number of
  editors (owners, admins, members) above the greater of the editor limit and the number before, and the same for
  viewers. An organization over its limits (after a downgrade) may only shrink.\<close>

theorem seat_caps:
  assumes "org_step a d d'" "org_good d" "row_get org_id o' (orgs d) = Some x" "tier_get d (org_sku x) = Inr t"
  shows "(case tier_editor_limit t of None \<Rightarrow> True | Some n \<Rightarrow>
       int (seat_count d' o' None (\<lambda>r. r \<noteq> Viewer)) \<le> max n (int (seat_count d o' None (\<lambda>r. r \<noteq> Viewer))))
   \<and> (case tier_viewer_limit t of None \<Rightarrow> True | Some n \<Rightarrow>
       int (seat_count d' o' None (\<lambda>r. r = Viewer)) \<le> max n (int (seat_count d o' None (\<lambda>r. r = Viewer))))"
  using seat_count_kept [OF assms] by (auto split: option.splits)

text \<open>C31: An invite admits once and only whom it names: if an accept succeeds, the invite was pending and not expired,
  its address is the user's (up to case), the user is then a member with the role it names unless a member already,
  and after any further steps every accept of the same token, by anyone and at any time, is refused with 400 and
  changes nothing.\<close>

theorem invite_single_use:
  assumes "accept_invite hash mid u raw_token now d = (Inr m, d1)" "org_good d" "org_run d1 d2"
  shows "(\<exists>i. row_get ivt_token_hash (hash raw_token) (invites d) = Some i \<and> ivt_status i = InvPending
       \<and> now \<le> ivt_expires_at i \<and> lower (ivt_email i) = lower (user_email u)
       \<and> get_membership d1 (ivt_org i) (user_id u) = Some m
       \<and> (get_membership d (ivt_org i) (user_id u) = None \<longrightarrow> mem_role m = ivt_role i)
       \<and> (\<forall>m0. get_membership d (ivt_org i) (user_id u) = Some m0 \<longrightarrow> m = m0))
     \<and> accept_invite hash mid2 v raw_token later d2 = (Inl (HTTPError 400 ''Invite is no longer pending''), d2)"
proof -
  have "\<exists>i. row_get ivt_token_hash (hash raw_token) (invites d) = Some i \<and> ivt_status i = InvPending
      \<and> now \<le> ivt_expires_at i \<and> join_by_invite mid u i now d = Inr (m, d1)"
    using assms(1) by (cases rule: accept_cases) auto
  then obtain i where i: "row_get ivt_token_hash (hash raw_token) (invites d) = Some i" "ivt_status i = InvPending"
    "now \<le> ivt_expires_at i" and j: "join_by_invite mid u i now d = Inr (m, d1)" by blast
  from row_get_Some [OF i(1)] have mem: "i \<in> set (invites d)" "ivt_token_hash i = hash raw_token" by auto
  have good1: "org_good d1" using org_good_step [OF org_step.accept [OF assms(1)] assms(2)] .
  have "accepted u now i \<in> set (invites d1)"
    using j mem(1) by (cases rule: join_Inr) (auto simp: set_row_upd accepted_def)
  then have "row_get ivt_token_hash (hash raw_token) (invites d1) = Some (accepted u now i)"
    using row_get_unique [of ivt_token_hash "invites d1" "accepted u now i"] good1 mem(2)
    by (simp add: org_good_def accepted_def)
  from spent_invite [OF assms(3) good1 this] obtain i' where
    "row_get ivt_token_hash (hash raw_token) (invites d2) = Some i'" "ivt_status i' \<noteq> InvPending"
    by (auto simp: accepted_def)
  moreover have "lower (ivt_email i) = lower (user_email u) \<and> get_membership d1 (ivt_org i) (user_id u) = Some m
     \<and> (get_membership d (ivt_org i) (user_id u) = None \<longrightarrow> mem_role m = ivt_role i)
     \<and> (\<forall>m0. get_membership d (ivt_org i) (user_id u) = Some m0 \<longrightarrow> m = m0)"
    using j by (cases rule: join_Inr) (auto simp: get_membership_def row_get_append)
  ultimately show ?thesis using i by (simp add: accept_invite_def)
qed

theorem invite_single_use_witness:
  "let x = accept_invite ((#) CHR ''h'') 71 (team_user 2) ''2'' 1003 invited_db in
   (\<exists>m. fst x = Inr m \<and> mem_role m = Member)
   \<and> accept_invite ((#) CHR ''h'') 72 (team_user 3) ''2'' 1004 joined_db = (Inl (HTTPError 400 ''Invite is no longer pending''), joined_db)"
proof -
  have "(case accept_invite ((#) CHR ''h'') 71 (team_user 2) ''2'' 1003 invited_db of (Inl _, _) \<Rightarrow> False | (Inr m, _) \<Rightarrow> mem_role m = Member)"
    by code_simp
  then obtain m where m: "accept_invite ((#) CHR ''h'') 71 (team_user 2) ''2'' 1003 invited_db = (Inr m, joined_db)" "mem_role m = Member"
    unfolding joined_db_def by (auto split: prod.splits sum.splits)
  have "org_good invited_db" using org_run_good [OF team_runs(4)] org_run_good [OF team_runs(2) team_good(1)] by blast
  moreover have "org_run joined_db joined_db" by (simp add: org_run_def)
  ultimately show ?thesis using invite_single_use [OF m(1), of joined_db] m by (auto simp: Let_def)
qed

text \<open>No lock is held while an owner leaves. When two owners leave at the same time, each check still counts the other,
  and the organization is left without an owner.\<close>

definition two_owners_db :: db where
  "two_owners_db = db_of (change_role 7 (team_user 1) 2 Owner 1005 joined_db)"

lemma concurrent_leave_orphans:
  "case (leave_check 7 (team_user 1) two_owners_db, leave_check 7 (team_user 2) two_owners_db) of
     (Inr m1, Inr m2) \<Rightarrow> count_owners (leave_commit 7 (team_user 2) m2 (leave_commit 7 (team_user 1) m1 two_owners_db)) 7 = 0
   | _ \<Rightarrow> False"
  by code_simp

text \<open>A revocation does not look at the status of the invite.\<close>

lemma revoke_rewrites_accepted:
  "map_option ivt_status (row_get ivt_id 90 (invites joined_db)) = Some InvAccepted
   \<and> (case revoke_invite 7 (team_user 1) 90 2000 joined_db of Inl _ \<Rightarrow> False
      | Inr d \<Rightarrow> map_option ivt_status (row_get ivt_id 90 (invites d)) = Some InvRevoked)"
  by code_simp

end
