(* ===== verification/BillingCore.thy ===== *)
theory BillingCore
  imports SkuTier InvoiceMath
begin

text \<open>
  The subscription of an organization inside a transaction (the part of \<open>services/billing.py\<close> the
  invoice service calls): its status machine \<open>_transition\<close>, and \<open>activate_from_invoice\<close>, which puts
  the organization on the tier of a paid invoice for the period of that invoice. The \<open>save_\<close>
  functions write back the attributes of a row the session has loaded.
\<close>

subsection \<open>Writing rows back\<close>

definition save_org :: "organization \<Rightarrow> db \<Rightarrow> db" where
  "save_org r d = d\<lparr>orgs := row_upd org_id (org_id r) (\<lambda>_. r) (orgs d)\<rparr>"

definition save_invoice :: "invoice \<Rightarrow> db \<Rightarrow> db" where
  "save_invoice r d = d\<lparr>invoices := row_upd inv_id (inv_id r) (\<lambda>_. r) (invoices d)\<rparr>"

definition save_request :: "sub_request \<Rightarrow> db \<Rightarrow> db" where
  "save_request r d = d\<lparr>requests := row_upd req_id (req_id r) (\<lambda>_. r) (requests d)\<rparr>"

definition save_sub :: "subscription \<Rightarrow> db \<Rightarrow> db" where
  "save_sub r d = d\<lparr>subs := row_upd sub_org (sub_org r) (\<lambda>_. r) (subs d)\<rparr>"

definition save_attempt :: "payment_attempt \<Rightarrow> db \<Rightarrow> db" where
  "save_attempt r d = d\<lparr>attempts := row_upd att_id (att_id r) (\<lambda>_. r) (attempts d)\<rparr>"

lemma save_org_simps [simp]:
  "orgs (save_org r d) = row_upd org_id (org_id r) (\<lambda>_. r) (orgs d)" "invoices (save_org r d) = invoices d"
  "subs (save_org r d) = subs d" "attempts (save_org r d) = attempts d" "tiers (save_org r d) = tiers d"
  "redemptions (save_org r d) = redemptions d" "requests (save_org r d) = requests d"
  "promos (save_org r d) = promos d" "events (save_org r d) = events d" "catalog (save_org r d) = catalog d"
  by (simp_all add: save_org_def)

lemma save_invoice_simps [simp]:
  "invoices (save_invoice r d) = row_upd inv_id (inv_id r) (\<lambda>_. r) (invoices d)" "orgs (save_invoice r d) = orgs d"
  "subs (save_invoice r d) = subs d" "attempts (save_invoice r d) = attempts d" "tiers (save_invoice r d) = tiers d"
  "redemptions (save_invoice r d) = redemptions d" "requests (save_invoice r d) = requests d"
  "promos (save_invoice r d) = promos d" "events (save_invoice r d) = events d"
  "catalog (save_invoice r d) = catalog d"
  by (simp_all add: save_invoice_def)

lemma save_request_simps [simp]:
  "requests (save_request r d) = row_upd req_id (req_id r) (\<lambda>_. r) (requests d)"
  "invoices (save_request r d) = invoices d" "orgs (save_request r d) = orgs d"
  "subs (save_request r d) = subs d" "attempts (save_request r d) = attempts d" "tiers (save_request r d) = tiers d"
  "redemptions (save_request r d) = redemptions d" "promos (save_request r d) = promos d"
  "events (save_request r d) = events d" "catalog (save_request r d) = catalog d"
  by (simp_all add: save_request_def)

lemma save_sub_simps [simp]:
  "subs (save_sub r d) = row_upd sub_org (sub_org r) (\<lambda>_. r) (subs d)" "invoices (save_sub r d) = invoices d"
  "orgs (save_sub r d) = orgs d" "attempts (save_sub r d) = attempts d" "tiers (save_sub r d) = tiers d"
  "redemptions (save_sub r d) = redemptions d" "requests (save_sub r d) = requests d"
  "promos (save_sub r d) = promos d" "events (save_sub r d) = events d" "catalog (save_sub r d) = catalog d"
  by (simp_all add: save_sub_def)

lemma save_attempt_simps [simp]:
  "attempts (save_attempt r d) = row_upd att_id (att_id r) (\<lambda>_. r) (attempts d)"
  "invoices (save_attempt r d) = invoices d" "orgs (save_attempt r d) = orgs d"
  "subs (save_attempt r d) = subs d" "tiers (save_attempt r d) = tiers d"
  "redemptions (save_attempt r d) = redemptions d" "requests (save_attempt r d) = requests d"
  "promos (save_attempt r d) = promos d" "events (save_attempt r d) = events d"
  "catalog (save_attempt r d) = catalog d"
  by (simp_all add: save_attempt_def)

lemma record_tier_assignment_simps [simp]:
  "orgs (record_tier_assignment u c p a s now d) = orgs d"
  "invoices (record_tier_assignment u c p a s now d) = invoices d"
  "subs (record_tier_assignment u c p a s now d) = subs d"
  "attempts (record_tier_assignment u c p a s now d) = attempts d"
  "tiers (record_tier_assignment u c p a s now d) = tiers d"
  "redemptions (record_tier_assignment u c p a s now d) = redemptions d"
  "requests (record_tier_assignment u c p a s now d) = requests d"
  "promos (record_tier_assignment u c p a s now d) = promos d"
  "events (record_tier_assignment u c p a s now d) = events d"
  "catalog (record_tier_assignment u c p a s now d) = catalog d"
  by (simp_all add: record_tier_assignment_def)

lemma row_get_save:
  "key r = k' \<Longrightarrow> row_get key k (row_upd key k' (\<lambda>_. r) rows) =
     (if k = k' then map_option (\<lambda>_. r) (row_get key k rows) else row_get key k rows)"
  by (induction rows) (auto simp: row_get_def row_upd_def)

subsection \<open>The subscription\<close>

fun sub_status_name :: "sub_status \<Rightarrow> string" where
  "sub_status_name Incomplete = ''incomplete''"
| "sub_status_name Active = ''active''"
| "sub_status_name PastDue = ''past_due''"
| "sub_status_name Canceled = ''canceled''"

fun allowed_transitions :: "sub_status \<Rightarrow> sub_status list" where
  "allowed_transitions Incomplete = [Active, Canceled]"
| "allowed_transitions Active = [PastDue, Canceled]"
| "allowed_transitions PastDue = [Active, Canceled]"
| "allowed_transitions Canceled = [Active]"

definition transition :: "subscription \<Rightarrow> sub_status \<Rightarrow> datetime \<Rightarrow> subscription result" where
  "transition sub new_status now =
     (if sub_status sub = new_status then Inr sub
      else if new_status \<notin> set (allowed_transitions (sub_status sub))
      then Inl (BillingTransitionError (''subscription cannot move from ''
        @ sub_status_name (sub_status sub) @ '' to '' @ sub_status_name new_status))
      else Inr (sub\<lparr>sub_status := new_status, sub_updated_at := now\<rparr>))"

definition cycle_for :: "datetime option \<Rightarrow> datetime option \<Rightarrow> cycle" where
  "cycle_for start end = (case (start, end) of
     (Some s, Some e) \<Rightarrow> if days_of (e - s) > 40 then Annual else Monthly
   | _ \<Rightarrow> Monthly)"

definition get_or_create_subscription :: "uuid \<Rightarrow> organization \<Rightarrow> datetime \<Rightarrow> db \<Rightarrow> subscription \<times> db" where
  "get_or_create_subscription sid r now d =
     (case get_sub d (org_id r) of
        Some sub \<Rightarrow> (sub, d)
      | None \<Rightarrow> (let sub = \<lparr>sub_id = sid, sub_org = org_id r,
            sub_sku = (if org_sku r = [] then ''basic'' else org_sku r),
            sub_status = Incomplete, sub_cycle = Monthly, sub_period_start = None,
            sub_period_end = None, sub_cancel_at_period_end = False, sub_cancel_note = [],
            sub_canceled_at = None, sub_ended_at = None, sub_provider = ''manual'',
            sub_provider_ref = None, sub_created_at = now, sub_updated_at = now\<rparr>
          in (sub, d\<lparr>subs := subs d @ [sub]\<rparr>)))"

definition retired :: "sku_tier \<Rightarrow> organization option \<Rightarrow> sku \<Rightarrow> bool" where
  "retired t r code \<longleftrightarrow> \<not> tier_active t \<and> (case r of None \<Rightarrow> True | Some r \<Rightarrow> org_sku r \<noteq> code)"

definition activated_sub :: "invoice \<Rightarrow> string \<Rightarrow> string option \<Rightarrow> datetime \<Rightarrow> subscription \<Rightarrow> subscription" where
  "activated_sub i provider provider_ref now sub =
     sub\<lparr>sub_sku := inv_sku i, sub_cycle := cycle_for (Some (inv_period_start i)) (Some (inv_period_end i)),
       sub_period_start := Some (inv_period_start i), sub_period_end := Some (inv_period_end i),
       sub_cancel_at_period_end := False, sub_canceled_at := None, sub_ended_at := None,
       sub_provider := (if provider = [] then sub_provider sub else provider),
       sub_provider_ref := or_str provider_ref (sub_provider_ref sub), sub_updated_at := now\<rparr>"

definition activate_from_invoice ::
    "uuid \<Rightarrow> invoice \<Rightarrow> string \<Rightarrow> string option \<Rightarrow> datetime \<Rightarrow> db \<Rightarrow> (subscription \<times> db) result" where
  "activate_from_invoice sid i provider provider_ref now d =
     ebind (get_or (HTTPError 404 ''Organization not found'') (get_org d (inv_org i))) (\<lambda>r.
     ebind (if inv_product i = Scan then
              ebind (tier_get d (inv_sku i)) (\<lambda>t.
              ebind (raise_if (retired t (Some r) (inv_sku i)) (HTTPError 409 ''Tier is retired'')) (\<lambda>_.
              Inr (r\<lparr>org_sku := inv_sku i, org_updated_at := now\<rparr>)))
            else Inr r) (\<lambda>r'.
     let (sub, d1) = get_or_create_subscription sid r' now (save_org r' d) in
     ebind (transition sub Active now) (\<lambda>sub'.
     let sub'' = activated_sub i provider provider_ref now sub' in
     Inr (sub'', save_sub sub'' d1))))"

lemma transition_Inr: "transition sub s now = Inr sub' \<Longrightarrow>
    sub_status sub' = s \<and> sub_org sub' = sub_org sub \<and> sub_id sub' = sub_id sub
    \<and> (sub_status sub = s \<or> s \<in> set (allowed_transitions (sub_status sub)))"
  by (auto simp: transition_def split: if_splits)

lemma transition_active: "\<exists>sub'. transition sub Active now = Inr sub'"
  by (cases "sub_status sub") (auto simp: transition_def)

lemma get_or_create_Pair:
  assumes "get_or_create_subscription sid r now d = (sub, d')"
  shows "sub_org sub = org_id r" "get_sub d' (org_id r) = Some sub"
    "orgs d' = orgs d" "invoices d' = invoices d" "attempts d' = attempts d" "redemptions d' = redemptions d"
    "requests d' = requests d" "tiers d' = tiers d" "promos d' = promos d" "events d' = events d"
    "catalog d' = catalog d"
    "k \<noteq> org_id r \<Longrightarrow> get_sub d' k = get_sub d k"
  using assms row_get_Some [of sub_org "org_id r" "subs d"]
  by (auto simp: get_or_create_subscription_def Let_def row_get_append split: option.splits)

text \<open>What an activation leaves: the subscription is active on the tier and period of the invoice, the
  organization is on that tier (for the scan product), and nothing else moves.\<close>

lemma activate_Inr:
  assumes "activate_from_invoice sid i provider provider_ref now d = Inr (sub, d')"
  shows "get_sub d' (inv_org i) = Some sub" "sub_status sub = Active" "sub_sku sub = inv_sku i"
    "sub_period_start sub = Some (inv_period_start i)" "sub_period_end sub = Some (inv_period_end i)"
    "\<not> sub_cancel_at_period_end sub" "sub_org sub = inv_org i"
    "\<And>k. k \<noteq> inv_org i \<Longrightarrow> get_sub d' k = get_sub d k \<and> get_org d' k = get_org d k"
    "\<exists>r. get_org d' (inv_org i) = Some r \<and> (inv_product i = Scan \<longrightarrow> org_sku r = inv_sku i)"
    "invoices d' = invoices d" "attempts d' = attempts d" "redemptions d' = redemptions d"
    "requests d' = requests d" "tiers d' = tiers d" "promos d' = promos d" "events d' = events d"
    "catalog d' = catalog d"
proof -
  obtain r r' where r: "get_org d (inv_org i) = Some r"
    and r0: "(if inv_product i = Scan then
              ebind (tier_get d (inv_sku i)) (\<lambda>t.
              ebind (raise_if (retired t (Some r) (inv_sku i)) (HTTPError 409 ''Tier is retired'')) (\<lambda>_.
              Inr (r\<lparr>org_sku := inv_sku i, org_updated_at := now\<rparr>)))
            else Inr r) = Inr r'"
    and rest: "(let (sub, d1) = get_or_create_subscription sid r' now (save_org r' d) in
     ebind (transition sub Active now) (\<lambda>sub'.
     let sub'' = activated_sub i provider provider_ref now sub' in
     Inr (sub'', save_sub sub'' d1))) = Inr (sub, d')"
    using assms unfolding activate_from_invoice_def ebind_eq_Inr [of "get_or _ _"] get_or_Inr
      ebind_eq_Inr [of "if _ then _ else _"] by blast
  have r': "org_id r' = org_id r" "inv_product i = Scan \<longrightarrow> org_sku r' = inv_sku i"
    using r0 by (auto simp: ebind_eq_Inr split: if_splits)
  obtain s d1 where s: "get_or_create_subscription sid r' now (save_org r' d) = (s, d1)" by fastforce
  then obtain s' where s': "transition s Active now = Inr s'"
    and sub: "activated_sub i provider provider_ref now s' = sub" "save_sub sub d1 = d'"
    using rest by (auto simp: ebind_eq_Inr Let_def)
  have id: "org_id r' = inv_org i" using row_get_Some [OF r] r'(1) by simp
  note g = get_or_create_Pair [OF s]
  have so: "sub_org sub = inv_org i" "sub_status sub = Active"
    using transition_Inr [OF s'] g(1) id sub(1) by (auto simp: activated_sub_def)
  show "sub_org sub = inv_org i" "sub_status sub = Active" by (rule so)+
  show "sub_sku sub = inv_sku i" "sub_period_start sub = Some (inv_period_start i)"
    "sub_period_end sub = Some (inv_period_end i)" "\<not> sub_cancel_at_period_end sub"
    by (simp_all add: activated_sub_def flip: sub(1))
  show "get_sub d' (inv_org i) = Some sub"
    using g(2) id so by (simp add: row_get_save flip: sub(2))
  show "get_sub d' k = get_sub d k \<and> get_org d' k = get_org d k" if "k \<noteq> inv_org i" for k
    using that g(3,12) id so by (simp add: row_get_save flip: sub(2))
  show "\<exists>r. get_org d' (inv_org i) = Some r \<and> (inv_product i = Scan \<longrightarrow> org_sku r = inv_sku i)"
    using g(3) id r r'(2) by (simp add: row_get_save flip: sub(2))
  show "invoices d' = invoices d" "attempts d' = attempts d" "redemptions d' = redemptions d"
    "requests d' = requests d" "tiers d' = tiers d" "promos d' = promos d" "events d' = events d"
    "catalog d' = catalog d"
    using g by (simp_all flip: sub(2))
qed

end
