(* ===== verification/Invoice.thy ===== *)
theory Invoice
  imports Promo BillingCore
begin

text \<open>
  Invoices (\<open>services/invoice.py\<close>): the catalog, \<open>create_invoice\<close> with its retry loop, and the
  transitions \<open>send\<close>, \<open>mark_paid\<close> and \<open>void\<close>.

  A transaction of \<open>create\<close> holds the row lock of the organization, so it is one step on the
  database. Between two attempts of the retry loop other transactions may commit: attempt \<open>k\<close> sees
  the database \<open>world k\<close>. The ids an attempt draws are a record of its own (\<open>fresh_ids\<close>).
\<close>

record settings =
  invoice_default_term_days :: int
  midtrans_verify_status :: bool

record fresh_ids =
  fresh_invoice :: uuid
  fresh_redemption :: uuid
  fresh_attempt :: uuid
  fresh_sub :: uuid

record invoice_args =
  arg_org :: uuid
  arg_sku :: sku
  arg_actor :: uuid
  arg_product :: product
  arg_period_start :: "pydatetime option"
  arg_due_date :: "pydatetime option"
  arg_cycle :: cycle
  arg_notes :: string
  arg_promo_code :: "string option"
  arg_request :: "uuid option"

subsection \<open>Numbers\<close>

definition number_prefix :: "datetime \<Rightarrow> string" where
  "number_prefix t = ''SX-'' @ zpad 4 (nat (year_of t)) @ zpad 2 (nat (month_of t)) @ ''-''"

definition next_invoice_number :: "db \<Rightarrow> datetime \<Rightarrow> string" where
  "next_invoice_number d period_start =
     (let prefix = number_prefix period_start;
          n = count_where (\<lambda>i. starts_with prefix (inv_number i)) (invoices d) + 1
      in prefix @ zpad 4 n)"

subsection \<open>The catalog\<close>

definition list_catalog :: "db \<Rightarrow> catalog_row list" where
  "list_catalog d = sort_key cat_product (sort_key cat_sku (catalog d))"

definition list_catalog_with_actors :: "db \<Rightarrow> (catalog_row \<times> string option) list" where
  "list_catalog_with_actors d = map (\<lambda>r. (r, case cat_updated_by r of None \<Rightarrow> None
     | Some u \<Rightarrow> map_option user_email (row_get user_id u (users d)))) (list_catalog d)"

definition update_catalog ::
    "product \<Rightarrow> sku \<Rightarrow> int \<Rightarrow> bool option \<Rightarrow> uuid option \<Rightarrow> datetime \<Rightarrow> db \<Rightarrow> (catalog_row \<times> db) result" where
  "update_catalog p code list_idr invoicable actor now d =
     ebind (scalar_one_or_none (filter (\<lambda>r. cat_product r = p \<and> cat_sku r = code) (catalog d))) (\<lambda>found.
     ebind (get_or (HTTPError 404 ''Catalog row not found'') found) (\<lambda>r.
     let ch = (if cat_list_idr r \<noteq> list_idr
               then [(price_field p ''list_idr'', JInt (cat_list_idr r), JInt list_idr)] else [])
           @ (case invoicable of None \<Rightarrow> [] | Some v \<Rightarrow> if cat_invoicable r \<noteq> v
               then [(price_field p ''invoicable'', JBool (cat_invoicable r), JBool v)] else []);
         r' = r\<lparr>cat_list_idr := list_idr, cat_invoicable := or_else invoicable (cat_invoicable r),
               cat_updated_at := now, cat_updated_by := actor\<rparr>;
         d1 = d\<lparr>catalog := map (\<lambda>x. if cat_product x = p \<and> cat_sku x = code then r' else x) (catalog d)\<rparr> in
     ebind (raise_if (\<not> catalog_ok r') IntegrityError) (\<lambda>_.
     Inr (r', if ch = [] then d1 else log_tier code ''price_updated'' actor ch now d1))))"

subsection \<open>Creation\<close>

definition promo_given :: "invoice_args \<Rightarrow> string option" where   \<comment> \<open>an empty code is falsy\<close>
  "promo_given a = (case arg_promo_code a of Some (c # s) \<Rightarrow> Some (c # s) | _ \<Rightarrow> None)"

definition due_of :: "settings \<Rightarrow> invoice_args \<Rightarrow> billing_profile option \<Rightarrow> datetime \<Rightarrow> datetime" where
  "due_of cfg a profile start = (case arg_due_date a of
     Some t \<Rightarrow> as_utc t
   | None \<Rightarrow> start + max 0 (case profile of None \<Rightarrow> invoice_default_term_days cfg
       | Some p \<Rightarrow> prof_terms_days p) * day_us)"

definition quote_for :: "invoice_args \<Rightarrow> int \<Rightarrow> datetime \<Rightarrow> db \<Rightarrow> promo_quote option result" where
  "quote_for a base_list_idr now d = (case promo_given a of
     None \<Rightarrow> Inr None
   | Some code \<Rightarrow> ebind (lock_and_quote d code \<lparr>pur_product = arg_product a, pur_sku = arg_sku a,
         pur_cycle = arg_cycle a, pur_base_idr = base_list_idr, pur_org = arg_org a\<rparr> now)
       (\<lambda>q. Inr (Some q)))"

definition check_request :: "invoice_args \<Rightarrow> db \<Rightarrow> unit result" where
  "check_request a d = (case arg_request a of
     None \<Rightarrow> Inr ()
   | Some rid \<Rightarrow>
       ebind (get_or (HTTPError 404 ''Subscription request not found'') (get_request d rid)) (\<lambda>r.
       ebind (raise_if (req_org r \<noteq> arg_org a) (HTTPError 404 ''Subscription request not found'')) (\<lambda>_.
       ebind (raise_if (req_status r \<notin> {RPending, RApproved})
         (HTTPError 409 ''Subscription request cannot be consumed'')) (\<lambda>_.
       ebind (raise_if (list_ex (\<lambda>i. inv_request i = Some rid \<and> inv_status i \<noteq> Void) (invoices d))
         (HTTPError 409 ''Subscription request already has an invoice'')) (\<lambda>_.
       raise_if (list_ex (\<lambda>x. red_request x = Some rid) (redemptions d))
         (HTTPError 409 ''Subscription request was already used for a promo redemption''))))))"

definition clashing :: "db \<Rightarrow> uuid \<Rightarrow> product \<Rightarrow> datetime \<Rightarrow> datetime \<Rightarrow> invoice list" where
  "clashing d organization p start end = filter (\<lambda>i. inv_org i = organization \<and> inv_product i = p
     \<and> inv_status i \<noteq> Void \<and> inv_period_start i \<le> end \<and> start \<le> inv_period_end i) (invoices d)"

definition draft_invoice ::
    "fresh_ids \<Rightarrow> invoice_args \<Rightarrow> string \<Rightarrow> string option \<Rightarrow> price \<Rightarrow> datetime \<Rightarrow> datetime \<Rightarrow> datetime
     \<Rightarrow> datetime \<Rightarrow> invoice" where
  "draft_invoice ids a number code p start end due now =
     \<lparr>inv_id = fresh_invoice ids, inv_org = arg_org a, inv_number = number,
      inv_product = arg_product a, inv_sku = arg_sku a, inv_request = arg_request a,
      inv_amount_idr = pr_amount p, inv_discount_idr = pr_discount p, inv_promo_code = code,
      inv_dpp_idr = pr_dpp p, inv_ppn_idr = pr_ppn p, inv_pph23_idr = pr_pph23 p,
      inv_total_idr = pr_total p, inv_period_start = start, inv_period_end = end,
      inv_due_date = due, inv_sent_at = None, inv_status = Draft, inv_bank_ref = None,
      inv_notes = take 500 (arg_notes a), inv_paid_at = None,
      inv_created_by = Some (arg_actor a), inv_created_at = now, inv_updated_at = now\<rparr>"

definition consume_request :: "invoice_args \<Rightarrow> string \<Rightarrow> datetime \<Rightarrow> db \<Rightarrow> db result" where
  "consume_request a number now d = (case arg_request a of
     None \<Rightarrow> Inr d
   | Some rid \<Rightarrow>
       ebind (get_or (HTTPError 404 ''Subscription request not found'') (get_request d rid)) (\<lambda>r.
       Inr (save_request (r\<lparr>req_status := RApproved, req_resolved_by := Some (arg_actor a),
         req_resolved_at := Some now,
         req_resolution_note := take 500 (if req_resolution_note r = [] then ''Invoiced as '' @ number
           else req_resolution_note r @ '' | Invoiced as '' @ number),
         req_updated_at := now\<rparr>) d)))"

definition redeem_quote ::
    "fresh_ids \<Rightarrow> invoice_args \<Rightarrow> promo_quote option \<Rightarrow> datetime \<Rightarrow> db \<Rightarrow> db result" where
  "redeem_quote ids a quote now d = (case quote of
     None \<Rightarrow> Inr d
   | Some q \<Rightarrow> ebind (record_redemption (fresh_redemption ids) q (fresh_invoice ids) (arg_actor a)
         (arg_request a) now d) (\<lambda>(r, d'). Inr d'))"

definition promo_attempt :: "fresh_ids \<Rightarrow> invoice_args \<Rightarrow> datetime \<Rightarrow> payment_attempt" where
  "promo_attempt ids a now = \<lparr>att_id = fresh_attempt ids, att_org = arg_org a,
     att_subscription = None, att_invoice = Some (fresh_invoice ids), att_provider = ''promo'',
     att_provider_ref = None, att_order_id = None, att_payment_id = None, att_token = None,
     att_checkout_url = None, att_expires_at = None, att_provider_status = None, att_seq = None,
     att_created_by = Some (arg_actor a), att_amount_idr = 0, att_currency = ''IDR'',
     att_status = ASucceeded, att_method = Some ''promo'', att_failure_code = None,
     att_failure_message = None, att_fee_idr = 0, att_refunded_idr = 0, att_next_retry_at = None,
     att_succeeded_at = Some now, att_failed_at = None, att_created_at = now, att_updated_at = now\<rparr>"

text \<open>An invoice of nothing is paid on the spot.\<close>

definition settle_free ::
    "fresh_ids \<Rightarrow> invoice_args \<Rightarrow> promo_quote option \<Rightarrow> invoice \<Rightarrow> datetime \<Rightarrow> db \<Rightarrow> (invoice \<times> db) result" where
  "settle_free ids a quote i now d =
     (if inv_total_idr i \<noteq> 0 then Inr (i, d)
      else let i' = i\<lparr>inv_status := Paid, inv_paid_at := Some now, inv_updated_at := now\<rparr>;
               d1 = save_invoice i' d in
        ebind (if arg_product a = Scan then
                 ebind (activate_from_invoice (fresh_sub ids) i' ''promo''
                   (Some (case quote of None \<Rightarrow> ''promo''
                          | Some q \<Rightarrow> ''promo:'' @ promo_code (quote_promo q))) now d1) (\<lambda>(s, d2). Inr d2)
               else Inr d1) (\<lambda>d2.
        ebind (insert_attempt (promo_attempt ids a now) d2) (\<lambda>d3.
        Inr (i', d3))))"

text \<open>The body of a creation once the catalog row and the period are known.\<close>

definition create_for_period ::
    "settings \<Rightarrow> fresh_ids \<Rightarrow> invoice_args \<Rightarrow> catalog_row \<Rightarrow> datetime \<Rightarrow> datetime \<Rightarrow> datetime \<Rightarrow> db
     \<Rightarrow> (invoice \<times> db) result" where
  "create_for_period cfg ids a cat start end now d =
    (let profile = row_get prof_org (arg_org a) (profiles d); due = due_of cfg a profile start in
     ebind (raise_if (arg_cycle a = Annual \<and> promo_given a \<noteq> None)
       (HTTPError 400 ''Promo codes cannot be applied to annual invoices'')) (\<lambda>_.
     ebind (quote_for a (cat_list_idr cat) now d) (\<lambda>quote.
     ebind (check_request a d) (\<lambda>_.
     ebind (scalar_one_or_none (clashing d (arg_org a) (arg_product a) start end)) (\<lambda>clash.
     ebind (raise_if (clash \<noteq> None)
       (HTTPError 409 (product_title (arg_product a) @ '' invoice already exists for this period''))) (\<lambda>_.
     let prices = price_breakdown (cat_list_idr cat) (arg_cycle a = Annual)
           (case profile of None \<Rightarrow> False | Some p \<Rightarrow> prof_pkp p = Pkp)
           (case quote of None \<Rightarrow> 0 | Some q \<Rightarrow> quote_discount q);
         number = next_invoice_number d start;
         i = draft_invoice ids a number (map_option (\<lambda>q. promo_code (quote_promo q)) quote) prices
           start end due now in
     ebind (insert_invoice i d) (\<lambda>d1.
     ebind (consume_request a number now d1) (\<lambda>d2.
     ebind (redeem_quote ids a quote now d2) (\<lambda>d3.
     settle_free ids a quote i now d3)))))))))"

definition invoicable_row :: "db \<Rightarrow> product \<Rightarrow> sku \<Rightarrow> catalog_row result" where
  "invoicable_row d p code =
     ebind (scalar_one_or_none (filter (\<lambda>c. cat_product c = p \<and> cat_sku c = code) (catalog d))) (\<lambda>found.
     case found of
       Some c \<Rightarrow> if cat_invoicable c then Inr c else Inl (HTTPError 400 ''SKU is not invoicable'')
     | None \<Rightarrow> Inl (HTTPError 400 ''SKU is not invoicable''))"

definition create_once ::
    "settings \<Rightarrow> fresh_ids \<Rightarrow> invoice_args \<Rightarrow> datetime \<Rightarrow> db \<Rightarrow> (invoice \<times> db) result" where
  "create_once cfg ids a now d =
     ebind (get_or (HTTPError 404 ''Organization not found'') (get_org d (arg_org a))) (\<lambda>r.
     ebind (invoicable_row d (arg_product a) (arg_sku a)) (\<lambda>cat.
     ebind (tier_get d (arg_sku a)) (\<lambda>t.
     ebind (raise_if (retired t (Some r) (arg_sku a)) (HTTPError 400 ''Tier is retired'')) (\<lambda>_.
     ebind (period_bounds_utc (case arg_period_start a of None \<Rightarrow> now | Some t \<Rightarrow> as_utc t) (arg_cycle a))
       (\<lambda>(start, end). create_for_period cfg ids a cat start end now d)))))"

fun create_attempts ::
    "settings \<Rightarrow> (nat \<Rightarrow> fresh_ids) \<Rightarrow> invoice_args \<Rightarrow> (nat \<Rightarrow> datetime) \<Rightarrow> (nat \<Rightarrow> db) \<Rightarrow> nat \<Rightarrow> nat
     \<Rightarrow> (invoice \<times> db) result" where
  "create_attempts cfg ids a clock world k 0 =
     Inl (HTTPError 409 ''Could not allocate a unique invoice number'')"
| "create_attempts cfg ids a clock world k (Suc left) =
     (case create_once cfg (ids k) a (clock k) (world k) of
        Inl IntegrityError \<Rightarrow>
          if left = 0 then Inl (HTTPError 409 ''Could not allocate a unique invoice number'')
          else if row_get user_id (arg_actor a) (users (world (Suc k))) = None
          then Inl (HTTPError 403 ''Acting user no longer exists'')
          else create_attempts cfg ids a clock world (Suc k) left
      | r \<Rightarrow> r)"

definition create_invoice ::
    "settings \<Rightarrow> (nat \<Rightarrow> fresh_ids) \<Rightarrow> invoice_args \<Rightarrow> (nat \<Rightarrow> datetime) \<Rightarrow> (nat \<Rightarrow> db) \<Rightarrow> (invoice \<times> db) result"
    where
  "create_invoice cfg ids a clock world = create_attempts cfg ids a clock world 0 3"

subsection \<open>Transitions\<close>

definition invoice_get :: "db \<Rightarrow> uuid \<Rightarrow> invoice result" where
  "invoice_get d k = get_or (HTTPError 404 ''Invoice not found'') (get_invoice d k)"

definition invoice_send :: "uuid \<Rightarrow> datetime \<Rightarrow> db \<Rightarrow> (invoice \<times> db) result" where
  "invoice_send k now d = ebind (invoice_get d k) (\<lambda>i.
     ebind (raise_if (inv_status i \<noteq> Draft) (HTTPError 409 ''Only draft invoices can be sent'')) (\<lambda>_.
     let i' = i\<lparr>inv_status := Sent, inv_sent_at := Some (or_else (inv_sent_at i) now), inv_updated_at := now\<rparr>
     in Inr (i', save_invoice i' d)))"

definition clean_ref :: "nat \<Rightarrow> string \<Rightarrow> string option" where   \<comment> \<open>\<open>s.strip()[:n] or None\<close>\<close>
  "clean_ref n s = none_if_empty (take n (strip s))"

definition mark_paid_row :: "invoice \<Rightarrow> string option \<Rightarrow> datetime \<Rightarrow> invoice" where
  "mark_paid_row i bank_ref now = i\<lparr>inv_status := Paid, inv_paid_at := Some now,
     inv_bank_ref := (case bank_ref of None \<Rightarrow> inv_bank_ref i | Some s \<Rightarrow> clean_ref 64 s),
     inv_updated_at := now\<rparr>"

definition mark_paid :: "uuid \<Rightarrow> string option \<Rightarrow> datetime \<Rightarrow> db \<Rightarrow> (invoice \<times> db) result" where
  "mark_paid k bank_ref now d = ebind (invoice_get d k) (\<lambda>i.
     ebind (raise_if (inv_status i \<notin> {Draft, Sent}) (HTTPError 409 ''Invoice cannot be marked paid'')) (\<lambda>_.
     let r = (if inv_product i = Scan then get_org d (inv_org i) else None) in
     ebind (if inv_product i = Scan then
              ebind (tier_get d (inv_sku i)) (\<lambda>t.
              raise_if (retired t r (inv_sku i)) (HTTPError 409 ''Tier is retired''))
            else Inr ()) (\<lambda>_.
     let i' = mark_paid_row i bank_ref now;
         d1 = save_invoice i' d;
         d2 = (case r of None \<Rightarrow> d1 | Some r \<Rightarrow>
           save_org (r\<lparr>org_sku := inv_sku i, org_updated_at := now\<rparr>)
             (if org_sku r \<noteq> inv_sku i
              then record_tier_assignment (org_id r) (inv_sku i) (Some (org_sku r)) None
                (Some (''invoice '' @ inv_number i)) now d1
              else d1)) in
     Inr (i', d2))))"

definition invoice_void :: "uuid \<Rightarrow> datetime \<Rightarrow> db \<Rightarrow> (invoice \<times> db) result" where
  "invoice_void k now d = ebind (invoice_get d k) (\<lambda>i.
     ebind (raise_if (inv_status i \<notin> {Draft, Sent})
       (HTTPError 409 ''Only draft or sent invoices can be voided'')) (\<lambda>_.
     let i' = i\<lparr>inv_status := Void, inv_request := None, inv_updated_at := now\<rparr> in
     Inr (i', release_for_invoice k now (save_invoice i' d))))"

definition list_admin ::
    "invoice_status option \<Rightarrow> uuid option \<Rightarrow> nat \<Rightarrow> nat \<Rightarrow> db \<Rightarrow> (invoice \<times> string) list \<times> nat" where
  "list_admin status_filter organization page page_size d =
     (let sel = filter (\<lambda>i. (status_filter = None \<or> status_filter = Some (inv_status i))
            \<and> (organization = None \<or> organization = Some (inv_org i))) (invoices d);
          joined = concat (map (\<lambda>i. case get_org d (inv_org i) of None \<Rightarrow> []
            | Some r \<Rightarrow> [(i, org_name r)]) sel) in
      (page_of page page_size (desc_by (\<lambda>(i, _). inv_created_at i) joined), length sel))"

definition list_org :: "uuid \<Rightarrow> db \<Rightarrow> invoice list" where
  "list_org organization d =
     desc_by inv_created_at (filter (\<lambda>i. inv_org i = organization) (invoices d))"


subsection \<open>What a creation does\<close>

definition paid_free :: "datetime \<Rightarrow> invoice \<Rightarrow> invoice" where
  "paid_free now i = i\<lparr>inv_status := Paid, inv_paid_at := Some now, inv_updated_at := now\<rparr>"

lemma settle_free_Inr:
  assumes "settle_free ids a quote i now d = Inr (i', d')"
  shows "i' = (if inv_total_idr i = 0 then paid_free now i else i)"
    and "invoices d' = (if inv_total_idr i = 0 then row_upd inv_id (inv_id i) (\<lambda>_. i') (invoices d) else invoices d)"
    and "redemptions d' = redemptions d" "promos d' = promos d" "requests d' = requests d"
    "tiers d' = tiers d" "catalog d' = catalog d" "events d' = events d"
proof -
  have "i' = (if inv_total_idr i = 0 then paid_free now i else i)
    \<and> invoices d' = (if inv_total_idr i = 0 then row_upd inv_id (inv_id i) (\<lambda>_. i') (invoices d) else invoices d)
    \<and> redemptions d' = redemptions d \<and> promos d' = promos d \<and> requests d' = requests d
    \<and> tiers d' = tiers d \<and> catalog d' = catalog d \<and> events d' = events d"
  proof (cases "inv_total_idr i = 0")
    case True
    let ?i = "paid_free now i"
    let ?act = "if arg_product a = Scan then
         ebind (activate_from_invoice (fresh_sub ids) ?i ''promo''
           (Some (case quote of None \<Rightarrow> ''promo'' | Some q \<Rightarrow> ''promo:'' @ promo_code (quote_promo q)))
           now (save_invoice ?i d)) (\<lambda>(s, d2). Inr d2)
       else Inr (save_invoice ?i d)"
    obtain d2 where d2: "?act = Inr d2" and ins: "insert_attempt (promo_attempt ids a now) d2 = Inr d'"
      and i': "i' = ?i"
      using assms True unfolding settle_free_def Let_def paid_free_def
      by (auto simp: ebind_eq_Inr simp del: ebind_Inr)
    have "invoices d2 = invoices (save_invoice ?i d) \<and> redemptions d2 = redemptions d \<and> promos d2 = promos d
      \<and> requests d2 = requests d \<and> tiers d2 = tiers d \<and> catalog d2 = catalog d \<and> events d2 = events d"
    proof (cases "arg_product a = Scan")
      case True
      then obtain s where "activate_from_invoice (fresh_sub ids) ?i ''promo''
           (Some (case quote of None \<Rightarrow> ''promo'' | Some q \<Rightarrow> ''promo:'' @ promo_code (quote_promo q)))
           now (save_invoice ?i d) = Inr (s, d2)"
        using d2 by (auto simp: ebind_eq_Inr)
      from activate_Inr [OF this] show ?thesis by simp
    next
      case False
      then have "d2 = save_invoice ?i d" using d2 by simp
      then show ?thesis by simp
    qed
    moreover have "inv_id ?i = inv_id i" by (simp add: paid_free_def)
    ultimately show ?thesis
      using insert_attempt_Inr [OF ins] True i' by simp
  qed (use assms in \<open>simp add: settle_free_def\<close>)
  then show "i' = (if inv_total_idr i = 0 then paid_free now i else i)"
    and "invoices d' = (if inv_total_idr i = 0 then row_upd inv_id (inv_id i) (\<lambda>_. i') (invoices d) else invoices d)"
    and "redemptions d' = redemptions d" "promos d' = promos d" "requests d' = requests d"
    "tiers d' = tiers d" "catalog d' = catalog d" "events d' = events d" by blast+
qed

lemma consume_request_simps:
  assumes "consume_request a number now d = Inr d'"
  shows "invoices d' = invoices d" "redemptions d' = redemptions d" "promos d' = promos d"
    "tiers d' = tiers d" "catalog d' = catalog d" "events d' = events d"
  using assms by (auto simp: consume_request_def ebind_eq_Inr get_or_Inr split: option.splits)

lemma redeem_quote_Inr:
  assumes "redeem_quote ids a quote now d = Inr d'"
  obtains "quote = None" "d' = d"
  | q r where "quote = Some q"
      "record_redemption (fresh_redemption ids) q (fresh_invoice ids) (arg_actor a) (arg_request a) now d = Inr (r, d')"
  using assms by (cases quote) (auto simp: redeem_quote_def ebind_eq_Inr)

lemma invoicable_row_Inr:
  assumes "invoicable_row d p code = Inr c"
  shows "c \<in> set (catalog d) \<and> cat_product c = p \<and> cat_sku c = code \<and> cat_invoicable c"
proof -
  have "filter (\<lambda>c. cat_product c = p \<and> cat_sku c = code) (catalog d) = [c] \<and> cat_invoicable c"
    using assms by (auto simp: invoicable_row_def ebind_eq_Inr scalar_one_or_none_Some
        split: option.splits if_splits)
  then have "c \<in> set (filter (\<lambda>c. cat_product c = p \<and> cat_sku c = code) (catalog d)) \<and> cat_invoicable c"
    by simp
  then show ?thesis by simp
qed

lemma create_for_period_Inr:
  assumes "create_for_period cfg ids a cat start end now d = Inr (i', d')"
  obtains quote pkp due i d1 d2 d3 where
    "arg_cycle a = Annual \<Longrightarrow> quote = None"
    "quote_for a (cat_list_idr cat) now d = Inr quote"
    "clashing d (arg_org a) (arg_product a) start end = []"
    "i = draft_invoice ids a (next_invoice_number d start) (map_option (\<lambda>q. promo_code (quote_promo q)) quote)
       (price_breakdown (cat_list_idr cat) (arg_cycle a = Annual) pkp
         (case quote of None \<Rightarrow> 0 | Some q \<Rightarrow> quote_discount q)) start end due now"
    "insert_invoice i d = Inr d1" "consume_request a (next_invoice_number d start) now d1 = Inr d2"
    "redeem_quote ids a quote now d2 = Inr d3" "settle_free ids a quote i now d3 = Inr (i', d')"
proof -
  define pkp where "pkp = (case row_get prof_org (arg_org a) (profiles d) of None \<Rightarrow> False
    | Some p \<Rightarrow> prof_pkp p = Pkp)"
  define due where "due = due_of cfg a (row_get prof_org (arg_org a) (profiles d)) start"
  from assms [unfolded create_for_period_def Let_def, folded pkp_def due_def]
  obtain quote clash d1 d2 d3 where q: "\<not> (arg_cycle a = Annual \<and> promo_given a \<noteq> None)"
    "quote_for a (cat_list_idr cat) now d = Inr quote"
    "scalar_one_or_none (clashing d (arg_org a) (arg_product a) start end) = Inr clash" "\<not> clash \<noteq> None"
    "insert_invoice (draft_invoice ids a (next_invoice_number d start)
       (map_option (\<lambda>q. promo_code (quote_promo q)) quote)
       (price_breakdown (cat_list_idr cat) (arg_cycle a = Annual) pkp
           (case quote of None \<Rightarrow> 0 | Some q \<Rightarrow> quote_discount q)) start end due now) d = Inr d1"
    "consume_request a (next_invoice_number d start) now d1 = Inr d2"
    "redeem_quote ids a quote now d2 = Inr d3"
    "settle_free ids a quote (draft_invoice ids a (next_invoice_number d start)
       (map_option (\<lambda>q. promo_code (quote_promo q)) quote)
       (price_breakdown (cat_list_idr cat) (arg_cycle a = Annual) pkp
           (case quote of None \<Rightarrow> 0 | Some q \<Rightarrow> quote_discount q)) start end due now)
       now d3 = Inr (i', d')"
    unfolding ebind_eq_Inr raise_if_Inr by blast
  have "quote = None" if "arg_cycle a = Annual"
    using q(1,2) that by (simp add: quote_for_def)
  moreover have "clashing d (arg_org a) (arg_product a) start end = []"
    using q(3,4) by (simp add: scalar_one_or_none_None)
  ultimately show ?thesis by (rule that [OF _ q(2) _ refl q(5,6,7,8)])
qed

lemma create_once_Inr:
  assumes "create_once cfg ids a now d = Inr (i', d')"
  obtains cat start "end" where
    "cat \<in> set (catalog d)" "cat_product cat = arg_product a" "cat_sku cat = arg_sku a"
    "period_bounds_utc (case arg_period_start a of None \<Rightarrow> now | Some t \<Rightarrow> as_utc t) (arg_cycle a) = Inr (start, end)"
    "create_for_period cfg ids a cat start end now d = Inr (i', d')"
  using assms invoicable_row_Inr [of d "arg_product a" "arg_sku a"]
  unfolding create_once_def ebind_eq_Inr [of "get_or _ _"] ebind_eq_Inr [of "invoicable_row _ _ _"]
    ebind_eq_Inr [of "tier_get _ _"] ebind_eq_Inr [of "raise_if _ _"] ebind_eq_Inr [of "period_bounds_utc _ _"]
  by (elim exE conjE) (auto split: prod.splits)


lemma row_upd_append: "k \<notin> key ` set rows \<Longrightarrow> key r = k \<Longrightarrow> row_upd key k (\<lambda>_. x) (rows @ [r]) = rows @ [x]"
  using row_upd_absent [of k key rows "\<lambda>_. x"] by (simp add: row_upd_def)

lemma create_once_tables:
  assumes "create_once cfg ids a now d = Inr (i', d')"
  obtains base start "end" quote pkp due i rs where
    "period_bounds_utc (case arg_period_start a of None \<Rightarrow> now | Some t \<Rightarrow> as_utc t) (arg_cycle a) = Inr (start, end)"
    "clashing d (arg_org a) (arg_product a) start end = []"
    "i = draft_invoice ids a (next_invoice_number d start) (map_option (\<lambda>q. promo_code (quote_promo q)) quote)
       (price_breakdown (base) (arg_cycle a = Annual) pkp
         (case quote of None \<Rightarrow> 0 | Some q \<Rightarrow> quote_discount q)) start end due now"
    "i' = (if inv_total_idr i = 0 then paid_free now i else i)"
    "invoice_ok i" "inv_id i \<notin> inv_id ` set (invoices d)" "inv_number i \<notin> inv_number ` set (invoices d)"
    "invoices d' = invoices d @ [i']" "redemptions d' = redemptions d @ rs" "promos d' = promos d"
    "quote = None \<Longrightarrow> rs = []"
    "\<And>q. quote = Some q \<Longrightarrow> arg_cycle a = Monthly \<and>
       lock_and_quote d (the (promo_given a)) \<lparr>pur_product = arg_product a, pur_sku = arg_sku a,
         pur_cycle = arg_cycle a, pur_base_idr = base, pur_org = arg_org a\<rparr> now = Inr q \<and>
       (\<exists>r d2 d3. rs = [r] \<and> redemptions d2 = redemptions d \<and> record_redemption (fresh_redemption ids) q
         (fresh_invoice ids) (arg_actor a) (arg_request a) now d2 = Inr (r, d3))"
proof -
  obtain cat start "end" where c: "period_bounds_utc (case arg_period_start a of None \<Rightarrow> now | Some t \<Rightarrow> as_utc t)
      (arg_cycle a) = Inr (start, end)"
    and p: "create_for_period cfg ids a cat start end now d = Inr (i', d')"
    using create_once_Inr [OF assms] by metis
  obtain quote pkp due i d1 d2 d3 where q: "arg_cycle a = Annual \<Longrightarrow> quote = None"
    "quote_for a (cat_list_idr cat) now d = Inr quote"
    "clashing d (arg_org a) (arg_product a) start end = []"
    and i: "i = draft_invoice ids a (next_invoice_number d start) (map_option (\<lambda>q. promo_code (quote_promo q)) quote)
       (price_breakdown (cat_list_idr cat) (arg_cycle a = Annual) pkp
         (case quote of None \<Rightarrow> 0 | Some q \<Rightarrow> quote_discount q)) start end due now"
    and st: "insert_invoice i d = Inr d1" "consume_request a (next_invoice_number d start) now d1 = Inr d2"
    "redeem_quote ids a quote now d2 = Inr d3" "settle_free ids a quote i now d3 = Inr (i', d')"
    using create_for_period_Inr [OF p] by metis
  have ins: "invoice_ok i" "inv_id i \<notin> inv_id ` set (invoices d)" "inv_number i \<notin> inv_number ` set (invoices d)"
    and d1: "d1 = d\<lparr>invoices := invoices d @ [i]\<rparr>"
    using st(1) by (auto simp: insert_invoice_Inr)
  note d2 = consume_request_simps [OF st(2)]
  have d3: "invoices d3 = invoices d2 \<and> promos d3 = promos d2 \<and> (\<exists>rs. redemptions d3 = redemptions d2 @ rs
      \<and> (quote = None \<longrightarrow> rs = []) \<and> (\<forall>q. quote = Some q \<longrightarrow> (\<exists>r. rs = [r] \<and>
         record_redemption (fresh_redemption ids) q (fresh_invoice ids) (arg_actor a) (arg_request a) now d2 = Inr (r, d3))))"
    using st(3)
  proof (cases rule: redeem_quote_Inr)
    case (2 q r)
    have e: "d3 = d2\<lparr>redemptions := redemptions d2 @ [r]\<rparr>" using record_redemption_Inr [OF 2(2)] by blast
    have "invoices d3 = invoices d2" "promos d3 = promos d2" "redemptions d3 = redemptions d2 @ [r]"
      by (simp_all add: e)
    moreover have "\<forall>u. quote = Some u \<longrightarrow> (\<exists>x. [r] = [x] \<and> record_redemption (fresh_redemption ids) u
        (fresh_invoice ids) (arg_actor a) (arg_request a) now d2 = Inr (x, d3))" using 2 by blast
    ultimately show ?thesis using 2(1) by blast
  qed auto
  then obtain rs where rs: "redemptions d3 = redemptions d2 @ rs" "quote = None \<longrightarrow> rs = []"
    "\<forall>q. quote = Some q \<longrightarrow> (\<exists>r. rs = [r] \<and>
         record_redemption (fresh_redemption ids) q (fresh_invoice ids) (arg_actor a) (arg_request a) now d2 = Inr (r, d3))"
    by (elim conjE exE)
  note sf = settle_free_Inr [OF st(4)]
  have iv: "invoices d' = invoices d @ [i']"
    using sf(1,2) d3 d2(1) d1 row_upd_append [OF ins(2) refl] by simp
  show ?thesis
  proof (rule that [OF c q(3) i sf(1) ins iv, of rs])
    show "redemptions d' = redemptions d @ rs" "promos d' = promos d"
      using sf(3,4) rs(1) d2(2,3) d1 d3 by simp_all
    show "rs = []" if "quote = None" using rs(2) that by blast
    fix v
    assume v: "quote = Some v"
    then have "arg_cycle a = Monthly" using q(1) by (cases "arg_cycle a") auto
    moreover have "lock_and_quote d (the (promo_given a)) \<lparr>pur_product = arg_product a, pur_sku = arg_sku a,
         pur_cycle = arg_cycle a, pur_base_idr = cat_list_idr cat, pur_org = arg_org a\<rparr> now = Inr v"
      using q(2) v by (auto simp: quote_for_def ebind_eq_Inr split: option.splits)
    moreover have "redemptions d2 = redemptions d" using d2(2) d1 by simp
    moreover obtain r where "rs = [r]" "record_redemption (fresh_redemption ids) v (fresh_invoice ids)
        (arg_actor a) (arg_request a) now d2 = Inr (r, d3)"
      using rs(3) v by blast
    ultimately show "arg_cycle a = Monthly \<and>
       lock_and_quote d (the (promo_given a)) \<lparr>pur_product = arg_product a, pur_sku = arg_sku a,
         pur_cycle = arg_cycle a, pur_base_idr = cat_list_idr cat, pur_org = arg_org a\<rparr> now = Inr v \<and>
       (\<exists>r d2 d3. rs = [r] \<and> redemptions d2 = redemptions d \<and> record_redemption (fresh_redemption ids) v
         (fresh_invoice ids) (arg_actor a) (arg_request a) now d2 = Inr (r, d3))"
      by blast
  qed
qed

subsection \<open>The invoice ledger\<close>

definition invoice_good :: "invoice \<Rightarrow> bool" where
  "invoice_good i \<longleftrightarrow> invoice_ok i \<and> inv_period_start i \<le> inv_period_end i
     \<and> (inv_status i = Paid) = (inv_paid_at i \<noteq> None) \<and> (inv_status i = Void \<longrightarrow> inv_request i = None)"

definition disjoint_invoices :: "invoice \<Rightarrow> invoice \<Rightarrow> bool" where
  "disjoint_invoices i j \<longleftrightarrow> inv_org i = inv_org j \<and> inv_product i = inv_product j
     \<and> inv_status i \<noteq> Void \<and> inv_status j \<noteq> Void \<longrightarrow>
     inv_period_end i < inv_period_start j \<or> inv_period_end j < inv_period_start i"

definition linked :: "invoice \<Rightarrow> redemption \<Rightarrow> bool" where
  "linked i r \<longleftrightarrow> inv_id i = red_invoice r \<and> inv_org i = red_org r \<and> inv_discount_idr i = red_discount_idr r
     \<and> inv_promo_code i = Some (red_code r) \<and> (red_status r = Applied) = (inv_status i \<noteq> Void)"

definition invoices_inv :: "db \<Rightarrow> bool" where
  "invoices_inv d \<longleftrightarrow> unique_by inv_id (invoices d) \<and> unique_by inv_number (invoices d)
     \<and> list_all invoice_good (invoices d)
     \<and> (\<forall>i\<in>set (invoices d). \<forall>j\<in>set (invoices d). inv_id i \<noteq> inv_id j \<longrightarrow> disjoint_invoices i j)
     \<and> unique_by red_id (redemptions d) \<and> unique_by red_invoice (redemptions d)
     \<and> (\<forall>r\<in>set (redemptions d). \<exists>i\<in>set (invoices d). linked i r)
     \<and> (\<forall>i\<in>set (invoices d). inv_promo_code i \<noteq> None \<longrightarrow> inv_id i \<in> red_invoice ` set (redemptions d))"

inductive invoice_step :: "db \<Rightarrow> db \<Rightarrow> bool" where
  create: "create_once cfg ids a now d = Inr (i, d') \<Longrightarrow> invoice_step d d'"
| send: "invoice_send k now d = Inr (i, d') \<Longrightarrow> invoice_step d d'"
| pay: "mark_paid k bank_ref now d = Inr (i, d') \<Longrightarrow> invoice_step d d'"
| void: "invoice_void k now d = Inr (i, d') \<Longrightarrow> invoice_step d d'"

text \<open>The part of an invoice that never changes after its creation.\<close>

definition same_invoice :: "invoice \<Rightarrow> invoice \<Rightarrow> bool" where
  "same_invoice i j \<longleftrightarrow> inv_id j = inv_id i \<and> inv_org j = inv_org i \<and> inv_number j = inv_number i
     \<and> inv_product j = inv_product i \<and> inv_sku j = inv_sku i \<and> inv_amount_idr j = inv_amount_idr i
     \<and> inv_discount_idr j = inv_discount_idr i \<and> inv_promo_code j = inv_promo_code i
     \<and> inv_dpp_idr j = inv_dpp_idr i \<and> inv_ppn_idr j = inv_ppn_idr i \<and> inv_pph23_idr j = inv_pph23_idr i
     \<and> inv_total_idr j = inv_total_idr i \<and> inv_period_start j = inv_period_start i
     \<and> inv_period_end j = inv_period_end i \<and> inv_due_date j = inv_due_date i"

lemma same_invoice_ok: "same_invoice i j \<Longrightarrow> invoice_ok j = invoice_ok i"
  by (simp add: same_invoice_def invoice_ok_def)

lemma same_invoice_refl [simp]: "same_invoice i i"
  by (simp add: same_invoice_def)

lemma same_invoice_trans: "same_invoice i j \<Longrightarrow> same_invoice j k \<Longrightarrow> same_invoice i k"
  by (simp add: same_invoice_def)

lemma disjoint_same: "same_invoice i i' \<Longrightarrow> (inv_status i' \<noteq> Void \<Longrightarrow> inv_status i \<noteq> Void) \<Longrightarrow>
    disjoint_invoices i j \<Longrightarrow> disjoint_invoices i' j \<and> disjoint_invoices j i'"
  by (auto simp: disjoint_invoices_def same_invoice_def)

lemma invoices_inv_replace:
  assumes inv: "invoices_inv d" and get: "get_invoice d k = Some i"
    and i': "same_invoice i i'" "invoice_good i'" "inv_status i' \<noteq> Void \<Longrightarrow> inv_status i \<noteq> Void"
    and d': "invoices d' = row_upd inv_id k (\<lambda>_. i') (invoices d)"
    and reds: "unique_by red_id (redemptions d')" "unique_by red_invoice (redemptions d')"
      "red_invoice ` set (redemptions d') = red_invoice ` set (redemptions d)"
      "\<And>r. r \<in> set (redemptions d') \<Longrightarrow> red_invoice r \<noteq> k \<Longrightarrow> r \<in> set (redemptions d)"
      "\<And>r. r \<in> set (redemptions d') \<Longrightarrow> red_invoice r = k \<Longrightarrow> linked i' r"
  shows "invoices_inv d'"
proof -
  have i: "i \<in> set (invoices d)" "inv_id i = k" using row_get_Some [OF get] by auto
  have eq: "x = i" if "x \<in> set (invoices d)" "inv_id x = k" for x
    using that i inv by (auto simp: invoices_inv_def dest: unique_byD)
  have map_eq: "map g (invoices d') = map g (invoices d)" if "g i' = g i" for g :: "invoice \<Rightarrow> 'a"
    using eq that by (auto simp: d' row_upd_def)
  have mem: "x \<in> set (invoices d') \<longleftrightarrow> x = i' \<or> x \<in> set (invoices d) \<and> inv_id x \<noteq> k" for x
    using i by (auto simp: d' set_row_upd)
  have id': "inv_id i' = k" "inv_promo_code i' = inv_promo_code i" using i'(1) i by (simp_all add: same_invoice_def)
  have "unique_by inv_id (invoices d')" "unique_by inv_number (invoices d')"
    using inv map_eq [of inv_id] map_eq [of inv_number] i'(1)
    by (simp_all add: invoices_inv_def unique_by_def same_invoice_def)
  moreover have "list_all invoice_good (invoices d')"
    using inv i'(2) by (auto simp: list_all_iff mem invoices_inv_def)
  moreover have "disjoint_invoices x y" if xy: "x \<in> set (invoices d')" "y \<in> set (invoices d')" "inv_id x \<noteq> inv_id y" for x y
  proof -
    have old: "disjoint_invoices u v" if "u \<in> set (invoices d)" "v \<in> set (invoices d)" "inv_id u \<noteq> inv_id v" for u v
      using inv that by (simp add: invoices_inv_def)
    have new: "disjoint_invoices i' v \<and> disjoint_invoices v i'" if "v \<in> set (invoices d)" "inv_id v \<noteq> k" for v
      using disjoint_same [OF i'(1,3)] old [OF i(1) that(1)] that(2) i(2) by auto
    show ?thesis using xy new old id' unfolding mem by auto
  qed
  moreover have "\<exists>x\<in>set (invoices d'). linked x r" if r: "r \<in> set (redemptions d')" for r
  proof (cases "red_invoice r = k")
    case True
    then show ?thesis using reds(5) [OF r] by (auto simp: mem)
  next
    case False
    then obtain x where "x \<in> set (invoices d)" "linked x r"
      using reds(4) [OF r] inv by (auto simp: invoices_inv_def)
    then show ?thesis using False by (auto simp: mem linked_def)
  qed
  moreover have "inv_id x \<in> red_invoice ` set (redemptions d')"
    if "x \<in> set (invoices d')" "inv_promo_code x \<noteq> None" for x
    using that inv i id' unfolding mem reds(3) invoices_inv_def by auto
  ultimately show ?thesis using reds(1,2) by (simp add: invoices_inv_def)
qed


lemma price_discount_of_quote:
  assumes "0 \<le> n" "n \<le> max 0 base"
  shows "pr_discount (price_breakdown base False pkp n) = n"
  using assms by (simp add: price_breakdown_def Let_def)

lemma quote_discount_bounds:
  assumes "lock_and_quote d code pur now = Inr q"
  shows "0 \<le> quote_discount q \<and> quote_discount q \<le> max 0 (pur_base_idr pur) \<and> quote_org q = pur_org pur"
proof -
  obtain p n where p: "check_eligible d p pur now = Inr n"
    "q = \<lparr>quote_promo = p, quote_discount = n, quote_org = pur_org pur\<rparr>"
    using assms unfolding lock_and_quote_Inr by blast
  then have "discount_for (pur_base_idr pur) (promo_kind p) (promo_percent_off_bp p)
        (promo_amount_idr p) (promo_max_discount_idr p) = Inr n"
    unfolding check_eligible_Inr by blast
  from discount_for_bounds [OF this] p(2) show ?thesis by simp
qed

lemma draft_fields [simp]:
  "inv_id (draft_invoice ids a n c p s e due now) = fresh_invoice ids"
  "inv_org (draft_invoice ids a n c p s e due now) = arg_org a"
  "inv_number (draft_invoice ids a n c p s e due now) = n"
  "inv_product (draft_invoice ids a n c p s e due now) = arg_product a"
  "inv_promo_code (draft_invoice ids a n c p s e due now) = c"
  "inv_discount_idr (draft_invoice ids a n c p s e due now) = pr_discount p"
  "inv_period_start (draft_invoice ids a n c p s e due now) = s"
  "inv_period_end (draft_invoice ids a n c p s e due now) = e"
  "inv_status (draft_invoice ids a n c p s e due now) = Draft"
  "inv_paid_at (draft_invoice ids a n c p s e due now) = None"
  by (simp_all add: draft_invoice_def)

lemma paid_free_same: "same_invoice i (paid_free now i)"
  by (simp add: same_invoice_def paid_free_def)

lemma invoices_inv_append:
  assumes inv: "invoices_inv d"
    and i: "invoice_good i" "inv_status i \<noteq> Void" "inv_id i \<notin> inv_id ` set (invoices d)"
      "inv_number i \<notin> inv_number ` set (invoices d)"
      "clashing d (inv_org i) (inv_product i) (inv_period_start i) (inv_period_end i) = []"
    and d': "invoices d' = invoices d @ [i]" "redemptions d' = redemptions d @ rs"
    and rs: "rs = [] \<and> inv_promo_code i = None \<or> (\<exists>r. rs = [r] \<and> linked i r
      \<and> red_id r \<notin> red_id ` set (redemptions d) \<and> red_invoice r \<notin> red_invoice ` set (redemptions d))"
  shows "invoices_inv d'"
proof -
  have no: "disjoint_invoices i j \<and> disjoint_invoices j i" if "j \<in> set (invoices d)" for j
    using i(5) that by (force simp: clashing_def filter_empty_conv disjoint_invoices_def)
  have "disjoint_invoices x y" if "x \<in> set (invoices d')" "y \<in> set (invoices d')" "inv_id x \<noteq> inv_id y" for x y
    using that no inv by (auto simp: d' invoices_inv_def)
  moreover have "\<exists>x\<in>set (invoices d'). linked x r" if "r \<in> set (redemptions d')" for r
    using that inv rs by (auto simp: d' invoices_inv_def)
  moreover have "inv_id x \<in> red_invoice ` set (redemptions d')"
    if "x \<in> set (invoices d')" "inv_promo_code x \<noteq> None" for x
    using that inv rs by (auto simp: d' invoices_inv_def linked_def)
  ultimately show ?thesis
    using inv i(1,3,4) rs unfolding invoices_inv_def d'
    by (auto simp: unique_by_append1)
qed

lemma create_keeps:
  assumes "create_once cfg ids a now d = Inr (i', d')" and inv: "invoices_inv d"
  shows "invoices_inv d' \<and> (\<forall>k i. get_invoice d k = Some i \<longrightarrow> get_invoice d' k = Some i)"
proof (rule create_once_tables [OF assms(1)])
  fix base start "end" quote pkp due i rs
  assume pb: "period_bounds_utc (case arg_period_start a of None \<Rightarrow> now | Some t \<Rightarrow> as_utc t) (arg_cycle a) = Inr (start, end)"
    and clash: "clashing d (arg_org a) (arg_product a) start end = []"
    and i: "i = draft_invoice ids a (next_invoice_number d start) (map_option (\<lambda>q. promo_code (quote_promo q)) quote)
       (price_breakdown base (arg_cycle a = Annual) pkp
         (case quote of None \<Rightarrow> 0 | Some q \<Rightarrow> quote_discount q)) start end due now"
    and i': "i' = (if inv_total_idr i = 0 then paid_free now i else i)"
    and ins: "invoice_ok i" "inv_id i \<notin> inv_id ` set (invoices d)" "inv_number i \<notin> inv_number ` set (invoices d)"
    and d': "invoices d' = invoices d @ [i']" "redemptions d' = redemptions d @ rs"
    and none: "quote = None \<Longrightarrow> rs = []"
    and some: "\<And>q. quote = Some q \<Longrightarrow> arg_cycle a = Monthly \<and>
       lock_and_quote d (the (promo_given a)) \<lparr>pur_product = arg_product a, pur_sku = arg_sku a,
         pur_cycle = arg_cycle a, pur_base_idr = base, pur_org = arg_org a\<rparr> now = Inr q \<and>
       (\<exists>r d2 d3. rs = [r] \<and> redemptions d2 = redemptions d \<and> record_redemption (fresh_redemption ids) q
         (fresh_invoice ids) (arg_actor a) (arg_request a) now d2 = Inr (r, d3))"
  have same: "same_invoice i i'" using i' paid_free_same by simp
  have f: "inv_id i' = inv_id i" "inv_number i' = inv_number i" "inv_org i' = arg_org a"
    "inv_product i' = arg_product a" "inv_period_start i' = start" "inv_period_end i' = end"
    "inv_promo_code i' = map_option (\<lambda>q. promo_code (quote_promo q)) quote"
    "inv_discount_idr i' = inv_discount_idr i"
    using same by (simp_all add: same_invoice_def i)
  have st: "inv_status i' \<noteq> Void" "(inv_status i' = Paid) = (inv_paid_at i' \<noteq> None)"
    using i' by (auto simp: paid_free_def i split: if_splits)
  have good: "invoice_good i'"
    using same_invoice_ok [OF same] ins(1) st period_bounds_cases(2) [OF pb] f(5,6)
    by (simp add: invoice_good_def)
  have "rs = [] \<and> inv_promo_code i' = None \<or> (\<exists>r. rs = [r] \<and> linked i' r
      \<and> red_id r \<notin> red_id ` set (redemptions d) \<and> red_invoice r \<notin> red_invoice ` set (redemptions d))"
  proof (cases quote)
    case None
    then show ?thesis using none f(7) by simp
  next
    case (Some q)
    obtain r d2 d3 where r: "rs = [r]" "redemptions d2 = redemptions d"
      "record_redemption (fresh_redemption ids) q (fresh_invoice ids) (arg_actor a) (arg_request a) now d2 = Inr (r, d3)"
      and q: "arg_cycle a = Monthly" "lock_and_quote d (the (promo_given a)) \<lparr>pur_product = arg_product a,
         pur_sku = arg_sku a, pur_cycle = arg_cycle a, pur_base_idr = base, pur_org = arg_org a\<rparr> now = Inr q"
      using some [OF Some] by blast
    have "inv_discount_idr i' = quote_discount q"
      using quote_discount_bounds [OF q(2)] q(1) Some price_discount_of_quote [of "quote_discount q" base pkp]
      by (simp add: f(8) i)
    moreover have "red_discount_idr r = quote_discount q" "red_code r = promo_code (quote_promo q)"
      "red_invoice r = fresh_invoice ids" "red_org r = arg_org a" "red_status r = Applied"
      "red_id r \<notin> red_id ` set (redemptions d)" "red_invoice r \<notin> red_invoice ` set (redemptions d)"
      using record_redemption_Inr [OF r(3)] quote_discount_bounds [OF q(2)] r(2) by simp_all
    ultimately have "linked i' r"
      using f(1,3,7) st(1) Some by (simp add: linked_def i)
    with r(1) \<open>red_id r \<notin> _\<close> \<open>red_invoice r \<notin> _\<close> show ?thesis by blast
  qed
  then have "invoices_inv d'"
    using invoices_inv_append [OF inv good st(1) _ _ _ d'] ins f(1-6) clash by simp
  moreover have "get_invoice d' k = Some x" if "get_invoice d k = Some x" for k x
    using that by (simp add: d' row_get_append)
  ultimately show ?thesis by blast
qed

lemma invoice_get_Inr [errs]: "invoice_get d k = Inr i \<longleftrightarrow> get_invoice d k = Some i"
  by (simp add: invoice_get_def get_or_Inr)

lemma invoice_send_Inr:
  assumes "invoice_send k now d = Inr (i', d')"
  obtains i where "get_invoice d k = Some i" "inv_status i = Draft"
    "i' = i\<lparr>inv_status := Sent, inv_sent_at := Some (or_else (inv_sent_at i) now), inv_updated_at := now\<rparr>"
    "d' = save_invoice i' d"
  using assms by (auto simp: invoice_send_def ebind_eq_Inr raise_if_Inr invoice_get_Inr Let_def)

lemma mark_paid_Inr:
  assumes "mark_paid k bank_ref now d = Inr (i', d')"
  obtains i where "get_invoice d k = Some i" "inv_status i = Draft \<or> inv_status i = Sent"
    "i' = mark_paid_row i bank_ref now" "invoices d' = row_upd inv_id k (\<lambda>_. i') (invoices d)"
    "redemptions d' = redemptions d" "promos d' = promos d" "requests d' = requests d"
    "attempts d' = attempts d" "subs d' = subs d" "events d' = events d" "tiers d' = tiers d"
    "inv_product i = Scan \<longrightarrow> (\<forall>r. get_org d (inv_org i) = Some r \<longrightarrow> (\<exists>r'. get_org d' (inv_org i) = Some r' \<and> org_sku r' = inv_sku i))"
    "\<And>u. inv_product i \<noteq> Scan \<or> u \<noteq> inv_org i \<Longrightarrow> get_org d' u = get_org d u"
proof -
  obtain i where i: "get_invoice d k = Some i" "inv_status i \<in> {Draft, Sent}" "i' = mark_paid_row i bank_ref now"
    and d': "d' = (case if inv_product i = Scan then get_org d (inv_org i) else None of
           None \<Rightarrow> save_invoice i' d
         | Some r \<Rightarrow> save_org (r\<lparr>org_sku := inv_sku i, org_updated_at := now\<rparr>)
             (if org_sku r \<noteq> inv_sku i
              then record_tier_assignment (org_id r) (inv_sku i) (Some (org_sku r)) None
                (Some (''invoice '' @ inv_number i)) now (save_invoice i' d)
              else save_invoice i' d))"
    using assms by (auto simp: mark_paid_def ebind_eq_Inr raise_if_Inr invoice_get_Inr Let_def)
  have k: "inv_id i' = k" using i(3) row_get_Some [OF i(1)] by (simp add: mark_paid_row_def)
  have org: "inv_product i = Scan \<longrightarrow> (\<forall>r. get_org d (inv_org i) = Some r \<longrightarrow> (\<exists>r'. get_org d' (inv_org i) = Some r' \<and> org_sku r' = inv_sku i))"
    "inv_product i \<noteq> Scan \<or> u \<noteq> inv_org i \<Longrightarrow> get_org d' u = get_org d u" for u
    using row_get_Some [of org_id "inv_org i" "orgs d"]
    by (auto simp: d' row_get_save split: option.splits)
  have t: "invoices d' = row_upd inv_id k (\<lambda>_. i') (invoices d)"
    "redemptions d' = redemptions d" "promos d' = promos d" "requests d' = requests d"
    "attempts d' = attempts d" "subs d' = subs d" "events d' = events d" "tiers d' = tiers d"
    by (simp_all add: d' k split: option.split)
  show ?thesis by (rule that [OF i(1) _ i(3) t org]) (use i(2) in auto)
qed

lemma invoice_void_Inr:
  assumes "invoice_void k now d = Inr (i', d')"
  obtains i where "get_invoice d k = Some i" "inv_status i = Draft \<or> inv_status i = Sent"
    "i' = i\<lparr>inv_status := Void, inv_request := None, inv_updated_at := now\<rparr>"
    "d' = release_for_invoice k now (save_invoice i' d)"
  using assms by (auto simp: invoice_void_def ebind_eq_Inr raise_if_Inr invoice_get_Inr Let_def)


text \<open>The status machine of an invoice: paid and void are final.\<close>

fun status_rank :: "invoice_status \<Rightarrow> nat" where
  "status_rank Draft = 0" | "status_rank Sent = 1" | "status_rank Paid = 2" | "status_rank Void = 2"

definition invoice_progress :: "invoice \<Rightarrow> invoice \<Rightarrow> bool" where
  "invoice_progress i j \<longleftrightarrow> same_invoice i j \<and> status_rank (inv_status i) \<le> status_rank (inv_status j)
     \<and> (inv_status i = Paid \<or> inv_status i = Void \<longrightarrow> j = i)"

lemma invoice_progress_refl [simp]: "invoice_progress i i"
  by (simp add: invoice_progress_def)

lemma invoice_progress_trans: "invoice_progress i j \<Longrightarrow> invoice_progress j k \<Longrightarrow> invoice_progress i k"
  by (auto simp: invoice_progress_def intro: same_invoice_trans)

lemma mark_paid_row_simps:
  "same_invoice i (mark_paid_row i b now)" "inv_status (mark_paid_row i b now) = Paid"
  "inv_paid_at (mark_paid_row i b now) = Some now"
  by (simp_all add: same_invoice_def mark_paid_row_def)

lemma linked_same: "same_invoice i j \<Longrightarrow> (inv_status i = Void) = (inv_status j = Void) \<Longrightarrow> linked i r \<Longrightarrow> linked j r"
  by (auto simp: same_invoice_def linked_def)

text \<open>A status change that does not void.\<close>

lemma live_change_keeps:
  assumes inv: "invoices_inv d" and get: "get_invoice d k = Some i"
    and i': "same_invoice i i'" "invoice_good i'" "inv_status i \<noteq> Void" "inv_status i' \<noteq> Void"
    and d': "invoices d' = row_upd inv_id k (\<lambda>_. i') (invoices d)" "redemptions d' = redemptions d"
  shows "invoices_inv d'"
proof (rule invoices_inv_replace [OF inv get i'(1,2) _ d'(1)])
  have i: "i \<in> set (invoices d)" "inv_id i = k" using row_get_Some [OF get] by auto
  fix r
  assume "r \<in> set (redemptions d')" "red_invoice r = k"
  then obtain x where x: "x \<in> set (invoices d)" "linked x r"
    using inv d'(2) by (auto simp: invoices_inv_def)
  then have "x = i" using \<open>red_invoice r = k\<close> i inv by (auto simp: invoices_inv_def linked_def dest: unique_byD)
  with x show "linked i' r" using linked_same [OF i'(1)] i'(3,4) by simp
qed (use inv d'(2) i'(3) in \<open>simp_all add: invoices_inv_def\<close>)

lemma void_keeps:
  assumes "invoice_void k now d = Inr (i', d')" and inv: "invoices_inv d"
  shows "invoices_inv d'"
proof (rule invoice_void_Inr [OF assms(1)])
  fix i
  assume get: "get_invoice d k = Some i" and st: "inv_status i = Draft \<or> inv_status i = Sent"
    and i': "i' = i\<lparr>inv_status := Void, inv_request := None, inv_updated_at := now\<rparr>"
    and d': "d' = release_for_invoice k now (save_invoice i' d)"
  let ?f = "\<lambda>r. r\<lparr>red_status := Released, red_released_at := Some now\<rparr>"
  have i: "i \<in> set (invoices d)" "inv_id i = k" using row_get_Some [OF get] by auto
  have good: "invoice_good i" using i inv by (simp add: invoices_inv_def list_all_iff)
  have same: "same_invoice i i'" by (simp add: same_invoice_def i')
  have good': "invoice_good i'"
    using good st same_invoice_ok [OF same] by (auto simp: invoice_good_def i')
  have iv: "invoices d' = row_upd inv_id k (\<lambda>_. i') (invoices d)"
    using i(2) by (simp add: d' i')
  have applied: "linked i r" if rd: "r \<in> set (redemptions d)" "red_invoice r = k" for r
  proof -
    obtain x where x: "x \<in> set (invoices d)" "linked x r"
      using inv rd by (auto simp: invoices_inv_def)
    then have "x = i" using rd i inv by (auto simp: invoices_inv_def linked_def dest: unique_byD)
    with x show ?thesis by simp
  qed
  have reds: "redemptions d' = map (\<lambda>r. if red_invoice r = k then ?f r else r) (redemptions d)"
  proof (cases "first_row (filter (\<lambda>r. red_invoice r = k \<and> red_status r = Applied) (redemptions d))")
    case None
    then have "red_invoice r \<noteq> k" if "r \<in> set (redemptions d)" for r
      using applied [OF that] st that by (auto simp: filter_empty_conv linked_def)
    then have "map (\<lambda>r. if red_invoice r = k then ?f r else r) (redemptions d) = redemptions d"
      by (auto intro: map_idI)
    with None show ?thesis by (simp add: d' release_for_invoice_def)
  next
    case (Some r)
    then have r: "r \<in> set (redemptions d)" "red_invoice r = k" using first_row_Some by force+
    have "(red_id x = red_id r) = (red_invoice x = k)" if "x \<in> set (redemptions d)" for x
      using inv r that by (auto simp: invoices_inv_def dest: unique_byD)
    with Some show ?thesis by (auto simp: d' release_for_invoice_def row_upd_def)
  qed
  show ?thesis
  proof (rule invoices_inv_replace [OF inv get same good' _ iv])
    have m: "map red_id (redemptions d') = map red_id (redemptions d)"
      "map red_invoice (redemptions d') = map red_invoice (redemptions d)"
      by (auto simp: reds)
    show "unique_by red_id (redemptions d')" "unique_by red_invoice (redemptions d')"
      using inv m by (simp_all add: invoices_inv_def unique_by_def)
    show "red_invoice ` set (redemptions d') = red_invoice ` set (redemptions d)"
      using m(2) by (metis list.set_map)
    show "r \<in> set (redemptions d)" if "r \<in> set (redemptions d')" "red_invoice r \<noteq> k" for r
      using that by (auto simp: reds split: if_splits)
    show "linked i' r" if r: "r \<in> set (redemptions d')" "red_invoice r = k" for r
    proof -
      from r obtain x where x: "x \<in> set (redemptions d)" "red_invoice x = k" "r = ?f x"
        by (auto simp: reds split: if_splits)
      with applied [OF x(1,2)] show ?thesis by (simp add: linked_def i')
    qed
  qed (simp add: i')
qed

text \<open>What a transition does to one invoice and to the others.\<close>

lemma replaced_progress:
  assumes "get_invoice d k = Some i" "inv_id i' = k" "invoice_progress i i'"
    "invoices d' = row_upd inv_id k (\<lambda>_. i') (invoices d)"
  shows "\<forall>u x. get_invoice d u = Some x \<longrightarrow> (\<exists>y. get_invoice d' u = Some y \<and> invoice_progress x y)"
  using assms by (auto simp: row_get_save)

lemma invoice_step_keeps:
  assumes "invoice_step d d'" and inv: "invoices_inv d"
  shows "invoices_inv d' \<and> (\<forall>u x. get_invoice d u = Some x \<longrightarrow> (\<exists>y. get_invoice d' u = Some y \<and> invoice_progress x y))"
  using assms(1)
proof cases
  case (create cfg ids a now i)
  from create_keeps [OF create inv] show ?thesis by auto
next
  case (send k now i')
  from send show ?thesis
  proof (rule invoice_send_Inr)
    fix i
    assume get: "get_invoice d k = Some i" and st: "inv_status i = Draft"
      and i': "i' = i\<lparr>inv_status := Sent, inv_sent_at := Some (or_else (inv_sent_at i) now), inv_updated_at := now\<rparr>"
      and d': "d' = save_invoice i' d"
    have i: "i \<in> set (invoices d)" "inv_id i' = k" using row_get_Some [OF get] by (auto simp: i')
    have same: "same_invoice i i'" by (simp add: same_invoice_def i')
    have "invoice_good i" using i inv by (simp add: invoices_inv_def list_all_iff)
    then have "invoice_good i'" using st same_invoice_ok [OF same] by (auto simp: invoice_good_def i')
    then have "invoices_inv d'"
      using live_change_keeps [OF inv get same] st i i' d' by simp
    moreover have "invoice_progress i i'" using same st by (simp add: invoice_progress_def i')
    moreover have "invoices d' = row_upd inv_id k (\<lambda>_. i') (invoices d)" using i(2) d' by simp
    ultimately show ?thesis using replaced_progress [OF get i(2)] by blast
  qed
next
  case (pay k bank_ref now i')
  from pay show ?thesis
  proof (rule mark_paid_Inr)
    fix i
    assume get: "get_invoice d k = Some i" and st: "inv_status i = Draft \<or> inv_status i = Sent"
      and i': "i' = mark_paid_row i bank_ref now"
      and d': "invoices d' = row_upd inv_id k (\<lambda>_. i') (invoices d)" "redemptions d' = redemptions d"
    have i: "i \<in> set (invoices d)" "inv_id i' = k"
      using row_get_Some [OF get] mark_paid_row_simps(1) [of i bank_ref now] by (auto simp: i' same_invoice_def)
    note mp = mark_paid_row_simps [of i bank_ref now, folded i']
    have "invoice_good i" using i inv by (simp add: invoices_inv_def list_all_iff)
    then have "invoice_good i'"
      using mp same_invoice_ok [OF mp(1)] by (auto simp: invoice_good_def same_invoice_def)
    then have "invoices_inv d'"
      using live_change_keeps [OF inv get mp(1)] st mp(2) d' by auto
    moreover have "invoice_progress i i'" using mp st by (auto simp: invoice_progress_def)
    ultimately show ?thesis using replaced_progress [OF get i(2)] d'(1) by blast
  qed
next
  case (void k now i')
  have inv': "invoices_inv d'" by (rule void_keeps [OF void inv])
  from void show ?thesis
  proof (rule invoice_void_Inr)
    fix i
    assume get: "get_invoice d k = Some i" and st: "inv_status i = Draft \<or> inv_status i = Sent"
      and i': "i' = i\<lparr>inv_status := Void, inv_request := None, inv_updated_at := now\<rparr>"
      and d': "d' = release_for_invoice k now (save_invoice i' d)"
    have i: "inv_id i' = k" using row_get_Some [OF get] by (auto simp: i')
    have "invoice_progress i i'" using st by (auto simp: invoice_progress_def same_invoice_def i')
    moreover have "invoices d' = row_upd inv_id k (\<lambda>_. i') (invoices d)" using i by (simp add: d')
    ultimately show ?thesis using replaced_progress [OF get i] inv' by blast
  qed
qed


lemma invoice_run_keeps:
  "invoice_step\<^sup>*\<^sup>* d d' \<Longrightarrow> invoices_inv d \<Longrightarrow>
   invoices_inv d' \<and> (\<forall>u x. get_invoice d u = Some x \<longrightarrow> (\<exists>y. get_invoice d' u = Some y \<and> invoice_progress x y))"
proof (induction rule: rtranclp_induct)
  case (step y z)
  then have y: "invoices_inv y" "\<forall>u x. get_invoice d u = Some x \<longrightarrow> (\<exists>v. get_invoice y u = Some v \<and> invoice_progress x v)"
    by blast+
  from invoice_step_keeps [OF step.hyps(2) y(1)] y(2) show ?case
    by (meson invoice_progress_trans)
qed (simp add: exI)

subsection \<open>Properties\<close>

definition org9 :: organization where
  "org9 = \<lparr>org_id = 9, org_name = ''Acme'', org_slug = ''acme'', org_kind = ''team'', org_sku = ''FREE'',
     org_tag_colors = [], org_created_by = Some 1, org_created_at = 0, org_updated_at = 0\<rparr>"

definition half_off :: promo_code where
  "half_off = \<lparr>promo_id = 5, promo_code = ''LAUNCH26'', promo_description = [], promo_kind = Percent,
     promo_percent_off_bp = Some 5000, promo_amount_idr = None, promo_min_amount_idr = 0,
     promo_max_discount_idr = None, promo_applies_to_sku = None, promo_applies_to_product = None,
     promo_starts_at = None, promo_ends_at = None, promo_max_redemptions = Some 1, promo_max_per_org = 1,
     promo_active = True, promo_requires_approval = False, promo_approved_by = None,
     promo_approved_at = None, promo_created_by = Some 1, promo_updated_by = Some 1,
     promo_created_at = 0, promo_updated_at = 0\<rparr>"

definition billing_db :: db where
  "billing_db = empty_db\<lparr>users := [\<lparr>user_id = 1, user_email = ''a@x'',
       user_is_verified = True, user_is_admin = True, user_credits = 0, user_locale = ''id'', user_last_active = None\<rparr>], orgs := [org9],
     tiers := [seed_tier, seed_tier\<lparr>tier_code := ''PRO'', tier_rank := 2, tier_is_default := False\<rparr>],
     catalog := [\<lparr>cat_product = Scan, cat_sku = ''PRO'', cat_list_idr = 500000, cat_invoicable = True,
       cat_updated_at = 0, cat_updated_by = None\<rparr>],
     promos := [half_off]\<rparr>"

definition t0 :: datetime where "t0 = 63903945600000000"

definition cfg0 :: settings where
  "cfg0 = \<lparr>invoice_default_term_days = 14, midtrans_verify_status = True\<rparr>"

definition ids0 :: "nat \<Rightarrow> fresh_ids" where
  "ids0 k = \<lparr>fresh_invoice = 100 + 10 * k, fresh_redemption = 101 + 10 * k, fresh_attempt = 102 + 10 * k,
     fresh_sub = 103 + 10 * k\<rparr>"

definition args0 :: invoice_args where
  "args0 = \<lparr>arg_org = 9, arg_sku = ''PRO'', arg_actor = 1, arg_product = Scan, arg_period_start = None,
     arg_due_date = None, arg_cycle = Monthly, arg_notes = [], arg_promo_code = Some ''launch26'',
     arg_request = None\<rparr>"


definition inv100 :: invoice where
  "inv100 = \<lparr>inv_id = 100, inv_org = 9, inv_number = ''SX-202601-0001'', inv_product = Scan,
     inv_sku = ''PRO'', inv_request = None, inv_amount_idr = 500000, inv_discount_idr = 250000,
     inv_promo_code = Some ''LAUNCH26'', inv_dpp_idr = 250000, inv_ppn_idr = 0, inv_pph23_idr = 0,
     inv_total_idr = 250000, inv_period_start = 63902908800000000, inv_period_end = 63905587199999999,
     inv_due_date = 63904118400000000, inv_sent_at = None, inv_status = Draft, inv_bank_ref = None,
     inv_notes = [], inv_paid_at = None, inv_created_by = Some 1, inv_created_at = t0, inv_updated_at = t0\<rparr>"

definition red101 :: redemption where
  "red101 = \<lparr>red_id = 101, red_promo = 5, red_org = 9, red_invoice = 100, red_request = None,
     red_code = ''LAUNCH26'', red_discount_idr = 250000, red_status = Applied, red_created_by = Some 1,
     red_created_at = t0, red_released_at = None\<rparr>"

definition invoiced_db :: db where
  "invoiced_db = billing_db\<lparr>invoices := [inv100], redemptions := [red101]\<rparr>"

definition february :: invoice_args where
  "february = args0\<lparr>arg_period_start := Some (Naive 63905587200000000), arg_promo_code := None\<rparr>"

definition second_db :: db where "second_db = db_of (create_once cfg0 (ids0 1) february t0 invoiced_db)"
definition voided_db :: db where "voided_db = db_of (invoice_void 100 (t0 + 1) invoiced_db)"

lemma create_inv100: "create_once cfg0 (ids0 0) args0 t0 billing_db = Inr (inv100, invoiced_db)"
  by code_simp

lemma invoiced_runs:
  "invoice_step billing_db invoiced_db" "invoice_step invoiced_db second_db" "invoice_step invoiced_db voided_db"
proof -
  show "invoice_step billing_db invoiced_db" by (rule invoice_step.create [OF create_inv100])
  have "\<not> isl (create_once cfg0 (ids0 1) february t0 invoiced_db)" by code_simp
  then show "invoice_step invoiced_db second_db"
    unfolding second_db_def by (blast dest: db_of_Inr intro: invoice_step.create)
  have "\<not> isl (invoice_void 100 (t0 + 1) invoiced_db)" by code_simp
  then show "invoice_step invoiced_db voided_db"
    unfolding voided_db_def by (blast dest: db_of_Inr intro: invoice_step.void)
qed

lemma second_run: "invoice_step\<^sup>*\<^sup>* billing_db second_db" "invoice_step\<^sup>*\<^sup>* billing_db voided_db"
  "invoice_step\<^sup>*\<^sup>* invoiced_db voided_db"
  using invoiced_runs by (meson rtranclp.simps)+

lemma billing_db_inv: "invoices_inv billing_db"
  by (simp add: invoices_inv_def billing_db_def empty_db_def)

lemma invoiced_inv: "invoices_inv invoiced_db"
  using invoice_step_keeps [OF invoiced_runs(1) billing_db_inv] by blast



text \<open>C3: the terms of an invoice (number, product, tier, amounts, promo, period, due date) never
  change after its creation, its status only moves forward, and a paid or void invoice is never
  touched again.\<close>

theorem invoice_lifecycle:
  assumes "invoice_step\<^sup>*\<^sup>* d d'" "invoices_inv d" "get_invoice d k = Some i"
  shows "\<exists>j. get_invoice d' k = Some j \<and> same_invoice i j
    \<and> status_rank (inv_status i) \<le> status_rank (inv_status j)
    \<and> (inv_status i = Paid \<or> inv_status i = Void \<longrightarrow> j = i)"
  using invoice_run_keeps [OF assms(1,2)] assms(3) by (auto simp: invoice_progress_def)

theorem invoice_lifecycle_witness:
  "\<exists>j. get_invoice voided_db 100 = Some j \<and> inv_total_idr j = 250000 \<and> same_invoice inv100 j"
proof -
  have g: "get_invoice invoiced_db 100 = Some inv100" by code_simp
  have "inv_total_idr inv100 = 250000" by (simp add: inv100_def)
  with invoice_lifecycle [OF second_run(3) invoiced_inv g] show ?thesis by (auto simp: same_invoice_def)
qed

text \<open>promo quota follows the invoices: every redemption belongs to one invoice of the same
  organization, for exactly its discount and its code, and it counts as applied if and only if that
  invoice is not void; every invoice with a promo code has its redemption.\<close>

theorem redemption_follows_invoice:
  assumes "invoice_step\<^sup>*\<^sup>* d d'" "invoices_inv d"
  shows "(\<forall>r\<in>set (redemptions d'). \<exists>i. get_invoice d' (red_invoice r) = Some i \<and> inv_org i = red_org r
      \<and> inv_discount_idr i = red_discount_idr r \<and> inv_promo_code i = Some (red_code r)
      \<and> (red_status r = Applied \<longleftrightarrow> inv_status i \<noteq> Void))
    \<and> (\<forall>i\<in>set (invoices d'). inv_promo_code i \<noteq> None \<longrightarrow>
         (\<exists>r. row_get red_invoice (inv_id i) (redemptions d') = Some r))"
proof (intro conjI ballI impI)
  have inv: "invoices_inv d'" using invoice_run_keeps [OF assms] by blast
  show "\<exists>i. get_invoice d' (red_invoice r) = Some i \<and> inv_org i = red_org r
      \<and> inv_discount_idr i = red_discount_idr r \<and> inv_promo_code i = Some (red_code r)
      \<and> (red_status r = Applied \<longleftrightarrow> inv_status i \<noteq> Void)" if r: "r \<in> set (redemptions d')" for r
  proof -
    obtain i where i: "i \<in> set (invoices d')" "linked i r" using inv r by (auto simp: invoices_inv_def)
    then have "get_invoice d' (red_invoice r) = Some i"
      using row_get_unique [of inv_id "invoices d'" i] inv by (simp add: invoices_inv_def linked_def)
    with i(2) show ?thesis by (simp add: linked_def)
  qed
  fix i
  assume "i \<in> set (invoices d')" "inv_promo_code i \<noteq> None"
  then have "inv_id i \<in> red_invoice ` set (redemptions d')" using inv by (auto simp: invoices_inv_def)
  then have "row_get red_invoice (inv_id i) (redemptions d') \<noteq> None" by (simp add: row_get_None)
  then show "\<exists>r. row_get red_invoice (inv_id i) (redemptions d') = Some r" by simp
qed

subsection \<open>Invoice numbers and the retry loop\<close>

lemma map_row_replace:
  assumes "unique_by key rows" "row_get key k rows = Some r" "g x = g r"
  shows "map g (row_upd key k (\<lambda>_. x) rows) = map g rows"
proof -
  have "r \<in> set rows" "key r = k" using row_get_Some [OF assms(2)] by auto
  then have "y = r" if "y \<in> set rows" "key y = k" for y using assms(1) that by (auto dest: unique_byD)
  then show ?thesis using assms(3) by (auto simp: row_upd_def)
qed

lemma digit_not_dash: "d < 10 \<Longrightarrow> char_of (48 + d) \<noteq> CHR ''-''" for d :: nat
proof
  assume "d < 10" "char_of (48 + d) = CHR ''-''"
  then have "(48 + d) = (of_char (CHR ''-'') :: nat)" by (metis of_char_digit)
  then show False by simp
qed

lemma show_nat_no_dash: "c \<in> set (show_nat n) \<Longrightarrow> c \<noteq> CHR ''-''"
proof (induction n rule: show_nat.induct)
  case (1 n)
  show ?case
  proof (cases "n < 10")
    case True
    then show ?thesis using 1(2) digit_not_dash by (subst (asm) show_nat.simps) auto
  next
    case False
    then show ?thesis using 1 digit_not_dash [of "n mod 10"] by (subst (asm) (2) show_nat.simps) auto
  qed
qed

lemma zpad_no_dash: "c \<in> set (zpad w n) \<Longrightarrow> c \<noteq> CHR ''-''"
  using show_nat_no_dash by (auto simp: zpad_def)

definition month_key :: "datetime \<Rightarrow> string" where
  "month_key t = zpad 4 (nat (year_of t)) @ zpad 2 (nat (month_of t))"

lemma prefix_key: "takeWhile (\<lambda>c. c \<noteq> CHR ''-'') (drop 3 (number_prefix t @ s)) = month_key t"
proof -
  have "drop 3 (number_prefix t @ s) = month_key t @ CHR ''-'' # s"
    by (simp add: number_prefix_def month_key_def)
  moreover have "takeWhile (\<lambda>c. c \<noteq> CHR ''-'') (month_key t @ CHR ''-'' # s) = month_key t"
    using zpad_no_dash by (subst takeWhile_append2) (auto simp: month_key_def)
  ultimately show ?thesis by simp
qed

lemma prefix_determined:
  assumes "starts_with (number_prefix t) (number_prefix u @ s)"
  shows "number_prefix t = number_prefix u"
proof -
  obtain r where "number_prefix u @ s = number_prefix t @ r" using assms starts_with_append by blast
  then have "month_key t = month_key u" using prefix_key by metis
  then show ?thesis by (simp add: number_prefix_def month_key_def)
qed

definition numbers_dense :: "db \<Rightarrow> bool" where
  "numbers_dense d \<longleftrightarrow> (\<forall>t. \<forall>i\<in>set (invoices d). starts_with (number_prefix t) (inv_number i) \<longrightarrow>
     (\<exists>k. k \<le> count_where (\<lambda>i. starts_with (number_prefix t) (inv_number i)) (invoices d)
        \<and> inv_number i = number_prefix t @ zpad 4 k))"

lemma number_fresh:
  assumes "numbers_dense d"
  shows "next_invoice_number d t \<notin> inv_number ` set (invoices d)"
proof
  let ?n = "count_where (\<lambda>i. starts_with (number_prefix t) (inv_number i)) (invoices d)"
  assume "next_invoice_number d t \<in> inv_number ` set (invoices d)"
  then obtain i where i: "i \<in> set (invoices d)" "inv_number i = number_prefix t @ zpad 4 (?n + 1)"
    by (auto simp: next_invoice_number_def Let_def)
  then have "starts_with (number_prefix t) (inv_number i)" by (simp add: starts_with_append)
  then obtain k where "k \<le> ?n" "inv_number i = number_prefix t @ zpad 4 k"
    using assms i(1) unfolding numbers_dense_def by blast
  with i(2) have "zpad 4 k = zpad 4 (?n + 1)" by simp
  with \<open>k \<le> ?n\<close> show False by (simp add: zpad_inj)
qed

lemma numbers_dense_same:
  assumes "numbers_dense d" "map inv_number (invoices d') = map inv_number (invoices d)"
  shows "numbers_dense d'"
proof -
  have c: "count_where (\<lambda>i. P (inv_number i)) xs = count_where P (map inv_number xs)" for P xs
    by (induction xs) auto
  have s: "inv_number ` set (invoices d') = inv_number ` set (invoices d)"
    using assms(2) by (metis list.set_map)
  show ?thesis
    unfolding numbers_dense_def c assms(2)
    using assms(1) s unfolding numbers_dense_def c by (metis imageE imageI)
qed

lemma numbers_dense_create:
  assumes dense: "numbers_dense d" and i: "inv_number i = next_invoice_number d start"
    and d': "invoices d' = invoices d @ [i]"
  shows "numbers_dense d'"
  unfolding numbers_dense_def
proof (intro allI ballI impI)
  fix t x
  let ?c = "\<lambda>d. count_where (\<lambda>i. starts_with (number_prefix t) (inv_number i)) (invoices d)"
  assume x: "x \<in> set (invoices d')" "starts_with (number_prefix t) (inv_number x)"
  have le: "?c d \<le> ?c d'" by (simp add: d')
  show "\<exists>k. k \<le> ?c d' \<and> inv_number x = number_prefix t @ zpad 4 k"
  proof (cases "x \<in> set (invoices d)")
    case True
    with dense x(2) obtain k where "k \<le> ?c d" "inv_number x = number_prefix t @ zpad 4 k"
      unfolding numbers_dense_def by blast
    with le show ?thesis by (meson le_trans)
  next
    case False
    then have xi: "x = i" using x(1) d' by simp
    let ?m = "count_where (\<lambda>i. starts_with (number_prefix start) (inv_number i)) (invoices d)"
    have n: "inv_number x = number_prefix start @ zpad 4 (?m + 1)"
      by (simp add: xi i next_invoice_number_def Let_def)
    have p: "number_prefix t = number_prefix start"
      using x(2) prefix_determined unfolding n by blast
    then have "?c d' = ?m + 1" using x(2) xi by (simp add: d')
    with n p show ?thesis by (intro exI [of _ "?m + 1"]) simp
  qed
qed

lemma invoice_step_dense:
  assumes "invoice_step d d'" "invoices_inv d" "numbers_dense d"
  shows "numbers_dense d'"
  using assms(1)
proof cases
  case (create cfg ids a now i)
  from create show ?thesis
  proof (rule create_once_tables)
    fix base start "end" quote pkp due j rs
    assume j: "j = draft_invoice ids a (next_invoice_number d start) (map_option (\<lambda>q. promo_code (quote_promo q)) quote)
       (price_breakdown base (arg_cycle a = Annual) pkp
         (case quote of None \<Rightarrow> 0 | Some q \<Rightarrow> quote_discount q)) start end due now"
      and i: "i = (if inv_total_idr j = 0 then paid_free now j else j)" and d': "invoices d' = invoices d @ [i]"
    have "inv_number i = next_invoice_number d start" using i by (simp add: j paid_free_def)
    from numbers_dense_create [OF assms(3) this d'] show ?thesis .
  qed
next
  case (send k now i')
  from send show ?thesis
  proof (rule invoice_send_Inr)
    fix i
    assume a: "get_invoice d k = Some i" "d' = save_invoice i' d"
      "i' = i\<lparr>inv_status := Sent, inv_sent_at := Some (or_else (inv_sent_at i) now), inv_updated_at := now\<rparr>"
    have "inv_id i' = k" "inv_number i' = inv_number i" using row_get_Some [OF a(1)] by (simp_all add: a(3))
    with a(1,2) assms(2) have "map inv_number (invoices d') = map inv_number (invoices d)"
      using map_row_replace [of inv_id "invoices d" k i inv_number i'] by (simp add: invoices_inv_def)
    then show ?thesis by (rule numbers_dense_same [OF assms(3)])
  qed
next
  case (pay k bank_ref now i')
  from pay show ?thesis
  proof (rule mark_paid_Inr)
    fix i
    assume a: "get_invoice d k = Some i" "i' = mark_paid_row i bank_ref now"
      "invoices d' = row_upd inv_id k (\<lambda>_. i') (invoices d)"
    have "inv_number i' = inv_number i" by (simp add: a(2) mark_paid_row_def)
    with a(1,3) assms(2) have "map inv_number (invoices d') = map inv_number (invoices d)"
      using map_row_replace [of inv_id "invoices d" k i inv_number i'] by (simp add: invoices_inv_def)
    then show ?thesis by (rule numbers_dense_same [OF assms(3)])
  qed
next
  case (void k now i')
  from void show ?thesis
  proof (rule invoice_void_Inr)
    fix i
    assume a: "get_invoice d k = Some i" "d' = release_for_invoice k now (save_invoice i' d)"
      "i' = i\<lparr>inv_status := Void, inv_request := None, inv_updated_at := now\<rparr>"
    have "inv_id i' = k" "inv_number i' = inv_number i" using row_get_Some [OF a(1)] by (simp_all add: a(3))
    with a(1,2) assms(2) have "map inv_number (invoices d') = map inv_number (invoices d)"
      using map_row_replace [of inv_id "invoices d" k i inv_number i'] by (simp add: invoices_inv_def)
    then show ?thesis by (rule numbers_dense_same [OF assms(3)])
  qed
qed

text \<open>the counted number is always free: as long as invoices are only created, sent, paid and
  voided (never deleted), the next number of every month is not in use, so a creation that runs
  alone never needs its retry loop for the number.\<close>

theorem invoice_number_free:
  assumes "invoice_step\<^sup>*\<^sup>* d d'" "invoices_inv d" "numbers_dense d"
  shows "next_invoice_number d' t \<notin> inv_number ` set (invoices d')"
proof -
  have "invoices_inv d' \<and> numbers_dense d'"
    using assms(1)
  proof (induction rule: rtranclp_induct)
    case (step y z)
    then show ?case using invoice_step_keeps invoice_step_dense by blast
  qed (use assms in simp)
  then show ?thesis using number_fresh by blast
qed

lemma create_attempts_result:
  "create_attempts cfg ids a clock world k n = Inr r \<Longrightarrow>
   \<exists>j. k \<le> j \<and> j < k + n \<and> create_once cfg (ids j) a (clock j) (world j) = Inr r
     \<and> (\<forall>m. k \<le> m \<and> m < j \<longrightarrow> create_once cfg (ids m) a (clock m) (world m) = Inl IntegrityError)"
proof (induction n arbitrary: k)
  case (Suc n)
  show ?case
  proof (cases "create_once cfg (ids k) a (clock k) (world k)")
    case (Inr x)
    then have "create_once cfg (ids k) a (clock k) (world k) = Inr r" using Suc.prems by simp
    then show ?thesis by (intro exI [of _ k]) auto
  next
    case (Inl e)
    then have e: "e = IntegrityError" and rec: "create_attempts cfg ids a clock world (Suc k) n = Inr r"
      using Suc.prems by (auto split: error.splits if_splits)
    from Suc.IH [OF rec] obtain j where j: "Suc k \<le> j" "j < Suc k + n"
      "create_once cfg (ids j) a (clock j) (world j) = Inr r"
      "\<forall>m. Suc k \<le> m \<and> m < j \<longrightarrow> create_once cfg (ids m) a (clock m) (world m) = Inl IntegrityError" by blast
    have "create_once cfg (ids m) a (clock m) (world m) = Inl IntegrityError" if "k \<le> m" "m < j" for m
      using that j(4) Inl e by (cases "m = k") auto
    with j show ?thesis by (intro exI [of _ j]) auto
  qed
qed simp

lemma create_attempts_no_integrity: "create_attempts cfg ids a clock world k n \<noteq> Inl IntegrityError"
  by (induction n arbitrary: k) (auto split: sum.splits error.splits)

text \<open>C20: the retry loop ends after at most three attempts; what it returns is what one attempt did on
  the database of that moment, all attempts before it having been refused by a constraint and rolled
  back; a refused constraint never reaches the caller as such.\<close>

theorem create_invoice_retries:
  "create_invoice cfg ids a clock world \<noteq> Inl IntegrityError
   \<and> (case create_invoice cfg ids a clock world of Inl e \<Rightarrow> True
      | Inr r \<Rightarrow> \<exists>j<3. create_once cfg (ids j) a (clock j) (world j) = Inr r
          \<and> (\<forall>m<j. create_once cfg (ids m) a (clock m) (world m) = Inl IntegrityError))"
proof (cases "create_invoice cfg ids a clock world")
  case (Inl e)
  then show ?thesis
    using create_attempts_no_integrity [of cfg ids a clock world 0 3] by (simp add: create_invoice_def)
next
  case (Inr r)
  from create_attempts_result [OF Inr [unfolded create_invoice_def]] show ?thesis by (auto simp: Inr)
qed

theorem create_invoice_retries_witness:
  "\<exists>j<3. create_once cfg0 (ids0 j) args0 t0 billing_db
     = create_invoice cfg0 ids0 args0 (\<lambda>_. t0) (\<lambda>_. billing_db)"
proof -
  have "create_invoice cfg0 ids0 args0 (\<lambda>_. t0) (\<lambda>_. billing_db) = Inr (inv100, invoiced_db)"
    by (simp add: create_invoice_def numeral_3_eq_3 create_inv100)
  with create_invoice_retries [of cfg0 ids0 args0 "\<lambda>_. t0" "\<lambda>_. billing_db"] show ?thesis by auto
qed

subsection \<open>Two defects\<close>

text \<open>The clash query reads at most one row with \<open>scalar_one_or_none\<close>, without a limit: an annual
  invoice over a year with two monthly invoices is an unhandled error instead of the conflict.\<close>

lemma annual_over_two_months_crashes:
  "create_once cfg0 (ids0 2) (args0\<lparr>arg_cycle := Annual, arg_promo_code := None\<rparr>) t0
     (billing_db\<lparr>invoices := [inv100, inv100\<lparr>inv_id := 110, inv_number := ''SX-202602-0001'',
        inv_period_start := 63905587200000000, inv_period_end := 63908006399999999\<rparr>]\<rparr>)
   = Inl MultipleResultsFound"
  by code_simp

text \<open>A quote of nothing (a free catalog row) is refused by the ledger's constraint on the discount,
  which the retry loop reports as a failure to find a number.\<close>

lemma zero_discount_is_a_number_conflict:
  "create_invoice cfg0 ids0 args0 (\<lambda>_. t0)
     (\<lambda>_. billing_db\<lparr>catalog := map (\<lambda>r. r\<lparr>cat_list_idr := 0\<rparr>) (catalog billing_db)\<rparr>)
   = Inl (HTTPError 409 ''Could not allocate a unique invoice number'')"
  by code_simp

end
