(* ===== verification/Billing.thy ===== *)
theory Billing
  imports Invoice
begin

text \<open>
  Payments (\<open>services/billing.py\<close>), the reminder schedule (\<open>services/billing_reminders.py\<close>) and the
  read-only gate of a lapsed workspace (\<open>services/billing_access.py\<close>).

  A webhook handler records its outcome even when it fails, so it is a function from the database to
  a result and the database it leaves committed. \<open>apply_gateway_event\<close> rolls back before it records a
  failure; the older \<open>apply_event\<close> commits what the failed handler had already changed. The answer of
  the payment gateway to a status query is a parameter (\<open>provider_reply\<close>), and so is
  \<open>datetime.fromisoformat\<close>.
\<close>

subsection \<open>Events\<close>

datatype event_kind = KIgnored | KPending | KFailed | KExpired | KCanceled | KSucceeded | KRefunded
  | KPartiallyRefunded | KChargeback | KOther string

fun kind_text :: "event_kind \<Rightarrow> string" where
  "kind_text KIgnored = ''ignored''" | "kind_text KPending = ''pending''"
| "kind_text KFailed = ''failed''" | "kind_text KExpired = ''expired''"
| "kind_text KCanceled = ''canceled''" | "kind_text KSucceeded = ''succeeded''"
| "kind_text KRefunded = ''refunded''" | "kind_text KPartiallyRefunded = ''partially_refunded''"
| "kind_text KChargeback = ''chargeback''" | "kind_text (KOther s) = s"

fun attempt_text :: "attempt_status \<Rightarrow> string" where
  "attempt_text APending = ''pending''" | "attempt_text ASucceeded = ''succeeded''"
| "attempt_text AFailed = ''failed''" | "attempt_text AExpired = ''expired''"
| "attempt_text ARefunded = ''refunded''"

fun attempt_rank :: "attempt_status \<Rightarrow> nat" where   \<comment> \<open>\<open>_ATTEMPT_RANK\<close>\<close>
  "attempt_rank APending = 0" | "attempt_rank AFailed = 1" | "attempt_rank AExpired = 1"
| "attempt_rank ASucceeded = 2" | "attempt_rank ARefunded = 3"

fun kind_rank :: "event_kind \<Rightarrow> nat" where   \<comment> \<open>\<open>_KIND_RANK.get(kind, 0)\<close>\<close>
  "kind_rank KPending = 0" | "kind_rank KFailed = 1" | "kind_rank KExpired = 1"
| "kind_rank KCanceled = 1" | "kind_rank KSucceeded = 2" | "kind_rank KRefunded = 3"
| "kind_rank KPartiallyRefunded = 3" | "kind_rank KChargeback = 3"
| "kind_rank KIgnored = 0" | "kind_rank (KOther s) = 0"

record normalized_event =
  ev_id :: string
  ev_kind :: event_kind
  ev_order_id :: "string option"
  ev_payment_id :: "string option"
  ev_amount_idr :: int
  ev_currency :: string
  ev_fee_idr :: int
  ev_refunded_idr :: int
  ev_method :: "string option"
  ev_failure_code :: "string option"
  ev_failure_message :: "string option"
  ev_raw :: "(string \<times> string) list"

definition REDACTED_KEYS :: "string list" where
  "REDACTED_KEYS = [''order_id'', ''transaction_id'', ''transaction_status'', ''status_code'',
     ''fraud_status'', ''gross_amount'', ''payment_type'', ''currency'']"

definition redacted_payload :: "(string \<times> string) list \<Rightarrow> (string \<times> string) list" where
  "redacted_payload raw = concat (map (\<lambda>k. case map_of raw k of None \<Rightarrow> [] | Some v \<Rightarrow> [(k, v)])
     REDACTED_KEYS)"

text \<open>\<open>str(exc)\<close>; the text of a driver error is left out.\<close>

fun error_text :: "error \<Rightarrow> string" where
  "error_text (HTTPError n s) = show_nat n @ '': '' @ s"
| "error_text (ApiError n c s) = show_nat n @ '': '' @ s"
| "error_text (ValueError s) = s"
| "error_text (BillingTransitionError s) = s"
| "error_text MultipleResultsFound = ''Multiple rows were found when one or none was required''"
| "error_text NoResultFound = ''No row was found when one was required''"
| "error_text IntegrityError = []"
| "error_text PendingRollbackError = []"
| "error_text OperationalError = []"
| "error_text (PaymentProviderError s t c) = s"
| "error_text (PaymentConfigError s) = s"
| "error_text (InvalidWebhookSignature s) = s"
| "error_text (MalformedWebhook s) = s"
| "error_text (ProviderUnavailable s) = s"

definition event_key :: "payment_event \<Rightarrow> string \<times> string" where
  "event_key e = (evt_provider e, evt_id e)"

definition find_event :: "db \<Rightarrow> string \<Rightarrow> string \<Rightarrow> payment_event option" where
  "find_event d provider k = row_get event_key (provider, k) (events d)"

definition put_event :: "payment_event \<Rightarrow> db \<Rightarrow> db" where
  "put_event e d = d\<lparr>events := (if row_get event_key (event_key e) (events d) = None then events d @ [e]
     else row_upd event_key (event_key e) (\<lambda>_. e) (events d))\<rparr>"

datatype event_result = Duplicate | Recorded event_status

subsection \<open>Gateway events\<close>

text \<open>What the gateway answers to \<open>fetch_status\<close>: there is no adapter or no such query, the query raised,
  it returned an error, it knows no transaction, or it reports a kind.\<close>

datatype provider_reply = NoFetchStatus | QueryRaised | QueryError | NoTransaction | Reports event_kind

definition verify_provider_status :: "provider_reply \<Rightarrow> event_kind option" where
  "verify_provider_status reply = (case reply of NoFetchStatus \<Rightarrow> Some KSucceeded
     | Reports k \<Rightarrow> Some k | _ \<Rightarrow> None)"

definition find_gateway_attempt :: "db \<Rightarrow> string \<Rightarrow> normalized_event \<Rightarrow> payment_attempt option" where
  "find_gateway_attempt d provider ev =
     (let order_ref = strip (str_or_empty (ev_order_id ev)) in
      if order_ref = [] then None
      else case first_row (filter (\<lambda>a. att_provider a = provider \<and> att_order_id a = Some order_ref) (attempts d)) of
        Some a \<Rightarrow> Some a
      | None \<Rightarrow> first_row (desc_by att_created_at
          (filter (\<lambda>a. att_provider a = provider \<and> att_provider_ref a = Some order_ref) (attempts d))))"

definition fail_attempt :: "string \<Rightarrow> string \<Rightarrow> datetime \<Rightarrow> payment_attempt \<Rightarrow> payment_attempt" where
  "fail_attempt code message now a = a\<lparr>att_status := AFailed, att_failed_at := Some now,
     att_failure_code := Some (take 64 code), att_failure_message := Some (take 255 message),
     att_updated_at := now\<rparr>"

definition is_current_period :: "invoice \<Rightarrow> datetime \<Rightarrow> bool" where
  "is_current_period i now \<longleftrightarrow> inv_product i = Scan \<and> inv_status i = Sent
     \<and> inv_period_start i \<le> now \<and> now \<le> inv_period_end i"

text \<open>The outcome of a handler: the event status, the error text it put on the event, the database.\<close>

type_synonym handled = "(event_status \<times> string option \<times> db) result"

definition past_due_if_active :: "uuid \<Rightarrow> datetime \<Rightarrow> db \<Rightarrow> db result" where
  "past_due_if_active organization now d = (case get_sub d organization of
     None \<Rightarrow> Inr d
   | Some s \<Rightarrow> if sub_status s = Active
       then ebind (transition s PastDue now) (\<lambda>s'. Inr (save_sub s' d)) else Inr d)"

definition settled_attempt :: "normalized_event \<Rightarrow> datetime \<Rightarrow> payment_attempt \<Rightarrow> payment_attempt" where
  "settled_attempt ev now a = a\<lparr>att_status := ASucceeded, att_succeeded_at := Some now,
     att_failed_at := None, att_failure_code := None, att_failure_message := None,
     att_method := or_str (ev_method ev) (att_method a), att_provider_status := Some ''succeeded'',
     att_payment_id := or_str (ev_payment_id ev) (att_payment_id a), att_fee_idr := ev_fee_idr ev,
     att_updated_at := now\<rparr>"

definition duplicate_settlement :: "normalized_event \<Rightarrow> datetime \<Rightarrow> payment_attempt \<Rightarrow> payment_attempt" where
  "duplicate_settlement ev now a =
     (let b = (if att_status a \<noteq> ASucceeded
               then a\<lparr>att_status := ASucceeded, att_succeeded_at := Some (or_else (att_succeeded_at a) now)\<rparr>
               else a)
      in b\<lparr>att_provider_status := Some ''duplicate'',
           att_payment_id := or_str (ev_payment_id ev) (att_payment_id a), att_updated_at := now\<rparr>)"

definition gateway_succeeded ::
    "uuid \<Rightarrow> payment_attempt \<Rightarrow> invoice \<Rightarrow> string \<Rightarrow> normalized_event \<Rightarrow> datetime \<Rightarrow> db \<Rightarrow> handled" where
  "gateway_succeeded sid a i provider ev now d =
     (case inv_status i of
        Paid \<Rightarrow> Inr (EProcessed, None, save_attempt (duplicate_settlement ev now a) d)
      | Void \<Rightarrow> Inr (EFailed, None, save_attempt (fail_attempt ''invoice_void'' ''invoice was voided'' now a) d)
      | _ \<Rightarrow>
        ebind (mark_paid (inv_id i) (ev_order_id ev) now d) (\<lambda>(i', d1).
        ebind (if inv_product i' = Scan
               then ebind (activate_from_invoice sid i' provider (ev_order_id ev) now d1) (\<lambda>(s, d2).
                 Inr (a\<lparr>att_subscription := Some (sub_id s)\<rparr>, d2))
               else Inr (a, d1)) (\<lambda>(b, d2).
        Inr (EProcessed, None, save_attempt (settled_attempt ev now b) d2))))"

definition failed_by_event :: "normalized_event \<Rightarrow> datetime \<Rightarrow> payment_attempt \<Rightarrow> payment_attempt" where
  "failed_by_event ev now a = a\<lparr>att_status := (if ev_kind ev = KFailed then AFailed else AExpired),
     att_failed_at := Some now,
     att_failure_code := none_if_empty (take 64 (str_or_empty (or_str (ev_failure_code ev) (att_failure_code a)))),
     att_failure_message :=
       none_if_empty (take 255 (str_or_empty (or_str (ev_failure_message ev) (att_failure_message a)))),
     att_provider_status := Some (kind_text (ev_kind ev)),
     att_payment_id := or_str (ev_payment_id ev) (att_payment_id a), att_updated_at := now\<rparr>"

definition gateway_refund :: "payment_attempt \<Rightarrow> normalized_event \<Rightarrow> datetime \<Rightarrow> db \<Rightarrow> handled" where
  "gateway_refund a ev now d =
     (if att_status a \<noteq> ASucceeded
      then Inr (EIgnored, Some (''refund for a non-settled attempt ('' @ attempt_text (att_status a) @ '')''), d)
      else
        let paid = att_amount_idr a;
            refunded = (if ev_kind ev \<noteq> KPartiallyRefunded \<and> ev_refunded_idr ev = 0 then paid
                        else ev_refunded_idr ev) in
        if refunded \<le> 0 \<or> paid < refunded
        then Inr (EFailed, Some (''invalid refund amount '' @ show_int refunded @ '' for paid '' @ show_int paid), d)
        else if ev_kind ev = KPartiallyRefunded \<and> paid \<le> refunded
        then Inr (EFailed, Some (''partial refund '' @ show_int refunded
          @ '' covers the full payment '' @ show_int paid), d)
        else Inr (EProcessed, None, save_attempt (a\<lparr>att_status := ARefunded, att_refunded_idr := refunded,
          att_provider_status := Some (kind_text (ev_kind ev)),
          att_payment_id := or_str (ev_payment_id ev) (att_payment_id a), att_updated_at := now\<rparr>) d))"

definition gateway_verified ::
    "settings \<Rightarrow> (string \<Rightarrow> payment_attempt \<Rightarrow> provider_reply) \<Rightarrow> string \<Rightarrow> payment_attempt \<Rightarrow> event_kind option" where
  "gateway_verified cfg query provider a =
     (if midtrans_verify_status cfg \<and> str_or_empty (att_order_id a) \<noteq> []
      then verify_provider_status (query provider a) else Some KSucceeded)"

text \<open>What an event of a matching amount and a sufficient rank does, by its kind.\<close>

definition gateway_dispatch ::
    "settings \<Rightarrow> (string \<Rightarrow> payment_attempt \<Rightarrow> provider_reply) \<Rightarrow> uuid \<Rightarrow> payment_attempt \<Rightarrow> invoice \<Rightarrow> string
     \<Rightarrow> normalized_event \<Rightarrow> datetime \<Rightarrow> db \<Rightarrow> handled" where
  "gateway_dispatch cfg query sid a i provider ev now d =
     (case ev_kind ev of
        KSucceeded \<Rightarrow> (case gateway_verified cfg query provider a of
          None \<Rightarrow> Inr (EFailed, Some ''provider status unavailable'',
            save_attempt (fail_attempt ''provider_status_unavailable'' ''could not confirm with provider'' now a) d)
        | Some v \<Rightarrow> if v \<noteq> KSucceeded
            then Inr (EFailed, Some (''provider status is '' @ kind_text v @ '', not settled''),
              save_attempt (fail_attempt ''provider_status_mismatch'' (''provider reports '' @ kind_text v) now a) d)
            else gateway_succeeded sid a i provider ev now d)
      | KPending \<Rightarrow> Inr (EProcessed, None, save_attempt (a\<lparr>att_provider_status := Some ''pending'',
          att_payment_id := or_str (ev_payment_id ev) (att_payment_id a),
          att_method := or_str (ev_method ev) (att_method a), att_updated_at := now\<rparr>) d)
      | KOther s \<Rightarrow> Inr (EFailed, Some (''unsupported event kind '' @ s), d)
      | KIgnored \<Rightarrow> Inr (EIgnored, None, d)
      | _ \<Rightarrow> if ev_kind ev \<in> {KFailed, KExpired, KCanceled}
        then let d1 = save_attempt (failed_by_event ev now a) d in
          ebind (if is_current_period i now then past_due_if_active (inv_org i) now d1 else Inr d1) (\<lambda>d2.
          Inr (EProcessed, None, d2))
        else gateway_refund a ev now d)"

definition gateway_apply ::
    "settings \<Rightarrow> (string \<Rightarrow> payment_attempt \<Rightarrow> provider_reply) \<Rightarrow> uuid \<Rightarrow> string \<Rightarrow> normalized_event \<Rightarrow> datetime
     \<Rightarrow> db \<Rightarrow> handled" where
  "gateway_apply cfg query sid provider ev now d =
     (if ev_kind ev = KIgnored then Inr (EIgnored, None, d)
      else case find_gateway_attempt d provider ev of
        None \<Rightarrow> Inr (EFailed, Some ''unknown attempt'', d)
      | Some a \<Rightarrow> (case att_invoice a of
        None \<Rightarrow> Inr (EFailed, Some ''attempt has no invoice'', d)
      | Some k \<Rightarrow> (case get_invoice d k of
        None \<Rightarrow> Inr (EFailed, Some ''unknown invoice'', d)
      | Some i \<Rightarrow>
        if ev_amount_idr ev \<noteq> inv_total_idr i
        then Inr (EFailed, None,
          save_attempt (fail_attempt ''amount_mismatch'' ''provider amount does not match the invoice'' now a) d)
        else if kind_rank (ev_kind ev) < attempt_rank (att_status a) then Inr (EIgnored, None, d)
        else gateway_dispatch cfg query sid a i provider ev now d)))"

definition new_event :: "string \<Rightarrow> string \<Rightarrow> string \<Rightarrow> (string \<times> string) list \<Rightarrow> event_status \<Rightarrow> datetime \<Rightarrow> payment_event" where
  "new_event provider k kind payload st now = \<lparr>evt_provider = provider, evt_id = k, evt_type = kind,
     evt_payload = payload, evt_status = st, evt_error = None, evt_received_at = now, evt_processed_at = None\<rparr>"

definition apply_gateway_event ::
    "settings \<Rightarrow> (string \<Rightarrow> payment_attempt \<Rightarrow> provider_reply) \<Rightarrow> uuid \<Rightarrow> string \<Rightarrow> normalized_event \<Rightarrow> datetime
     \<Rightarrow> db \<Rightarrow> event_result result \<times> db" where
  "apply_gateway_event cfg query sid provider ev now d =
     (let existing = find_event d provider (ev_id ev);
          payload = redacted_payload (ev_raw ev);
          fresh = new_event provider (ev_id ev) (kind_text (ev_kind ev)) payload in
      if (case existing of None \<Rightarrow> False | Some e \<Rightarrow> evt_status e \<noteq> EFailed) then (Inr Duplicate, d)
      else
        let r = (case existing of None \<Rightarrow> fresh EReceived now
                 | Some e \<Rightarrow> e\<lparr>evt_status := EReceived, evt_error := None, evt_processed_at := None\<rparr>) in
        case gateway_apply cfg query sid provider ev now (put_event r d) of
          Inl err \<Rightarrow> (Inl err, put_event ((case existing of None \<Rightarrow> fresh EFailed now | Some e \<Rightarrow> e)
            \<lparr>evt_status := EFailed, evt_error := Some (take 500 (error_text err)), evt_processed_at := Some now\<rparr>) d)
        | Inr (outcome, msg, d') \<Rightarrow> (Inr (Recorded outcome),
            put_event (r\<lparr>evt_status := outcome, evt_error := map_option (take 500) msg,
              evt_processed_at := Some now\<rparr>) d'))"

definition PAYMENT_EVENT_RETENTION_DAYS :: int where "PAYMENT_EVENT_RETENTION_DAYS = 365"

definition prune_payment_events :: "int \<Rightarrow> datetime \<Rightarrow> db \<Rightarrow> nat \<times> db" where
  "prune_payment_events retention_days now d =
     (let old = (\<lambda>e. evt_received_at e < now - retention_days * day_us \<and> evt_status e \<notin> {EReceived, EFailed}) in
      (count_where old (events d), d\<lparr>events := filter (\<lambda>e. \<not> old e) (events d)\<rparr>))"

subsection \<open>What one gateway event can do\<close>

lemma past_due_Inr:
  assumes "past_due_if_active u now d = Inr d'"
  obtains "d' = d"
  | s s' where "get_sub d u = Some s" "sub_status s = Active" "sub_status s' = PastDue" "sub_org s' = sub_org s"
      "d' = save_sub s' d"
proof (cases "get_sub d u")
  case None
  with assms that(1) show ?thesis by (simp add: past_due_if_active_def)
next
  case (Some s)
  show ?thesis
  proof (cases "sub_status s = Active")
    case True
    then have "transition s PastDue now = Inr (s\<lparr>sub_status := PastDue, sub_updated_at := now\<rparr>)"
      by (simp add: transition_def)
    with assms Some True show ?thesis
      by (intro that(2) [of s "s\<lparr>sub_status := PastDue, sub_updated_at := now\<rparr>"])
        (simp_all add: past_due_if_active_def)
  qed (use assms Some that(1) in \<open>simp add: past_due_if_active_def\<close>)
qed

lemma past_due_tables:
  assumes "past_due_if_active u now d = Inr d'"
  shows "invoices d' = invoices d" "orgs d' = orgs d" "attempts d' = attempts d" "redemptions d' = redemptions d"
    "events d' = events d" "promos d' = promos d" "tiers d' = tiers d" "requests d' = requests d"
    "catalog d' = catalog d"
  by (rule past_due_Inr [OF assms]; simp)+

text \<open>A settlement: the invoice is paid and, for the scan product, activated; or it was paid before
  (a duplicate), or void.\<close>

lemma gateway_succeeded_Inr:
  assumes "gateway_succeeded sid a i provider ev now d = Inr (st, msg, d')"
  obtains (duplicate) "inv_status i = Paid" "st = EProcessed" "d' = save_attempt (duplicate_settlement ev now a) d"
  | (void) "inv_status i = Void" "st = EFailed"
      "d' = save_attempt (fail_attempt ''invoice_void'' ''invoice was voided'' now a) d"
  | (settled) i' d1 d2 b where "st = EProcessed" "inv_status i = Draft \<or> inv_status i = Sent"
      "mark_paid (inv_id i) (ev_order_id ev) now d = Inr (i', d1)"
      "if inv_product i' = Scan then \<exists>s. activate_from_invoice sid i' provider (ev_order_id ev) now d1 = Inr (s, d2)
         \<and> b = a\<lparr>att_subscription := Some (sub_id s)\<rparr> else b = a \<and> d2 = d1"
      "d' = save_attempt (settled_attempt ev now b) d2"
proof -
  consider "inv_status i = Paid" | "inv_status i = Void" | "inv_status i = Draft \<or> inv_status i = Sent"
    by (cases "inv_status i") auto
  then show ?thesis
  proof cases
    case 3
    with assms obtain i' d1 b d2 where p: "mark_paid (inv_id i) (ev_order_id ev) now d = Inr (i', d1)"
      and q: "(if inv_product i' = Scan
               then ebind (activate_from_invoice sid i' provider (ev_order_id ev) now d1) (\<lambda>(s, d2).
                 Inr (a\<lparr>att_subscription := Some (sub_id s)\<rparr>, d2))
               else Inr (a, d1)) = Inr (b, d2)"
      and r: "d' = save_attempt (settled_attempt ev now b) d2" "st = EProcessed"
      by (auto simp: gateway_succeeded_def ebind_eq_Inr)
    from q have "if inv_product i' = Scan then \<exists>s. activate_from_invoice sid i' provider (ev_order_id ev) now d1 = Inr (s, d2)
         \<and> b = a\<lparr>att_subscription := Some (sub_id s)\<rparr> else b = a \<and> d2 = d1"
      by (auto simp: ebind_eq_Inr split: if_splits)
    with 3 p r show ?thesis by (intro settled)
  qed (use assms duplicate void in \<open>simp_all add: gateway_succeeded_def\<close>)
qed

lemma attempt_fields [simp]:
  "att_invoice (fail_attempt c m now a) = att_invoice a" "att_invoice (settled_attempt ev now a) = att_invoice a"
  "att_invoice (duplicate_settlement ev now a) = att_invoice a" "att_invoice (failed_by_event ev now a) = att_invoice a"
  "att_id (fail_attempt c m now a) = att_id a" "att_id (settled_attempt ev now a) = att_id a"
  "att_id (duplicate_settlement ev now a) = att_id a" "att_id (failed_by_event ev now a) = att_id a"
  "att_status (fail_attempt c m now a) = AFailed" "att_status (settled_attempt ev now a) = ASucceeded"
  "att_status (duplicate_settlement ev now a) = ASucceeded"
  "att_failure_code (fail_attempt c m now a) = Some (take 64 c)"
  "att_status (failed_by_event ev now a) = (if ev_kind ev = KFailed then AFailed else AExpired)"
  by (simp_all add: fail_attempt_def settled_attempt_def duplicate_settlement_def failed_by_event_def Let_def)

lemma gateway_refund_Inr:
  assumes "gateway_refund a ev now d = Inr (st, msg, d')"
  obtains "d' = d" "st \<noteq> EProcessed" | a' where "att_status a = ASucceeded" "att_id a' = att_id a"
      "att_status a' = ARefunded" "0 < att_refunded_idr a'" "att_refunded_idr a' \<le> att_amount_idr a"
      "ev_kind ev = KPartiallyRefunded \<Longrightarrow> att_refunded_idr a' < att_amount_idr a"
      "d' = save_attempt a' d" "st = EProcessed" "att_invoice a' = att_invoice a"
proof (cases "d' = d \<and> st \<noteq> EProcessed")
  case False
  define r where "r = (if ev_kind ev \<noteq> KPartiallyRefunded \<and> ev_refunded_idr ev = 0 then att_amount_idr a
    else ev_refunded_idr ev)"
  define a' where "a' = a\<lparr>att_status := ARefunded, att_refunded_idr := r,
    att_provider_status := Some (kind_text (ev_kind ev)),
    att_payment_id := or_str (ev_payment_id ev) (att_payment_id a), att_updated_at := now\<rparr>"
  have "att_status a = ASucceeded" "0 < r" "r \<le> att_amount_idr a"
    "ev_kind ev = KPartiallyRefunded \<Longrightarrow> r < att_amount_idr a" "d' = save_attempt a' d" "st = EProcessed"
    using assms False unfolding gateway_refund_def Let_def r_def [symmetric] a'_def [symmetric]
    by (auto split: if_splits)
  then show ?thesis by (intro that(2) [of a']) (simp_all add: a'_def)
qed (use that(1) in blast)

definition forced_failure :: "payment_attempt \<Rightarrow> bool" where
  "forced_failure a \<longleftrightarrow> att_status a = AFailed \<and> att_failure_code a \<in> Some `
     {''amount_mismatch'', ''provider_status_unavailable'', ''provider_status_mismatch'', ''invoice_void''}"

lemma gateway_dispatch_Inr:
  assumes "gateway_dispatch cfg query sid a i provider ev now d = Inr (st, msg, d')"
    and rank: "attempt_rank (att_status a) \<le> kind_rank (ev_kind ev)"
  obtains (same) "d' = d" "st \<noteq> EProcessed"
  | (attempt) a' where "att_id a' = att_id a" "d' = save_attempt a' d"
      "attempt_rank (att_status a) \<le> attempt_rank (att_status a') \<or> forced_failure a'" "att_invoice a' = att_invoice a"
  | (lapsed) "ev_kind ev \<in> {KFailed, KExpired, KCanceled}" "is_current_period i now"
      "past_due_if_active (inv_org i) now (save_attempt (failed_by_event ev now a) d) = Inr d'"
  | (settled) "ev_kind ev = KSucceeded" "gateway_verified cfg query provider a = Some KSucceeded"
      "inv_status i = Draft \<or> inv_status i = Sent" "gateway_succeeded sid a i provider ev now d = Inr (st, msg, d')"
proof -
  note unf = assms(1) [unfolded gateway_dispatch_def]
  consider (ok) "ev_kind ev = KSucceeded" "gateway_verified cfg query provider a = Some KSucceeded"
    | (unverified) "ev_kind ev = KSucceeded" "gateway_verified cfg query provider a = None"
    | (reports) v where "ev_kind ev = KSucceeded" "gateway_verified cfg query provider a = Some v" "v \<noteq> KSucceeded"
    | (pending) "ev_kind ev = KPending" | (other) s where "ev_kind ev = KOther s" | (ignored) "ev_kind ev = KIgnored"
    | (failed) "ev_kind ev \<in> {KFailed, KExpired, KCanceled}"
    | (refund) "ev_kind ev \<in> {KRefunded, KPartiallyRefunded, KChargeback}"
    by (cases "ev_kind ev"; cases "gateway_verified cfg query provider a") auto
  then show ?thesis
  proof cases
    case ok
    with unf have g: "gateway_succeeded sid a i provider ev now d = Inr (st, msg, d')" by simp
    from g show ?thesis
    proof (cases rule: gateway_succeeded_Inr)
      case duplicate
      with rank ok show ?thesis by (intro attempt [OF _ duplicate(3)]) simp_all
    next
      case void
      then show ?thesis by (intro attempt [OF _ void(3)]) (simp_all add: forced_failure_def)
    next
      case (settled i' d1 d2 b)
      with ok g show ?thesis by (intro that(4)) simp_all
    qed
  next
    case unverified
    then have "d' = save_attempt (fail_attempt ''provider_status_unavailable'' ''could not confirm with provider'' now a) d"
      using unf by simp
    then show ?thesis by (rule attempt [rotated]) (simp_all add: forced_failure_def)
  next
    case (reports v)
    then have "d' = save_attempt (fail_attempt ''provider_status_mismatch'' (''provider reports '' @ kind_text v) now a) d"
      using unf by simp
    then show ?thesis by (rule attempt [rotated]) (simp_all add: forced_failure_def)
  next
    case pending
    with unf show ?thesis by (intro attempt [of "a\<lparr>att_provider_status := Some ''pending'',
          att_payment_id := or_str (ev_payment_id ev) (att_payment_id a),
          att_method := or_str (ev_method ev) (att_method a), att_updated_at := now\<rparr>"]) simp_all
  next
    case failed
    have d': "(if is_current_period i now then past_due_if_active (inv_org i) now (save_attempt (failed_by_event ev now a) d)
        else Inr (save_attempt (failed_by_event ev now a) d)) = Inr d'"
      using failed unf by (auto simp: Let_def ebind_eq_Inr)
    show ?thesis
    proof (cases "is_current_period i now")
      case True
      with d' failed show ?thesis by (intro lapsed) simp_all
    next
      case False
      with d' failed rank show ?thesis by (intro attempt [of "failed_by_event ev now a"]) auto
    qed
  next
    case refund
    then have g: "gateway_refund a ev now d = Inr (st, msg, d')" using unf by (auto split: event_kind.splits)
    then show ?thesis
    proof (cases rule: gateway_refund_Inr)
      case 1
      then show ?thesis by (rule same)
    next
      case (2 a')
      then show ?thesis by (intro attempt [of a']) simp_all
    qed
  qed (use unf same in simp_all)
qed

lemma gateway_apply_Inr:
  assumes "gateway_apply cfg query sid provider ev now d = Inr (st, msg, d')"
  obtains (same) "d' = d" "st \<noteq> EProcessed"
  | (attempt) a a' where "find_gateway_attempt d provider ev = Some a" "att_id a' = att_id a"
      "d' = save_attempt a' d" "attempt_rank (att_status a) \<le> attempt_rank (att_status a') \<or> forced_failure a'"
      "att_invoice a' = att_invoice a"
  | (lapsed) a k i where "find_gateway_attempt d provider ev = Some a" "att_invoice a = Some k"
      "get_invoice d k = Some i" "ev_kind ev \<in> {KFailed, KExpired, KCanceled}" "attempt_rank (att_status a) \<le> 1"
      "is_current_period i now" "past_due_if_active (inv_org i) now (save_attempt (failed_by_event ev now a) d) = Inr d'"
  | (settled) a k i where "find_gateway_attempt d provider ev = Some a" "att_invoice a = Some k"
      "get_invoice d k = Some i" "ev_amount_idr ev = inv_total_idr i" "ev_kind ev = KSucceeded"
      "gateway_verified cfg query provider a = Some KSucceeded" "inv_status i = Draft \<or> inv_status i = Sent"
      "attempt_rank (att_status a) \<le> 2" "gateway_succeeded sid a i provider ev now d = Inr (st, msg, d')"
proof -
  note unf = assms [unfolded gateway_apply_def]
  consider "d' = d" "st \<noteq> EProcessed"
    | (found) a k i where "find_gateway_attempt d provider ev = Some a" "att_invoice a = Some k"
        "get_invoice d k = Some i" "ev_kind ev \<noteq> KIgnored"
    using unf by (auto split: if_splits option.splits)
  then show ?thesis
  proof cases
    case (found a k i)
    consider (mismatch) "ev_amount_idr ev \<noteq> inv_total_idr i"
      | (late) "ev_amount_idr ev = inv_total_idr i" "kind_rank (ev_kind ev) < attempt_rank (att_status a)"
      | (on) "ev_amount_idr ev = inv_total_idr i" "attempt_rank (att_status a) \<le> kind_rank (ev_kind ev)"
      by linarith
    then show ?thesis
    proof cases
      case mismatch
      with unf found have "d' = save_attempt
          (fail_attempt ''amount_mismatch'' ''provider amount does not match the invoice'' now a) d" by simp
      then show ?thesis by (rule attempt [OF found(1), rotated]) (auto simp: forced_failure_def)
    next
      case late
      with unf found show ?thesis by (intro same) simp_all
    next
      case on
      with unf found have g: "gateway_dispatch cfg query sid a i provider ev now d = Inr (st, msg, d')" by simp
      from g on(2) show ?thesis
      proof (cases rule: gateway_dispatch_Inr)
        case same
        then show ?thesis by (rule that(1))
      next
        case (attempt a')
        then show ?thesis by (rule that(2) [OF found(1)])
      next
        case lapsed
        with on(2) show ?thesis by (intro that(3) [OF found(1-3)]) auto
      next
        case settled
        with on show ?thesis by (intro that(4) [OF found(1-3)]) simp_all
      qed
    qed
  qed (rule same)
qed

subsection \<open>The event ledger\<close>

lemma activation_tables:
  assumes "if inv_product i' = Scan then \<exists>s. activate_from_invoice sid i' provider ref now d1 = Inr (s, d2)
     \<and> b = a\<lparr>att_subscription := Some (sub_id s)\<rparr> else b = a \<and> d2 = d1"
  shows "att_id b = att_id a" "invoices d2 = invoices d1" "events d2 = events d1" "attempts d2 = attempts d1"
    "redemptions d2 = redemptions d1" "promos d2 = promos d1" "tiers d2 = tiers d1" "requests d2 = requests d1"
    "catalog d2 = catalog d1"
  using assms activate_Inr [of sid i' provider ref now d1 _ d2] by (auto split: if_splits)

lemma gateway_apply_events:
  assumes "gateway_apply cfg query sid provider ev now d = Inr (st, msg, d')"
  shows "events d' = events d"
  using assms
proof (cases rule: gateway_apply_Inr)
  case (lapsed a k i)
  then show ?thesis using past_due_tables(5) by simp
next
  case (settled a k i)
  from settled(9) show ?thesis
  proof (cases rule: gateway_succeeded_Inr)
    case (settled i' d1 d2 b)
    from settled(3) have "events d1 = events d" by (rule mark_paid_Inr)
    with activation_tables [OF settled(4)] settled(5) show ?thesis by simp
  qed simp_all
qed simp_all

lemma event_key_simps [simp]:
  "event_key (e\<lparr>evt_status := s\<rparr>) = event_key e" "event_key (e\<lparr>evt_error := m\<rparr>) = event_key e"
  "event_key (e\<lparr>evt_processed_at := t\<rparr>) = event_key e"
  "event_key (new_event p k kind pl s now) = (p, k)"
  by (simp_all add: event_key_def new_event_def)

lemma find_put_event:
  "find_event (put_event e d) p k = (if event_key e = (p, k) then Some e else find_event d p k)"
  by (auto simp: find_event_def put_event_def row_get_append row_get_save split: option.splits)

lemma put_event_simps [simp]:
  "attempts (put_event e d) = attempts d" "invoices (put_event e d) = invoices d" "orgs (put_event e d) = orgs d"
  "subs (put_event e d) = subs d" "tiers (put_event e d) = tiers d" "redemptions (put_event e d) = redemptions d"
  "promos (put_event e d) = promos d" "requests (put_event e d) = requests d" "catalog (put_event e d) = catalog d"
  by (simp_all add: put_event_def)

lemma find_event_key: "find_event d p k = Some e \<Longrightarrow> event_key e = (p, k)"
  by (auto simp: find_event_def dest: row_get_Some)

lemma find_event_cong: "events d' = events d \<Longrightarrow> find_event d' p k = find_event d p k"
  by (simp add: find_event_def)

text \<open>The three outcomes of a delivery.\<close>

lemma apply_gateway_event_cases:
  assumes "apply_gateway_event cfg query sid provider ev now d = (r, d')"
  obtains (duplicate) e where "find_event d provider (ev_id ev) = Some e" "evt_status e \<noteq> EFailed" "r = Inr Duplicate" "d' = d"
  | (recorded) e st msg d1 e' where "r = Inr (Recorded st)" "event_key e = (provider, ev_id ev)"
      "gateway_apply cfg query sid provider ev now (put_event e d) = Inr (st, msg, d1)" "d' = put_event e' d1"
      "event_key e' = (provider, ev_id ev)" "evt_status e' = st"
      "\<And>x. find_event d provider (ev_id ev) = Some x \<Longrightarrow> evt_status x = EFailed"
  | (failed) e err e' where "r = Inl err" "event_key e = (provider, ev_id ev)"
      "gateway_apply cfg query sid provider ev now (put_event e d) = Inl err" "d' = put_event e' d"
      "event_key e' = (provider, ev_id ev)" "evt_status e' = EFailed" "evt_error e' = Some (take 500 (error_text err))"
      "\<And>x. find_event d provider (ev_id ev) = Some x \<Longrightarrow> evt_status x = EFailed"
proof (cases "case find_event d provider (ev_id ev) of None \<Rightarrow> False | Some e \<Rightarrow> evt_status e \<noteq> EFailed")
  case True
  then obtain e where e: "find_event d provider (ev_id ev) = Some e" "evt_status e \<noteq> EFailed" by (auto split: option.splits)
  with assms show ?thesis by (intro duplicate [OF e]) (simp_all add: apply_gateway_event_def Let_def)
next
  case False
  define fresh where "fresh = new_event provider (ev_id ev) (kind_text (ev_kind ev)) (redacted_payload (ev_raw ev))"
  define e where "e = (case find_event d provider (ev_id ev) of None \<Rightarrow> fresh EReceived now
     | Some e \<Rightarrow> e\<lparr>evt_status := EReceived, evt_error := None, evt_processed_at := None\<rparr>)"
  define f where "f = (case find_event d provider (ev_id ev) of None \<Rightarrow> fresh EFailed now | Some e \<Rightarrow> e)"
  have key: "event_key e = (provider, ev_id ev)" "event_key f = (provider, ev_id ev)"
    by (auto simp: e_def f_def fresh_def find_event_key split: option.splits)
  have old: "evt_status x = EFailed" if "find_event d provider (ev_id ev) = Some x" for x
    using False that by simp
  have run: "(case gateway_apply cfg query sid provider ev now (put_event e d) of
      Inl err \<Rightarrow> (Inl err, put_event (f\<lparr>evt_status := EFailed, evt_error := Some (take 500 (error_text err)),
        evt_processed_at := Some now\<rparr>) d)
    | Inr (outcome, msg, d') \<Rightarrow> (Inr (Recorded outcome), put_event (e\<lparr>evt_status := outcome,
        evt_error := map_option (take 500) msg, evt_processed_at := Some now\<rparr>) d')) = (r, d')"
    using assms unfolding apply_gateway_event_def Let_def if_not_P [OF False] fresh_def [symmetric]
      e_def [symmetric] f_def [symmetric] .
  show ?thesis
  proof (cases "gateway_apply cfg query sid provider ev now (put_event e d)")
    case (Inl err)
    with run show ?thesis by (intro failed [OF _ key(1) Inl _ _ _ _ old]) (auto simp: key)
  next
    case (Inr x)
    then obtain st msg d1 where x: "gateway_apply cfg query sid provider ev now (put_event e d) = Inr (st, msg, d1)"
      by (cases x) auto
    with run show ?thesis by (intro recorded [OF _ key(1) x _ _ _ old]) (auto simp: key)
  qed
qed

inductive gateway_step :: "db \<Rightarrow> db \<Rightarrow> bool" where
  "apply_gateway_event cfg query sid provider ev now d = (r, d') \<Longrightarrow> gateway_step d d'"

lemma gateway_step_events:
  assumes "gateway_step d d'" "find_event d p k = Some e" "evt_status e \<noteq> EFailed"
  shows "find_event d' p k = Some e"
  using assms(1)
proof cases
  case (1 cfg query sid provider ev now r)
  then show ?thesis
  proof (cases rule: apply_gateway_event_cases)
    case (recorded f st msg d1 e')
    then have "\<not> (provider = p \<and> ev_id ev = k)" using assms(2,3) by auto
    with recorded assms(2) gateway_apply_events [OF recorded(3)] show ?thesis
      by (auto simp: find_put_event find_event_cong [of d1 "put_event f d"])
  next
    case (failed f err e')
    then have "\<not> (provider = p \<and> ev_id ev = k)" using assms(2,3) by auto
    with failed assms(2) show ?thesis by (auto simp: find_put_event)
  qed (use assms in simp)
qed

lemma gateway_run_events:
  "gateway_step\<^sup>*\<^sup>* d d' \<Longrightarrow> find_event d p k = Some e \<Longrightarrow> evt_status e \<noteq> EFailed \<Longrightarrow> find_event d' p k = Some e"
  by (induction rule: rtranclp_induct) (auto intro: gateway_step_events)

lemma recorded_event:
  assumes "apply_gateway_event cfg query sid provider ev now d = (Inr (Recorded st), d')"
  obtains e where "find_event d' provider (ev_id ev) = Some e" "evt_status e = st"
  using assms
proof (cases rule: apply_gateway_event_cases)
  case (recorded e st' msg d1 e')
  then show ?thesis by (intro that [of e']) (simp_all add: find_put_event)
qed simp_all

subsection \<open>Sample deliveries\<close>

definition att104 :: payment_attempt where
  "att104 = \<lparr>att_id = 104, att_org = 9, att_subscription = None, att_invoice = Some 100,
     att_provider = ''midtrans'', att_provider_ref = None, att_order_id = Some ''ORD-1'', att_payment_id = None,
     att_token = None, att_checkout_url = None, att_expires_at = None, att_provider_status = None,
     att_seq = Some 1, att_created_by = Some 1, att_amount_idr = 250000, att_currency = ''IDR'',
     att_status = APending, att_method = None, att_failure_code = None, att_failure_message = None,
     att_fee_idr = 0, att_refunded_idr = 0, att_next_retry_at = None, att_succeeded_at = None,
     att_failed_at = None, att_created_at = t0, att_updated_at = t0\<rparr>"

definition settlement0 :: normalized_event where
  "settlement0 = \<lparr>ev_id = ''e1'', ev_kind = KSucceeded, ev_order_id = Some ''ORD-1'', ev_payment_id = Some ''tx'',
     ev_amount_idr = 250000, ev_currency = ''IDR'', ev_fee_idr = 0, ev_refunded_idr = 0, ev_method = Some ''qris'',
     ev_failure_code = None, ev_failure_message = None, ev_raw = [(''order_id'', ''ORD-1''), (''email'', ''a@x'')]\<rparr>"

definition refund0 :: normalized_event where
  "refund0 = settlement0\<lparr>ev_id := ''e2'', ev_kind := KRefunded\<rparr>"

definition confirmed :: "string \<Rightarrow> payment_attempt \<Rightarrow> provider_reply" where
  "confirmed provider a = Reports KSucceeded"

definition paying_db :: db where "paying_db = invoiced_db\<lparr>attempts := [att104]\<rparr>"

definition deliver :: "normalized_event \<Rightarrow> datetime \<Rightarrow> db \<Rightarrow> event_result result \<times> db" where
  "deliver ev now d = apply_gateway_event cfg0 confirmed 105 ''midtrans'' ev now d"

definition paid_db :: db where "paid_db = snd (deliver settlement0 (t0 + 5) paying_db)"
definition refunded_db :: db where "refunded_db = snd (deliver refund0 (t0 + 6) paid_db)"

lemma delivered:
  "apply_gateway_event cfg0 confirmed 105 ''midtrans'' settlement0 (t0 + 5) paying_db = (Inr (Recorded EProcessed), paid_db)"
  "apply_gateway_event cfg0 confirmed 105 ''midtrans'' refund0 (t0 + 6) paid_db = (Inr (Recorded EProcessed), refunded_db)"
proof -
  have "fst (deliver settlement0 (t0 + 5) paying_db) = Inr (Recorded EProcessed)" by code_simp
  then show "apply_gateway_event cfg0 confirmed 105 ''midtrans'' settlement0 (t0 + 5) paying_db = (Inr (Recorded EProcessed), paid_db)"
    by (metis deliver_def paid_db_def prod.collapse)
  have "fst (deliver refund0 (t0 + 6) paid_db) = Inr (Recorded EProcessed)" by code_simp
  then show "apply_gateway_event cfg0 confirmed 105 ''midtrans'' refund0 (t0 + 6) paid_db = (Inr (Recorded EProcessed), refunded_db)"
    by (metis deliver_def refunded_db_def prod.collapse)
qed

text \<open>C22: a gateway event is applied exactly once: after a delivery that was recorded as processed or
  ignored, and after any number of other deliveries by any provider, every further delivery with the
  same event id, whatever it carries, is answered as a duplicate and changes nothing.\<close>

theorem gateway_exactly_once:
  assumes "apply_gateway_event cfg query sid provider ev now d = (Inr (Recorded st), d1)" "st \<noteq> EFailed"
    "gateway_step\<^sup>*\<^sup>* d1 d2" "ev_id ev' = ev_id ev"
  shows "apply_gateway_event cfg' query' sid' provider ev' now' d2 = (Inr Duplicate, d2)"
proof -
  obtain e where "find_event d1 provider (ev_id ev) = Some e" "evt_status e = st"
    using recorded_event [OF assms(1)] .
  with gateway_run_events [OF assms(3)] assms(2,4) show ?thesis
    by (simp add: apply_gateway_event_def)
qed

theorem gateway_exactly_once_witness:
  "apply_gateway_event cfg0 confirmed 200 ''midtrans'' (settlement0\<lparr>ev_kind := KFailed\<rparr>) (t0 + 7) refunded_db
   = (Inr Duplicate, refunded_db)"
proof -
  have run: "gateway_step\<^sup>*\<^sup>* paid_db refunded_db"
    by (rule r_into_rtranclp [of gateway_step, OF gateway_step.intros [OF delivered(2)]])
  show ?thesis
    by (rule gateway_exactly_once [OF delivered(1) _ run]) simp_all
qed




subsection \<open>Money and access\<close>

text \<open>What a settlement leaves in the database.\<close>

lemma settlement:
  assumes "gateway_succeeded sid a i provider ev now d = Inr (st, msg, d')"
    and live: "inv_status i = Draft \<or> inv_status i = Sent" and i: "get_invoice d (inv_id i) = Some i"
  obtains i' where "st = EProcessed" "get_invoice d' (inv_id i) = Some i'" "inv_status i' = Paid"
    "invoices d' = row_upd inv_id (inv_id i) (\<lambda>_. i') (invoices d)" "i' = mark_paid_row i (ev_order_id ev) now"
    "redemptions d' = redemptions d" "promos d' = promos d" "tiers d' = tiers d"
    "inv_product i = Scan \<Longrightarrow> \<exists>s r. get_sub d' (inv_org i) = Some s \<and> sub_status s = Active \<and> sub_sku s = inv_sku i
       \<and> sub_period_start s = Some (inv_period_start i) \<and> sub_period_end s = Some (inv_period_end i)
       \<and> get_org d' (inv_org i) = Some r \<and> org_sku r = inv_sku i"
    "inv_product i \<noteq> Scan \<Longrightarrow> subs d' = subs d" "\<And>u. u \<noteq> inv_org i \<Longrightarrow> get_sub d' u = get_sub d u"
    "att_id a \<in> att_id ` set (attempts d) \<Longrightarrow>
       \<exists>b. get_attempt d' (att_id a) = Some b \<and> att_status b = ASucceeded"
  using assms(1)
proof (cases rule: gateway_succeeded_Inr)
  case (settled i' d1 d2 b)
  from settled(3) obtain i0 where p: "get_invoice d (inv_id i) = Some i0" "i' = mark_paid_row i0 (ev_order_id ev) now"
      "invoices d1 = row_upd inv_id (inv_id i) (\<lambda>_. i') (invoices d)" "redemptions d1 = redemptions d"
      "promos d1 = promos d" "tiers d1 = tiers d" "attempts d1 = attempts d" "subs d1 = subs d"
    by (rule mark_paid_Inr)
  with i have i': "i' = mark_paid_row i (ev_order_id ev) now" by simp
  note s = mark_paid_row_simps [of i "ev_order_id ev" now, folded i', unfolded same_invoice_def]
  note t = activation_tables [OF settled(4)]
  have act: "\<exists>s r. get_sub d2 (inv_org i) = Some s \<and> sub_status s = Active \<and> sub_sku s = inv_sku i
       \<and> sub_period_start s = Some (inv_period_start i) \<and> sub_period_end s = Some (inv_period_end i)
       \<and> get_org d2 (inv_org i) = Some r \<and> org_sku r = inv_sku i" if "inv_product i = Scan"
    using settled(4) that s activate_Inr [of sid i' provider "ev_order_id ev" now d1 _ d2] by auto
  have other: "get_sub d2 u = get_sub d1 u" if "u \<noteq> inv_org i" for u
    using settled(4) that s activate_Inr(8) [of sid i' provider "ev_order_id ev" now d1 _ d2 u] by (auto split: if_splits)
  have no: "subs d2 = subs d1" if "inv_product i \<noteq> Scan" using settled(4) that s by simp
  have g: "get_invoice d' (inv_id i) = Some i'"
    using i p(3) t(2) settled(5) s by (simp add: row_get_save)
  show ?thesis
  proof (rule that [OF settled(1) g _ _ i'])
    show "\<exists>b. get_attempt d' (att_id a) = Some b \<and> att_status b = ASucceeded"
      if "att_id a \<in> att_id ` set (attempts d)"
    proof -
      have "get_attempt d2 (att_id a) \<noteq> None" using that t(4) p(7) by (auto simp: row_get_None)
      with t(1) settled(5) show ?thesis by (auto simp: row_get_save)
    qed
  qed (use s p t settled(5) act no other in simp_all)
qed (use live in auto)

lemma find_gateway_attempt_mem: "find_gateway_attempt d provider ev = Some a \<Longrightarrow> a \<in> set (attempts d)"
  by (auto simp: find_gateway_attempt_def Let_def split: if_splits option.splits dest!: first_row_Some)

lemma find_gateway_attempt_cong:
  assumes "attempts d' = attempts d"
  shows "find_gateway_attempt d' p ev = find_gateway_attempt d p ev"
  unfolding find_gateway_attempt_def assms ..

text \<open>An event that makes an unpaid invoice paid.\<close>

lemma paid_by_event:
  assumes "apply_gateway_event cfg query sid provider ev now d = (r, d')"
    "get_invoice d k = Some i" "inv_status i \<noteq> Paid" "get_invoice d' k = Some j" "inv_status j = Paid"
  shows "r = Inr (Recorded EProcessed) \<and> ev_kind ev = KSucceeded \<and> ev_amount_idr ev = inv_total_idr i
    \<and> (\<exists>a. find_gateway_attempt d provider ev = Some a \<and> att_invoice a = Some k
         \<and> gateway_verified cfg query provider a = Some KSucceeded
         \<and> (\<exists>b. get_attempt d' (att_id a) = Some b \<and> att_status b = ASucceeded))
    \<and> (inv_product i = Scan \<longrightarrow> (\<exists>s u. get_sub d' (inv_org i) = Some s \<and> sub_status s = Active
         \<and> sub_sku s = inv_sku i \<and> sub_period_end s = Some (inv_period_end i)
         \<and> get_org d' (inv_org i) = Some u \<and> org_sku u = inv_sku i))"
  using assms(1)
proof (cases rule: apply_gateway_event_cases)
  case (recorded e st msg d1 e')
  have j: "get_invoice d1 k = Some j" using assms(4) recorded(4) by simp
  from recorded(3) show ?thesis
  proof (cases rule: gateway_apply_Inr)
    case (lapsed a k i)
    then show ?thesis using assms(2,3,5) j past_due_tables(1) by simp
  next
    case (settled a m x)
    have x: "get_invoice d m = Some x" "inv_id x = m" using settled(3) row_get_Some [OF settled(3)] by simp_all
    from settled(9) obtain i' where s: "st = EProcessed" "get_invoice d1 m = Some i'"
        "invoices d1 = row_upd inv_id m (\<lambda>_. i') (invoices d)" "i' = mark_paid_row x (ev_order_id ev) now"
        "inv_product x = Scan \<Longrightarrow> \<exists>s r. get_sub d1 (inv_org x) = Some s \<and> sub_status s = Active \<and> sub_sku s = inv_sku x
          \<and> sub_period_start s = Some (inv_period_start x) \<and> sub_period_end s = Some (inv_period_end x)
          \<and> get_org d1 (inv_org x) = Some r \<and> org_sku r = inv_sku x"
        "att_id a \<in> att_id ` set (attempts (put_event e d)) \<Longrightarrow>
          \<exists>b. get_attempt d1 (att_id a) = Some b \<and> att_status b = ASucceeded"
      by (rule settlement) (use settled(3,7) x in simp_all)
    have "m = k"
    proof (rule ccontr)
      assume "m \<noteq> k"
      then have "get_invoice d1 k = get_invoice d k"
        using s(3,4) x mark_paid_row_simps(1) [of x] by (simp add: row_get_save same_invoice_def)
      with j assms(2,3,5) show False by simp
    qed
    with x assms(2) have "x = i" by simp
    have "att_id a \<in> att_id ` set (attempts (put_event e d))"
      using find_gateway_attempt_mem [OF settled(1)] by simp
    with s(6) obtain b where b: "get_attempt d1 (att_id a) = Some b" "att_status b = ASucceeded" by blast
    have a: "find_gateway_attempt d provider ev = Some a"
      using settled(1) find_gateway_attempt_cong [of "put_event e d" d] by simp
    show ?thesis
      using recorded(1,4) s(1,5) settled(2,4-6) a b \<open>x = i\<close> \<open>m = k\<close> by auto
  qed (use assms j in simp_all)
qed (use assms in simp_all)



subsection \<open>Invoices and attempts under gateway events\<close>

lemma invoices_inv_cong:
  "invoices d' = invoices d \<Longrightarrow> redemptions d' = redemptions d \<Longrightarrow> invoices_inv d' = invoices_inv d"
  by (simp add: invoices_inv_def)

definition invoices_kept :: "db \<Rightarrow> db \<Rightarrow> bool" where
  "invoices_kept d d' \<longleftrightarrow> (invoices_inv d \<longrightarrow> invoices_inv d')
     \<and> (invoices_inv d \<longrightarrow> (\<forall>u x. get_invoice d u = Some x \<longrightarrow> (\<exists>y. get_invoice d' u = Some y \<and> invoice_progress x y)))"

lemma invoices_kept_refl: "invoices d' = invoices d \<Longrightarrow> redemptions d' = redemptions d \<Longrightarrow> invoices_kept d d'"
  unfolding invoices_kept_def using invoices_inv_cong [of d' d] by auto

lemma invoices_kept_trans: "invoices_kept d d' \<Longrightarrow> invoices_kept d' d'' \<Longrightarrow> invoices_kept d d''"
  unfolding invoices_kept_def by (meson invoice_progress_trans)

lemma invoices_kept_step: "invoice_step d d' \<Longrightarrow> invoices_kept d d'"
  unfolding invoices_kept_def using invoice_step_keeps by blast

lemma invoices_kept_paid:
  "mark_paid k ref now d = Inr (i, d1) \<Longrightarrow> invoices d' = invoices d1 \<Longrightarrow> redemptions d' = redemptions d1 \<Longrightarrow> invoices_kept d d'"
  by (blast intro: invoices_kept_trans invoices_kept_step invoice_step.pay invoices_kept_refl)

lemma gateway_apply_kept:
  assumes "gateway_apply cfg query sid provider ev now d = Inr (st, msg, d')"
  shows "invoices_kept d d'"
  using assms
proof (cases rule: gateway_apply_Inr)
  case (lapsed a k i)
  then show ?thesis using past_due_tables(1,4) by (simp add: invoices_kept_refl)
next
  case (settled a k i)
  from settled(9) show ?thesis
  proof (cases rule: gateway_succeeded_Inr)
    case (settled i' d1 d2 b)
    show ?thesis
      by (rule invoices_kept_paid [OF settled(3)])
        (use settled(5) activation_tables(2,5) [OF settled(4)] in simp_all)
  qed (simp_all add: invoices_kept_refl)
qed (simp_all add: invoices_kept_refl)

lemma gateway_step_kept: "gateway_step d d' \<Longrightarrow> invoices_kept d d'"
proof (induction rule: gateway_step.induct)
  case (1 cfg query sid provider ev now d r d')
  then show ?case
  proof (cases rule: apply_gateway_event_cases)
    case (recorded e st msg d1 e')
    have "invoices_kept d (put_event e d)" "invoices_kept d1 d'"
      using recorded(4) by (simp_all add: invoices_kept_refl)
    with gateway_apply_kept [OF recorded(3)] show ?thesis by (blast intro: invoices_kept_trans)
  qed (simp_all add: invoices_kept_refl)
qed

text \<open>One event writes at most one attempt, the one it names, and keeps its invoice.\<close>

lemma gateway_apply_one_attempt:
  assumes "gateway_apply cfg query sid provider ev now d = Inr (st, msg, d')"
  obtains "attempts d' = attempts d"
  | a a' where "find_gateway_attempt d provider ev = Some a" "att_id a' = att_id a" "att_invoice a' = att_invoice a"
      "attempts d' = row_upd att_id (att_id a) (\<lambda>_. a') (attempts d)"
      "attempt_rank (att_status a) \<le> attempt_rank (att_status a') \<or> forced_failure a'"
  using assms
proof (cases rule: gateway_apply_Inr)
  case (attempt c b)
  then show ?thesis using that(2) [OF attempt(1), of b] by simp
next
  case (lapsed c m i)
  then show ?thesis
    using that(2) [OF lapsed(1), of "failed_by_event ev now c"] past_due_tables(3) [OF lapsed(7)] by simp
next
  case (settled c m i)
  from settled(9) show ?thesis
  proof (cases rule: gateway_succeeded_Inr)
    case s: (settled i' d1 d2 b)
    have "attempts d1 = attempts d" using s(3) by (rule mark_paid_Inr)
    moreover have "att_invoice b = att_invoice c" using s(4) by (auto split: if_splits)
    ultimately show ?thesis
      using that(2) [OF settled(1), of "settled_attempt ev now b"] s(5) activation_tables(1,4) [OF s(4)] settled(8) s
      by simp
  qed (use settled(7) in auto)
qed (use that(1) in simp)

text \<open>How one event moves the attempts: only the attempt it names, only forward in rank or into one of
  the forced failures, and into the refunded status only from the settled one.\<close>

lemma gateway_apply_attempts:
  assumes "gateway_apply cfg query sid provider ev now d = Inr (st, msg, d')" "unique_by att_id (attempts d)"
    "get_attempt d k = Some a"
  shows "\<exists>b. get_attempt d' k = Some b \<and> (b = a \<or> find_gateway_attempt d provider ev = Some a \<and>
    (attempt_rank (att_status a) \<le> attempt_rank (att_status b) \<or> forced_failure b))"
proof -
  have moved: ?thesis if f: "find_gateway_attempt d provider ev = Some c" and b: "att_id b = att_id c"
      and e: "attempts d' = attempts (save_attempt b d)"
      and r: "attempt_rank (att_status c) \<le> attempt_rank (att_status b) \<or> forced_failure b" for b c
  proof (cases "k = att_id c")
    case True
    have "get_attempt d (att_id c) = Some c"
      using row_get_unique [OF assms(2) find_gateway_attempt_mem [OF f]] .
    with True assms(3) have "c = a" by simp
    with True f b e r assms(3) show ?thesis by (simp add: row_get_save)
  next
    case False
    with b e assms(3) show ?thesis by (simp add: row_get_save)
  qed
  from assms(1) show ?thesis
  proof (cases rule: gateway_apply_one_attempt)
    case 1
    with assms(3) show ?thesis by simp
  next
    case (2 c b)
    then show ?thesis using moved [of c b] by simp
  qed
qed

text \<open>the rank of a payment attempt never goes back (pending, then failed or expired, then
  succeeded, then refunded) and only the attempt the event names moves, with one exception the code
  makes on purpose or not: an event of a wrong amount, an unconfirmed success or a void invoice sets
  the attempt to failed, with its own failure code, whatever its rank was.\<close>

theorem gateway_attempt_monotone:
  assumes "apply_gateway_event cfg query sid provider ev now d = (r, d')" "unique_by att_id (attempts d)"
    "get_attempt d k = Some a"
  shows "\<exists>b. get_attempt d' k = Some b \<and> (b = a \<or> find_gateway_attempt d provider ev = Some a \<and>
    (attempt_rank (att_status a) \<le> attempt_rank (att_status b) \<or> forced_failure b))"
  using assms(1)
proof (cases rule: apply_gateway_event_cases)
  case (recorded e st msg d1 e')
  have c: "find_gateway_attempt (put_event e d) provider ev = find_gateway_attempt d provider ev"
    by (rule find_gateway_attempt_cong) simp
  show ?thesis
    using gateway_apply_attempts [OF recorded(3), of k a] assms(2,3) recorded(4) by (simp add: c)
qed (use assms(3) in simp_all)

lemma gateway_refund_tables:
  assumes "gateway_apply cfg query sid provider ev now d = Inr (st, msg, d')"
    "ev_kind ev \<in> {KRefunded, KPartiallyRefunded, KChargeback}"
  shows "invoices d' = invoices d \<and> orgs d' = orgs d \<and> subs d' = subs d \<and> redemptions d' = redemptions d"
  using assms(1) by (cases rule: gateway_apply_Inr) (use assms(2) in auto)

text \<open>a refund or chargeback is a record only: it never touches an invoice, a redemption, an
  organization or a subscription.\<close>

theorem refund_is_record_only:
  assumes "apply_gateway_event cfg query sid provider ev now d = (r, d')"
    "ev_kind ev \<in> {KRefunded, KPartiallyRefunded, KChargeback}"
  shows "invoices d' = invoices d \<and> orgs d' = orgs d \<and> subs d' = subs d \<and> redemptions d' = redemptions d"
  using assms(1)
proof (cases rule: apply_gateway_event_cases)
  case (recorded e st msg d1 e')
  with gateway_refund_tables [OF recorded(3) assms(2)] show ?thesis by simp
qed simp_all


end
