(* ===== verification/BillingOps.thy ===== *)
theory BillingOps
  imports Billing
begin

text \<open>
  The rest of \<open>services/billing.py\<close>: manual payments, the older generic webhook \<open>apply_event\<close>,
  cancellation and the admin reads; the reminder schedule (\<open>services/billing_reminders.py\<close>) and the
  read-only gate of a lapsed workspace (\<open>services/billing_access.py\<close>).

  \<open>record_invoice_payment\<close> commits twice and \<open>apply_event\<close> commits what a failed handler had changed, so
  both return the database next to their result. The standard library's \<open>UUID(str)\<close> and
  \<open>datetime.fromisoformat\<close> are parameters.
\<close>

subsection \<open>Manual payments\<close>

definition manual_attempt ::
    "uuid \<Rightarrow> invoice \<Rightarrow> subscription option \<Rightarrow> uuid \<Rightarrow> string \<Rightarrow> string option \<Rightarrow> datetime \<Rightarrow> payment_attempt" where
  "manual_attempt aid i sub actor how reference now = \<lparr>att_id = aid, att_org = inv_org i,
     att_subscription = map_option sub_id sub, att_invoice = Some (inv_id i), att_provider = ''manual'',
     att_provider_ref = reference, att_order_id = None, att_payment_id = None, att_token = None,
     att_checkout_url = None, att_expires_at = None, att_provider_status = None, att_seq = None,
     att_created_by = Some actor, att_amount_idr = inv_total_idr i, att_currency = ''IDR'',
     att_status = ASucceeded, att_method = Some how, att_failure_code = None, att_failure_message = None,
     att_fee_idr = 0, att_refunded_idr = 0, att_next_retry_at = None, att_succeeded_at = Some now,
     att_failed_at = None, att_created_at = now, att_updated_at = now\<rparr>"

text \<open>After the first commit: the subscription is activated and the attempt stored.\<close>

definition settle_manual ::
    "uuid \<Rightarrow> uuid \<Rightarrow> invoice \<Rightarrow> uuid \<Rightarrow> string \<Rightarrow> string option \<Rightarrow> datetime \<Rightarrow> db
     \<Rightarrow> (subscription option \<times> payment_attempt \<times> db) result" where
  "settle_manual sid aid i actor how reference now d =
     ebind (if inv_product i = Scan
            then ebind (activate_from_invoice sid i ''manual'' reference now d) (\<lambda>(s, d'). Inr (Some s, d'))
            else Inr (get_sub d (inv_org i), d)) (\<lambda>(sub, d1).
     let a = manual_attempt aid i sub actor how reference now in
     ebind (insert_attempt a d1) (\<lambda>d2. Inr (sub, a, d2)))"

definition record_invoice_payment ::
    "uuid \<Rightarrow> uuid \<Rightarrow> uuid \<Rightarrow> uuid \<Rightarrow> string \<Rightarrow> string option \<Rightarrow> datetime \<Rightarrow> db
     \<Rightarrow> (invoice \<times> subscription option \<times> payment_attempt) result \<times> db" where
  "record_invoice_payment sid aid k actor how reference now d =
     (case mark_paid k reference now d of
        Inl e \<Rightarrow> (Inl e, d)
      | Inr (i, d1) \<Rightarrow> (case settle_manual sid aid i actor how reference now d1 of
          Inl e \<Rightarrow> (Inl e, d1)
        | Inr (sub, a, d2) \<Rightarrow> (Inr (i, sub, a), d2)))"

definition record_manual_payment ::
    "uuid \<Rightarrow> uuid \<Rightarrow> uuid \<Rightarrow> uuid \<Rightarrow> uuid \<Rightarrow> string \<Rightarrow> string option \<Rightarrow> datetime \<Rightarrow> db
     \<Rightarrow> (invoice \<times> subscription option \<times> payment_attempt) result \<times> db" where
  "record_manual_payment sid aid organization k actor how reference now d =
     (case get_invoice d k of
        None \<Rightarrow> (Inl (HTTPError 404 ''Invoice not found''), d)
      | Some i \<Rightarrow> if inv_org i \<noteq> organization then (Inl (HTTPError 404 ''Invoice not found''), d)
          else record_invoice_payment sid aid k actor how reference now d)"

subsection \<open>The generic webhook\<close>

text \<open>A JSON value of the event's data: a string, or another value with its \<open>str()\<close> and its truth.\<close>

datatype data_value = DText string | DOther string bool

record event_in =
  pe_id :: string
  pe_type :: string
  pe_data :: "(string \<times> data_value) list"

definition data_text :: "event_in \<Rightarrow> string \<Rightarrow> string" where   \<comment> \<open>\<open>str(data.get(k) or "")\<close>\<close>
  "data_text ev k = (case map_of (pe_data ev) k of None \<Rightarrow> []
     | Some (DText s) \<Rightarrow> s | Some (DOther s truthy) \<Rightarrow> if truthy then s else [])"

definition data_string :: "event_in \<Rightarrow> string \<Rightarrow> string option" where   \<comment> \<open>\<open>isinstance(v, str) and v\<close>\<close>
  "data_string ev k = (case map_of (pe_data ev) k of Some (DText s) \<Rightarrow> none_if_empty s | _ \<Rightarrow> None)"

definition model_dump :: "event_in \<Rightarrow> (string \<times> string) list" where   \<comment> \<open>the nested data flattened\<close>
  "model_dump ev = [(''id'', pe_id ev), (''type'', pe_type ev)]
     @ map (\<lambda>(k, v). (''data.'' @ k, case v of DText s \<Rightarrow> s | DOther s _ \<Rightarrow> s)) (pe_data ev)"

fun utc_suffix :: "string \<Rightarrow> string" where   \<comment> \<open>\<open>replace("Z", "+00:00")\<close>\<close>
  "utc_suffix [] = []"
| "utc_suffix (c # s) = (if c = CHR ''Z'' then ''+00:00'' @ utc_suffix s else c # utc_suffix s)"

record std =
  parse_uuid :: "string \<Rightarrow> uuid option"
  fromisoformat :: "string \<Rightarrow> pydatetime option"

definition parse_dt :: "std \<Rightarrow> event_in \<Rightarrow> string \<Rightarrow> datetime option" where
  "parse_dt lib ev k = (case map_of (pe_data ev) k of
     Some (DText s) \<Rightarrow> if strip s = [] then None
       else map_option as_utc (fromisoformat lib (utc_suffix (strip s)))
   | _ \<Rightarrow> None)"

definition find_attempt :: "db \<Rightarrow> string \<Rightarrow> string option \<Rightarrow> payment_attempt option" where
  "find_attempt d provider ref = (case ref of None \<Rightarrow> None
     | Some s \<Rightarrow> if s = [] then None
         else first_row (desc_by att_created_at
           (filter (\<lambda>a. att_provider a = provider \<and> att_provider_ref a = Some s) (attempts d))))"

definition named_invoice :: "std \<Rightarrow> event_in \<Rightarrow> db \<Rightarrow> invoice option" where
  "named_invoice lib ev d = (case data_string ev ''invoice_id'' of None \<Rightarrow> None
     | Some s \<Rightarrow> (case parse_uuid lib s of None \<Rightarrow> None | Some k \<Rightarrow> get_invoice d k))"

definition webhook_attempt ::
    "uuid \<Rightarrow> invoice \<Rightarrow> string \<Rightarrow> string option \<Rightarrow> string option \<Rightarrow> datetime \<Rightarrow> payment_attempt" where
  "webhook_attempt aid i provider ref how now = \<lparr>att_id = aid, att_org = inv_org i,
     att_subscription = None, att_invoice = Some (inv_id i), att_provider = provider,
     att_provider_ref = ref, att_order_id = None, att_payment_id = None, att_token = None,
     att_checkout_url = None, att_expires_at = None, att_provider_status = None, att_seq = None,
     att_created_by = None, att_amount_idr = inv_total_idr i, att_currency = ''IDR'',
     att_status = APending, att_method = how, att_failure_code = None, att_failure_message = None,
     att_fee_idr = 0, att_refunded_idr = 0, att_next_retry_at = None, att_succeeded_at = None,
     att_failed_at = None, att_created_at = now, att_updated_at = now\<rparr>"

definition mark_settled :: "datetime \<Rightarrow> payment_attempt \<Rightarrow> payment_attempt" where
  "mark_settled now a = a\<lparr>att_status := ASucceeded, att_succeeded_at := Some now, att_failed_at := None,
     att_failure_code := None, att_failure_message := None, att_next_retry_at := None, att_updated_at := now\<rparr>"

text \<open>The last part of \<open>_apply_succeeded\<close>: the activation, and the link of the attempt to it.\<close>

definition finish_succeeded ::
    "uuid \<Rightarrow> string \<Rightarrow> string option \<Rightarrow> payment_attempt \<Rightarrow> invoice option \<Rightarrow> datetime \<Rightarrow> db \<Rightarrow> bool result \<times> db" where
  "finish_succeeded sid provider ref a found now d =
     (case (case found of None \<Rightarrow> (case att_invoice a of None \<Rightarrow> None | Some k \<Rightarrow> get_invoice d k) | Some i \<Rightarrow> Some i) of
        None \<Rightarrow> (Inr True, d)
      | Some i \<Rightarrow> if inv_product i \<noteq> Scan then (Inr True, d)
          else (case activate_from_invoice sid i provider ref now d of
              Inl e \<Rightarrow> (Inl e, d)
            | Inr (s, d') \<Rightarrow> (Inr True, save_attempt (a\<lparr>att_subscription := Some (sub_id s)\<rparr>) d')))"

definition apply_succeeded ::
    "std \<Rightarrow> uuid \<Rightarrow> uuid \<Rightarrow> string \<Rightarrow> event_in \<Rightarrow> datetime \<Rightarrow> db \<Rightarrow> bool result \<times> db" where
  "apply_succeeded lib sid aid provider ev now d =
     (let ref = none_if_empty (data_text ev ''payment_ref'');
          found = named_invoice lib ev d in
      case (case find_attempt d provider ref of
          Some a \<Rightarrow> Inr (Some (a, d))
        | None \<Rightarrow> (case found of None \<Rightarrow> Inr None
            | Some i \<Rightarrow> let a = webhook_attempt aid i provider ref (none_if_empty (data_text ev ''method'')) now in
                ebind (insert_attempt a d) (\<lambda>d1. Inr (Some (a, d1))))) of
        Inl e \<Rightarrow> (Inl e, d)
      | Inr None \<Rightarrow> (Inr False, d)
      | Inr (Some (a, d1)) \<Rightarrow>
          let a' = mark_settled now a; d2 = save_attempt a' d1 in
          if (case found of None \<Rightarrow> False | Some i \<Rightarrow> inv_status i \<in> {Draft, Sent})
          then (case mark_paid (inv_id (the found)) ref now d2 of
              Inl e \<Rightarrow> (Inl e, d2)
            | Inr (i, d3) \<Rightarrow> finish_succeeded sid provider ref a' (Some i) now d3)
          else finish_succeeded sid provider ref a' found now d2)"

definition apply_failed ::
    "std \<Rightarrow> string \<Rightarrow> event_in \<Rightarrow> bool \<Rightarrow> datetime \<Rightarrow> db \<Rightarrow> bool result \<times> db" where
  "apply_failed lib provider ev expired now d =
     (case find_attempt d provider (none_if_empty (data_text ev ''payment_ref'')) of
        None \<Rightarrow> (Inr False, d)
      | Some a \<Rightarrow>
          let d1 = save_attempt (a\<lparr>att_status := (if expired then AExpired else AFailed), att_failed_at := Some now,
                att_failure_code := none_if_empty (take 64 (data_text ev ''failure_code'')),
                att_failure_message := none_if_empty (take 255 (data_text ev ''failure_message'')),
                att_next_retry_at := parse_dt lib ev ''next_retry_at'', att_updated_at := now\<rparr>) d in
          if (case att_invoice a of None \<Rightarrow> False
              | Some k \<Rightarrow> (case get_invoice d1 k of None \<Rightarrow> False | Some i \<Rightarrow> inv_product i \<noteq> Scan))
          then (Inr True, d1)
          else (case past_due_if_active (att_org a) now d1 of
              Inl e \<Rightarrow> (Inl e, d1) | Inr d2 \<Rightarrow> (Inr True, d2)))"

definition sub_by_org :: "std \<Rightarrow> event_in \<Rightarrow> db \<Rightarrow> subscription option" where
  "sub_by_org lib ev d = (case data_string ev ''organization_id'' of None \<Rightarrow> None
     | Some s \<Rightarrow> (case parse_uuid lib s of None \<Rightarrow> None | Some u \<Rightarrow> get_sub d u))"

definition sub_by_ref :: "string \<Rightarrow> event_in \<Rightarrow> db \<Rightarrow> subscription option result" where
  "sub_by_ref provider ev d = (let ref = data_text ev ''subscription_ref'' in
     if ref = [] then Inr None
     else scalar_one_or_none (filter (\<lambda>s. sub_provider s = provider \<and> sub_provider_ref s = Some ref) (subs d)))"

definition apply_canceled :: "std \<Rightarrow> string \<Rightarrow> event_in \<Rightarrow> datetime \<Rightarrow> db \<Rightarrow> bool result \<times> db" where
  "apply_canceled lib provider ev now d =
     (case (case sub_by_org lib ev d of Some s \<Rightarrow> Inr (Some s) | None \<Rightarrow> sub_by_ref provider ev d) of
        Inl e \<Rightarrow> (Inl e, d)
      | Inr None \<Rightarrow> (Inr False, d)
      | Inr (Some s) \<Rightarrow> (case transition s Canceled now of
          Inl e \<Rightarrow> (Inl e, d)
        | Inr s' \<Rightarrow> (Inr True, save_sub (s'\<lparr>sub_canceled_at := Some now, sub_ended_at := Some now,
            sub_cancel_at_period_end := False, sub_updated_at := now\<rparr>) d)))"

definition renewed_period :: "std \<Rightarrow> event_in \<Rightarrow> subscription \<Rightarrow> subscription" where
  "renewed_period lib ev s =
     (let start = (case parse_dt lib ev ''period_start'' of None \<Rightarrow> sub_period_start s | Some t \<Rightarrow> Some t);
          end = (case parse_dt lib ev ''period_end'' of None \<Rightarrow> sub_period_end s | Some t \<Rightarrow> Some t) in
      s\<lparr>sub_period_start := start, sub_period_end := end, sub_cycle := cycle_for start end\<rparr>)"

definition apply_renewed :: "std \<Rightarrow> string \<Rightarrow> event_in \<Rightarrow> datetime \<Rightarrow> db \<Rightarrow> bool result \<times> db" where
  "apply_renewed lib provider ev now d =
     (case ebind (sub_by_ref provider ev d) (\<lambda>s. Inr (case s of Some s \<Rightarrow> Some s | None \<Rightarrow> sub_by_org lib ev d)) of
        Inl e \<Rightarrow> (Inl e, d)
      | Inr None \<Rightarrow> (Inr False, d)
      | Inr (Some s) \<Rightarrow> (case transition (renewed_period lib ev s) Active now of
          Inl e \<Rightarrow> (Inl e, save_sub (renewed_period lib ev s) d)
        | Inr s' \<Rightarrow> (Inr True, save_sub (s'\<lparr>sub_cancel_at_period_end := False, sub_updated_at := now\<rparr>) d)))"

definition run_event ::
    "std \<Rightarrow> uuid \<Rightarrow> uuid \<Rightarrow> string \<Rightarrow> event_in \<Rightarrow> datetime \<Rightarrow> db \<Rightarrow> bool result \<times> db" where
  "run_event lib sid aid provider ev now d =
     (if pe_type ev = ''payment.succeeded'' then apply_succeeded lib sid aid provider ev now d
      else if pe_type ev = ''payment.failed'' then apply_failed lib provider ev False now d
      else if pe_type ev = ''payment.expired'' then apply_failed lib provider ev True now d
      else if pe_type ev = ''subscription.canceled'' then apply_canceled lib provider ev now d
      else if pe_type ev = ''subscription.renewed'' then apply_renewed lib provider ev now d
      else (Inr False, d))"

text \<open>A failed flush leaves the session unusable, so the commit that should record the failure raises
  instead; any other exception is recorded, and what the handler had changed is committed with it.\<close>

definition apply_event ::
    "std \<Rightarrow> uuid \<Rightarrow> uuid \<Rightarrow> string \<Rightarrow> event_in \<Rightarrow> datetime \<Rightarrow> db \<Rightarrow> event_result result \<times> db" where
  "apply_event lib sid aid provider ev now d =
     (let existing = find_event d provider (pe_id ev) in
      if (case existing of None \<Rightarrow> False | Some e \<Rightarrow> evt_status e \<noteq> EFailed) then (Inr Duplicate, d)
      else
        let r = (case existing of
              None \<Rightarrow> new_event provider (pe_id ev) (pe_type ev) (model_dump ev) EReceived now
            | Some e \<Rightarrow> e\<lparr>evt_status := EReceived, evt_error := None, evt_processed_at := None\<rparr>) in
        case run_event lib sid aid provider ev now (put_event r d) of
          (Inl err, d') \<Rightarrow> if err = IntegrityError then (Inl PendingRollbackError, d)
            else (Inl err, put_event (r\<lparr>evt_status := EFailed, evt_error := Some (take 500 (error_text err)),
              evt_processed_at := Some now\<rparr>) d')
        | (Inr handled, d') \<Rightarrow> let outcome = (if handled then EProcessed else EIgnored) in
            (Inr (Recorded outcome), put_event (r\<lparr>evt_status := outcome, evt_processed_at := Some now\<rparr>) d'))"

subsection \<open>Cancellation and reads\<close>

definition sub_found :: "db \<Rightarrow> uuid \<Rightarrow> subscription result" where
  "sub_found d u = get_or (HTTPError 404 ''Subscription not found'') (get_sub d u)"

definition sub_cancel :: "uuid \<Rightarrow> bool \<Rightarrow> string \<Rightarrow> datetime \<Rightarrow> db \<Rightarrow> (subscription \<times> db) result" where
  "sub_cancel u at_period_end note_text now d = ebind (sub_found d u) (\<lambda>s.
     ebind (raise_if (sub_status s = Canceled) (HTTPError 409 ''Subscription is already canceled'')) (\<lambda>_.
     ebind (if at_period_end then
              ebind (raise_if (sub_status s = Incomplete)
                (HTTPError 409 ''An incomplete subscription has no period to finish'')) (\<lambda>_.
              Inr (s\<lparr>sub_cancel_at_period_end := True, sub_cancel_note := take 500 (strip note_text)\<rparr>))
            else ebind (transition s Canceled now) (\<lambda>s'.
              Inr (s'\<lparr>sub_cancel_at_period_end := False, sub_cancel_note := take 500 (strip note_text),
                sub_canceled_at := Some now, sub_ended_at := Some now\<rparr>))) (\<lambda>s'.
     let s'' = s'\<lparr>sub_updated_at := now\<rparr> in Inr (s'', save_sub s'' d))))"

definition request_cancellation :: "uuid \<Rightarrow> string \<Rightarrow> datetime \<Rightarrow> db \<Rightarrow> (subscription \<times> db) result" where
  "request_cancellation u note_text now d = ebind (sub_found d u) (\<lambda>s.
     ebind (raise_if (sub_status s = Canceled) (HTTPError 409 ''Subscription is already canceled'')) (\<lambda>_.
     ebind (raise_if (sub_status s = Incomplete \<or> sub_period_end s = None)
       (HTTPError 409 ''There is no paid period to finish'')) (\<lambda>_.
     let s' = s\<lparr>sub_cancel_at_period_end := True, sub_cancel_note := take 500 (strip note_text), sub_updated_at := now\<rparr>
     in Inr (s', save_sub s' d))))"

definition sub_resume :: "uuid \<Rightarrow> datetime \<Rightarrow> db \<Rightarrow> (subscription \<times> db) result" where
  "sub_resume u now d = ebind (sub_found d u) (\<lambda>s.
     ebind (raise_if (sub_status s = Canceled)
       (HTTPError 409 ''This subscription has ended; renew to start a new period'')) (\<lambda>_.
     ebind (raise_if (\<not> sub_cancel_at_period_end s) (HTTPError 409 ''Cancellation is not scheduled'')) (\<lambda>_.
     let s' = s\<lparr>sub_cancel_at_period_end := False, sub_cancel_note := [], sub_updated_at := now\<rparr>
     in Inr (s', save_sub s' d))))"

definition sub_list_admin :: "sub_status option \<Rightarrow> nat \<Rightarrow> nat \<Rightarrow> db \<Rightarrow> (subscription \<times> string) list \<times> nat" where
  "sub_list_admin status page page_size d =
     (let sel = filter (\<lambda>s. status = None \<or> status = Some (sub_status s)) (subs d) in
      (page_of page page_size (concat (map (\<lambda>s. case get_org d (sub_org s) of
          None \<Rightarrow> [] | Some r \<Rightarrow> [(s, org_name r)]) (desc_by sub_updated_at sel))), length sel))"

definition sub_detail :: "uuid \<Rightarrow> db \<Rightarrow> (subscription \<times> string option \<times> payment_attempt list) result" where
  "sub_detail u d = ebind (sub_found d u) (\<lambda>s.
     Inr (s, map_option org_name (get_org d u),
       take 20 (desc_by att_created_at (filter (\<lambda>a. att_org a = u) (attempts d)))))"

subsection \<open>Reminders\<close>

definition REMINDER_STAGES :: "(string \<times> int) list" where
  "REMINDER_STAGES = [(''due_soon'', -3), (''due_today'', 0), (''overdue_1'', 3), (''overdue_2'', 7),
     (''final'', 14), (''suspend_notice'', 30)]"

definition stage_rank :: "string option \<Rightarrow> nat" where
  "stage_rank stage = (case stage of None \<Rightarrow> 0
     | Some s \<Rightarrow> or_else (map_of (zip (map fst REMINDER_STAGES) [1 ..< 7]) s) 0)"

definition due_stage :: "datetime \<Rightarrow> datetime \<Rightarrow> string option" where
  "due_stage due now = foldl (\<lambda>candidate (name, offset). if offset \<le> date_of now - date_of due then Some name else candidate)
     None REMINDER_STAGES"

definition next_stage :: "datetime \<Rightarrow> datetime \<Rightarrow> string option \<Rightarrow> string option" where
  "next_stage due now last_stage = (case due_stage due now of None \<Rightarrow> None
     | Some s \<Rightarrow> if stage_rank (Some s) \<le> stage_rank last_stage then None else Some s)"

definition first_contact_stage :: "datetime \<Rightarrow> datetime \<Rightarrow> datetime option \<Rightarrow> string option" where
  "first_contact_stage due now sent_at = (case due_stage due now of None \<Rightarrow> None
     | Some s \<Rightarrow> if (case sent_at of None \<Rightarrow> False | Some t \<Rightarrow> date_of due < date_of t)
           \<and> stage_rank (Some ''overdue_1'') < stage_rank (Some s) then Some ''overdue_1'' else Some s)"

subsection \<open>The read-only gate\<close>

definition billing_write_block :: "db \<Rightarrow> uuid \<Rightarrow> string option result" where
  "billing_write_block d u = (case get_org d u of None \<Rightarrow> Inr None
     | Some r \<Rightarrow> ebind (tier_get d (org_sku r)) (\<lambda>t.
         if feat_billing_unrestricted (from_tier t) then Inr None
         else (case get_sub d u of None \<Rightarrow> Inr None
           | Some s \<Rightarrow> if sub_status s = Canceled then Inr (Some ''subscription_canceled'')
               else if sub_status s \<in> {PastDue, Canceled} then Inr (Some ''payment_overdue'') else Inr None)))"

definition read_only_message :: "string \<Rightarrow> string" where
  "read_only_message reason = (if reason = ''subscription_canceled''
     then ''This workspace is read-only because the subscription has ended. Renew to create scans, sites, monitors, or agents.''
     else ''This workspace is read-only because the invoice is overdue. Settle the invoice to create scans, sites, monitors, or agents.'')"

definition raise_if_blocked :: "db \<Rightarrow> uuid \<Rightarrow> unit result" where
  "raise_if_blocked d u = ebind (billing_write_block d u) (\<lambda>reason. case reason of None \<Rightarrow> Inr ()
     | Some s \<Rightarrow> Inl (HTTPError 403 (read_only_message s)))"

definition require_billing_write :: "db \<Rightarrow> uuid option \<Rightarrow> unit result" where
  "require_billing_write d active_org = (case active_org of None \<Rightarrow> Inr () | Some u \<Rightarrow> raise_if_blocked d u)"

definition require_billing_write_org :: "db \<Rightarrow> uuid \<Rightarrow> unit result" where
  "require_billing_write_org d u = raise_if_blocked d u"

definition require_billing_write_member :: "db \<Rightarrow> uuid \<Rightarrow> uuid \<Rightarrow> uuid \<Rightarrow> unit result" where
  "require_billing_write_member d u member current_user =
     (if member = current_user then Inr () else raise_if_blocked d u)"

subsection \<open>A manual payment is never left half done\<close>

lemma activate_total:
  assumes "get_org d (inv_org i) = Some r"
    and "inv_product i = Scan \<Longrightarrow> \<exists>t. tier_get d (inv_sku i) = Inr t \<and> \<not> retired t (Some r) (inv_sku i)"
  shows "\<exists>s d'. activate_from_invoice sid i provider ref now d = Inr (s, d')"
proof -
  obtain r' where r': "(if inv_product i = Scan then
        ebind (tier_get d (inv_sku i)) (\<lambda>t.
        ebind (raise_if (retired t (Some r) (inv_sku i)) (HTTPError 409 ''Tier is retired'')) (\<lambda>_.
        Inr (r\<lparr>org_sku := inv_sku i, org_updated_at := now\<rparr>))) else Inr r) = Inr r'"
    using assms(2) by (cases "inv_product i = Scan") auto
  obtain s d1 where s: "get_or_create_subscription sid r' now (save_org r' d) = (s, d1)" by fastforce
  obtain s' where "transition s Active now = Inr s'" using transition_active by blast
  then show ?thesis by (simp add: activate_from_invoice_def assms(1) r' s Let_def)
qed

lemma mark_paid_tier:
  assumes "mark_paid k ref now d = Inr (i, d1)" "inv_product i = Scan"
  shows "\<exists>t. tier_get d (inv_sku i) = Inr t"
proof -
  obtain i0 where i0: "get_invoice d k = Some i0" "i = mark_paid_row i0 ref now" using assms(1) by (rule mark_paid_Inr)
  then have "inv_product i0 = Scan" "inv_sku i = inv_sku i0"
    using assms(2) mark_paid_row_simps(1) [of i0 ref now] by (simp_all add: same_invoice_def)
  with assms(1) i0(1) show ?thesis
    by (auto simp: mark_paid_def ebind_eq_Inr invoice_get_def Let_def)
qed

lemma mark_paid_org:
  assumes "mark_paid k ref now d = Inr (i, d1)" "get_org d (inv_org i) = Some r"
  shows "\<exists>r1. get_org d1 (inv_org i) = Some r1 \<and> (inv_product i = Scan \<longrightarrow> org_sku r1 = inv_sku i)"
  using assms(1)
proof (cases rule: mark_paid_Inr)
  case (1 i0)
  note same = mark_paid_row_simps(1) [of i0 ref now, folded 1(3), unfolded same_invoice_def]
  show ?thesis
    using 1(12) 1(13) [of "inv_org i"] assms(2) same by (cases "inv_product i0 = Scan") auto
qed

lemma tier_get_cong: "tiers d' = tiers d \<Longrightarrow> tier_get d' c = tier_get d c"
  by (simp add: tier_get_def)

lemma insert_attempt_succeeded:
  "attempt_ok a \<Longrightarrow> att_id a \<notin> att_id ` set (attempts d) \<Longrightarrow> att_order_id a = None \<Longrightarrow> att_status a = ASucceeded \<Longrightarrow>
   insert_attempt a d = Inr (d\<lparr>attempts := attempts d @ [a]\<rparr>)"
  by (simp add: insert_attempt_def)

lemma unblocked_active:
  "get_org d u = Some r \<Longrightarrow> tier_get d (org_sku r) = Inr t \<Longrightarrow> get_sub d u = Some s \<Longrightarrow> sub_status s = Active \<Longrightarrow>
   billing_write_block d u = Inr None"
  by (simp add: billing_write_block_def)

lemma settle_manual_total:
  assumes "get_org d (inv_org i) = Some r" "0 \<le> inv_total_idr i" "aid \<notin> att_id ` set (attempts d)"
    and tier: "inv_product i = Scan \<Longrightarrow> \<exists>t. tier_get d (inv_sku i) = Inr t \<and> \<not> retired t (Some r) (inv_sku i)"
  obtains sub d1 where
    "settle_manual sid aid i actor how ref now d = Inr (sub, manual_attempt aid i sub actor how ref now,
       d1\<lparr>attempts := attempts d1 @ [manual_attempt aid i sub actor how ref now]\<rparr>)"
    "invoices d1 = invoices d" "attempts d1 = attempts d" "tiers d1 = tiers d"
    "inv_product i = Scan \<Longrightarrow> \<exists>s r. sub = Some s \<and> get_sub d1 (inv_org i) = Some s \<and> sub_status s = Active
       \<and> get_org d1 (inv_org i) = Some r \<and> org_sku r = inv_sku i"
proof -
  have ok: "attempt_ok (manual_attempt aid i sub actor how ref now)" for sub
    using assms(2) by (simp add: attempt_ok_def manual_attempt_def)
  have ins: "insert_attempt (manual_attempt aid i sub actor how ref now) d1
      = Inr (d1\<lparr>attempts := attempts d1 @ [manual_attempt aid i sub actor how ref now]\<rparr>)"
    if "attempts d1 = attempts d" for d1 sub
    using that assms(3) by (intro insert_attempt_succeeded [OF ok]) (simp_all add: manual_attempt_def)
  show ?thesis
  proof (cases "inv_product i = Scan")
    case True
    obtain s d1 where a: "activate_from_invoice sid i ''manual'' ref now d = Inr (s, d1)"
      using activate_total [OF assms(1) tier] by blast
    note act = activate_Inr [OF a]
    show ?thesis
      by (rule that [of "Some s" d1]) (use True a act(1,2,9) act(10,11,14) ins in \<open>auto simp: settle_manual_def Let_def\<close>)
  next
    case False
    then show ?thesis
      by (intro that [of "get_sub d (inv_org i)" d]) (use ins in \<open>simp_all add: settle_manual_def Let_def\<close>)
  qed
qed

text \<open>C28: the two commits of a manual payment do not come apart: whenever the first one (the invoice is
  marked paid) succeeds for an existing organization, the second one succeeds too, so the payment is
  recorded for the total of the invoice and, for the scan product, the subscription is active and the
  read-only gate of the organization is open.\<close>

theorem manual_payment_complete:
  assumes "mark_paid k ref now d = Inr (i, d1)" "0 \<le> inv_total_idr i" "get_org d (inv_org i) = Some r"
    "aid \<notin> att_id ` set (attempts d)"
  shows "\<exists>sub a d'. record_invoice_payment sid aid k actor how ref now d = (Inr (i, sub, a), d')
    \<and> get_invoice d' k = Some i \<and> inv_status i = Paid
    \<and> a \<in> set (attempts d') \<and> att_status a = ASucceeded \<and> att_amount_idr a = inv_total_idr i
    \<and> (inv_product i = Scan \<longrightarrow> (\<exists>s. sub = Some s \<and> get_sub d' (inv_org i) = Some s \<and> sub_status s = Active
         \<and> billing_write_block d' (inv_org i) = Inr None))"
proof -
  obtain i0 where i0: "get_invoice d k = Some i0" "i = mark_paid_row i0 ref now"
    "invoices d1 = row_upd inv_id k (\<lambda>_. i) (invoices d)" "attempts d1 = attempts d" "tiers d1 = tiers d"
    using assms(1) by (rule mark_paid_Inr)
  note same = mark_paid_row_simps [of i0 ref now, folded i0(2), unfolded same_invoice_def]
  have k: "get_invoice d1 k = Some i"
    using i0(1,3) same row_get_Some [OF i0(1)] by (simp add: row_get_save)
  obtain r1 where r1: "get_org d1 (inv_org i) = Some r1" "inv_product i = Scan \<Longrightarrow> org_sku r1 = inv_sku i"
    using mark_paid_org [OF assms(1,3)] by blast
  have tier: "\<exists>t. tier_get d1 (inv_sku i) = Inr t \<and> \<not> retired t (Some r1) (inv_sku i)" if "inv_product i = Scan"
    using mark_paid_tier [OF assms(1) that] r1(2) [OF that] tier_get_cong [OF i0(5)] by (auto simp: retired_def)
  obtain sub d2 where s: "settle_manual sid aid i actor how ref now d1 = Inr (sub, manual_attempt aid i sub actor how ref now,
       d2\<lparr>attempts := attempts d2 @ [manual_attempt aid i sub actor how ref now]\<rparr>)"
    "invoices d2 = invoices d1" "attempts d2 = attempts d1" "tiers d2 = tiers d1"
    "inv_product i = Scan \<Longrightarrow> \<exists>s r. sub = Some s \<and> get_sub d2 (inv_org i) = Some s \<and> sub_status s = Active
       \<and> get_org d2 (inv_org i) = Some r \<and> org_sku r = inv_sku i"
    using settle_manual_total [OF r1(1) assms(2) _ tier] assms(4) i0(4) by metis
  define d3 where "d3 = d2\<lparr>attempts := attempts d2 @ [manual_attempt aid i sub actor how ref now]\<rparr>"
  have open_gate: "\<exists>s. sub = Some s \<and> get_sub d3 (inv_org i) = Some s \<and> sub_status s = Active
       \<and> billing_write_block d3 (inv_org i) = Inr None" if scan: "inv_product i = Scan"
  proof -
    obtain t where "tier_get d1 (inv_sku i) = Inr t" using tier [OF scan] by blast
    then have "tier_get d3 (inv_sku i) = Inr t" using s(4) by (simp add: d3_def tier_get_def)
    obtain sx rx where x: "sub = Some sx" "get_sub d3 (inv_org i) = Some sx" "sub_status sx = Active"
      "get_org d3 (inv_org i) = Some rx" "org_sku rx = inv_sku i" using s(5) [OF scan] by (auto simp: d3_def)
    with \<open>tier_get d3 (inv_sku i) = Inr t\<close> have "billing_write_block d3 (inv_org i) = Inr None"
      by (intro unblocked_active [where r = rx and t = t and s = sx]) simp_all
    with x show ?thesis by blast
  qed
  have "record_invoice_payment sid aid k actor how ref now d = (Inr (i, sub, manual_attempt aid i sub actor how ref now), d3)"
    by (simp add: record_invoice_payment_def assms(1) s(1) d3_def)
  moreover have "get_invoice d3 k = Some i" using k s(2) by (simp add: d3_def)
  moreover have "manual_attempt aid i sub actor how ref now \<in> set (attempts d3)" by (simp add: d3_def)
  ultimately show ?thesis
    using same open_gate by (auto simp: manual_attempt_def)
qed

theorem manual_payment_complete_witness:
  "\<exists>sub a d'. record_invoice_payment 300 301 100 1 ''bank_transfer'' (Some ''BCA 1'') (t0 + 9) invoiced_db
     = (Inr (mark_paid_row inv100 (Some ''BCA 1'') (t0 + 9), sub, a), d') \<and> att_amount_idr a = 250000
     \<and> billing_write_block d' 9 = Inr None"
proof -
  have "map_sum id fst (mark_paid 100 (Some ''BCA 1'') (t0 + 9) invoiced_db)
      = Inr (mark_paid_row inv100 (Some ''BCA 1'') (t0 + 9))" by code_simp
  then obtain d1 where m: "mark_paid 100 (Some ''BCA 1'') (t0 + 9) invoiced_db
      = Inr (mark_paid_row inv100 (Some ''BCA 1'') (t0 + 9), d1)"
    by (cases "mark_paid 100 (Some ''BCA 1'') (t0 + 9) invoiced_db") auto
  have f: "inv_total_idr (mark_paid_row inv100 (Some ''BCA 1'') (t0 + 9)) = 250000"
    "inv_org (mark_paid_row inv100 (Some ''BCA 1'') (t0 + 9)) = 9"
    "inv_product (mark_paid_row inv100 (Some ''BCA 1'') (t0 + 9)) = Scan"
    by (simp_all add: mark_paid_row_def inv100_def)
  have g: "get_org invoiced_db (inv_org (mark_paid_row inv100 (Some ''BCA 1'') (t0 + 9))) = Some org9"
    unfolding f(2) by code_simp
  from manual_payment_complete [OF m _ g, of 301 300 1 "''bank_transfer''"] f show ?thesis
    by (auto simp: invoiced_db_def billing_db_def empty_db_def)
qed

subsection \<open>Every billing operation\<close>

definition sub_moves :: "db \<Rightarrow> db \<Rightarrow> bool" where
  "sub_moves d d' \<longleftrightarrow> (unique_by sub_org (subs d) \<longrightarrow> unique_by sub_org (subs d'))
     \<and> (\<forall>u s. get_sub d u = Some s \<longrightarrow> (\<exists>s'. get_sub d' u = Some s' \<and>
     (sub_status s' = sub_status s \<or> sub_status s' \<in> set (allowed_transitions (sub_status s)))))"

lemma sub_moves_refl: "subs d' = subs d \<Longrightarrow> sub_moves d d'"
  by (simp add: sub_moves_def)

lemma sub_moves_cong: "subs d1 = subs d \<Longrightarrow> subs d2 = subs d' \<Longrightarrow> sub_moves d1 d2 \<Longrightarrow> sub_moves d d'"
  by (simp add: sub_moves_def)

lemma unique_by_save: "key r = k \<Longrightarrow> unique_by key (row_upd key k (\<lambda>_. r) rows) = unique_by key rows"
proof -
  assume "key r = k"
  then have "map key (row_upd key k (\<lambda>_. r) rows) = map key rows" by (auto simp: row_upd_def)
  then show ?thesis by (simp add: unique_by_def)
qed

lemma sub_moves_save:
  assumes "get_sub d u = Some s" "sub_org s' = u"
    "sub_status s' = sub_status s \<or> sub_status s' \<in> set (allowed_transitions (sub_status s))"
    "subs d' = row_upd sub_org u (\<lambda>_. s') (subs d)"
  shows "sub_moves d d'"
  unfolding sub_moves_def using assms by (auto simp: row_get_save unique_by_save)

lemma active_allowed: "s = Active \<or> Active \<in> set (allowed_transitions s)"
  by (cases s) auto

lemma activate_subs:
  assumes "activate_from_invoice sid i provider ref now d = Inr (s, d')"
  shows "unique_by sub_org (subs d) \<longrightarrow> unique_by sub_org (subs d')"
proof -
  obtain r' where rest: "(let (sub, d1) = get_or_create_subscription sid r' now (save_org r' d) in
     ebind (transition sub Active now) (\<lambda>sub'.
     let sub'' = activated_sub i provider ref now sub' in
     Inr (sub'', save_sub sub'' d1))) = Inr (s, d')"
    using assms unfolding activate_from_invoice_def ebind_eq_Inr [of "get_or _ _"] get_or_Inr
      ebind_eq_Inr [of "if _ then _ else _"] by blast
  obtain sub d1 where g: "get_or_create_subscription sid r' now (save_org r' d) = (sub, d1)" by fastforce
  with rest obtain sub' where s: "get_or_create_subscription sid r' now (save_org r' d) = (sub, d1)"
    "transition sub Active now = Inr sub'" "s = activated_sub i provider ref now sub'" "d' = save_sub s d1"
    by (auto simp: Let_def ebind_eq_Inr)
  have "unique_by sub_org (subs d) \<longrightarrow> unique_by sub_org (subs d1)"
    using s(1) by (auto simp: get_or_create_subscription_def Let_def unique_by_append1 row_get_None split: option.splits)
  then show ?thesis by (simp add: s(4) unique_by_save)
qed

lemma sub_moves_activate:
  assumes "activate_from_invoice sid i provider ref now d = Inr (s, d')"
  shows "sub_moves d d'"
  unfolding sub_moves_def
proof (intro conjI allI impI activate_subs [OF assms, rule_format])
  fix u x assume x: "get_sub d u = Some x"
  show "\<exists>s'. get_sub d' u = Some s' \<and>
     (sub_status s' = sub_status x \<or> sub_status s' \<in> set (allowed_transitions (sub_status x)))"
    using activate_Inr(1,2,8) [OF assms] x active_allowed [of "sub_status x"] by (cases "u = inv_org i") auto
qed

lemma sub_moves_past_due:
  assumes "past_due_if_active u now d = Inr d'"
  shows "sub_moves d d'"
  using assms
proof (cases rule: past_due_Inr)
  case 1
  then show ?thesis by (simp add: sub_moves_refl)
next
  case (2 s s')
  moreover have "sub_org s = u" using row_get_Some [OF 2(1)] by simp
  ultimately show ?thesis by (intro sub_moves_save [OF 2(1)]) simp_all
qed

definition billing_good :: "db \<Rightarrow> db \<Rightarrow> bool" where
  "billing_good d d' \<longleftrightarrow> invoices_kept d d' \<and> sub_moves d d'"

lemma billing_good_refl: "invoices d' = invoices d \<Longrightarrow> redemptions d' = redemptions d \<Longrightarrow> subs d' = subs d \<Longrightarrow> billing_good d d'"
  by (simp add: billing_good_def invoices_kept_refl sub_moves_refl)

lemma billing_good_trans1: "billing_good d d1 \<Longrightarrow> subs d1 = subs d \<Longrightarrow> billing_good d1 d2 \<Longrightarrow> billing_good d d2"
  unfolding billing_good_def by (blast intro: invoices_kept_trans sub_moves_cong [of d1 d d2 d2])

lemma billing_good_trans2: "billing_good d d1 \<Longrightarrow> billing_good d1 d2 \<Longrightarrow> subs d2 = subs d1 \<Longrightarrow> billing_good d d2"
  unfolding billing_good_def by (metis invoices_kept_trans sub_moves_cong)

lemma billing_good_save_sub:
  assumes "get_sub d u = Some s" "sub_org s' = u"
    "sub_status s' = sub_status s \<or> sub_status s' \<in> set (allowed_transitions (sub_status s))"
  shows "billing_good d (save_sub s' d)"
  unfolding billing_good_def using assms
  by (intro conjI invoices_kept_refl sub_moves_save [OF assms(1)]) simp_all

lemma mark_paid_good:
  assumes "mark_paid k ref now d = Inr (i, d1)"
  shows "billing_good d d1" "subs d1 = subs d"
proof -
  show s: "subs d1 = subs d" using assms by (rule mark_paid_Inr)
  show "billing_good d d1"
    using invoices_kept_paid [OF assms refl refl] s by (simp add: billing_good_def sub_moves_refl)
qed

lemma activate_good: "activate_from_invoice sid i provider ref now d = Inr (s, d') \<Longrightarrow> billing_good d d'"
  unfolding billing_good_def
  by (intro conjI invoices_kept_refl) (auto dest: sub_moves_activate activate_Inr(10,12))

lemma past_due_good: "past_due_if_active u now d = Inr d' \<Longrightarrow> billing_good d d'"
  unfolding billing_good_def
  by (intro conjI invoices_kept_refl) (auto dest: sub_moves_past_due past_due_tables(1,4))

lemma save_attempt_good: "billing_good d (save_attempt a d)"
  by (intro billing_good_refl) simp_all

lemma put_event_good: "billing_good d (put_event e d)"
  by (intro billing_good_refl) simp_all

lemma insert_attempt_good: "insert_attempt a d = Inr d' \<Longrightarrow> billing_good d d' \<and> subs d' = subs d"
  by (auto dest!: insert_attempt_Inr intro: billing_good_refl)

lemma finish_succeeded_good:
  assumes "finish_succeeded sid provider ref a found now d = (r, d')"
  shows "billing_good d d'"
proof (cases "d' = d")
  case False
  then obtain i s d1 where a: "activate_from_invoice sid i provider ref now d = Inr (s, d1)"
    and d': "d' = save_attempt (a\<lparr>att_subscription := Some (sub_id s)\<rparr>) d1"
    using assms unfolding finish_succeeded_def
    by (auto split: option.splits if_splits sum.splits prod.splits)
  show ?thesis
    unfolding d' by (rule billing_good_trans2 [OF activate_good [OF a] save_attempt_good]) simp
qed (simp add: billing_good_refl)

lemma apply_succeeded_good:
  assumes "apply_succeeded lib sid aid provider ev now d = (r, d')"
  shows "billing_good d d'"
proof -
  define ref where "ref = none_if_empty (data_text ev ''payment_ref'')"
  define found where "found = named_invoice lib ev d"
  define start where "start = (case find_attempt d provider ref of
          Some a \<Rightarrow> Inr (Some (a, d))
        | None \<Rightarrow> (case found of None \<Rightarrow> Inr None
            | Some i \<Rightarrow> let a = webhook_attempt aid i provider ref (none_if_empty (data_text ev ''method'')) now in
                ebind (insert_attempt a d) (\<lambda>d1. Inr (Some (a, d1)))))"
  have run: "(case start of Inl e \<Rightarrow> (Inl e, d)
      | Inr None \<Rightarrow> (Inr False, d)
      | Inr (Some (a, d1)) \<Rightarrow>
          let a' = mark_settled now a; d2 = save_attempt a' d1 in
          if (case found of None \<Rightarrow> False | Some i \<Rightarrow> inv_status i \<in> {Draft, Sent})
          then (case mark_paid (inv_id (the found)) ref now d2 of
              Inl e \<Rightarrow> (Inl e, d2)
            | Inr (i, d3) \<Rightarrow> finish_succeeded sid provider ref a' (Some i) now d3)
          else finish_succeeded sid provider ref a' found now d2) = (r, d')"
    using assms unfolding apply_succeeded_def start_def found_def ref_def Let_def .
  show ?thesis
  proof (cases "d' = d")
    case False
    with run obtain a d1 where st: "start = Inr (Some (a, d1))"
      by (auto split: sum.splits option.splits)
    have d1: "billing_good d d1 \<and> subs d1 = subs d"
      using st insert_attempt_good
      by (auto simp: start_def Let_def ebind_eq_Inr billing_good_refl split: option.splits)
    define d2 where "d2 = save_attempt (mark_settled now a) d1"
    have d2: "billing_good d d2" "subs d2 = subs d"
      using billing_good_trans2 [OF conjunct1 [OF d1] save_attempt_good, of "mark_settled now a"] d1
      by (simp_all add: d2_def)
    show ?thesis
    proof (cases "case found of None \<Rightarrow> False | Some i \<Rightarrow> inv_status i \<in> {Draft, Sent}")
      case True
      show ?thesis
      proof (cases "mark_paid (inv_id (the found)) ref now d2")
        case (Inl e)
        with run st True d2 show ?thesis by (simp add: d2_def)
      next
        case (Inr x)
        then obtain i d3 where p: "mark_paid (inv_id (the found)) ref now d2 = Inr (i, d3)" by (cases x) auto
        with run st True have "finish_succeeded sid provider ref (mark_settled now a) (Some i) now d3 = (r, d')"
          by (simp add: d2_def)
        then have "billing_good d2 d'"
          by (rule billing_good_trans1 [OF mark_paid_good [OF p] finish_succeeded_good])
        with d2 show ?thesis by (rule billing_good_trans1)
      qed
    next
      case False
      with run st have "finish_succeeded sid provider ref (mark_settled now a) found now d2 = (r, d')"
        by (simp add: d2_def Let_def)
      with d2 show ?thesis by (blast intro: billing_good_trans1 finish_succeeded_good)
    qed
  qed (simp add: billing_good_refl)
qed

lemma apply_failed_good:
  assumes "apply_failed lib provider ev expired now d = (r, d')"
  shows "billing_good d d'"
proof (cases "find_attempt d provider (none_if_empty (data_text ev ''payment_ref''))")
  case None
  with assms show ?thesis by (simp add: apply_failed_def billing_good_refl)
next
  case (Some a)
  then obtain b where "d' = save_attempt b d \<or> past_due_if_active (att_org a) now (save_attempt b d) = Inr d'"
    using assms by (auto simp: apply_failed_def Let_def split: if_splits sum.splits)
  then show ?thesis
    using billing_good_trans1 [OF save_attempt_good [of d b] _ past_due_good] save_attempt_good by auto
qed

lemma sub_by_org_Some: "sub_by_org lib ev d = Some s \<Longrightarrow> get_sub d (sub_org s) = Some s"
  using row_get_Some [of sub_org _ "subs d" s] by (fastforce simp: sub_by_org_def split: option.splits)

lemma sub_by_ref_Some: "unique_by sub_org (subs d) \<Longrightarrow> sub_by_ref provider ev d = Inr (Some s) \<Longrightarrow> get_sub d (sub_org s) = Some s"
proof -
  assume u: "unique_by sub_org (subs d)" and s: "sub_by_ref provider ev d = Inr (Some s)"
  then have "filter (\<lambda>s. sub_provider s = provider \<and> sub_provider_ref s = Some (data_text ev ''subscription_ref'')) (subs d) = [s]"
    by (auto simp: sub_by_ref_def Let_def scalar_one_or_none_Some split: if_splits)
  then have "s \<in> set (filter (\<lambda>s. sub_provider s = provider \<and> sub_provider_ref s = Some (data_text ev ''subscription_ref'')) (subs d))"
    by simp
  with u show ?thesis by (simp add: row_get_unique)
qed

lemma apply_canceled_good:
  assumes "apply_canceled lib provider ev now d = (r, d')" "unique_by sub_org (subs d)"
  shows "billing_good d d'"
proof (cases "d' = d")
  case False
  then obtain s s' where g: "get_sub d (sub_org s) = Some s" and t: "transition s Canceled now = Inr s'"
    and d': "d' = save_sub (s'\<lparr>sub_canceled_at := Some now, sub_ended_at := Some now,
            sub_cancel_at_period_end := False, sub_updated_at := now\<rparr>) d"
    using assms unfolding apply_canceled_def
    by (auto split: option.splits sum.splits dest: sub_by_org_Some sub_by_ref_Some)
  show ?thesis
    unfolding d' using transition_Inr [OF t] by (intro billing_good_save_sub [OF g]) auto
qed (simp add: billing_good_refl)

lemma renewed_fields [simp]:
  "sub_org (renewed_period lib ev s) = sub_org s" "sub_status (renewed_period lib ev s) = sub_status s"
  by (simp_all add: renewed_period_def Let_def)

lemma apply_renewed_good:
  assumes "apply_renewed lib provider ev now d = (r, d')" "unique_by sub_org (subs d)"
  shows "billing_good d d'"
proof (cases "d' = d")
  case False
  obtain s where s: "ebind (sub_by_ref provider ev d) (\<lambda>s. Inr (case s of Some s \<Rightarrow> Some s | None \<Rightarrow> sub_by_org lib ev d)) = Inr (Some s)"
    using assms(1) False unfolding apply_renewed_def by (auto split: sum.splits option.splits)
  then have g: "get_sub d (sub_org s) = Some s"
    using assms(2) by (auto simp: ebind_eq_Inr split: option.splits dest: sub_by_org_Some sub_by_ref_Some)
  obtain s' where t: "transition (renewed_period lib ev s) Active now = Inr s'" using transition_active by blast
  have d': "d' = save_sub (s'\<lparr>sub_cancel_at_period_end := False, sub_updated_at := now\<rparr>) d"
    using assms(1) by (simp add: apply_renewed_def s t)
  show ?thesis
    unfolding d' using transition_Inr [OF t] by (intro billing_good_save_sub [OF g]) auto
qed (simp add: billing_good_refl)

lemma run_event_good:
  assumes "run_event lib sid aid provider ev now d = (r, d')" "unique_by sub_org (subs d)"
  shows "billing_good d d'"
proof -
  consider "apply_succeeded lib sid aid provider ev now d = (r, d')"
    | b where "apply_failed lib provider ev b now d = (r, d')"
    | "apply_canceled lib provider ev now d = (r, d')" | "apply_renewed lib provider ev now d = (r, d')"
    | "d' = d"
    using assms(1) by (auto simp: run_event_def split: if_splits)
  then show ?thesis
    by cases (auto intro: apply_succeeded_good apply_failed_good apply_canceled_good [OF _ assms(2)]
        apply_renewed_good [OF _ assms(2)] billing_good_refl)
qed

lemma apply_event_cases:
  assumes "apply_event lib sid aid provider ev now d = (r, d')"
  obtains "d' = d" | e x d1 e' where "event_key e = (provider, pe_id ev)"
      "run_event lib sid aid provider ev now (put_event e d) = (x, d1)" "d' = put_event e' d1"
proof -
  define e where "e = (case find_event d provider (pe_id ev) of
      None \<Rightarrow> new_event provider (pe_id ev) (pe_type ev) (model_dump ev) EReceived now
    | Some e \<Rightarrow> e\<lparr>evt_status := EReceived, evt_error := None, evt_processed_at := None\<rparr>)"
  have key: "event_key e = (provider, pe_id ev)"
    by (auto simp: e_def find_event_key split: option.splits)
  obtain x d1 where x: "run_event lib sid aid provider ev now (put_event e d) = (x, d1)" by fastforce
  have "d' = d \<or> (\<exists>e'. d' = put_event e' d1)"
    using assms x unfolding apply_event_def Let_def e_def [symmetric]
    by (auto split: if_splits sum.splits)
  then show ?thesis using that key x by blast
qed

lemma apply_event_good:
  assumes "apply_event lib sid aid provider ev now d = (r, d')" "unique_by sub_org (subs d)"
  shows "billing_good d d'"
  using assms(1)
proof (cases rule: apply_event_cases)
  case (2 e x d1 e')
  have "billing_good (put_event e d) d1" using run_event_good [OF 2(2)] assms(2) by simp
  then have "billing_good d d1" by (rule billing_good_trans1 [OF put_event_good, rotated]) simp
  with 2(3) show ?thesis using billing_good_trans2 [OF _ put_event_good] by simp
qed (simp add: billing_good_refl)

lemma gateway_apply_good:
  assumes "gateway_apply cfg query sid provider ev now d = Inr (st, msg, d')"
  shows "billing_good d d'"
  using assms
proof (cases rule: gateway_apply_Inr)
  case (lapsed a k i)
  then show ?thesis using billing_good_trans1 [OF save_attempt_good _ past_due_good] by simp
next
  case (settled a k i)
  from settled(9) show ?thesis
  proof (cases rule: gateway_succeeded_Inr)
    case (settled i' d1 d2 b)
    note p = mark_paid_good [OF settled(3)]
    have "billing_good d1 d2"
      using settled(4) activate_good by (auto simp: billing_good_refl split: if_splits)
    with p have "billing_good d d2" by (rule billing_good_trans1)
    then show ?thesis unfolding settled(5) by (rule billing_good_trans2 [OF _ save_attempt_good]) simp
  qed (simp_all add: save_attempt_good)
qed (simp_all add: save_attempt_good billing_good_refl)

lemma gateway_step_good: "gateway_step d d' \<Longrightarrow> billing_good d d'"
proof (induction rule: gateway_step.induct)
  case (1 cfg query sid provider ev now d r d')
  then show ?case
  proof (cases rule: apply_gateway_event_cases)
    case (recorded e st msg d1 e')
    have "billing_good d d1"
      by (rule billing_good_trans1 [OF put_event_good _ gateway_apply_good [OF recorded(3)]]) simp
    then show ?thesis unfolding recorded(4) by (rule billing_good_trans2 [OF _ put_event_good]) simp
  qed (simp_all add: billing_good_refl)
qed

lemma consume_request_subs: "consume_request a number now d = Inr d' \<Longrightarrow> subs d' = subs d"
  by (auto simp: consume_request_def ebind_eq_Inr Let_def split: option.splits)

lemma redeem_quote_subs: "redeem_quote ids a quote now d = Inr d' \<Longrightarrow> subs d' = subs d"
  by (auto simp: record_redemption_def ebind_eq_Inr insert_redemption_Inr Let_def elim!: redeem_quote_Inr)

lemma settle_free_moves:
  assumes "settle_free ids a quote i now d = Inr (i', d')"
  shows "sub_moves d d'"
proof (cases "inv_total_idr i = 0")
  case True
  let ?i = "i\<lparr>inv_status := Paid, inv_paid_at := Some now, inv_updated_at := now\<rparr>"
  from True assms obtain d2 where d2: "(if arg_product a = Scan then
         ebind (activate_from_invoice (fresh_sub ids) ?i ''promo''
           (Some (case quote of None \<Rightarrow> ''promo'' | Some q \<Rightarrow> ''promo:'' @ promo_code (quote_promo q)))
           now (save_invoice ?i d)) (\<lambda>(s, d2). Inr d2)
       else Inr (save_invoice ?i d)) = Inr d2" and ins: "insert_attempt (promo_attempt ids a now) d2 = Inr d'"
    unfolding settle_free_def Let_def by (auto simp: ebind_eq_Inr simp del: ebind_Inr)
  have "sub_moves (save_invoice ?i d) d2"
    using d2 by (auto simp: ebind_eq_Inr sub_moves_refl split: if_splits intro: sub_moves_activate)
  then show ?thesis by (rule sub_moves_cong [rotated 2]) (use insert_attempt_good [OF ins] in simp_all)
next
  case False
  with assms show ?thesis by (simp add: settle_free_def sub_moves_refl)
qed

lemma create_once_moves:
  assumes "create_once cfg ids a now d = Inr (i, d')"
  shows "sub_moves d d'"
proof -
  obtain cat start "end" where "create_for_period cfg ids a cat start end now d = Inr (i, d')"
    using assms by (rule create_once_Inr)
  then show ?thesis
  proof (cases rule: create_for_period_Inr)
    case (1 quote pkp due i0 d1 d2 d3)
    have "subs d3 = subs d"
      using redeem_quote_subs [OF 1(7)] consume_request_subs [OF 1(6)] 1(5) by (simp add: insert_invoice_Inr)
    then show ?thesis by (rule sub_moves_cong [OF _ refl settle_free_moves [OF 1(8)]])
  qed
qed

lemma release_subs: "subs (release_for_invoice k now d) = subs d"
  by (simp add: release_for_invoice_def split: option.split)

lemma invoice_step_good: "invoice_step d d' \<Longrightarrow> billing_good d d'"
  unfolding billing_good_def
proof
  assume s: "invoice_step d d'"
  then show "invoices_kept d d'" by (rule invoices_kept_step)
  from s show "sub_moves d d'"
  proof cases
    case (create cfg ids a now i)
    then show ?thesis by (rule create_once_moves)
  next
    case (send k now i)
    then show ?thesis by (elim invoice_send_Inr) (simp add: sub_moves_refl)
  next
    case (pay k ref now i)
    then show ?thesis using mark_paid_good(2) by (simp add: sub_moves_refl)
  next
    case (void k now i)
    then show ?thesis by (elim invoice_void_Inr) (simp add: sub_moves_refl release_subs)
  qed
qed

lemma settle_manual_good:
  assumes "settle_manual sid aid i actor how ref now d = Inr (sub, a, d')"
  shows "billing_good d d'"
proof -
  obtain d1 where s: "(if inv_product i = Scan
            then ebind (activate_from_invoice sid i ''manual'' ref now d) (\<lambda>(s, d'). Inr (Some s, d'))
            else Inr (get_sub d (inv_org i), d)) = Inr (sub, d1)" and ins: "insert_attempt a d1 = Inr d'"
    using assms unfolding settle_manual_def Let_def by (auto simp: ebind_eq_Inr simp del: ebind_Inr)
  have d1: "billing_good d d1"
    using s by (auto simp: ebind_eq_Inr billing_good_refl split: if_splits intro: activate_good)
  from insert_attempt_good [OF ins] show ?thesis by (blast intro: billing_good_trans2 [OF d1])
qed

lemma record_payment_good:
  assumes "record_invoice_payment sid aid k actor how ref now d = (r, d')"
  shows "billing_good d d'"
proof (cases "mark_paid k ref now d")
  case (Inl e)
  with assms show ?thesis by (simp add: record_invoice_payment_def billing_good_refl)
next
  case (Inr x)
  then obtain i d1 where p: "mark_paid k ref now d = Inr (i, d1)" by (cases x) auto
  have "billing_good d1 d'"
    using assms settle_manual_good
    by (auto simp: record_invoice_payment_def p billing_good_refl split: sum.splits prod.splits)
  with mark_paid_good [OF p] show ?thesis by (rule billing_good_trans1)
qed

lemma record_manual_good:
  "record_manual_payment sid aid u k actor how ref now d = (r, d') \<Longrightarrow> billing_good d d'"
  by (auto simp: record_manual_payment_def billing_good_refl split: option.splits if_splits intro: record_payment_good)

lemma sub_found_Inr [errs]: "sub_found d u = Inr s \<longleftrightarrow> get_sub d u = Some s"
  by (simp add: sub_found_def get_or_Inr)

lemma allowed_cancel: "sub_status s \<noteq> Canceled \<Longrightarrow> Canceled \<in> set (allowed_transitions (sub_status s))"
  by (cases "sub_status s") auto

lemma cancel_good:
  assumes "sub_cancel u b note_text now d = Inr (s', d')"
  shows "billing_good d d'"
proof -
  obtain s s1 where s: "get_sub d u = Some s" and st: "sub_status s \<noteq> Canceled"
    and s1: "(if b then ebind (raise_if (sub_status s = Incomplete)
                (HTTPError 409 ''An incomplete subscription has no period to finish'')) (\<lambda>_.
              Inr (s\<lparr>sub_cancel_at_period_end := True, sub_cancel_note := take 500 (strip note_text)\<rparr>))
            else ebind (transition s Canceled now) (\<lambda>s'.
              Inr (s'\<lparr>sub_cancel_at_period_end := False, sub_cancel_note := take 500 (strip note_text),
                sub_canceled_at := Some now, sub_ended_at := Some now\<rparr>))) = Inr s1"
    and d': "d' = save_sub (s1\<lparr>sub_updated_at := now\<rparr>) d"
    using assms unfolding sub_cancel_def ebind_eq_Inr raise_if_Inr sub_found_Inr Let_def by blast
  have "sub_org s1 = sub_org s \<and> (sub_status s1 = sub_status s \<or> sub_status s1 = Canceled)"
    using s1 by (auto simp: ebind_eq_Inr raise_if_Inr split: if_splits dest: transition_Inr)
  then show ?thesis
    unfolding d' using allowed_cancel [OF st] row_get_Some [OF s] by (intro billing_good_save_sub [OF s]) auto
qed

lemma request_good: "request_cancellation u note_text now d = Inr (s', d') \<Longrightarrow> billing_good d d'"
  unfolding request_cancellation_def ebind_eq_Inr raise_if_Inr sub_found_Inr Let_def
  by (elim exE conjE Inr_PairE) (auto intro!: billing_good_save_sub dest: row_get_Some)

lemma resume_good: "sub_resume u now d = Inr (s', d') \<Longrightarrow> billing_good d d'"
  unfolding sub_resume_def ebind_eq_Inr raise_if_Inr sub_found_Inr Let_def
  by (elim exE conjE Inr_PairE) (auto intro!: billing_good_save_sub dest: row_get_Some)

inductive billing_step :: "db \<Rightarrow> db \<Rightarrow> bool" where
  invoice: "invoice_step d d' \<Longrightarrow> billing_step d d'"
| gateway: "gateway_step d d' \<Longrightarrow> billing_step d d'"
| manual: "record_manual_payment sid aid u k actor how ref now d = (r, d') \<Longrightarrow> billing_step d d'"
| generic: "apply_event lib sid aid provider ev now d = (r, d') \<Longrightarrow> billing_step d d'"
| cancel: "sub_cancel u b note_text now d = Inr (s, d') \<Longrightarrow> billing_step d d'"
| request: "request_cancellation u note_text now d = Inr (s, d') \<Longrightarrow> billing_step d d'"
| resume: "sub_resume u now d = Inr (s, d') \<Longrightarrow> billing_step d d'"
| prune: "prune_payment_events days now d = (n, d') \<Longrightarrow> billing_step d d'"

lemma prune_good: "prune_payment_events days now d = (n, d') \<Longrightarrow> billing_good d d'"
  by (intro billing_good_refl) (auto simp: prune_payment_events_def Let_def)

lemma billing_step_good: "billing_step d d' \<Longrightarrow> unique_by sub_org (subs d) \<Longrightarrow> billing_good d d'"
  by (induction rule: billing_step.induct)
    (assumption | erule invoice_step_good gateway_step_good record_manual_good apply_event_good cancel_good
      request_good resume_good prune_good)+

definition lib0 :: std where
  "lib0 = \<lparr>parse_uuid = (\<lambda>s. if s = ''100'' then Some 100 else if s = ''9'' then Some 9 else None),
     fromisoformat = (\<lambda>_. None)\<rparr>"

definition paid_event :: event_in where
  "paid_event = \<lparr>pe_id = ''w1'', pe_type = ''payment.succeeded'',
     pe_data = [(''invoice_id'', DText ''100''), (''payment_ref'', DText ''R1'')]\<rparr>"

definition failed_event :: event_in where
  "failed_event = \<lparr>pe_id = ''w2'', pe_type = ''payment.failed'', pe_data = [(''payment_ref'', DText ''R1'')]\<rparr>"

definition webhook :: "event_in \<Rightarrow> db \<Rightarrow> event_result result \<times> db" where
  "webhook ev d = apply_event lib0 400 401 ''manual'' ev (t0 + 20) d"

definition webhook_paid_db :: db where "webhook_paid_db = snd (webhook paid_event invoiced_db)"
definition webhook_failed_db :: db where "webhook_failed_db = snd (webhook failed_event webhook_paid_db)"

subsection \<open>Three weaknesses of the generic webhook\<close>

text \<open>A success that cannot be applied (the tier was retired) is answered with an error, but the attempt
  is committed as succeeded while the invoice stays unpaid.\<close>

lemma generic_failure_commits_partial_work:
  "(case webhook paid_event (invoiced_db\<lparr>tiers := map (\<lambda>t. t\<lparr>tier_active := tier_code t = ''FREE''\<rparr>) (tiers invoiced_db)\<rparr>) of
      (r, d') \<Rightarrow> (r, map att_status (attempts d'), map inv_status (invoices d')))
   = (Inl (HTTPError 409 ''Tier is retired''), [ASucceeded], [Draft])"
  by code_simp

text \<open>A success for a void invoice activates the subscription.\<close>

lemma generic_success_activates_void_invoice:
  "(case webhook paid_event (invoiced_db\<lparr>invoices := [inv100\<lparr>inv_status := Void\<rparr>]\<rparr>) of
      (r, d') \<Rightarrow> (r, map sub_status (subs d'), map inv_status (invoices d')))
   = (Inr (Recorded EProcessed), [Active], [Void])"
  by code_simp

text \<open>A late failure moves a settled attempt back to failed and its subscription to past due; there is no
  rank guard as in the gateway path.\<close>

lemma generic_late_failure_demotes:
  "(map att_status (attempts webhook_paid_db), map sub_status (subs webhook_paid_db)) = ([ASucceeded], [Active])
   \<and> (map att_status (attempts webhook_failed_db), map sub_status (subs webhook_failed_db)) = ([AFailed], [PastDue])"
  by code_simp

end
