(* ===== verification/Subscription.thy ===== *)
theory Subscription
  imports Orgs BillingOps
begin

text \<open>
  The plan of an organization as its members see it, and the requests to change it
  (\<open>services/subscription.py\<close>): usage against the limits of the tier, the status of the plan derived
  from the subscription and the latest invoice, the catalog, and the queue of change requests that an
  admin approves or rejects. The percentage saved by a bundle (a float) and the fixed prefix of the plan
  label are left out.
\<close>

subsection \<open>Usage\<close>

definition product_unit :: "product \<Rightarrow> string" where   \<comment> \<open>\<open>PRODUCT_UNITS\<close>\<close>
  "product_unit p = (case p of Scan \<Rightarrow> ''asset'' | Host \<Rightarrow> ''site'' | Uptime \<Rightarrow> ''monitor'' | Guard \<Rightarrow> ''agent'')"

record usage_item =
  ui_product :: product
  ui_used :: nat
  ui_limit :: int
  ui_unit :: string

record workspace_seats =
  ws_editors :: nat
  ws_viewers :: nat
  ws_editor_limit :: "int option"
  ws_viewer_limit :: "int option"

definition resolve_tier :: "db \<Rightarrow> sku option \<Rightarrow> sku_tier result" where
  "resolve_tier d code = (if str_or_empty code = [] then tier_default d else tier_get d (str_or_empty code))"

definition used_of :: "db \<Rightarrow> uuid \<Rightarrow> product \<Rightarrow> nat" where
  "used_of d u p = (case p of
     Scan \<Rightarrow> count_where (\<lambda>x. x = u) (scan_assets d)
   | Host \<Rightarrow> count_where (\<lambda>x. x = u) (host_sites d)
   | Uptime \<Rightarrow> count_where (\<lambda>x. x = u) (uptime_monitors d)
   | Guard \<Rightarrow> count_where (\<lambda>(x, disabled). x = u \<and> \<not> disabled) (guard_agents d))"

definition sub_usage :: "db \<Rightarrow> uuid \<Rightarrow> sku option \<Rightarrow> (usage_item list \<times> workspace_seats) result" where
  "sub_usage d u code = ebind (resolve_tier d code) (\<lambda>t.
     Inr (map (\<lambda>p. \<lparr>ui_product = p, ui_used = used_of d u p, ui_limit = limit_for t p, ui_unit = product_unit p\<rparr>)
            [Scan, Host, Uptime, Guard],
          \<lparr>ws_editors = seat_count d u None (\<lambda>r. r = Owner) + seat_count d u None (\<lambda>r. r = Admin)
             + seat_count d u None (\<lambda>r. r = Member),
           ws_viewers = seat_count d u None (\<lambda>r. r = Viewer),
           ws_editor_limit = tier_editor_limit t, ws_viewer_limit = tier_viewer_limit t\<rparr>))"

subsection \<open>The plan\<close>

definition latest_scan_invoice :: "db \<Rightarrow> uuid \<Rightarrow> invoice option" where
  "latest_scan_invoice d u = first_row (desc_by inv_period_start (desc_by inv_created_at
     (filter (\<lambda>i. inv_org i = u \<and> inv_product i = Scan \<and> inv_status i \<noteq> Void) (invoices d))))"

definition invoice_plan_status :: "sku_tier \<Rightarrow> invoice option \<Rightarrow> datetime \<Rightarrow> datetime option \<Rightarrow> string \<times> string" where
  "invoice_plan_status t i now period_end =
     (let fallback = (if tier_is_default t then ''default'' else ''ops'') in
      case i of None \<Rightarrow> (''unbilled'', fallback)
      | Some x \<Rightarrow> (case inv_status x of
          Sent \<Rightarrow> (''pending_payment'', ''invoice'')
        | Draft \<Rightarrow> (''draft'', ''invoice'')
        | Paid \<Rightarrow> (if (case period_end of None \<Rightarrow> False | Some e \<Rightarrow> now \<le> e) then ''active'' else ''expired'', ''invoice'')
        | Void \<Rightarrow> (''unbilled'', fallback)))"

definition subscription_plan_status :: "subscription \<Rightarrow> invoice option \<Rightarrow> datetime \<Rightarrow> datetime option \<Rightarrow> string" where
  "subscription_plan_status s i now period_end =
     (case sub_status s of
        Canceled \<Rightarrow> ''expired''
      | PastDue \<Rightarrow> (if (case period_end of None \<Rightarrow> False | Some e \<Rightarrow> now \<le> e) then ''pending_payment'' else ''expired'')
      | Active \<Rightarrow> (case period_end of None \<Rightarrow> ''active'' | Some e \<Rightarrow> if now \<le> e then ''active'' else ''grace'')
      | Incomplete \<Rightarrow> (case i of None \<Rightarrow> ''unbilled''
          | Some x \<Rightarrow> if inv_status x = Draft then ''draft''
              else if inv_status x = Sent then ''pending_payment'' else ''unbilled''))"

record plan =
  plan_sku :: sku
  plan_label :: string
  plan_status :: string
  plan_source :: string
  plan_cycle :: cycle
  plan_amount_idr :: "int option"
  plan_period_start :: "datetime option"
  plan_period_end :: "datetime option"
  plan_renewal_at :: "datetime option"
  plan_invoice_id :: "uuid option"
  plan_invoice_number :: "string option"
  plan_cancel_at_period_end :: bool
  plan_billing_status :: "sub_status option"

definition plan_of ::
    "sku_tier \<Rightarrow> string \<Rightarrow> string \<Rightarrow> cycle \<Rightarrow> invoice option \<Rightarrow> datetime option \<Rightarrow> datetime option \<Rightarrow> bool
     \<Rightarrow> sub_status option \<Rightarrow> plan" where
  "plan_of t st source cyc i start end at_end billing =
     \<lparr>plan_sku = tier_code t, plan_label = tier_label t, plan_status = st, plan_source = source,
      plan_cycle = cyc, plan_amount_idr = map_option inv_amount_idr i, plan_period_start = start,
      plan_period_end = end, plan_renewal_at = end, plan_invoice_id = map_option inv_id i,
      plan_invoice_number = map_option inv_number i, plan_cancel_at_period_end = at_end,
      plan_billing_status = billing\<rparr>"

definition sub_plan :: "db \<Rightarrow> organization \<Rightarrow> invoice option \<Rightarrow> subscription option \<Rightarrow> datetime \<Rightarrow> plan result" where
  "sub_plan d r i sub now = ebind (resolve_tier d (Some (org_sku r))) (\<lambda>t.
     let invoice_end = map_option inv_period_end i; invoice_start = map_option inv_period_start i in
     Inr (if tier_sales_led t then plan_of t ''enterprise'' ''custom'' Monthly None None None False None
      else case sub of
        Some s \<Rightarrow>
          let start = (case sub_period_start s of None \<Rightarrow> invoice_start | Some x \<Rightarrow> Some x);
              end = (case sub_period_end s of None \<Rightarrow> invoice_end | Some x \<Rightarrow> Some x) in
          plan_of t (subscription_plan_status s i now end) ''subscription'' (sub_cycle s) i start end
            (sub_cancel_at_period_end s) (Some (sub_status s))
      | None \<Rightarrow>
          let (st, source) = invoice_plan_status t i now invoice_end in
          plan_of t st source (cycle_for invoice_start invoice_end) i invoice_start invoice_end False None))"

subsection \<open>The catalog of plans\<close>

definition visible_tiers :: "db \<Rightarrow> sku list \<Rightarrow> sku_tier list result" where
  "visible_tiers d extra = ebind (efold (\<lambda>c acc. if c \<in> tier_code ` set acc then Inr acc
       else ebind (tier_get d c) (\<lambda>t. Inr (acc @ [t]))) extra (tier_list False d)) (\<lambda>ts.
     Inr (sort_key tier_rank ts))"

record catalog_item =
  ci_service :: product
  ci_sku :: sku
  ci_label :: string
  ci_active :: bool
  ci_list_idr :: int
  ci_seats :: int
  ci_invoicable :: bool

record bundle_item =
  bi_tier :: sku
  bi_label :: string
  bi_active :: bool
  bi_bundle_idr :: int
  bi_alacarte_idr :: int
  bi_saving_idr :: int

definition catalog_item_of :: "db \<Rightarrow> sku_tier \<Rightarrow> product \<Rightarrow> catalog_item" where
  "catalog_item_of d t p = (let row = catalog_rows d (tier_code t) p in
     \<lparr>ci_service = p, ci_sku = tier_code t, ci_label = tier_label t, ci_active = tier_active t,
      ci_list_idr = (case row of None \<Rightarrow> 0 | Some r \<Rightarrow> cat_list_idr r), ci_seats = limit_for t p,
      ci_invoicable = (case row of None \<Rightarrow> False | Some r \<Rightarrow> cat_invoicable r)\<rparr>)"

definition bundle_of :: "db \<Rightarrow> sku_tier \<Rightarrow> bundle_item" where
  "bundle_of d t =
     (let alacarte = sum_list (map (\<lambda>p. ci_list_idr (catalog_item_of d t p)) INVOICE_PRODUCTS);
          bundle = or_else (tier_bundle_idr t) 0 in
      \<lparr>bi_tier = tier_code t, bi_label = tier_label t, bi_active = tier_active t, bi_bundle_idr = bundle,
       bi_alacarte_idr = alacarte, bi_saving_idr = alacarte - bundle\<rparr>)"

definition plan_catalog :: "db \<Rightarrow> sku list \<Rightarrow> (catalog_item list \<times> bundle_item list) result" where
  "plan_catalog d extra = ebind (visible_tiers d extra) (\<lambda>ts.
     let ts' = filter (\<lambda>t. \<not> tier_sales_led t) ts in
     Inr (concat (map (\<lambda>t. map (catalog_item_of d t) INVOICE_PRODUCTS) ts'), map (bundle_of d) ts'))"

definition pending_request :: "db \<Rightarrow> uuid \<Rightarrow> sub_request option" where
  "pending_request d u = first_row (desc_by req_created_at
     (filter (\<lambda>q. req_org q = u \<and> req_status q = RPending) (requests d)))"

record overview =
  ov_plan :: plan
  ov_tiers :: "sku_tier list"
  ov_usage :: "usage_item list"
  ov_seats :: workspace_seats
  ov_catalog :: "catalog_item list"
  ov_bundles :: "bundle_item list"
  ov_can_manage :: bool
  ov_read_only_reason :: "string option"
  ov_promo_codes :: bool
  ov_pending_request :: "sub_request option"
  ov_recent_attempts :: "payment_attempt list"

definition sub_overview :: "organization \<Rightarrow> role \<Rightarrow> datetime \<Rightarrow> db \<Rightarrow> overview result" where
  "sub_overview r role' now d =
     (let i = latest_scan_invoice d (org_id r); can_manage = role_at_least (Some role') Admin in
      ebind (sub_usage d (org_id r) (Some (org_sku r))) (\<lambda>(use, seats).
      ebind (visible_tiers d [org_sku r]) (\<lambda>ts.
      ebind (plan_catalog d [org_sku r]) (\<lambda>(items, bundles).
      ebind (billing_write_block d (org_id r)) (\<lambda>reason.
      ebind (sub_plan d r i (get_sub d (org_id r)) now) (\<lambda>p.
      Inr \<lparr>ov_plan = p, ov_tiers = ts, ov_usage = use, ov_seats = seats, ov_catalog = items,
        ov_bundles = bundles, ov_can_manage = can_manage, ov_read_only_reason = reason,
        ov_promo_codes = has_active_codes d (org_id r) now, ov_pending_request = pending_request d (org_id r),
        ov_recent_attempts = (if can_manage
          then take 5 (desc_by att_created_at (filter (\<lambda>a. att_org a = org_id r) (attempts d))) else [])\<rparr>))))))"

subsection \<open>Change requests\<close>

definition check_capacity :: "db \<Rightarrow> sku_tier \<Rightarrow> usage_item list \<Rightarrow> workspace_seats \<Rightarrow> unit result" where
  "check_capacity d target use seats =
     ebind (tier_limits d (tier_code target)) (\<lambda>limits.
     ebind (efold (\<lambda>x _. raise_if (limits (ui_product x) < int (ui_used x))
       (HTTPError 400 (product_title (ui_product x) @ '' usage is '' @ show_nat (ui_used x) @ '', but ''
          @ tier_label target @ '' allows '' @ show_int (limits (ui_product x))
          @ ''. Remove the extra capacity before downgrading.''))) use ()) (\<lambda>_.
     ebind (workspace_limits d (tier_code target)) (\<lambda>(el, vl).
     raise_if ((case el of None \<Rightarrow> False | Some n \<Rightarrow> n < int (ws_editors seats))
         \<or> (case vl of None \<Rightarrow> False | Some n \<Rightarrow> n < int (ws_viewers seats)))
       (HTTPError 400 (workspace_seat_cap_detail (tier_label target) el vl)))))"

definition stored_promo ::
    "string option \<Rightarrow> sku \<Rightarrow> cycle \<Rightarrow> uuid \<Rightarrow> datetime \<Rightarrow> db \<Rightarrow> string option result" where
  "stored_promo code target cyc u now d =
     (if str_or_empty code = [] then Inr None
      else ebind (get_or (HTTPError 400 ''SKU is not invoicable'')
          (first_row (filter (\<lambda>c. cat_product c = Scan \<and> cat_sku c = target \<and> cat_invoicable c) (catalog d)))) (\<lambda>c.
        ebind (promo_validate d (str_or_empty code) \<lparr>pur_product = Scan, pur_sku = target, pur_cycle = cyc,
            pur_base_idr = cat_list_idr c, pur_org = u\<rparr> now) (\<lambda>q.
        Inr (Some (promo_code (quote_promo q))))))"

definition create_request ::
    "uuid \<Rightarrow> organization \<Rightarrow> uuid \<Rightarrow> sku \<Rightarrow> cycle \<Rightarrow> string \<Rightarrow> string option \<Rightarrow> datetime \<Rightarrow> db
     \<Rightarrow> (sub_request \<times> db) result" where
  "create_request qid r requester target_sku cyc note_text promo now d =
     ebind (tier_get d target_sku) (\<lambda>target.
     ebind (raise_if (\<not> tier_active target \<or> \<not> tier_requestable target)
       (HTTPError 400 (tier_label target @ '' is not available for new subscriptions''))) (\<lambda>_.
     ebind (resolve_tier d (Some (org_sku r))) (\<lambda>current.
     ebind (raise_if (target_sku = tier_code current)
       (HTTPError 400 ''Organization is already on this plan'')) (\<lambda>_.
     let dir = (if tier_rank current < tier_rank target then Upgrade else Downgrade) in
     ebind (sub_usage d (org_id r) (Some (tier_code current))) (\<lambda>(use, seats).
     ebind (if dir = Downgrade then check_capacity d target use seats else Inr ()) (\<lambda>_.
     ebind (scalar_one_or_none (filter (\<lambda>q. req_org q = org_id r \<and> req_status q = RPending) (requests d))) (\<lambda>pending.
     ebind (raise_if (pending \<noteq> None) (HTTPError 409 ''A subscription request is already pending'')) (\<lambda>_.
     ebind (stored_promo promo target_sku cyc (org_id r) now d) (\<lambda>code.
     let q = \<lparr>req_id = qid, req_org = org_id r, req_by = Some requester, req_direction = dir,
           req_current_sku = tier_code current, req_target_sku = target_sku, req_cycle = cyc,
           req_promo_code = code, req_note = take 500 (strip note_text), req_status = RPending,
           req_resolution_note = [], req_resolved_by = None, req_resolved_at = None,
           req_created_at = now, req_updated_at = now\<rparr> in
     ebind (raise_if (qid \<in> req_id ` set (requests d)) IntegrityError) (\<lambda>_.
     Inr (q, d\<lparr>requests := requests d @ [q]\<rparr>)))))))))))"

definition cancel_request :: "uuid \<Rightarrow> uuid \<Rightarrow> datetime \<Rightarrow> db \<Rightarrow> db result" where
  "cancel_request u qid now d =
     ebind (get_or (HTTPError 404 ''Subscription request not found'') (get_request d qid)) (\<lambda>q.
     ebind (raise_if (req_org q \<noteq> u) (HTTPError 404 ''Subscription request not found'')) (\<lambda>_.
     ebind (raise_if (req_status q \<noteq> RPending) (HTTPError 409 ''Only pending requests can be canceled'')) (\<lambda>_.
     Inr (save_request (q\<lparr>req_status := RCanceled, req_updated_at := now\<rparr>) d))))"

definition request_list_admin :: "request_status option \<Rightarrow> nat \<Rightarrow> nat \<Rightarrow> db \<Rightarrow> (sub_request \<times> string \<times> string option) list \<times> nat" where
  "request_list_admin status page page_size d =
     (let sel = filter (\<lambda>q. status = None \<or> status = Some (req_status q)) (requests d) in
      (page_of page page_size (concat (map (\<lambda>q. case get_org d (req_org q) of None \<Rightarrow> []
          | Some r \<Rightarrow> [(q, org_name r, case req_by q of None \<Rightarrow> None
              | Some v \<Rightarrow> map_option user_email (row_get user_id v (users d)))]) (desc_by req_created_at sel))), length sel))"

definition apply_requested_tier :: "sub_request \<Rightarrow> organization \<Rightarrow> uuid \<Rightarrow> datetime \<Rightarrow> db \<Rightarrow> db result" where
  "apply_requested_tier q r admin now d =
     (if req_target_sku q = org_sku r then Inr d
      else ebind (tier_get_active d (req_target_sku q)) (\<lambda>_.
        let d1 = d\<lparr>subs := row_upd sub_org (org_id r)
              (\<lambda>s. s\<lparr>sub_sku := req_target_sku q, sub_updated_at := now\<rparr>) (subs d)\<rparr>;
            d2 = record_tier_assignment (org_id r) (req_target_sku q) (Some (org_sku r)) (Some admin)
              (Some ''subscription_request'') now d1 in
        Inr (save_org (r\<lparr>org_sku := req_target_sku q, org_updated_at := now\<rparr>) d2)))"

definition resolved :: "request_status \<Rightarrow> string \<Rightarrow> uuid \<Rightarrow> datetime \<Rightarrow> sub_request \<Rightarrow> sub_request" where
  "resolved st note_text admin now q = q\<lparr>req_status := st, req_resolution_note := take 500 (strip note_text),
     req_resolved_by := Some admin, req_resolved_at := Some now, req_updated_at := now\<rparr>"

definition resolve_request ::
    "uuid \<Rightarrow> uuid \<Rightarrow> request_status \<Rightarrow> string \<Rightarrow> datetime \<Rightarrow> db \<Rightarrow> (sub_request \<times> db) result" where
  "resolve_request qid admin new_status note_text now d =
     ebind (raise_if (new_status \<notin> {RApproved, RRejected}) (HTTPError 400 ''Invalid resolution status'')) (\<lambda>_.
     ebind (get_or (HTTPError 404 ''Subscription request not found'') (get_request d qid)) (\<lambda>q.
     ebind (raise_if (req_status q \<noteq> RPending) (HTTPError 409 ''Request is no longer pending'')) (\<lambda>_.
     ebind (get_or (HTTPError 404 ''Organization not found'') (get_org d (req_org q))) (\<lambda>r.
     ebind (if new_status = RApproved then apply_requested_tier q r admin now d else Inr d) (\<lambda>d1.
     let q' = resolved new_status note_text admin now q in Inr (q', save_request q' d1))))))"

subsection \<open>Requests under the handlers\<close>

inductive request_step :: "db \<Rightarrow> db \<Rightarrow> bool" where
  create: "create_request qid r requester target_sku cyc note_text promo now d = Inr (q, d') \<Longrightarrow> request_step d d'"
| cancel: "cancel_request u qid now d = Inr d' \<Longrightarrow> request_step d d'"
| resolve: "resolve_request qid admin new_status note_text now d = Inr (q, d') \<Longrightarrow> request_step d d'"

lemma create_request_Inr:
  assumes "create_request qid r requester target_sku cyc note_text promo now d = Inr (q, d')"
  obtains target current use seats where "tier_get d target_sku = Inr target" "tier_active target" "tier_requestable target"
    "resolve_tier d (Some (org_sku r)) = Inr current" "target_sku \<noteq> tier_code current"
    "sub_usage d (org_id r) (Some (tier_code current)) = Inr (use, seats)"
    "req_direction q = (if tier_rank current < tier_rank target then Upgrade else Downgrade)"
    "req_direction q = Downgrade \<Longrightarrow> check_capacity d target use seats = Inr ()"
    "filter (\<lambda>q. req_org q = org_id r \<and> req_status q = RPending) (requests d) = []"
    "req_id q = qid" "req_org q = org_id r" "req_target_sku q = target_sku" "req_status q = RPending"
    "qid \<notin> req_id ` set (requests d)" "d' = d\<lparr>requests := requests d @ [q]\<rparr>"
  using assms unfolding create_request_def Let_def ebind_eq_Inr raise_if_Inr split_paired_Ex
  by (elim exE conjE Inr_PairE) (rule that; (assumption | auto simp: ebind_eq_Inr raise_if_Inr scalar_one_or_none_None split: if_splits))

lemma cancel_request_Inr:
  assumes "cancel_request u qid now d = Inr d'"
  obtains q where "get_request d qid = Some q" "req_org q = u" "req_status q = RPending"
    "d' = save_request (q\<lparr>req_status := RCanceled, req_updated_at := now\<rparr>) d"
  using assms unfolding cancel_request_def ebind_eq_Inr get_or_Inr raise_if_Inr
  by (elim exE conjE) (rule that; auto)

lemma resolve_request_Inr:
  assumes "resolve_request qid admin new_status note_text now d = Inr (q', d')"
  obtains q r d1 where "new_status = RApproved \<or> new_status = RRejected" "get_request d qid = Some q"
    "req_status q = RPending" "get_org d (req_org q) = Some r"
    "if new_status = RApproved then apply_requested_tier q r admin now d = Inr d1 else d1 = d"
    "q' = resolved new_status note_text admin now q" "d' = save_request q' d1"
  using assms unfolding resolve_request_def Let_def ebind_eq_Inr get_or_Inr raise_if_Inr
  by (elim exE conjE Inr_PairE) (rule that; (assumption | auto simp: resolved_def))

lemma apply_requested_tier_Inr:
  assumes "apply_requested_tier q r admin now d = Inr d'"
  obtains (same) "req_target_sku q = org_sku r" "d' = d"
  | (moved) t where "req_target_sku q \<noteq> org_sku r" "tier_get d (req_target_sku q) = Inr t" "tier_active t"
    "orgs d' = row_upd org_id (org_id r) (\<lambda>_. r\<lparr>org_sku := req_target_sku q, org_updated_at := now\<rparr>) (orgs d)"
    "subs d' = row_upd sub_org (org_id r) (\<lambda>s. s\<lparr>sub_sku := req_target_sku q, sub_updated_at := now\<rparr>) (subs d)"
    "requests d' = requests d" "tiers d' = tiers d" "invoices d' = invoices d"
    "\<exists>h. tier_log d' = tier_log d @ [h] \<and> sth_code h = req_target_sku q \<and> sth_org h = Some (org_id r) \<and> sth_actor h = Some admin"
proof (cases "req_target_sku q = org_sku r")
  case True
  then show ?thesis using assms same by (simp add: apply_requested_tier_def)
next
  case False
  from assms False obtain t where t: "tier_get_active d (req_target_sku q) = Inr t"
    and d': "d' = save_org (r\<lparr>org_sku := req_target_sku q, org_updated_at := now\<rparr>)
        (record_tier_assignment (org_id r) (req_target_sku q) (Some (org_sku r)) (Some admin)
          (Some ''subscription_request'') now (d\<lparr>subs := row_upd sub_org (org_id r)
              (\<lambda>s. s\<lparr>sub_sku := req_target_sku q, sub_updated_at := now\<rparr>) (subs d)\<rparr>))"
    unfolding apply_requested_tier_def Let_def by (auto simp: ebind_eq_Inr)
  from t have "tier_get d (req_target_sku q) = Inr t" "tier_active t"
    by (auto simp: tier_get_active_def ebind_eq_Inr raise_if_Inr split: if_splits)
  with False d' show ?thesis
    by (intro moved) (auto simp: save_org_def record_tier_assignment_def)
qed

text \<open>What a step may do to one request.\<close>

definition request_moves :: "sub_request \<Rightarrow> sub_request \<Rightarrow> bool" where
  "request_moves q q' \<longleftrightarrow> q' = q \<or> req_status q = RPending \<and> req_status q' \<noteq> RPending
     \<and> req_id q' = req_id q \<and> req_org q' = req_org q \<and> req_by q' = req_by q \<and> req_direction q' = req_direction q
     \<and> req_current_sku q' = req_current_sku q \<and> req_target_sku q' = req_target_sku q \<and> req_cycle q' = req_cycle q
     \<and> req_promo_code q' = req_promo_code q \<and> req_note q' = req_note q \<and> req_created_at q' = req_created_at q"

definition requests_good :: "db \<Rightarrow> bool" where
  "requests_good d \<longleftrightarrow> unique_by req_id (requests d)
     \<and> (\<forall>u. count_where (\<lambda>q. req_org q = u \<and> req_status q = RPending) (requests d) \<le> 1)"

lemma step_requests:
  assumes "request_step d d'"
  obtains (new) q where "requests d' = requests d @ [q]" "req_id q \<notin> req_id ` set (requests d)" "req_status q = RPending"
      "filter (\<lambda>x. req_org x = req_org q \<and> req_status x = RPending) (requests d) = []"
  | (closed) q q' where "requests d' = row_upd req_id (req_id q) (\<lambda>_. q') (requests d)" "get_request d (req_id q) = Some q"
      "request_moves q q'" "req_status q = RPending" "req_status q' \<noteq> RPending" "req_id q' = req_id q" "req_org q' = req_org q"
  using assms
proof cases
  case (create qid r requester target_sku cyc note_text promo now q)
  then show ?thesis
  proof (rule create_request_Inr)
    assume *: "filter (\<lambda>q. req_org q = org_id r \<and> req_status q = RPending) (requests d) = []" "req_org q = org_id r"
      "req_id q = qid" "req_status q = RPending" "qid \<notin> req_id ` set (requests d)" "d' = d\<lparr>requests := requests d @ [q]\<rparr>"
    show ?thesis by (rule new [of q]) (use * in simp_all)
  qed
next
  case (cancel u qid now)
  then show ?thesis
  proof (rule cancel_request_Inr)
    fix q assume *: "get_request d qid = Some q" "req_status q = RPending"
      "d' = save_request (q\<lparr>req_status := RCanceled, req_updated_at := now\<rparr>) d"
    have "req_id q = qid" using row_get_Some [OF *(1)] by simp
    with * show ?thesis
      by (intro closed [of q "q\<lparr>req_status := RCanceled, req_updated_at := now\<rparr>"]) (simp_all add: request_moves_def)
  qed
next
  case (resolve qid admin new_status note_text now q')
  then show ?thesis
  proof (rule resolve_request_Inr)
    fix q r d1
    assume *: "get_request d qid = Some q" "req_status q = RPending" "new_status = RApproved \<or> new_status = RRejected"
      "if new_status = RApproved then apply_requested_tier q r admin now d = Inr d1 else d1 = d"
      "q' = resolved new_status note_text admin now q" "d' = save_request q' d1"
    have id: "req_id q = qid" using row_get_Some [OF *(1)] by simp
    have "requests d1 = requests d"
      using *(4) by (auto elim: apply_requested_tier_Inr split: if_splits)
    with * id show ?thesis
      by (intro closed [of q q']) (auto simp: request_moves_def resolved_def)
  qed
qed

lemma requests_good_step:
  assumes "request_step d d'" "requests_good d"
  shows "requests_good d'"
  using assms(1)
proof (cases rule: step_requests)
  case (new q)
  have "count_where (\<lambda>x. req_org x = req_org q \<and> req_status x = RPending) (requests d) = 0"
    using new(4) by (simp add: count_where_def)
  with new assms(2) show ?thesis by (auto simp: requests_good_def unique_by_append1)
next
  case (closed q q')
  have u: "unique_by req_id (requests d)" using assms(2) by (simp add: requests_good_def)
  have "count_where (\<lambda>x. req_org x = u \<and> req_status x = RPending) (requests d') \<le>
      count_where (\<lambda>x. req_org x = u \<and> req_status x = RPending) (requests d)" for u
    using count_row_replace [OF u closed(2), of "\<lambda>x. req_org x = u \<and> req_status x = RPending" "\<lambda>_. q'"] closed(1,5)
    by (simp split: if_splits)
  moreover have "unique_by req_id (requests d')"
    unfolding closed(1) using u closed(6) by (intro unique_by_row_replace [where c = "req_id q"]) auto
  ultimately show ?thesis using assms(2) unfolding requests_good_def by (meson order_trans)
qed

lemma request_step_moves:
  assumes "request_step d d'" "requests_good d" "get_request d k = Some q"
  shows "\<exists>q'. get_request d' k = Some q' \<and> request_moves q q'"
  using assms(1)
proof (cases rule: step_requests)
  case (new x)
  with assms(3) show ?thesis by (simp add: row_get_append request_moves_def)
next
  case (closed x x')
  with assms(3) show ?thesis by (auto simp: row_get_save request_moves_def)
qed

lemma request_moves_trans: "request_moves p q \<Longrightarrow> request_moves q r \<Longrightarrow> request_moves p r"
  unfolding request_moves_def by auto

lemma request_run:
  assumes "request_step\<^sup>*\<^sup>* d d'" "requests_good d"
  shows "requests_good d' \<and> (get_request d k = Some q \<longrightarrow> (\<exists>q'. get_request d' k = Some q' \<and> request_moves q q'))"
  using assms(1)
proof (induction rule: rtranclp_induct)
  case (step d1 d2)
  with requests_good_step [OF step(2)] request_step_moves [OF step(2)] show ?case
    by (metis request_moves_trans)
qed (simp add: assms(2) request_moves_def)


subsection \<open>Properties\<close>

text \<open>C32: A change request is decided once: along any sequence of creates, cancels and resolutions, an organization
  has at most one pending request (if it had at most one before), a request that is approved, rejected or canceled
  never changes again, and no step changes the organization, the target plan, the direction, the cycle, the code or
  the note of a request.\<close>

theorem request_lifecycle:
  assumes "request_step\<^sup>*\<^sup>* d d'" "requests_good d"
  shows "count_where (\<lambda>q. req_org q = u \<and> req_status q = RPending) (requests d') \<le> 1
     \<and> (\<forall>q. get_request d k = Some q \<longrightarrow> (\<exists>q'. get_request d' k = Some q' \<and> request_moves q q'))"
  using request_run [OF assms] by (auto simp: requests_good_def)

definition requested_db :: db where
  "requested_db = db_of (create_request 300 org9 1 ''PRO'' Monthly '' please '' (Some ''launch26'') t0 billing_db)"

definition approved_db :: db where
  "approved_db = db_of (resolve_request 300 1 RApproved ''ok'' (t0 + 9) requested_db)"

lemma request_samples: "request_step billing_db requested_db" "request_step requested_db approved_db" "requests_good billing_db"
proof -
  have "\<not> isl (create_request 300 org9 1 ''PRO'' Monthly '' please '' (Some ''launch26'') t0 billing_db)"
    "\<not> isl (resolve_request 300 1 RApproved ''ok'' (t0 + 9) requested_db)" by code_simp+
  from this [THEN db_of_Inr] show "request_step billing_db requested_db" "request_step requested_db approved_db"
    using request_step.create request_step.resolve unfolding requested_db_def approved_db_def by blast+
qed (simp add: requests_good_def billing_db_def empty_db_def)

theorem request_lifecycle_witness:
  "request_step\<^sup>*\<^sup>* requested_db approved_db
   \<and> count_where (\<lambda>q. req_org q = 9 \<and> req_status q = RPending) (requests requested_db) = 1
   \<and> count_where (\<lambda>q. req_org q = 9 \<and> req_status q = RPending) (requests approved_db) \<le> 1"
proof -
  have "request_step\<^sup>*\<^sup>* requested_db approved_db" using request_samples(2) by blast
  moreover have "requests_good requested_db" by (rule requests_good_step [OF request_samples(1,3)])
  moreover have "count_where (\<lambda>q. req_org q = 9 \<and> req_status q = RPending) (requests requested_db) = 1" by code_simp
  ultimately show ?thesis using request_lifecycle [of requested_db approved_db 9 0] by blast
qed


text \<open>What a resolution does: an approval puts exactly the requesting organization on the requested plan (which
  is active, unless the organization is on it already), moves its subscription to that plan and leaves every other
  organization, every other subscription and every invoice alone; a rejection writes the request and nothing else.
  Either needs a pending request and decides it.\<close>

theorem resolution_effect:
  assumes "resolve_request qid admin st note_text now d = Inr (q', d')"
  shows "\<exists>q r. get_request d qid = Some q \<and> req_status q = RPending \<and> get_org d (req_org q) = Some r
     \<and> get_request d' qid = Some q' \<and> req_status q' = st \<and> req_resolved_by q' = Some admin \<and> invoices d' = invoices d
     \<and> (case st of
         RApproved \<Rightarrow> map_option org_sku (get_org d' (req_org q)) = Some (req_target_sku q)
           \<and> (req_target_sku q \<noteq> org_sku r \<longrightarrow> (\<exists>t. tier_get d (req_target_sku q) = Inr t \<and> tier_active t)
                \<and> (\<forall>s. get_sub d (req_org q) = Some s \<longrightarrow> map_option sub_sku (get_sub d' (req_org q)) = Some (req_target_sku q)))
           \<and> (\<forall>u. u \<noteq> req_org q \<longrightarrow> get_org d' u = get_org d u \<and> get_sub d' u = get_sub d u)
       | RRejected \<Rightarrow> d' = save_request q' d
       | _ \<Rightarrow> False)"
  using assms
proof (rule resolve_request_Inr)
  fix q r d1
  assume st: "st = RApproved \<or> st = RRejected" and q: "get_request d qid = Some q" "req_status q = RPending"
    and r: "get_org d (req_org q) = Some r" and d1: "if st = RApproved then apply_requested_tier q r admin now d = Inr d1 else d1 = d"
    and q': "q' = resolved st note_text admin now q" and d': "d' = save_request q' d1"
  have id: "req_id q = qid" "org_id r = req_org q" using row_get_Some [OF q(1)] row_get_Some [OF r] by simp_all
  show ?thesis
  proof (cases "st = RApproved")
    case True
    with d1 have "apply_requested_tier q r admin now d = Inr d1" by simp
    then show ?thesis
    proof (cases rule: apply_requested_tier_Inr)
      case same
      with True q r d' q' id show ?thesis
        by (intro exI [of _ q] exI [of _ r]) (simp add: row_get_save resolved_def)
    next
      case (moved t)
      have "get_sub d1 u = (if u = req_org q then map_option (\<lambda>s. s\<lparr>sub_sku := req_target_sku q, sub_updated_at := now\<rparr>) (get_sub d u)
          else get_sub d u)" for u
        unfolding moved(5) id by (subst row_get_upd) auto
      with moved True q r d' q' id show ?thesis
        by (intro exI [of _ q] exI [of _ r]) (auto simp: row_get_save resolved_def)
    qed
  next
    case False
    with st d1 q r d' q' id show ?thesis
      by (intro exI [of _ q] exI [of _ r]) (simp add: row_get_save resolved_def)
  qed
qed

lemma check_capacity_Inr:
  assumes "check_capacity d target use seats = Inr ()" "tier_get d (tier_code target) = Inr target"
  shows "(\<forall>x\<in>set use. int (ui_used x) \<le> limit_for target (ui_product x))
     \<and> opt_all (\<lambda>n. int (ws_editors seats) \<le> n) (tier_editor_limit target)
     \<and> opt_all (\<lambda>n. int (ws_viewers seats) \<le> n) (tier_viewer_limit target)"
proof -
  have fold: "efold (\<lambda>x _. raise_if (c x) (e x)) xs () = Inr () \<longleftrightarrow> (\<forall>x\<in>set xs. \<not> c x)" for c e and xs :: "usage_item list"
    by (induction xs) (auto simp: ebind_eq_Inr raise_if_Inr)
  show ?thesis
    using assms unfolding check_capacity_def tier_limits_def workspace_limits_def
    by (auto simp: ebind_eq_Inr raise_if_Inr fold not_less split: option.splits)
qed

lemma editors_sum:
  "count_where (\<lambda>m. mem_org m = u \<and> mem_role m = Owner) ms + count_where (\<lambda>m. mem_org m = u \<and> mem_role m = Admin) ms
     + count_where (\<lambda>m. mem_org m = u \<and> mem_role m = Member) ms = count_where (\<lambda>m. mem_org m = u \<and> mem_role m \<noteq> Viewer) ms"
proof (induction ms)
  case (Cons m ms)
  then show ?case by (cases "mem_role m") simp_all
qed simp

text \<open>A change request is sound when it is accepted: its target is an active, requestable tier other than the
  current one, its direction is that of the tier ranks, nothing but the new row is written, and a downgrade is only
  accepted when the use of every product, the editors and the viewers fit the target's limits.\<close>

theorem request_sound:
  assumes "create_request qid r requester target_sku cyc note_text promo now d = Inr (q, d')"
  shows "\<exists>target current. tier_get d target_sku = Inr target \<and> tier_active target \<and> tier_requestable target
     \<and> resolve_tier d (Some (org_sku r)) = Inr current \<and> target_sku \<noteq> tier_code current
     \<and> (req_direction q = Upgrade \<longleftrightarrow> tier_rank current < tier_rank target) \<and> d' = d\<lparr>requests := requests d @ [q]\<rparr>
     \<and> (req_direction q = Downgrade \<longrightarrow> (\<forall>p. int (used_of d (org_id r) p) \<le> limit_for target p)
          \<and> opt_all (\<lambda>n. int (seat_count d (org_id r) None (\<lambda>r. r \<noteq> Viewer)) \<le> n) (tier_editor_limit target)
          \<and> opt_all (\<lambda>n. int (seat_count d (org_id r) None (\<lambda>r. r = Viewer)) \<le> n) (tier_viewer_limit target))"
  using assms
proof (rule create_request_Inr)
  fix target current use seats
  assume *: "tier_get d target_sku = Inr target" "tier_active target" "tier_requestable target"
    "resolve_tier d (Some (org_sku r)) = Inr current" "target_sku \<noteq> tier_code current"
    "sub_usage d (org_id r) (Some (tier_code current)) = Inr (use, seats)"
    "req_direction q = (if tier_rank current < tier_rank target then Upgrade else Downgrade)"
    "req_direction q = Downgrade \<Longrightarrow> check_capacity d target use seats = Inr ()" "d' = d\<lparr>requests := requests d @ [q]\<rparr>"
  have t: "tier_get d (tier_code target) = Inr target"
    using *(1) row_get_Some [of tier_code target_sku "tiers d" target] by (auto simp: tier_get_def get_or_Inr)
  have use: "(\<forall>x\<in>set use. int (ui_used x) \<le> limit_for target (ui_product x)) \<Longrightarrow> int (used_of d (org_id r) p) \<le> limit_for target p" for p
    using *(6) by (cases p) (auto simp: sub_usage_def ebind_eq_Inr)
  have "seat_count d (org_id r) None (\<lambda>r. r = Owner) + seat_count d (org_id r) None (\<lambda>r. r = Admin)
      + seat_count d (org_id r) None (\<lambda>r. r = Member) = seat_count d (org_id r) None (\<lambda>r. r \<noteq> Viewer)"
    unfolding seat_count_def by (simp add: editors_sum)
  with *(6) have seats: "ws_editors seats = seat_count d (org_id r) None (\<lambda>r. r \<noteq> Viewer)"
    "ws_viewers seats = seat_count d (org_id r) None (\<lambda>r. r = Viewer)"
    by (auto simp: sub_usage_def ebind_eq_Inr)
  show ?thesis
    using * check_capacity_Inr [OF *(8) t] use seats by (intro exI [of _ target] exI [of _ current]) (auto split: if_splits)
qed

subsection \<open>Where the checks stop\<close>

text \<open>The capacity of a downgrade is checked when it is requested, not when it is approved: the organization
  may have grown in between, and is then above the limits of its new tier.\<close>

definition pro_org_db :: db where
  "pro_org_db = billing_db\<lparr>orgs := [org9\<lparr>org_sku := ''PRO''\<rparr>],
     tiers := [seed_tier, seed_tier\<lparr>tier_code := ''PRO'', tier_rank := 2, tier_is_default := False, tier_limit_scan := 5\<rparr>]\<rparr>"

lemma approval_does_not_recheck_capacity:
  "let d1 = db_of (create_request 300 (org9\<lparr>org_sku := ''PRO''\<rparr>) 1 ''FREE'' Monthly [] None t0 pro_org_db);
       d2 = d1\<lparr>scan_assets := [9, 9, 9]\<rparr>; d3 = db_of (resolve_request 300 1 RApproved [] (t0 + 9) d2) in
   map_option org_sku (get_org d3 9) = Some ''FREE'' \<and> used_of d3 9 Scan = 3
   \<and> (case product_limit d3 ''FREE'' Scan of Inl _ \<Rightarrow> False | Inr n \<Rightarrow> n = 1)"
  by code_simp

text \<open>Nothing locks the organization while a request is made. Two requests made at the same time both pass the check
  for a pending one; from then on every further request fails with an unhandled error.\<close>

lemma concurrent_requests_break_the_queue:
  "case (create_request 300 org9 1 ''PRO'' Monthly [] None t0 billing_db, create_request 301 org9 1 ''PRO'' Annual [] None t0 billing_db) of
     (Inr (q1, d1), Inr (q2, d2)) \<Rightarrow>
       (case create_request 302 org9 1 ''PRO'' Monthly [] None t0 (billing_db\<lparr>requests := [q1, q2]\<rparr>) of
          Inl e \<Rightarrow> e = MultipleResultsFound | Inr _ \<Rightarrow> False)
   | _ \<Rightarrow> False"
  by code_simp

end
