(* ===== verification/Json.thy ===== *)
theory Json
  imports Prelude
begin

text \<open>
  Decoded JSON, as the payment gateway and the AI gateway read it: the value of \<open>json.loads\<close>. A key of an object
  stands once in Python; \<open>map_of\<close> takes the first. A float is kept as the text of its numeral.
\<close>

datatype json = JsonNull | JsonBool bool | JsonInt int | JsonFloat string | JsonStr string
  | JsonArray "json list" | JsonObject "(string \<times> json) list"

type_synonym json_dict = "(string \<times> json) list"

subsection \<open>Numerals\<close>

fun digits_val :: "int \<Rightarrow> string \<Rightarrow> int" where
  "digits_val acc [] = acc"
| "digits_val acc (c # s) = digits_val (10 * acc + (of_char c - 48)) s"

definition is_digit :: "char \<Rightarrow> bool" where
  "is_digit c \<longleftrightarrow> 48 \<le> (of_char c :: nat) \<and> (of_char c :: nat) \<le> 57"

text \<open>\<open>Decimal(raw)\<close>: sign, digits with an optional point, exponent. The value is the coefficient times ten to the
  exponent. Infinities and NaNs parse in Python and are refused by \<open>is_finite\<close>, so they are \<open>None\<close> here too.\<close>

definition exponent_of :: "string \<Rightarrow> int option" where
  "exponent_of s = (case s of
     [] \<Rightarrow> Some 0
   | e # t \<Rightarrow> if e \<noteq> CHR ''e'' \<and> e \<noteq> CHR ''E'' then None else
       let neg = (t \<noteq> [] \<and> hd t = CHR ''-''); u = (if t \<noteq> [] \<and> (hd t = CHR ''-'' \<or> hd t = CHR ''+'') then tl t else t) in
       if u = [] \<or> \<not> list_all is_digit u then None else Some (if neg then - digits_val 0 u else digits_val 0 u))"

definition decimal_of :: "string \<Rightarrow> (int \<times> int) option" where
  "decimal_of raw =
     (let s = filter (\<lambda>c. c \<noteq> CHR ''_'') (strip raw);
          neg = (s \<noteq> [] \<and> hd s = CHR ''-''); u = (if s \<noteq> [] \<and> (hd s = CHR ''-'' \<or> hd s = CHR ''+'') then tl s else s);
          whole = takeWhile is_digit u; r1 = dropWhile is_digit u;
          point = (r1 \<noteq> [] \<and> hd r1 = CHR ''.'');
          frac = (if point then takeWhile is_digit (tl r1) else []);
          r2 = (if point then dropWhile is_digit (tl r1) else r1);
          m = digits_val 0 (whole @ frac) in
      if whole @ frac = [] then None
      else map_option (\<lambda>e. (if neg then - m else m, e - int (length frac))) (exponent_of r2))"

text \<open>\<open>int(text)\<close>: a sign, digits, single underscores between digits.\<close>

fun int_digits :: "bool \<Rightarrow> int \<Rightarrow> string \<Rightarrow> int option" where   \<comment> \<open>single underscores between digits\<close>
  "int_digits digit_before acc [] = (if digit_before then Some acc else None)"
| "int_digits digit_before acc (c # s) =
     (if is_digit c then int_digits True (10 * acc + (of_char c - 48)) s
      else if c = CHR ''_'' \<and> digit_before then int_digits False acc s else None)"

definition int_literal :: "string \<Rightarrow> int option" where
  "int_literal raw = (let s = strip raw in
     if s = [] then None
     else if hd s = CHR ''-'' then map_option uminus (int_digits False 0 (tl s))
     else if hd s = CHR ''+'' then int_digits False 0 (tl s) else int_digits False 0 s)"

subsection \<open>Objects\<close>

text \<open>Python's \<open>data.get(key)\<close>: \<open>None\<close> for a key that is missing and for \<open>null\<close>.\<close>

definition jget :: "string \<Rightarrow> json_dict \<Rightarrow> json" where
  "jget key data = (case map_of data key of None \<Rightarrow> JsonNull | Some v \<Rightarrow> v)"

text \<open>The truth value of a decoded value. A float is false when it is a zero.\<close>

definition zero_numeral :: "string \<Rightarrow> bool" where
  "zero_numeral s \<longleftrightarrow> list_all (\<lambda>c. c \<notin> set ''123456789'') (takeWhile (\<lambda>c. c \<noteq> CHR ''e'' \<and> c \<noteq> CHR ''E'') s)"

fun truthy :: "json \<Rightarrow> bool" where
  "truthy JsonNull = False"
| "truthy (JsonBool b) = b"
| "truthy (JsonInt n) = (n \<noteq> 0)"
| "truthy (JsonFloat s) = (\<not> zero_numeral s)"
| "truthy (JsonStr s) = (s \<noteq> [])"
| "truthy (JsonArray xs) = (xs \<noteq> [])"
| "truthy (JsonObject xs) = (xs \<noteq> [])"

text \<open>\<open>dict(body)\<close> with a key assigned.\<close>

definition jset :: "string \<Rightarrow> json \<Rightarrow> json_dict \<Rightarrow> json_dict" where
  "jset key v data = (if key \<in> fst ` set data then map (\<lambda>p. if fst p = key then (key, v) else p) data else data @ [(key, v)])"

lemma jget_jset: "jget k (jset key v data) = (if k = key then v else jget k data)"
proof -
  have upd: "map_of (map (\<lambda>p. if fst p = key then (key, v) else p) data) k = (if k = key then (if key \<in> fst ` set data then Some v else None) else map_of data k)"
    by (induction data) (force+)
  show ?thesis
  proof (cases "key \<in> fst ` set data")
    case True
    then show ?thesis unfolding jget_def jset_def by (simp only: upd if_True) simp
  next
    case False
    then have "map_of data key = None" by (simp add: map_of_eq_None_iff)
    with False show ?thesis unfolding jget_def jset_def by (simp add: map_add_def split: option.split)
  qed
qed

end
