(* ===== verification/Midtrans.thy ===== *)
theory Midtrans
  imports Subscription Json
begin

text \<open>
  The payment gateway: the adapter of Midtrans (\<open>services/payments/midtrans.py\<close>), its data
  (\<open>services/payments/base.py\<close>) and the registry (\<open>services/payments/registry.py\<close>). The HTTP client
  (\<open>transport\<close>) and SHA-512 are parameters; \<open>json.loads\<close> has been run, so a body is its decoded value, if it
  has one. The stored copy of a notification holds the text of its strings and integers.
\<close>

subsection \<open>HTTP\<close>

record http_request =
  hr_method :: string
  hr_url :: string
  hr_auth :: string
  hr_body :: "json option"

datatype http_reply = HttpError | Replied nat "json option"   \<comment> \<open>status, decoded body\<close>

type_synonym transport = "http_request \<Rightarrow> http_reply"

definition is_success :: "nat \<Rightarrow> bool" where "is_success code \<longleftrightarrow> 200 \<le> code \<and> code < 300"

subsection \<open>Base64\<close>

definition b64_char :: "nat \<Rightarrow> char" where
  "b64_char n = (if n < 26 then char_of (65 + n) else if n < 52 then char_of (71 + n) else if n < 62 then char_of (n - 4)
     else if n = 62 then CHR ''+'' else CHR ''/'')"

fun b64encode :: "nat list \<Rightarrow> string" where
  "b64encode (a # b # c # rest) = b64_char (a div 4) # b64_char (16 * (a mod 4) + b div 16)
     # b64_char (4 * (b mod 16) + c div 64) # b64_char (c mod 64) # b64encode rest"
| "b64encode [a, b] = [b64_char (a div 4), b64_char (16 * (a mod 4) + b div 16), b64_char (4 * (b mod 16)), CHR ''='']"
| "b64encode [a] = [b64_char (a div 4), b64_char (16 * (a mod 4)), CHR ''='', CHR ''='']"
| "b64encode [] = []"

definition basic_auth :: "string \<Rightarrow> string" where
  "basic_auth key = ''Basic '' @ b64encode (map of_char (key @ '':''))"

subsection \<open>Configuration and registry\<close>

record pay_settings =
  payment_gateway_enabled :: bool
  payment_providers_enabled :: string
  midtrans_server_key :: string
  midtrans_is_production :: bool
  payment_webhook_secret :: string

datatype gateway = Midtrans

fun gateway_name :: "gateway \<Rightarrow> string" where "gateway_name Midtrans = ''midtrans''"

definition server_key :: "pay_settings \<Rightarrow> string result" where
  "server_key p = (let key = strip (midtrans_server_key p) in
     if key = [] then Inl (PaymentConfigError ''MIDTRANS_SERVER_KEY is not configured'') else Inr key)"

definition configured :: "pay_settings \<Rightarrow> bool" where
  "configured p = (let key = strip (midtrans_server_key p) in
     if key = [] then False
     else if midtrans_is_production p \<and> starts_with ''SB-Mid-'' key then False
     else \<not> (\<not> midtrans_is_production p \<and> starts_with ''Mid-'' key \<and> \<not> starts_with ''SB-Mid-'' key))"

definition gateway_enabled :: "pay_settings \<Rightarrow> bool" where
  "gateway_enabled p \<longleftrightarrow> configured p \<and> payment_gateway_enabled p"

definition factory :: "string \<Rightarrow> gateway option" where   \<comment> \<open>\<open>_FACTORIES.get\<close>\<close>
  "factory name = (if name = ''midtrans'' then Some Midtrans else None)"

definition build_provider :: "pay_settings \<Rightarrow> string \<Rightarrow> bool \<Rightarrow> gateway result" where
  "build_provider p name require_checkout_enabled =
     ebind (get_or (ProviderUnavailable (''unknown payment provider: '' @ name)) (factory (lower (strip name)))) (\<lambda>g.
     ebind (raise_if (\<not> configured p) (ProviderUnavailable (''payment provider is not configured: '' @ name))) (\<lambda>_.
     ebind (raise_if (require_checkout_enabled \<and> \<not> gateway_enabled p)
       (ProviderUnavailable (''payment provider is disabled: '' @ name))) (\<lambda>_. Inr g)))"

fun split_commas :: "string \<Rightarrow> string list" where
  "split_commas [] = [[]]"
| "split_commas (c # s) = (case split_commas s of
     [] \<Rightarrow> [[c]]
   | w # ws \<Rightarrow> if c = CHR '','' then [] # w # ws else (c # w) # ws)"

definition enabled_providers :: "pay_settings \<Rightarrow> gateway list" where
  "enabled_providers p = concat (map (\<lambda>name. case factory name of None \<Rightarrow> [] | Some g \<Rightarrow> if gateway_enabled p then [g] else [])
     (map (\<lambda>w. lower (strip w)) (filter (\<lambda>w. strip w \<noteq> []) (split_commas (payment_providers_enabled p)))))"

definition validate_payment_config :: "pay_settings \<Rightarrow> unit result" where
  "validate_payment_config p = (let key = strip (midtrans_server_key p) in
     if \<not> payment_gateway_enabled p then Inr ()
     else if key = [] then Inl (PaymentConfigError ''PAYMENT_GATEWAY_ENABLED=true requires MIDTRANS_SERVER_KEY'')
     else if midtrans_is_production p \<and> starts_with ''SB-Mid-'' key
     then Inl (PaymentConfigError ''MIDTRANS_IS_PRODUCTION=true but MIDTRANS_SERVER_KEY is a sandbox key'')
     else if \<not> midtrans_is_production p \<and> starts_with ''Mid-'' key
     then Inl (PaymentConfigError ''MIDTRANS_IS_PRODUCTION=false but MIDTRANS_SERVER_KEY is a production key'')
     else Inr ())"

subsection \<open>Reading a notification\<close>

definition raw_string :: "json_dict \<Rightarrow> string \<Rightarrow> string" where
  "raw_string data key = (case map_of data key of Some (JsonStr s) \<Rightarrow> s | Some (JsonInt n) \<Rightarrow> show_int n | _ \<Rightarrow> [])"

definition str_field :: "json_dict \<Rightarrow> string \<Rightarrow> string option" where   \<comment> \<open>a non-empty string, or none\<close>
  "str_field data key = (case map_of data key of Some (JsonStr s) \<Rightarrow> if s = [] then None else Some s | _ \<Rightarrow> None)"

definition parse_idr :: "string \<Rightarrow> string \<Rightarrow> int result" where
  "parse_idr raw field_name = (case decimal_of raw of
     None \<Rightarrow> Inl (MalformedWebhook (''invalid '' @ field_name))
   | Some (m, e) \<Rightarrow> if 0 \<le> e then Inr (m * 10 ^ nat e)
       else if m mod 10 ^ nat (- e) = 0 then Inr (m div 10 ^ nat (- e))
       else Inl (MalformedWebhook (''invalid '' @ field_name)))"

definition map_kind :: "string \<Rightarrow> string \<Rightarrow> string \<Rightarrow> event_kind" where
  "map_kind transaction_status status_code fraud_status =
     (if transaction_status = ''capture'' then
        (if status_code = ''200'' \<and> fraud_status \<in> {[], ''accept''} then KSucceeded
         else if fraud_status = ''challenge'' then KPending else KIgnored)
      else if transaction_status = ''settlement'' then (if status_code = ''200'' then KSucceeded else KIgnored)
      else if transaction_status \<in> {''pending'', ''authorize'', ''authorized''} then KPending
      else if transaction_status \<in> {''deny'', ''cancel'', ''failure''} then KFailed
      else if transaction_status = ''expire'' then KExpired
      else if transaction_status = ''refund'' then KRefunded
      else if transaction_status = ''partial_refund'' then KPartiallyRefunded
      else if transaction_status \<in> {''chargeback'', ''partial_chargeback''} then KChargeback
      else KIgnored)"

definition raw_text :: "json_dict \<Rightarrow> (string \<times> string) list" where
  "raw_text data = concat (map (\<lambda>(k, v). case v of JsonStr s \<Rightarrow> [(k, s)] | JsonInt n \<Rightarrow> [(k, show_int n)] | _ \<Rightarrow> []) data)"

definition event_id :: "json_dict \<Rightarrow> string \<Rightarrow> string" where
  "event_id data order_id = (case str_field data ''transaction_id'' of
     None \<Rightarrow> order_id
   | Some t \<Rightarrow> t @ '':'' @ lower (raw_string data ''transaction_status'') @ '':'' @ raw_string data ''status_code''
       @ '':'' @ lower (raw_string data ''fraud_status''))"

definition nonempty :: "string \<Rightarrow> string option" where "nonempty s = (if s = [] then None else Some s)"   \<comment> \<open>\<open>s or None\<close>\<close>

definition event_from_payload :: "json_dict \<Rightarrow> string \<Rightarrow> normalized_event result" where
  "event_from_payload data k =
     (let status_code = raw_string data ''status_code'';
          kind = map_kind (lower (raw_string data ''transaction_status'')) status_code (lower (raw_string data ''fraud_status''));
          refund_raw = raw_string data ''refund_amount'' in
      ebind (parse_idr (raw_string data ''gross_amount'') ''gross_amount'') (\<lambda>amount.
      ebind (if refund_raw = [] then Inr 0 else parse_idr refund_raw ''refund_amount'') (\<lambda>refunded.
      Inr \<lparr>ev_id = k, ev_kind = kind, ev_order_id = nonempty (raw_string data ''order_id''),
        ev_payment_id = str_field data ''transaction_id'', ev_amount_idr = amount, ev_currency = ''IDR'', ev_fee_idr = 0,
        ev_refunded_idr = refunded, ev_method = str_field data ''payment_type'',
        ev_failure_code = (if kind = KFailed then nonempty status_code else None),
        ev_failure_message = (if kind = KFailed then str_field data ''status_message'' else None),
        ev_raw = raw_text data\<rparr>)))"

definition parse_webhook :: "pay_settings \<Rightarrow> (string \<Rightarrow> string) \<Rightarrow> json option \<Rightarrow> normalized_event result" where
  "parse_webhook p sha512 body = (case body of
     None \<Rightarrow> Inl (MalformedWebhook ''webhook body is not valid JSON'')
   | Some (JsonObject data) \<Rightarrow>
       let order_id = raw_string data ''order_id''; status_code = raw_string data ''status_code'';
           gross_amount = raw_string data ''gross_amount'' in
       ebind (raise_if (order_id = [] \<or> status_code = [] \<or> gross_amount = [])
         (InvalidWebhookSignature ''webhook is missing signed fields'')) (\<lambda>_.
       ebind (get_or (InvalidWebhookSignature ''missing signature_key'') (case map_of data ''signature_key'' of
           Some (JsonStr s) \<Rightarrow> if strip s = [] then None else Some s | _ \<Rightarrow> None)) (\<lambda>signature.
       ebind (server_key p) (\<lambda>key.
       ebind (raise_if (lower (strip signature) \<noteq> sha512 (order_id @ status_code @ gross_amount @ key))
         (InvalidWebhookSignature ''invalid signature_key'')) (\<lambda>_.
       event_from_payload data (event_id data order_id)))))
   | Some _ \<Rightarrow> Inl (MalformedWebhook ''webhook body must be a JSON object''))"

subsection \<open>Calls to the gateway\<close>

record checkout_request =
  co_order_id :: string
  co_amount_idr :: int
  co_currency :: string
  co_invoice_number :: string
  co_description :: string
  co_customer_email :: string
  co_customer_name :: string
  co_return_url :: string
  co_cancel_url :: string
  co_idempotency_key :: uuid

record checkout_result =
  cr_provider :: string
  cr_order_id :: string
  cr_payment_id :: "string option"
  cr_token :: string
  cr_redirect_url :: string
  cr_expires_at :: "datetime option"
  cr_amount_idr :: int
  cr_currency :: string

record status_result =
  sr_found :: bool
  sr_event :: "normalized_event option"
  sr_error :: "string option"

definition snap_base :: "pay_settings \<Rightarrow> string" where
  "snap_base p = (if midtrans_is_production p then ''https://app.midtrans.com'' else ''https://app.sandbox.midtrans.com'')"

definition api_base :: "pay_settings \<Rightarrow> string" where
  "api_base p = (if midtrans_is_production p then ''https://api.midtrans.com'' else ''https://api.sandbox.midtrans.com'')"

definition order_id_char :: "char \<Rightarrow> bool" where
  "order_id_char c \<longleftrightarrow> is_code_char c \<or> (97 \<le> (of_char c :: nat) \<and> (of_char c :: nat) \<le> 122)
     \<or> c \<in> {CHR ''.'', CHR ''_'', CHR ''~'', CHR ''-''}"

definition order_id_ok :: "string \<Rightarrow> bool" where   \<comment> \<open>\<open>[A-Za-z0-9._~-]{1,50}\<close>\<close>
  "order_id_ok s \<longleftrightarrow> 1 \<le> length s \<and> length s \<le> 50 \<and> list_all order_id_char s"

definition EXPIRY_HOURS :: int where "EXPIRY_HOURS = 24"

definition snap_payload :: "checkout_request \<Rightarrow> json" where
  "snap_payload q =
     (let first_name = (if take 50 (strip (co_customer_name q)) = [] then take 50 (co_invoice_number q)
           else take 50 (strip (co_customer_name q))) in
      JsonObject [(''transaction_details'', JsonObject [(''order_id'', JsonStr (co_order_id q)), (''gross_amount'', JsonInt (co_amount_idr q))]),
        (''item_details'', JsonArray [JsonObject [(''id'', JsonStr (co_invoice_number q)), (''price'', JsonInt (co_amount_idr q)),
          (''quantity'', JsonInt 1),
          (''name'', JsonStr (if co_description q = [] then co_invoice_number q else co_description q))]]),
        (''customer_details'', JsonObject [(''first_name'', JsonStr first_name), (''email'', JsonStr (strip (co_customer_email q)))]),
        (''callbacks'', JsonObject [(''finish'', JsonStr (co_return_url q)), (''unfinish'', JsonStr (co_cancel_url q)),
          (''error'', JsonStr (co_cancel_url q))]),
        (''expiry'', JsonObject [(''unit'', JsonStr ''hours''), (''duration'', JsonInt EXPIRY_HOURS)])])"

definition json_object :: "json option \<Rightarrow> string \<Rightarrow> json_dict result" where   \<comment> \<open>\<open>_json_dict\<close>\<close>
  "json_object body operation = (case body of
     None \<Rightarrow> Inl (PaymentProviderError (''Midtrans '' @ operation @ '' returned non-JSON'') False None)
   | Some (JsonObject data) \<Rightarrow> Inr data
   | Some _ \<Rightarrow> Inl (PaymentProviderError (''Midtrans '' @ operation @ '' returned unexpected payload'') False None))"

text \<open>The part of \<open>create_checkout\<close> that reads the answer.\<close>

definition read_checkout :: "checkout_request \<Rightarrow> datetime \<Rightarrow> nat \<Rightarrow> json option \<Rightarrow> checkout_result result" where
  "read_checkout q now code body =
     ebind (raise_if (code = 406) (PaymentProviderError ''duplicate order id'' False (Some 406))) (\<lambda>_.
     ebind (raise_if (\<not> is_success code) (PaymentProviderError (''Midtrans create failed ('' @ show_nat code @ '')'')
       (500 \<le> code \<or> code = 429) (Some code))) (\<lambda>_.
     ebind (json_object body ''create'') (\<lambda>data.
     (case (str_field data ''token'', str_field data ''redirect_url'') of
        (Some token, Some url) \<Rightarrow> Inr \<lparr>cr_provider = ''midtrans'', cr_order_id = co_order_id q, cr_payment_id = None,
          cr_token = token, cr_redirect_url = url, cr_expires_at = Some (now + EXPIRY_HOURS * 3600000000),
          cr_amount_idr = co_amount_idr q, cr_currency = co_currency q\<rparr>
      | _ \<Rightarrow> Inl (PaymentProviderError ''Midtrans create response is missing token/redirect_url'' False None)))))"

definition snap_call :: "pay_settings \<Rightarrow> string \<Rightarrow> checkout_request \<Rightarrow> http_request" where
  "snap_call p key q = \<lparr>hr_method = ''POST'', hr_url = snap_base p @ ''/snap/v1/transactions'', hr_auth = basic_auth key,
     hr_body = Some (snap_payload q)\<rparr>"

definition midtrans_create :: "pay_settings \<Rightarrow> transport \<Rightarrow> checkout_request \<Rightarrow> datetime \<Rightarrow> checkout_result result" where
  "midtrans_create p net q now =
     ebind (raise_if (\<not> order_id_ok (co_order_id q))
       (PaymentProviderError ''order_id must be <= 50 chars and match [A-Za-z0-9._~-]'' False None)) (\<lambda>_.
     ebind (raise_if (strip (co_customer_email q) = [])
       (PaymentProviderError ''customer email is required before calling Snap'' False None)) (\<lambda>_.
     ebind (server_key p) (\<lambda>key.
     case net (snap_call p key q) of
       HttpError \<Rightarrow> Inl (ProviderUnavailable ''Midtrans create request failed'')
     | Replied code body \<Rightarrow> read_checkout q now code body)))"

definition not_found :: "string option \<Rightarrow> status_result" where
  "not_found e = \<lparr>sr_found = False, sr_event = None, sr_error = e\<rparr>"

text \<open>The part of \<open>fetch_status\<close> that reads a successful answer.\<close>

definition read_status :: "payment_attempt \<Rightarrow> string \<Rightarrow> json option \<Rightarrow> status_result" where
  "read_status a order_id body = (case body of
     None \<Rightarrow> not_found (Some ''Midtrans returned non-JSON'')
   | Some (JsonObject data) \<Rightarrow> (case event_from_payload data (event_id data order_id) of
       Inl _ \<Rightarrow> not_found (Some ''Midtrans returned an invalid amount'')
     | Inr ev \<Rightarrow> if ev_amount_idr ev \<noteq> att_amount_idr a
         then \<lparr>sr_found = True, sr_event = Some (ev\<lparr>ev_kind := KFailed, ev_failure_code := Some ''amount_mismatch'',
             ev_failure_message := Some ''provider amount does not match the attempt''\<rparr>), sr_error = Some ''amount mismatch''\<rparr>
         else \<lparr>sr_found = True, sr_event = Some ev, sr_error = None\<rparr>)
   | Some _ \<Rightarrow> not_found (Some ''Midtrans returned unexpected payload''))"

definition fetch_status :: "pay_settings \<Rightarrow> transport \<Rightarrow> payment_attempt \<Rightarrow> status_result result" where
  "fetch_status p net a =
     (let order_id = strip (str_or_empty (or_str (att_order_id a) (att_provider_ref a))) in
      if order_id = [] then Inr (not_found (Some ''attempt has no provider order id''))
      else ebind (server_key p) (\<lambda>key.
        Inr (case net \<lparr>hr_method = ''GET'', hr_url = api_base p @ ''/v2/'' @ order_id @ ''/status'',
            hr_auth = basic_auth key, hr_body = None\<rparr> of
          HttpError \<Rightarrow> not_found (Some ''Midtrans status request failed'')
        | Replied code body \<Rightarrow>
            if code = 404 then not_found None
            else if \<not> is_success code then not_found (Some (''Midtrans status failed ('' @ show_nat code @ '')''))
            else read_status a order_id body)))"

definition midtrans_cancel :: "pay_settings \<Rightarrow> transport \<Rightarrow> payment_attempt \<Rightarrow> bool result" where
  "midtrans_cancel p net a =
     (let token = strip (str_or_empty (att_token a)) in
      if token = [] then Inr False
      else ebind (server_key p) (\<lambda>key.
        case net \<lparr>hr_method = ''POST'', hr_url = snap_base p @ ''/snap/v1/transactions/'' @ token @ ''/cancel'',
            hr_auth = key, hr_body = None\<rparr> of
          HttpError \<Rightarrow> Inl (ProviderUnavailable ''Midtrans cancel request failed'')
        | Replied code _ \<Rightarrow> if code = 200 \<or> code = 201 then Inr True
            else if code = 404 \<or> code = 412 then Inr False
            else Inl (ProviderUnavailable (''Midtrans cancel failed ('' @ show_nat code @ '')''))))"

text \<open>What \<open>_verify_provider_status\<close> asks: the answer of the adapter that the registry builds.\<close>

definition provider_query :: "pay_settings \<Rightarrow> transport \<Rightarrow> string \<Rightarrow> payment_attempt \<Rightarrow> provider_reply" where
  "provider_query p net provider a = (case build_provider p provider False of
     Inl _ \<Rightarrow> NoFetchStatus
   | Inr _ \<Rightarrow> (case fetch_status p net a of
       Inl _ \<Rightarrow> QueryRaised
     | Inr r \<Rightarrow> if sr_error r \<noteq> None then QueryError
         else (case (sr_found r, sr_event r) of (True, Some ev) \<Rightarrow> Reports (ev_kind ev) | _ \<Rightarrow> NoTransaction)))"

subsection \<open>Amounts as the gateway writes them\<close>

lemma digit_char: "(d :: nat) < 10 \<Longrightarrow> is_digit (char_of (48 + d))"
  by (simp add: is_digit_def)

lemma digits_show_nat: "list_all is_digit (show_nat n)"
proof (induction n rule: show_nat.induct)
  case (1 n)
  then show ?case by (subst show_nat.simps) (auto simp: digit_char)
qed

lemma digits_val_read: "list_all is_digit s \<Longrightarrow> digits_val (int acc) s = int (read_nat acc s)"
proof (induction s arbitrary: acc)
  case (Cons c s)
  have "(of_char c :: int) = int (of_char c)" by (simp add: of_char_def)
  with Cons.prems have "10 * int acc + (of_char c - 48) = int (10 * acc + (of_char c - 48))"
    by (simp add: is_digit_def)
  then have "digits_val (int acc) (c # s) = digits_val (int (10 * acc + (of_char c - 48))) s" by (simp only: digits_val.simps)
  also have "\<dots> = int (read_nat (10 * acc + (of_char c - 48)) s)" using Cons.prems by (intro Cons.IH) simp
  finally show ?case by simp
qed simp

lemma show_nat_nonempty [simp]: "show_nat n \<noteq> []"
  by (subst show_nat.simps) simp

lemma is_digit_cases: "is_digit c \<Longrightarrow> \<not> is_space c \<and> c \<noteq> CHR ''_'' \<and> c \<noteq> CHR ''-'' \<and> c \<noteq> CHR ''+'' \<and> c \<noteq> CHR ''.''"
  by (auto simp: is_digit_def is_space_def Let_def)

lemma decimal_of_plain:
  assumes "list_all is_digit ds" "list_all is_digit fs" "ds \<noteq> []" "fs \<noteq> []"
  shows "decimal_of ds = Some (digits_val 0 ds, 0)"
    and "decimal_of (ds @ CHR ''.'' # fs) = Some (digits_val 0 (ds @ fs), - int (length fs))"
proof -
  have ok: "\<forall>c\<in>set ds. is_digit c" "\<forall>c\<in>set fs. is_digit c" using assms by (simp_all add: list_all_iff)
  have hd: "hd ds \<noteq> CHR ''-''" "hd ds \<noteq> CHR ''+''" using ok(1) assms(3) is_digit_cases [of "hd ds"] by auto
  have str: "strip ds = ds" "strip (ds @ CHR ''.'' # fs) = ds @ CHR ''.'' # fs"
    using ok is_digit_cases by (auto intro!: strip_nonspace simp: is_space_def)
  have fil: "filter (\<lambda>c. c \<noteq> CHR ''_'') ds = ds" "filter (\<lambda>c. c \<noteq> CHR ''_'') fs = fs"
    using ok is_digit_cases by (auto simp: filter_id_conv)
  have tw: "takeWhile is_digit ds = ds" "dropWhile is_digit ds = []" "takeWhile is_digit fs = fs" "dropWhile is_digit fs = []"
    using ok by simp_all
  have dot: "\<not> is_digit (CHR ''.'')" by (simp add: is_digit_def)
  show "decimal_of ds = Some (digits_val 0 ds, 0)"
    using assms(3) hd by (simp add: decimal_of_def str fil tw exponent_of_def ok Let_def)
  have tw2: "takeWhile is_digit (ds @ CHR ''.'' # fs) = ds" "dropWhile is_digit (ds @ CHR ''.'' # fs) = CHR ''.'' # fs"
    using ok(1) dot by (simp_all add: takeWhile_append2 dropWhile_append2)
  have "hd (ds @ CHR ''.'' # fs) = hd ds" using assms(3) by simp
  then show "decimal_of (ds @ CHR ''.'' # fs) = Some (digits_val 0 (ds @ fs), - int (length fs))"
    using assms(3) hd by (simp add: decimal_of_def str fil tw tw2 exponent_of_def dot ok Let_def)
qed

lemma read_nat_two_zeros: "read_nat 0 (s @ ''00'') = 100 * read_nat 0 s"
  by (simp add: read_nat_append)

lemma map_kind_succeeded: "map_kind ts code fraud = KSucceeded \<Longrightarrow> code = ''200'' \<and>
    (ts = ''settlement'' \<or> ts = ''capture'' \<and> fraud \<in> {[], ''accept''})"
  by (auto simp: map_kind_def split: if_splits)

lemma event_from_payload_Inr:
  assumes "event_from_payload data k = Inr ev"
  obtains "ev_id ev = k" "parse_idr (raw_string data ''gross_amount'') ''gross_amount'' = Inr (ev_amount_idr ev)"
    "ev_kind ev = map_kind (lower (raw_string data ''transaction_status'')) (raw_string data ''status_code'')
       (lower (raw_string data ''fraud_status''))"
    "ev_order_id ev = nonempty (raw_string data ''order_id'')" "ev_currency ev = ''IDR''" "ev_fee_idr ev = 0"
  using assms unfolding event_from_payload_def Let_def ebind_eq_Inr
  by (elim exE conjE) (rule that; auto)

text \<open>The signature of a notification: the hash of three of its fields and the server key.\<close>

definition signed :: "pay_settings \<Rightarrow> (string \<Rightarrow> string) \<Rightarrow> json_dict \<Rightarrow> bool" where
  "signed p sha512 data \<longleftrightarrow> strip (midtrans_server_key p) \<noteq> [] \<and> (\<exists>s. map_of data ''signature_key'' = Some (JsonStr s)
     \<and> lower (strip s) = sha512 (raw_string data ''order_id'' @ raw_string data ''status_code''
         @ raw_string data ''gross_amount'' @ strip (midtrans_server_key p)))"

lemma parse_webhook_Inr:
  assumes "parse_webhook p sha512 body = Inr ev"
  obtains data where "body = Some (JsonObject data)" "signed p sha512 data" "raw_string data ''order_id'' \<noteq> []"
    "event_from_payload data (event_id data (raw_string data ''order_id'')) = Inr ev"
proof (cases body)
  case (Some b)
  then show ?thesis
  proof (cases b)
    case (JsonObject data)
    from assms obtain signature key where
        o: "raw_string data ''order_id'' \<noteq> []" and s: "(case map_of data ''signature_key'' of
           Some (JsonStr s) \<Rightarrow> if strip s = [] then None else Some s | _ \<Rightarrow> None) = Some signature"
        and k: "server_key p = Inr key" and h: "lower (strip signature) = sha512 (raw_string data ''order_id''
             @ raw_string data ''status_code'' @ raw_string data ''gross_amount'' @ key)"
        and e: "event_from_payload data (event_id data (raw_string data ''order_id'')) = Inr ev"
      unfolding parse_webhook_def Some JsonObject
      by (auto simp: Let_def ebind_eq_Inr raise_if_Inr get_or_Inr)
    have "signed p sha512 data"
      using s k h by (auto simp: signed_def server_key_def Let_def split: option.splits json.splits if_splits)
    with Some JsonObject o e show ?thesis by (intro that) simp_all
  qed (use assms Some in \<open>simp_all add: parse_webhook_def\<close>)
qed (use assms in \<open>simp add: parse_webhook_def\<close>)

subsection \<open>Properties\<close>

text \<open>C35: An amount survives the notification: the whole-rupiah forms that the gateway writes, with or without the
  two decimals, read back as the number they print.\<close>

theorem parse_idr_roundtrip:
  "parse_idr (show_nat n) f = Inr (int n) \<and> parse_idr (show_nat n @ ''.00'') f = Inr (int n)"
proof -
  note p = decimal_of_plain [OF digits_show_nat [of n], of "''00''"]
  have "list_all is_digit ''00''" by (simp add: is_digit_def)
  then have "decimal_of (show_nat n) = Some (int n, 0)" "decimal_of (show_nat n @ ''.00'') = Some (100 * int n, - 2)"
    using p digits_val_read [of _ 0] digits_show_nat [of n] by (simp_all add: read_show_nat read_nat_two_zeros)
  then show ?thesis by (simp add: parse_idr_def)
qed

lemma parse_idr_samples:
  "parse_idr ''1.5E3'' f = Inr 1500" "parse_idr '' +250_000.0 '' f = Inr 250000" "isl (parse_idr ''0.5'' f)"
  "isl (parse_idr ''NaN'' f)" "isl (parse_idr ''1e'' f)" "isl (parse_idr [] f)"
  by code_simp+

text \<open>Only a signed success is a success: a webhook body is turned into an event only if it is a JSON object whose
  signature is the hash of its order, status code and amount with the server key, which is not empty; the event names
  that order and that amount; and it is a success only with status code 200 and status settlement, or capture that
  fraud screening accepted. (The status itself is not part of what is signed.)\<close>

lemma webhook_success_signed:
  assumes "parse_webhook p sha512 body = Inr ev"
  shows "\<exists>data. body = Some (JsonObject data) \<and> signed p sha512 data
     \<and> ev_order_id ev = Some (raw_string data ''order_id'')
     \<and> parse_idr (raw_string data ''gross_amount'') ''gross_amount'' = Inr (ev_amount_idr ev)
     \<and> (ev_kind ev = KSucceeded \<longrightarrow> raw_string data ''status_code'' = ''200''
          \<and> (lower (raw_string data ''transaction_status'') = ''settlement''
             \<or> lower (raw_string data ''transaction_status'') = ''capture'' \<and> lower (raw_string data ''fraud_status'') \<in> {[], ''accept''}))"
  using assms
proof (rule parse_webhook_Inr)
  fix data
  assume *: "body = Some (JsonObject data)" "signed p sha512 data" "raw_string data ''order_id'' \<noteq> []"
    "event_from_payload data (event_id data (raw_string data ''order_id'')) = Inr ev"
  from *(4) show ?thesis
    by (rule event_from_payload_Inr) (use * map_kind_succeeded in \<open>auto simp: nonempty_def\<close>)
qed

definition sandbox :: pay_settings where
  "sandbox = \<lparr>payment_gateway_enabled = True, payment_providers_enabled = ''midtrans'',
     midtrans_server_key = '' SB-Mid-server-1 '', midtrans_is_production = False, payment_webhook_secret = ''s3''\<rparr>"

definition settlement_body :: "string \<Rightarrow> string \<Rightarrow> json" where
  "settlement_body order_id amount = JsonObject [(''order_id'', JsonStr order_id), (''status_code'', JsonStr ''200''),
     (''gross_amount'', JsonStr amount), (''transaction_status'', JsonStr ''Settlement''), (''transaction_id'', JsonStr ''t-1''),
     (''signature_key'', JsonStr ('' '' @ order_id @ ''200'' @ amount @ ''SB-Mid-server-1''))]"

end
