(* ===== verification/Checkout.thy ===== *)
theory Checkout
  imports Midtrans
begin

text \<open>
  Checkouts at the gateway (\<open>services/payments/service.py\<close>) and the webhook route
  (\<open>api/payment_webhook_routes.py\<close>). A checkout commits a pending attempt, calls the gateway and commits the
  outcome: \<open>checkout_open\<close> and \<open>checkout_finish\<close> are its two transactions. \<open>checkout_open\<close> reads one database
  and commits on another, which is the same one unless a concurrent call was faster. An attempt is written
  attribute by attribute, as the session does, so an attribute that is not assigned keeps its stored value.
\<close>

subsection \<open>Reads\<close>

definition CHECKOUT_TTL :: int where "CHECKOUT_TTL = 24 * 3600000000"
definition MAX_ORDER_ID :: nat where "MAX_ORDER_ID = 50"

definition pay_providers :: "pay_settings \<Rightarrow> (string \<times> string \<times> string) list" where
  "pay_providers p = map (\<lambda>g. (gateway_name g, (case g of Midtrans \<Rightarrow> ''Midtrans''),
     if midtrans_is_production p then ''production'' else ''sandbox'')) (enabled_providers p)"

definition attempt_get :: "uuid \<Rightarrow> db \<Rightarrow> payment_attempt result" where
  "attempt_get aid d = get_or (HTTPError 404 ''Payment attempt not found'') (get_attempt d aid)"

definition pending_attempts :: "db \<Rightarrow> uuid \<Rightarrow> payment_attempt list" where
  "pending_attempts d iid = filter (\<lambda>a. att_invoice a = Some iid \<and> att_status a = APending) (attempts d)"

definition blocking_attempt :: "db \<Rightarrow> uuid \<Rightarrow> payment_attempt option" where
  "blocking_attempt d iid = first_row (pending_attempts d iid)"

definition invoice_payment_state :: "pay_settings \<Rightarrow> invoice \<Rightarrow> db \<Rightarrow> attempt_status option \<times> bool" where
  "invoice_payment_state p i d =
     (let latest = first_row (desc_by att_created_at (filter (\<lambda>a. att_invoice a = Some (inv_id i)) (attempts d)));
          pending = (case latest of None \<Rightarrow> False | Some a \<Rightarrow> att_status a = APending) in
      (map_option att_status latest, payment_gateway_enabled p \<and> enabled_providers p \<noteq> [] \<and> inv_status i = Sent
         \<and> 0 < inv_total_idr i \<and> \<not> pending))"

definition customer_email :: "db \<Rightarrow> invoice \<Rightarrow> organization \<Rightarrow> string" where
  "customer_email d i r =
     (let billing = (case row_get prof_org (inv_org i) (profiles d) of None \<Rightarrow> [] | Some f \<Rightarrow> strip (prof_billing_email f));
          owner = first_row (concat (map (\<lambda>m. if mem_org m = inv_org i \<and> mem_role m = Owner
            then (case row_get user_id (mem_user m) (users d) of None \<Rightarrow> [] | Some v \<Rightarrow> [user_email v]) else []) (memberships d))) in
      if billing \<noteq> [] then billing
      else if str_or_empty owner \<noteq> [] then str_or_empty owner
      else (case org_created_by r of None \<Rightarrow> []
        | Some c \<Rightarrow> (case row_get user_id c (users d) of None \<Rightarrow> [] | Some v \<Rightarrow> user_email v)))"

subsection \<open>The first transaction: a pending attempt\<close>

definition stale :: "payment_attempt \<Rightarrow> datetime \<Rightarrow> bool" where
  "stale a now \<longleftrightarrow> (case att_expires_at a of None \<Rightarrow> False | Some e \<Rightarrow> e \<le> now)"

definition expired_attempt :: "datetime \<Rightarrow> payment_attempt \<Rightarrow> payment_attempt" where
  "expired_attempt now a = a\<lparr>att_status := AExpired, att_provider_status := Some ''expired'', att_updated_at := now\<rparr>"

definition next_seq :: "db \<Rightarrow> uuid \<Rightarrow> int" where
  "next_seq d iid = (case concat (map (\<lambda>a. case att_seq a of None \<Rightarrow> [] | Some s \<Rightarrow> [s])
       (filter (\<lambda>a. att_invoice a = Some iid) (attempts d))) of
     [] \<Rightarrow> 1 | s # ss \<Rightarrow> fold max ss s + 1)"

definition new_attempt :: "uuid \<Rightarrow> gateway \<Rightarrow> invoice \<Rightarrow> user \<Rightarrow> int \<Rightarrow> string \<Rightarrow> datetime \<Rightarrow> payment_attempt" where
  "new_attempt aid g i actor seq order_id now = \<lparr>att_id = aid, att_org = inv_org i, att_subscription = None,
     att_invoice = Some (inv_id i), att_provider = gateway_name g, att_provider_ref = None, att_order_id = Some order_id,
     att_payment_id = None, att_token = None, att_checkout_url = None, att_expires_at = Some (now + CHECKOUT_TTL),
     att_provider_status = None, att_seq = Some seq, att_created_by = Some (user_id actor), att_amount_idr = inv_total_idr i,
     att_currency = ''IDR'', att_status = APending, att_method = None, att_failure_code = None, att_failure_message = None,
     att_fee_idr = 0, att_refunded_idr = 0, att_next_retry_at = None, att_succeeded_at = None, att_failed_at = None,
     att_created_at = now, att_updated_at = now\<rparr>"

datatype opened = Reused payment_attempt | Opened payment_attempt

definition pending_conflict :: "gateway \<Rightarrow> payment_attempt \<Rightarrow> opened result" where
  "pending_conflict g a = (if att_provider a = gateway_name g \<and> str_or_empty (att_checkout_url a) \<noteq> [] then Inr (Reused a)
     else Inl (HTTPError 409 (''pending payment attempt '' @ show_nat (att_id a) @ '' already exists'')))"

text \<open>The commit of the attempt, on the database as it then is: an expired attempt is written with it, and an
  \<open>IntegrityError\<close> rolls both back.\<close>

definition commit_attempt :: "gateway \<Rightarrow> (db \<Rightarrow> db) \<Rightarrow> uuid \<Rightarrow> payment_attempt \<Rightarrow> db \<Rightarrow> (opened \<times> db) result" where
  "commit_attempt g expire iid a d = (case insert_attempt a (expire d) of
     Inr d' \<Rightarrow> Inr (Opened a, d')
   | Inl _ \<Rightarrow> (case blocking_attempt d iid of
       None \<Rightarrow> Inl (HTTPError 409 ''Could not create a payment attempt'')
     | Some b \<Rightarrow> ebind (pending_conflict g b) (\<lambda>r. Inr (r, d))))"

definition checkout_guard :: "pay_settings \<Rightarrow> string \<Rightarrow> invoice \<Rightarrow> gateway result" where
  "checkout_guard p provider_name i =
     ebind (raise_if (\<not> payment_gateway_enabled p) (HTTPError 503 ''Payment gateway is disabled'')) (\<lambda>_.
     ebind (case build_provider p provider_name True of
         Inl (ProviderUnavailable s) \<Rightarrow> Inl (HTTPError 400 s) | Inl e \<Rightarrow> Inl e | Inr g \<Rightarrow> Inr g) (\<lambda>g.
     ebind (raise_if (inv_status i \<noteq> Sent) (HTTPError 409 ''Invoice is not payable'')) (\<lambda>_.
     ebind (raise_if (inv_total_idr i \<le> 0) (HTTPError 409 ''Invoice total must be greater than zero'')) (\<lambda>_.
     Inr g))))"

definition checkout_open ::
    "pay_settings \<Rightarrow> uuid \<Rightarrow> invoice \<Rightarrow> user \<Rightarrow> string \<Rightarrow> datetime \<Rightarrow> db \<Rightarrow> db \<Rightarrow> (opened \<times> db) result" where
  "checkout_open p aid i actor provider_name now d dc =
     ebind (checkout_guard p provider_name i) (\<lambda>g.
     let pending = blocking_attempt d (inv_id i) in
     if (case pending of None \<Rightarrow> False | Some a \<Rightarrow> \<not> stale a now)
     then ebind (pending_conflict g (the pending)) (\<lambda>r. Inr (r, dc))
     else
       let expire = (case pending of None \<Rightarrow> (\<lambda>x. x)
           | Some a \<Rightarrow> attempts_update (row_upd att_id (att_id a) (expired_attempt now)));
           seq = next_seq d (inv_id i); order_id = inv_number i @ ''-A'' @ show_int seq in
       ebind (get_or (HTTPError 404 ''Organization not found'') (get_org d (inv_org i))) (\<lambda>_.
       ebind (raise_if (MAX_ORDER_ID < length order_id)
         (HTTPError 500 ''Generated provider order id is too long'')) (\<lambda>_.
       commit_attempt g expire (inv_id i) (new_attempt aid g i actor seq order_id now) dc)))"

subsection \<open>The second transaction: the answer of the gateway\<close>

definition snap_request :: "db \<Rightarrow> invoice \<Rightarrow> organization \<Rightarrow> payment_attempt \<Rightarrow> string \<Rightarrow> string \<Rightarrow> checkout_request" where
  "snap_request d i r a return_url cancel_url = \<lparr>co_order_id = str_or_empty (att_order_id a),
     co_amount_idr = inv_total_idr i, co_currency = ''IDR'', co_invoice_number = inv_number i,
     co_description = ''Sinexis '' @ product_name (inv_product i) @ '' '' @ inv_sku i,
     co_customer_email = customer_email d i r, co_customer_name = org_name r,
     co_return_url = return_url, co_cancel_url = cancel_url, co_idempotency_key = att_id a\<rparr>"

definition checkout_failed :: "error \<Rightarrow> datetime \<Rightarrow> payment_attempt \<Rightarrow> payment_attempt" where
  "checkout_failed e now a = a\<lparr>att_status := AFailed, att_failed_at := Some now,
     att_failure_code := Some (case e of PaymentProviderError _ _ (Some code) \<Rightarrow> show_nat code
       | PaymentProviderError _ _ None \<Rightarrow> ''PaymentProviderError'' | _ \<Rightarrow> ''ProviderUnavailable''),
     att_failure_message := Some (take 255 (error_text e)), att_updated_at := now\<rparr>"

text \<open>\<open>provider_payment_id\<close> is \<open>None\<close> in every answer of the adapter and in the row the session loaded, so the
  assignment of \<open>None\<close> writes nothing.\<close>

definition checkout_done :: "checkout_result \<Rightarrow> datetime \<Rightarrow> payment_attempt \<Rightarrow> payment_attempt" where
  "checkout_done r now a = a\<lparr>att_checkout_url := Some (cr_redirect_url r), att_token := Some (cr_token r),
     att_payment_id := (case cr_payment_id r of None \<Rightarrow> att_payment_id a | Some x \<Rightarrow> Some x),
     att_provider_status := Some ''pending'',
     att_expires_at := (case cr_expires_at r of None \<Rightarrow> att_expires_at a | Some e \<Rightarrow> Some e), att_updated_at := now\<rparr>"

definition write_attempt :: "uuid \<Rightarrow> (payment_attempt \<Rightarrow> payment_attempt) \<Rightarrow> db \<Rightarrow> db" where
  "write_attempt aid f d = d\<lparr>attempts := row_upd att_id aid f (attempts d)\<rparr>"

text \<open>A duplicate order (406): ask the gateway for it, apply what it says, and return the attempt if it is still
  pending.\<close>

definition reuse_existing_order ::
    "settings \<Rightarrow> pay_settings \<Rightarrow> transport \<Rightarrow> uuid \<Rightarrow> string \<Rightarrow> uuid \<Rightarrow> datetime \<Rightarrow> db \<Rightarrow> payment_attempt result \<times> db" where
  "reuse_existing_order cfg p net sid provider_name aid now d =
     (case ebind (build_provider p provider_name False) (\<lambda>_. ebind (attempt_get aid d) (fetch_status p net)) of
        Inl e \<Rightarrow> (Inl e, d)
      | Inr s \<Rightarrow> (case (sr_found s, sr_event s) of
          (True, Some ev) \<Rightarrow>
            (case apply_gateway_event cfg (provider_query p net) sid provider_name ev now d of
               (Inl e, d') \<Rightarrow> (Inl e, d')
             | (Inr _, d') \<Rightarrow> (case get_attempt d' aid of
                 Some a \<Rightarrow> if att_status a = APending \<and> str_or_empty (att_checkout_url a) \<noteq> [] then (Inr a, d')
                   else (Inl (HTTPError 409 ''Payment order already exists at provider''), d')
               | None \<Rightarrow> (Inl (HTTPError 409 ''Payment order already exists at provider''), d')))
        | _ \<Rightarrow> (Inl (HTTPError 409 ''Payment order already exists at provider''), d)))"

definition checkout_finish ::
    "settings \<Rightarrow> pay_settings \<Rightarrow> transport \<Rightarrow> uuid \<Rightarrow> string \<Rightarrow> checkout_request \<Rightarrow> uuid \<Rightarrow> datetime \<Rightarrow> db
     \<Rightarrow> payment_attempt result \<times> db" where
  "checkout_finish cfg p net sid provider_name q aid now d = (case midtrans_create p net q now of
     Inr r \<Rightarrow> (let d' = write_attempt aid (checkout_done r now) d in (attempt_get aid d', d'))
   | Inl e \<Rightarrow>
      (if \<not> (case e of PaymentProviderError _ _ _ \<Rightarrow> True | ProviderUnavailable _ \<Rightarrow> True | _ \<Rightarrow> False) then (Inl e, d)
       else (let d' = write_attempt aid (checkout_failed e now) d in
         if (case e of PaymentProviderError _ _ (Some code) \<Rightarrow> code = 406 | _ \<Rightarrow> False)
         then reuse_existing_order cfg p net sid provider_name aid now d'
         else (Inl (HTTPError 502 ''Payment provider rejected the checkout''), d'))))"

definition create_checkout ::
    "settings \<Rightarrow> pay_settings \<Rightarrow> transport \<Rightarrow> uuid \<Rightarrow> uuid \<Rightarrow> invoice \<Rightarrow> user \<Rightarrow> string \<Rightarrow> string \<Rightarrow> string \<Rightarrow> datetime \<Rightarrow> db
     \<Rightarrow> payment_attempt result \<times> db" where
  "create_checkout cfg p net aid sid i actor provider_name return_url cancel_url now d =
     (case checkout_open p aid i actor provider_name now d d of
        Inl e \<Rightarrow> (Inl e, d)
      | Inr (Reused a, d1) \<Rightarrow> (Inr a, d1)
      | Inr (Opened a, d1) \<Rightarrow> (case get_org d1 (inv_org i) of
          None \<Rightarrow> (Inl (HTTPError 404 ''Organization not found''), d1)
        | Some r \<Rightarrow> checkout_finish cfg p net sid provider_name
            (snap_request d1 i r a return_url cancel_url) aid now d1))"

definition cancelled_attempt :: "bool \<Rightarrow> datetime \<Rightarrow> payment_attempt \<Rightarrow> payment_attempt" where
  "cancelled_attempt cancelled now a = a\<lparr>att_status := AExpired,
     att_provider_status := Some (if cancelled then ''canceled'' else ''expired''), att_updated_at := now\<rparr>"

definition cancel_attempt ::
    "pay_settings \<Rightarrow> transport \<Rightarrow> payment_attempt \<Rightarrow> datetime \<Rightarrow> db \<Rightarrow> (payment_attempt \<times> db) result" where
  "cancel_attempt p net a now d =
     ebind (raise_if (att_status a \<noteq> APending) (HTTPError 409 ''Only pending payment attempts can be cancelled'')) (\<lambda>_.
     ebind (case build_provider p (att_provider a) False of
         Inl (ProviderUnavailable s) \<Rightarrow> Inl (HTTPError 400 s) | Inl e \<Rightarrow> Inl e | Inr g \<Rightarrow> Inr g) (\<lambda>_.
     ebind (case midtrans_cancel p net a of
         Inr c \<Rightarrow> Inr c | Inl (ProviderUnavailable _) \<Rightarrow> Inr False | Inl (PaymentProviderError _ _ _) \<Rightarrow> Inr False
       | Inl e \<Rightarrow> Inl e) (\<lambda>cancelled.
     let d' = write_attempt (att_id a) (cancelled_attempt cancelled now) d in
     ebind (attempt_get (att_id a) d') (\<lambda>b. Inr (b, d')))))"

subsection \<open>The webhook route\<close>

definition MAX_WEBHOOK_BYTES :: nat where "MAX_WEBHOOK_BYTES = 65536"

record webhook =
  wh_bytes :: nat                      \<comment> \<open>\<open>len(raw)\<close>\<close>
  wh_json :: "json option"             \<comment> \<open>\<open>json.loads(raw)\<close>\<close>
  wh_event :: "event_in option"        \<comment> \<open>\<open>PaymentEventIn.model_validate_json(raw)\<close>\<close>
  wh_secret :: "string option"         \<comment> \<open>the header \<open>X-Payment-Webhook-Secret\<close>\<close>

definition http_error_of :: "error \<Rightarrow> error" where   \<comment> \<open>the \<open>except\<close> clauses of \<open>_apply_gateway\<close>\<close>
  "http_error_of e = (case e of
     InvalidWebhookSignature _ \<Rightarrow> HTTPError 401 ''Invalid webhook signature''
   | MalformedWebhook _ \<Rightarrow> HTTPError 400 ''Malformed webhook body''
   | PaymentConfigError _ \<Rightarrow> HTTPError 503 ''Payment gateway is not configured''
   | ProviderUnavailable _ \<Rightarrow> HTTPError 404 ''Unknown payment provider''
   | _ \<Rightarrow> e)"

definition apply_gateway_webhook ::
    "settings \<Rightarrow> pay_settings \<Rightarrow> transport \<Rightarrow> (string \<Rightarrow> string) \<Rightarrow> uuid \<Rightarrow> string \<Rightarrow> json option \<Rightarrow> datetime \<Rightarrow> db
     \<Rightarrow> event_result result \<times> db" where
  "apply_gateway_webhook cfg p net sha512 sid provider body now d =
     (case ebind (build_provider p provider False) (\<lambda>_. parse_webhook p sha512 body) of
        Inl e \<Rightarrow> (Inl (http_error_of e), d)
      | Inr ev \<Rightarrow> (case apply_gateway_event cfg (provider_query p net) sid provider ev now d of
          (Inl e, d') \<Rightarrow> (Inl (http_error_of e), d')
        | (Inr r, d') \<Rightarrow> (Inr r, d')))"

definition apply_manual_webhook ::
    "std \<Rightarrow> pay_settings \<Rightarrow> uuid \<Rightarrow> uuid \<Rightarrow> webhook \<Rightarrow> datetime \<Rightarrow> db \<Rightarrow> event_result result \<times> db" where
  "apply_manual_webhook lib p sid aid w now d =
     (case ebind (raise_if (strip (payment_webhook_secret p) = []) (HTTPError 503 ''Payment webhook is not configured'')) (\<lambda>_.
           ebind (raise_if (str_or_empty (wh_secret w) = [] \<or> wh_secret w \<noteq> Some (strip (payment_webhook_secret p)))
             (HTTPError 401 ''Invalid webhook secret'')) (\<lambda>_.
           get_or (HTTPError 400 ''Malformed webhook body'') (wh_event w))) of
        Inl e \<Rightarrow> (Inl e, d)
      | Inr ev \<Rightarrow> apply_event lib sid aid ''manual'' ev now d)"

definition payment_webhook ::
    "settings \<Rightarrow> std \<Rightarrow> pay_settings \<Rightarrow> transport \<Rightarrow> (string \<Rightarrow> string) \<Rightarrow> uuid \<Rightarrow> uuid \<Rightarrow> string \<Rightarrow> webhook \<Rightarrow> datetime
     \<Rightarrow> db \<Rightarrow> event_result result \<times> db" where
  "payment_webhook cfg lib p net sha512 sid aid provider w now d =
     (if provider \<notin> {''manual'', ''midtrans''} then (Inl (HTTPError 404 ''Unknown payment provider''), d)
      else if MAX_WEBHOOK_BYTES < wh_bytes w then (Inl (HTTPError 413 ''Webhook body is too large''), d)
      else if provider = ''manual'' then apply_manual_webhook lib p sid aid w now d
      else apply_gateway_webhook cfg p net sha512 sid provider (wh_json w) now d)"

subsection \<open>The pending attempts of an invoice\<close>

text \<open>The keys of the attempts are unique and an invoice has at most one pending attempt.\<close>

definition attempts_good :: "db \<Rightarrow> bool" where
  "attempts_good d \<longleftrightarrow> unique_by att_id (attempts d) \<and> (\<forall>k. length (pending_attempts d k) \<le> 1)"

lemma pending_count: "length (pending_attempts d k) =
    count_where (\<lambda>a. att_invoice a = Some k \<and> att_status a = APending) (attempts d)"
  by (simp add: pending_attempts_def count_where_def)

text \<open>Rewriting one attempt so that it is pending only if it was, for the same invoice.\<close>

lemma attempts_good_write:
  assumes "attempts_good d" "attempts d' = row_upd att_id k f (attempts d)"
    "\<And>a. att_id a = k \<Longrightarrow> att_id (f a) = k"
    "\<And>a. att_id a = k \<Longrightarrow> get_attempt d k = Some a \<Longrightarrow> att_status (f a) = APending \<Longrightarrow> att_status a = APending \<and> att_invoice (f a) = att_invoice a"
  shows "attempts_good d'"
proof -
  have u: "unique_by att_id (attempts d)" using assms(1) by (simp add: attempts_good_def)
  have "unique_by att_id (attempts d')"
    unfolding assms(2) using u assms(3) by (intro unique_by_row_replace [where c = k]) auto
  moreover have "length (pending_attempts d' m) \<le> length (pending_attempts d m)" for m
  proof (cases "get_attempt d k")
    case None
    then have "attempts d' = attempts d" unfolding assms(2) by (intro row_upd_absent) (simp add: row_get_None)
    then show ?thesis by (simp add: pending_attempts_def)
  next
    case (Some a)
    then have "att_id a = k" using row_get_Some [OF Some] by simp
    with count_row_replace [OF u Some, of "\<lambda>a. att_invoice a = Some m \<and> att_status a = APending" f] assms(4) [of a] Some
    show ?thesis by (simp add: pending_count assms(2) split: if_splits)
  qed
  ultimately show ?thesis using assms(1) unfolding attempts_good_def by (meson order_trans)
qed

lemma attempts_good_cong: "attempts d' = attempts d \<Longrightarrow> attempts_good d' = attempts_good d"
  by (simp add: attempts_good_def pending_attempts_def)

lemma attempts_good_insert:
  assumes "attempts_good d" "insert_attempt a d = Inr d'"
  shows "attempts_good d'"
proof -
  have *: "att_id a \<notin> att_id ` set (attempts d)" "attempts d' = attempts d @ [a]"
    using insert_attempt_Inr [OF assms(2)] by simp_all
  have no: "pending_attempts d k = []" if "att_status a = APending" "att_invoice a = Some k" for k
  proof -
    have "att_invoice a \<notin> set (map att_invoice (filter (\<lambda>b. att_status b = APending) (attempts d)))"
      using assms(2) that by (auto simp: insert_attempt_def split: if_splits)
    with that(2) show ?thesis by (force simp: pending_attempts_def filter_empty_conv image_iff)
  qed
  have "length (pending_attempts d' k) \<le> 1" for k
    using assms(1) no [of k] * by (auto simp: attempts_good_def pending_attempts_def)
  with assms(1) * show ?thesis by (simp add: attempts_good_def unique_by_append1)
qed

lemma attempt_rewrites [simp]:
  "att_id (expired_attempt now a) = att_id a" "att_status (expired_attempt now a) = AExpired"
  "att_id (checkout_failed e now a) = att_id a" "att_status (checkout_failed e now a) = AFailed"
  "att_id (checkout_done r now a) = att_id a" "att_status (checkout_done r now a) = att_status a"
  "att_invoice (checkout_done r now a) = att_invoice a"
  "att_id (cancelled_attempt c now a) = att_id a" "att_status (cancelled_attempt c now a) = AExpired"
  by (simp_all add: expired_attempt_def checkout_failed_def checkout_done_def cancelled_attempt_def)

lemma commit_attempt_Inr:
  assumes "commit_attempt g expire k a d = Inr (r, d')"
  obtains "r = Opened a" "insert_attempt a (expire d) = Inr d'"
  | b where "r = Reused b" "d' = d" "blocking_attempt d k = Some b"
  using assms unfolding commit_attempt_def pending_conflict_def
  by (auto simp: ebind_eq_Inr split: sum.splits option.splits if_splits)

lemma checkout_guard_Inr:
  assumes "checkout_guard p name i = Inr g"
  shows "payment_gateway_enabled p" "configured p" "inv_status i = Sent" "0 < inv_total_idr i" "g = Midtrans"
  using assms by (cases g; auto simp: checkout_guard_def build_provider_def ebind_eq_Inr raise_if_Inr gateway_enabled_def
      split: sum.splits error.splits)+

text \<open>What the first transaction leaves, for any database it commits on.\<close>

lemma checkout_open_Inr:
  assumes "checkout_open p aid i actor name now d dc = Inr (r, d')"
  obtains (reused) b where "r = Reused b" "d' = dc" "blocking_attempt d (inv_id i) = Some b \<or> blocking_attempt dc (inv_id i) = Some b"
  | (opened) d1 a where "r = Opened a" "insert_attempt a d1 = Inr d'"
      "d1 = dc \<or> (\<exists>k. d1 = attempts_update (row_upd att_id k (expired_attempt now)) dc)"
      "a = new_attempt aid Midtrans i actor (next_seq d (inv_id i)) (inv_number i @ ''-A'' @ show_int (next_seq d (inv_id i))) now"
      "payment_gateway_enabled p" "configured p" "inv_status i = Sent" "0 < inv_total_idr i"
proof -
  from assms obtain g where g: "checkout_guard p name i = Inr g"
    by (auto simp: checkout_open_def ebind_eq_Inr)
  note guard = checkout_guard_Inr [OF g]
  let ?q = "blocking_attempt d (inv_id i)"
  show ?thesis
  proof (cases "case ?q of None \<Rightarrow> False | Some a \<Rightarrow> \<not> stale a now")
    case True
    then obtain b where b: "?q = Some b" by (auto split: option.splits)
    with True assms g have "d' = dc" "r = Reused b"
      by (auto simp: checkout_open_def Let_def ebind_eq_Inr pending_conflict_def split: if_splits)
    with b show ?thesis using reused [of b] by simp
  next
    case False
    define expire :: "db \<Rightarrow> db" where "expire = (case ?q of None \<Rightarrow> (\<lambda>x. x) | Some a \<Rightarrow> attempts_update (row_upd att_id (att_id a) (expired_attempt now)))"
    from False assms g have c: "commit_attempt g expire (inv_id i)
        (new_attempt aid g i actor (next_seq d (inv_id i)) (inv_number i @ ''-A'' @ show_int (next_seq d (inv_id i))) now) dc = Inr (r, d')"
      unfolding expire_def by (simp add: checkout_open_def Let_def ebind_eq_Inr)
    from c show ?thesis
    proof (cases rule: commit_attempt_Inr)
      case 1
      have "expire dc = dc \<or> (\<exists>k. expire dc = attempts_update (row_upd att_id k (expired_attempt now)) dc)"
        by (auto simp: expire_def split: option.splits)
      with 1 guard show ?thesis by (intro opened) simp_all
    next
      case (2 b)
      then show ?thesis using reused [of b] by simp
    qed
  qed
qed

lemma checkout_open_good:
  assumes "checkout_open p aid i actor name now d dc = Inr (r, d')" "attempts_good dc"
  shows "attempts_good d'"
  using assms(1)
proof (cases rule: checkout_open_Inr)
  case (opened d1 a)
  from opened(3) have "attempts_good d1"
  proof
    assume "\<exists>k. d1 = attempts_update (row_upd att_id k (expired_attempt now)) dc"
    then obtain k where "attempts d1 = row_upd att_id k (expired_attempt now) (attempts dc)" by auto
    with assms(2) show ?thesis by (rule attempts_good_write) simp_all
  qed (use assms(2) in simp)
  then show ?thesis using opened(2) by (rule attempts_good_insert)
qed (use assms(2) in simp)

lemma gateway_event_good:
  assumes "apply_gateway_event cfg query sid provider ev now d = (r, d')" "attempts_good d"
  shows "attempts_good d'"
  using assms(1)
proof (cases rule: apply_gateway_event_cases)
  case (recorded e st msg d1 e')
  have g: "attempts_good (put_event e d)" using assms(2) attempts_good_cong [of "put_event e d" d] by simp
  from recorded(3) have "attempts_good d1"
  proof (cases rule: gateway_apply_one_attempt)
    case 1
    with assms(2) attempts_good_cong [of d1 d] show ?thesis by simp
  next
    case (2 a a')
    have a: "get_attempt (put_event e d) (att_id a) = Some a"
      using g row_get_unique [of att_id "attempts (put_event e d)" a] find_gateway_attempt_mem [OF 2(1)]
      by (simp add: attempts_good_def)
    have "att_status a = APending" if "att_status a' = APending"
      using 2(5) that by (cases "att_status a") (auto simp: forced_failure_def)
    then show ?thesis
    proof (intro attempts_good_write [OF g 2(4)])
      fix x assume "get_attempt (put_event e d) (att_id a) = Some x" "att_status a' = APending"
      moreover assume "att_status a' = APending \<Longrightarrow> att_status a = APending"
      ultimately show "att_status x = APending \<and> att_invoice a' = att_invoice x" using a 2(3) by simp
    qed (rule 2(2))
  qed
  with recorded(4) attempts_good_cong [of d' d1] show ?thesis by simp
next
  case failed
  with assms(2) attempts_good_cong [of d' d] show ?thesis by simp
qed (use assms(2) in simp)


lemma gateway_event_attempt:
  assumes "apply_gateway_event cfg query sid provider ev now d = (r, d')" "unique_by att_id (attempts d)"
    "get_attempt d k = Some a" "att_status a \<noteq> APending"
  shows "\<exists>b. get_attempt d' k = Some b \<and> att_status b \<noteq> APending"
  using assms(1)
proof (cases rule: apply_gateway_event_cases)
  case (recorded e st msg d1 e')
  have "\<exists>b. get_attempt d1 k = Some b \<and> (b = a \<or> find_gateway_attempt (put_event e d) provider ev = Some a
      \<and> (attempt_rank (att_status a) \<le> attempt_rank (att_status b) \<or> forced_failure b))"
    using gateway_apply_attempts [OF recorded(3), of k a] assms(2,3) by simp
  then obtain b where b: "get_attempt d1 k = Some b" "b = a \<or> attempt_rank (att_status a) \<le> attempt_rank (att_status b) \<or> forced_failure b"
    by blast
  have "att_status b \<noteq> APending" using b(2) assms(4) by (cases "att_status a") (auto simp: forced_failure_def)
  with b(1) recorded(4) show ?thesis by simp
qed (use assms in simp_all)

text \<open>The reuse of an order that the gateway already has never hands the attempt back: the caller has just set the
  attempt to failed, and no event makes a failed attempt pending again. A duplicate order always ends as an error.\<close>

lemma reuse_never_returns:
  assumes "reuse_existing_order cfg p net sid name aid now d = (r, d')" "unique_by att_id (attempts d)"
    "get_attempt d aid = Some a" "att_status a \<noteq> APending"
  shows "(\<exists>e. r = Inl e) \<and> (\<exists>b. get_attempt d' aid = Some b \<and> att_status b \<noteq> APending)"
proof (cases "ebind (build_provider p name False) (\<lambda>_. ebind (attempt_get aid d) (fetch_status p net))")
  case (Inl e)
  with assms show ?thesis by (auto simp: reuse_existing_order_def)
next
  case (Inr s)
  show ?thesis
  proof (cases "sr_found s \<and> sr_event s \<noteq> None")
    case False
    then have "r = Inl (HTTPError 409 ''Payment order already exists at provider'')" "d' = d"
      using assms(1) Inr by (auto simp: reuse_existing_order_def split: bool.splits option.splits)
    with assms show ?thesis by simp
  next
    case True
    then obtain ev where ev: "sr_event s = Some ev" "sr_found s" by auto
    obtain r1 d1 where g: "apply_gateway_event cfg (provider_query p net) sid name ev now d = (r1, d1)" by fastforce
    from gateway_event_attempt [OF this assms(2-4)] obtain b where b: "get_attempt d1 aid = Some b" "att_status b \<noteq> APending" by blast
    with assms(1) Inr ev g show ?thesis by (auto simp: reuse_existing_order_def split: sum.splits)
  qed
qed

lemma str_field_nonempty: "str_field data k = Some s \<Longrightarrow> s \<noteq> []"
  by (auto simp: str_field_def split: option.splits json.splits if_splits)

lemma midtrans_create_Inr:
  assumes "midtrans_create p net q now = Inr r"
  shows "order_id_ok (co_order_id q)" "cr_redirect_url r \<noteq> []" "cr_payment_id r = None"
proof -
  from assms obtain key where o: "order_id_ok (co_order_id q)" and c: "(case net (snap_call p key q) of
      HttpError \<Rightarrow> Inl (ProviderUnavailable ''Midtrans create request failed'') | Replied code body \<Rightarrow> read_checkout q now code body) = Inr r"
    unfolding midtrans_create_def by (auto simp: ebind_eq_Inr raise_if_Inr)
  from c obtain code body where "read_checkout q now code body = Inr r" by (cases "net (snap_call p key q)") auto
  then obtain data where d: "(case (str_field data ''token'', str_field data ''redirect_url'') of
      (Some token, Some url) \<Rightarrow> Inr \<lparr>cr_provider = ''midtrans'', cr_order_id = co_order_id q, cr_payment_id = None,
          cr_token = token, cr_redirect_url = url, cr_expires_at = Some (now + EXPIRY_HOURS * 3600000000),
          cr_amount_idr = co_amount_idr q, cr_currency = co_currency q\<rparr>
      | _ \<Rightarrow> Inl (PaymentProviderError ''Midtrans create response is missing token/redirect_url'' False None)) = Inr r"
    unfolding read_checkout_def by (auto simp: ebind_eq_Inr raise_if_Inr)
  show "order_id_ok (co_order_id q)" by (rule o)
  show "cr_redirect_url r \<noteq> []" "cr_payment_id r = None"
    using d by (cases "str_field data ''token''"; cases "str_field data ''redirect_url''"; auto simp: str_field_nonempty)+
qed

lemma read_checkout_Inl:
  assumes "read_checkout q now code body = Inl e"
  shows "\<exists>m t c. e = PaymentProviderError m t c"
proof (cases "json_object body ''create''")
  case (Inl x)
  then have "\<exists>m t c. x = PaymentProviderError m t c" by (auto simp: json_object_def split: option.split_asm json.split_asm)
  with Inl assms show ?thesis by (cases "code = 406"; cases "is_success code") (auto simp: read_checkout_def)
next
  case (Inr data)
  with assms show ?thesis
    by (cases "code = 406"; cases "is_success code"; cases "str_field data ''token''"; cases "str_field data ''redirect_url''")
      (auto simp: read_checkout_def)
qed

lemma server_key_configured: "configured p \<Longrightarrow> \<exists>key. server_key p = Inr key"
  by (auto simp: configured_def server_key_def Let_def split: if_splits)

lemma midtrans_create_Inl:
  assumes "midtrans_create p net q now = Inl e" "configured p"
  shows "(\<exists>m t c. e = PaymentProviderError m t c) \<or> (\<exists>m. e = ProviderUnavailable m)"
proof -
  from server_key_configured [OF assms(2)] obtain key where "server_key p = Inr key" by blast
  with assms(1) consider "\<exists>m t c. e = PaymentProviderError m t c"
    | "(case net (snap_call p key q) of HttpError \<Rightarrow> Inl (ProviderUnavailable ''Midtrans create request failed'')
        | Replied code body \<Rightarrow> read_checkout q now code body) = Inl e"
    unfolding midtrans_create_def by (auto simp: ebind_eq_Inl raise_if_def split: if_split_asm)
  then show ?thesis
    by cases (auto dest: read_checkout_Inl split: http_reply.split_asm)
qed

lemma attempts_write_attempt [simp]: "attempts (write_attempt aid f d) = row_upd att_id aid f (attempts d)"
  by (simp add: write_attempt_def)

lemma unique_write_attempt: "unique_by att_id (attempts d) \<Longrightarrow> (\<And>a. att_id (f a) = att_id a) \<Longrightarrow>
    unique_by att_id (attempts (write_attempt aid f d))"
  by (simp add: unique_by_row_upd)

lemma checkout_finish_cases:
  assumes "checkout_finish cfg p net sid name q aid now d = (r, d')" "get_attempt d aid = Some a" "unique_by att_id (attempts d)"
    "configured p"
  obtains (answered) x where "midtrans_create p net q now = Inr x" "d' = write_attempt aid (checkout_done x now) d"
      "r = Inr (checkout_done x now a)"
  | (failed) e b where "r = Inl e" "get_attempt d' aid = Some b" "att_status b \<noteq> APending"
proof (cases "midtrans_create p net q now")
  case (Inr x)
  have "get_attempt (write_attempt aid (checkout_done x now) d) aid = Some (checkout_done x now a)"
    using assms(2) by (simp add: row_get_upd)
  with assms(1) Inr show ?thesis by (intro answered) (auto simp: checkout_finish_def attempt_get_def)
next
  case (Inl e)
  let ?d = "write_attempt aid (checkout_failed e now) d"
  have f: "get_attempt ?d aid = Some (checkout_failed e now a)" using assms(2) by (simp add: row_get_upd)
  have u: "unique_by att_id (attempts ?d)" using assms(3) by (rule unique_write_attempt) simp
  have e: "case e of PaymentProviderError _ _ _ \<Rightarrow> True | ProviderUnavailable _ \<Rightarrow> True | _ \<Rightarrow> False"
    using midtrans_create_Inl [OF Inl assms(4)] by auto
  show ?thesis
  proof (cases "case e of PaymentProviderError _ _ (Some code) \<Rightarrow> code = 406 | _ \<Rightarrow> False")
    case True
    with assms(1) Inl e have "reuse_existing_order cfg p net sid name aid now ?d = (r, d')"
      by (simp add: checkout_finish_def Let_def)
    from reuse_never_returns [OF this u f] show ?thesis using failed by auto
  next
    case False
    with assms(1) Inl e have "r = Inl (HTTPError 502 ''Payment provider rejected the checkout'')" "d' = ?d"
      by (simp_all add: checkout_finish_def Let_def)
    with f show ?thesis using failed by simp
  qed
qed

subsection \<open>Runs\<close>

text \<open>The transactions of a checkout, each on the database of the moment; \<open>d0\<close> is the database an opening checkout
  read, which may be older than the one it commits on.\<close>

inductive checkout_step :: "db \<Rightarrow> db \<Rightarrow> bool" where
  open_: "checkout_open p aid i actor name now d0 d = Inr (r, d') \<Longrightarrow> checkout_step d d'"
| finish: "checkout_finish cfg p net sid name q aid now d = (r, d') \<Longrightarrow> checkout_step d d'"
| cancel: "cancel_attempt p net a now d = Inr (b, d') \<Longrightarrow> checkout_step d d'"
| event: "apply_gateway_event cfg query sid provider ev now d = (r, d') \<Longrightarrow> checkout_step d d'"

lemma write_good:
  assumes "attempts_good d" "\<And>a. att_id (f a) = att_id a"
    "\<And>a. att_status (f a) = APending \<Longrightarrow> att_status a = APending \<and> att_invoice (f a) = att_invoice a"
  shows "attempts_good (write_attempt aid f d)"
  by (rule attempts_good_write [OF assms(1) attempts_write_attempt]) (use assms(2,3) in auto)

lemma reuse_good:
  assumes "reuse_existing_order cfg p net sid name aid now d = (r, d')" "attempts_good d"
  shows "attempts_good d'"
proof -
  have "d' = d \<or> (\<exists>ev r1. apply_gateway_event cfg (provider_query p net) sid name ev now d = (r1, d'))"
    using assms(1) unfolding reuse_existing_order_def
    by (auto split: sum.split_asm option.split_asm bool.split_asm prod.split_asm if_split_asm)
  then show ?thesis using assms(2) gateway_event_good by blast
qed

lemma finish_good:
  assumes "checkout_finish cfg p net sid name q aid now d = (r, d')" "attempts_good d"
  shows "attempts_good d'"
proof (cases "midtrans_create p net q now")
  case (Inr x)
  with assms(1) have "d' = write_attempt aid (checkout_done x now) d" by (auto simp: checkout_finish_def Let_def)
  with assms(2) show ?thesis by (auto intro!: write_good)
next
  case (Inl e)
  have w: "attempts_good (write_attempt aid (checkout_failed e now) d)" using assms(2) by (rule write_good) simp_all
  from assms(1) Inl consider "d' = d" | "d' = write_attempt aid (checkout_failed e now) d"
    | "reuse_existing_order cfg p net sid name aid now (write_attempt aid (checkout_failed e now) d) = (r, d')"
    unfolding checkout_finish_def Let_def by (auto split: if_split_asm)
  then show ?thesis by cases (use assms(2) w reuse_good in auto)
qed

lemma checkout_step_good: "checkout_step d d' \<Longrightarrow> attempts_good d \<Longrightarrow> attempts_good d'"
proof (induction rule: checkout_step.induct)
  case (cancel p net a now d b d')
  then obtain c where "d' = write_attempt (att_id a) (cancelled_attempt c now) d"
    by (auto simp: cancel_attempt_def Let_def ebind_eq_Inr)
  with cancel show ?case by (auto intro!: write_good)
qed (auto intro: checkout_open_good finish_good gateway_event_good)

text \<open>The new attempt among the others.\<close>

lemma order_found:
  assumes "unique_by att_id (attempts d)" "get_attempt d k = Some a" "att_order_id a = Some s" "strip s = s" "s \<noteq> []"
    "\<forall>b\<in>set (attempts d). att_provider b = att_provider a \<and> att_order_id b = Some s \<longrightarrow> b = a"
    "ev_order_id ev = Some s"
  shows "find_gateway_attempt d (att_provider a) ev = Some a"
proof -
  let ?f = "filter (\<lambda>b. att_provider b = att_provider a \<and> att_order_id b = Some s) (attempts d)"
  have "a \<in> set ?f" using assms(2,3) row_get_Some [of att_id k "attempts d" a] by auto
  moreover have "\<forall>b\<in>set ?f. b = a" using assms(6) by simp
  ultimately have "first_row ?f = Some a" by (cases ?f) auto
  with assms(4,5,7) show ?thesis by (simp add: find_gateway_attempt_def Let_def str_or_empty_def)
qed

lemma order_id_strip: "order_id_ok s \<Longrightarrow> strip s = s \<and> s \<noteq> []"
proof -
  assume "order_id_ok s"
  then have s: "list_all order_id_char s" "s \<noteq> []" by (auto simp: order_id_ok_def)
  have "\<not> is_space c" if "order_id_char c" for c
    using that by (auto simp: order_id_char_def is_code_char_def is_space_def Let_def)
  with s show ?thesis by (auto intro!: strip_nonspace simp: list_all_iff)
qed

lemma new_attempt_fields [simp]:
  "att_id (new_attempt aid g i actor seq o' now) = aid" "att_provider (new_attempt aid g i actor seq o' now) = gateway_name g"
  "att_order_id (new_attempt aid g i actor seq o' now) = Some o'" "att_status (new_attempt aid g i actor seq o' now) = APending"
  "att_invoice (new_attempt aid g i actor seq o' now) = Some (inv_id i)"
  "att_amount_idr (new_attempt aid g i actor seq o' now) = inv_total_idr i"
  "att_checkout_url (new_attempt aid g i actor seq o' now) = None"
  by (simp_all add: new_attempt_def)

text \<open>What a checkout returns: an attempt that was pending before, or a new one that the gateway accepted.\<close>

lemma blocking_pending: "blocking_attempt d k = Some b \<Longrightarrow> b \<in> set (attempts d) \<and> att_invoice b = Some k \<and> att_status b = APending"
  by (auto simp: blocking_attempt_def pending_attempts_def dest!: first_row_Some)

lemma create_checkout_cases:
  assumes "create_checkout cfg p net aid sid i actor name ret can now d = (r, d')" "attempts_good d"
  obtains (refused) e where "r = Inl e" "d' = d"
  | (reused) b where "r = Inr b" "d' = d" "b \<in> set (attempts d)" "att_invoice b = Some (inv_id i)" "att_status b = APending"
      "aid \<notin> att_id ` set (attempts d) \<Longrightarrow> att_id b \<noteq> aid"
  | (failed) e where "r = Inl e" "\<And>b. get_attempt d' aid = Some b \<Longrightarrow> att_status b \<noteq> APending"
  | (created) a x and d1 :: db and seq where "r = Inr (checkout_done x now a)" "a = new_attempt aid Midtrans i actor seq (inv_number i @ ''-A'' @ show_int seq) now"
      "order_id_ok (inv_number i @ ''-A'' @ show_int seq)" "attempts d' = row_upd att_id aid (checkout_done x now) (attempts d1 @ [a])"
      "aid \<notin> att_id ` set (attempts d1)" "(''midtrans'', Some (inv_number i @ ''-A'' @ show_int seq))
         \<notin> (\<lambda>b. (att_provider b, att_order_id b)) ` set (attempts d1)"
      "inv_status i = Sent" "0 < inv_total_idr i" "cr_redirect_url x \<noteq> []" "unique_by att_id (attempts d1)"
proof (cases "checkout_open p aid i actor name now d d")
  case (Inl e)
  with assms(1) show ?thesis by (intro refused) (auto simp: create_checkout_def)
next
  case (Inr s)
  obtain r1 d2 where s: "s = (r1, d2)" by fastforce
  have open': "checkout_open p aid i actor name now d d = Inr (r1, d2)" using Inr s by simp
  have g2: "attempts_good d2" using checkout_open_good [OF open' assms(2)] .
  from open' show ?thesis
  proof (cases rule: checkout_open_Inr)
    case (reused b)
    then have b: "b \<in> set (attempts d)" "att_invoice b = Some (inv_id i)" "att_status b = APending"
      using blocking_pending by auto
    with assms(1) Inr s reused show ?thesis by (intro that(2) [of b]) (auto simp: create_checkout_def)
  next
    case (opened d1 a)
    let ?o = "inv_number i @ ''-A'' @ show_int (next_seq d (inv_id i))"
    have ins: "attempts d2 = attempts d1 @ [a]" "aid \<notin> att_id ` set (attempts d1)"
      using insert_attempt_Inr [OF opened(2)] opened(4) by simp_all
    have o: "(''midtrans'', Some ?o) \<notin> (\<lambda>b. (att_provider b, att_order_id b)) ` set (attempts d1)"
      using opened(2,4) by (auto simp: insert_attempt_def split: if_split_asm)
    have u: "unique_by att_id (attempts d2)" using g2 by (simp add: attempts_good_def)
    then have u1: "unique_by att_id (attempts d1)" using ins(1) by (simp add: unique_by_append1)
    have a: "get_attempt d2 aid = Some a" using row_get_unique [OF u, of a] ins(1) opened(4) by simp
    show ?thesis
    proof (cases "get_org d2 (inv_org i)")
      case None
      have "get_org d (inv_org i) \<noteq> None"
        using open' opened(1) by (auto simp: checkout_open_def Let_def ebind_eq_Inr get_or_Inr pending_conflict_def split: if_split_asm)
      moreover have "orgs d2 = orgs d" using opened(2,3) insert_attempt_Inr by fastforce
      ultimately show ?thesis using None by simp
    next
      case (Some org)
      then have f: "checkout_finish cfg p net sid name (snap_request d2 i org a ret can) aid now d2 = (r, d')"
        using assms(1) Inr s opened(1) by (simp add: create_checkout_def)
      from f a u opened(6) show ?thesis
      proof (cases rule: checkout_finish_cases)
        case (answered x)
        have "order_id_ok ?o" using midtrans_create_Inr(1) [OF answered(1)] opened(4) by (simp add: snap_request_def str_or_empty_def)
        then show ?thesis
          using answered(2,3) opened(4,7,8) ins o midtrans_create_Inr(2) [OF answered(1)] u1
          by (intro created [of x a _ d1]) simp_all
      next
        case (failed e b)
        then show ?thesis by (intro that(3)) simp_all
      qed
    qed
  qed
qed


subsection \<open>Properties\<close>

text \<open>An invoice never has two pending payment attempts, whatever checkouts, gateway answers, cancellations and
  webhooks run, in any order, even when a checkout commits on a newer database than the one it read.\<close>

theorem one_pending_attempt:
  assumes "checkout_step\<^sup>*\<^sup>* d d'" "attempts_good d"
  shows "length (pending_attempts d' k) \<le> 1 \<and> unique_by att_id (attempts d')"
proof -
  from assms(1) have "attempts_good d'"
    by (induction rule: rtranclp_induct) (use assms(2) checkout_step_good in blast)+
  then show ?thesis by (simp add: attempts_good_def)
qed


definition snap_ok :: transport where
  "snap_ok q = (if hr_method q = ''POST'' then Replied 201 (Some (JsonObject [(''token'', JsonStr ''tok''),
       (''redirect_url'', JsonStr ''https://app.sandbox.midtrans.com/tok'')]))
     else Replied 200 (Some (settlement_body ''sx-202601-0001-a1'' ''250000.00'')))"

definition billed_db :: db where   \<comment> \<open>the invoice is sent; its number is lower case to suit the sample hash\<close>
  "billed_db = invoiced_db\<lparr>invoices := [inv100\<lparr>inv_status := Sent, inv_number := ''sx-202601-0001''\<rparr>]\<rparr>"

definition payer :: user where
  "payer = \<lparr>user_id = 1, user_email = ''a@x'', user_is_verified = True, user_is_admin = False, user_credits = 0,
     user_locale = ''id'', user_last_active = None\<rparr>"

definition checkout0 :: "payment_attempt result \<times> db" where
  "checkout0 = create_checkout cfg0 sandbox snap_ok 104 105 (inv100\<lparr>inv_status := Sent, inv_number := ''sx-202601-0001''\<rparr>)
     payer '' Midtrans'' ''r'' ''c'' t0 billed_db"

definition checkout_db :: db where "checkout_db = snd checkout0"

lemma billed_good: "attempts_good billed_db" "104 \<notin> att_id ` set (attempts billed_db)"
  by (simp_all add: attempts_good_def pending_attempts_def billed_db_def invoiced_db_def billing_db_def empty_db_def)



definition notification :: webhook where
  "notification = \<lparr>wh_bytes = 400, wh_json = Some (settlement_body ''ORD-1'' ''250000.00''), wh_event = None,
     wh_secret = None\<rparr>"

definition no_lib :: std where
  "no_lib = \<lparr>parse_uuid = (\<lambda>_. None), fromisoformat = (\<lambda>_. None)\<rparr>"

definition gateway_ok :: transport where
  "gateway_ok q = Replied 200 (Some (settlement_body ''ORD-1'' ''250000.00''))"

definition notified_ev :: normalized_event where
  "notified_ev = settlement0\<lparr>ev_id := ''t-1:settlement:200:'', ev_payment_id := Some ''t-1'', ev_method := None,
     ev_raw := raw_text (case settlement_body ''ORD-1'' ''250000.00'' of JsonObject data \<Rightarrow> data | _ \<Rightarrow> [])\<rparr>"

definition notified_db :: db where
  "notified_db = snd (apply_gateway_event cfg0 (provider_query sandbox gateway_ok) 105 ''midtrans'' notified_ev (t0 + 5) paying_db)"


text \<open>A gateway that answers 406 to an order id: the attempt is failed and the checkout refused, though the order may be
  open at the gateway; the branch that would hand it back is dead (lemma \<open>reuse_never_returns\<close>).\<close>

lemma duplicate_order_is_refused:
  "let x = create_checkout cfg0 sandbox (\<lambda>q. if hr_method q = ''POST'' then Replied 406 None
         else Replied 200 (Some (JsonObject [(''order_id'', JsonStr ''sx-202601-0001-A1''), (''status_code'', JsonStr ''201''),
            (''gross_amount'', JsonStr ''250000''), (''transaction_status'', JsonStr ''pending'')])))
       104 105 (inv100\<lparr>inv_status := Sent, inv_number := ''sx-202601-0001''\<rparr>) payer ''midtrans'' ''r'' ''c'' t0 billed_db in
   fst x = Inl (HTTPError 409 ''Payment order already exists at provider'')
   \<and> map_option att_status (get_attempt (snd x) 104) = Some AFailed"
  by code_simp

end
