(* ===== verification/BillingWorkers.thy ===== *)
theory BillingWorkers
  imports Checkout
begin

text \<open>
  The billing jobs of the worker (\<open>workers/tasks/billing.py\<close>): the end of subscriptions and the \<open>past_due\<close>
  sweep, the reminders of unpaid invoices, the drafts of annual renewals, the expiry and the reconciliation
  of checkouts. A job is one transaction, except that the reconciliation commits after each attempt.
  \<open>worker_env\<close> holds the settings read from the environment. The mail server is a parameter, a function from
  invoice, stage and address to what \<open>send_billing_reminder_email\<close> does.
\<close>

record worker_env =
  grace_days :: int      \<comment> \<open>\<open>PAST_DUE_GRACE_DAYS\<close>\<close>
  cancel_days :: int     \<comment> \<open>\<open>PAST_DUE_CANCEL_DAYS\<close>\<close>
  lead_days :: int       \<comment> \<open>\<open>RENEWAL_DRAFT_LEAD_DAYS\<close>\<close>

definition default_env :: worker_env where
  "default_env = \<lparr>grace_days = 7, cancel_days = 45, lead_days = 45\<rparr>"

definition MAX_REMINDER_ATTEMPTS :: nat where "MAX_REMINDER_ATTEMPTS = 3"

subsection \<open>The end of a period\<close>

text \<open>An \<open>UPDATE subscriptions ... RETURNING id\<close> and the number of rows it returns.\<close>

definition update_subs ::
    "(subscription \<Rightarrow> bool) \<Rightarrow> (subscription \<Rightarrow> subscription) \<Rightarrow> db \<Rightarrow> nat \<times> db" where
  "update_subs P f d = (count_where P (subs d), d\<lparr>subs := map (\<lambda>s. if P s then f s else s) (subs d)\<rparr>)"

definition period_over :: "datetime \<Rightarrow> subscription \<Rightarrow> bool" where
  "period_over now s \<longleftrightarrow> sub_cancel_at_period_end s
     \<and> (case sub_period_end s of None \<Rightarrow> False | Some e \<Rightarrow> e \<le> now)"

definition closed_sub :: "datetime \<Rightarrow> subscription \<Rightarrow> subscription" where
  "closed_sub now s = s\<lparr>sub_status := Canceled, sub_cancel_at_period_end := False, sub_canceled_at := Some now,
     sub_ended_at := Some now, sub_updated_at := now\<rparr>"

definition close_canceled :: "datetime \<Rightarrow> db \<Rightarrow> nat \<times> db" where
  "close_canceled now = update_subs (period_over now) (closed_sub now)"

text \<open>\<open>DISTINCT ON (organization_id) ... ORDER BY organization_id, period_start DESC, created_at DESC\<close>.\<close>

definition latest_invoice :: "db \<Rightarrow> uuid \<Rightarrow> invoice option" where
  "latest_invoice d u = first_row (desc_by inv_period_start (desc_by inv_created_at
     (filter (\<lambda>i. inv_org i = u \<and> inv_product i = Scan \<and> inv_status i \<noteq> Void) (invoices d))))"

definition overdue_by :: "int \<Rightarrow> datetime \<Rightarrow> db \<Rightarrow> uuid \<Rightarrow> bool" where
  "overdue_by days now d u = (case latest_invoice d u of None \<Rightarrow> False
     | Some i \<Rightarrow> inv_status i = Sent \<and> inv_due_date i + days * day_us \<le> now)"

definition mark_past_due :: "worker_env \<Rightarrow> datetime \<Rightarrow> db \<Rightarrow> nat \<times> db" where
  "mark_past_due env now d = update_subs
     (\<lambda>s. sub_status s = Active \<and> overdue_by (grace_days env) now d (sub_org s))
     (\<lambda>s. s\<lparr>sub_status := PastDue, sub_updated_at := now\<rparr>) d"

definition terminal_past_due :: "worker_env \<Rightarrow> datetime \<Rightarrow> db \<Rightarrow> nat \<times> db" where
  "terminal_past_due env now d = update_subs
     (\<lambda>s. sub_status s = PastDue \<and> overdue_by (cancel_days env) now d (sub_org s)) (closed_sub now) d"

definition finalize_periods :: "worker_env \<Rightarrow> datetime \<Rightarrow> db \<Rightarrow> (nat \<times> nat \<times> nat) \<times> db" where
  "finalize_periods env now d =
     (let (canceled, d1) = close_canceled now d;
          (past_due, d2) = mark_past_due env now d1;
          (terminal, d3) = terminal_past_due env now d2
      in ((canceled, past_due, terminal), d3))"

subsection \<open>Reminders\<close>

datatype mail_outcome = MailSent | MailRefused | MailRaised string

type_synonym mailer = "invoice \<Rightarrow> string \<Rightarrow> string \<Rightarrow> mail_outcome"   \<comment> \<open>invoice, stage, address\<close>
type_synonym recipient = "string \<times> string option"                \<comment> \<open>address, language\<close>

text \<open>Empty addresses and those seen before are skipped.\<close>

fun dedup_recipients :: "string list \<Rightarrow> recipient list \<Rightarrow> recipient list" where
  "dedup_recipients seen [] = []"
| "dedup_recipients seen ((email, lang) # rows) =
     (if email = [] \<or> email \<in> set seen then dedup_recipients seen rows
      else (email, lang) # dedup_recipients (email # seen) rows)"

definition billing_addresses :: "db \<Rightarrow> uuid \<Rightarrow> string list" where
  "billing_addresses d u =
     (case row_get prof_org u (profiles d) of None \<Rightarrow> []
      | Some p \<Rightarrow> if prof_billing_email p = [] then [] else [prof_billing_email p])
     @ map rcp_email (sort_key (\<lambda>r. if rcp_is_primary r then 0 else 1 :: nat) (sort_key rcp_created_at
         (filter (\<lambda>r. rcp_org r = u \<and> rcp_kind r = ''billing'' \<and> rcp_disabled_at r = None) (recipients d))))"

definition verified_admins :: "db \<Rightarrow> uuid \<Rightarrow> recipient list" where
  "verified_admins d u = concat (map (\<lambda>m. case row_get user_id (mem_user m) (users d) of None \<Rightarrow> []
       | Some x \<Rightarrow> if user_is_verified x then [(user_email x, Some (user_locale x))] else [])
     (filter (\<lambda>m. mem_org m = u \<and> mem_role m \<in> {Owner, Admin}) (memberships d)))"

definition reminder_recipients :: "db \<Rightarrow> uuid \<Rightarrow> recipient list" where
  "reminder_recipients d u =
     (if billing_addresses d u \<noteq> []
      then dedup_recipients [] (map (\<lambda>e. (lower (strip e), None)) (billing_addresses d u))
      else dedup_recipients [] (verified_admins d u))"

definition send_all :: "mailer \<Rightarrow> invoice \<Rightarrow> string \<Rightarrow> recipient list \<Rightarrow> nat \<times> nat \<times> string" where
  "send_all mail i stage rs = foldl (\<lambda>(sent, failed, last_error) (email, lang).
     case mail i stage email of
       MailSent \<Rightarrow> (sent + 1, failed, last_error)
     | MailRefused \<Rightarrow> (sent, failed + 1, last_error)
     | MailRaised msg \<Rightarrow> (sent, failed + 1, take 200 msg)) (0, 0, []) rs"

definition fresh_reminder :: "invoice \<Rightarrow> string \<Rightarrow> nat \<Rightarrow> datetime \<Rightarrow> billing_reminder" where
  "fresh_reminder i stage rank now = \<lparr>rem_invoice = inv_id i, rem_org = inv_org i, rem_stage = stage,
     rem_stage_rank = rank, rem_attempts = 0, rem_sent_count = 0, rem_failed_count = 0, rem_last_error = None,
     rem_updated_at = now\<rparr>"

definition counted_reminder :: "nat \<Rightarrow> nat \<Rightarrow> string \<Rightarrow> datetime \<Rightarrow> billing_reminder \<Rightarrow> billing_reminder" where
  "counted_reminder sent failed msg now r = r\<lparr>rem_attempts := rem_attempts r + 1,
     rem_sent_count := rem_sent_count r + sent, rem_failed_count := rem_failed_count r + failed,
     rem_last_error := none_if_empty (take 500 msg), rem_updated_at := now\<rparr>"

abbreviation rem_key :: "billing_reminder \<Rightarrow> uuid \<times> string" where
  "rem_key r \<equiv> (rem_invoice r, rem_stage r)"

definition record_reminder ::
    "invoice \<Rightarrow> string \<Rightarrow> nat \<Rightarrow> nat \<Rightarrow> nat \<Rightarrow> string \<Rightarrow> billing_reminder option \<Rightarrow> datetime \<Rightarrow> db \<Rightarrow> db" where
  "record_reminder i stage rank sent failed msg existing now d = (case existing of
     None \<Rightarrow> d\<lparr>reminders := reminders d @ [counted_reminder sent failed msg now (fresh_reminder i stage rank now)]\<rparr>
   | Some r \<Rightarrow> d\<lparr>reminders := row_upd rem_key (rem_key r) (counted_reminder sent failed msg now) (reminders d)\<rparr>)"

definition reminder_stage :: "billing_reminder list \<Rightarrow> invoice \<Rightarrow> datetime \<Rightarrow> string option" where
  "reminder_stage existing_rows i now = (if existing_rows \<noteq> [] then due_stage (inv_due_date i) now
     else first_contact_stage (inv_due_date i) now (inv_sent_at i))"

definition reminder_done :: "billing_reminder list \<Rightarrow> string \<Rightarrow> bool" where
  "reminder_done existing_rows stage = (case find (\<lambda>r. rem_stage r = stage) existing_rows of
     Some r \<Rightarrow> 0 < rem_sent_count r \<or> MAX_REMINDER_ATTEMPTS \<le> rem_attempts r
   | None \<Rightarrow> stage_rank (Some stage) \<le> foldr max (map rem_stage_rank existing_rows) 0)"

type_synonym reminder_log = "(uuid \<times> string \<times> string) list"   \<comment> \<open>invoice, stage and address of each mail handed over\<close>

text \<open>One invoice of the sweep: how many mails it sent, how many failed, whether it was skipped, and the mails.\<close>

definition remind_invoice :: "mailer \<Rightarrow> datetime \<Rightarrow> invoice \<Rightarrow> db \<Rightarrow> (nat \<times> nat \<times> nat) \<times> reminder_log \<times> db" where
  "remind_invoice mail now i d =
     (let existing_rows = filter (\<lambda>r. rem_invoice r = inv_id i) (reminders d) in
      case reminder_stage existing_rows i now of
        None \<Rightarrow> ((0, 0, 0), [], d)
      | Some stage \<Rightarrow>
          if reminder_done existing_rows stage then ((0, 0, 1), [], d)
          else
            let rank = stage_rank (Some stage);
                existing = find (\<lambda>r. rem_stage r = stage) existing_rows;
                rs = reminder_recipients d (inv_org i) in
            if rs = [] then ((0, 0, 1), [], record_reminder i stage rank 0 0 ''no recipients'' existing now d)
            else let (sent, failed, msg) = send_all mail i stage rs in
              ((sent, failed, 0), map (\<lambda>(email, lang). (inv_id i, stage, email)) rs,
               record_reminder i stage rank sent failed msg existing now d))"

definition due_invoices :: "db \<Rightarrow> invoice list" where
  "due_invoices d = filter (\<lambda>i. inv_status i = Sent \<and> inv_paid_at i = None \<and> get_org d (inv_org i) \<noteq> None) (invoices d)"

fun remind_all ::
    "mailer \<Rightarrow> datetime \<Rightarrow> invoice list \<Rightarrow> db \<Rightarrow> (nat \<times> nat \<times> nat) \<times> reminder_log \<times> db" where
  "remind_all mail now [] d = ((0, 0, 0), [], d)"
| "remind_all mail now (i # is) d =
     (let ((sent, failed, skipped), sent_mails, d1) = remind_invoice mail now i d;
          ((sent', failed', skipped'), more_mails, d2) = remind_all mail now is d1
      in ((sent + sent', failed + failed', skipped + skipped'), sent_mails @ more_mails, d2))"

definition send_due_reminders :: "mailer \<Rightarrow> datetime \<Rightarrow> db \<Rightarrow> (nat \<times> nat \<times> nat) \<times> reminder_log \<times> db" where
  "send_due_reminders mail now d = remind_all mail now (due_invoices d) d"

subsection \<open>Annual renewals\<close>

definition next_annual_start :: "datetime \<Rightarrow> datetime result" where
  "next_annual_start current_end =
     (let y = year_of current_end + (if month_of current_end = 12 then 1 else 0) in
      if 9999 < y then Inl (ValueError ''year is out of range'')
      else Inr (datetime_ymd y (month_of current_end mod 12 + 1) 1))"

text \<open>\<open>_next_invoice_number\<close> counts like \<open>next_invoice_number\<close> of the invoice service.\<close>

definition worker_invoice_number :: "db \<Rightarrow> datetime \<Rightarrow> string" where
  "worker_invoice_number d start = number_prefix start
     @ zpad 4 (count_where (\<lambda>i. starts_with (number_prefix start) (inv_number i)) (invoices d) + 1)"

definition renewal_invoice ::
    "uuid \<Rightarrow> subscription \<Rightarrow> string \<Rightarrow> string \<Rightarrow> price \<Rightarrow> datetime \<Rightarrow> datetime \<Rightarrow> int \<Rightarrow> datetime \<Rightarrow> invoice" where
  "renewal_invoice k s name number p start end term_days now =
     \<lparr>inv_id = k, inv_org = sub_org s, inv_number = number, inv_product = Scan, inv_sku = sub_sku s,
      inv_request = None, inv_amount_idr = pr_amount p, inv_discount_idr = 0, inv_promo_code = None,
      inv_dpp_idr = pr_dpp p, inv_ppn_idr = pr_ppn p, inv_pph23_idr = pr_pph23 p, inv_total_idr = pr_total p,
      inv_period_start = start, inv_period_end = end, inv_due_date = start + max 0 term_days * day_us,
      inv_sent_at = None, inv_status = Draft, inv_bank_ref = None,
      inv_notes = ''Annual renewal draft for '' @ name, inv_paid_at = None, inv_created_by = None,
      inv_created_at = now, inv_updated_at = now\<rparr>"

definition renewal_catalog :: "db \<Rightarrow> sku \<Rightarrow> catalog_row option result" where
  "renewal_catalog d code = scalar_one_or_none
     (filter (\<lambda>c. cat_product c = Scan \<and> cat_sku c = code \<and> cat_invoicable c) (catalog d))"

type_synonym renewal_state = "(nat \<times> nat) \<times> db"   \<comment> \<open>created, skipped, and the session\<close>

definition draft_renewal ::
    "(uuid \<Rightarrow> uuid) \<Rightarrow> datetime \<Rightarrow> subscription \<times> string \<Rightarrow> renewal_state \<Rightarrow> renewal_state result" where
  "draft_renewal ids now = (\<lambda>(s, name) ((created, skipped), d).
     case sub_period_end s of
       None \<Rightarrow> Inr ((created, skipped), d)
     | Some current_end \<Rightarrow>
         ebind (next_annual_start current_end) (\<lambda>next_start.
         ebind (period_bounds_utc next_start Annual) (\<lambda>(start, end).
         ebind (renewal_catalog d (sub_sku s)) (\<lambda>cat.
         case cat of
           None \<Rightarrow> Inr ((created, skipped + 1), d)
         | Some c \<Rightarrow>
             ebind (scalar_one_or_none (clashing d (sub_org s) Scan start end)) (\<lambda>already.
             if already \<noteq> None then Inr ((created, skipped + 1), d)
             else
               let profile = row_get prof_org (sub_org s) (profiles d);
                   p = price_breakdown (cat_list_idr c) True
                     (case profile of None \<Rightarrow> False | Some q \<Rightarrow> prof_pkp q = Pkp) 0;
                   term_days = (case profile of None \<Rightarrow> 0 | Some q \<Rightarrow> prof_terms_days q) in
               ebind (insert_invoice (renewal_invoice (ids (sub_org s)) s name (worker_invoice_number d start)
                 p start end term_days now) d) (\<lambda>d1.
               Inr ((created + 1, skipped), d1)))))))"

definition due_renewals :: "worker_env \<Rightarrow> datetime \<Rightarrow> db \<Rightarrow> (subscription \<times> string) list" where
  "due_renewals env now d = concat (map (\<lambda>s. case get_org d (sub_org s) of None \<Rightarrow> [] | Some r \<Rightarrow> [(s, org_name r)])
     (filter (\<lambda>s. sub_cycle s = Annual \<and> sub_status s = Active \<and> \<not> sub_cancel_at_period_end s
        \<and> (case sub_period_end s of None \<Rightarrow> False
           | Some e \<Rightarrow> e \<le> now + lead_days env * day_us \<and> now < e)) (subs d)))"

definition draft_annual_renewals ::
    "worker_env \<Rightarrow> (uuid \<Rightarrow> uuid) \<Rightarrow> datetime \<Rightarrow> db \<Rightarrow> renewal_state result" where
  "draft_annual_renewals env ids now d = efold (draft_renewal ids now) (due_renewals env now d) ((0, 0), d)"

subsection \<open>Checkouts\<close>

definition past_expiry :: "datetime \<Rightarrow> payment_attempt \<Rightarrow> bool" where
  "past_expiry now a \<longleftrightarrow> att_status a = APending \<and> (case att_expires_at a of None \<Rightarrow> False | Some e \<Rightarrow> e < now)"

definition expire_stale_checkouts :: "datetime \<Rightarrow> db \<Rightarrow> nat \<times> db" where
  "expire_stale_checkouts now d = (count_where (past_expiry now) (attempts d),
     d\<lparr>attempts := map (\<lambda>a. if past_expiry now a
       then a\<lparr>att_status := AExpired, att_provider_status := Some ''expired'', att_updated_at := now\<rparr> else a)
       (attempts d)\<rparr>)"

definition RECONCILE_LIMIT :: nat where "RECONCILE_LIMIT = 50"
definition RECONCILE_AGE :: int where "RECONCILE_AGE = 10 * 60 * 1000000"

definition reconcilable :: "datetime \<Rightarrow> db \<Rightarrow> uuid list" where
  "reconcilable now d = map att_id (take RECONCILE_LIMIT (sort_key att_created_at
     (filter (\<lambda>a. att_status a = APending \<and> att_created_at a < now - RECONCILE_AGE) (attempts d))))"

text \<open>An error of \<open>apply_gateway_event\<close> has rolled the session back, which expires every row it holds.
  The handler of the error reads \<open>attempt.id\<close> for its log line: the refresh of an expired row in an
  asynchronous session raises \<open>MissingGreenlet\<close>, and the sweep ends there. The counts are reconciled
  and skipped attempts.\<close>

fun reconcile ::
    "settings \<Rightarrow> pay_settings \<Rightarrow> transport \<Rightarrow> uuid \<Rightarrow> datetime \<Rightarrow> uuid list \<Rightarrow> nat \<times> nat \<Rightarrow> db \<Rightarrow> (nat \<times> nat) result \<times> db" where
  "reconcile cfg p net sid now [] counts d = (Inr counts, d)"
| "reconcile cfg p net sid now (k # ks) (reconciled, skipped) d = (case get_attempt d k of
     None \<Rightarrow> reconcile cfg p net sid now ks (reconciled, skipped) d   \<comment> \<open>no row the session holds goes away\<close>
   | Some a \<Rightarrow> (case build_provider p (att_provider a) False of
       Inl _ \<Rightarrow> reconcile cfg p net sid now ks (reconciled, skipped + 1) d
     | Inr g \<Rightarrow> (case fetch_status p net a of
         Inl _ \<Rightarrow> (Inl (PyError ''MissingGreenlet''), d)
       | Inr s \<Rightarrow> (case (sr_found s, sr_event s) of
           (True, Some ev) \<Rightarrow> (case apply_gateway_event cfg (provider_query p net) sid (gateway_name g) ev now d of
               (Inl _, d') \<Rightarrow> (Inl (PyError ''MissingGreenlet''), d')
             | (Inr _, d') \<Rightarrow> reconcile cfg p net sid now ks (reconciled + 1, skipped) d')
         | _ \<Rightarrow> reconcile cfg p net sid now ks (reconciled, skipped) d))))"

definition reconcile_gateway_attempts ::
    "settings \<Rightarrow> pay_settings \<Rightarrow> transport \<Rightarrow> uuid \<Rightarrow> datetime \<Rightarrow> db \<Rightarrow> (nat \<times> nat) result \<times> db" where
  "reconcile_gateway_attempts cfg p net sid now d = reconcile cfg p net sid now (reconcilable now d) (0, 0) d"

subsection \<open>The sweep over the periods\<close>

lemma unique_by_map_same: "(\<And>r. key (f r) = key r) \<Longrightarrow> unique_by key (map f rows) = unique_by key rows"
  by (simp add: unique_by_def o_def)

lemma closed_sub_fields [simp]:
  "sub_org (closed_sub now s) = sub_org s" "sub_status (closed_sub now s) = Canceled"
  by (simp_all add: closed_sub_def)

lemma snd_update_subs: "snd (update_subs P f d) = d\<lparr>subs := map (\<lambda>s. if P s then f s else s) (subs d)\<rparr>"
  by (simp add: update_subs_def)

lemma overdue_subs [simp]: "overdue_by n now (subs_update f d) u = overdue_by n now d u"
  by (simp add: overdue_by_def latest_invoice_def)

definition finalized :: "worker_env \<Rightarrow> datetime \<Rightarrow> db \<Rightarrow> subscription \<Rightarrow> sub_status" where
  "finalized env now d s =
     (let late = (\<lambda>n. overdue_by n now d (sub_org s)) in
      if period_over now s then Canceled
      else if (sub_status s = PastDue \<or> sub_status s = Active \<and> late (grace_days env)) \<and> late (cancel_days env) then Canceled
      else if sub_status s = Active \<and> late (grace_days env) then PastDue
      else sub_status s)"

lemma finalize_subs: "\<exists>f. snd (finalize_periods env now d) = d\<lparr>subs := map f (subs d)\<rparr>
    \<and> (\<forall>s. sub_org (f s) = sub_org s \<and> sub_status (f s) = finalized env now d s)"
proof -
  let ?f1 = "\<lambda>s. if period_over now s then closed_sub now s else s"
  let ?f2 = "\<lambda>s. if sub_status s = Active \<and> overdue_by (grace_days env) now d (sub_org s)
    then s\<lparr>sub_status := PastDue, sub_updated_at := now\<rparr> else s"
  let ?f3 = "\<lambda>s. if sub_status s = PastDue \<and> overdue_by (cancel_days env) now d (sub_org s) then closed_sub now s else s"
  have "snd (finalize_periods env now d) = d\<lparr>subs := map (\<lambda>s. ?f3 (?f2 (?f1 s))) (subs d)\<rparr>"
    unfolding finalize_periods_def close_canceled_def mark_past_due_def terminal_past_due_def Let_def case_prod_beta
    by (simp add: snd_update_subs o_def)
  moreover have "sub_org (?f3 (?f2 (?f1 s))) = sub_org s \<and> sub_status (?f3 (?f2 (?f1 s))) = finalized env now d s" for s
    by (cases "period_over now s"; cases "overdue_by (grace_days env) now d (sub_org s)";
        cases "overdue_by (cancel_days env) now d (sub_org s)"; cases "sub_status s") (simp_all add: finalized_def)
  ultimately show ?thesis by blast
qed

lemma finalized_allowed: "finalized env now d s = sub_status s \<or> finalized env now d s \<in> set (allowed_transitions (sub_status s))"
  by (cases "sub_status s") (auto simp: finalized_def Let_def)

lemma finalize_good: "finalize_periods env now d = (c, d') \<Longrightarrow> billing_good d d'"
proof -
  assume "finalize_periods env now d = (c, d')"
  with finalize_subs [of env now d] obtain f where d': "d' = d\<lparr>subs := map f (subs d)\<rparr>"
    and f: "\<And>s. sub_org (f s) = sub_org s" "\<And>s. sub_status (f s) = finalized env now d s" by auto
  then show ?thesis
    unfolding billing_good_def sub_moves_def
    by (auto simp: row_get_map unique_by_map_same finalized_allowed intro: invoices_kept_refl)
qed

text \<open>The sweep over the periods, in one equation: a subscription whose owner asked for its end is canceled once
  the period is over; otherwise it becomes past due when the latest live scan invoice of the organization is sent
  and unpaid \<open>grace_days\<close> after its due date, and canceled when it is so \<open>cancel_days\<close> after, at once from active when
  both have passed; nothing else moves.\<close>

theorem finalize_exact:
  "map_option sub_status (get_sub (snd (finalize_periods env now d)) u)
     = map_option (finalized env now d) (get_sub d u)"
proof -
  obtain f where "snd (finalize_periods env now d) = d\<lparr>subs := map f (subs d)\<rparr>"
    "\<forall>s. sub_org (f s) = sub_org s \<and> sub_status (f s) = finalized env now d s"
    using finalize_subs by blast
  then show ?thesis by (simp add: row_get_map option.map_comp o_def)
qed

subsection \<open>How often a reminder is sent\<close>

definition reminders_ok :: "db \<Rightarrow> bool" where
  "reminders_ok d \<longleftrightarrow> unique_by rem_key (reminders d)
     \<and> (\<forall>r\<in>set (reminders d). rem_attempts r \<le> MAX_REMINDER_ATTEMPTS)"

definition reminder_tries :: "db \<Rightarrow> uuid \<Rightarrow> string \<Rightarrow> nat" where
  "reminder_tries d k stage = (case row_get rem_key (k, stage) (reminders d) of None \<Rightarrow> 0 | Some r \<Rightarrow> rem_attempts r)"

definition reminder_accepted :: "db \<Rightarrow> uuid \<Rightarrow> string \<Rightarrow> bool" where
  "reminder_accepted d k stage = (case row_get rem_key (k, stage) (reminders d) of None \<Rightarrow> False | Some r \<Rightarrow> 0 < rem_sent_count r)"

text \<open>What a run that hands over the mails \<open>log\<close> does to the reminders: each mail counts as an attempt of its stage, and a
  stage that a recipient accepted is left alone.\<close>

definition reminder_good :: "db \<Rightarrow> reminder_log \<Rightarrow> db \<Rightarrow> bool" where
  "reminder_good d log d' \<longleftrightarrow> (reminders_ok d \<longrightarrow> reminders_ok d' \<and> (\<forall>k s.
     (\<forall>e. count_list log (k, s, e) + reminder_tries d k s \<le> reminder_tries d' k s)
     \<and> (reminder_accepted d k s \<longrightarrow> reminder_accepted d' k s \<and> (\<forall>e. (k, s, e) \<notin> set log))))"

lemma reminder_good_refl: "reminders d' = reminders d \<Longrightarrow> reminder_good d [] d'"
  by (simp add: reminder_good_def reminders_ok_def reminder_tries_def reminder_accepted_def)

lemma reminder_good_trans:
  assumes "reminder_good d log d1" "reminder_good d1 log' d2"
  shows "reminder_good d (log @ log') d2"
  unfolding reminder_good_def
proof (intro impI conjI allI)
  assume ok: "reminders_ok d"
  then have ok1: "reminders_ok d1" using assms(1) by (simp add: reminder_good_def)
  show "reminders_ok d2" using assms(2) ok1 by (simp add: reminder_good_def)
  fix k s
  show "count_list (log @ log') (k, s, e) + reminder_tries d k s \<le> reminder_tries d2 k s" for e
  proof -
    have "count_list log (k, s, e) + reminder_tries d k s \<le> reminder_tries d1 k s"
      using assms(1) ok unfolding reminder_good_def by blast
    moreover have "count_list log' (k, s, e) + reminder_tries d1 k s \<le> reminder_tries d2 k s"
      using assms(2) ok1 unfolding reminder_good_def by blast
    ultimately show ?thesis by simp
  qed
  assume "reminder_accepted d k s"
  then have 1: "reminder_accepted d1 k s" "\<forall>e. (k, s, e) \<notin> set log" using assms(1) ok unfolding reminder_good_def by blast+
  then show "reminder_accepted d2 k s" using assms(2) ok1 unfolding reminder_good_def by blast
  show "(k, s, e) \<notin> set (log @ log')" for e using 1 assms(2) ok1 unfolding reminder_good_def by auto
qed

lemma find_stage: "find (\<lambda>r. rem_stage r = s) (filter (\<lambda>r. rem_invoice r = k) rows) = row_get rem_key (k, s) rows"
  by (induction rows) (auto simp: row_get_def)

lemma dedup_distinct: "distinct (map fst (dedup_recipients seen rows)) \<and> set (map fst (dedup_recipients seen rows)) \<inter> set seen = {}"
  by (induction seen rows rule: dedup_recipients.induct) auto

lemma recipients_distinct: "distinct (map fst (reminder_recipients d u))"
  using dedup_distinct by (auto simp: reminder_recipients_def)

lemma count_mails: "distinct (map fst rs) \<Longrightarrow>
    count_list (map (\<lambda>(email, lang). (k, s, email)) rs) (k', s', e) \<le> (if k' = k \<and> s' = s then 1 else 0)"
proof (induction rs)
  case (Cons r rs)
  have "count_list (map (\<lambda>(email, lang). (k, s, email)) rs) (k', s', e) = 0" if "e = fst r"
    using Cons.prems that by (intro count_notin) (auto simp: image_iff)
  with Cons show ?case by (auto split: prod.splits)
qed simp

lemma record_reminder_good:
  assumes e: "existing = row_get rem_key (inv_id i, stage) (reminders d)"
    and r: "\<And>r. existing = Some r \<Longrightarrow> rem_sent_count r = 0 \<and> rem_attempts r < MAX_REMINDER_ATTEMPTS"
    and mails: "\<And>k s e. count_list mails (k, s, e) \<le> (if k = inv_id i \<and> s = stage then 1 else 0)"
  shows "reminder_good d mails (record_reminder i stage rank sent failed msg existing now d)"
proof -
  define D where "D = record_reminder i stage rank sent failed msg existing now d"
  let ?f = "counted_reminder sent failed msg now"
  have f: "rem_key (?f r) = rem_key r" "rem_attempts (?f r) = Suc (rem_attempts r)"
    "rem_sent_count (?f r) = rem_sent_count r + sent" for r
    by (simp_all add: counted_reminder_def)
  have none: "(k, s, e) \<notin> set mails" if "\<not> (k = inv_id i \<and> s = stage)" for k s e
    using mails [of k s e] that by (auto simp: count_list_0_iff)
  have "reminders_ok D \<and> reminder_tries D k s = (if k = inv_id i \<and> s = stage then 1 else 0) + reminder_tries d k s
    \<and> (reminder_accepted d k s \<longrightarrow> reminder_accepted D k s \<and> \<not> (k = inv_id i \<and> s = stage))"
    if ok: "reminders_ok d" for k s
  proof (cases existing)
    case None
    then have new: "(inv_id i, stage) \<notin> rem_key ` set (reminders d)" using e by (simp add: row_get_None)
    let ?r = "?f (fresh_reminder i stage rank now)"
    have k: "rem_key ?r = (inv_id i, stage)" "rem_attempts ?r = 1" "rem_sent_count ?r = sent"
      by (simp_all add: f fresh_reminder_def counted_reminder_def)
    have d': "reminders D = reminders d @ [?r]" by (simp add: D_def record_reminder_def None)
    have "row_get rem_key (k', s') (reminders D) = (if (k', s') = (inv_id i, stage) then Some ?r
      else row_get rem_key (k', s') (reminders d))" for k' s'
    proof (cases "(k', s') = (inv_id i, stage)")
      case True
      then show ?thesis unfolding d' row_get_append using k(1) None e by simp
    next
      case False
      then show ?thesis unfolding d' row_get_append using k(1) by (auto split: option.split)
    qed
    then show ?thesis
      using ok new k e
      by (auto simp: reminders_ok_def d' unique_by_append1 reminder_tries_def reminder_accepted_def
          MAX_REMINDER_ATTEMPTS_def None)
  next
    case (Some r0)
    then have r0: "r0 \<in> set (reminders d)" "rem_key r0 = (inv_id i, stage)" using row_get_Some e by metis+
    have d': "reminders D = row_upd rem_key (inv_id i, stage) ?f (reminders d)"
      using r0(2) by (simp add: D_def record_reminder_def Some)
    have get: "row_get rem_key (k', s') (reminders D) = (if (k', s') = (inv_id i, stage) then Some (?f r0)
      else row_get rem_key (k', s') (reminders d))" for k' s'
      unfolding d' row_get_upd [of rem_key ?f, OF f(1)] using Some e by simp
    have "rem_attempts x \<le> MAX_REMINDER_ATTEMPTS" if "x \<in> set (reminders D)" for x
    proof -
      from that consider "x \<in> set (reminders d)" | y where "y \<in> set (reminders d)" "rem_key y = (inv_id i, stage)" "x = ?f y"
        by (auto simp: d' set_row_upd)
      then show ?thesis
      proof cases
        case 2
        then have "y = r0" using ok r0 unique_byD [of rem_key "reminders d" y r0] by (simp add: reminders_ok_def)
        with 2 r [OF Some] show ?thesis by (simp add: f)
      qed (use ok in \<open>simp add: reminders_ok_def\<close>)
    qed
    moreover have "unique_by rem_key (reminders D)"
      using ok f(1) by (simp add: d' unique_by_row_upd reminders_ok_def)
    ultimately show ?thesis
      using r [OF Some] Some e unfolding reminders_ok_def
      by (auto simp: reminder_tries_def reminder_accepted_def get f)
  qed
  then show ?thesis
    unfolding reminder_good_def D_def [symmetric] using mails none by (metis add_le_mono1)
qed

lemma remind_invoice_good: "remind_invoice mail now i d = (c, log, d') \<Longrightarrow> reminder_good d log d'"
proof -
  let ?rows = "filter (\<lambda>r. rem_invoice r = inv_id i) (reminders d)"
  assume *: "remind_invoice mail now i d = (c, log, d')"
  show ?thesis
  proof (cases "reminder_stage ?rows i now")
    case None
    with * show ?thesis by (simp add: remind_invoice_def reminder_good_refl)
  next
    case (Some stage)
    show ?thesis
    proof (cases "reminder_done ?rows stage")
      case True
      with * Some show ?thesis by (simp add: remind_invoice_def reminder_good_refl)
    next
      case False
      let ?e = "row_get rem_key (inv_id i, stage) (reminders d)"
      let ?mails = "map (\<lambda>(email, lang). (inv_id i, stage, email)) (reminder_recipients d (inv_org i))"
      have r: "rem_sent_count r = 0 \<and> rem_attempts r < MAX_REMINDER_ATTEMPTS" if "?e = Some r" for r
        using False that by (simp add: reminder_done_def find_stage not_le)
      obtain sent failed msg where "log = ?mails"
        "d' = record_reminder i stage (stage_rank (Some stage)) sent failed msg ?e now d"
        using * Some False
        by (auto simp: remind_invoice_def Let_def find_stage split: if_splits prod.splits)
      moreover have "count_list ?mails (k, s, e) \<le> (if k = inv_id i \<and> s = stage then 1 else 0)" for k s e
        by (rule count_mails [OF recipients_distinct])
      ultimately show ?thesis
        by (simp only:) (rule record_reminder_good, rule refl, erule r, assumption)
    qed
  qed
qed

lemma remind_all_good: "remind_all mail now is d = (c, log, d') \<Longrightarrow> reminder_good d log d'"
proof (induction "is" arbitrary: d c log d')
  case (Cons i "is")
  obtain s f k log1 d1 where 1: "remind_invoice mail now i d = ((s, f, k), log1, d1)" by (metis prod_cases3)
  obtain s' f' k' log2 d2 where 2: "remind_all mail now is d1 = ((s', f', k'), log2, d2)" by (metis prod_cases3)
  from Cons.prems have "log = log1 @ log2" "d' = d2" by (simp_all add: 1 2)
  with reminder_good_trans [OF remind_invoice_good [OF 1] Cons.IH [OF 2]] show ?case by simp
qed (simp add: reminder_good_refl)

text \<open>Sweeps, and in between anything that leaves the reminders alone.\<close>

inductive reminder_run :: "db \<Rightarrow> reminder_log \<Rightarrow> db \<Rightarrow> bool" where
  nothing: "reminder_run d [] d"
| sweep: "reminder_run d log d1 \<Longrightarrow> send_due_reminders mail now d1 = (c, mails, d2) \<Longrightarrow> reminder_run d (log @ mails) d2"
| other: "reminder_run d log d1 \<Longrightarrow> reminders d2 = reminders d1 \<Longrightarrow> reminder_run d log d2"

lemma reminder_run_good: "reminder_run d log d' \<Longrightarrow> reminder_good d log d'"
proof (induction rule: reminder_run.induct)
  case (sweep d log d1 mail now c mails d2)
  then show ?case
    by (intro reminder_good_trans [of d log d1 mails d2] remind_all_good [of mail now "due_invoices d1" d1 c])
      (simp_all add: send_due_reminders_def)
next
  case (other d log d1 d2)
  then show ?case using reminder_good_trans [of d log d1 "[]" d2] reminder_good_refl by simp
qed (simp add: reminder_good_refl)

text \<open>C26: However often the hourly sweep runs, at whatever times and with whatever the mail server answers, an address gets
  at most three mails for one stage of one invoice, and none for a stage that one of the recipients has
  accepted.\<close>

theorem reminders_bounded:
  assumes "reminder_run d log d'" "reminders_ok d"
  shows "count_list log (k, stage, email) \<le> MAX_REMINDER_ATTEMPTS
    \<and> (reminder_accepted d k stage \<longrightarrow> (k, stage, email) \<notin> set log)"
proof -
  have g: "reminders_ok d'" "count_list log (k, stage, email) + reminder_tries d k stage \<le> reminder_tries d' k stage"
    "reminder_accepted d k stage \<longrightarrow> (k, stage, email) \<notin> set log"
    using reminder_run_good [OF assms(1)] assms(2) unfolding reminder_good_def by blast+
  have "reminder_tries d' k stage \<le> MAX_REMINDER_ATTEMPTS"
    using g(1) row_get_Some by (fastforce simp: reminder_tries_def reminders_ok_def split: option.split)
  with g show ?thesis by linarith
qed

subsection \<open>Renewal drafts\<close>

definition renewal_period :: "subscription \<Rightarrow> (datetime \<times> datetime) result" where
  "renewal_period s = (case sub_period_end s of None \<Rightarrow> Inl NoResultFound
     | Some e \<Rightarrow> ebind (next_annual_start e) (\<lambda>n. period_bounds_utc n Annual))"

lemma draft_renewal_Inr:
  assumes "draft_renewal ids now (s, name) ((c, k), d) = Inr ((c', k'), d')"
  obtains (none) "d' = d" "c' = c"
      "\<And>start end x. renewal_period s = Inr (start, end) \<Longrightarrow> renewal_catalog d (sub_sku s) = Inr (Some x) \<Longrightarrow>
         \<exists>i. clashing d (sub_org s) Scan start end = [i]"
  | (drafted) start "end" p number term_days i where
      "renewal_period s = Inr (start, end)" "clashing d (sub_org s) Scan start end = []"
      "i = renewal_invoice (ids (sub_org s)) s name number p start end term_days now"
      "insert_invoice i d = Inr d'" "c' = c + 1"
proof (cases "sub_period_end s")
  case None
  with assms show ?thesis by (intro none) (simp_all add: draft_renewal_def renewal_period_def)
next
  case (Some e)
  from assms Some obtain n start "end" cat where
    n: "next_annual_start e = Inr n" "period_bounds_utc n Annual = Inr (start, end)" "renewal_catalog d (sub_sku s) = Inr cat"
    by (auto simp: draft_renewal_def ebind_eq_Inr)
  then have per: "renewal_period s = Inr (start, end)" by (simp add: renewal_period_def Some)
  show ?thesis
  proof (cases cat)
    case None
    with assms n Some show ?thesis by (intro none) (simp_all add: draft_renewal_def)
  next
    case cat: (Some x)
    with assms n Some obtain already where a: "scalar_one_or_none (clashing d (sub_org s) Scan start end) = Inr already"
      by (auto simp: draft_renewal_def ebind_eq_Inr)
    show ?thesis
    proof (cases already)
      case None
      with a have "clashing d (sub_org s) Scan start end = []" by (simp add: scalar_one_or_none_None)
      with assms n Some cat per show ?thesis
        by (auto simp: draft_renewal_def Let_def ebind_eq_Inr intro!: drafted [of start "end"])
    next
      case al: (Some i)
      with a have "clashing d (sub_org s) Scan start end = [i]" by (simp add: scalar_one_or_none_Some)
      with assms n Some cat al per show ?thesis by (intro none) (simp_all add: draft_renewal_def)
    qed
  qed
qed

lemma renewal_fields [simp]:
  "inv_id (renewal_invoice k s name number p start end t now) = k"
  "inv_org (renewal_invoice k s name number p start end t now) = sub_org s"
  "inv_number (renewal_invoice k s name number p start end t now) = number"
  "inv_product (renewal_invoice k s name number p start end t now) = Scan"
  "inv_status (renewal_invoice k s name number p start end t now) = Draft"
  "inv_period_start (renewal_invoice k s name number p start end t now) = start"
  "inv_period_end (renewal_invoice k s name number p start end t now) = end"
  "inv_promo_code (renewal_invoice k s name number p start end t now) = None"
  "inv_paid_at (renewal_invoice k s name number p start end t now) = None"
  by (simp_all add: renewal_invoice_def)

lemma renewal_period_order: "renewal_period s = Inr (start, end) \<Longrightarrow> start \<le> end"
  by (auto simp: renewal_period_def ebind_eq_Inr split: option.splits dest: period_bounds_cases(2))

lemma draft_renewal_kept:
  assumes "draft_renewal ids now (s, name) ((c, k), d) = Inr ((c', k'), d')"
  shows "invoices_kept d d' \<and> subs d' = subs d \<and> catalog d' = catalog d \<and> orgs d' = orgs d"
  using assms
proof (cases rule: draft_renewal_Inr)
  case none
  then show ?thesis by (simp add: invoices_kept_refl)
next
  case (drafted start "end" p number term_days i)
  note ins = drafted(4) [unfolded insert_invoice_Inr]
  have "invoices_inv d'" if "invoices_inv d"
    by (rule invoices_inv_append [OF that, of i _ "[]"])
      (use ins drafted(2) renewal_period_order [OF drafted(1)] in \<open>simp_all add: drafted(3) invoice_good_def\<close>)
  moreover have "get_invoice d' u = Some x" if "get_invoice d u = Some x" for u x
    using that ins by (simp add: row_get_append)
  ultimately show ?thesis using ins by (fastforce simp: invoices_kept_def)
qed

lemma draft_renewal_covers:
  assumes "draft_renewal ids now (s, name) ((c, k), d) = Inr ((c', k'), d')"
    "renewal_period s = Inr (start, end)" "renewal_catalog d (sub_sku s) = Inr (Some x)"
  shows "length (clashing d' (sub_org s) Scan start end) = 1"
  using assms(1)
proof (cases rule: draft_renewal_Inr)
  case none
  with none(3) [OF assms(2,3)] show ?thesis by auto
next
  case (drafted st en p number term_days i)
  with assms(2) have e: "st = start" "en = end" by simp_all
  note ins = drafted(4) [unfolded insert_invoice_Inr]
  have "clashing d' (sub_org s) Scan start end = clashing d (sub_org s) Scan start end @ [i]"
    using ins renewal_period_order [OF assms(2)] by (simp add: clashing_def drafted(3) e)
  with drafted(2) e show ?thesis by simp
qed

lemma draft_renewal_other:
  assumes "draft_renewal ids now (t, name) ((c, k), d) = Inr ((c', k'), d')" "sub_org t \<noteq> u"
  shows "clashing d' u Scan start end = clashing d u Scan start end"
  using assms(1)
proof (cases rule: draft_renewal_Inr)
  case (drafted st en p number term_days i)
  note ins = drafted(4) [unfolded insert_invoice_Inr]
  show ?thesis using ins assms(2) by (simp add: clashing_def drafted(3))
qed simp

lemma draft_renewal_settled:
  assumes "draft_renewal ids now (s, name) ((c, k), d) = Inr ((c', k'), d')"
    "renewal_period s = Inr (start, end)" "length (clashing d (sub_org s) Scan start end) = 1"
  shows "d' = d"
  using assms(1) by (cases rule: draft_renewal_Inr) (use assms in auto)

text \<open>The whole job, one subscription after the other.\<close>

lemma renewal_fold_kept:
  "efold (draft_renewal ids now) xs ((c, k), d) = Inr ((c', k'), d') \<Longrightarrow>
   invoices_kept d d' \<and> subs d' = subs d \<and> catalog d' = catalog d \<and> orgs d' = orgs d"
proof (induction xs arbitrary: c k d)
  case (Cons x xs)
  obtain s name where x: "x = (s, name)" by (cases x)
  from Cons.prems obtain c1 k1 d1 where 1: "draft_renewal ids now (s, name) ((c, k), d) = Inr ((c1, k1), d1)"
    and 2: "efold (draft_renewal ids now) xs ((c1, k1), d1) = Inr ((c', k'), d')"
    by (auto simp: ebind_eq_Inr x)
  from draft_renewal_kept [OF 1] Cons.IH [OF 2] show ?case using invoices_kept_trans by auto
qed (simp add: invoices_kept_refl)

lemma renewal_fold_other:
  "efold (draft_renewal ids now) xs ((c, k), d) = Inr ((c', k'), d') \<Longrightarrow>
   (\<And>t n. (t, n) \<in> set xs \<Longrightarrow> sub_org t = u \<Longrightarrow> renewal_period t = Inr (start, end)) \<Longrightarrow>
   length (clashing d u Scan start end) = 1 \<Longrightarrow> clashing d' u Scan start end = clashing d u Scan start end"
proof (induction xs arbitrary: c k d)
  case (Cons x xs)
  obtain s name where x: "x = (s, name)" by (cases x)
  from Cons.prems(1) obtain c1 k1 d1 where 1: "draft_renewal ids now (s, name) ((c, k), d) = Inr ((c1, k1), d1)"
    and 2: "efold (draft_renewal ids now) xs ((c1, k1), d1) = Inr ((c', k'), d')"
    by (auto simp: ebind_eq_Inr x)
  have "clashing d1 u Scan start end = clashing d u Scan start end"
  proof (cases "sub_org s = u")
    case True
    with draft_renewal_settled [OF 1, of start "end"] Cons.prems(2) [of s name] Cons.prems(3) show ?thesis by (simp add: x)
  qed (rule draft_renewal_other [OF 1])
  with Cons.IH [OF 2] Cons.prems(2,3) show ?case by auto
qed simp

lemma renewal_fold_covers:
  "efold (draft_renewal ids now) xs ((c, k), d) = Inr ((c', k'), d') \<Longrightarrow>
   (\<And>t n. (t, n) \<in> set xs \<Longrightarrow> sub_org t = sub_org s \<Longrightarrow> t = s) \<Longrightarrow> (s, name) \<in> set xs \<Longrightarrow>
   renewal_period s = Inr (start, end) \<Longrightarrow> renewal_catalog d (sub_sku s) = Inr (Some cat) \<Longrightarrow>
   length (clashing d' (sub_org s) Scan start end) = 1"
proof (induction xs arbitrary: c k d)
  case (Cons x xs)
  obtain t n where x: "x = (t, n)" by (cases x)
  from Cons.prems(1) obtain c1 k1 d1 where 1: "draft_renewal ids now (t, n) ((c, k), d) = Inr ((c1, k1), d1)"
    and 2: "efold (draft_renewal ids now) xs ((c1, k1), d1) = Inr ((c', k'), d')"
    by (auto simp: ebind_eq_Inr x)
  have cat: "renewal_catalog d1 (sub_sku s) = Inr (Some cat)"
    using Cons.prems(5) draft_renewal_kept [OF 1] by (simp add: renewal_catalog_def)
  show ?case
  proof (cases "t = s")
    case True
    have "length (clashing d1 (sub_org s) Scan start end) = 1"
      using draft_renewal_covers [OF 1 [unfolded True] Cons.prems(4,5)] .
    moreover have "renewal_period t' = Inr (start, end)" if "(t', n') \<in> set xs" "sub_org t' = sub_org s" for t' n'
      using Cons.prems(2) [of t' n'] Cons.prems(4) that by simp
    ultimately show ?thesis using renewal_fold_other [OF 2, of "sub_org s"] by simp
  next
    case False
    then show ?thesis using Cons.IH [OF 2 _ _ Cons.prems(4) cat] Cons.prems(2,3) x by auto
  qed
qed simp

lemma due_renewal: "(s, name) \<in> set (due_renewals env now d) \<Longrightarrow> s \<in> set (subs d)"
  by (auto simp: due_renewals_def split: option.splits)

text \<open>C27: Once the renewal job has committed, every annual subscription that was due, on a SKU that can be invoiced, has
  exactly one live scan invoice in its next year, and another run, whenever it comes and with whatever ids,
  leaves it at that.\<close>

theorem renewals_once:
  assumes "draft_annual_renewals env ids now d = Inr (counts, d1)" "draft_annual_renewals env' ids' now' d1 = Inr (counts', d2)"
    "unique_by sub_org (subs d)" "(s, name) \<in> set (due_renewals env now d)"
    "renewal_period s = Inr (start, end)" "renewal_catalog d (sub_sku s) = Inr (Some cat)"
  shows "length (clashing d1 (sub_org s) Scan start end) = 1
    \<and> clashing d2 (sub_org s) Scan start end = clashing d1 (sub_org s) Scan start end"
proof
  obtain c k where 1: "efold (draft_renewal ids now) (due_renewals env now d) ((0, 0), d) = Inr ((c, k), d1)"
    using assms(1) by (cases counts) (simp add: draft_annual_renewals_def)
  obtain c' k' where 2: "efold (draft_renewal ids' now') (due_renewals env' now' d1) ((0, 0), d1) = Inr ((c', k'), d2)"
    using assms(2) by (cases counts') (simp add: draft_annual_renewals_def)
  have subs: "subs d1 = subs d" using renewal_fold_kept [OF 1] by simp
  have same: "t = s" if "t \<in> set (subs d)" "sub_org t = sub_org s" for t
    using unique_byD [OF assms(3) that(1) due_renewal [OF assms(4)] that(2)] .
  show one: "length (clashing d1 (sub_org s) Scan start end) = 1"
    by (rule renewal_fold_covers [OF 1 _ assms(4,5,6)]) (use same due_renewal in blast)
  have "renewal_period t = Inr (start, end)" if "(t, n) \<in> set (due_renewals env' now' d1)" "sub_org t = sub_org s" for t n
    using same [of t] due_renewal [OF that(1)] that(2) assms(5) subs by simp
  then show "clashing d2 (sub_org s) Scan start end = clashing d1 (sub_org s) Scan start end"
    using renewal_fold_other [OF 2 _ one] by blast
qed

subsection \<open>Reconciliation and the whole billing system\<close>

lemma reconcile_steps: "reconcile cfg p net sid now ks counts d = (r, d') \<Longrightarrow> gateway_step\<^sup>*\<^sup>* d d'"
proof (induction ks arbitrary: counts d)
  case (Cons k ks)
  obtain a b where c: "counts = (a, b)" by (cases counts)
  have rest: "gateway_step\<^sup>*\<^sup>* d d'" if "reconcile cfg p net sid now ks x d = (r, d')" for x
    using Cons.IH that by blast
  have event: "gateway_step\<^sup>*\<^sup>* d d'"
    if "apply_gateway_event cfg q sid g ev now d = (r1, d1)" "reconcile cfg p net sid now ks x d1 = (r, d')" for q g ev r1 d1 x
    using gateway_step.intros [OF that(1)] Cons.IH [OF that(2)] by (rule converse_rtranclp_into_rtranclp)
  have failed: "gateway_step\<^sup>*\<^sup>* d d'" if "apply_gateway_event cfg q sid g ev now d = (r1, d')" for q g ev r1
    using gateway_step.intros [OF that] by (rule r_into_rtranclp)
  show ?case
    using Cons.prems rest failed unfolding c
    by (auto split: option.split_asm sum.split_asm bool.split_asm prod.split_asm intro: event)
qed simp

lemma checkout_good:
  assumes "checkout_step d d'"
  shows "billing_good d d'"
  using assms
proof (induction rule: checkout_step.induct)
  case (open_ p aid i actor name now d0 d r d')
  from open_ show ?case
  proof (cases rule: checkout_open_Inr)
    case (opened d1 a)
    have "subs d1 = subs d \<and> invoices d1 = invoices d \<and> redemptions d1 = redemptions d" using opened(3) by auto
    with insert_attempt_Inr [OF opened(2)] show ?thesis by (intro billing_good_refl) simp_all
  qed (simp add: billing_good_refl)
next
  case (finish cfg p net sid name q aid now d r d')
  have w: "billing_good d (write_attempt aid f d)" "subs (write_attempt aid f d) = subs d" for f
    by (auto simp: write_attempt_def intro: billing_good_refl)
  show ?case
  proof (cases "midtrans_create p net q now")
    case (Inr x)
    with finish have "d' = write_attempt aid (checkout_done x now) d" by (auto simp: checkout_finish_def Let_def)
    with w show ?thesis by simp
  next
    case (Inl e)
    let ?d = "write_attempt aid (checkout_failed e now) d"
    from finish Inl consider "d' = d" | "d' = ?d" | "reuse_existing_order cfg p net sid name aid now ?d = (r, d')"
      unfolding checkout_finish_def Let_def by (auto split: if_split_asm)
    then show ?thesis
    proof cases
      case 3
      then have "d' = ?d \<or> (\<exists>ev r1. apply_gateway_event cfg (provider_query p net) sid name ev now ?d = (r1, d'))"
        unfolding reuse_existing_order_def
        by (auto split: sum.split_asm option.split_asm bool.split_asm prod.split_asm if_split_asm)
      then show ?thesis using w billing_good_trans1 [OF w] gateway_step_good gateway_step.intros by metis
    qed (use w in \<open>simp_all add: billing_good_refl\<close>)
  qed
next
  case (cancel p net a now d b d')
  then show ?case by (auto simp: cancel_attempt_def Let_def ebind_eq_Inr write_attempt_def intro: billing_good_refl)
next
  case (event cfg query sid provider ev now d r d')
  then show ?case by (blast intro: gateway_step_good gateway_step.intros)
qed

text \<open>A job of the worker; the reconciliation is a sequence of gateway events (\<open>reconcile_steps\<close>).\<close>

inductive worker_step :: "db \<Rightarrow> db \<Rightarrow> bool" where
  finalize: "finalize_periods env now d = (c, d') \<Longrightarrow> worker_step d d'"
| remind: "send_due_reminders mail now d = (c, log, d') \<Longrightarrow> worker_step d d'"
| renew: "draft_annual_renewals env ids now d = Inr (c, d') \<Longrightarrow> worker_step d d'"
| expire: "expire_stale_checkouts now d = (n, d') \<Longrightarrow> worker_step d d'"

lemma remind_tables: "remind_all mail now is d = (c, log, d') \<Longrightarrow>
    invoices d' = invoices d \<and> redemptions d' = redemptions d \<and> subs d' = subs d"
proof (induction "is" arbitrary: c log d)
  case (Cons i "is")
  obtain s f k log1 d1 where 1: "remind_invoice mail now i d = ((s, f, k), log1, d1)" by (metis prod_cases3)
  then have "invoices d1 = invoices d \<and> redemptions d1 = redemptions d \<and> subs d1 = subs d"
    unfolding remind_invoice_def Let_def record_reminder_def
    by (auto split: option.split_asm if_split_asm prod.split_asm)
  with Cons 1 show ?case by (auto split: prod.split_asm)
qed simp

lemma worker_step_good: "worker_step d d' \<Longrightarrow> billing_good d d'"
proof (induction rule: worker_step.induct)
  case (finalize env now d c d')
  then show ?case by (rule finalize_good)
next
  case (remind mail now d c log d')
  then show ?case using remind_tables by (intro billing_good_refl) (auto simp: send_due_reminders_def)
next
  case (renew env ids now d c d')
  then show ?case using renewal_fold_kept [of ids now _ 0 0 d]
    by (cases c) (auto simp: draft_annual_renewals_def billing_good_def sub_moves_refl)
next
  case (expire now d n d')
  then show ?case by (intro billing_good_refl) (auto simp: expire_stale_checkouts_def)
qed

inductive system_step :: "db \<Rightarrow> db \<Rightarrow> bool" where
  billing: "billing_step d d' \<Longrightarrow> system_step d d'"
| checkout: "checkout_step d d' \<Longrightarrow> system_step d d'"
| worker: "worker_step d d' \<Longrightarrow> system_step d d'"

lemma system_step_good: "system_step d d' \<Longrightarrow> unique_by sub_org (subs d) \<Longrightarrow> billing_good d d'"
  by (induction rule: system_step.induct) (auto intro: billing_step_good checkout_good worker_step_good)

lemma system_run_kept:
  assumes "system_step\<^sup>*\<^sup>* d d'" "unique_by sub_org (subs d)"
  shows "invoices_kept d d' \<and> unique_by sub_org (subs d')"
  using assms
proof (induction rule: rtranclp_induct)
  case (step d1 d2)
  then show ?case
    using system_step_good [OF step(2)] by (auto simp: billing_good_def sub_moves_def intro: invoices_kept_trans)
qed (simp add: invoices_kept_refl)

text \<open>C24: The invoice guarantees survive everything that happens in billing, in any order (invoice handlers, checkouts,
  gateway events, manual payments, generic webhooks that succeed or fail, cancellation, the jobs of the
  worker): periods of live invoices stay disjoint, redemptions stay linked to their invoices, terms never
  change and status only moves forward.\<close>

theorem system_invariant:
  assumes "system_step\<^sup>*\<^sup>* d d'" "invoices_inv d" "unique_by sub_org (subs d)"
  shows "invoices_inv d' \<and> (\<forall>k i. get_invoice d k = Some i \<longrightarrow>
    (\<exists>j. get_invoice d' k = Some j \<and> invoice_progress i j))"
  using system_run_kept [OF assms(1,3)] assms(2) by (simp add: invoices_kept_def)

text \<open>C25: The subscription of an organization is never removed, and one operation, of a user, of the gateway or of the
  worker, moves its status along the table \<open>_ALLOWED\<close> or not at all: nothing returns to incomplete, and only an
  active subscription becomes past due.\<close>

theorem subscription_moves:
  assumes "system_step d d'" "unique_by sub_org (subs d)" "get_sub d u = Some s"
  shows "\<exists>s'. get_sub d' u = Some s' \<and>
    (sub_status s' = sub_status s \<or> sub_status s' \<in> set (allowed_transitions (sub_status s)))"
  using system_step_good [OF assms(1,2)] assms(3) by (simp add: billing_good_def sub_moves_def)

subsection \<open>A workspace on an annual plan\<close>

definition annual_sub :: subscription where
  "annual_sub = \<lparr>sub_id = 60, sub_org = 9, sub_sku = ''PRO'', sub_status = Active, sub_cycle = Annual,
     sub_period_start = Some 63902908800000000, sub_period_end = Some 63905587199999999,
     sub_cancel_at_period_end = False, sub_cancel_note = [], sub_canceled_at = None, sub_ended_at = None,
     sub_provider = ''manual'', sub_provider_ref = None, sub_created_at = 0, sub_updated_at = 0\<rparr>"

definition sent100 :: invoice where "sent100 = inv100\<lparr>inv_status := Sent, inv_sent_at := Some t0\<rparr>"

definition annual_db :: db where
  "annual_db = invoiced_db\<lparr>invoices := [sent100], subs := [annual_sub],
     memberships := [\<lparr>mem_id = 70, mem_org = 9, mem_user = 1, mem_role = Owner, mem_created_at = 0, mem_updated_at = 0\<rparr>]\<rparr>"

definition due100 :: datetime where "due100 = 63904118400000000"

definition finalized_db :: "int \<Rightarrow> db" where
  "finalized_db days = snd (finalize_periods default_env (due100 + days * day_us) annual_db)"

definition status_of :: "db \<Rightarrow> sub_status option" where "status_of d = map_option sub_status (get_sub d 9)"

lemma finalize_runs: "status_of (finalized_db 6) = Some Active" "status_of (finalized_db 7) = Some PastDue"
    "status_of (finalized_db 45) = Some Canceled"
  by code_simp+

lemma annual_inv: "invoices_inv annual_db" "unique_by sub_org (subs annual_db)"
proof -
  show "invoices_inv annual_db"
    by (simp add: invoices_inv_def annual_db_def invoiced_db_def billing_db_def sent100_def inv100_def red101_def
        invoice_good_def invoice_ok_def linked_def upper_def) code_simp
qed (simp add: annual_db_def)

lemma finalize_step: "worker_step annual_db (finalized_db days)"
  unfolding finalized_db_def by (rule worker_step.finalize) (rule surjective_pairing)

theorem system_invariant_witness:
  "\<exists>j. get_invoice (finalized_db 7) 100 = Some j \<and> invoice_progress sent100 j \<and> invoices_inv (finalized_db 7)"
proof -
  have run: "system_step\<^sup>*\<^sup>* annual_db (finalized_db 7)"
    using system_step.worker [OF finalize_step] by (rule r_into_rtranclp)
  have "get_invoice annual_db 100 = Some sent100" by (simp add: annual_db_def sent100_def inv100_def row_get_def)
  with system_invariant [OF run annual_inv] show ?thesis by auto
qed

theorem subscription_moves_witness:
  "\<exists>s'. get_sub (finalized_db 7) 9 = Some s' \<and> sub_status s' \<in> {Active, PastDue, Canceled}"
proof -
  have "get_sub annual_db 9 = Some annual_sub" by (simp add: annual_db_def annual_sub_def row_get_def)
  from subscription_moves [OF system_step.worker [OF finalize_step] annual_inv(2) this]
  show ?thesis by (auto simp: annual_sub_def)
qed

definition ok_mail :: mailer where "ok_mail i stage email = MailSent"

definition swept :: "mailer \<Rightarrow> int \<Rightarrow> db \<Rightarrow> (nat \<times> nat \<times> nat) \<times> reminder_log \<times> db" where
  "swept mail days d = send_due_reminders mail (due100 + days * day_us) d"

lemma swept_log: "fst (snd (swept ok_mail 8 annual_db)) = [(100, ''overdue_2'', ''a@x'')]"
  by code_simp

theorem reminders_bounded_witness:
  "reminder_run annual_db [(100, ''overdue_2'', ''a@x'')] (snd (snd (swept ok_mail 8 annual_db)))
   \<and> count_list [(100, ''overdue_2'', ''a@x'')] (100 :: uuid, ''overdue_2'', ''a@x'') \<le> MAX_REMINDER_ATTEMPTS"
proof -
  have "reminder_run annual_db ([] @ fst (snd (swept ok_mail 8 annual_db))) (snd (snd (swept ok_mail 8 annual_db)))"
    by (rule reminder_run.sweep [OF reminder_run.nothing, of ok_mail "due100 + 8 * day_us" _ "fst (swept ok_mail 8 annual_db)"])
      (simp add: swept_def)
  then have run: "reminder_run annual_db [(100, ''overdue_2'', ''a@x'')] (snd (snd (swept ok_mail 8 annual_db)))"
    by (simp add: swept_log)
  have ok: "reminders_ok annual_db"
    by (simp add: reminders_ok_def annual_db_def invoiced_db_def billing_db_def empty_db_def)
  from reminders_bounded [OF run ok] run show ?thesis by blast
qed

definition renewal_run :: "uuid \<Rightarrow> db \<Rightarrow> renewal_state result" where
  "renewal_run k d = draft_annual_renewals default_env (\<lambda>_. k) due100 d"

definition inv500 :: invoice where
  "inv500 = renewal_invoice 500 annual_sub ''Acme'' ''SX-202602-0001'' (price_breakdown 500000 True False 0)
     63905587200000000 63937123199999999 0 due100"

definition renewed_db :: db where "renewed_db = annual_db\<lparr>invoices := [sent100, inv500]\<rparr>"

lemma renewal_runs: "renewal_run 500 annual_db = Inr ((1, 0), renewed_db)" "renewal_run 501 renewed_db = Inr ((0, 1), renewed_db)"
  by code_simp+

theorem renewals_once_witness:
  "length (clashing renewed_db 9 Scan 63905587200000000 63937123199999999) = 1"
proof -
  have due: "(annual_sub, ''Acme'') \<in> set (due_renewals default_env due100 annual_db)" 
    by (simp add: due_renewals_def annual_db_def annual_sub_def default_env_def due100_def day_us_def row_get_def
        invoiced_db_def billing_db_def org9_def)
  have per: "renewal_period annual_sub = Inr (63905587200000000, 63937123199999999)" by code_simp
  have "isl (renewal_catalog annual_db ''PRO'') = False" "(case renewal_catalog annual_db ''PRO'' of Inr (Some _) \<Rightarrow> True | _ \<Rightarrow> False)"
    by code_simp+
  then obtain cat where cat: "renewal_catalog annual_db (sub_sku annual_sub) = Inr (Some cat)"
    by (auto simp: annual_sub_def split: sum.splits option.splits)
  from renewals_once [OF renewal_runs [unfolded renewal_run_def] annual_inv(2) due per cat] show ?thesis by (simp add: annual_sub_def)
qed

subsection \<open>Where the jobs do not do what they are meant to\<close>

text \<open>The latest live invoice decides. Once the draft of the renewal exists, an unpaid invoice that is years overdue
  no longer makes the subscription past due.\<close>

lemma renewal_draft_hides_overdue:
  "status_of (snd (finalize_periods default_env (due100 + 400 * day_us) renewed_db)) = Some Active"
  "status_of (snd (finalize_periods default_env (due100 + 400 * day_us) annual_db)) = Some Canceled"
  by code_simp+

text \<open>\<open>scalar_one_or_none\<close> raises on two rows: an organization that holds two live invoices in its next year (two months
  already billed, say) ends the job for every organization, on every run.\<close>

definition two_months :: db where
  "two_months = annual_db\<lparr>invoices := [sent100,
     sent100\<lparr>inv_id := 110, inv_number := ''SX-202602-0001'', inv_period_start := 63905587200000000, inv_period_end := 63908006399999999\<rparr>,
     sent100\<lparr>inv_id := 120, inv_number := ''SX-202603-0001'', inv_period_start := 63908006400000000, inv_period_end := 63910684799999999\<rparr>],
   subs := [annual_sub, annual_sub\<lparr>sub_org := 10\<rparr>], orgs := [org9, org9\<lparr>org_id := 10\<rparr>]\<rparr>"

lemma two_invoices_end_the_job: "map_sum id fst (renewal_run 500 two_months) = Inl MultipleResultsFound"
  by code_simp

text \<open>Three failures, one hour apart, use up a stage: a mail server that is down for an afternoon suppresses the notice.\<close>

definition no_mail :: mailer where "no_mail i stage email = MailRaised ''timeout''"

definition after_outage :: db where
  "after_outage = (let d1 = snd (snd (swept no_mail 8 annual_db)); d2 = snd (snd (swept no_mail 8 d1))
     in snd (snd (swept no_mail 8 d2)))"

lemma outage_suppresses_stage:
  "fst (swept ok_mail 8 after_outage) = (0, 0, 1)" "fst (snd (swept ok_mail 8 after_outage)) = []"
  by code_simp+

text \<open>One attempt whose event cannot be applied ends the reconciliation of all the others.\<close>

lemma reconcile_stops:
  assumes "get_attempt d k = Some a" "build_provider p (att_provider a) False = Inr g" "fetch_status p net a = Inr s"
    "sr_found s" "sr_event s = Some ev" "apply_gateway_event cfg (provider_query p net) sid (gateway_name g) ev now d = (Inl err, d')"
  shows "reconcile cfg p net sid now (k # ks) counts d = (Inl (PyError ''MissingGreenlet''), d')"
  using assms by (cases counts) simp

end
