(* ===== verification/AiPricing.thy ===== *)
theory AiPricing
  imports Decimals Rows Calendar
begin

text \<open>
  Prices of the AI gateway (\<open>services/ai_pricing.py\<close>, the pricing half of \<open>services/ai_wallet.py\<close>) and the store
  of exchange rates (\<open>services/ai_fx.py\<close>). USD prices and rates are numbers of millionths (\<open>Numeric(18, 6)\<close>
  columns), an amount in USD is a number of \<open>10^-12\<close>, IDR amounts are integers. Dates are day ordinals.
\<close>

subsection \<open>Exchange rates\<close>

record fx_row =
  fx_rate :: int              \<comment> \<open>millionths of IDR per USD\<close>
  fx_source :: string
  fx_effective_date :: int
  fx_fetched_at :: datetime
  fx_created_by :: "uuid option"

definition fx_latest :: "int \<Rightarrow> fx_row list \<Rightarrow> fx_row option" where
  "fx_latest today rows = first_row (desc_by fx_effective_date (desc_by fx_fetched_at
     (filter (\<lambda>r. fx_effective_date r \<le> today) rows)))"

definition effective_rate :: "int \<Rightarrow> int \<Rightarrow> fx_row list \<Rightarrow> int \<times> string \<times> fx_row option" where   \<comment> \<open>\<open>ai_usd_idr\<close>, today\<close>
  "effective_rate ai_usd_idr today rows = (case fx_latest today rows of
     None \<Rightarrow> (ai_usd_idr * 10 ^ 6, ''env'', None) | Some r \<Rightarrow> (fx_rate r, fx_source r, Some r))"

definition fx_upsert :: "int \<Rightarrow> string \<Rightarrow> int \<Rightarrow> uuid option \<Rightarrow> datetime \<Rightarrow> fx_row list \<Rightarrow> (fx_row \<times> fx_row list) result" where
  "fx_upsert rate source date user now rows =
     (let r = \<lparr>fx_rate = rate, fx_source = source, fx_effective_date = date, fx_fetched_at = now, fx_created_by = user\<rparr> in
      ebind (scalar_one_or_none (filter (\<lambda>x. fx_effective_date x = date) rows)) (\<lambda>found.
      Inr (r, case found of None \<Rightarrow> rows @ [r] | Some _ \<Rightarrow> row_upd fx_effective_date date (\<lambda>_. r) rows)))"

definition fx_set_manual :: "int \<Rightarrow> uuid option \<Rightarrow> datetime \<Rightarrow> fx_row list \<Rightarrow> (fx_row \<times> fx_row list) result" where
  "fx_set_manual rate user now rows = fx_upsert rate ''manual'' (date_of now) user now rows"

definition fx_history :: "nat \<Rightarrow> fx_row list \<Rightarrow> fx_row list" where
  "fx_history limit rows = take limit (desc_by fx_effective_date (desc_by fx_fetched_at rows))"

text \<open>Fetching: the providers in order, each of which answers with a rate and a date or fails with a kind.\<close>

record fx_quote =
  fq_rate :: int
  fq_date :: int
  fq_source :: string

definition fx_source_urls :: "string \<Rightarrow> string \<Rightarrow> string option \<Rightarrow> string list" where
  "fx_source_urls primary fallback url = (case url of Some u \<Rightarrow> [u]
     | None \<Rightarrow> fold (\<lambda>c urls. if strip c \<noteq> [] \<and> strip c \<notin> set urls then urls @ [strip c] else urls) [primary, fallback] [])"

fun fx_fetch_first :: "(string \<Rightarrow> string + fx_quote) \<Rightarrow> string list \<Rightarrow> string list \<Rightarrow> string list + fx_quote" where
  "fx_fetch_first fetch failures [] = Inl failures"
| "fx_fetch_first fetch failures (t # ts) = (case fetch t of
     Inl kind \<Rightarrow> fx_fetch_first fetch (failures @ [kind]) ts | Inr q \<Rightarrow> Inr q)"

subsection \<open>Legacy prices\<close>

text \<open>Decimal division of non-negative numbers with a quotient below \<open>10^28\<close>: the coefficient with 28 digits, and how
  many of them follow the point.\<close>

function quotient_scale :: "int \<Rightarrow> int \<Rightarrow> nat" where
  "quotient_scale n d = (if n \<le> 0 \<or> d * 10 ^ 27 \<le> n then 0 else Suc (quotient_scale (10 * n) d))"
  by pat_completeness auto
termination
proof (relation "measure (\<lambda>(n, d). nat (d * 10 ^ 27 - n))")
  fix n d :: int
  assume "\<not> (n \<le> 0 \<or> d * 10 ^ 27 \<le> n)"
  then show "((10 * n, d), (n, d)) \<in> measure (\<lambda>(n, d). nat (d * 10 ^ 27 - n))" by simp
qed simp

declare quotient_scale.simps [simp del]

definition divide28 :: "int \<Rightarrow> int \<Rightarrow> int \<times> nat" where
  "divide28 n d = (let k = quotient_scale n d in (half_even (n * 10 ^ k) d, k))"

definition quantize6 :: "int \<times> nat \<Rightarrow> int" where   \<comment> \<open>\<open>quantize(USD_6DP, ROUND_HALF_UP)\<close>\<close>
  "quantize6 x = half_up (fst x * 10 ^ 6) (10 ^ snd x)"

definition legacy_idr_per_1k_to_usd_per_1m :: "int \<Rightarrow> int \<Rightarrow> int" where
  "legacy_idr_per_1k_to_usd_per_1m idr_per_1k rate = quantize6 (divide28 (idr_per_1k * 1000 * 10 ^ 6) rate)"

definition legacy_usd_per_1k_to_usd_per_1m :: "int \<Rightarrow> int" where
  "legacy_usd_per_1k_to_usd_per_1m usd_per_1k = usd_per_1k * 1000 * 10 ^ 6"

text \<open>A product with the rate, kept to 28 digits, divided by 1000 and rounded to a whole number.\<close>

definition usd_per_1m_to_idr_per_1k :: "int \<Rightarrow> int \<Rightarrow> int" where
  "usd_per_1m_to_idr_per_1k usd_per_1m rate = half_up (ctx28 (usd_per_1m * rate)) (10 ^ 15)"

definition usd_per_1m_to_legacy_per_1k :: "int \<Rightarrow> int" where
  "usd_per_1m_to_legacy_per_1k usd_per_1m = half_up usd_per_1m (10 ^ 9)"

definition canonical_price_usd :: "int option \<Rightarrow> int \<Rightarrow> int \<Rightarrow> int" where
  "canonical_price_usd stored idr_per_1k rate = (case stored of Some p \<Rightarrow> p
     | None \<Rightarrow> legacy_idr_per_1k_to_usd_per_1m idr_per_1k rate)"

definition canonical_hpp_usd :: "int option \<Rightarrow> int \<Rightarrow> int" where
  "canonical_hpp_usd stored usd_per_1k = (case stored of Some p \<Rightarrow> p | None \<Rightarrow> legacy_usd_per_1k_to_usd_per_1m usd_per_1k)"

definition FX_STALE_DAYS :: int where "FX_STALE_DAYS = 7"

definition fx_stale :: "int option \<Rightarrow> int \<Rightarrow> bool" where
  "fx_stale date today = (case date of None \<Rightarrow> True | Some x \<Rightarrow> FX_STALE_DAYS < today - x)"

subsection \<open>Price snapshots\<close>

record ai_model =
  mdl_id :: uuid
  mdl_public_id :: string
  mdl_provider :: uuid
  mdl_upstream_id :: string
  mdl_hpp_usd_per_1k_in :: int
  mdl_hpp_usd_per_1k_out :: int
  mdl_price_idr_per_1k_in :: int
  mdl_price_idr_per_1k_out :: int
  mdl_price_usd_per_1m_in :: "int option"
  mdl_price_usd_per_1m_out :: "int option"
  mdl_hpp_usd_per_1m_in :: "int option"
  mdl_hpp_usd_per_1m_out :: "int option"
  mdl_max_ctx :: int
  mdl_max_tokens_cap :: int
  mdl_enabled :: bool

record snapshot =
  snap_price_in :: int
  snap_price_out :: int
  snap_hpp_in :: int
  snap_hpp_out :: int
  snap_fx_rate :: int
  snap_fx_source :: string
  snap_fx_date :: "int option"

definition resolve_snapshot :: "int \<Rightarrow> int \<Rightarrow> fx_row list \<Rightarrow> ai_model \<Rightarrow> snapshot" where
  "resolve_snapshot ai_usd_idr today rows m =
     (let (rate, source, row) = effective_rate ai_usd_idr today rows in
      \<lparr>snap_price_in = canonical_price_usd (mdl_price_usd_per_1m_in m) (mdl_price_idr_per_1k_in m) rate,
       snap_price_out = canonical_price_usd (mdl_price_usd_per_1m_out m) (mdl_price_idr_per_1k_out m) rate,
       snap_hpp_in = canonical_hpp_usd (mdl_hpp_usd_per_1m_in m) (mdl_hpp_usd_per_1k_in m),
       snap_hpp_out = canonical_hpp_usd (mdl_hpp_usd_per_1m_out m) (mdl_hpp_usd_per_1k_out m),
       snap_fx_rate = rate, snap_fx_source = source, snap_fx_date = map_option fx_effective_date row\<rparr>)"

subsection \<open>The price of a request\<close>

text \<open>\<open>_usd\<close>: tokens times price per million, every operation in the 28-digit context. The division by a million is
  exact, so the amount in \<open>10^-12\<close> USD is the coefficient itself.\<close>

definition usd_of :: "int \<Rightarrow> int \<Rightarrow> int \<Rightarrow> int \<Rightarrow> int" where
  "usd_of prompt completion price_in price_out =
     ctx28 (ctx28 (max prompt 0 * price_in) + ctx28 (max completion 0 * price_out))"

definition ceil_idr :: "int \<Rightarrow> int \<Rightarrow> int" where
  "ceil_idr usd rate = ceil_div (ctx28 (usd * rate)) (10 ^ 18)"

text \<open>\<open>quantize(USD_12DP)\<close>: the amount has twelve decimals already; the operation fails if it needs more than 28 digits.\<close>

definition quantize12 :: "int \<Rightarrow> int option" where
  "quantize12 usd = (if \<bar>usd\<bar> < 10 ^ 28 then Some usd else None)"

definition billed_usd :: "int \<Rightarrow> int \<Rightarrow> snapshot \<Rightarrow> int option" where
  "billed_usd prompt completion s = quantize12 (usd_of prompt completion (snap_price_in s) (snap_price_out s))"

definition cogs_usd :: "int \<Rightarrow> int \<Rightarrow> snapshot \<Rightarrow> int option" where
  "cogs_usd prompt completion s = quantize12 (usd_of prompt completion (snap_hpp_in s) (snap_hpp_out s))"

definition billed_idr :: "int \<Rightarrow> int \<Rightarrow> snapshot \<Rightarrow> int" where
  "billed_idr prompt completion s = (if max prompt 0 + max completion 0 = 0 then 0
     else ceil_idr (usd_of prompt completion (snap_price_in s) (snap_price_out s)) (snap_fx_rate s))"

definition cogs_idr :: "int \<Rightarrow> int \<Rightarrow> snapshot \<Rightarrow> int" where
  "cogs_idr prompt completion s = (if max prompt 0 + max completion 0 = 0 then 0
     else ceil_idr (usd_of prompt completion (snap_hpp_in s) (snap_hpp_out s)) (snap_fx_rate s))"

definition hold_idr :: "int \<Rightarrow> snapshot \<Rightarrow> int \<Rightarrow> int" where
  "hold_idr max_tokens s prompt = billed_idr (max prompt 1) (max max_tokens 1) s"

subsection \<open>What a balance affords\<close>

text \<open>The loop both searches run: the largest value of the interval that passes the test, if the test is monotone.\<close>

function bisect :: "(int \<Rightarrow> bool) \<Rightarrow> int \<Rightarrow> int \<Rightarrow> int \<Rightarrow> int" where
  "bisect ok lo hi best = (if hi < lo then best else
     let mid = (lo + hi) div 2 in if ok mid then bisect ok (mid + 1) hi mid else bisect ok lo (mid - 1) best)"
  by pat_completeness auto
termination
  by (relation "measure (\<lambda>(ok, lo, hi, best). nat (hi + 1 - lo))") auto

declare bisect.simps [simp del]

definition affordable_max_tokens :: "int \<Rightarrow> snapshot \<Rightarrow> int \<Rightarrow> int \<Rightarrow> int" where
  "affordable_max_tokens balance s cap prompt = (if balance < 1 \<or> cap < 1 then 0
     else bisect (\<lambda>n. hold_idr n s prompt \<le> balance) 1 cap 0)"

definition affordable_prompt_tokens :: "int \<Rightarrow> snapshot \<Rightarrow> int \<Rightarrow> int" where
  "affordable_prompt_tokens balance s prompt = (let want = max prompt 1 in
     if balance < billed_idr 1 1 s then 0
     else if hold_idr 1 s want \<le> balance then want
     else bisect (\<lambda>n. hold_idr 1 s n \<le> balance) 1 want 1)"

subsection \<open>Monotonicity\<close>

definition priced :: "snapshot \<Rightarrow> bool" where
  "priced s \<longleftrightarrow> 0 \<le> snap_price_in s \<and> 0 \<le> snap_price_out s \<and> 0 \<le> snap_fx_rate s"

lemma usd_of_nonneg: "0 \<le> p \<Longrightarrow> 0 \<le> q \<Longrightarrow> 0 \<le> usd_of a b p q"
  unfolding usd_of_def by (intro ctx28_nonneg add_nonneg_nonneg mult_nonneg_nonneg) auto

lemma usd_of_mono:
  assumes "0 \<le> p" "0 \<le> q" "a \<le> a'" "b \<le> b'"
  shows "usd_of a b p q \<le> usd_of a' b' p q"
proof -
  have "max a 0 * p \<le> max a' 0 * p" "max b 0 * q \<le> max b' 0 * q" using assms by (auto intro!: mult_right_mono)
  then have "ctx28 (max a 0 * p) \<le> ctx28 (max a' 0 * p)" "ctx28 (max b 0 * q) \<le> ctx28 (max b' 0 * q)"
    using assms by (auto intro!: ctx28_mono)
  moreover have "0 \<le> ctx28 (max a 0 * p)" "0 \<le> ctx28 (max b 0 * q)" using assms by (auto intro!: ctx28_nonneg)
  ultimately show ?thesis unfolding usd_of_def by (intro ctx28_mono) linarith+
qed

lemma ceil_idr_mono: "0 \<le> u \<Longrightarrow> u \<le> u' \<Longrightarrow> 0 \<le> r \<Longrightarrow> ceil_idr u r \<le> ceil_idr u' r"
  unfolding ceil_idr_def by (intro ceil_div_mono ctx28_mono mult_right_mono) auto

lemma ceil_idr_nonneg: "0 \<le> u \<Longrightarrow> 0 \<le> r \<Longrightarrow> 0 \<le> ceil_idr u r"
  unfolding ceil_idr_def by (intro ceil_div_nonneg ctx28_nonneg) auto

lemma billed_idr_nonneg: "priced s \<Longrightarrow> 0 \<le> billed_idr a b s"
  by (simp add: billed_idr_def priced_def ceil_idr_nonneg usd_of_nonneg)

lemma billed_idr_mono:
  assumes "priced s" "a \<le> a'" "b \<le> b'"
  shows "billed_idr a b s \<le> billed_idr a' b' s"
proof (cases "max a 0 + max b 0 = 0")
  case True
  then have "billed_idr a b s = 0" by (simp add: billed_idr_def)
  with billed_idr_nonneg [OF assms(1)] show ?thesis by simp
next
  case False
  then have "max a' 0 + max b' 0 \<noteq> 0" using assms by auto
  with False assms show ?thesis
    by (simp add: billed_idr_def priced_def ceil_idr_mono usd_of_nonneg usd_of_mono)
qed

lemma hold_idr_mono: "priced s \<Longrightarrow> n \<le> n' \<Longrightarrow> p \<le> p' \<Longrightarrow> hold_idr n s p \<le> hold_idr n' s p'"
  unfolding hold_idr_def by (rule billed_idr_mono) auto

subsection \<open>The search\<close>

definition greatest_below :: "(int \<Rightarrow> bool) \<Rightarrow> int \<Rightarrow> int \<Rightarrow> int \<Rightarrow> bool" where
  "greatest_below ok best hi m \<longleftrightarrow> (m = best \<or> best < m \<and> m \<le> hi \<and> ok m) \<and> (\<forall>n. m < n \<longrightarrow> n \<le> hi \<longrightarrow> \<not> ok n)"

lemma bisect_greatest:
  assumes "\<And>a b. a \<le> b \<Longrightarrow> ok b \<Longrightarrow> ok a" "best < lo \<or> best = lo \<and> ok lo" "\<And>n. n < lo \<Longrightarrow> best < n \<Longrightarrow> \<not> ok n"
  shows "greatest_below ok best hi (bisect ok lo hi best)"
  using assms
proof (induction ok lo hi best rule: bisect.induct)
  case (1 ok lo hi best)
  show ?case
  proof (cases "hi < lo")
    case True
    then have "bisect ok lo hi best = best" by (subst bisect.simps) simp
    moreover have "\<not> ok n" if "best < n" "n \<le> hi" for n using "1.prems"(3) [of n] that True by simp
    ultimately show ?thesis by (simp add: greatest_below_def)
  next
    case False
    define mid where "mid = (lo + hi) div 2"
    have mid: "lo \<le> mid" "mid \<le> hi" using False by (auto simp: mid_def)
    show ?thesis
    proof (cases "ok mid")
      case yes: True
      have "greatest_below ok mid hi (bisect ok (mid + 1) hi mid)"
        by (rule "1.IH"(1) [OF False mid_def yes "1.prems"(1)]) auto
      moreover have "bisect ok lo hi best = bisect ok (mid + 1) hi mid"
        using False yes by (subst bisect.simps) (simp add: mid_def Let_def)
      ultimately show ?thesis using yes mid "1.prems"(2) by (auto simp: greatest_below_def)
    next
      case no: False
      have up: "\<not> ok n" if "mid \<le> n" for n using no "1.prems"(1) [OF that] by blast
      have "greatest_below ok best (mid - 1) (bisect ok lo (mid - 1) best)"
        by (rule "1.IH"(2) [OF False mid_def no "1.prems"])
      moreover have "bisect ok lo hi best = bisect ok lo (mid - 1) best"
        using False no by (subst bisect.simps) (simp add: mid_def Let_def)
      ultimately show ?thesis using up mid by (fastforce simp: greatest_below_def)
    qed
  qed
qed

subsection \<open>The affordable request\<close>

lemma affordable_search:
  assumes "priced s" "1 \<le> balance" "1 \<le> cap"
  shows "greatest_below (\<lambda>n. hold_idr n s prompt \<le> balance) 0 cap (affordable_max_tokens balance s cap prompt)"
    and "if hold_idr 1 s 1 \<le> balance
       then greatest_below (\<lambda>n. hold_idr 1 s n \<le> balance) 1 (max prompt 1) (affordable_prompt_tokens balance s prompt)
         \<and> hold_idr 1 s (affordable_prompt_tokens balance s prompt) \<le> balance
       else affordable_prompt_tokens balance s prompt = 0"
proof -
  have "greatest_below (\<lambda>n. hold_idr n s prompt \<le> balance) 0 cap (bisect (\<lambda>n. hold_idr n s prompt \<le> balance) 1 cap 0)"
  proof (rule bisect_greatest)
    show "hold_idr a s prompt \<le> balance" if "a \<le> b" "hold_idr b s prompt \<le> balance" for a b
      using hold_idr_mono [OF assms(1) that(1), of prompt prompt] that(2) by simp
  qed auto
  then show "greatest_below (\<lambda>n. hold_idr n s prompt \<le> balance) 0 cap (affordable_max_tokens balance s cap prompt)"
    using assms(2,3) by (simp add: affordable_max_tokens_def)
next
  define want where "want = max prompt 1"
  have one: "hold_idr 1 s 1 = billed_idr 1 1 s" by (simp add: hold_idr_def)
  show "if hold_idr 1 s 1 \<le> balance
       then greatest_below (\<lambda>n. hold_idr 1 s n \<le> balance) 1 (max prompt 1) (affordable_prompt_tokens balance s prompt)
         \<and> hold_idr 1 s (affordable_prompt_tokens balance s prompt) \<le> balance
       else affordable_prompt_tokens balance s prompt = 0"
  proof (cases "hold_idr 1 s 1 \<le> balance")
    case False
    then show ?thesis by (simp add: affordable_prompt_tokens_def one Let_def)
  next
    case True
    have "greatest_below (\<lambda>n. hold_idr 1 s n \<le> balance) 1 want (affordable_prompt_tokens balance s prompt)"
    proof (cases "hold_idr 1 s want \<le> balance")
      case yes: True
      then have "affordable_prompt_tokens balance s prompt = want" using True by (simp add: affordable_prompt_tokens_def one want_def Let_def)
      moreover have "want = 1 \<or> 1 < want" by (auto simp: want_def)
      ultimately show ?thesis using yes by (auto simp: greatest_below_def)
    next
      case no: False
      have mono: "hold_idr 1 s a \<le> balance" if "a \<le> b" "hold_idr 1 s b \<le> balance" for a b
        using hold_idr_mono [OF assms(1) order_refl [of 1] that(1)] that(2) by simp
      have "greatest_below (\<lambda>n. hold_idr 1 s n \<le> balance) 1 want (bisect (\<lambda>n. hold_idr 1 s n \<le> balance) 1 want 1)"
        by (rule bisect_greatest [OF mono]) (use True in auto)
      moreover have "affordable_prompt_tokens balance s prompt = bisect (\<lambda>n. hold_idr 1 s n \<le> balance) 1 want 1"
        using True no by (simp add: affordable_prompt_tokens_def one want_def Let_def)
      ultimately show ?thesis by simp
    qed
    then show ?thesis using True by (auto simp: want_def greatest_below_def)
  qed
qed

text \<open>The two searches are exact (bounds). With non-negative prices and rate, \<open>affordable_max_tokens\<close> is the largest
  number of completion tokens up to the cap whose hold the balance covers, zero if there is none; and
  \<open>affordable_prompt_tokens\<close> is zero exactly if one token each way is too much, and else the largest number of prompt
  tokens up to the wanted one that leaves room for one completion token.\<close>

theorem affordable_exact:
  assumes "priced s" "1 \<le> balance" "1 \<le> cap"
  shows "greatest_below (\<lambda>n. hold_idr n s prompt \<le> balance) 0 cap (affordable_max_tokens balance s cap prompt)
    \<and> (if hold_idr 1 s 1 \<le> balance
       then greatest_below (\<lambda>n. hold_idr 1 s n \<le> balance) 1 (max prompt 1) (affordable_prompt_tokens balance s prompt)
         \<and> hold_idr 1 s (affordable_prompt_tokens balance s prompt) \<le> balance
       else affordable_prompt_tokens balance s prompt = 0)"
  using affordable_search [OF assms, of prompt] by blast

definition tariff :: snapshot where   \<comment> \<open>3 USD and 15 USD per million tokens at 16000 IDR\<close>
  "tariff = \<lparr>snap_price_in = 3000000, snap_price_out = 15000000, snap_hpp_in = 2000000, snap_hpp_out = 10000000,
     snap_fx_rate = 16000000000, snap_fx_source = ''env'', snap_fx_date = None\<rparr>"

end
