(* ===== verification/AiWallet.thy ===== *)
theory AiWallet
  imports AiPricing Json
begin

text \<open>
  The wallet of the AI gateway (\<open>services/ai_wallet.py\<close>), its reaper (\<open>workers/tasks/ai_reservations.py\<close>) and the
  drift gauge (\<open>metrics.py\<close>): one IDR balance per organization, a ledger row for every change of it, reservations
  that hold money while a request runs. A balance changes only through conditional updates, whose row counts the code
  reads. The part of \<open>settle\<close> that holds no row lock yet takes the effect of the transactions that commit in between
  as an argument. Money columns are 32-bit: an update that leaves their range fails in the database.
\<close>

subsection \<open>Rows\<close>

definition int4 :: "int \<Rightarrow> bool" where "int4 n \<longleftrightarrow> - (2 ^ 31) \<le> n \<and> n < 2 ^ 31"

record ai_wallet =
  wal_org :: uuid
  wal_balance :: int

datatype ledger_kind = KTopup | KReserve | KSettleAdjust | KRelease | KManualAdjust | KOpening

record wallet_ledger =
  led_org :: uuid
  led_kind :: ledger_kind
  led_delta :: int
  led_balance_after :: int
  led_reservation :: "uuid option"
  led_usage :: "uuid option"
  led_actor :: "uuid option"

datatype hold_status = HoldOpen | HoldSettled | HoldReleased

record ai_reservation =
  rsv_id :: uuid
  rsv_org :: uuid
  rsv_key :: "uuid option"
  rsv_model :: "string option"
  rsv_hold :: int
  rsv_status :: hold_status
  rsv_price_in :: "int option"
  rsv_price_out :: "int option"
  rsv_hpp_in :: "int option"
  rsv_hpp_out :: "int option"
  rsv_fx_rate :: "int option"
  rsv_fx_source :: "string option"
  rsv_fx_date :: "int option"
  rsv_prompt_est :: "int option"
  rsv_completion_max :: "int option"
  rsv_created :: datetime

record usage_event =
  use_id :: uuid
  use_org :: "uuid option"
  use_user :: "uuid option"
  use_key :: "uuid option"
  use_source :: string
  use_model :: string
  use_provider :: "uuid option"
  use_prompt :: int
  use_completion :: int
  use_cached :: int
  use_ttft :: "int option"
  use_billed_idr :: int
  use_cogs_idr :: int
  use_billed_usd :: "int option"
  use_cogs_usd :: "int option"
  use_snapshot :: "snapshot option"   \<comment> \<open>the seven price and rate columns\<close>
  use_shortfall :: int
  use_missing :: bool
  use_estimated :: bool
  use_latency :: "int option"
  use_http_status :: "int option"
  use_finish :: "string option"
  use_request_id :: "string option"
  use_reservation :: "uuid option"
  use_request :: "json_dict option"
  use_response :: "json_dict option"
  use_created :: datetime

definition USAGE_SOURCES :: "string list" where "USAGE_SOURCES = [''customer'', ''admin_trial'', ''customer_trial'']"

text \<open>The checks of \<open>ai_usage_events\<close>, and the widths of its columns.\<close>

definition usage_ok :: "usage_event \<Rightarrow> bool" where
  "usage_ok e \<longleftrightarrow> use_source e \<in> set USAGE_SOURCES \<and> 0 \<le> use_shortfall e \<and> 0 \<le> use_billed_idr e \<and> 0 \<le> use_cogs_idr e"

definition usage_fits :: "usage_event \<Rightarrow> bool" where
  "usage_fits e \<longleftrightarrow> list_all int4 [use_prompt e, use_completion e, use_cached e, use_billed_idr e, use_cogs_idr e, use_shortfall e]
     \<and> pred_option int4 (use_ttft e) \<and> pred_option int4 (use_latency e) \<and> pred_option int4 (use_http_status e)
     \<and> pred_option (\<lambda>s. length s \<le> 32) (use_finish e) \<and> pred_option (\<lambda>s. length s \<le> 128) (use_request_id e)"

record ai_db =
  ai_orgs :: "uuid list"
  ai_wallets :: "ai_wallet list"
  ai_ledger :: "wallet_ledger list"
  ai_reservations :: "ai_reservation list"
  ai_usage :: "usage_event list"

definition reservation_get :: "uuid \<Rightarrow> ai_db \<Rightarrow> ai_reservation option" where
  "reservation_get rid db = row_get rsv_id rid (ai_reservations db)"

subsection \<open>Statements\<close>

definition get_wallet :: "uuid \<Rightarrow> ai_db \<Rightarrow> ai_wallet option result" where
  "get_wallet org db = scalar_one_or_none (filter (\<lambda>w. wal_org w = org) (ai_wallets db))"

definition get_or_create_wallet :: "uuid \<Rightarrow> ai_db \<Rightarrow> (ai_wallet \<times> ai_db) result" where
  "get_or_create_wallet org db = ebind (get_wallet org db) (\<lambda>found. case found of
     Some w \<Rightarrow> Inr (w, db)
   | None \<Rightarrow> if org \<notin> set (ai_orgs db) then Inl (HTTPError 404 ''Organization not found'')
       else let w = \<lparr>wal_org = org, wal_balance = 0\<rparr> in Inr (w, db\<lparr>ai_wallets := ai_wallets db @ [w]\<rparr>))"

definition balance_idr :: "uuid \<Rightarrow> ai_db \<Rightarrow> int result" where
  "balance_idr org db = ebind (get_wallet org db) (\<lambda>found. case found of
     None \<Rightarrow> Inl NoResultFound | Some w \<Rightarrow> Inr (wal_balance w))"

text \<open>\<open>UPDATE ai_wallets SET balance_idr = balance_idr + amount WHERE organization_id = org\<close>.\<close>

definition credit_wallet :: "uuid \<Rightarrow> int \<Rightarrow> ai_db \<Rightarrow> ai_db result" where
  "credit_wallet org amount db =
     (if list_ex (\<lambda>w. wal_org w = org \<and> \<not> int4 (wal_balance w + amount)) (ai_wallets db) then Inl OperationalError
      else Inr (db\<lparr>ai_wallets := row_upd wal_org org (\<lambda>w. w\<lparr>wal_balance := wal_balance w + amount\<rparr>) (ai_wallets db)\<rparr>))"

text \<open>The same with \<open>balance_idr >= amount\<close> in the condition, and the number of rows it changed.\<close>

definition debit_wallet :: "uuid \<Rightarrow> int \<Rightarrow> ai_db \<Rightarrow> nat \<times> ai_db" where
  "debit_wallet org amount db = (let hit = (\<lambda>w. wal_org w = org \<and> amount \<le> wal_balance w) in
     (count_where hit (ai_wallets db),
      db\<lparr>ai_wallets := map (\<lambda>w. if hit w then w\<lparr>wal_balance := wal_balance w - amount\<rparr> else w) (ai_wallets db)\<rparr>))"

text \<open>\<open>_ledger\<close>: the check on the balance, and one row per kind and reservation.\<close>

definition ledger_add :: "wallet_ledger \<Rightarrow> ai_db \<Rightarrow> ai_db result" where
  "ledger_add l db =
     (if \<not> int4 (led_delta l) \<or> \<not> int4 (led_balance_after l) then Inl OperationalError
      else if led_balance_after l < 0
        \<or> led_reservation l \<noteq> None \<and> list_ex (\<lambda>x. led_kind x = led_kind l \<and> led_reservation x = led_reservation l) (ai_ledger db)
      then Inl IntegrityError else Inr (db\<lparr>ai_ledger := ai_ledger db @ [l]\<rparr>))"

text \<open>The balance is read back and recorded.\<close>

definition ledger_entry :: "uuid \<Rightarrow> ledger_kind \<Rightarrow> int \<Rightarrow> uuid option \<Rightarrow> uuid option \<Rightarrow> uuid option \<Rightarrow> ai_db \<Rightarrow> ai_db result" where
  "ledger_entry org kind delta reservation usage actor db = ebind (balance_idr org db) (\<lambda>balance.
     ledger_add \<lparr>led_org = org, led_kind = kind, led_delta = delta, led_balance_after = balance,
       led_reservation = reservation, led_usage = usage, led_actor = actor\<rparr> db)"

subsection \<open>Operations\<close>

definition topup :: "uuid \<Rightarrow> int \<Rightarrow> ai_db \<Rightarrow> ai_db result" where
  "topup org amount db =
     ebind (raise_if (amount < 1) (HTTPError 422 ''amount_idr must be positive'')) (\<lambda>_.
     ebind (get_or_create_wallet org db) (\<lambda>(wallet, db1).
     ebind (credit_wallet org amount db1)
       (ledger_entry org KTopup amount None None None)))"

record hold_request =
  hrq_key :: "uuid option"
  hrq_model :: "string option"
  hrq_prompt_est :: "int option"
  hrq_completion_max :: "int option"
  hrq_actor :: "uuid option"

definition new_reservation :: "uuid \<Rightarrow> uuid \<Rightarrow> int \<Rightarrow> snapshot \<Rightarrow> hold_request \<Rightarrow> datetime \<Rightarrow> ai_reservation" where
  "new_reservation rid org hold s q now =
     \<lparr>rsv_id = rid, rsv_org = org, rsv_key = hrq_key q, rsv_model = hrq_model q, rsv_hold = hold, rsv_status = HoldOpen,
      rsv_price_in = Some (snap_price_in s), rsv_price_out = Some (snap_price_out s), rsv_hpp_in = Some (snap_hpp_in s),
      rsv_hpp_out = Some (snap_hpp_out s), rsv_fx_rate = Some (snap_fx_rate s), rsv_fx_source = Some (snap_fx_source s),
      rsv_fx_date = snap_fx_date s, rsv_prompt_est = hrq_prompt_est q, rsv_completion_max = hrq_completion_max q,
      rsv_created = now\<rparr>"

definition insert_reservation :: "ai_reservation \<Rightarrow> ai_db \<Rightarrow> ai_db result" where
  "insert_reservation r db =
     (if \<not> int4 (rsv_hold r) then Inl OperationalError
      else if reservation_get (rsv_id r) db \<noteq> None \<or> \<not> pred_option (\<lambda>x. 0 < x) (rsv_fx_rate r) then Inl IntegrityError
      else Inr (db\<lparr>ai_reservations := ai_reservations db @ [r]\<rparr>))"

definition reserve ::
  "uuid \<Rightarrow> uuid \<Rightarrow> int \<Rightarrow> snapshot \<Rightarrow> hold_request \<Rightarrow> datetime \<Rightarrow> ai_db \<Rightarrow> (ai_reservation \<times> ai_db) result" where
  "reserve rid org hold s q now db =
     ebind (raise_if (hold < 1) (HTTPError 422 ''hold must be positive'')) (\<lambda>_.
     ebind (get_or_create_wallet org db) (\<lambda>(wallet, db1).
     let (rowcount, db2) = debit_wallet org hold db1; r = new_reservation rid org hold s q now in
     ebind (raise_if (rowcount \<noteq> 1) (HTTPError 402 ''Insufficient AI wallet balance'')) (\<lambda>_.
     ebind (balance_idr org db2) (\<lambda>balance.
     ebind (insert_reservation r db2) (\<lambda>db3.
     ebind (ledger_add \<lparr>led_org = org, led_kind = KReserve, led_delta = - hold, led_balance_after = balance,
       led_reservation = Some rid, led_usage = None, led_actor = hrq_actor q\<rparr> db3) (\<lambda>db4.
     Inr (r, db4)))))))"

definition close_reservation :: "ai_reservation \<Rightarrow> hold_status \<Rightarrow> ai_db \<Rightarrow> ai_db result" where
  "close_reservation r new db = (let hit = (\<lambda>x. rsv_id x = rsv_id r \<and> rsv_status x = HoldOpen) in
     if count_where hit (ai_reservations db) \<noteq> 1 then Inl (HTTPError 409 ''Reservation is not open'')
     else Inr (db\<lparr>ai_reservations := map (\<lambda>x. if hit x then x\<lparr>rsv_status := new\<rparr> else x) (ai_reservations db)\<rparr>))"

text \<open>\<open>_debit_up_to\<close>: at most two rounds of a read and a conditional debit. \<open>env k\<close> is what other transactions commit
  before the statement \<open>k\<close> of the loop; once a debit has changed the row, its lock keeps them out.\<close>

fun debit_rounds ::
  "nat \<Rightarrow> bool \<Rightarrow> (nat \<Rightarrow> ai_db \<Rightarrow> ai_db) \<Rightarrow> uuid \<Rightarrow> int \<Rightarrow> int \<Rightarrow> ai_db \<Rightarrow> (int \<times> ai_db) result" where
  "debit_rounds 0 locked env org remaining debited db = Inr (debited, db)"
| "debit_rounds (Suc k) locked env org remaining debited db =
     (let db1 = (if locked then db else env (2 * k + 1) db) in
      ebind (balance_idr org db1) (\<lambda>balance.
      let take = min balance remaining in
      if take \<le> 0 then Inr (debited, db1)
      else let db2 = (if locked then db1 else env (2 * k) db1); (rowcount, db3) = debit_wallet org take db2 in
      if rowcount \<noteq> 1 then debit_rounds k locked env org remaining debited db3
      else if remaining - take \<le> 0 then Inr (debited + take, db3)
      else debit_rounds k True env org (remaining - take) (debited + take) db3))"

definition debit_up_to :: "(nat \<Rightarrow> ai_db \<Rightarrow> ai_db) \<Rightarrow> uuid \<Rightarrow> int \<Rightarrow> ai_db \<Rightarrow> (int \<times> ai_db) result" where
  "debit_up_to env org amount db = debit_rounds 2 False env org amount 0 db"

text \<open>The three branches of \<open>settle\<close>: what remains unpaid, and the state.\<close>

definition settle_money ::
  "(nat \<Rightarrow> ai_db \<Rightarrow> ai_db) \<Rightarrow> ai_reservation \<Rightarrow> int \<Rightarrow> uuid option \<Rightarrow> ai_db \<Rightarrow> (int \<times> ai_db) result" where
  "settle_money env r delta usage db =
     (if delta < 0 then
        ebind (credit_wallet (rsv_org r) (- delta) db) (\<lambda>db1.
        ebind (ledger_entry (rsv_org r) KSettleAdjust (- delta) (Some (rsv_id r)) usage None db1) (\<lambda>db2. Inr (0, db2)))
      else if 0 < delta then
        ebind (debit_up_to env (rsv_org r) delta db) (\<lambda>(debited, db1).
        if 0 < debited then
          ebind (ledger_entry (rsv_org r) KSettleAdjust (- debited) (Some (rsv_id r)) usage None db1) (\<lambda>db2.
          Inr (delta - debited, db2))
        else Inr (delta - debited, db1))
      else Inr (0, db))"

definition write_shortfall :: "uuid option \<Rightarrow> int \<Rightarrow> ai_db \<Rightarrow> ai_db result" where
  "write_shortfall usage shortfall db = (case usage of None \<Rightarrow> Inr db
   | Some u \<Rightarrow> if \<not> int4 shortfall then Inl OperationalError
       else Inr (db\<lparr>ai_usage := row_upd use_id u (\<lambda>e. e\<lparr>use_shortfall := shortfall\<rparr>) (ai_usage db)\<rparr>))"

definition settle ::
  "(nat \<Rightarrow> ai_db \<Rightarrow> ai_db) \<Rightarrow> ai_reservation \<Rightarrow> int \<Rightarrow> uuid option \<Rightarrow> ai_db \<Rightarrow> ai_db result" where
  "settle env r billed usage db =
     ebind (close_reservation r HoldSettled db) (\<lambda>db1.
     ebind (settle_money env r (max 0 billed - rsv_hold r) usage db1) (\<lambda>(shortfall, db2).
     write_shortfall usage shortfall db2))"

definition release :: "ai_reservation \<Rightarrow> ai_db \<Rightarrow> ai_db result" where
  "release r db =
     ebind (close_reservation r HoldReleased db) (\<lambda>db1.
     ebind (credit_wallet (rsv_org r) (rsv_hold r) db1)
       (ledger_entry (rsv_org r) KRelease (rsv_hold r) (Some (rsv_id r)) None None))"

definition record_usage :: "usage_event \<Rightarrow> ai_db \<Rightarrow> ai_db result" where   \<comment> \<open>the event as built, cached tokens as given\<close>
  "record_usage e0 db = (let e = e0\<lparr>use_cached := max (use_cached e0) 0\<rparr> in
     if \<not> usage_fits e then Inl OperationalError
     else if \<not> usage_ok e \<or> row_get use_id (use_id e) (ai_usage db) \<noteq> None
       \<or> use_reservation e \<noteq> None \<and> list_ex (\<lambda>x. use_reservation x = use_reservation e) (ai_usage db)
     then Inl IntegrityError else Inr (db\<lparr>ai_usage := ai_usage db @ [e]\<rparr>))"

definition snapshot_from_reservation :: "ai_reservation \<Rightarrow> snapshot option" where
  "snapshot_from_reservation r =
     (case (rsv_price_in r, rsv_price_out r, rsv_hpp_in r, rsv_hpp_out r, rsv_fx_rate r) of
        (Some pi', Some po, Some hi, Some ho, Some rate) \<Rightarrow>
          Some \<lparr>snap_price_in = pi', snap_price_out = po, snap_hpp_in = hi, snap_hpp_out = ho, snap_fx_rate = rate,
            snap_fx_source = (case or_str (rsv_fx_source r) (Some ''legacy_env'') of Some s \<Rightarrow> s | None \<Rightarrow> []),
            snap_fx_date = rsv_fx_date r\<rparr>
      | _ \<Rightarrow> None)"

subsection \<open>The reaper and the drift gauge\<close>

definition STALE_RESERVATION_MINUTES :: int where "STALE_RESERVATION_MINUTES = 20"
definition REAP_BATCH :: nat where "REAP_BATCH = 100"

definition stale_reservations :: "datetime \<Rightarrow> ai_db \<Rightarrow> ai_reservation list" where
  "stale_reservations now db = take REAP_BATCH (sort_key rsv_created (filter
     (\<lambda>r. rsv_status r = HoldOpen \<and> rsv_created r < now - STALE_RESERVATION_MINUTES * 60000000) (ai_reservations db)))"

text \<open>One row of the loop; a row that another transaction closed is skipped.\<close>

definition reap_one :: "ai_reservation \<Rightarrow> nat \<times> int \<times> ai_db \<Rightarrow> (nat \<times> int \<times> ai_db) result" where
  "reap_one r acc = (case acc of (n, refunded, db) \<Rightarrow> (case close_reservation r HoldReleased db of
     Inl e \<Rightarrow> Inr acc
   | Inr db1 \<Rightarrow> ebind (credit_wallet (rsv_org r) (rsv_hold r) db1) (\<lambda>db2.
       ebind (ledger_entry (rsv_org r) KRelease (rsv_hold r) (Some (rsv_id r)) None None db2) (\<lambda>db3.
       Inr (n + 1, refunded + rsv_hold r, db3)))))"

definition reap_stale_reservations :: "datetime \<Rightarrow> ai_db \<Rightarrow> (nat \<times> int \<times> ai_db) result" where
  "reap_stale_reservations now db = efold reap_one (stale_reservations now db) (0, 0, db)"

definition reap_ai_reservations :: "datetime \<Rightarrow> ai_db \<Rightarrow> (nat \<times> int) option \<times> ai_db" where   \<comment> \<open>none: \<open>reap_failed\<close>\<close>
  "reap_ai_reservations now db = (case reap_stale_reservations now db of
     Inl e \<Rightarrow> (None, db) | Inr (n, refunded, db1) \<Rightarrow> (Some (n, refunded), db1))"

definition ledger_total :: "uuid \<Rightarrow> ai_db \<Rightarrow> int" where
  "ledger_total org db = sum_list (map led_delta (filter (\<lambda>l. led_org l = org) (ai_ledger db)))"

definition ledger_drift :: "ai_db \<Rightarrow> int" where
  "ledger_drift db = fold (\<lambda>w. max \<bar>wal_balance w - ledger_total (wal_org w) db\<bar>) (ai_wallets db) 0"

subsection \<open>The invariant\<close>

text \<open>What the constraints of the tables give.\<close>

definition ai_keys_ok :: "ai_db \<Rightarrow> bool" where
  "ai_keys_ok db \<longleftrightarrow> unique_by wal_org (ai_wallets db) \<and> unique_by rsv_id (ai_reservations db)
     \<and> (\<forall>r\<in>set (ai_reservations db). 0 < rsv_hold r) \<and> led_org ` set (ai_ledger db) \<subseteq> wal_org ` set (ai_wallets db)"

text \<open>Every balance is the sum of its ledger, except that the balance of one organization is \<open>x\<close> ahead.\<close>

definition off_by :: "uuid \<Rightarrow> int \<Rightarrow> ai_db \<Rightarrow> bool" where
  "off_by org x db \<longleftrightarrow> ai_keys_ok db \<and> (\<forall>w\<in>set (ai_wallets db). 0 \<le> wal_balance w
     \<and> wal_balance w = ledger_total (wal_org w) db + (if wal_org w = org then x else 0))"

definition ai_inv :: "ai_db \<Rightarrow> bool" where
  "ai_inv db \<longleftrightarrow> ai_keys_ok db \<and> (\<forall>w\<in>set (ai_wallets db). 0 \<le> wal_balance w \<and> wal_balance w = ledger_total (wal_org w) db)"

lemma off_by_zero: "off_by org 0 db = ai_inv db"
  by (simp add: off_by_def ai_inv_def)

lemma ledger_total_none: "org \<notin> led_org ` set (ai_ledger db) \<Longrightarrow> ledger_total org db = 0"
proof -
  assume "org \<notin> led_org ` set (ai_ledger db)"
  then have "filter (\<lambda>l. led_org l = org) (ai_ledger db) = []" by (auto simp: filter_empty_conv)
  then show ?thesis by (simp add: ledger_total_def)
qed

lemma get_wallet_Some: "get_wallet org db = Inr (Some w) \<Longrightarrow> w \<in> set (ai_wallets db) \<and> wal_org w = org"
proof -
  assume "get_wallet org db = Inr (Some w)"
  then have "filter (\<lambda>w. wal_org w = org) (ai_wallets db) = [w]" by (simp add: get_wallet_def errs)
  then have "w \<in> set (filter (\<lambda>w. wal_org w = org) (ai_wallets db))" by simp
  then show ?thesis by simp
qed

lemma get_wallet_None: "get_wallet org db = Inr None \<longleftrightarrow> org \<notin> wal_org ` set (ai_wallets db)"
  by (auto simp: get_wallet_def errs filter_empty_conv)

lemma balance_idr_Inr: "balance_idr org db = Inr b \<Longrightarrow> \<exists>w\<in>set (ai_wallets db). wal_org w = org \<and> wal_balance w = b"
  by (auto simp: balance_idr_def errs split: option.splits dest!: get_wallet_Some intro!: bexI)

lemma get_or_create_inv:
  assumes "ai_inv db" "get_or_create_wallet org db = Inr (w, db1)"
  shows "ai_inv db1 \<and> w \<in> set (ai_wallets db1) \<and> wal_org w = org \<and> ai_reservations db1 = ai_reservations db"
proof -
  from assms(2) obtain found where f: "get_wallet org db = Inr found"
    and r: "(case found of Some w \<Rightarrow> Inr (w, db) | None \<Rightarrow> if org \<notin> set (ai_orgs db) then Inl (HTTPError 404 ''Organization not found'')
       else let w = \<lparr>wal_org = org, wal_balance = 0\<rparr> in Inr (w, db\<lparr>ai_wallets := ai_wallets db @ [w]\<rparr>)) = Inr (w, db1)"
    unfolding get_or_create_wallet_def by (auto simp: errs)
  show ?thesis
  proof (cases found)
    case (Some x)
    with f r assms(1) show ?thesis using get_wallet_Some [of org db x] by auto
  next
    case None
    with f have fresh: "org \<notin> wal_org ` set (ai_wallets db)" by (simp add: get_wallet_None)
    with assms(1) have "org \<notin> led_org ` set (ai_ledger db)" by (auto simp: ai_inv_def ai_keys_ok_def)
    then have z: "ledger_total org db = 0" by (rule ledger_total_none)
    from r None have w: "w = \<lparr>wal_org = org, wal_balance = 0\<rparr>" and db1: "db1 = db\<lparr>ai_wallets := ai_wallets db @ [w]\<rparr>"
      by (auto simp: Let_def split: if_splits)
    have t: "ledger_total o' db1 = ledger_total o' db" for o' unfolding db1 by (simp add: ledger_total_def)
    show ?thesis using assms(1) fresh z unfolding ai_inv_def ai_keys_ok_def t
      by (auto simp: db1 w unique_by_append1)
  qed
qed

lemma image_key_row_upd: "(\<And>r. g (f r) = g r) \<Longrightarrow> g ` set (row_upd key k f rows) = g ` set rows"
  by (metis list.set_map map_key_row_upd)

lemma credit_off_by:
  assumes "off_by org x db" "0 \<le> a" "credit_wallet org a db = Inr db1"
  shows "off_by org (x + a) db1 \<and> ai_reservations db1 = ai_reservations db"
proof -
  from assms(3) have db1: "db1 = db\<lparr>ai_wallets := row_upd wal_org org (\<lambda>w. w\<lparr>wal_balance := wal_balance w + a\<rparr>) (ai_wallets db)\<rparr>"
    by (simp add: credit_wallet_def split: if_splits)
  have t: "ledger_total o' db1 = ledger_total o' db" for o' unfolding db1 by (simp add: ledger_total_def)
  have k: "wal_org ` set (ai_wallets db1) = wal_org ` set (ai_wallets db)" unfolding db1 by (simp add: image_key_row_upd)
  have u: "unique_by wal_org (ai_wallets db1) = unique_by wal_org (ai_wallets db)" unfolding db1 by (simp add: unique_by_row_upd)
  have "ai_keys_ok db1" using assms(1) unfolding ai_keys_ok_def off_by_def k u by (simp add: db1)
  moreover have "0 \<le> wal_balance w \<and> wal_balance w = ledger_total (wal_org w) db1 + (if wal_org w = org then x + a else 0)"
    if "w \<in> set (ai_wallets db1)" for w
    using that assms(1,2) unfolding t off_by_def by (force simp: db1 set_row_upd)
  ultimately have "off_by org (x + a) db1" unfolding off_by_def by blast
  then show ?thesis by (simp add: db1)
qed

lemma debit_off_by:
  assumes "off_by org x db" "0 \<le> a" "debit_wallet org a db = (n, db1)"
  shows "n = 1 \<Longrightarrow> off_by org (x - a) db1" "n \<noteq> 1 \<Longrightarrow> db1 = db" "ai_reservations db1 = ai_reservations db"
    "n = 1 \<longleftrightarrow> (\<exists>w\<in>set (ai_wallets db). wal_org w = org \<and> a \<le> wal_balance w)"
proof -
  define hit :: "ai_wallet \<Rightarrow> bool" where "hit = (\<lambda>w. wal_org w = org \<and> a \<le> wal_balance w)"
  from assms(3) have n: "n = count_where hit (ai_wallets db)"
    and db1: "db1 = db\<lparr>ai_wallets := map (\<lambda>w. if hit w then w\<lparr>wal_balance := wal_balance w - a\<rparr> else w) (ai_wallets db)\<rparr>"
    unfolding debit_wallet_def hit_def [symmetric] Let_def by auto
  have un: "unique_by wal_org (ai_wallets db)" using assms(1) by (simp add: off_by_def ai_keys_ok_def)
  have le1: "count_where hit ws \<le> 1" if "unique_by wal_org ws" for ws
    using that
  proof (induction ws)
    case (Cons w ws)
    have "count_where hit ws = 0" if "hit w" using that Cons.prems by (force simp: count_where_zero hit_def image_iff)
    with Cons show ?case by simp
  qed simp
  have nz: "n = 1 \<longleftrightarrow> (\<exists>w\<in>set (ai_wallets db). hit w)"
  proof -
    have "n = 0 \<or> n = 1" using le1 [OF un] n by linarith
    then show ?thesis using n count_where_zero [of hit "ai_wallets db"] by auto
  qed
  then show "n = 1 \<longleftrightarrow> (\<exists>w\<in>set (ai_wallets db). wal_org w = org \<and> a \<le> wal_balance w)" by (simp add: hit_def)
  show "db1 = db" if "n \<noteq> 1"
  proof -
    have "map (\<lambda>w. if hit w then w\<lparr>wal_balance := wal_balance w - a\<rparr> else w) (ai_wallets db) = ai_wallets db"
      using that nz by (intro map_idI) auto
    then show ?thesis by (simp add: db1)
  qed
  show "ai_reservations db1 = ai_reservations db" by (simp add: db1)
  show "off_by org (x - a) db1" if "n = 1"
  proof -
    from that nz obtain w0 where w0: "w0 \<in> set (ai_wallets db)" "hit w0" by blast
    have only: "hit w" if "w \<in> set (ai_wallets db)" "wal_org w = org" for w
      using unique_byD [OF un that(1) w0(1)] that(2) w0(2) by (simp add: hit_def)
    have t: "ledger_total o' db1 = ledger_total o' db" for o' unfolding db1 by (simp add: ledger_total_def)
    have m: "map wal_org (ai_wallets db1) = map wal_org (ai_wallets db)" by (simp add: db1)
    then have k: "wal_org ` set (ai_wallets db1) = wal_org ` set (ai_wallets db)" by (metis list.set_map)
    from m have u: "unique_by wal_org (ai_wallets db1) = unique_by wal_org (ai_wallets db)" by (simp only: unique_by_def)
    have "ai_keys_ok db1" using assms(1) unfolding ai_keys_ok_def off_by_def k u by (simp add: db1)
    moreover have "0 \<le> wal_balance w \<and> wal_balance w = ledger_total (wal_org w) db1 + (if wal_org w = org then x - a else 0)"
      if "w \<in> set (ai_wallets db1)" for w
    proof -
      from that obtain v where v: "v \<in> set (ai_wallets db)" "w = (if hit v then v\<lparr>wal_balance := wal_balance v - a\<rparr> else v)"
        by (auto simp: db1)
      have "0 \<le> wal_balance v \<and> wal_balance v = ledger_total (wal_org v) db + (if wal_org v = org then x else 0)"
        using assms(1) v(1) unfolding off_by_def by blast
      then show ?thesis unfolding t using v(2) only [OF v(1)] by (auto simp: hit_def split: if_splits)
    qed
    ultimately show ?thesis unfolding off_by_def by blast
  qed
qed

lemma ledger_add_off_by:
  assumes "off_by org (led_delta l) db" "led_org l = org" "org \<in> wal_org ` set (ai_wallets db)" "ledger_add l db = Inr db1"
  shows "ai_inv db1 \<and> ai_reservations db1 = ai_reservations db \<and> ai_wallets db1 = ai_wallets db"
proof -
  from assms(4) have db1: "db1 = db\<lparr>ai_ledger := ai_ledger db @ [l]\<rparr>"
    by (simp add: ledger_add_def split: if_splits)
  have "ledger_total o' db1 = ledger_total o' db + (if o' = org then led_delta l else 0)" for o'
    using assms(2) by (simp add: db1 ledger_total_def)
  moreover have "ai_keys_ok db1" using assms(1-3) by (auto simp: off_by_def ai_keys_ok_def db1)
  ultimately show ?thesis using assms(1) by (auto simp: off_by_def ai_inv_def db1)
qed

lemma ledger_entry_inv:
  assumes "off_by org delta db" "ledger_entry org kind delta res usage actor db = Inr db1"
  shows "ai_inv db1 \<and> ai_reservations db1 = ai_reservations db"
proof -
  from assms(2) obtain b where b: "balance_idr org db = Inr b"
    and a: "ledger_add \<lparr>led_org = org, led_kind = kind, led_delta = delta, led_balance_after = b,
       led_reservation = res, led_usage = usage, led_actor = actor\<rparr> db = Inr db1"
    unfolding ledger_entry_def by (auto simp: errs)
  from balance_idr_Inr [OF b] have "org \<in> wal_org ` set (ai_wallets db)" by auto
  with ledger_add_off_by [OF _ _ _ a] assms(1) show ?thesis by simp
qed

text \<open>Closing a reservation changes one open row, and no money.\<close>

definition close_row :: "uuid \<Rightarrow> hold_status \<Rightarrow> ai_reservation \<Rightarrow> ai_reservation" where
  "close_row rid new x = (if rsv_id x = rid \<and> rsv_status x = HoldOpen then x\<lparr>rsv_status := new\<rparr> else x)"

lemma close_row_fields [simp]: "rsv_id (close_row rid new x) = rsv_id x" "rsv_hold (close_row rid new x) = rsv_hold x"
  "rsv_org (close_row rid new x) = rsv_org x"
  by (simp_all add: close_row_def)

lemma close_reservation_Inr:
  assumes "close_reservation r new db = Inr db1"
  shows "db1 = db\<lparr>ai_reservations := map (close_row (rsv_id r) new) (ai_reservations db)\<rparr>
    \<and> (\<exists>x\<in>set (ai_reservations db). rsv_id x = rsv_id r \<and> rsv_status x = HoldOpen)"
proof -
  define hit :: "ai_reservation \<Rightarrow> bool" where "hit = (\<lambda>x. rsv_id x = rsv_id r \<and> rsv_status x = HoldOpen)"
  from assms have one: "count_where hit (ai_reservations db) = 1"
    and db1: "db1 = db\<lparr>ai_reservations := map (\<lambda>x. if hit x then x\<lparr>rsv_status := new\<rparr> else x) (ai_reservations db)\<rparr>"
    unfolding close_reservation_def hit_def [symmetric] Let_def by (auto split: if_splits)
  have "\<exists>x\<in>set (ai_reservations db). hit x" using one count_where_zero [of hit "ai_reservations db"] by auto
  then show ?thesis by (auto simp: db1 hit_def close_row_def)
qed

lemma close_off_by:
  assumes "off_by org x db" "close_reservation r new db = Inr db1"
  shows "off_by org x db1 \<and> ai_wallets db1 = ai_wallets db \<and> ai_ledger db1 = ai_ledger db"
proof -
  have db1: "db1 = db\<lparr>ai_reservations := map (close_row (rsv_id r) new) (ai_reservations db)\<rparr>"
    using close_reservation_Inr [OF assms(2)] by blast
  have "unique_by rsv_id (ai_reservations db1) = unique_by rsv_id (ai_reservations db)" by (simp add: db1 unique_by_def comp_def)
  then show ?thesis using assms(1) by (auto simp: off_by_def ai_keys_ok_def db1 ledger_total_def)
qed

subsection \<open>Operations keep the invariant\<close>

lemma topup_inv:
  assumes "ai_inv db" "topup org amount db = Inr db1"
  shows "ai_inv db1 \<and> ai_reservations db1 = ai_reservations db"
proof -
  from assms(2) obtain w d1 d2 where a: "1 \<le> amount" and g: "get_or_create_wallet org db = Inr (w, d1)"
    and c: "credit_wallet org amount d1 = Inr d2" and l: "ledger_entry org KTopup amount None None None d2 = Inr db1"
    unfolding topup_def by (auto simp: errs)
  have i: "ai_inv d1 \<and> ai_reservations d1 = ai_reservations db" using get_or_create_inv [OF assms(1) g] by blast
  then have "off_by org 0 d1" by (simp add: off_by_zero)
  from credit_off_by [OF this _ c] a have "off_by org amount d2" "ai_reservations d2 = ai_reservations d1" by auto
  with ledger_entry_inv [OF _ l] i show ?thesis by simp
qed

lemma reserve_Inr:
  assumes "reserve rid org hold s q now db = Inr (r, db1)"
  obtains w d1 d2 b d3 where "1 \<le> hold" "get_or_create_wallet org db = Inr (w, d1)" "debit_wallet org hold d1 = (1, d2)"
    "balance_idr org d2 = Inr b" "r = new_reservation rid org hold s q now" "insert_reservation r d2 = Inr d3"
    "ledger_add \<lparr>led_org = org, led_kind = KReserve, led_delta = - hold, led_balance_after = b,
       led_reservation = Some rid, led_usage = None, led_actor = hrq_actor q\<rparr> d3 = Inr db1"
proof -
  obtain n d2 where d: "\<And>d1. get_or_create_wallet org db = Inr d1 \<Longrightarrow> debit_wallet org hold (snd d1) = (n, d2)"
    by (metis prod.exhaust_sel Inr_inject)
  from assms obtain w d1 where h: "1 \<le> hold" and g: "get_or_create_wallet org db = Inr (w, d1)"
    unfolding reserve_def by (auto simp: errs)
  from assms d [OF g] h g that show ?thesis unfolding reserve_def by (auto simp: errs Let_def)
qed

lemma insert_reservation_Inr:
  "insert_reservation r db = Inr db1 \<Longrightarrow> db1 = db\<lparr>ai_reservations := ai_reservations db @ [r]\<rparr> \<and> reservation_get (rsv_id r) db = None"
  by (auto simp: insert_reservation_def split: if_splits)

lemma reserve_inv:
  assumes "ai_inv db" "reserve rid org hold s q now db = Inr (r, db1)"
  shows "ai_inv db1 \<and> ai_reservations db1 = ai_reservations db @ [r] \<and> reservation_get rid db = None
    \<and> r = new_reservation rid org hold s q now"
  using assms(2)
proof (rule reserve_Inr)
  fix w d1 d2 b d3
  assume h: "1 \<le> hold" and g: "get_or_create_wallet org db = Inr (w, d1)" and d: "debit_wallet org hold d1 = (1, d2)"
    and b: "balance_idr org d2 = Inr b" and r: "r = new_reservation rid org hold s q now" and i: "insert_reservation r d2 = Inr d3"
    and l: "ledger_add \<lparr>led_org = org, led_kind = KReserve, led_delta = - hold, led_balance_after = b,
       led_reservation = Some rid, led_usage = None, led_actor = hrq_actor q\<rparr> d3 = Inr db1"
  have d1: "ai_inv d1" "ai_reservations d1 = ai_reservations db" using get_or_create_inv [OF assms(1) g] by auto
  then have "off_by org 0 d1" by (simp add: off_by_zero)
  note db = debit_off_by [OF this _ d]
  have o2: "off_by org (- hold) d2" and r2: "ai_reservations d2 = ai_reservations db" using db(1,3) h d1(2) by auto
  have d3: "d3 = d2\<lparr>ai_reservations := ai_reservations d2 @ [r]\<rparr>" and fresh: "reservation_get (rsv_id r) d2 = None"
    using insert_reservation_Inr [OF i] by auto
  have rid: "rsv_id r = rid" "rsv_hold r = hold" by (simp_all add: r new_reservation_def)
  have nf: "rid \<notin> rsv_id ` set (ai_reservations d2)" using fresh by (simp add: reservation_get_def row_get_None rid)
  have o3: "off_by org (- hold) d3" using o2 nf h rid
    by (auto simp: off_by_def ai_keys_ok_def d3 unique_by_append1 ledger_total_def)
  from balance_idr_Inr [OF b] have "org \<in> wal_org ` set (ai_wallets d3)" by (auto simp: d3)
  from ledger_add_off_by [OF _ _ this l] o3 have "ai_inv db1" "ai_reservations db1 = ai_reservations d3" by auto
  with fresh rid r2 r show ?thesis by (auto simp: d3 reservation_get_def)
qed

lemma release_inv:
  assumes "ai_inv db" "0 \<le> rsv_hold r" "release r db = Inr db1"
  shows "ai_inv db1 \<and> ai_reservations db1 = map (close_row (rsv_id r) HoldReleased) (ai_reservations db)"
proof -
  from assms(3) obtain d1 d2 where c: "close_reservation r HoldReleased db = Inr d1"
    and w: "credit_wallet (rsv_org r) (rsv_hold r) d1 = Inr d2"
    and l: "ledger_entry (rsv_org r) KRelease (rsv_hold r) (Some (rsv_id r)) None None d2 = Inr db1"
    unfolding release_def by (auto simp: errs)
  have "off_by (rsv_org r) 0 db" using assms(1) by (simp add: off_by_zero)
  with close_off_by [OF _ c] have "off_by (rsv_org r) 0 d1" by blast
  from credit_off_by [OF this assms(2) w] have "off_by (rsv_org r) (rsv_hold r) d2" "ai_reservations d2 = ai_reservations d1" by auto
  with ledger_entry_inv [OF _ l] close_reservation_Inr [OF c] show ?thesis by auto
qed

text \<open>Closed reservations stay as they are.\<close>

definition closed_kept :: "ai_db \<Rightarrow> ai_db \<Rightarrow> bool" where
  "closed_kept d d' \<longleftrightarrow> (\<forall>x\<in>set (ai_reservations d). rsv_status x \<noteq> HoldOpen \<longrightarrow> x \<in> set (ai_reservations d'))"

lemma closed_kept_refl: "ai_reservations d = ai_reservations d' \<Longrightarrow> closed_kept d d'"
  by (simp add: closed_kept_def)

lemma closed_kept_trans: "closed_kept d d' \<Longrightarrow> closed_kept d' d'' \<Longrightarrow> closed_kept d d''"
  by (simp add: closed_kept_def)

lemma closed_kept_append: "ai_reservations d' = ai_reservations d @ rs \<Longrightarrow> closed_kept d d'"
  by (simp add: closed_kept_def)

lemma closed_kept_close: "ai_reservations d' = map (close_row rid new) (ai_reservations d) \<Longrightarrow> closed_kept d d'"
  by (force simp: closed_kept_def close_row_def)

definition good_step :: "ai_db \<Rightarrow> ai_db \<Rightarrow> bool" where
  "good_step d d' \<longleftrightarrow> (ai_inv d \<longrightarrow> ai_inv d' \<and> closed_kept d d')"

lemma good_step_trans: "good_step d d' \<Longrightarrow> good_step d' d'' \<Longrightarrow> good_step d d''"
  by (auto simp: good_step_def intro: closed_kept_trans)

lemma debit_rounds_off_by:
  assumes "\<And>i d. good_step d (env i d)" "off_by org (- debited) db" "\<not> locked \<longrightarrow> debited = 0" "0 \<le> remaining"
    "debit_rounds k locked env org remaining debited db = Inr (t, db1)"
  shows "off_by org (- t) db1 \<and> closed_kept db db1 \<and> debited \<le> t \<and> t \<le> debited + remaining"
  using assms(2-5)
proof (induction k arbitrary: locked remaining debited db)
  case 0
  then show ?case by (simp add: closed_kept_def)
next
  case (Suc k)
  define d1 where "d1 = (if locked then db else env (2 * k + 1) db)"
  define d2 where "d2 = (if locked then d1 else env (2 * k) d1)"
  have e: "off_by org (- debited) (if locked then d else env i d) \<and> closed_kept d (if locked then d else env i d)"
    if "off_by org (- debited) d" for i d
    using that assms(1) [of d i] Suc.prems(2) by (cases locked) (auto simp: off_by_zero good_step_def closed_kept_def)
  have k1: "off_by org (- debited) d1" "closed_kept db d1" using e [OF Suc.prems(1)] by (simp_all add: d1_def)
  have k2: "off_by org (- debited) d2" "closed_kept d1 d2" using e [OF k1(1)] by (simp_all add: d2_def)
  note kept = closed_kept_trans [OF k1(2) k2(2)]
  have step: "debit_rounds (Suc k) locked env org remaining debited db = ebind (balance_idr org d1) (\<lambda>balance.
      if min balance remaining \<le> 0 then Inr (debited, d1)
      else case debit_wallet org (min balance remaining) d2 of (n, d3) \<Rightarrow>
        if n \<noteq> 1 then debit_rounds k locked env org remaining debited d3
        else if remaining - min balance remaining \<le> 0 then Inr (debited + min balance remaining, d3)
        else debit_rounds k True env org (remaining - min balance remaining) (debited + min balance remaining) d3)"
    by (simp only: debit_rounds.simps Let_def d1_def d2_def)
  from Suc.prems(4) obtain balance where b: "balance_idr org d1 = Inr balance"
    unfolding step by (auto simp: errs)
  define amount where "amount = min balance remaining"
  obtain n d3 where d: "debit_wallet org amount d2 = (n, d3)" by (cases "debit_wallet org amount d2")
  have r: "(if amount \<le> 0 then Inr (debited, d1) else if n \<noteq> 1 then debit_rounds k locked env org remaining debited d3
      else if remaining - amount \<le> 0 then Inr (debited + amount, d3)
      else debit_rounds k True env org (remaining - amount) (debited + amount) d3) = Inr (t, db1)"
    using Suc.prems(4) unfolding step b ebind_Inr amount_def [symmetric] d prod.case .
  show ?case
  proof (cases "amount \<le> 0")
    case True
    with r k1 Suc.prems(3) show ?thesis by auto
  next
    case False
    then have a0: "0 \<le> amount" by simp
    note dw = debit_off_by [OF k2(1) a0 d]
    have k3: "closed_kept db d3" using kept closed_kept_refl [OF dw(3)] by (metis closed_kept_def dw(3))
    have le: "amount \<le> remaining" by (simp add: amount_def)
    show ?thesis
    proof (cases "n = 1")
      case no: False
      with r False have "debit_rounds k locked env org remaining debited d3 = Inr (t, db1)" by simp
      from Suc.IH [OF _ Suc.prems(2,3) this] dw(2) [OF no] k2(1) k3 show ?thesis by (auto intro: closed_kept_trans)
    next
      case yes: True
      have o3: "off_by org (- (debited + amount)) d3" using dw(1) [OF yes] by (simp only: minus_add_distrib diff_conv_add_uminus)
      show ?thesis
      proof (cases "remaining - amount \<le> 0")
        case True
        with r False yes o3 k3 a0 le show ?thesis by auto
      next
        case more: False
        with r False yes have "debit_rounds k True env org (remaining - amount) (debited + amount) d3 = Inr (t, db1)" by simp
        from Suc.IH [OF o3 _ _ this] more k3 a0 show ?thesis by (auto intro: closed_kept_trans)
      qed
    qed
  qed
qed

lemma settle_money_inv:
  assumes "\<And>i d. good_step d (env i d)" "ai_inv db" "settle_money env r delta usage db = Inr (shortfall, db1)"
  shows "ai_inv db1 \<and> closed_kept db db1 \<and> 0 \<le> shortfall \<and> shortfall \<le> max 0 delta"
proof -
  have z: "off_by (rsv_org r) 0 db" using assms(2) by (simp add: off_by_zero)
  consider "delta < 0" | "delta = 0" | "0 < delta" by linarith
  then show ?thesis
  proof cases
    case 1
    with assms(3) obtain d1 where c: "credit_wallet (rsv_org r) (- delta) db = Inr d1" and s: "shortfall = 0"
      and l: "ledger_entry (rsv_org r) KSettleAdjust (- delta) (Some (rsv_id r)) usage None d1 = Inr db1"
      unfolding settle_money_def by (auto simp: errs)
    from credit_off_by [OF z _ c] 1 have "off_by (rsv_org r) (- delta) d1" "ai_reservations d1 = ai_reservations db" by auto
    with ledger_entry_inv [OF _ l] s show ?thesis by (auto simp: closed_kept_def)
  next
    case 2
    with assms show ?thesis by (auto simp: settle_money_def closed_kept_def)
  next
    case 3
    with assms(3) obtain t d1 where d: "debit_up_to env (rsv_org r) delta db = Inr (t, d1)"
      and r: "(if 0 < t then ebind (ledger_entry (rsv_org r) KSettleAdjust (- t) (Some (rsv_id r)) usage None d1) (\<lambda>db2.
          Inr (delta - t, db2)) else Inr (delta - t, d1)) = Inr (shortfall, db1)"
      unfolding settle_money_def by (auto simp: errs)
    have u: "off_by (rsv_org r) (- t) d1 \<and> closed_kept db d1 \<and> 0 \<le> t \<and> t \<le> delta"
      using debit_rounds_off_by [OF assms(1) _ _ _ d [unfolded debit_up_to_def]] z 3 by simp
    show ?thesis
    proof (cases "0 < t")
      case True
      with r obtain "ledger_entry (rsv_org r) KSettleAdjust (- t) (Some (rsv_id r)) usage None d1 = Inr db1" "shortfall = delta - t"
        by (auto simp: errs)
      with ledger_entry_inv [of "rsv_org r" "- t" d1] u 3 show ?thesis by (auto simp: closed_kept_def)
    next
      case False
      with u have "t = 0" by simp
      with r u 3 show ?thesis by (auto simp: off_by_zero)
    qed
  qed
qed

lemma write_shortfall_inv:
  assumes "write_shortfall usage n db = Inr db1"
  shows "ai_wallets db1 = ai_wallets db \<and> ai_ledger db1 = ai_ledger db \<and> ai_reservations db1 = ai_reservations db \<and> ai_orgs db1 = ai_orgs db"
  using assms by (auto simp: write_shortfall_def split: option.splits if_splits)

lemma ai_inv_cong:
  "ai_wallets db1 = ai_wallets db \<Longrightarrow> ai_ledger db1 = ai_ledger db \<Longrightarrow> ai_reservations db1 = ai_reservations db \<Longrightarrow> ai_inv db1 = ai_inv db"
  by (simp add: ai_inv_def ai_keys_ok_def ledger_total_def)

lemma settle_good:
  assumes "\<And>i d. good_step d (env i d)" "settle env r billed usage db = Inr db1"
  shows "good_step db db1"
  unfolding good_step_def
proof
  assume inv: "ai_inv db"
  from assms(2) obtain d1 n d2 where c: "close_reservation r HoldSettled db = Inr d1"
    and m: "settle_money env r (max 0 billed - rsv_hold r) usage d1 = Inr (n, d2)" and w: "write_shortfall usage n d2 = Inr db1"
    unfolding settle_def by (auto simp: errs)
  have "ai_inv d1" using close_off_by [of "rsv_org r" 0, OF _ c] inv by (simp add: off_by_zero)
  from settle_money_inv [OF assms(1) this m] have d2: "ai_inv d2" "closed_kept d1 d2" by auto
  moreover have "closed_kept db d1" using close_reservation_Inr [OF c] by (intro closed_kept_close) auto
  ultimately show "ai_inv db1 \<and> closed_kept db db1"
    using write_shortfall_inv [OF w] ai_inv_cong [of db1 d2] by (metis closed_kept_def closed_kept_trans)
qed

lemma release_good: "0 \<le> rsv_hold r \<Longrightarrow> release r db = Inr db1 \<Longrightarrow> good_step db db1"
  unfolding good_step_def using release_inv closed_kept_close by blast

lemma topup_good: "topup org amount db = Inr db1 \<Longrightarrow> good_step db db1"
  unfolding good_step_def using topup_inv closed_kept_refl by metis

lemma reserve_good: "reserve rid org hold s q now db = Inr (r, db1) \<Longrightarrow> good_step db db1"
  unfolding good_step_def using reserve_inv closed_kept_append by blast

lemma record_usage_fields:
  "record_usage e db = Inr db1 \<Longrightarrow> ai_wallets db1 = ai_wallets db \<and> ai_ledger db1 = ai_ledger db
    \<and> ai_reservations db1 = ai_reservations db \<and> ai_orgs db1 = ai_orgs db"
  unfolding record_usage_def Let_def by (auto split: if_splits)

lemma record_usage_good: "record_usage e db = Inr db1 \<Longrightarrow> good_step db db1"
  unfolding good_step_def using record_usage_fields [of e db db1] ai_inv_cong [of db1 db] by (simp add: closed_kept_def)

lemma reap_one_good:
  assumes "reap_one r (n, t, db) = Inr (n', t', db1)" "0 \<le> rsv_hold r"
  shows "good_step db db1"
proof (cases "close_reservation r HoldReleased db")
  case (Inl e)
  with assms(1) show ?thesis by (auto simp: reap_one_def good_step_def closed_kept_def)
next
  case (Inr d1)
  with assms(1) obtain d2 where "credit_wallet (rsv_org r) (rsv_hold r) d1 = Inr d2"
    "ledger_entry (rsv_org r) KRelease (rsv_hold r) (Some (rsv_id r)) None None d2 = Inr db1"
    by (auto simp: reap_one_def errs)
  with Inr have "release r db = Inr db1" by (simp add: release_def)
  with assms(2) show ?thesis by (rule release_good)
qed

lemma reap_fold_good:
  "efold reap_one rs (n, t, db) = Inr (n', t', db1) \<Longrightarrow> \<forall>r\<in>set rs. 0 \<le> rsv_hold r \<Longrightarrow> good_step db db1"
proof (induction rs arbitrary: n t db)
  case Nil
  then show ?case by (simp add: good_step_def closed_kept_def)
next
  case (Cons r rs)
  from Cons.prems(1) obtain n1 t1 d1 where a: "reap_one r (n, t, db) = Inr (n1, t1, d1)"
    and b: "efold reap_one rs (n1, t1, d1) = Inr (n', t', db1)" by (auto simp: errs)
  have "good_step db d1" using reap_one_good [OF a] Cons.prems(2) by simp
  with Cons.IH [OF b] Cons.prems(2) show ?case by (simp add: good_step_trans)
qed

lemma reap_good:
  assumes "reap_stale_reservations now db = Inr (n, t, db1)"
  shows "good_step db db1"
proof (cases "ai_inv db")
  case True
  then have "\<forall>r\<in>set (stale_reservations now db). 0 \<le> rsv_hold r"
    by (force simp: ai_inv_def ai_keys_ok_def stale_reservations_def dest!: in_set_takeD intro: less_imp_le)
  with assms show ?thesis unfolding reap_stale_reservations_def by (rule reap_fold_good)
qed (simp add: good_step_def)

subsection \<open>Runs\<close>

text \<open>What the gateway, the admin and the reaper commit, in any order. A reservation object may be stale: only its id,
  owner and hold agree with a row. What interferes with a \<open>settle\<close> before it holds the lock is itself a run.\<close>

definition object_of :: "ai_reservation \<Rightarrow> ai_db \<Rightarrow> bool" where
  "object_of r db \<longleftrightarrow> list_ex (\<lambda>x. rsv_id x = rsv_id r \<and> rsv_org x = rsv_org r \<and> rsv_hold x = rsv_hold r) (ai_reservations db)"

inductive wallet_run :: "ai_db \<Rightarrow> ai_db \<Rightarrow> bool" where
  run_start: "wallet_run d d"
| run_topup: "wallet_run d0 d \<Longrightarrow> topup org amount d = Inr d' \<Longrightarrow> wallet_run d0 d'"
| run_reserve: "wallet_run d0 d \<Longrightarrow> reserve rid org hold s q now d = Inr (r, d') \<Longrightarrow> wallet_run d0 d'"
| run_usage: "wallet_run d0 d \<Longrightarrow> record_usage e d = Inr d' \<Longrightarrow> wallet_run d0 d'"
| run_settle: "wallet_run d0 d \<Longrightarrow> object_of r d \<Longrightarrow> (\<And>i x. wallet_run x (env i x)) \<Longrightarrow>
    settle env r billed usage d = Inr d' \<Longrightarrow> wallet_run d0 d'"
| run_release: "wallet_run d0 d \<Longrightarrow> object_of r d \<Longrightarrow> release r d = Inr d' \<Longrightarrow> wallet_run d0 d'"
| run_reap: "wallet_run d0 d \<Longrightarrow> reap_ai_reservations now d = (answer, d') \<Longrightarrow> wallet_run d0 d'"

lemma object_hold: "ai_inv d \<Longrightarrow> object_of r d \<Longrightarrow> 0 \<le> rsv_hold r"
  by (force simp: object_of_def list_ex_iff ai_inv_def ai_keys_ok_def)

lemma wallet_run_good: "wallet_run d0 d \<Longrightarrow> good_step d0 d"
proof (induction rule: wallet_run.induct)
  case (run_start d)
  show ?case by (simp add: good_step_def closed_kept_def)
next
  case (run_topup d0 d org amount d')
  then show ?case using topup_good good_step_trans by blast
next
  case (run_reserve d0 d rid org hold s q now r d')
  then show ?case using reserve_good good_step_trans by blast
next
  case (run_usage d0 d e d')
  then show ?case using record_usage_good good_step_trans by blast
next
  case (run_settle d0 d r env billed usage d')
  then show ?case using settle_good good_step_trans by blast
next
  case (run_release d0 d r d')
  show ?case
  proof (cases "ai_inv d")
    case True
    with run_release object_hold have "0 \<le> rsv_hold r" by blast
    with run_release show ?thesis using release_good good_step_trans by blast
  next
    case False
    with run_release.IH show ?thesis by (simp add: good_step_def)
  qed
next
  case (run_reap d0 d now answer d')
  have "good_step d d'"
    using run_reap.hyps(2) reap_good [of now d]
    by (auto simp: reap_ai_reservations_def good_step_def closed_kept_def split: sum.splits)
  with run_reap.IH show ?case by (rule good_step_trans)
qed

lemma ledger_drift_zero: "ai_inv db \<Longrightarrow> ledger_drift db = 0"
proof -
  assume inv: "ai_inv db"
  have "fold (\<lambda>w. max \<bar>wal_balance w - ledger_total (wal_org w) db\<bar>) ws 0 = 0" if "set ws \<subseteq> set (ai_wallets db)" for ws
    using that
  proof (induction ws)
    case (Cons w ws)
    then have "wal_balance w = ledger_total (wal_org w) db" using inv unfolding ai_inv_def by auto
    with Cons show ?case by simp
  qed simp
  then show ?thesis by (simp add: ledger_drift_def)
qed

lemma closed_refused:
  assumes "ai_inv d" "x \<in> set (ai_reservations d)" "rsv_status x \<noteq> HoldOpen" "rsv_id x = rsv_id r"
  shows "close_reservation r new d = Inl (HTTPError 409 ''Reservation is not open'')"
proof -
  have "count_where (\<lambda>x. rsv_id x = rsv_id r \<and> rsv_status x = HoldOpen) (ai_reservations d) = 0"
    using assms unique_byD [of rsv_id "ai_reservations d"] by (force simp: count_where_zero ai_inv_def ai_keys_ok_def)
  then show ?thesis by (simp add: close_reservation_def Let_def)
qed

subsection \<open>The account a wallet implements\<close>

text \<open>What an organization is promised: money that is free, and money held per reservation.\<close>

record account =
  acc_free :: int
  acc_held :: "uuid \<Rightarrow> int option"

definition free_of :: "uuid \<Rightarrow> ai_db \<Rightarrow> int" where
  "free_of org db = (case row_get wal_org org (ai_wallets db) of None \<Rightarrow> 0 | Some w \<Rightarrow> wal_balance w)"

definition held_of :: "uuid \<Rightarrow> ai_db \<Rightarrow> uuid \<Rightarrow> int option" where
  "held_of org db rid = (case reservation_get rid db of None \<Rightarrow> None
     | Some x \<Rightarrow> if rsv_org x = org \<and> rsv_status x = HoldOpen then Some (rsv_hold x) else None)"

definition account_of :: "uuid \<Rightarrow> ai_db \<Rightarrow> account" where
  "account_of org db = \<lparr>acc_free = free_of org db, acc_held = held_of org db\<rparr>"

definition acct_topup :: "int \<Rightarrow> account \<Rightarrow> account option" where
  "acct_topup amount A = (if amount < 1 then None else Some (A\<lparr>acc_free := acc_free A + amount\<rparr>))"

definition acct_reserve :: "uuid \<Rightarrow> int \<Rightarrow> account \<Rightarrow> account option" where
  "acct_reserve rid hold A = (if hold < 1 \<or> acc_free A < hold then None
     else Some (A\<lparr>acc_free := acc_free A - hold, acc_held := (acc_held A)(rid := Some hold)\<rparr>))"

definition acct_release :: "uuid \<Rightarrow> account \<Rightarrow> account option" where
  "acct_release rid A = (case acc_held A rid of None \<Rightarrow> None
     | Some hold \<Rightarrow> Some (A\<lparr>acc_free := acc_free A + hold, acc_held := (acc_held A)(rid := None)\<rparr>))"

text \<open>A request pays what it cost, out of its hold and the free balance; what is left unpaid is the shortfall.\<close>

definition acct_settle :: "uuid \<Rightarrow> int \<Rightarrow> account \<Rightarrow> (account \<times> int) option" where
  "acct_settle rid cost A = (case acc_held A rid of None \<Rightarrow> None
     | Some hold \<Rightarrow> let paid = min cost (hold + acc_free A) in
         Some (A\<lparr>acc_free := acc_free A + hold - paid, acc_held := (acc_held A)(rid := None)\<rparr>, cost - paid))"

lemma free_of_cong: "ai_wallets d = ai_wallets d' \<Longrightarrow> free_of org d = free_of org d'"
  by (simp add: free_of_def)

lemma held_of_cong: "ai_reservations d = ai_reservations d' \<Longrightarrow> held_of org d = held_of org d'"
  by (simp add: held_of_def reservation_get_def fun_eq_iff)

lemma free_of_member: "ai_keys_ok db \<Longrightarrow> w \<in> set (ai_wallets db) \<Longrightarrow> wal_org w = org \<Longrightarrow> free_of org db = wal_balance w"
  using row_get_unique [of wal_org "ai_wallets db" w] by (auto simp: free_of_def ai_keys_ok_def)

lemma ai_inv_wallet: "ai_inv db \<Longrightarrow> w \<in> set (ai_wallets db) \<Longrightarrow> 0 \<le> wal_balance w"
  unfolding ai_inv_def by blast

lemma free_of_nonneg: "ai_inv db \<Longrightarrow> 0 \<le> free_of org db"
proof (cases "row_get wal_org org (ai_wallets db)")
  case (Some w)
  assume "ai_inv db"
  with row_get_Some [OF Some] Some show ?thesis by (simp add: free_of_def ai_inv_wallet)
qed (simp add: free_of_def)

lemma balance_idr_free: "ai_keys_ok db \<Longrightarrow> balance_idr org db = Inr b \<Longrightarrow> b = free_of org db \<and> org \<in> wal_org ` set (ai_wallets db)"
  using balance_idr_Inr [of org db b] free_of_member [of db] by force

lemma get_or_create_cases: "get_or_create_wallet org db = Inr (w, d1) \<Longrightarrow>
    d1 = db \<or> d1 = db\<lparr>ai_wallets := ai_wallets db @ [\<lparr>wal_org = org, wal_balance = 0\<rparr>]\<rparr>"
  unfolding get_or_create_wallet_def by (auto simp: errs Let_def split: option.split_asm if_split_asm)

lemma get_or_create_free:
  assumes "ai_inv db" "get_or_create_wallet org db = Inr (w, d1)"
  shows "free_of o' d1 = free_of o' db \<and> org \<in> wal_org ` set (ai_wallets d1)"
proof -
  have m: "org \<in> wal_org ` set (ai_wallets d1)" using get_or_create_inv [OF assms] by auto
  from get_or_create_cases [OF assms(2)] have "free_of o' d1 = free_of o' db"
    by (elim disjE) (simp_all add: free_of_def row_get_append split: option.split)
  with m show ?thesis by simp
qed

lemma credit_free:
  assumes "credit_wallet org a db = Inr d1" "org \<in> wal_org ` set (ai_wallets db)"
  shows "free_of o' d1 = free_of o' db + (if o' = org then a else 0)"
proof -
  from assms(1) have d1: "d1 = db\<lparr>ai_wallets := row_upd wal_org org (\<lambda>w. w\<lparr>wal_balance := wal_balance w + a\<rparr>) (ai_wallets db)\<rparr>"
    by (simp add: credit_wallet_def split: if_splits)
  have "row_get wal_org org (ai_wallets db) \<noteq> None" using assms(2) by (simp add: row_get_None)
  then show ?thesis by (auto simp: d1 free_of_def row_get_upd split: option.split)
qed

lemma debit_free:
  assumes "ai_keys_ok db" "debit_wallet org a db = (1, d1)"
  shows "a \<le> free_of org db \<and> free_of o' d1 = free_of o' db - (if o' = org then a else 0)"
proof -
  define hit :: "ai_wallet \<Rightarrow> bool" where "hit = (\<lambda>w. wal_org w = org \<and> a \<le> wal_balance w)"
  from assms(2) have n: "count_where hit (ai_wallets db) = 1"
    and d1: "d1 = db\<lparr>ai_wallets := map (\<lambda>w. if hit w then w\<lparr>wal_balance := wal_balance w - a\<rparr> else w) (ai_wallets db)\<rparr>"
    unfolding debit_wallet_def hit_def [symmetric] Let_def by auto
  then obtain w where w: "w \<in> set (ai_wallets db)" "hit w"
    using count_where_zero [of hit "ai_wallets db"] by auto
  then have g: "row_get wal_org org (ai_wallets db) = Some w"
    using row_get_unique [of wal_org "ai_wallets db" w] assms(1) by (auto simp: ai_keys_ok_def hit_def)
  have "free_of o' d1 = free_of o' db - (if o' = org then a else 0)"
  proof (cases "o' = org")
    case True
    with g w show ?thesis by (simp add: d1 free_of_def row_get_map)
  next
    case False
    then have "\<not> hit x" if "row_get wal_org o' (ai_wallets db) = Some x" for x
      using row_get_Some [OF that] by (auto simp: hit_def)
    with False show ?thesis by (auto simp: d1 free_of_def row_get_map split: option.split)
  qed
  moreover have "a \<le> free_of org db" using g w by (simp add: free_of_def hit_def)
  ultimately show ?thesis by simp
qed

lemma ledger_entry_wallets: "ledger_entry org kind delta res usage actor db = Inr d1 \<Longrightarrow> ai_wallets d1 = ai_wallets db
    \<and> ai_reservations d1 = ai_reservations db \<and> ai_usage d1 = ai_usage db \<and> org \<in> wal_org ` set (ai_wallets db)"
  unfolding ledger_entry_def ledger_add_def by (auto simp: errs split: if_splits dest!: balance_idr_Inr)

lemma credit_fields: "credit_wallet org a db = Inr d1 \<Longrightarrow> ai_reservations d1 = ai_reservations db \<and> ai_usage d1 = ai_usage db
    \<and> wal_org ` set (ai_wallets d1) = wal_org ` set (ai_wallets db)"
  by (clarsimp simp: credit_wallet_def image_key_row_upd split: if_split_asm)

text \<open>Closing a reservation empties its hold and no other.\<close>

lemma close_held:
  assumes "ai_keys_ok db" "object_of r db" "close_reservation r new db = Inr d1" "new \<noteq> HoldOpen"
  shows "held_of (rsv_org r) db (rsv_id r) = Some (rsv_hold r)"
    "held_of o' d1 = (if o' = rsv_org r then (held_of o' db)(rsv_id r := None) else held_of o' db)"
proof -
  from close_reservation_Inr [OF assms(3)] obtain x where d1: "ai_reservations d1 = map (close_row (rsv_id r) new) (ai_reservations db)"
    and x: "x \<in> set (ai_reservations db)" "rsv_id x = rsv_id r" "rsv_status x = HoldOpen" by auto
  from assms(2) obtain y where y: "y \<in> set (ai_reservations db)" "rsv_id y = rsv_id r" "rsv_org y = rsv_org r" "rsv_hold y = rsv_hold r"
    by (auto simp: object_of_def list_ex_iff)
  have "x = y" using unique_byD [of rsv_id "ai_reservations db" x y] assms(1) x y by (simp add: ai_keys_ok_def)
  then have g: "reservation_get (rsv_id r) db = Some x" "rsv_org x = rsv_org r" "rsv_hold x = rsv_hold r"
    using row_get_unique [of rsv_id "ai_reservations db" x] assms(1) x y by (auto simp: reservation_get_def ai_keys_ok_def)
  then show "held_of (rsv_org r) db (rsv_id r) = Some (rsv_hold r)" by (simp add: held_of_def x)
  have m: "reservation_get k d1 = map_option (close_row (rsv_id r) new) (reservation_get k db)" for k
    by (simp add: reservation_get_def d1 row_get_map)
  have other: "close_row (rsv_id r) new z = z" if "reservation_get k db = Some z" "k \<noteq> rsv_id r" for k z
    using row_get_Some [OF that(1) [unfolded reservation_get_def]] that(2) by (simp add: close_row_def)
  show "held_of o' d1 = (if o' = rsv_org r then (held_of o' db)(rsv_id r := None) else held_of o' db)"
  proof
    fix k
    show "held_of o' d1 k = (if o' = rsv_org r then (held_of o' db)(rsv_id r := None) else held_of o' db) k"
    proof (cases "k = rsv_id r")
      case True
      with g x assms(4) show ?thesis by (simp add: held_of_def m close_row_def)
    next
      case False
      then show ?thesis by (auto simp: held_of_def m other split: option.split)
    qed
  qed
qed

lemma account_of_eq: "free_of org d = f \<Longrightarrow> held_of org d = h \<Longrightarrow> account_of org d = \<lparr>acc_free = f, acc_held = h\<rparr>"
  by (simp add: account_of_def)

lemma topup_refines:
  assumes "ai_inv db" "topup org amount db = Inr d1"
  shows "acct_topup amount (account_of org db) = Some (account_of org d1)" "o' \<noteq> org \<Longrightarrow> account_of o' d1 = account_of o' db"
proof -
  from assms(2) obtain w e1 e2 where a: "1 \<le> amount" and g: "get_or_create_wallet org db = Inr (w, e1)"
    and c: "credit_wallet org amount e1 = Inr e2" and l: "ledger_entry org KTopup amount None None None e2 = Inr d1"
    unfolding topup_def by (auto simp: errs)
  have f: "free_of k d1 = free_of k db + (if k = org then amount else 0)" for k
    using get_or_create_free [OF assms(1) g] credit_free [OF c, of k] free_of_cong [of d1 e2 k] ledger_entry_wallets [OF l] by simp
  have h: "held_of k d1 = held_of k db" for k
    using topup_inv [OF assms] by (intro held_of_cong) simp
  show "acct_topup amount (account_of org db) = Some (account_of org d1)" using a by (simp add: acct_topup_def account_of_def f h)
  show "account_of o' d1 = account_of o' db" if "o' \<noteq> org" using that by (simp add: account_of_def f h)
qed

lemma reserve_refines:
  assumes "ai_inv db" "reserve rid org hold s q now db = Inr (r, d1)"
  shows "acct_reserve rid hold (account_of org db) = Some (account_of org d1)" "o' \<noteq> org \<Longrightarrow> account_of o' d1 = account_of o' db"
proof -
  obtain w e1 e2 b e3 where h1: "1 \<le> hold" and g: "get_or_create_wallet org db = Inr (w, e1)" and dw: "debit_wallet org hold e1 = (1, e2)"
    and i: "insert_reservation r e2 = Inr e3" and l: "ledger_add \<lparr>led_org = org, led_kind = KReserve, led_delta = - hold,
      led_balance_after = b, led_reservation = Some rid, led_usage = None, led_actor = hrq_actor q\<rparr> e3 = Inr d1"
    using assms(2) by (rule reserve_Inr)
  have k1: "ai_keys_ok e1" using get_or_create_inv [OF assms(1) g] by (simp add: ai_inv_def)
  have "ai_wallets d1 = ai_wallets e2" using l insert_reservation_Inr [OF i] by (auto simp: ledger_add_def split: if_split_asm)
  then have f: "free_of k d1 = free_of k db - (if k = org then hold else 0)" and le: "hold \<le> free_of org db" for k
    using get_or_create_free [OF assms(1) g] debit_free [OF k1 dw, of k] free_of_cong [of d1 e2 k] by auto
  have res: "ai_reservations d1 = ai_reservations db @ [r]" "reservation_get rid db = None" "r = new_reservation rid org hold s q now"
    using reserve_inv [OF assms] by auto
  have h: "held_of k d1 = (if k = org then (held_of k db)(rid := Some hold) else held_of k db)" for k
  proof
    fix x
    show "held_of k d1 x = (if k = org then (held_of k db)(rid := Some hold) else held_of k db) x"
      using res(2) by (auto simp: held_of_def reservation_get_def res(1) row_get_append res(3) new_reservation_def split: option.split)
  qed
  show "acct_reserve rid hold (account_of org db) = Some (account_of org d1)" using h1 le by (simp add: acct_reserve_def account_of_def f h)
  show "account_of o' d1 = account_of o' db" if "o' \<noteq> org" using that by (simp add: account_of_def f h)
qed

lemma release_refines:
  assumes "ai_inv db" "object_of r db" "release r db = Inr d1"
  shows "acct_release (rsv_id r) (account_of (rsv_org r) db) = Some (account_of (rsv_org r) d1)"
    "o' \<noteq> rsv_org r \<Longrightarrow> account_of o' d1 = account_of o' db"
proof -
  from assms(3) obtain e1 e2 where c: "close_reservation r HoldReleased db = Inr e1"
    and w: "credit_wallet (rsv_org r) (rsv_hold r) e1 = Inr e2"
    and l: "ledger_entry (rsv_org r) KRelease (rsv_hold r) (Some (rsv_id r)) None None e2 = Inr d1"
    unfolding release_def by (auto simp: errs)
  have keys: "ai_keys_ok db" using assms(1) by (simp add: ai_inv_def)
  note ch = close_held [OF keys assms(2) c]
  note lw = ledger_entry_wallets [OF l]
  have "ai_wallets e1 = ai_wallets db" using close_reservation_Inr [OF c] by auto
  then have f: "free_of k d1 = free_of k db + (if k = rsv_org r then rsv_hold r else 0)" for k
    using credit_free [OF w, of k] lw credit_fields [OF w] free_of_cong [of e1 db k] free_of_cong [of d1 e2 k] by simp
  have h: "held_of k d1 = (if k = rsv_org r then (held_of k db)(rsv_id r := None) else held_of k db)" for k
    using ch(2) [of k] lw credit_fields [OF w] held_of_cong [of d1 e1 k] by simp
  show "acct_release (rsv_id r) (account_of (rsv_org r) db) = Some (account_of (rsv_org r) d1)"
    using ch(1) by (simp add: acct_release_def account_of_def f h)
  show "account_of o' d1 = account_of o' db" if "o' \<noteq> rsv_org r" using that by (simp add: account_of_def f h)
qed

text \<open>Without interference the loop takes what there is, in one round.\<close>

lemma debit_round_alone: "balance_idr org db = Inr b \<Longrightarrow> debit_rounds (Suc k) l (\<lambda>i d. d) org rem deb db =
    (if min b rem \<le> 0 then Inr (deb, db)
     else case debit_wallet org (min b rem) db of (n, d3) \<Rightarrow>
       if n \<noteq> 1 then debit_rounds k l (\<lambda>i d. d) org rem deb d3
       else if rem - min b rem \<le> 0 then Inr (deb + min b rem, d3)
       else debit_rounds k True (\<lambda>i d. d) org (rem - min b rem) (deb + min b rem) d3)"
  by (simp only: debit_rounds.simps if_cancel ebind_Inr Let_def)

lemma paid_split:
  fixes c h f :: int
  assumes "0 \<le> h" "0 \<le> f"
  shows "f + h - min c (h + f) = f - min f (c - h)" "c - min c (h + f) = max 0 (c - h) - max 0 (min f (c - h))"
  using assms by linarith+

lemma debit_alone:
  assumes "ai_inv db" "0 < amount" "debit_up_to (\<lambda>i d. d) org amount db = Inr (t, d1)"
  shows "t = min (free_of org db) amount \<and> free_of k d1 = free_of k db - (if k = org then t else 0)
    \<and> ai_reservations d1 = ai_reservations db \<and> ai_usage d1 = ai_usage db"
proof -
  have keys: "ai_keys_ok db" using assms(1) by (simp add: ai_inv_def)
  have z: "off_by org 0 db" using assms(1) by (simp add: off_by_zero)
  have two: "debit_rounds 2 l env o' rem deb d = debit_rounds (Suc (Suc 0)) l env o' rem deb d" for l env o' rem deb d
    by (simp add: numeral_2_eq_2)
  define b where "b = free_of org db"
  from assms(3) obtain b' where "balance_idr org db = Inr b'"
    unfolding debit_up_to_def two by (auto simp: errs)
  with balance_idr_free [OF keys] have bal: "balance_idr org db = Inr b" by (auto simp: b_def)
  obtain w where w: "w \<in> set (ai_wallets db)" "wal_org w = org" "wal_balance w = b"
    using balance_idr_Inr [OF bal] by blast
  then have b0: "0 \<le> b" using assms(1) by (auto simp: ai_inv_def)
  define a where "a = min b amount"
  obtain n d2 where dw: "debit_wallet org a db = (n, d2)" by (cases "debit_wallet org a db")
  show ?thesis
  proof (cases "a \<le> 0")
    case True
    with assms(3) have "t = 0" "d1 = db" unfolding debit_up_to_def two by (simp_all add: bal a_def)
    with True b0 assms(2) show ?thesis by (simp add: a_def b_def min_def split: if_splits)
  next
    case False
    then have "n = 1" using debit_off_by(4) [OF z _ dw] w by (metis a_def linorder_not_less min.cobounded1 order_less_imp_le)
    with dw have dw1: "debit_wallet org a db = (1, d2)" by simp
    note df = debit_free [OF keys dw1]
    have keys2: "ai_keys_ok d2" using debit_off_by(1) [OF z _ dw1] False by (simp add: off_by_def)
    have us: "ai_usage d2 = ai_usage db" "ai_reservations d2 = ai_reservations db" using dw1 by (auto simp: debit_wallet_def Let_def)
    have r: "(if amount - a \<le> 0 then Inr (a, d2) else debit_rounds (Suc 0) True (\<lambda>i d. d) org (amount - a) a d2) = Inr (t, d1)"
      using assms(3) False unfolding debit_up_to_def two debit_round_alone [OF bal] a_def [symmetric] dw1 prod.case
      by (simp del: debit_rounds.simps cong: if_cong)
    have "t = a \<and> d1 = d2"
    proof (cases "amount - a \<le> 0")
      case True
      with r show ?thesis by simp
    next
      case more: False
      then have "a = b" by (simp add: a_def)
      then have "free_of org d2 = 0" using df [of org] by (simp add: b_def)
      moreover from r more obtain b2 where "balance_idr org d2 = Inr b2" by (auto simp: errs)
      ultimately have "balance_idr org d2 = Inr 0" using balance_idr_free [OF keys2] by auto
      with r more show ?thesis by simp
    qed
    with df [of k] us show ?thesis by (simp add: a_def b_def)
  qed
qed

lemma settle_money_alone:
  assumes "ai_inv db" "settle_money (\<lambda>i d. d) r delta usage db = Inr (n, d1)"
  shows "free_of k d1 = free_of k db - (if k = rsv_org r then min (free_of k db) delta else 0)
    \<and> n = max 0 delta - max 0 (min (free_of (rsv_org r) db) delta) \<and> ai_reservations d1 = ai_reservations db"
proof -
  note pos = free_of_nonneg [OF assms(1), of "rsv_org r"]
  consider "delta < 0" | "delta = 0" | "0 < delta" by linarith
  then show ?thesis
  proof cases
    case 1
    with assms(2) obtain e where c: "credit_wallet (rsv_org r) (- delta) db = Inr e" and n: "n = 0"
      and l: "ledger_entry (rsv_org r) KSettleAdjust (- delta) (Some (rsv_id r)) usage None e = Inr d1"
      unfolding settle_money_def by (auto simp: errs)
    have "rsv_org r \<in> wal_org ` set (ai_wallets db)" using ledger_entry_wallets [OF l] credit_fields [OF c] by simp
    with 1 pos n show ?thesis
      using credit_free [OF c, of k] ledger_entry_wallets [OF l] credit_fields [OF c] free_of_cong [of d1 e k] by (simp add: min_def)
  next
    case 2
    with assms(2) pos show ?thesis by (simp add: settle_money_def)
  next
    case 3
    with assms(2) obtain t e where d: "debit_up_to (\<lambda>i d. d) (rsv_org r) delta db = Inr (t, e)"
      and q: "(if 0 < t then ebind (ledger_entry (rsv_org r) KSettleAdjust (- t) (Some (rsv_id r)) usage None e) (\<lambda>db2.
          Inr (delta - t, db2)) else Inr (delta - t, e)) = Inr (n, d1)"
      unfolding settle_money_def by (auto simp: errs)
    have n: "n = delta - t" and l: "ai_wallets d1 = ai_wallets e \<and> ai_reservations d1 = ai_reservations e"
    proof -
      have "n = delta - t \<and> ai_wallets d1 = ai_wallets e \<and> ai_reservations d1 = ai_reservations e"
      proof (cases "0 < t")
        case True
        with q obtain e3 where "ledger_entry (rsv_org r) KSettleAdjust (- t) (Some (rsv_id r)) usage None e = Inr e3" "n = delta - t" "d1 = e3"
          by (auto simp: errs)
        then show ?thesis using ledger_entry_wallets by metis
      next
        case False
        with q show ?thesis by simp
      qed
      then show "n = delta - t" "ai_wallets d1 = ai_wallets e \<and> ai_reservations d1 = ai_reservations e" by simp_all
    qed
    from debit_alone [OF assms(1) 3 d] 3 pos n l show ?thesis using free_of_cong [of d1 e k] by simp
  qed
qed

lemma row_upd_written:
  assumes "\<And>r. P (f r)" "x \<in> set (row_upd key k f rows)" "key x = k"
  shows "P x"
  using assms unfolding set_row_upd by blast

lemma settle_refines:
  assumes "ai_inv db" "object_of r db" "settle (\<lambda>i d. d) r billed usage db = Inr d1"
  shows "\<exists>n. acct_settle (rsv_id r) (max 0 billed) (account_of (rsv_org r) db) = Some (account_of (rsv_org r) d1, n)
      \<and> (\<forall>e\<in>set (ai_usage d1). usage = Some (use_id e) \<longrightarrow> use_shortfall e = n)"
    "o' \<noteq> rsv_org r \<Longrightarrow> account_of o' d1 = account_of o' db"
proof -
  from assms(3) obtain e1 n e2 where c: "close_reservation r HoldSettled db = Inr e1"
    and m: "settle_money (\<lambda>i d. d) r (max 0 billed - rsv_hold r) usage e1 = Inr (n, e2)" and w: "write_shortfall usage n e2 = Inr d1"
    unfolding settle_def by (auto simp: errs)
  have keys: "ai_keys_ok db" using assms(1) by (simp add: ai_inv_def)
  have inv1: "ai_inv e1" using close_off_by [of "rsv_org r" 0, OF _ c] assms(1) by (simp add: off_by_zero)
  have we: "ai_wallets e1 = ai_wallets db" using close_reservation_Inr [OF c] by auto
  note ws = write_shortfall_inv [OF w]
  note ch = close_held [OF keys assms(2) c]
  have short: "\<forall>e\<in>set (ai_usage d1). usage = Some (use_id e) \<longrightarrow> use_shortfall e = n"
  proof (cases usage)
    case (Some u)
    with w have "d1 = e2\<lparr>ai_usage := row_upd use_id u (\<lambda>e. e\<lparr>use_shortfall := n\<rparr>) (ai_usage e2)\<rparr>"
      by (simp add: write_shortfall_def split: if_split_asm)
    then have "ai_usage d1 = row_upd use_id u (\<lambda>e. e\<lparr>use_shortfall := n\<rparr>) (ai_usage e2)" by simp
    then have "use_shortfall e = n" if "e \<in> set (ai_usage d1)" "use_id e = u" for e
      using row_upd_written [of "\<lambda>e. use_shortfall e = n" "\<lambda>e. e\<lparr>use_shortfall := n\<rparr>" e use_id u "ai_usage e2"] that by simp
    with Some show ?thesis by simp
  qed simp
  have hold0: "0 \<le> rsv_hold r" using object_hold [OF assms(1,2)] .
  have fe: "free_of k e1 = free_of k db" for k using we by (rule free_of_cong)
  have f: "free_of k d1 = free_of k db - (if k = rsv_org r then min (free_of k db) (max 0 billed - rsv_hold r) else 0)"
    and n: "n = max 0 (max 0 billed - rsv_hold r) - max 0 (min (free_of (rsv_org r) db) (max 0 billed - rsv_hold r))" for k
  proof -
    have "free_of k d1 = free_of k e2" for k using ws by (intro free_of_cong) simp
    then show "free_of k d1 = free_of k db - (if k = rsv_org r then min (free_of k db) (max 0 billed - rsv_hold r) else 0)"
      using settle_money_alone [OF inv1 m, of k] by (simp only: fe)
    show "n = max 0 (max 0 billed - rsv_hold r) - max 0 (min (free_of (rsv_org r) db) (max 0 billed - rsv_hold r))"
      using settle_money_alone [OF inv1 m] by (simp only: fe)
  qed
  have h: "held_of k d1 = (if k = rsv_org r then (held_of k db)(rsv_id r := None) else held_of k db)" for k
    using ch(2) [of k] ws settle_money_alone [OF inv1 m] held_of_cong [of d1 e1 k] by simp
  have "acct_settle (rsv_id r) (max 0 billed) (account_of (rsv_org r) db) = Some (account_of (rsv_org r) d1, n)"
    using ch(1) unfolding acct_settle_def account_of_def f h n Let_def
    by (simp add: paid_split [OF hold0 free_of_nonneg [OF assms(1), of "rsv_org r"]])
  with short show "\<exists>n. acct_settle (rsv_id r) (max 0 billed) (account_of (rsv_org r) db) = Some (account_of (rsv_org r) d1, n)
      \<and> (\<forall>e\<in>set (ai_usage d1). usage = Some (use_id e) \<longrightarrow> use_shortfall e = n)" by blast
  show "account_of o' d1 = account_of o' db" if "o' \<noteq> rsv_org r" using that by (simp add: account_of_def f h)
qed

text \<open>The operations of one organization, as the code runs them and as the account specifies them.\<close>

datatype wallet_op = OpTopup int | OpReserve uuid int snapshot hold_request datetime
  | OpRelease ai_reservation | OpSettle ai_reservation int "uuid option"

fun run_op :: "uuid \<Rightarrow> wallet_op \<Rightarrow> ai_db \<Rightarrow> ai_db result" where
  "run_op org (OpTopup amount) db = topup org amount db"
| "run_op org (OpReserve rid hold s q now) db = ebind (reserve rid org hold s q now db) (\<lambda>(r, db1). Inr db1)"
| "run_op org (OpRelease r) db = release r db"
| "run_op org (OpSettle r billed usage) db = settle (\<lambda>i d. d) r billed usage db"

fun spec_op :: "wallet_op \<Rightarrow> account \<Rightarrow> account option" where
  "spec_op (OpTopup amount) A = acct_topup amount A"
| "spec_op (OpReserve rid hold s q now) A = acct_reserve rid hold A"
| "spec_op (OpRelease r) A = acct_release (rsv_id r) A"
| "spec_op (OpSettle r billed usage) A = map_option fst (acct_settle (rsv_id r) (max 0 billed) A)"

fun op_of :: "uuid \<Rightarrow> wallet_op \<Rightarrow> ai_db \<Rightarrow> bool" where
  "op_of org (OpRelease r) db = (object_of r db \<and> rsv_org r = org)"
| "op_of org (OpSettle r billed usage) db = (object_of r db \<and> rsv_org r = org)"
| "op_of org _ db = True"

text \<open>C6: The wallet code implements the account (refinement). If an operation of an organization succeeds, then the
  account of that organization changes as specified (a top-up adds, a reservation moves free money into a hold and needs
  enough of it, a release gives the hold back, a settlement charges the cost out of hold and free balance and never more)
  and no other organization's account changes; if the account refuses the operation, so does the code.\<close>

theorem wallet_refines_account:
  assumes "ai_inv db" "op_of org operation db" "run_op org operation db = Inr db1"
  shows "spec_op operation (account_of org db) = Some (account_of org db1) \<and> (\<forall>o'. o' = org \<or> account_of o' db1 = account_of o' db)"
proof (cases operation)
  case (OpTopup amount)
  with assms topup_refines [of db org amount db1] show ?thesis by auto
next
  case (OpReserve rid hold s q now)
  with assms(3) obtain r where "reserve rid org hold s q now db = Inr (r, db1)" by (auto simp: errs)
  from reserve_refines [OF assms(1) this] OpReserve show ?thesis by auto
next
  case (OpRelease r)
  with assms release_refines [of db r db1] show ?thesis by auto
next
  case (OpSettle r billed usage)
  with assms settle_refines [of db r billed usage db1] show ?thesis by auto
qed

text \<open>C5: No wallet is ever overdrawn (invariant). Whatever top-ups, reservations, settlements, releases and reaper
  sweeps commit, also between the statements of a settlement that has no row lock yet, every balance stays non-negative
  and equals the sum of its ledger: the drift gauge reads zero.\<close>

theorem wallet_solvent:
  assumes "ai_inv db" "wallet_run db db1"
  shows "(\<forall>w\<in>set (ai_wallets db1). 0 \<le> wal_balance w \<and> wal_balance w = ledger_total (wal_org w) db1) \<and> ledger_drift db1 = 0"
proof -
  have "ai_inv db1" using wallet_run_good [OF assms(2)] assms(1) by (simp add: good_step_def)
  then show ?thesis using ledger_drift_zero unfolding ai_inv_def by blast
qed

lemma closes:
  assumes "ai_inv db" "settle env r billed usage db = Inr db1 \<or> release r db = Inr db1" "\<And>i d. good_step d (env i d)" "object_of r db"
  shows "ai_inv db1 \<and> (\<exists>x\<in>set (ai_reservations db1). rsv_id x = rsv_id r \<and> rsv_status x \<noteq> HoldOpen)"
proof -
  have c: "\<exists>x\<in>set (ai_reservations e). rsv_id x = rsv_id r \<and> rsv_status x \<noteq> HoldOpen"
    if "close_reservation r new db = Inr e" "new \<noteq> HoldOpen" for new e
  proof -
    from close_reservation_Inr [OF that(1)] obtain x where "ai_reservations e = map (close_row (rsv_id r) new) (ai_reservations db)"
      "x \<in> set (ai_reservations db)" "rsv_id x = rsv_id r" "rsv_status x = HoldOpen" by auto
    then have "close_row (rsv_id r) new x \<in> set (ai_reservations e)" "rsv_status (close_row (rsv_id r) new x) = new"
      by (auto simp: close_row_def)
    with that(2) \<open>rsv_id x = rsv_id r\<close> show ?thesis by (intro bexI) auto
  qed
  from assms(2) show ?thesis
  proof
    assume r: "release r db = Inr db1"
    then obtain e e2 where e: "close_reservation r HoldReleased db = Inr e" and e2: "credit_wallet (rsv_org r) (rsv_hold r) e = Inr e2"
      and l: "ledger_entry (rsv_org r) KRelease (rsv_hold r) (Some (rsv_id r)) None None e2 = Inr db1"
      unfolding release_def by (auto simp: errs)
    have "ai_reservations db1 = ai_reservations e" using credit_fields [OF e2] ledger_entry_wallets [OF l] by simp
    with c [OF e] release_good [OF object_hold [OF assms(1,4)] r] assms(1) show ?thesis by (simp add: good_step_def)
  next
    assume s: "settle env r billed usage db = Inr db1"
    then obtain e n e2 where e: "close_reservation r HoldSettled db = Inr e"
      and m: "settle_money env r (max 0 billed - rsv_hold r) usage e = Inr (n, e2)" and w: "write_shortfall usage n e2 = Inr db1"
      unfolding settle_def by (auto simp: errs)
    have "ai_inv e" using close_off_by [of "rsv_org r" 0, OF _ e] assms(1) by (simp add: off_by_zero)
    from settle_money_inv [OF assms(3) this m] have "closed_kept e e2" by simp
    with c [OF e] write_shortfall_inv [OF w] have "\<exists>x\<in>set (ai_reservations db1). rsv_id x = rsv_id r \<and> rsv_status x \<noteq> HoldOpen"
      unfolding closed_kept_def by force
    with settle_good [OF assms(3) s] assms(1) show ?thesis by (simp add: good_step_def)
  qed
qed

text \<open>A hold is spent or returned exactly once (safety). After a settlement or a release of a reservation, and after
  any further run, every settlement and every release of it is refused with a 409.\<close>

theorem hold_closed_once:
  assumes "ai_inv db" "object_of r db" "settle env r billed usage db = Inr db1 \<or> release r db = Inr db1"
    "\<And>i d. wallet_run d (env i d)" "wallet_run db1 db2"
  shows "settle env' r billed' usage' db2 = Inl (HTTPError 409 ''Reservation is not open'')
    \<and> release r db2 = Inl (HTTPError 409 ''Reservation is not open'')"
proof -
  from closes [OF assms(1,3) _ assms(2)] wallet_run_good [OF assms(4)] obtain x where
    "ai_inv db1" and x: "x \<in> set (ai_reservations db1)" "rsv_id x = rsv_id r" "rsv_status x \<noteq> HoldOpen" by blast
  then have "ai_inv db2" "x \<in> set (ai_reservations db2)"
    using wallet_run_good [OF assms(5)] by (auto simp: good_step_def closed_kept_def)
  from closed_refused [OF this x(3,2)] show ?thesis by (simp add: settle_def release_def)
qed

subsection \<open>A concrete wallet\<close>

definition plain_request :: hold_request where
  "plain_request = \<lparr>hrq_key = None, hrq_model = None, hrq_prompt_est = None, hrq_completion_max = None, hrq_actor = None\<rparr>"

definition held_row :: ai_reservation where "held_row = new_reservation 7 1 300 tariff plain_request 0"

definition wallet0 :: ai_db where   \<comment> \<open>a top-up of 1000 and an open hold of 300\<close>
  "wallet0 = \<lparr>ai_orgs = [1, 2], ai_wallets = [\<lparr>wal_org = 1, wal_balance = 700\<rparr>],
     ai_ledger = [\<lparr>led_org = 1, led_kind = KTopup, led_delta = 1000, led_balance_after = 1000, led_reservation = None, led_usage = None, led_actor = None\<rparr>,
       \<lparr>led_org = 1, led_kind = KReserve, led_delta = - 300, led_balance_after = 700, led_reservation = Some 7, led_usage = None, led_actor = None\<rparr>],
     ai_reservations = [held_row], ai_usage = []\<rparr>"

definition wallet1 :: ai_db where   \<comment> \<open>the hold released\<close>
  "wallet1 = wallet0\<lparr>ai_wallets := [\<lparr>wal_org = 1, wal_balance = 1000\<rparr>],
     ai_ledger := ai_ledger wallet0 @ [\<lparr>led_org = 1, led_kind = KRelease, led_delta = 300, led_balance_after = 1000,
       led_reservation = Some 7, led_usage = None, led_actor = None\<rparr>],
     ai_reservations := [held_row\<lparr>rsv_status := HoldReleased\<rparr>]\<rparr>"

lemma wallet0_inv: "ai_inv wallet0"
  by (simp add: ai_inv_def ai_keys_ok_def wallet0_def ledger_total_def held_row_def new_reservation_def)

lemma wallet0_object: "object_of held_row wallet0"
  by (simp add: object_of_def wallet0_def)

lemma wallet0_release: "release held_row wallet0 = Inr wallet1"
  by (simp add: release_def close_reservation_def wallet0_def wallet1_def held_row_def new_reservation_def credit_wallet_def
      ledger_entry_def balance_idr_def get_wallet_def ledger_add_def row_upd_def int4_def)

lemma wallet_refines_account_witness:
  "acct_release 7 (account_of 1 wallet0) = Some (account_of 1 wallet1) \<and> account_of 2 wallet1 = account_of 2 wallet0"
proof -
  have id: "rsv_id held_row = 7" "rsv_org held_row = 1" by (simp_all add: held_row_def new_reservation_def)
  have "spec_op (OpRelease held_row) (account_of 1 wallet0) = Some (account_of 1 wallet1)
      \<and> (\<forall>o'. o' = 1 \<or> account_of o' wallet1 = account_of o' wallet0)"
    by (rule wallet_refines_account [OF wallet0_inv]) (simp_all add: id wallet0_object wallet0_release)
  then show ?thesis by (auto simp: id dest!: spec [where x = 2])
qed

lemma wallet_solvent_witness: "ledger_drift wallet1 = 0"
  using wallet_solvent [OF wallet0_inv run_release [OF run_start wallet0_object wallet0_release]] by simp

text \<open>A settlement that costs more than the hold takes the rest from the balance; the event keeps what was not paid.\<close>

lemma settle_over_hold: "acct_settle 7 1200 (account_of 1 wallet0) = Some (\<lparr>acc_free = 0, acc_held = \<lambda>_. None\<rparr>, 200)"
  by (simp add: acct_settle_def account_of_def free_of_def held_of_def reservation_get_def row_get_def wallet0_def held_row_def
      new_reservation_def Let_def fun_eq_iff)

end
