(* ===== verification/AiLimits.thy ===== *)
theory AiLimits
  imports Prelude
begin

text \<open>
  The Redis counters of the AI gateway: rate limits per API key (\<open>services/ai_limits.py\<close>) and the circuit breaker per
  provider (\<open>services/ai_breaker.py\<close>). A Redis is a map from keys to a number and an expiry; an expired key reads
  as absent. A function is a sequence of commands: command \<open>i\<close> runs at the instant \<open>clock i\<close>, or fails
  (\<open>None\<close>), which is a \<open>RedisError\<close>. Instants are microseconds.
\<close>

subsection \<open>Redis\<close>

type_synonym instant = int

datatype redis_key = RpmKey uuid | TpmKey uuid | ConcKey uuid | FailsKey uuid | OpenKey uuid

type_synonym redis = "redis_key \<Rightarrow> (int \<times> instant option) option"   \<comment> \<open>value, expiry\<close>

definition live :: "instant \<Rightarrow> redis_key \<Rightarrow> redis \<Rightarrow> (int \<times> instant option) option" where
  "live t k s = (case s k of Some (v, Some e) \<Rightarrow> if e \<le> t then None else Some (v, Some e) | x \<Rightarrow> x)"

definition value_at :: "instant \<Rightarrow> redis_key \<Rightarrow> redis \<Rightarrow> int" where
  "value_at t k s = (case live t k s of None \<Rightarrow> 0 | Some (v, _) \<Rightarrow> v)"

text \<open>\<open>INCRBY\<close> keeps the expiry of a live key and creates an absent one without expiry.\<close>

definition incrby :: "redis_key \<Rightarrow> int \<Rightarrow> instant \<Rightarrow> redis \<Rightarrow> int \<times> redis" where
  "incrby k n t s = (let v = value_at t k s + n in
     (v, s(k := Some (v, case live t k s of None \<Rightarrow> None | Some (_, e) \<Rightarrow> e))))"

definition expire :: "redis_key \<Rightarrow> int \<Rightarrow> instant \<Rightarrow> redis \<Rightarrow> unit \<times> redis" where   \<comment> \<open>seconds\<close>
  "expire k secs t s = ((), case live t k s of None \<Rightarrow> s | Some (v, _) \<Rightarrow> s(k := Some (v, Some (t + secs * 1000000))))"

definition set_ex :: "redis_key \<Rightarrow> int \<Rightarrow> int \<Rightarrow> instant \<Rightarrow> redis \<Rightarrow> unit \<times> redis" where
  "set_ex k v secs t s = ((), s(k := Some (v, Some (t + secs * 1000000))))"

definition del_keys :: "redis_key list \<Rightarrow> instant \<Rightarrow> redis \<Rightarrow> unit \<times> redis" where
  "del_keys ks t s = ((), \<lambda>k. if k \<in> set ks then None else s k)"

definition exists_keys :: "redis_key list \<Rightarrow> instant \<Rightarrow> redis \<Rightarrow> bool list \<times> redis" where   \<comment> \<open>a pipeline of \<open>EXISTS\<close>\<close>
  "exists_keys ks t s = (map (\<lambda>k. live t k s \<noteq> None) ks, s)"

subsection \<open>Sequences of commands\<close>

type_synonym clock = "nat \<Rightarrow> instant option"
type_synonym 'a cmd = "clock \<Rightarrow> nat \<times> redis \<Rightarrow> 'a result \<times> (nat \<times> redis)"

definition cret :: "'a \<Rightarrow> 'a cmd" where "cret x clock st = (Inr x, st)"
definition craise :: "error \<Rightarrow> 'a cmd" where "craise e clock st = (Inl e, st)"

definition cmd :: "(instant \<Rightarrow> redis \<Rightarrow> 'a \<times> redis) \<Rightarrow> 'a cmd" where
  "cmd f clock st = (case st of (i, s) \<Rightarrow> (case clock i of
     None \<Rightarrow> (Inl OperationalError, (Suc i, s))
   | Some t \<Rightarrow> (case f t s of (x, s') \<Rightarrow> (Inr x, (Suc i, s')))))"

definition cbind :: "'a cmd \<Rightarrow> ('a \<Rightarrow> 'b cmd) \<Rightarrow> 'b cmd" where
  "cbind m f clock st = (case m clock st of (Inl e, st') \<Rightarrow> (Inl e, st') | (Inr x, st') \<Rightarrow> f x clock st')"

definition cwhen :: "bool \<Rightarrow> unit cmd \<Rightarrow> unit cmd" where
  "cwhen b m = (if b then m else cret ())"

text \<open>\<open>except redis.RedisError\<close>.\<close>

definition on_redis_error :: "'a cmd \<Rightarrow> 'a cmd \<Rightarrow> 'a cmd" where
  "on_redis_error handler m clock st = (case m clock st of (Inl OperationalError, st') \<Rightarrow> handler clock st' | r \<Rightarrow> r)"

subsection \<open>Rate limits\<close>

record api_key =
  apk_id :: uuid
  apk_org :: uuid
  apk_user :: uuid
  apk_name :: string
  apk_prefix :: string
  apk_hash :: string
  apk_rpm :: int
  apk_tpm :: int
  apk_max_concurrent :: int
  apk_allowed :: "string list"
  apk_active :: bool
  apk_last_used :: "instant option"
  apk_created :: instant

text \<open>The three stages of \<open>acquire\<close>; a refusal takes back what the earlier stages counted.\<close>

definition take_rpm :: "api_key \<Rightarrow> unit cmd" where
  "take_rpm k = cbind (cmd (incrby (RpmKey (apk_id k)) 1)) (\<lambda>rpm.
     cbind (cwhen (rpm = 1) (cmd (expire (RpmKey (apk_id k)) 60))) (\<lambda>_.
     cwhen (apk_rpm k < rpm)
       (cbind (cmd (incrby (RpmKey (apk_id k)) (- 1))) (\<lambda>_. craise (HTTPError 429 ''rate_limit_rpm'')))))"

definition take_tpm :: "api_key \<Rightarrow> int \<Rightarrow> unit cmd" where
  "take_tpm k tokens = cbind (cmd (incrby (TpmKey (apk_id k)) (max tokens 1))) (\<lambda>tpm.
     cbind (cwhen (tpm = max tokens 1) (cmd (expire (TpmKey (apk_id k)) 60))) (\<lambda>_.
     cwhen (apk_tpm k < tpm)
       (cbind (cmd (incrby (TpmKey (apk_id k)) (- max tokens 1))) (\<lambda>_.
        cbind (cmd (incrby (RpmKey (apk_id k)) (- 1))) (\<lambda>_. craise (HTTPError 429 ''rate_limit_tpm''))))))"

definition take_conc :: "api_key \<Rightarrow> int \<Rightarrow> unit cmd" where
  "take_conc k tokens = cbind (cmd (incrby (ConcKey (apk_id k)) 1)) (\<lambda>conc.
     cbind (cmd (expire (ConcKey (apk_id k)) 300)) (\<lambda>_.
     cwhen (apk_max_concurrent k < conc)
       (cbind (cmd (incrby (ConcKey (apk_id k)) (- 1))) (\<lambda>_.
        cbind (cmd (incrby (TpmKey (apk_id k)) (- max tokens 1))) (\<lambda>_.
        cbind (cmd (incrby (RpmKey (apk_id k)) (- 1))) (\<lambda>_. craise (HTTPError 429 ''rate_limit_concurrent'')))))))"

definition acquire :: "api_key \<Rightarrow> int \<Rightarrow> unit cmd" where
  "acquire k tokens = on_redis_error (craise (HTTPError 503 ''rate_limit_unavailable''))
     (cbind (take_rpm k) (\<lambda>_. cbind (take_tpm k tokens) (\<lambda>_. take_conc k tokens)))"

definition release_concurrent :: "uuid \<Rightarrow> unit cmd" where
  "release_concurrent kid = on_redis_error (cret ())
     (cbind (cmd (incrby (ConcKey kid) (- 1))) (\<lambda>v. cwhen (v < 0) (cmd (del_keys [ConcKey kid]))))"

subsection \<open>Circuit breaker\<close>

record breaker_settings =
  brk_threshold :: int
  brk_window :: int       \<comment> \<open>\<open>int(ai_breaker_window_seconds)\<close>\<close>
  brk_cooldown :: int

definition window_seconds :: "breaker_settings \<Rightarrow> int" where "window_seconds b = max 1 (brk_window b)"
definition cooldown_seconds :: "breaker_settings \<Rightarrow> int" where "cooldown_seconds b = max 1 (brk_cooldown b)"

definition note_failure :: "breaker_settings \<Rightarrow> uuid \<Rightarrow> unit cmd" where
  "note_failure b pid = cbind (cmd (incrby (FailsKey pid) 1)) (\<lambda>fails.
     cbind (cmd (expire (FailsKey pid) (window_seconds b))) (\<lambda>_.
     cwhen (brk_threshold b \<le> fails) (cmd (set_ex (OpenKey pid) 1 (cooldown_seconds b)))))"

definition record_success :: "uuid \<Rightarrow> unit cmd" where
  "record_success pid = on_redis_error (cret ()) (cmd (del_keys [FailsKey pid, OpenKey pid]))"

definition record_failure :: "breaker_settings \<Rightarrow> uuid \<Rightarrow> unit cmd" where
  "record_failure b pid = on_redis_error (cret ()) (note_failure b pid)"

definition is_open :: "uuid \<Rightarrow> bool cmd" where
  "is_open pid = on_redis_error (cret False) (cbind (cmd (exists_keys [OpenKey pid])) (\<lambda>r. cret (list_ex id r)))"

text \<open>\<open>list(dict.fromkeys(xs))\<close>.\<close>

definition unique_in_order :: "'a list \<Rightarrow> 'a list" where
  "unique_in_order xs = fold (\<lambda>x ys. if x \<in> set ys then ys else ys @ [x]) xs []"

definition filter_available :: "('c \<Rightarrow> uuid) \<Rightarrow> 'c list \<Rightarrow> 'c list cmd" where
  "filter_available provider cs = (if cs = [] then cret [] else
     let pids = unique_in_order (map provider cs) in
     on_redis_error (cret cs) (cbind (cmd (exists_keys (map OpenKey pids))) (\<lambda>states.
       let blocked = map fst (filter snd (zip pids states)) in
       cret (if length pids \<le> length blocked then cs else filter (\<lambda>c. provider c \<notin> set blocked) cs))))"

subsection \<open>API keys\<close>

text \<open>\<open>services/ai_keys.py\<close>. The random token and the hash are arguments.\<close>

definition KEY_PREFIX :: string where "KEY_PREFIX = ''sx-''"
definition LEGACY_KEY_PREFIX :: string where "LEGACY_KEY_PREFIX = ''sk-sx-''"

definition mint_plaintext :: "string \<Rightarrow> string" where "mint_plaintext token = KEY_PREFIX @ token"
definition key_prefix_of :: "string \<Rightarrow> string" where "key_prefix_of plain = take 16 plain"

definition create_key :: "(string \<Rightarrow> string) \<Rightarrow> string \<Rightarrow> uuid \<Rightarrow> uuid \<Rightarrow> uuid \<Rightarrow> string \<Rightarrow> instant \<Rightarrow> api_key list \<Rightarrow>
    ((api_key \<times> string) \<times> api_key list) result" where
  "create_key hash token kid org user name now keys =
     (let plain = mint_plaintext token;
          row = \<lparr>apk_id = kid, apk_org = org, apk_user = user, apk_name = name, apk_prefix = key_prefix_of plain, apk_hash = hash plain,
            apk_rpm = 60, apk_tpm = 100000, apk_max_concurrent = 2, apk_allowed = [], apk_active = True, apk_last_used = None, apk_created = now\<rparr> in
      if list_ex (\<lambda>k. apk_id k = kid \<or> apk_hash k = hash plain) keys then Inl IntegrityError else Inr ((row, plain), keys @ [row]))"

definition list_keys :: "uuid \<Rightarrow> api_key list \<Rightarrow> api_key list" where
  "list_keys org keys = desc_by apk_created (filter (\<lambda>k. apk_org k = org) keys)"

definition revoke_key :: "uuid \<Rightarrow> uuid \<Rightarrow> api_key list \<Rightarrow> (api_key \<times> api_key list) result" where
  "revoke_key org kid keys =
     ebind (scalar_one_or_none (filter (\<lambda>k. apk_id k = kid \<and> apk_org k = org) keys)) (\<lambda>found.
     ebind (get_or (HTTPError 404 ''API key not found'') found) (\<lambda>row.
     Inr (row\<lparr>apk_active := False\<rparr>, map (\<lambda>k. if apk_id k = apk_id row then k\<lparr>apk_active := False\<rparr> else k) keys)))"

definition authenticate_customer_key :: "(string \<Rightarrow> string) \<Rightarrow> string \<Rightarrow> instant \<Rightarrow> api_key list \<Rightarrow> (api_key \<times> api_key list) result" where
  "authenticate_customer_key hash bearer now keys =
     (let invalid = HTTPError 401 ''Invalid API key'' in
      ebind (raise_if (take 3 bearer \<noteq> KEY_PREFIX \<and> take 6 bearer \<noteq> LEGACY_KEY_PREFIX) invalid) (\<lambda>_.
      ebind (scalar_one_or_none (filter (\<lambda>k. apk_hash k = hash bearer) keys)) (\<lambda>found.
      ebind (get_or invalid found) (\<lambda>row.
      ebind (raise_if (\<not> apk_active row) invalid) (\<lambda>_.
      Inr (row\<lparr>apk_last_used := Some now\<rparr>, map (\<lambda>k. if apk_id k = apk_id row then k\<lparr>apk_last_used := Some now\<rparr> else k) keys))))))"

text \<open>A revoked key authenticates nobody.\<close>

lemma revoked_key_is_refused:
  assumes "revoke_key org kid keys = Inr (row, keys')" "unique_by apk_hash keys" "hash bearer = apk_hash row"
  shows "authenticate_customer_key hash bearer now keys' = Inl (HTTPError 401 ''Invalid API key'')"
proof -
  from assms(1) obtain r where r: "filter (\<lambda>k. apk_id k = kid \<and> apk_org k = org) keys = [r]" "row = r\<lparr>apk_active := False\<rparr>"
    and k': "keys' = map (\<lambda>k. if apk_id k = apk_id r then k\<lparr>apk_active := False\<rparr> else k) keys"
    unfolding revoke_key_def by (auto simp: errs)
  then have "r \<in> set (filter (\<lambda>k. apk_id k = kid \<and> apk_org k = org) keys)" by simp
  then have m: "r \<in> set keys" by simp
  have "unique_by apk_hash ks \<Longrightarrow> r \<in> set ks \<Longrightarrow> filter (\<lambda>k. apk_hash k = apk_hash r) ks = [r]" for ks
    by (induction ks) (auto simp: filter_empty_conv image_iff)
  from this [OF assms(2) m] have f: "filter (\<lambda>k. apk_hash k = apk_hash r) keys = [r]" .
  have "filter (\<lambda>k. apk_hash k = hash bearer) keys' = map (\<lambda>k. if apk_id k = apk_id r then k\<lparr>apk_active := False\<rparr> else k)
      (filter (\<lambda>k. apk_hash k = apk_hash r) keys)"
    unfolding k' filter_map using assms(3) r(2) by (auto simp: comp_def intro!: arg_cong [where f = "map _"] filter_cong)
  then have "filter (\<lambda>k. apk_hash k = hash bearer) keys' = [r\<lparr>apk_active := False\<rparr>]" by (simp add: f)
  then show ?thesis by (simp add: authenticate_customer_key_def Let_def raise_if_def)
qed

subsection \<open>Counters\<close>

lemma value_incrby: "value_at t k' (snd (incrby k n t s)) = (if k' = k then value_at t k s + n else value_at t k' s)"
  by (auto simp: incrby_def value_at_def live_def Let_def split: option.split prod.split)

lemma fst_incrby: "fst (incrby k n t s) = value_at t k s + n"
  by (simp add: incrby_def Let_def)

lemma value_expire: "0 < secs \<Longrightarrow> value_at t k' (snd (expire k secs t s)) = value_at t k' s"
  by (auto simp: expire_def value_at_def live_def split: option.split prod.split)

text \<open>A function whose commands all run, within one instant.\<close>

definition at :: "instant \<Rightarrow> clock" where "at t i = Some t"

lemma cmd_at: "cmd f (at t) (i, s) = (Inr (fst (f t s)), (Suc i, snd (f t s)))"
  by (simp add: cmd_def at_def split: prod.split)

lemma cwhen_at: "cwhen b m (at t) (i, s) = (if b then m (at t) (i, s) else (Inr (), (i, s)))"
  by (simp add: cwhen_def cret_def)

definition admitted :: "instant \<Rightarrow> api_key \<Rightarrow> int \<Rightarrow> redis \<Rightarrow> bool" where
  "admitted t k tokens s \<longleftrightarrow> value_at t (RpmKey (apk_id k)) s + 1 \<le> apk_rpm k
     \<and> value_at t (TpmKey (apk_id k)) s + max tokens 1 \<le> apk_tpm k
     \<and> value_at t (ConcKey (apk_id k)) s + 1 \<le> apk_max_concurrent k"

text \<open>A request is admitted exactly when it fits the three limits of its key (functional). It then counts as one
  request, its tokens and one stream; a refused request is answered 429 and leaves every counter as it was.\<close>

theorem acquire_exact:
  "\<exists>j s'. (if admitted t k tokens s
     then acquire k tokens (at t) (i, s) = (Inr (), (j, s')) \<and> (\<forall>k'. value_at t k' s' = value_at t k' s
       + (if k' = RpmKey (apk_id k) then 1 else if k' = TpmKey (apk_id k) then max tokens 1 else if k' = ConcKey (apk_id k) then 1 else 0))
     else (\<exists>d. acquire k tokens (at t) (i, s) = (Inl (HTTPError 429 d), (j, s'))) \<and> (\<forall>k'. value_at t k' s' = value_at t k' s))"
proof -
  note steps = acquire_def on_redis_error_def take_rpm_def take_tpm_def take_conc_def cbind_def cmd_at cwhen_at craise_def
    value_incrby fst_incrby value_expire admitted_def
  consider "apk_rpm k < value_at t (RpmKey (apk_id k)) s + 1"
    | "value_at t (RpmKey (apk_id k)) s + 1 \<le> apk_rpm k" "apk_tpm k < value_at t (TpmKey (apk_id k)) s + max tokens 1"
    | "value_at t (RpmKey (apk_id k)) s + 1 \<le> apk_rpm k" "value_at t (TpmKey (apk_id k)) s + max tokens 1 \<le> apk_tpm k"
    by linarith
  then show ?thesis
  proof cases
    case 1
    then show ?thesis by (auto simp: steps)
  next
    case 2
    then show ?thesis by (auto simp: steps)
  next
    case 3
    then show ?thesis
      by (cases "value_at t (ConcKey (apk_id k)) s + 1 \<le> apk_max_concurrent k") (auto simp: steps)
  qed
qed

lemma set_unique_in_order [simp]: "set (unique_in_order xs) = set xs"
proof -
  have "set (fold (\<lambda>x ys. if x \<in> set ys then ys else ys @ [x]) xs ys) = set ys \<union> set xs" for ys :: "'a list"
    by (induction xs arbitrary: ys) auto
  then show ?thesis by (simp add: unique_in_order_def)
qed

lemma blocked_filter: "map fst (filter snd (zip xs (map P xs))) = filter P xs"
  by (induction xs) auto

lemma filter_all_length: "length xs \<le> length (filter P xs) \<longleftrightarrow> (\<forall>x\<in>set xs. P x)"
  by (metis filter_True length_filter_less linorder_not_less order_refl)

text \<open>The breaker fails open (safety). Whatever the Redis holds and whichever command fails, \<open>filter_available\<close>
  returns candidates of the list and never none of a non-empty list; a provider whose breaker is open is left out only
  if another provider remains.\<close>

theorem breaker_fails_open:
  "\<exists>cs' st'. filter_available provider cs clock (i, s) = (Inr cs', st') \<and> set cs' \<subseteq> set cs \<and> (cs \<noteq> [] \<longrightarrow> cs' \<noteq> [])
     \<and> (\<forall>t. clock i = Some t \<and> (\<exists>c\<in>set cs. live t (OpenKey (provider c)) s = None) \<longrightarrow>
          cs' = filter (\<lambda>c. live t (OpenKey (provider c)) s = None) cs)"
proof (cases "cs = []")
  case True
  then show ?thesis by (simp add: filter_available_def cret_def)
next
  case False
  define pids where "pids = unique_in_order (map provider cs)"
  show ?thesis
  proof (cases "clock i")
    case None
    with False show ?thesis
      by (simp add: filter_available_def on_redis_error_def cbind_def cmd_def cret_def Let_def)
  next
    case (Some t)
    define shut where "shut p \<longleftrightarrow> live t (OpenKey p) s \<noteq> None" for p
    have r: "filter_available provider cs clock (i, s)
        = (Inr (if \<forall>p\<in>set pids. shut p then cs else filter (\<lambda>c. provider c \<notin> set (filter shut pids)) cs), (Suc i, s))"
    proof -
      have e: "exists_keys (map OpenKey pids) t s = (map shut pids, s)" by (simp add: exists_keys_def shut_def comp_def)
      show ?thesis
        by (simp only: filter_available_def False if_False Let_def on_redis_error_def cbind_def cmd_def prod.case Some option.case e
            sum.case blocked_filter filter_all_length cret_def flip: pids_def)
    qed
    have p: "set pids = provider ` set cs" by (simp add: pids_def)
    then have f: "filter (\<lambda>c. provider c \<notin> set (filter shut pids)) cs = filter (\<lambda>c. \<not> shut (provider c)) cs"
      by (intro filter_cong) auto
    show ?thesis
    proof (cases "\<forall>p\<in>set pids. shut p")
      case True
      with r False p Some show ?thesis by (auto simp: shut_def)
    next
      case some: False
      then obtain c where "c \<in> set cs" "\<not> shut (provider c)" using p by auto
      then have "filter (\<lambda>c. \<not> shut (provider c)) cs \<noteq> []" by (auto simp: filter_empty_conv)
      moreover have g: "filter (\<lambda>c. \<not> shut (provider c)) cs = filter (\<lambda>c. live t (OpenKey (provider c)) s = None) cs"
        unfolding shut_def not_not ..
      moreover have "filter_available provider cs clock (i, s) = (Inr (filter (\<lambda>c. live t (OpenKey (provider c)) s = None) cs), (Suc i, s))"
        by (simp only: r some if_False f g)
      ultimately show ?thesis using Some by (auto simp del: not_None_eq)
    qed
  qed
qed

text \<open>The roll-back of \<open>acquire\<close> is not safe against an expiry in between: the counter of tokens is then negative and
  without expiry, the next request does not see its own amount and sets none either, and the counter only grows.\<close>

definition one_key :: api_key where
  "one_key = \<lparr>apk_id = 1, apk_org = 1, apk_user = 1, apk_name = ''k'', apk_prefix = ''sx-'', apk_hash = ''h'', apk_rpm = 60,
     apk_tpm = 1000, apk_max_concurrent = 2, apk_allowed = [], apk_active = True, apk_last_used = None, apk_created = 0\<rparr>"

definition late_clock :: clock where   \<comment> \<open>the token counter expires at 60 s\<close>
  "late_clock i = Some (if i < 2 then 59000000 else 61000000)"

definition near_limit :: redis where
  "near_limit = (\<lambda>_. None)(RpmKey 1 := Some (1, Some 90000000), TpmKey 1 := Some (900, Some 60000000))"

definition stuck :: "redis" where "stuck = snd (snd (acquire one_key 200 late_clock (0, near_limit)))"

lemma tpm_counter_sticks:
  "fst (acquire one_key 200 late_clock (0, near_limit)) = Inl (HTTPError 429 ''rate_limit_tpm'')"
  "stuck (TpmKey 1) = Some (- 200, None)"
  "snd (snd (acquire one_key 300 (at 70000000) (0, stuck))) (TpmKey 1) = Some (100, None)"
  by code_simp+

end
