(* ===== verification/AiUpstream.thy ===== *)
theory AiUpstream
  imports AiPricing AiLimits Json
begin

text \<open>
  The request side of \<open>services/ai_proxy.py\<close>: reading a chat body and an answer of a model provider, the candidates
  of a model (\<open>services/ai_catalog.py\<close>), the target of a call and the failover loop. The provider is a parameter
  (\<open>upstream\<close>: what the call of attempt \<open>i\<close> is answered with), so is Fernet (\<open>decrypt\<close>) and the text of a
  model name that is no string (\<open>repr_of\<close>). \<open>elapsed i\<close> is the time since the start, in milliseconds, when
  attempt \<open>i\<close> has failed. Metrics and log lines are left out.
\<close>

subsection \<open>Numbers in a body\<close>

text \<open>\<open>int(x)\<close>. A float is truncated; its text is taken as the decimal it denotes (exact up to 15 digits).\<close>

definition truncate :: "int \<times> int \<Rightarrow> int" where
  "truncate d = (case d of (m, e) \<Rightarrow> if 0 \<le> e then m * 10 ^ nat e else sgn m * (\<bar>m\<bar> div 10 ^ nat (- e)))"

fun py_int :: "json \<Rightarrow> int result" where
  "py_int (JsonInt n) = Inr n"
| "py_int (JsonBool b) = Inr (if b then 1 else 0)"
| "py_int (JsonFloat s) = (case decimal_of s of None \<Rightarrow> Inl (ValueError ''cannot convert float'') | Some d \<Rightarrow> Inr (truncate d))"
| "py_int (JsonStr s) = (case int_literal s of None \<Rightarrow> Inl (ValueError ''invalid literal for int()'') | Some n \<Rightarrow> Inr n)"
| "py_int _ = Inl (PyError ''TypeError'')"

definition int_or_zero :: "json \<Rightarrow> int result" where   \<comment> \<open>\<open>int(x or 0)\<close>\<close>
  "int_or_zero v = (if truthy v then py_int v else Inr 0)"

fun equals_one :: "json \<Rightarrow> bool" where
  "equals_one (JsonInt n) = (n = 1)"
| "equals_one (JsonBool b) = b"
| "equals_one (JsonFloat s) = (case decimal_of s of None \<Rightarrow> False
     | Some (m, e) \<Rightarrow> if 0 \<le> e then m * 10 ^ nat e = 1 else m = 10 ^ nat (- e))"
| "equals_one _ = False"

fun py_str :: "(json \<Rightarrow> string) \<Rightarrow> json \<Rightarrow> string" where
  "py_str repr_of (JsonStr s) = s"
| "py_str repr_of (JsonInt n) = show_int n"
| "py_str repr_of (JsonBool b) = (if b then ''True'' else ''False'')"
| "py_str repr_of v = repr_of v"

subsection \<open>The request\<close>

definition validate_body :: "json_dict \<Rightarrow> unit result" where
  "validate_body body =
     ebind (raise_if (case map_of body ''n'' of None \<Rightarrow> False | Some v \<Rightarrow> \<not> equals_one v) (HTTPError 400 ''n must be 1'')) (\<lambda>_.
     raise_if (case jget ''messages'' body of JsonArray (m # ms) \<Rightarrow> False | _ \<Rightarrow> True) (HTTPError 400 ''messages required''))"

definition requested_max_tokens :: "json_dict \<Rightarrow> ai_model \<Rightarrow> int result" where
  "requested_max_tokens body m =
     (let raw = jget ''max_tokens'' body; raw = (if raw = JsonNull then jget ''max_completion_tokens'' body else raw) in
      if raw = JsonNull then Inr (mdl_max_tokens_cap m) else py_int raw)"

fun part_chars :: "json \<Rightarrow> nat" where
  "part_chars (JsonObject part) = (case jget ''text'' part of JsonStr s \<Rightarrow> length s | _ \<Rightarrow> 0)"
| "part_chars _ = 0"

fun message_chars :: "json \<Rightarrow> nat" where
  "message_chars (JsonObject msg) = (case jget ''content'' msg of
     JsonStr s \<Rightarrow> length s | JsonArray parts \<Rightarrow> sum_list (map part_chars parts) | _ \<Rightarrow> 0)"
| "message_chars _ = 0"

definition estimate_prompt_tokens :: "json_dict \<Rightarrow> int" where
  "estimate_prompt_tokens body = (case jget ''messages'' body of
     JsonArray messages \<Rightarrow> max (int (sum_list (map message_chars messages)) div 4) 1 | _ \<Rightarrow> 1)"

subsection \<open>The answer\<close>

definition first_choice :: "json_dict \<Rightarrow> json_dict option" where
  "first_choice payload = (case jget ''choices'' payload of JsonArray (JsonObject c # _) \<Rightarrow> Some c | _ \<Rightarrow> None)"

definition content_of :: "string \<Rightarrow> json_dict \<Rightarrow> string" where   \<comment> \<open>\<open>_response_content\<close>, \<open>_delta_content\<close>\<close>
  "content_of field payload = (case first_choice payload of None \<Rightarrow> []
     | Some c \<Rightarrow> (case jget field c of JsonObject m \<Rightarrow> (case jget ''content'' m of JsonStr s \<Rightarrow> s | _ \<Rightarrow> []) | _ \<Rightarrow> []))"

definition response_content :: "json_dict \<Rightarrow> string" where "response_content payload = content_of ''message'' payload"
definition delta_content :: "json_dict \<Rightarrow> string" where "delta_content payload = content_of ''delta'' payload"

text \<open>Prompt tokens, completion tokens, whether usage was missing, whether the numbers are estimates.\<close>

definition billable_tokens :: "json_dict \<Rightarrow> int \<Rightarrow> int \<Rightarrow> string \<Rightarrow> int \<times> int \<times> bool \<times> bool" where
  "billable_tokens request prompt completion content =
     (if 0 < prompt + completion then (prompt, completion, False, False)
      else let prompt_est = estimate_prompt_tokens request; completion_est = max (int (length content) div 4) 0 in
        if prompt_est + completion_est = 0 then (0, 0, True, False) else (prompt_est, completion_est, True, True))"

text \<open>\<open>payload.get("choices", [{}])[0].get("finish_reason")\<close>.\<close>

definition first_finish_reason :: "json_dict \<Rightarrow> json result" where
  "first_finish_reason payload = (case map_of payload ''choices'' of
     None \<Rightarrow> Inr JsonNull
   | Some (JsonArray []) \<Rightarrow> Inl (PyError ''IndexError'')
   | Some (JsonArray (JsonObject c # _)) \<Rightarrow> Inr (jget ''finish_reason'' c)
   | Some (JsonArray _) \<Rightarrow> Inl (PyError ''AttributeError'')
   | Some (JsonStr []) \<Rightarrow> Inl (PyError ''IndexError'')
   | Some (JsonStr _) \<Rightarrow> Inl (PyError ''AttributeError'')
   | Some (JsonObject _) \<Rightarrow> Inl (PyError ''KeyError'')
   | Some _ \<Rightarrow> Inl (PyError ''TypeError''))"

definition usage_from_payload :: "json_dict \<Rightarrow> (int \<times> int \<times> json) result" where
  "usage_from_payload payload = (case jget ''usage'' payload of
     JsonObject usage \<Rightarrow>
       ebind (int_or_zero (jget ''prompt_tokens'' usage)) (\<lambda>prompt.
       ebind (int_or_zero (jget ''completion_tokens'' usage)) (\<lambda>completion.
       Inr (prompt, completion, case first_choice payload of None \<Rightarrow> JsonNull
         | Some c \<Rightarrow> (case jget ''finish_reason'' c of JsonStr s \<Rightarrow> JsonStr s | _ \<Rightarrow> JsonNull))))
   | _ \<Rightarrow> ebind (first_finish_reason payload) (\<lambda>finish. Inr (0, 0, finish)))"

definition counter_of :: "json \<Rightarrow> int result option" where   \<comment> \<open>a number that is no boolean\<close>
  "counter_of v = (case v of JsonInt n \<Rightarrow> Some (Inr (max n 0))
     | JsonFloat s \<Rightarrow> Some (ebind (py_int (JsonFloat s)) (\<lambda>n. Inr (max n 0))) | _ \<Rightarrow> None)"

definition cached_tokens_from_payload :: "json_dict \<Rightarrow> int result" where
  "cached_tokens_from_payload payload = (case jget ''usage'' payload of
     JsonObject usage \<Rightarrow>
       (let nested = (case jget ''prompt_tokens_details'' usage of JsonObject d \<Rightarrow> [jget ''cached_tokens'' d] | _ \<Rightarrow> []);
            flat = map (\<lambda>k. jget k usage) [''prompt_cache_hit_tokens'', ''cache_read_input_tokens'', ''cached_tokens''] in
        case List.map_filter counter_of (nested @ flat) of [] \<Rightarrow> Inr 0 | c # _ \<Rightarrow> c)
   | _ \<Rightarrow> Inr 0)"

subsection \<open>Candidates\<close>

record ai_provider =
  prv_id :: uuid
  prv_base_url :: string
  prv_auth_header :: string
  prv_credential :: string
  prv_enabled :: bool
  prv_status :: string
  prv_last_probed :: "datetime option"

record model_upstream =
  ups_model :: uuid
  ups_provider :: uuid
  ups_upstream_id :: string
  ups_max_tokens_cap :: "int option"
  ups_hpp_in :: "int option"
  ups_hpp_out :: "int option"
  ups_rank :: int
  ups_enabled :: bool

record ai_catalog =
  cat_providers :: "ai_provider list"
  cat_models :: "ai_model list"
  cat_upstreams :: "model_upstream list"

record ai_settings =
  ais_usd_idr :: int
  ais_failover :: bool
  ais_max_candidates :: nat
  ais_deadline :: int         \<comment> \<open>milliseconds\<close>
  ais_min_attempt :: int
  ais_admin_deadline :: int
  ais_trial_cap_usd :: "int option"   \<comment> \<open>\<open>10^-12\<close> USD; none if not in \<open>model_fields_set\<close>\<close>
  ais_trial_cap_idr :: int
  ais_breaker :: breaker_settings

record candidate =
  cnd_provider :: uuid
  cnd_upstream_id :: string
  cnd_base_url :: string
  cnd_auth_header :: string
  cnd_credential :: string
  cnd_max_tokens_cap :: "int option"
  cnd_hpp_in :: "int option"
  cnd_hpp_out :: "int option"
  cnd_status :: string

definition provider_usable :: "ai_provider \<Rightarrow> bool" where
  "provider_usable p \<longleftrightarrow> prv_enabled p \<and> prv_status p \<noteq> ''disabled''"

definition provider_get :: "uuid \<Rightarrow> ai_catalog \<Rightarrow> ai_provider option" where
  "provider_get pid cat = row_get prv_id pid (cat_providers cat)"

definition upstreams_of :: "ai_model \<Rightarrow> ai_catalog \<Rightarrow> model_upstream list" where   \<comment> \<open>\<open>order_by rank\<close>\<close>
  "upstreams_of m cat = sort_key ups_rank (filter (\<lambda>u. ups_model u = mdl_id m) (cat_upstreams cat))"

definition usable_id :: "ai_catalog \<Rightarrow> uuid \<Rightarrow> bool" where
  "usable_id cat pid = (case provider_get pid cat of None \<Rightarrow> False | Some p \<Rightarrow> provider_usable p)"

definition has_usable_candidate :: "ai_settings \<Rightarrow> ai_catalog \<Rightarrow> ai_model \<Rightarrow> bool" where
  "has_usable_candidate cfg cat m \<longleftrightarrow> usable_id cat (mdl_provider m)
     \<or> ais_failover cfg \<and> list_ex (\<lambda>u. ups_enabled u \<and> usable_id cat (ups_provider u)) (upstreams_of m cat)"

definition auth_header_or_default :: "ai_provider \<Rightarrow> string" where
  "auth_header_or_default p = (if prv_auth_header p = [] then ''Authorization'' else prv_auth_header p)"

definition primary_candidate :: "ai_model \<Rightarrow> ai_provider \<Rightarrow> candidate" where
  "primary_candidate m p = \<lparr>cnd_provider = prv_id p, cnd_upstream_id = mdl_upstream_id m, cnd_base_url = prv_base_url p,
     cnd_auth_header = auth_header_or_default p, cnd_credential = prv_credential p,
     cnd_max_tokens_cap = Some (mdl_max_tokens_cap m), cnd_hpp_in = mdl_hpp_usd_per_1m_in m,
     cnd_hpp_out = mdl_hpp_usd_per_1m_out m, cnd_status = prv_status p\<rparr>"

definition fallback_candidate :: "model_upstream \<Rightarrow> ai_provider \<Rightarrow> candidate" where
  "fallback_candidate u p = \<lparr>cnd_provider = prv_id p, cnd_upstream_id = ups_upstream_id u, cnd_base_url = prv_base_url p,
     cnd_auth_header = auth_header_or_default p, cnd_credential = prv_credential p,
     cnd_max_tokens_cap = ups_max_tokens_cap u, cnd_hpp_in = ups_hpp_in u, cnd_hpp_out = ups_hpp_out u,
     cnd_status = prv_status p\<rparr>"

definition primary_candidates :: "ai_catalog \<Rightarrow> ai_model \<Rightarrow> candidate list" where
  "primary_candidates cat m = (case provider_get (mdl_provider m) cat of None \<Rightarrow> []
     | Some p \<Rightarrow> if provider_usable p then [primary_candidate m p] else [])"

definition fallback_candidates :: "ai_catalog \<Rightarrow> ai_model \<Rightarrow> candidate list" where
  "fallback_candidates cat m = List.map_filter (\<lambda>u. if \<not> ups_enabled u then None else
     (case provider_get (ups_provider u) cat of None \<Rightarrow> None
      | Some p \<Rightarrow> if provider_usable p then Some (fallback_candidate u p) else None)) (upstreams_of m cat)"

definition ranked_candidates :: "ai_settings \<Rightarrow> ai_catalog \<Rightarrow> ai_model \<Rightarrow> candidate list" where
  "ranked_candidates cfg cat m = take (ais_max_candidates cfg)
     (sort_key (\<lambda>c. if cnd_status c = ''degraded'' then 1 else 0 :: nat)
       (primary_candidates cat m @ (if ais_failover cfg then fallback_candidates cat m else [])))"

definition load_candidates :: "ai_settings \<Rightarrow> ai_catalog \<Rightarrow> string \<Rightarrow> (ai_model \<times> candidate list) result" where
  "load_candidates cfg cat public_id =
     ebind (scalar_one_or_none (filter (\<lambda>m. mdl_public_id m = public_id \<and> mdl_enabled m) (cat_models cat))) (\<lambda>found.
     ebind (get_or (HTTPError 404 ''model_not_found'') found) (\<lambda>m.
     let cs = ranked_candidates cfg cat m in
     if cs = [] then Inl (HTTPError 404 ''model_not_found'') else Inr (m, cs)))"

definition list_openai_models :: "ai_settings \<Rightarrow> ai_catalog \<Rightarrow> api_key \<Rightarrow> string list" where   \<comment> \<open>the ids of the answer\<close>
  "list_openai_models cfg cat k = map mdl_public_id (filter (\<lambda>m. apk_allowed k = [] \<or> mdl_public_id m \<in> set (apk_allowed k))
     (filter (has_usable_candidate cfg cat) (filter mdl_enabled (cat_models cat))))"

subsection \<open>A call\<close>

record upstream_call =
  upc_url :: string
  upc_header :: "string \<times> string"
  upc_body :: json_dict

datatype upstream_reply = TransportError | UpstreamReply nat "json option"   \<comment> \<open>status, body if it is JSON\<close>

definition rstrip_slash :: "string \<Rightarrow> string" where
  "rstrip_slash s = rev (dropWhile (\<lambda>c. c = CHR ''/'') (rev s))"

definition candidate_target :: "(string \<Rightarrow> string result) \<Rightarrow> candidate \<Rightarrow> int \<Rightarrow> (string \<times> (string \<times> string) \<times> int) result" where
  "candidate_target decrypt c capped = ebind (decrypt (cnd_credential c)) (\<lambda>cred.
     let name = (if cnd_auth_header c = [] then ''Authorization'' else cnd_auth_header c);
         bare = (lower name = ''authorization'' \<and> take 7 (lower cred) \<noteq> ''bearer '');
         max_tokens = (case cnd_max_tokens_cap c of None \<Rightarrow> capped | Some n \<Rightarrow> if n = 0 then capped else min capped n) in
     Inr (rstrip_slash (cnd_base_url c) @ ''/chat/completions'', (name, if bare then ''Bearer '' @ cred else cred), max_tokens))"

definition RETRYABLE_STATUS :: "nat list" where "RETRYABLE_STATUS = [401, 403, 429, 500, 502, 503, 504]"

definition retryable_status :: "nat \<Rightarrow> bool" where "retryable_status code \<longleftrightarrow> code \<in> set RETRYABLE_STATUS"

definition can_retry :: "ai_settings \<Rightarrow> candidate list \<Rightarrow> int \<Rightarrow> int \<Rightarrow> bool" where   \<comment> \<open>the candidates after this one\<close>
  "can_retry cfg rest deadline elapsed_ms \<longleftrightarrow> rest \<noteq> [] \<and> ais_min_attempt cfg \<le> deadline - elapsed_ms"

definition cogs_snapshot :: "candidate \<Rightarrow> snapshot \<Rightarrow> snapshot" where
  "cogs_snapshot c locked = locked\<lparr>snap_hpp_in := or_else (cnd_hpp_in c) (snap_hpp_in locked),
     snap_hpp_out := or_else (cnd_hpp_out c) (snap_hpp_out locked)\<rparr>"

definition attempt_body :: "json_dict \<Rightarrow> candidate \<Rightarrow> int \<Rightarrow> json_dict" where
  "attempt_body body c max_tokens = jset ''max_tokens'' (JsonInt max_tokens) (jset ''model'' (JsonStr (cnd_upstream_id c)) body)"

record upstream_result =
  upr_reply :: "(nat \<times> json option) option"
  upr_candidate :: "candidate option"

text \<open>\<open>_post_with_failover\<close>: the candidates in order; a failure that is not the last and within the deadline moves on.\<close>

fun post_rounds ::
  "ai_settings \<Rightarrow> (string \<Rightarrow> string result) \<Rightarrow> (nat \<Rightarrow> upstream_call \<Rightarrow> upstream_reply) \<Rightarrow> (nat \<Rightarrow> int) \<Rightarrow> int \<Rightarrow>
   int \<Rightarrow> json_dict \<Rightarrow> nat \<Rightarrow> candidate list \<Rightarrow> upstream_result cmd" where
  "post_rounds cfg decrypt upstream elapsed deadline capped body i [] = cret \<lparr>upr_reply = None, upr_candidate = None\<rparr>"
| "post_rounds cfg decrypt upstream elapsed deadline capped body i (c # cs) = (case candidate_target decrypt c capped of
     Inl e \<Rightarrow> craise e
   | Inr (url, header, max_tokens) \<Rightarrow>
       let retry = can_retry cfg cs deadline (elapsed i);
           next_round = post_rounds cfg decrypt upstream elapsed deadline capped body (Suc i) cs in
       (case upstream i \<lparr>upc_url = url, upc_header = header, upc_body = attempt_body body c max_tokens\<rparr> of
          TransportError \<Rightarrow> cbind (record_failure (ais_breaker cfg) (cnd_provider c)) (\<lambda>_.
            if retry then next_round else cret \<lparr>upr_reply = None, upr_candidate = Some c\<rparr>)
        | UpstreamReply code payload \<Rightarrow>
            if retryable_status code then cbind (record_failure (ais_breaker cfg) (cnd_provider c)) (\<lambda>_.
              if retry then next_round else cret \<lparr>upr_reply = Some (code, payload), upr_candidate = Some c\<rparr>)
            else cbind (cwhen (code < 400) (record_success (cnd_provider c))) (\<lambda>_.
              cret \<lparr>upr_reply = Some (code, payload), upr_candidate = Some c\<rparr>)))"

definition post_with_failover ::
  "ai_settings \<Rightarrow> (string \<Rightarrow> string result) \<Rightarrow> (nat \<Rightarrow> upstream_call \<Rightarrow> upstream_reply) \<Rightarrow> (nat \<Rightarrow> int) \<Rightarrow> int \<Rightarrow>
   json_dict \<Rightarrow> candidate list \<Rightarrow> upstream_result cmd" where
  "post_with_failover cfg decrypt upstream elapsed deadline body cs = (case int_or_zero (jget ''max_tokens'' body) of
     Inl e \<Rightarrow> craise e
   | Inr capped \<Rightarrow> post_rounds cfg decrypt upstream elapsed deadline capped body 0 cs)"

subsection \<open>The probe\<close>

text \<open>\<open>workers/tasks/ai_providers.py\<close>: a verdict per usable provider. \<open>ProbeRaises\<close> is an exception other than an HTTP
  error, such as a credential that cannot be decrypted.\<close>

datatype probe_reply = ProbeStatus nat | ProbeHttpError | ProbeRaises

record probe_counts =
  prc_probed :: nat
  prc_ok :: nat
  prc_degraded :: nat
  prc_unverified :: nat
  prc_errors :: nat

definition probe_verdict :: "datetime \<Rightarrow> probe_reply \<Rightarrow> ai_provider \<Rightarrow> ai_provider" where
  "probe_verdict now reply p = (case reply of
     ProbeStatus code \<Rightarrow> (if 200 \<le> code \<and> code < 300 then p\<lparr>prv_status := ''ok''\<rparr>
       else if code \<in> {401, 403} \<or> 500 \<le> code then p\<lparr>prv_status := ''degraded''\<rparr> else p)\<lparr>prv_last_probed := Some now\<rparr>
   | ProbeHttpError \<Rightarrow> p\<lparr>prv_status := ''degraded'', prv_last_probed := Some now\<rparr>
   | ProbeRaises \<Rightarrow> p)"

definition count_verdict :: "probe_reply \<Rightarrow> probe_counts \<Rightarrow> probe_counts" where
  "count_verdict reply n0 = (let n = n0\<lparr>prc_probed := prc_probed n0 + 1\<rparr> in case reply of
     ProbeStatus code \<Rightarrow> if 200 \<le> code \<and> code < 300 then n\<lparr>prc_ok := prc_ok n + 1\<rparr>
       else if code \<in> {401, 403} \<or> 500 \<le> code then n\<lparr>prc_degraded := prc_degraded n + 1\<rparr> else n\<lparr>prc_unverified := prc_unverified n + 1\<rparr>
   | ProbeHttpError \<Rightarrow> n\<lparr>prc_degraded := prc_degraded n + 1\<rparr>
   | ProbeRaises \<Rightarrow> n\<lparr>prc_errors := prc_errors n + 1\<rparr>)"

definition probe_ai_providers :: "datetime \<Rightarrow> (ai_provider \<Rightarrow> probe_reply) \<Rightarrow> ai_provider list \<Rightarrow> probe_counts \<times> ai_provider list" where
  "probe_ai_providers now ask ps =
     (fold (\<lambda>p n. count_verdict (ask p) n) (filter provider_usable ps)
        \<lparr>prc_probed = 0, prc_ok = 0, prc_degraded = 0, prc_unverified = 0, prc_errors = 0\<rparr>,
      map (\<lambda>p. if provider_usable p then probe_verdict now (ask p) p else p) ps)"

text \<open>A disabled provider stays as it is, and the probe disables nobody.\<close>

lemma probe_keeps_disabled:
  "list_all2 (\<lambda>p q. (\<not> provider_usable p \<longrightarrow> q = p) \<and> (provider_usable q = provider_usable p)) ps (snd (probe_ai_providers now ask ps))"
  by (auto simp: probe_ai_providers_def list_all2_map2 probe_verdict_def provider_usable_def list_all2_same split: probe_reply.split)

end
