(* ===== verification/AiProxy.thy ===== *)
theory AiProxy
  imports AiWallet AiUpstream
begin

text \<open>
  The paid chat call of \<open>services/ai_proxy.py\<close>: price and reserve, call the provider, settle or release. The state is
  the database and the Redis; a handler that raises leaves the database as it was (no commit) and the Redis as far as its
  commands went. A request is served under a \<open>proxy_env\<close>: the configuration, what the libraries and the provider
  answer, the instants, and the fresh ids. The stream is in theory AiStream.
\<close>

subsection \<open>State\<close>

record gateway_state =
  gws_ai :: ai_db
  gws_redis :: "nat \<times> redis"   \<comment> \<open>commands run so far\<close>

type_synonym 'a gwm = "gateway_state \<Rightarrow> 'a result \<times> gateway_state"

definition gret :: "'a \<Rightarrow> 'a gwm" where "gret x g = (Inr x, g)"
definition gresult :: "'a result \<Rightarrow> 'a gwm" where "gresult r g = (r, g)"

definition gbind :: "'a gwm \<Rightarrow> ('a \<Rightarrow> 'b gwm) \<Rightarrow> 'b gwm" where
  "gbind m f g = (case m g of (Inl e, g') \<Rightarrow> (Inl e, g') | (Inr x, g') \<Rightarrow> f x g')"

definition on_redis :: "clock \<Rightarrow> 'a cmd \<Rightarrow> 'a gwm" where
  "on_redis clock m g = (case m clock (gws_redis g) of (r, st) \<Rightarrow> (r, g\<lparr>gws_redis := st\<rparr>))"

definition commit :: "(ai_db \<Rightarrow> ('a \<times> ai_db) result) \<Rightarrow> 'a gwm" where   \<comment> \<open>a transaction\<close>
  "commit f g = (case f (gws_ai g) of Inl e \<Rightarrow> (Inl e, g) | Inr (x, db) \<Rightarrow> (Inr x, g\<lparr>gws_ai := db\<rparr>))"

definition read_db :: "(ai_db \<Rightarrow> 'a result) \<Rightarrow> 'a gwm" where "read_db f g = (f (gws_ai g), g)"

record proxy_env =
  env_cfg :: ai_settings
  env_catalog :: ai_catalog
  env_fx :: "fx_row list"
  env_today :: int
  env_now :: datetime
  env_clock :: clock
  env_decrypt :: "string \<Rightarrow> string result"
  env_upstream :: "nat \<Rightarrow> upstream_call \<Rightarrow> upstream_reply"
  env_elapsed :: "nat \<Rightarrow> int"
  env_latency :: int
  env_repr :: "json \<Rightarrow> string"
  env_between :: "nat \<Rightarrow> ai_db \<Rightarrow> ai_db"   \<comment> \<open>what commits inside a settlement\<close>
  env_rid :: uuid
  env_uid :: uuid

record caller =
  clr_org :: uuid
  clr_user :: "uuid option"
  clr_key :: "uuid option"
  clr_source :: string
  clr_down_status :: "int option"   \<comment> \<open>recorded when no provider answered\<close>

definition key_caller :: "api_key \<Rightarrow> caller" where
  "key_caller k = \<lparr>clr_org = apk_org k, clr_user = Some (apk_user k), clr_key = Some (apk_id k), clr_source = ''customer'', clr_down_status = None\<rparr>"

definition trial_caller :: "uuid \<Rightarrow> uuid \<Rightarrow> caller" where
  "trial_caller org user = \<lparr>clr_org = org, clr_user = Some user, clr_key = None, clr_source = ''customer_trial'', clr_down_status = Some 502\<rparr>"

datatype answer = ChatAnswer json | OpenAiError nat string string "string option"   \<comment> \<open>status, message, type, code\<close>

definition generic_upstream_fail :: answer where
  "generic_upstream_fail = OpenAiError 502 ''Upstream provider error'' ''api_error'' (Some ''upstream_error'')"

subsection \<open>Price and reserve\<close>

definition insufficient :: error where "insufficient = HTTPError 402 ''Insufficient AI wallet balance''"

text \<open>What the request may use: prompt tokens to hold, completion tokens allowed, the hold.\<close>

definition price_request :: "snapshot \<Rightarrow> ai_model \<Rightarrow> int \<Rightarrow> int \<Rightarrow> int \<Rightarrow> (int \<times> int \<times> int) result" where
  "price_request s m balance requested prompt_est =
     (let prompt_hold = affordable_prompt_tokens balance s prompt_est in
      if prompt_hold < 1 then Inl insufficient
      else let afford = affordable_max_tokens balance s (mdl_max_tokens_cap m) prompt_hold in
      if afford < 1 then Inl insufficient
      else let capped = min requested (min (mdl_max_tokens_cap m) afford) in
      Inr (prompt_hold, capped, hold_idr capped s prompt_hold))"

definition model_name :: "proxy_env \<Rightarrow> json_dict \<Rightarrow> string" where   \<comment> \<open>\<open>str(body.get("model") or "")\<close>\<close>
  "model_name E body = (let v = jget ''model'' body in if truthy v then py_str (env_repr E) v else [])"

definition find_model :: "proxy_env \<Rightarrow> json_dict \<Rightarrow> (ai_model \<times> candidate list \<times> snapshot) gwm" where
  "find_model E body =
     gbind (gresult (load_candidates (env_cfg E) (env_catalog E) (model_name E body))) (\<lambda>(m, cs0).
     gbind (on_redis (env_clock E) (filter_available cnd_provider cs0)) (\<lambda>cs.
     gret (m, cs, resolve_snapshot (ais_usd_idr (env_cfg E)) (env_today E) (env_fx E) m)))"

record priced_call =
  opn_model :: ai_model
  opn_candidates :: "candidate list"
  opn_snapshot :: snapshot
  opn_prompt :: int
  opn_capped :: int
  opn_hold :: int
  opn_reservation :: ai_reservation

text \<open>The limits are taken between pricing and reserving; a reservation that fails gives the stream slot back.\<close>

definition reserve_for :: "proxy_env \<Rightarrow> caller \<Rightarrow> ai_model \<Rightarrow> snapshot \<Rightarrow> int \<Rightarrow> int \<Rightarrow> int \<Rightarrow> ai_db \<Rightarrow> (ai_reservation \<times> ai_db) result" where
  "reserve_for E c m s prompt capped hold db = reserve (env_rid E) (clr_org c) hold s
     \<lparr>hrq_key = clr_key c, hrq_model = Some (mdl_public_id m), hrq_prompt_est = Some prompt, hrq_completion_max = Some capped,
      hrq_actor = clr_user c\<rparr> (env_now E) db"

definition reserve_step :: "proxy_env \<Rightarrow> caller \<Rightarrow> unit cmd \<Rightarrow> ai_model \<Rightarrow> candidate list \<Rightarrow> snapshot \<Rightarrow> int \<Rightarrow> int \<Rightarrow> int \<Rightarrow> ai_db \<Rightarrow> priced_call gwm" where
  "reserve_step E c unlimit m cs s prompt capped hold db1 g = (case reserve_for E c m s prompt capped hold db1 of
     Inl e \<Rightarrow> gbind (on_redis (env_clock E) unlimit) (\<lambda>_. gresult (Inl e)) g
   | Inr (r, db2) \<Rightarrow> gret \<lparr>opn_model = m, opn_candidates = cs, opn_snapshot = s, opn_prompt = prompt, opn_capped = capped,
       opn_hold = hold, opn_reservation = r\<rparr> (g\<lparr>gws_ai := db2\<rparr>))"

text \<open>The wallet row is created in the transaction that reserves.\<close>

definition open_request :: "proxy_env \<Rightarrow> caller \<Rightarrow> (int \<Rightarrow> unit cmd) \<Rightarrow> unit cmd \<Rightarrow> json_dict \<Rightarrow> priced_call gwm" where
  "open_request E c limits unlimit body =
     gbind (find_model E body) (\<lambda>(m, cs, s).
     gbind (gresult (requested_max_tokens body m)) (\<lambda>requested.
     gbind (read_db (get_or_create_wallet (clr_org c))) (\<lambda>(w, db1).
     gbind (gresult (price_request s m (wal_balance w) requested (estimate_prompt_tokens body))) (\<lambda>(prompt, capped, hold).
     gbind (on_redis (env_clock E) (limits capped)) (\<lambda>_.
     reserve_step E c unlimit m cs s prompt capped hold db1)))))"

subsection \<open>Settle or release\<close>

definition blank_event :: "proxy_env \<Rightarrow> caller \<Rightarrow> ai_model \<Rightarrow> uuid option \<Rightarrow> uuid option \<Rightarrow> snapshot \<Rightarrow> usage_event" where
  "blank_event E c m reservation provider s =
     \<lparr>use_id = env_uid E, use_org = Some (clr_org c), use_user = clr_user c, use_key = clr_key c, use_source = clr_source c,
      use_model = mdl_public_id m, use_provider = Some (or_else provider (mdl_provider m)), use_prompt = 0, use_completion = 0,
      use_cached = 0, use_ttft = None, use_billed_idr = 0, use_cogs_idr = 0, use_billed_usd = None, use_cogs_usd = None,
      use_snapshot = Some s, use_shortfall = 0, use_missing = False, use_estimated = False, use_latency = None,
      use_http_status = None, use_finish = None, use_request_id = None, use_reservation = reservation, use_request = None,
      use_response = None, use_created = env_now E\<rparr>"

definition usd_or_error :: "int option \<Rightarrow> int result" where "usd_or_error v = get_or (PyError ''InvalidOperation'') v"

text \<open>\<open>_fail_release\<close>: the hold goes back, the event records a call that cost nothing.\<close>

definition fail_release ::
  "proxy_env \<Rightarrow> caller \<Rightarrow> uuid \<Rightarrow> ai_model \<Rightarrow> snapshot \<Rightarrow> int option \<Rightarrow> json_dict \<Rightarrow> uuid option \<Rightarrow> ai_db \<Rightarrow> (unit \<times> ai_db) result" where
  "fail_release E c rid m s http_status request provider db = (case reservation_get rid db of
     None \<Rightarrow> Inr ((), db)
   | Some r \<Rightarrow> if rsv_status r \<noteq> HoldOpen then Inr ((), db) else
       ebind (release r db) (\<lambda>db1.
       ebind (usd_or_error (billed_usd 0 0 s)) (\<lambda>bu.
       ebind (usd_or_error (cogs_usd 0 0 s)) (\<lambda>cu.
       ebind (record_usage ((blank_event E c m (Some rid) provider s)\<lparr>use_billed_usd := Some bu, use_cogs_usd := Some cu,
         use_http_status := http_status, use_request := Some request\<rparr>) db1) (\<lambda>db2. Inr ((), db2))))))"

record usage_report =
  rep_prompt :: int
  rep_completion :: int
  rep_cached :: int
  rep_missing :: bool
  rep_estimated :: bool
  rep_ttft :: "int option"
  rep_latency :: "int option"
  rep_status :: int
  rep_finish :: json
  rep_request_id :: json
  rep_response :: "json_dict option"

text \<open>A value bound to a text column: the driver refuses what is no string.\<close>

fun text_column :: "json \<Rightarrow> string option result" where
  "text_column JsonNull = Inr None"
| "text_column (JsonStr s) = Inr (Some s)"
| "text_column _ = Inl OperationalError"

definition settle_usage ::
  "proxy_env \<Rightarrow> caller \<Rightarrow> uuid \<Rightarrow> ai_model \<Rightarrow> usage_report \<Rightarrow> json_dict \<Rightarrow> uuid option \<Rightarrow> snapshot option \<Rightarrow> ai_db \<Rightarrow> (unit \<times> ai_db) result" where
  "settle_usage E c rid m u request provider cogs_snap db = (case reservation_get rid db of
     None \<Rightarrow> Inr ((), db)
   | Some r \<Rightarrow> if rsv_status r \<noteq> HoldOpen then Inr ((), db) else
       let locked = (case snapshot_from_reservation r of Some s \<Rightarrow> s
             | None \<Rightarrow> resolve_snapshot (ais_usd_idr (env_cfg E)) (env_today E) (env_fx E) m);
           effective = or_else cogs_snap locked;
           billed = billed_idr (rep_prompt u) (rep_completion u) locked;
           cogs = cogs_idr (rep_prompt u) (rep_completion u) effective in
       ebind (usd_or_error (billed_usd (rep_prompt u) (rep_completion u) locked)) (\<lambda>bu.
       ebind (usd_or_error (cogs_usd (rep_prompt u) (rep_completion u) effective)) (\<lambda>cu.
       ebind (text_column (rep_finish u)) (\<lambda>finish.
       ebind (text_column (rep_request_id u)) (\<lambda>request_id.
       ebind (record_usage ((blank_event E c m (Some rid) provider effective)\<lparr>use_prompt := rep_prompt u, use_completion := rep_completion u,
         use_cached := rep_cached u, use_ttft := rep_ttft u, use_billed_idr := billed, use_cogs_idr := cogs, use_billed_usd := Some bu,
         use_cogs_usd := Some cu, use_missing := rep_missing u, use_estimated := rep_estimated u, use_latency := rep_latency u,
         use_http_status := Some (rep_status u), use_finish := finish, use_request_id := request_id, use_request := Some request,
         use_response := rep_response u\<rparr>) db) (\<lambda>db1.
       ebind (settle (env_between E) r billed (Some (env_uid E)) db1) (\<lambda>db2. Inr ((), db2))))))))"

subsection \<open>The answer of the provider\<close>

definition as_dict :: "json \<Rightarrow> json_dict" where
  "as_dict payload = (case payload of JsonObject d \<Rightarrow> d | _ \<Rightarrow> [])"

definition report_of :: "proxy_env \<Rightarrow> json_dict \<Rightarrow> nat \<Rightarrow> json \<Rightarrow> usage_report result" where
  "report_of E body code payload =
     ebind (usage_from_payload (as_dict payload)) (\<lambda>(p, c, finish).
     ebind (cached_tokens_from_payload (as_dict payload)) (\<lambda>cached.
     let (p', c', missing, estimated) = billable_tokens body p c (response_content (as_dict payload)) in
     Inr \<lparr>rep_prompt = p', rep_completion = c', rep_cached = cached, rep_missing = missing, rep_estimated = estimated,
       rep_ttft = None, rep_latency = Some (env_latency E), rep_status = int code, rep_finish = finish,
       rep_request_id = jget ''id'' (as_dict payload),
       rep_response = (case payload of JsonObject d \<Rightarrow> Some d | _ \<Rightarrow> None)\<rparr>))"

definition failed_call :: "proxy_env \<Rightarrow> caller \<Rightarrow> unit cmd \<Rightarrow> priced_call \<Rightarrow> json_dict \<Rightarrow> int option \<Rightarrow> uuid option \<Rightarrow> answer \<Rightarrow> answer gwm" where
  "failed_call E c unlimit op body http_status provider ans =
     gbind (on_redis (env_clock E) unlimit) (\<lambda>_.
     gbind (commit (fail_release E c (rsv_id (opn_reservation op)) (opn_model op) (opn_snapshot op) http_status body provider)) (\<lambda>_.
     gret ans))"

definition finish_call :: "proxy_env \<Rightarrow> caller \<Rightarrow> unit cmd \<Rightarrow> priced_call \<Rightarrow> json_dict \<Rightarrow> upstream_result \<Rightarrow> answer gwm" where
  "finish_call E c unlimit op body res =
     (case (upr_reply res, upr_candidate res) of
        (Some (code, payload), Some served) \<Rightarrow>
          let failed = failed_call E c unlimit op body (Some (int code)) (Some (cnd_provider served)) in
          if code \<in> {401, 403} \<or> 500 \<le> code then failed generic_upstream_fail
          else if 400 \<le> code then failed (OpenAiError code ''Request rejected'' ''invalid_request_error'' None)
          else (case payload of None \<Rightarrow> failed generic_upstream_fail
            | Some p \<Rightarrow>
                gbind (gresult (report_of E body code p)) (\<lambda>u.
                gbind (commit (settle_usage E c (rsv_id (opn_reservation op)) (opn_model op) u body (Some (cnd_provider served))
                  (Some (cogs_snapshot served (opn_snapshot op))))) (\<lambda>_.
                gbind (on_redis (env_clock E) unlimit) (\<lambda>_.
                gret (ChatAnswer p)))))
      | (_, served) \<Rightarrow> failed_call E c unlimit op body (clr_down_status c) (map_option cnd_provider served) generic_upstream_fail)"

definition call_upstream :: "proxy_env \<Rightarrow> int \<Rightarrow> json_dict \<Rightarrow> candidate list \<Rightarrow> upstream_result gwm" where
  "call_upstream E deadline upstream_body cs = on_redis (env_clock E)
     (post_with_failover (env_cfg E) (env_decrypt E) (env_upstream E) (env_elapsed E) deadline upstream_body cs)"

text \<open>\<open>chat_completions\<close> for a body that does not ask for a stream.\<close>

definition key_may_use :: "proxy_env \<Rightarrow> api_key \<Rightarrow> json_dict \<Rightarrow> unit result" where
  "key_may_use E k body = ebind (validate_body body) (\<lambda>_.
     raise_if (apk_allowed k \<noteq> [] \<and> model_name E body \<notin> set (apk_allowed k)) (HTTPError 404 ''model_not_found''))"

definition open_chat :: "proxy_env \<Rightarrow> api_key \<Rightarrow> json_dict \<Rightarrow> priced_call gwm" where
  "open_chat E k body = gbind (gresult (key_may_use E k body)) (\<lambda>_.
     open_request E (key_caller k) (acquire k) (release_concurrent (apk_id k)) body)"

definition chat_completions :: "proxy_env \<Rightarrow> api_key \<Rightarrow> json_dict \<Rightarrow> answer gwm" where
  "chat_completions E k body =
     gbind (open_chat E k body) (\<lambda>op.
     gbind (call_upstream E (ais_deadline (env_cfg E)) (jset ''max_tokens'' (JsonInt (opn_capped op)) body) (opn_candidates op)) (\<lambda>res.
     finish_call E (key_caller k) (release_concurrent (apk_id k)) op body res))"

definition org_trial_chat :: "proxy_env \<Rightarrow> uuid \<Rightarrow> uuid \<Rightarrow> json_dict \<Rightarrow> answer gwm" where
  "org_trial_chat E org user body =
     gbind (gresult (raise_if (truthy (jget ''stream'' body)) (HTTPError 400 ''stream is not supported for trial chat''))) (\<lambda>_.
     gbind (gresult (validate_body body)) (\<lambda>_.
     gbind (open_request E (trial_caller org user) (\<lambda>_. cret ()) (cret ()) body) (\<lambda>op.
     gbind (call_upstream E (ais_admin_deadline (env_cfg E)) (jset ''max_tokens'' (JsonInt (opn_capped op)) body) (opn_candidates op)) (\<lambda>res.
     finish_call E (trial_caller org user) (cret ()) op body res))))"

subsection \<open>The price\<close>

text \<open>A priced request is covered (bounds). With non-negative prices and rate, a request is refused with a 402 exactly if
  the balance does not cover one token each way; otherwise it holds at least one prompt token, allows no more completion
  tokens than were asked for and than the model's cap, and its hold is at most the balance.\<close>

theorem price_covered:
  assumes "priced s" "1 \<le> mdl_max_tokens_cap m" "1 \<le> balance"
  shows "if balance < hold_idr 1 s 1 then price_request s m balance requested prompt_est = Inl insufficient
    else \<exists>prompt capped hold. price_request s m balance requested prompt_est = Inr (prompt, capped, hold)
      \<and> 1 \<le> prompt \<and> prompt \<le> max prompt_est 1 \<and> capped \<le> requested \<and> capped \<le> mdl_max_tokens_cap m \<and> 0 \<le> hold \<and> hold \<le> balance"
proof -
  define prompt where "prompt = affordable_prompt_tokens balance s prompt_est"
  define afford where "afford = affordable_max_tokens balance s (mdl_max_tokens_cap m) prompt"
  show ?thesis
  proof (cases "balance < hold_idr 1 s 1")
    case True
    then have "prompt = 0" by (simp add: prompt_def affordable_prompt_tokens_def hold_idr_def)
    with True show ?thesis by (simp add: price_request_def flip: prompt_def)
  next
    case False
    note ex = affordable_search [OF assms(1,3,2)]
    from ex(2) [of prompt_est] False have p: "1 \<le> prompt" "prompt \<le> max prompt_est 1" "hold_idr 1 s prompt \<le> balance"
      by (simp_all add: prompt_def greatest_below_def) linarith+
    have g: "greatest_below (\<lambda>n. hold_idr n s prompt \<le> balance) 0 (mdl_max_tokens_cap m) afford"
      unfolding afford_def by (rule ex(1))
    then have a: "1 \<le> afford" "hold_idr afford s prompt \<le> balance" using p(3) assms(2) by (auto simp: greatest_below_def)
    have "hold_idr (min requested (min (mdl_max_tokens_cap m) afford)) s prompt \<le> hold_idr afford s prompt"
      by (rule hold_idr_mono [OF assms(1)]) auto
    then have le: "hold_idr (min requested (min (mdl_max_tokens_cap m) afford)) s prompt \<le> balance" using a(2) by simp
    have "price_request s m balance requested prompt_est = Inr (prompt, min requested (min (mdl_max_tokens_cap m) afford),
        hold_idr (min requested (min (mdl_max_tokens_cap m) afford)) s prompt)"
      using a p by (simp add: price_request_def Let_def flip: prompt_def afford_def)
    moreover have "0 \<le> hold_idr (min requested (min (mdl_max_tokens_cap m) afford)) s prompt"
      unfolding hold_idr_def by (rule billed_idr_nonneg [OF assms(1)])
    ultimately show ?thesis using False le p by simp
  qed
qed

subsection \<open>Postconditions\<close>

definition post :: "'a gwm \<Rightarrow> gateway_state \<Rightarrow> ('a result \<Rightarrow> gateway_state \<Rightarrow> bool) \<Rightarrow> bool" where
  "post m g Q = (case m g of (r, g') \<Rightarrow> Q r g')"

named_theorems posts \<open>postconditions of the primitives\<close>

lemma post_gbind [posts]: "post (gbind m f) g Q =
    post m g (\<lambda>r g'. case r of Inl e \<Rightarrow> Q (Inl e) g' | Inr x \<Rightarrow> post (f x) g' Q)"
  by (simp add: post_def gbind_def split: prod.split sum.split)

lemma post_gret [posts]: "post (gret x) g Q = Q (Inr x) g"
  by (simp add: post_def gret_def)

lemma post_gresult [posts]: "post (gresult r) g Q = Q r g"
  by (simp add: post_def gresult_def)

lemma post_read [posts]: "post (read_db f) g Q = Q (f (gws_ai g)) g"
  by (simp add: post_def read_db_def)

lemma post_commit [posts]: "post (commit f) g Q = (case f (gws_ai g) of Inl e \<Rightarrow> Q (Inl e) g
    | Inr (x, db) \<Rightarrow> Q (Inr x) (g\<lparr>gws_ai := db\<rparr>))"
  by (simp add: post_def commit_def split: sum.split prod.split)

lemma post_on_redis: "(\<And>r st. Q r (g\<lparr>gws_redis := st\<rparr>)) \<Longrightarrow> post (on_redis clock m) g Q"
  by (simp add: post_def on_redis_def split: prod.split)

lemma post_mono: "post m g P \<Longrightarrow> (\<And>r g'. P r g' \<Longrightarrow> Q r g') \<Longrightarrow> post m g Q"
  by (auto simp: post_def split: prod.splits)

text \<open>A command sequence that handles every Redis error.\<close>

definition never_raises :: "unit cmd \<Rightarrow> bool" where
  "never_raises m \<longleftrightarrow> (\<forall>clock st. \<exists>st'. m clock st = (Inr (), st'))"

lemma never_raises_cret: "never_raises (cret ())"
  by (simp add: never_raises_def cret_def)

lemma never_raises_handled: "(\<And>clock st e st'. m clock st = (Inl e, st') \<Longrightarrow> e = OperationalError) \<Longrightarrow> never_raises (on_redis_error (cret ()) m)"
proof -
  assume only: "\<And>clock st e st'. m clock st = (Inl e, st') \<Longrightarrow> e = OperationalError"
  have "\<exists>st'. on_redis_error (cret ()) m clock st = (Inr (), st')" for clock st
  proof -
    obtain r st' where "m clock st = (r, st')" by (metis surj_pair)
    with only [of clock st _ st'] show ?thesis by (cases r) (auto simp: on_redis_error_def cret_def)
  qed
  then show ?thesis by (simp add: never_raises_def)
qed

lemma cmd_error: "cmd f clock st = (Inl e, st') \<Longrightarrow> e = OperationalError"
  by (auto simp: cmd_def split: prod.splits option.splits)

lemma release_never_raises: "never_raises (release_concurrent kid)"
  unfolding release_concurrent_def
  by (rule never_raises_handled)
    (auto simp: cbind_def cwhen_def cret_def split: prod.splits sum.splits if_splits dest: cmd_error)

lemma post_unlimit: "never_raises m \<Longrightarrow> (\<And>st. Q (Inr ()) (g\<lparr>gws_redis := st\<rparr>)) \<Longrightarrow> post (on_redis clock m) g Q"
  unfolding post_def on_redis_def never_raises_def by (metis (mono_tags, lifting) prod.case)

subsection \<open>Money\<close>

text \<open>What \<open>open_request\<close> commits, and what it leaves alone when it raises.\<close>

definition opened_ok :: "proxy_env \<Rightarrow> caller \<Rightarrow> json_dict \<Rightarrow> ai_db \<Rightarrow> priced_call \<Rightarrow> ai_db \<Rightarrow> bool" where
  "opened_ok E c body db op db1 \<longleftrightarrow> ai_inv db1 \<and> reservation_get (env_rid E) db = None
     \<and> acct_reserve (env_rid E) (opn_hold op) (account_of (clr_org c) db) = Some (account_of (clr_org c) db1)
     \<and> reservation_get (env_rid E) db1 = Some (opn_reservation op)
     \<and> rsv_id (opn_reservation op) = env_rid E \<and> rsv_org (opn_reservation op) = clr_org c \<and> rsv_status (opn_reservation op) = HoldOpen
     \<and> opn_snapshot op = resolve_snapshot (ais_usd_idr (env_cfg E)) (env_today E) (env_fx E) (opn_model op)
     \<and> (\<exists>src. snapshot_from_reservation (opn_reservation op) = Some ((opn_snapshot op)\<lparr>snap_fx_source := src\<rparr>))
     \<and> mdl_public_id (opn_model op) = model_name E body"

lemma account_of_cong: "ai_wallets d = ai_wallets d' \<Longrightarrow> ai_reservations d = ai_reservations d' \<Longrightarrow> account_of o' d = account_of o' d'"
  by (simp add: account_of_def free_of_cong [of d d'] held_of_cong [of d d'])

lemma reserve_for_ok:
  assumes "ai_inv db" "get_or_create_wallet (clr_org c) db = Inr (w, db1)" "reserve_for E c m s prompt capped hold db1 = Inr (r, db2)"
    "s = resolve_snapshot (ais_usd_idr (env_cfg E)) (env_today E) (env_fx E) m" "mdl_public_id m = model_name E body"
  shows "opened_ok E c body db \<lparr>opn_model = m, opn_candidates = cs, opn_snapshot = s, opn_prompt = prompt, opn_capped = capped,
          opn_hold = hold, opn_reservation = r\<rparr> db2"
proof -
  have i1: "ai_inv db1" "ai_reservations db1 = ai_reservations db" using get_or_create_inv [OF assms(1,2)] by auto
  have a1: "account_of (clr_org c) db1 = account_of (clr_org c) db"
    using get_or_create_free [OF assms(1,2), of "clr_org c"] held_of_cong [OF i1(2)] by (simp add: account_of_def)
  note res = assms(3) [unfolded reserve_for_def]
  note ri = reserve_inv [OF i1(1) res]
  have fresh: "reservation_get (env_rid E) db = None" using ri i1(2) by (simp add: reservation_get_def)
  from ri have r: "r = new_reservation (env_rid E) (clr_org c) hold s \<lparr>hrq_key = clr_key c, hrq_model = Some (mdl_public_id m),
      hrq_prompt_est = Some prompt, hrq_completion_max = Some capped, hrq_actor = clr_user c\<rparr> (env_now E)" by simp
  have "row_get rsv_id (env_rid E) (ai_reservations db1) = None" using ri by (simp add: reservation_get_def)
  then have get: "reservation_get (env_rid E) db2 = Some r" using ri by (simp add: reservation_get_def row_get_append r new_reservation_def)
  have "\<exists>src. snapshot_from_reservation r = Some (s\<lparr>snap_fx_source := src\<rparr>)"
  proof (cases s)
    case (fields pi' po hi ho rate src date)
    then show ?thesis by (auto simp: snapshot_from_reservation_def r new_reservation_def)
  qed
  with ri fresh get reserve_refines(1) [OF i1(1) res] assms(4,5) show ?thesis
    by (simp add: opened_ok_def a1 r new_reservation_def)
qed

lemma find_model_post:
  "post (find_model E body) g (\<lambda>r g'. gws_ai g' = gws_ai g \<and> (case r of Inl e \<Rightarrow> True | Inr (m, cs, s) \<Rightarrow>
     s = resolve_snapshot (ais_usd_idr (env_cfg E)) (env_today E) (env_fx E) m \<and> mdl_public_id m = model_name E body))"
proof (cases "load_candidates (env_cfg E) (env_catalog E) (model_name E body)")
  case (Inl e)
  then show ?thesis by (simp add: find_model_def posts)
next
  case (Inr mc)
  obtain m cs0 where mc: "mc = (m, cs0)" by (cases mc)
  with Inr obtain found where "scalar_one_or_none (filter (\<lambda>m. mdl_public_id m = model_name E body \<and> mdl_enabled m) (cat_models (env_catalog E))) = Inr (Some m)"
    by (auto simp: load_candidates_def Let_def errs split: if_split_asm)
  then have "m \<in> set (filter (\<lambda>m. mdl_public_id m = model_name E body \<and> mdl_enabled m) (cat_models (env_catalog E)))" by (simp add: errs)
  then have "mdl_public_id m = model_name E body" by simp
  with Inr mc show ?thesis unfolding find_model_def by (simp add: posts) (rule post_on_redis, auto simp: posts split: sum.split)
qed

lemma reserve_step_post:
  assumes "ai_inv db" "gws_ai g = db" "get_or_create_wallet (clr_org c) db = Inr (w, db1)"
    "s = resolve_snapshot (ais_usd_idr (env_cfg E)) (env_today E) (env_fx E) m" "mdl_public_id m = model_name E body"
  shows "post (reserve_step E c unlimit m cs s prompt capped hold db1) g (\<lambda>r g'. case r of Inl e \<Rightarrow> gws_ai g' = db
     | Inr op \<Rightarrow> opened_ok E c body db op (gws_ai g'))"
proof (cases "reserve_for E c m s prompt capped hold db1")
  case (Inl e)
  have "post (on_redis (env_clock E) unlimit) g (\<lambda>r g'. gws_ai g' = db)" using assms(2) by (intro post_on_redis) simp
  with Inl show ?thesis unfolding reserve_step_def post_def gbind_def gresult_def
    by (auto split: prod.splits sum.splits)
next
  case (Inr rd)
  obtain r db2 where rd: "rd = (r, db2)" by (cases rd)
  with Inr have "reserve_for E c m s prompt capped hold db1 = Inr (r, db2)" by simp
  from reserve_for_ok [OF assms(1,3) this assms(4,5)] Inr rd show ?thesis
    by (simp add: reserve_step_def post_def gret_def)
qed

lemma open_request_post:
  assumes "ai_inv (gws_ai g)"
  shows "post (open_request E c limits unlimit body) g (\<lambda>r g'. case r of Inl e \<Rightarrow> gws_ai g' = gws_ai g
     | Inr op \<Rightarrow> opened_ok E c body (gws_ai g) op (gws_ai g'))"
  unfolding open_request_def post_gbind [of "find_model E body"]
proof (rule post_mono [OF find_model_post], goal_cases)
  case (1 r g1)
  show ?case
  proof (cases r)
    case (Inl e)
    with 1 show ?thesis by simp
  next
    case (Inr msc)
    obtain m cs s where msc: "msc = (m, cs, s)" by (cases msc)
    with 1 Inr have f: "gws_ai g1 = gws_ai g" "s = resolve_snapshot (ais_usd_idr (env_cfg E)) (env_today E) (env_fx E) m"
      "mdl_public_id m = model_name E body" by simp_all
    show ?thesis
    proof (cases "requested_max_tokens body m")
      case (Inl e)
      with f \<open>r = Inr msc\<close> msc show ?thesis by (simp add: posts)
    next
      case requested: (Inr q)
      show ?thesis
      proof (cases "get_or_create_wallet (clr_org c) (gws_ai g1)")
        case (Inl e)
        with requested f \<open>r = Inr msc\<close> msc show ?thesis by (simp add: posts)
      next
        case wallet: (Inr wd)
        obtain w db1 where wd: "wd = (w, db1)" by (cases wd)
        show ?thesis
        proof (cases "price_request s m (wal_balance w) q (estimate_prompt_tokens body)")
          case (Inl e)
          with wallet wd requested f \<open>r = Inr msc\<close> msc show ?thesis by (simp add: posts)
        next
          case priced: (Inr pch)
          obtain pr cp h where pch: "pch = (pr, cp, h)" by (cases pch)
          have "post (on_redis (env_clock E) (limits cp)) g1 (\<lambda>r g'. case r of Inl e \<Rightarrow> gws_ai g' = gws_ai g
              | Inr x \<Rightarrow> post (reserve_step E c unlimit m cs s pr cp h db1) g' (\<lambda>r g'. case r of Inl e \<Rightarrow> gws_ai g' = gws_ai g
              | Inr op \<Rightarrow> opened_ok E c body (gws_ai g) op (gws_ai g')))"
          proof (rule post_on_redis)
            fix r st
            have "post (reserve_step E c unlimit m cs s pr cp h db1) (g1\<lparr>gws_redis := st\<rparr>) (\<lambda>r g'. case r of
                Inl e \<Rightarrow> gws_ai g' = gws_ai g | Inr op \<Rightarrow> opened_ok E c body (gws_ai g) op (gws_ai g'))"
              by (rule reserve_step_post [OF assms _ wallet [unfolded wd f(1)] f(2,3)]) (simp add: f(1))
            then show "case r of Inl e \<Rightarrow> gws_ai (g1\<lparr>gws_redis := st\<rparr>) = gws_ai g
              | Inr x \<Rightarrow> post (reserve_step E c unlimit m cs s pr cp h db1) (g1\<lparr>gws_redis := st\<rparr>) (\<lambda>r g'. case r of
                Inl e \<Rightarrow> gws_ai g' = gws_ai g | Inr op \<Rightarrow> opened_ok E c body (gws_ai g) op (gws_ai g'))"
              by (cases r) (simp_all add: f(1))
          qed
          with priced pch wallet wd requested \<open>r = Inr msc\<close> msc show ?thesis by (simp add: posts cong: sum.case_cong)
        qed
      qed
    qed
  qed
qed

lemma call_upstream_post: "post (call_upstream E deadline body cs) g (\<lambda>r g'. gws_ai g' = gws_ai g)"
  unfolding call_upstream_def by (rule post_on_redis) simp

text \<open>A reservation that \<open>open_request\<close> made is a row of the state, so the wallet operations refine the account.\<close>

lemma opened_object: "opened_ok E c body db op db1 \<Longrightarrow> object_of (opn_reservation op) db1"
  unfolding opened_ok_def object_of_def reservation_get_def by (auto simp: list_ex_iff dest!: row_get_Some)

lemma record_usage_account: "record_usage e db = Inr db1 \<Longrightarrow> account_of o' db1 = account_of o' db"
  using record_usage_fields [of e db db1] by (intro account_of_cong) auto

definition refunded :: "proxy_env \<Rightarrow> caller \<Rightarrow> ai_db \<Rightarrow> ai_db \<Rightarrow> bool" where
  "refunded E c db1 db2 \<longleftrightarrow> acct_release (env_rid E) (account_of (clr_org c) db1) = Some (account_of (clr_org c) db2)"

lemma fail_release_refunds:
  assumes "opened_ok E c body db op db1" "fail_release E c (env_rid E) m s http request provider db1 = Inr ((), db2)"
  shows "refunded E c db1 db2"
proof -
  have r: "reservation_get (env_rid E) db1 = Some (opn_reservation op)" "rsv_status (opn_reservation op) = HoldOpen" "ai_inv db1"
    "rsv_id (opn_reservation op) = env_rid E" "rsv_org (opn_reservation op) = clr_org c" using assms(1) by (simp_all add: opened_ok_def)
  with assms(2) obtain d2 e where rel: "release (opn_reservation op) db1 = Inr d2" and u: "record_usage e d2 = Inr db2"
    unfolding fail_release_def by (auto simp: errs)
  from release_refines(1) [OF r(3) opened_object [OF assms(1)] rel] record_usage_account [OF u] r show ?thesis
    by (simp add: refunded_def)
qed

text \<open>What a served request costs: the price of the reported tokens at the prices of the snapshot.\<close>

definition charged :: "proxy_env \<Rightarrow> caller \<Rightarrow> snapshot \<Rightarrow> usage_report \<Rightarrow> ai_db \<Rightarrow> ai_db \<Rightarrow> bool" where
  "charged E c s u db1 db2 \<longleftrightarrow> (\<exists>n. acct_settle (env_rid E) (max 0 (billed_idr (rep_prompt u) (rep_completion u) s)) (account_of (clr_org c) db1)
     = Some (account_of (clr_org c) db2, n))"

lemma billed_idr_source: "billed_idr p q (s\<lparr>snap_fx_source := src\<rparr>) = billed_idr p q s"
  by (simp add: billed_idr_def)

lemma settle_usage_charges:
  assumes "opened_ok E c body db op db1" "env_between E = (\<lambda>i d. d)"
    "settle_usage E c (env_rid E) m u request provider cogs db1 = Inr ((), db2)"
  shows "charged E c (opn_snapshot op) u db1 db2"
proof -
  have r: "reservation_get (env_rid E) db1 = Some (opn_reservation op)" "rsv_status (opn_reservation op) = HoldOpen" "ai_inv db1"
    "rsv_id (opn_reservation op) = env_rid E" "rsv_org (opn_reservation op) = clr_org c" using assms(1) by (simp_all add: opened_ok_def)
  from assms(1) obtain src where src: "snapshot_from_reservation (opn_reservation op) = Some ((opn_snapshot op)\<lparr>snap_fx_source := src\<rparr>)"
    unfolding opened_ok_def by blast
  from assms(3) r(1,2) obtain e d2 where ru: "record_usage e db1 = Inr d2"
    and st: "settle (env_between E) (opn_reservation op) (billed_idr (rep_prompt u) (rep_completion u) (opn_snapshot op)) (Some (env_uid E)) d2 = Inr db2"
    unfolding settle_usage_def by (auto simp: errs src Let_def billed_idr_source)
  note f = record_usage_fields [OF ru]
  have i2: "ai_inv d2" using f ai_inv_cong [of d2 db1] r(3) by simp
  have o2: "object_of (opn_reservation op) d2" using opened_object [OF assms(1)] f by (simp add: object_of_def)
  from settle_refines(1) [OF i2 o2 st [unfolded assms(2)]] record_usage_account [OF ru] r(4,5) show ?thesis
    by (auto simp: charged_def)
qed

subsection \<open>The outcome of a call\<close>

definition closed_by :: "proxy_env \<Rightarrow> caller \<Rightarrow> snapshot \<Rightarrow> json_dict \<Rightarrow> ai_db \<Rightarrow> answer result \<Rightarrow> ai_db \<Rightarrow> bool" where
  "closed_by E c s body db1 r db2 = (case r of
     Inl e \<Rightarrow> db2 = db1
   | Inr (OpenAiError status message kind code) \<Rightarrow> refunded E c db1 db2
   | Inr (ChatAnswer p) \<Rightarrow> (\<exists>code u. report_of E body code p = Inr u \<and> charged E c s u db1 db2))"

lemma failed_call_post:
  assumes "opened_ok E c body db op (gws_ai g)" "never_raises unlimit"
  shows "post (failed_call E c unlimit op request http provider (OpenAiError a b k d)) g
    (\<lambda>r g'. closed_by E c s body (gws_ai g) r (gws_ai g'))"
  unfolding failed_call_def post_gbind [of "on_redis (env_clock E) unlimit"]
proof (rule post_unlimit [OF assms(2)])
  fix st
  have rid: "rsv_id (opn_reservation op) = env_rid E" using assms(1) by (simp add: opened_ok_def)
  show "case Inr () of Inl e \<Rightarrow> closed_by E c s body (gws_ai g) (Inl e) (gws_ai (g\<lparr>gws_redis := st\<rparr>))
    | Inr x \<Rightarrow> post (gbind (commit (fail_release E c (rsv_id (opn_reservation op)) (opn_model op) (opn_snapshot op) http request provider))
        (\<lambda>_. gret (OpenAiError a b k d))) (g\<lparr>gws_redis := st\<rparr>) (\<lambda>r g'. closed_by E c s body (gws_ai g) r (gws_ai g'))"
    using fail_release_refunds [OF assms(1), of "opn_model op" "opn_snapshot op" http request provider]
    by (auto simp: posts rid closed_by_def split: sum.split)
qed

lemma served_call_post:
  assumes "opened_ok E c body db op (gws_ai g)" "never_raises unlimit" "env_between E = (\<lambda>i d. d)"
  shows "post (gbind (gresult (report_of E body code p)) (\<lambda>u.
      gbind (commit (settle_usage E c (rsv_id (opn_reservation op)) (opn_model op) u request provider cogs)) (\<lambda>_.
      gbind (on_redis (env_clock E) unlimit) (\<lambda>_. gret (ChatAnswer p))))) g
    (\<lambda>r g'. closed_by E c (opn_snapshot op) body (gws_ai g) r (gws_ai g'))"
proof (cases "report_of E body code p")
  case (Inl e)
  then show ?thesis by (simp add: posts closed_by_def)
next
  case u: (Inr u)
  have rid: "rsv_id (opn_reservation op) = env_rid E" using assms(1) by (simp add: opened_ok_def)
  show ?thesis
  proof (cases "settle_usage E c (env_rid E) (opn_model op) u request provider cogs (gws_ai g)")
    case (Inl e)
    with u rid show ?thesis by (simp add: posts closed_by_def)
  next
    case (Inr x)
    then obtain db2 where s: "settle_usage E c (env_rid E) (opn_model op) u request provider cogs (gws_ai g) = Inr ((), db2)" by (cases x) auto
    have ch: "charged E c (opn_snapshot op) u (gws_ai g) db2" by (rule settle_usage_charges [OF assms(1,3) s])
    have "post (on_redis (env_clock E) unlimit) (g\<lparr>gws_ai := db2\<rparr>) (\<lambda>r g'. case r of
        Inl e \<Rightarrow> closed_by E c (opn_snapshot op) body (gws_ai g) (Inl e) (gws_ai g')
      | Inr x \<Rightarrow> closed_by E c (opn_snapshot op) body (gws_ai g) (Inr (ChatAnswer p)) (gws_ai g'))"
      by (rule post_unlimit [OF assms(2)]) (use u ch in \<open>auto simp: closed_by_def\<close>)
    with u s rid show ?thesis by (simp add: posts cong: sum.case_cong)
  qed
qed

lemma finish_call_post:
  assumes "opened_ok E c body db op (gws_ai g)" "never_raises unlimit" "env_between E = (\<lambda>i d. d)"
  shows "post (finish_call E c unlimit op body res) g (\<lambda>r g'. closed_by E c (opn_snapshot op) body (gws_ai g) r (gws_ai g'))"
proof -
  note fails = failed_call_post [OF assms(1,2), of _ _ _ _ _ _ _ "opn_snapshot op"] and serves = served_call_post [OF assms]
  show ?thesis
    unfolding finish_call_def generic_upstream_fail_def Let_def
    by (auto split: option.split prod.split intro!: fails serves)
qed

definition call_outcome :: "proxy_env \<Rightarrow> caller \<Rightarrow> json_dict \<Rightarrow> ai_db \<Rightarrow> answer result \<Rightarrow> ai_db \<Rightarrow> bool" where
  "call_outcome E c body db r db' = (let A = account_of (clr_org c) db; A' = account_of (clr_org c) db' in
     case r of Inl e \<Rightarrow> db' = db \<or> (\<exists>hold. acct_reserve (env_rid E) hold A = Some A')
     | Inr (OpenAiError status message kind code) \<Rightarrow> A' = A
     | Inr (ChatAnswer p) \<Rightarrow> \<exists>m code u cost. mdl_public_id m = model_name E body \<and> report_of E body code p = Inr u
         \<and> cost = max 0 (billed_idr (rep_prompt u) (rep_completion u)
             (resolve_snapshot (ais_usd_idr (env_cfg E)) (env_today E) (env_fx E) m))
         \<and> A' = A\<lparr>acc_free := acc_free A - min cost (acc_free A)\<rparr>)"

lemma net_release:
  assumes "acct_reserve rid hold A = Some A1" "acc_held A rid = None" "acct_release rid A1 = Some A2"
  shows "A2 = A"
  using assms by (cases A) (auto simp: acct_reserve_def acct_release_def fun_upd_idem split: if_splits)

lemma net_settle:
  assumes "acct_reserve rid hold A = Some A1" "acc_held A rid = None" "acct_settle rid cost A1 = Some (A2, n)"
  shows "A2 = A\<lparr>acc_free := acc_free A - min cost (acc_free A)\<rparr>"
  using assms by (cases A) (auto simp: acct_reserve_def acct_settle_def Let_def fun_upd_idem split: if_splits)

lemma closed_by_outcome:
  assumes "opened_ok E c body db op db1" "closed_by E c (opn_snapshot op) body db1 r db2"
  shows "call_outcome E c body db r db2"
proof -
  have held: "acc_held (account_of (clr_org c) db) (env_rid E) = None"
    using assms(1) by (simp add: opened_ok_def account_of_def held_of_def)
  have res: "acct_reserve (env_rid E) (opn_hold op) (account_of (clr_org c) db) = Some (account_of (clr_org c) db1)"
    using assms(1) by (simp add: opened_ok_def)
  show ?thesis
  proof (cases r)
    case (Inl e)
    with assms(2) res show ?thesis by (auto simp: call_outcome_def closed_by_def Let_def)
  next
    case (Inr a)
    show ?thesis
    proof (cases a)
      case (OpenAiError st ms k cd)
      with Inr assms(2) net_release [OF res held] show ?thesis by (simp add: call_outcome_def closed_by_def refunded_def Let_def)
    next
      case (ChatAnswer p)
      with Inr assms(2) obtain code u n where u: "report_of E body code p = Inr u"
        and st: "acct_settle (env_rid E) (max 0 (billed_idr (rep_prompt u) (rep_completion u) (opn_snapshot op))) (account_of (clr_org c) db1)
          = Some (account_of (clr_org c) db2, n)" by (auto simp: closed_by_def charged_def)
      have m: "mdl_public_id (opn_model op) = model_name E body"
        "opn_snapshot op = resolve_snapshot (ais_usd_idr (env_cfg E)) (env_today E) (env_fx E) (opn_model op)"
        using assms(1) by (simp_all add: opened_ok_def)
      show ?thesis
        unfolding ChatAnswer Inr call_outcome_def Let_def sum.case answer.case
        by (rule exI [of _ "opn_model op"], rule exI [of _ code], rule exI [of _ u]) (simp add: m(1) u net_settle [OF res held st] flip: m(2))
    qed
  qed
qed

lemma served_request_outcome:
  assumes "ai_inv (gws_ai g)" "env_between E = (\<lambda>i d. d)" "never_raises unlimit"
  shows "post (gbind (open_request E c limits unlimit body) (\<lambda>op. gbind (call_upstream E deadline (upstream_body op) (opn_candidates op)) (\<lambda>res.
      finish_call E c unlimit op body res))) g (\<lambda>r g'. call_outcome E c body (gws_ai g) r (gws_ai g'))"
  unfolding post_gbind [of "open_request E c limits unlimit body"]
proof (rule post_mono [OF open_request_post [OF assms(1)]], goal_cases)
  case (1 r g1)
  show ?case
  proof (cases r)
    case (Inl e)
    with 1 show ?thesis by (simp add: call_outcome_def)
  next
    case (Inr op)
    with 1 have ok: "opened_ok E c body (gws_ai g) op (gws_ai g1)" by simp
    have "post (gbind (call_upstream E deadline (upstream_body op) (opn_candidates op)) (\<lambda>res. finish_call E c unlimit op body res)) g1
        (\<lambda>r g'. call_outcome E c body (gws_ai g) r (gws_ai g'))"
      unfolding post_gbind
    proof (rule post_mono [OF call_upstream_post], goal_cases)
      case (1 r2 g2)
      show ?case
      proof (cases r2)
        case (Inl e)
        have "closed_by E c (opn_snapshot op) body (gws_ai g1) (Inl e) (gws_ai g2)" using 1 by (simp add: closed_by_def)
        with Inl closed_by_outcome [OF ok] show ?thesis by simp
      next
        case (Inr res)
        have "opened_ok E c body (gws_ai g) op (gws_ai g2)" using ok 1 by simp
        from finish_call_post [OF this assms(3,2), of res] show ?thesis
          unfolding Inr sum.case by (rule post_mono) (use 1 closed_by_outcome [OF ok] in simp)
      qed
    qed
    with Inr show ?thesis by simp
  qed
qed

lemma gbind_assoc: "gbind (gbind m f) h = gbind m (\<lambda>x. gbind (f x) h)"
  by (simp add: gbind_def fun_eq_iff split: prod.split sum.split)

lemma guarded_outcome:
  "post m g (\<lambda>r g'. call_outcome E c body (gws_ai g) r (gws_ai g')) \<Longrightarrow>
   post (gbind (gresult guard) (\<lambda>_. m)) g (\<lambda>r g'. call_outcome E c body (gws_ai g) r (gws_ai g'))"
  by (simp add: posts call_outcome_def split: sum.split)


subsection \<open>A concrete gateway\<close>

definition one_model :: ai_model where
  "one_model = \<lparr>mdl_id = 1, mdl_public_id = ''m'', mdl_provider = 1, mdl_upstream_id = ''up'', mdl_hpp_usd_per_1k_in = 0,
     mdl_hpp_usd_per_1k_out = 0, mdl_price_idr_per_1k_in = 0, mdl_price_idr_per_1k_out = 0, mdl_price_usd_per_1m_in = Some 3000000,
     mdl_price_usd_per_1m_out = Some 15000000, mdl_hpp_usd_per_1m_in = Some 0, mdl_hpp_usd_per_1m_out = Some 0, mdl_max_ctx = 8192,
     mdl_max_tokens_cap = 100, mdl_enabled = True\<rparr>"

definition one_provider :: ai_provider where
  "one_provider = \<lparr>prv_id = 1, prv_base_url = ''u'', prv_auth_header = ''A'', prv_credential = [], prv_enabled = True, prv_status = ''ok'', prv_last_probed = None\<rparr>"

definition one_config :: ai_settings where
  "one_config = \<lparr>ais_usd_idr = 16000, ais_failover = True, ais_max_candidates = 4, ais_deadline = 100000, ais_min_attempt = 5000,
     ais_admin_deadline = 45000, ais_trial_cap_usd = None, ais_trial_cap_idr = 500000,
     ais_breaker = \<lparr>brk_threshold = 5, brk_window = 120, brk_cooldown = 60\<rparr>\<rparr>"

definition served_body :: json where
  "served_body = JsonObject [(''usage'', JsonObject [(''prompt_tokens'', JsonInt 1000), (''completion_tokens'', JsonInt 50)])]"

definition one_env :: "upstream_reply \<Rightarrow> proxy_env" where
  "one_env reply = \<lparr>env_cfg = one_config, env_catalog = \<lparr>cat_providers = [one_provider], cat_models = [one_model], cat_upstreams = []\<rparr>,
     env_fx = [], env_today = 0, env_now = 0, env_clock = at 0, env_decrypt = Inr, env_upstream = (\<lambda>i call. reply), env_elapsed = (\<lambda>i. 0),
     env_latency = 0, env_repr = (\<lambda>_. []), env_between = (\<lambda>i d. d), env_rid = 9, env_uid = 3\<rparr>"

definition chat_body :: json_dict where
  "chat_body = [(''model'', JsonStr ''m''), (''messages'', JsonArray [JsonNull])]"

definition one_state :: gateway_state where
  "one_state = \<lparr>gws_ai = wallet1, gws_redis = (0, \<lambda>_. None)\<rparr>"

lemma wallet1_inv: "ai_inv wallet1"
  using release_inv [OF wallet0_inv _ wallet0_release] by (simp add: held_row_def new_reservation_def)


subsection \<open>Where the code does not do what it says\<close>

text \<open>The estimate of the prompt is at least one token, so the branch of \<open>_billable_tokens\<close> for an empty answer is dead:
  an answer without usage is always charged.\<close>

lemma empty_answer_is_charged:
  "prompt + completion \<le> 0 \<Longrightarrow> case billable_tokens request prompt completion content of (p, c, missing, estimated) \<Rightarrow> 1 \<le> p \<and> estimated"
proof -
  have "1 \<le> estimate_prompt_tokens request" by (simp add: estimate_prompt_tokens_def split: json.split)
  then show "prompt + completion \<le> 0 \<Longrightarrow> ?thesis" by (simp add: billable_tokens_def Let_def)
qed

text \<open>A payload without usage whose list of choices is empty raises; the paid reservation stays open.\<close>

lemma empty_choices_raise: "usage_from_payload [(''choices'', JsonArray [])] = Inl (PyError ''IndexError'')"
  by code_simp

lemma empty_choices_leave_hold:
  "finish_call E c unlimit op body \<lparr>upr_reply = Some (200, Some (JsonObject [(''choices'', JsonArray [])])), upr_candidate = Some served\<rparr> g
     = (Inl (PyError ''IndexError''), g)"
proof -
  have "report_of E body 200 (JsonObject [(''choices'', JsonArray [])]) = Inl (PyError ''IndexError'')"
    by (simp add: report_of_def as_dict_def empty_choices_raise)
  then show ?thesis by (simp add: finish_call_def gbind_def gresult_def Let_def)
qed

text \<open>A non-positive \<open>max_tokens\<close> holds the price of one token and is passed on as it is.\<close>

lemma nonpositive_max_tokens_pass:
  assumes "requested \<le> 0" "price_request s m balance requested prompt_est = Inr (prompt, capped, hold)" "1 \<le> mdl_max_tokens_cap m"
  shows "capped = requested \<and> hold = hold_idr 1 s prompt"
proof -
  define afford where "afford = affordable_max_tokens balance s (mdl_max_tokens_cap m) prompt"
  from assms(2) have p: "prompt = affordable_prompt_tokens balance s prompt_est" "1 \<le> afford"
    "capped = min requested (min (mdl_max_tokens_cap m) afford)" "hold = hold_idr capped s prompt"
    unfolding afford_def by (auto simp: price_request_def Let_def split: if_split_asm)
  with assms(1,3) show ?thesis by (simp add: hold_idr_def min_def)
qed

text \<open>A model without a price cannot be called: its hold is zero, and \<open>reserve\<close> refuses that.\<close>

lemma free_model_is_refused:
  assumes "snap_price_in s = 0" "snap_price_out s = 0"
  shows "hold_idr n s p = 0 \<and> reserve rid org (hold_idr n s p) s q now db = Inl (HTTPError 422 ''hold must be positive'')"
  using assms by (simp add: hold_idr_def billed_idr_def usd_of_def ceil_idr_def ceil_div_def reserve_def)

end
