(* ===== verification/AiStream.thy ===== *)
theory AiStream
  imports AiProxy
begin

text \<open>
  The streamed chat call (\<open>_stream_and_settle\<close>) and the platform-paid trial (\<open>admin_trial_chat\<close>) of
  \<open>services/ai_proxy.py\<close>. A streamed answer is the chunks the provider sends, each as the lines of its text, and whether
  the connection broke at the end; \<open>loads\<close> is \<open>json.loads\<close>. The client may close the stream after any chunk
  (\<open>closes\<close>); then, as after an exception, the \<open>finally\<close> block runs with what was read so far.
\<close>

subsection \<open>Reading the stream\<close>

datatype stream_reply = ConnectFailed | StreamReply nat "string list list" bool   \<comment> \<open>status, chunks, broken off\<close>

record stream_acc =
  sac_prompt :: int
  sac_completion :: int
  sac_cached :: int
  sac_finish :: json
  sac_request_id :: json
  sac_status :: nat
  sac_first_byte :: bool
  sac_ttft :: "int option"
  sac_content :: string

definition acc0 :: stream_acc where
  "acc0 = \<lparr>sac_prompt = 0, sac_completion = 0, sac_cached = 0, sac_finish = JsonNull, sac_request_id = JsonNull, sac_status = 200,
     sac_first_byte = False, sac_ttft = None, sac_content = []\<rparr>"

record stream_env =
  sen_proxy :: proxy_env
  sen_stream :: "nat \<Rightarrow> upstream_call \<Rightarrow> stream_reply"
  sen_loads :: "string \<Rightarrow> json option"
  sen_closes :: "nat \<Rightarrow> bool"      \<comment> \<open>the client closes at this chunk\<close>
  sen_first_token :: int           \<comment> \<open>milliseconds\<close>

definition read_piece :: "stream_env \<Rightarrow> json_dict \<Rightarrow> stream_acc \<Rightarrow> stream_acc" where
  "read_piece S payload acc = (let piece = delta_content payload in if piece = [] then acc
     else acc\<lparr>sac_ttft := Some (case sac_ttft acc of None \<Rightarrow> sen_first_token S | Some t \<Rightarrow> t), sac_content := sac_content acc @ piece\<rparr>)"

text \<open>One decoded event; an exception keeps what was read before it.\<close>

definition read_event :: "stream_env \<Rightarrow> json_dict \<Rightarrow> stream_acc \<Rightarrow> error option \<times> stream_acc" where
  "read_event S payload before =
     (let id = jget ''id'' payload;
          acc = (if truthy id then before\<lparr>sac_request_id := JsonStr (py_str (env_repr (sen_proxy S)) id)\<rparr> else before) in
      case usage_from_payload payload of Inl e \<Rightarrow> (Some e, acc)
    | Inr (p, c, f) \<Rightarrow> (case cached_tokens_from_payload payload of Inl e \<Rightarrow> (Some e, acc)
    | Inr cached \<Rightarrow>
       let acc1 = (if cached \<noteq> 0 then acc\<lparr>sac_cached := cached\<rparr> else acc);
           acc2 = (if p \<noteq> 0 \<or> c \<noteq> 0 then acc1\<lparr>sac_prompt := p, sac_completion := c\<rparr> else read_piece S payload acc1) in
       (None, if truthy f then acc2\<lparr>sac_finish := f\<rparr> else acc2)))"

fun read_lines :: "stream_env \<Rightarrow> string list \<Rightarrow> stream_acc \<Rightarrow> error option \<times> stream_acc" where
  "read_lines S [] acc = (None, acc)"
| "read_lines S (line # lines) acc =
     (let data = strip (drop 5 line) in
      if take 5 line \<noteq> ''data:'' \<or> data = ''[DONE]'' then read_lines S lines acc
      else case sen_loads S data of
        Some (JsonObject payload) \<Rightarrow> (case read_event S payload acc of
           (Some e, acc') \<Rightarrow> (Some e, acc') | (None, acc') \<Rightarrow> read_lines S lines acc')
      | _ \<Rightarrow> read_lines S lines acc)"

datatype stop = RunsOut | Raises error | ClientCloses

fun read_chunks :: "stream_env \<Rightarrow> nat \<Rightarrow> string list list \<Rightarrow> stream_acc \<Rightarrow> stop \<times> stream_acc" where
  "read_chunks S i [] acc = (RunsOut, acc)"
| "read_chunks S i (chunk # chunks) acc = (case read_lines S chunk (acc\<lparr>sac_first_byte := True\<rparr>) of
     (Some e, acc') \<Rightarrow> (Raises e, acc')
   | (None, acc') \<Rightarrow> if sen_closes S i then (ClientCloses, acc') else read_chunks S (Suc i) chunks acc')"

record stream_out =
  sou_acc :: stream_acc
  sou_served :: "candidate option"
  sou_failed :: bool
  sou_stop :: stop

fun stream_rounds :: "stream_env \<Rightarrow> int \<Rightarrow> int \<Rightarrow> json_dict \<Rightarrow> nat \<Rightarrow> candidate list \<Rightarrow> stream_acc \<Rightarrow> stream_out cmd" where
  "stream_rounds S deadline capped body i [] acc =
     cret \<lparr>sou_acc = acc, sou_served = None, sou_failed = False, sou_stop = RunsOut\<rparr>"
| "stream_rounds S deadline capped body i (c # cs) acc =
     (let cfg = env_cfg (sen_proxy S);
          leave = (\<lambda>a failed stop. \<lparr>sou_acc = a, sou_served = Some c, sou_failed = failed, sou_stop = stop\<rparr>);
          retry = can_retry cfg cs deadline (env_elapsed (sen_proxy S) i);
          next_round = stream_rounds S deadline capped body (Suc i) cs;
          broken = (\<lambda>a. cbind (record_failure (ais_breaker cfg) (cnd_provider c)) (\<lambda>_.
            if \<not> sac_first_byte a \<and> retry then next_round a else cret (leave a True RunsOut))) in
      case candidate_target (env_decrypt (sen_proxy S)) c capped of
        Inl e \<Rightarrow> cret (leave acc False (Raises e))
      | Inr (url, header, max_tokens) \<Rightarrow>
          (case sen_stream S i \<lparr>upc_url = url, upc_header = header, upc_body = attempt_body body c max_tokens\<rparr> of
             ConnectFailed \<Rightarrow> broken acc
           | StreamReply code chunks breaks \<Rightarrow>
               let acc1 = acc\<lparr>sac_status := code\<rparr> in
               if 400 \<le> code then
                 cbind (cwhen (retryable_status code) (record_failure (ais_breaker cfg) (cnd_provider c))) (\<lambda>_.
                 if retryable_status code \<and> retry then next_round acc1 else cret (leave acc1 True RunsOut))
               else (case read_chunks S 0 chunks acc1 of
                 (RunsOut, acc2) \<Rightarrow> if breaks then broken acc2
                   else cbind (record_success (cnd_provider c)) (\<lambda>_. cret (leave acc2 False RunsOut))
               | (stop, acc2) \<Rightarrow> cret (leave acc2 False stop))))"

definition stream_report :: "stream_env \<Rightarrow> json_dict \<Rightarrow> stream_acc \<Rightarrow> usage_report" where
  "stream_report S request acc =
     (let (p, c, missing, estimated) = billable_tokens request (sac_prompt acc) (sac_completion acc) (sac_content acc) in
      \<lparr>rep_prompt = p, rep_completion = c, rep_cached = sac_cached acc, rep_missing = missing, rep_estimated = estimated,
       rep_ttft = sac_ttft acc, rep_latency = Some (env_latency (sen_proxy S)), rep_status = int (sac_status acc),
       rep_finish = sac_finish acc, rep_request_id = sac_request_id acc, rep_response = None\<rparr>)"

text \<open>The \<open>finally\<close> block: whatever ended the stream, the slot is given back and the reservation is closed.\<close>

definition stream_finally :: "stream_env \<Rightarrow> api_key \<Rightarrow> ai_model \<Rightarrow> snapshot \<Rightarrow> uuid \<Rightarrow> json_dict \<Rightarrow> stream_out \<Rightarrow> unit gwm" where
  "stream_finally S k m locked rid body out =
     (let E = sen_proxy S; request = jset ''model'' (JsonStr (mdl_public_id m)) body; acc = sou_acc out in
      gbind (on_redis (env_clock E) (release_concurrent (apk_id k))) (\<lambda>_.
      case sou_served out of
        Some served \<Rightarrow>
          if sou_failed out
          then commit (fail_release E (key_caller k) rid m locked (Some (int (sac_status acc))) request (Some (cnd_provider served)))
          else commit (settle_usage E (key_caller k) rid m (stream_report S request acc) request (Some (cnd_provider served))
            (Some (cogs_snapshot served locked)))
      | None \<Rightarrow> commit (fail_release E (key_caller k) rid m locked (Some (int (sac_status acc))) request None)))"

definition stream_and_settle :: "stream_env \<Rightarrow> api_key \<Rightarrow> priced_call \<Rightarrow> json_dict \<Rightarrow> stop gwm" where
  "stream_and_settle S k op body =
     gbind (on_redis (env_clock (sen_proxy S)) (stream_rounds S (ais_deadline (env_cfg (sen_proxy S))) (opn_capped op) body 0
       (opn_candidates op) acc0)) (\<lambda>out.
     gbind (stream_finally S k (opn_model op) (opn_snapshot op) (rsv_id (opn_reservation op)) body out) (\<lambda>_.
     gret (sou_stop out)))"

definition stream_body :: "int \<Rightarrow> json_dict \<Rightarrow> json_dict" where
  "stream_body capped body = jset ''stream_options'' (JsonObject [(''include_usage'', JsonBool True)])
     (jset ''max_tokens'' (JsonInt capped) body)"

definition stream_chat :: "stream_env \<Rightarrow> api_key \<Rightarrow> json_dict \<Rightarrow> stop gwm" where   \<comment> \<open>\<open>chat_completions\<close> with \<open>stream\<close>\<close>
  "stream_chat S k body = gbind (open_chat (sen_proxy S) k body) (\<lambda>op.
     stream_and_settle S k op (stream_body (opn_capped op) body))"

text \<open>The route \<open>/v1/chat/completions\<close> (\<open>api/openai_v1_routes.py\<close>) turns an \<open>HTTPException\<close> into an answer.\<close>

definition v1_answer :: "answer result \<Rightarrow> answer result" where
  "v1_answer r = (case r of
     Inl (HTTPError code detail) \<Rightarrow>
       if code = 402 then Inr (OpenAiError 402 detail ''insufficient_quota'' (Some ''insufficient_quota''))
       else if code = 404 then Inr (OpenAiError 404 ''The model does not exist'' ''invalid_request_error'' (Some ''model_not_found''))
       else if code = 401 then Inr (OpenAiError 401 ''Invalid API key'' ''invalid_request_error'' (Some ''invalid_api_key''))
       else Inr (OpenAiError code detail ''invalid_request_error'' None)
   | r \<Rightarrow> r)"

definition v1_chat :: "proxy_env \<Rightarrow> api_key \<Rightarrow> json option \<Rightarrow> answer gwm" where
  "v1_chat E k body = (case body of
     Some (JsonObject d) \<Rightarrow> (\<lambda>g. case chat_completions E k d g of (r, g') \<Rightarrow> (v1_answer r, g'))
   | _ \<Rightarrow> gret (OpenAiError 400 ''Invalid JSON'' ''invalid_request_error'' None))"

subsection \<open>The trial of the platform\<close>

text \<open>Amounts here are \<open>10^-20\<close> USD; \<open>legacy_usd\<close> is the numeric division of the database.\<close>

definition trial_cap_usd :: "ai_settings \<Rightarrow> int \<times> nat" where   \<comment> \<open>coefficient, decimals\<close>
  "trial_cap_usd cfg = (case ais_trial_cap_usd cfg of Some cap \<Rightarrow> (cap, 12) | None \<Rightarrow> divide28 (ais_trial_cap_idr cfg) (ais_usd_idr cfg))"

definition month_start :: "datetime \<Rightarrow> datetime" where "month_start now = datetime_ymd (year_of now) (month_of now) 1"

definition admin_trial_spent_usd :: "(int \<Rightarrow> int) \<Rightarrow> datetime \<Rightarrow> ai_db \<Rightarrow> int" where
  "admin_trial_spent_usd legacy_usd now db = sum_list (map (\<lambda>e. case use_cogs_usd e of Some c \<Rightarrow> c * 10 ^ 8 | None \<Rightarrow> legacy_usd (use_cogs_idr e))
     (filter (\<lambda>e. use_source e = ''admin_trial'' \<and> month_start now \<le> use_created e) (ai_usage db)))"

definition reaches_cap :: "int \<Rightarrow> int \<times> nat \<Rightarrow> bool" where   \<comment> \<open>\<open>spent >= cap\<close>\<close>
  "reaches_cap spent cap \<longleftrightarrow> fst cap * 10 ^ 20 \<le> spent * 10 ^ snd cap"

definition exceeds_cap :: "int \<Rightarrow> int \<times> nat \<Rightarrow> bool" where
  "exceeds_cap spent cap \<longleftrightarrow> fst cap * 10 ^ 20 < spent * 10 ^ snd cap"

definition admin_caller :: "uuid \<Rightarrow> caller" where
  "admin_caller admin = \<lparr>clr_org = 0, clr_user = Some admin, clr_key = None, clr_source = ''admin_trial'', clr_down_status = Some 502\<rparr>"

text \<open>\<open>_admin_trial_usage\<close>: an event of no organization.\<close>

definition admin_trial_usage :: "proxy_env \<Rightarrow> uuid \<Rightarrow> ai_model \<Rightarrow> snapshot \<Rightarrow> uuid option \<Rightarrow> (usage_event \<Rightarrow> usage_event) \<Rightarrow> int \<Rightarrow> int \<Rightarrow>
   ai_db \<Rightarrow> (unit \<times> ai_db) result" where
  "admin_trial_usage E admin m s provider fill prompt completion db =
     ebind (usd_or_error (billed_usd prompt completion s)) (\<lambda>bu.
     ebind (usd_or_error (cogs_usd prompt completion s)) (\<lambda>cu.
     ebind (record_usage (fill ((blank_event E (admin_caller admin) m None provider s)\<lparr>use_org := None, use_prompt := prompt,
       use_completion := completion, use_billed_usd := Some bu, use_cogs_usd := Some cu\<rparr>)) db) (\<lambda>db1. Inr ((), db1))))"

definition failed_trial :: "proxy_env \<Rightarrow> uuid \<Rightarrow> ai_model \<Rightarrow> snapshot \<Rightarrow> uuid option \<Rightarrow> json_dict \<Rightarrow> int \<Rightarrow> answer \<Rightarrow> answer gwm" where
  "failed_trial E admin m s provider body http_status ans =
     gbind (commit (admin_trial_usage E admin m s provider (\<lambda>e. e\<lparr>use_http_status := Some http_status, use_request := Some body\<rparr>) 0 0)) (\<lambda>_.
     gret ans)"

definition served_trial :: "proxy_env \<Rightarrow> uuid \<Rightarrow> ai_model \<Rightarrow> snapshot \<Rightarrow> snapshot \<Rightarrow> uuid option \<Rightarrow> json_dict \<Rightarrow> int \<Rightarrow> nat \<Rightarrow> json \<Rightarrow> answer gwm" where
  "served_trial E admin m s effective provider body spent code p =
     gbind (gresult (report_of E body code p)) (\<lambda>u.
     gbind (gresult (usd_or_error (cogs_usd (rep_prompt u) (rep_completion u) effective))) (\<lambda>cu.
     gbind (gresult (text_column (rep_finish u))) (\<lambda>finish.
     gbind (gresult (text_column (rep_request_id u))) (\<lambda>request_id.
     let billed = (if exceeds_cap (ctx28 (spent + cu * 10 ^ 8)) (trial_cap_usd (env_cfg E)) then 0
                   else billed_idr (rep_prompt u) (rep_completion u) s);
         cogs = cogs_idr (rep_prompt u) (rep_completion u) effective in
     gbind (commit (admin_trial_usage E admin m effective provider (\<lambda>e. e\<lparr>use_billed_idr := billed, use_cogs_idr := cogs,
       use_missing := rep_missing u, use_estimated := rep_estimated u, use_http_status := Some (int code), use_cached := rep_cached u,
       use_latency := rep_latency u, use_finish := finish, use_request_id := request_id, use_request := Some body,
       use_response := rep_response u\<rparr>) (rep_prompt u) (rep_completion u))) (\<lambda>_.
     gret (ChatAnswer p))))))"

definition admin_trial_chat :: "proxy_env \<Rightarrow> (int \<Rightarrow> int) \<Rightarrow> uuid \<Rightarrow> json_dict \<Rightarrow> answer gwm" where
  "admin_trial_chat E legacy_usd admin body =
     gbind (gresult (raise_if (truthy (jget ''stream'' body)) (HTTPError 400 ''stream is not supported for admin trial''))) (\<lambda>_.
     gbind (gresult (validate_body body)) (\<lambda>_.
     gbind (find_model E body) (\<lambda>(m, cs, s).
     gbind (read_db (\<lambda>db. Inr (admin_trial_spent_usd legacy_usd (env_now E) db))) (\<lambda>spent.
     gbind (gresult (raise_if (reaches_cap spent (trial_cap_usd (env_cfg E))) (HTTPError 402 ''Admin trial monthly cap reached''))) (\<lambda>_.
     gbind (gresult (if truthy (jget ''max_tokens'' body) then py_int (jget ''max_tokens'' body) else Inr (mdl_max_tokens_cap m))) (\<lambda>requested.
     gbind (call_upstream E (ais_admin_deadline (env_cfg E))
       (jset ''max_tokens'' (JsonInt (min requested (mdl_max_tokens_cap m))) body) cs) (\<lambda>res.
     let served = upr_candidate res; provider = map_option cnd_provider served;
         effective = (case served of None \<Rightarrow> s | Some c \<Rightarrow> cogs_snapshot c s);
         failed = failed_trial E admin m effective provider body in
     (case (upr_reply res, served) of
        (Some (code, payload), Some c) \<Rightarrow>
          if code \<in> {401, 403} \<or> 500 \<le> code then failed (int code) generic_upstream_fail
          else if 400 \<le> code then failed (int code) (OpenAiError code ''Request rejected'' ''invalid_request_error'' None)
          else (case payload of None \<Rightarrow> failed (int code) generic_upstream_fail
            | Some p \<Rightarrow> served_trial E admin m s effective provider body spent code p)
      | _ \<Rightarrow> failed 502 generic_upstream_fail))))))))"

subsection \<open>The outcome of a stream\<close>

lemma record_failure_never_raises: "never_raises (record_failure b p)"
  unfolding record_failure_def
  by (rule never_raises_handled)
    (auto simp: note_failure_def cbind_def cwhen_def cret_def split: prod.splits sum.splits if_splits dest: cmd_error)

lemma record_success_never_raises: "never_raises (record_success p)"
  unfolding record_success_def by (rule never_raises_handled) (auto dest: cmd_error)

lemma stream_rounds_never_raise: "\<exists>out st'. stream_rounds S deadline capped body i cs acc clock st = (Inr out, st')"
proof (induction cs arbitrary: i acc st)
  case Nil
  then show ?case by (simp add: cret_def)
next
  case (Cons c cs)
  note rf = record_failure_never_raises
  note rs = record_success_never_raises
  have rw: "never_raises (cwhen x (record_failure b p))" for x b p
    using rf by (simp add: cwhen_def never_raises_cret)
  have bind: "\<exists>out st'. cbind m (\<lambda>_. f) clock st = (Inr out, st')"
    if "never_raises m" "\<And>st. \<exists>out st'. f clock st = (Inr out, st')" for m f st
  proof -
    from that(1) obtain st1 where "m clock st = (Inr (), st1)" unfolding never_raises_def by blast
    with that(2) [of st1] show ?thesis by (simp add: cbind_def)
  qed
  have ret: "\<exists>out st'. cret x clock st = (Inr out, st')" for x :: stream_out and st by (simp add: cret_def)
  define leave where "leave a failed stop = \<lparr>sou_acc = a, sou_served = Some c, sou_failed = failed, sou_stop = stop\<rparr>" for a failed stop
  define cfg where "cfg = env_cfg (sen_proxy S)"
  define retry where "retry = can_retry cfg cs deadline (env_elapsed (sen_proxy S) i)"
  define broken where "broken a = cbind (record_failure (ais_breaker cfg) (cnd_provider c)) (\<lambda>_.
    if \<not> sac_first_byte a \<and> retry then stream_rounds S deadline capped body (Suc i) cs a else cret (leave a True RunsOut))" for a
  have br: "\<exists>out st'. broken a clock st = (Inr out, st')" for a st
    unfolding broken_def by (rule bind [OF rf]) (use Cons.IH ret in auto)
  show ?case
  proof (cases "candidate_target (env_decrypt (sen_proxy S)) c capped")
    case (Inl e)
    then show ?thesis by (simp add: cret_def)
  next
    case (Inr t)
    obtain url header mt where t: "t = (url, header, mt)" by (cases t)
    show ?thesis
    proof (cases "sen_stream S i \<lparr>upc_url = url, upc_header = header, upc_body = attempt_body body c mt\<rparr>")
      case ConnectFailed
      have "stream_rounds S deadline capped body i (c # cs) acc = broken acc"
        by (simp add: Inr t ConnectFailed broken_def leave_def retry_def cfg_def)
      with br show ?thesis by simp
    next
      case (StreamReply code chunks breaks)
      show ?thesis
      proof (cases "400 \<le> code")
        case True
        have eq: "stream_rounds S deadline capped body i (c # cs) acc
            = cbind (cwhen (retryable_status code) (record_failure (ais_breaker cfg) (cnd_provider c))) (\<lambda>_.
                if retryable_status code \<and> retry then stream_rounds S deadline capped body (Suc i) cs (acc\<lparr>sac_status := code\<rparr>)
                else cret (leave (acc\<lparr>sac_status := code\<rparr>) True RunsOut))"
          by (simp add: Inr t StreamReply True leave_def retry_def cfg_def Let_def)
        have "\<exists>out st'. (if retryable_status code \<and> retry then stream_rounds S deadline capped body (Suc i) cs (acc\<lparr>sac_status := code\<rparr>)
            else cret (leave (acc\<lparr>sac_status := code\<rparr>) True RunsOut)) clock st = (Inr out, st')" for st
          using Cons.IH ret by (cases "retryable_status code \<and> retry") simp_all
        then show ?thesis unfolding eq by (rule bind [OF rw])
      next
        case False
        obtain sp acc2 where rc: "read_chunks S 0 chunks (acc\<lparr>sac_status := code\<rparr>) = (sp, acc2)" by (metis surj_pair)
        have "stream_rounds S deadline capped body i (c # cs) acc
            = (if sp = RunsOut then if breaks then broken acc2 else cbind (record_success (cnd_provider c)) (\<lambda>_. cret (leave acc2 False RunsOut))
               else cret (leave acc2 False sp))"
          by (simp add: Inr t StreamReply False rc leave_def retry_def cfg_def broken_def Let_def split: stop.split)
        moreover have "\<exists>out st'. cbind (record_success (cnd_provider c)) (\<lambda>_. cret (leave acc2 False RunsOut)) clock st = (Inr out, st')"
          by (rule bind [OF rs]) (rule ret)
        ultimately show ?thesis using br ret by simp
      qed
    qed
  qed
qed

definition stream_outcome :: "stream_env \<Rightarrow> api_key \<Rightarrow> json_dict \<Rightarrow> ai_db \<Rightarrow> stop result \<Rightarrow> ai_db \<Rightarrow> bool" where
  "stream_outcome S k body db r db' = (let A = account_of (apk_org k) db; A' = account_of (apk_org k) db' in
     case r of Inl e \<Rightarrow> db' = db \<or> (\<exists>hold. acct_reserve (env_rid (sen_proxy S)) hold A = Some A')
     | Inr stop \<Rightarrow> A' = A \<or> (\<exists>cost\<ge>0. A' = A\<lparr>acc_free := acc_free A - min cost (acc_free A)\<rparr>))"

definition stream_closed :: "proxy_env \<Rightarrow> api_key \<Rightarrow> snapshot \<Rightarrow> ai_db \<Rightarrow> unit result \<Rightarrow> ai_db \<Rightarrow> bool" where
  "stream_closed E k s db1 r db2 = (case r of Inl e \<Rightarrow> db2 = db1
     | Inr _ \<Rightarrow> refunded E (key_caller k) db1 db2 \<or> (\<exists>u. charged E (key_caller k) s u db1 db2))"

lemma commit_fail_post:
  assumes "opened_ok E (key_caller k) body0 db op (gws_ai g)"
  shows "post (commit (fail_release E (key_caller k) (env_rid E) m s http request provider)) g
    (\<lambda>r g'. stream_closed E k (opn_snapshot op) (gws_ai g) r (gws_ai g'))"
  using fail_release_refunds [OF assms, of m s http request provider]
  by (auto simp: posts stream_closed_def split: sum.split)

lemma commit_settle_post:
  assumes "opened_ok E (key_caller k) body0 db op (gws_ai g)" "env_between E = (\<lambda>i d. d)"
  shows "post (commit (settle_usage E (key_caller k) (env_rid E) m u request provider cogs)) g
    (\<lambda>r g'. stream_closed E k (opn_snapshot op) (gws_ai g) r (gws_ai g'))"
  using settle_usage_charges [OF assms, of m u request provider cogs]
  by (auto simp: posts stream_closed_def split: sum.split)

lemma stream_finally_post:
  assumes "opened_ok E (key_caller k) body0 db op (gws_ai g)" "sen_proxy S = E" "env_between E = (\<lambda>i d. d)"
  shows "post (stream_finally S k m locked (env_rid E) body out) g (\<lambda>r g'. stream_closed E k (opn_snapshot op) (gws_ai g) r (gws_ai g'))"
  unfolding stream_finally_def Let_def post_gbind assms(2)
proof (rule post_unlimit [OF release_never_raises], unfold sum.case, goal_cases)
  case (1 st)
  have ok: "opened_ok E (key_caller k) body0 db op (gws_ai (g\<lparr>gws_redis := st\<rparr>))" using assms(1) by simp
  show ?case
    using commit_fail_post [OF ok] commit_settle_post [OF ok assms(3)] by (simp split: option.split)
qed

lemma closed_outcome:
  assumes "opened_ok E (key_caller k) body db op db1" "sen_proxy S = E" "stream_closed E k (opn_snapshot op) db1 r db2"
  shows "stream_outcome S k body db (map_sum id (\<lambda>_. stop) r) db2"
proof -
  have org: "clr_org (key_caller k) = apk_org k" by (simp add: key_caller_def)
  have held: "acc_held (account_of (apk_org k) db) (env_rid E) = None"
    using assms(1) by (simp add: opened_ok_def account_of_def held_of_def)
  have res: "acct_reserve (env_rid E) (opn_hold op) (account_of (apk_org k) db) = Some (account_of (apk_org k) db1)"
    using assms(1) by (simp add: opened_ok_def org)
  show ?thesis
  proof (cases r)
    case (Inl e)
    with assms(2,3) res show ?thesis by (auto simp: stream_outcome_def stream_closed_def Let_def)
  next
    case (Inr x)
    with assms(3) consider "refunded E (key_caller k) db1 db2" | u where "charged E (key_caller k) (opn_snapshot op) u db1 db2"
      by (auto simp: stream_closed_def)
    then show ?thesis
    proof cases
      case 1
      with Inr net_release [OF res held] show ?thesis by (simp add: stream_outcome_def refunded_def org Let_def)
    next
      case 2
      then obtain n where "acct_settle (env_rid E) (max 0 (billed_idr (rep_prompt u) (rep_completion u) (opn_snapshot op)))
          (account_of (apk_org k) db1) = Some (account_of (apk_org k) db2, n)" by (auto simp: charged_def org)
      note paid = net_settle [OF res held this]
      show ?thesis
        unfolding Inr stream_outcome_def Let_def map_sum.simps sum.case
        by (rule disjI2, rule exI, rule conjI [OF _ paid]) simp
    qed
  qed
qed

lemma post_stream_rounds:
  "(\<And>out st. Q (Inr out) (g\<lparr>gws_redis := st\<rparr>)) \<Longrightarrow> post (on_redis clock (stream_rounds S deadline capped body i cs acc)) g Q"
  using stream_rounds_never_raise [of S deadline capped body i cs acc clock "gws_redis g"]
  by (auto simp: post_def on_redis_def)


definition one_stream :: stream_env where
  "one_stream = \<lparr>sen_proxy = one_env TransportError, sen_stream = (\<lambda>i call. StreamReply 200 [[''data: x'']] True), sen_loads = (\<lambda>_. None),
     sen_closes = (\<lambda>_. False), sen_first_token = 0\<rparr>"


subsection \<open>Where the stream does not do what it says\<close>

text \<open>A credential that cannot be decrypted raises before anything is sent; the \<open>finally\<close> block takes the stream for
  served and charges the estimated prompt.\<close>

lemma bad_credential_is_charged:
  assumes "candidate_target (env_decrypt (sen_proxy S)) c capped = Inl e"
  shows "stream_rounds S deadline capped body 0 (c # cs) acc0 clock st =
      (Inr \<lparr>sou_acc = acc0, sou_served = Some c, sou_failed = False, sou_stop = Raises e\<rparr>, st)"
    and "1 \<le> rep_prompt (stream_report S request acc0)"
proof -
  show "stream_rounds S deadline capped body 0 (c # cs) acc0 clock st =
      (Inr \<lparr>sou_acc = acc0, sou_served = Some c, sou_failed = False, sou_stop = Raises e\<rparr>, st)"
    using assms by (simp add: cret_def)
  show "1 \<le> rep_prompt (stream_report S request acc0)"
    using empty_answer_is_charged [of 0 0 request "[]"] by (auto simp: stream_report_def acc0_def split: prod.splits)
qed

text \<open>When no provider answered, the failed call is recorded with the status 200 the code starts from.\<close>

lemma unanswered_stream_is_recorded_as_200:
  assumes "candidate_target (env_decrypt (sen_proxy S)) c capped = Inr t" "\<And>call. sen_stream S 0 call = ConnectFailed"
  shows "\<exists>st'. stream_rounds S deadline capped body 0 [c] acc0 clock st =
      (Inr \<lparr>sou_acc = acc0, sou_served = Some c, sou_failed = True, sou_stop = RunsOut\<rparr>, st') \<and> sac_status acc0 = 200"
proof -
  from record_failure_never_raises obtain st' where "record_failure (ais_breaker (env_cfg (sen_proxy S))) (cnd_provider c) clock st = (Inr (), st')"
    unfolding never_raises_def by blast
  with assms show ?thesis
    by (auto simp: can_retry_def cbind_def cret_def acc0_def Let_def split: prod.split)
qed

text \<open>An event whose line crosses a chunk boundary is not read: neither half is an event.\<close>

lemma split_event_is_lost:
  assumes "sen_loads S (strip (drop 5 half1)) = None" "take 5 half2 \<noteq> ''data:''"
  shows "read_chunks S i [[half1], [half2]] acc = (if sen_closes S i \<or> sen_closes S (Suc i)
    then (ClientCloses, acc\<lparr>sac_first_byte := True\<rparr>) else (RunsOut, acc\<lparr>sac_first_byte := True\<rparr>))"
  using assms by (simp add: Let_def)

end
