(* ===== verification/Uptime.thy ===== *)
theory Uptime
  imports Orgs Json "HOL-Library.List_Lexorder" "HOL-Library.Char_ord"
begin

text \<open>
  Uptime monitors: the request bodies (\<open>schemas/uptime.py\<close>), the service (\<open>services/uptime.py\<close>), the verdict of a
  probe (\<open>services/uptime_probe.py\<close>), its effect on a monitor (\<open>services/uptime_apply.py\<close>) and the worker
  (\<open>workers/tasks/uptime.py\<close>). The network, \<open>urlparse\<close>, \<open>ipaddress\<close> and SHA-256 are parameters; a percentage is the pair of
  its counts. A \<open>PydanticCustomError\<close> is a \<open>PyError\<close> with its type; a refused field is \<open>PyError ''ValidationError''\<close>.
\<close>

subsection \<open>Rows\<close>

datatype check_type = HttpCheck | TcpCheck | HeartbeatCheck | DnsCheck | PingCheck
datatype mon_state = Unknown | Up | Down | Degraded

record monitor =
  mon_id :: uuid
  mon_org :: uuid
  mon_created_by :: uuid
  mon_asset :: "uuid option"
  mon_name :: string
  mon_check :: check_type
  mon_target :: string
  mon_method :: string
  mon_headers :: "(string \<times> string) list option"
  mon_body :: "string option"
  mon_hb_hash :: "string option"
  mon_hb_prefix :: "string option"
  mon_last_hb :: "datetime option"
  mon_dns_record :: "string option"
  mon_expected :: "string list option"
  mon_interval :: int
  mon_timeout :: int
  mon_expect_status :: "int option"
  mon_keyword :: "string option"
  mon_keyword_invert :: bool
  mon_enabled :: bool
  mon_state :: mon_state
  mon_fails :: int
  mon_last_checked :: "datetime option"
  mon_last_status :: "int option"
  mon_last_latency :: "int option"
  mon_last_error :: "string option"
  mon_next_check :: datetime
  mon_notify :: "string option"
  mon_last_tls_warn :: "datetime option"
  mon_created_at :: datetime
  mon_updated_at :: datetime

record up_sample =
  smp_monitor :: uuid
  smp_at :: datetime
  smp_ok :: bool
  smp_latency :: "int option"
  smp_status :: "int option"
  smp_error :: "string option"

record up_event =
  uev_id :: uuid
  uev_monitor :: uuid
  uev_from :: mon_state
  uev_to :: mon_state
  uev_at :: datetime
  uev_notified :: bool
  uev_detail :: "string option"

text \<open>The tables of this component, next to those of the other services, which its handlers only read.\<close>

record up_db =
  up_core :: db
  up_assets :: "uuid list"         \<comment> \<open>ids of \<open>scan_assets\<close>\<close>
  monitors :: "monitor list"
  samples :: "up_sample list"
  up_events :: "up_event list"

interpretation monitor_tbl: row_store monitors monitors_update mon_id
  by unfold_locales simp

definition MIN_INTERVAL_SECONDS :: int where "MIN_INTERVAL_SECONDS = 60"
definition MAX_INTERVAL_SECONDS :: int where "MAX_INTERVAL_SECONDS = 900"
definition DEFAULT_INTERVAL_SECONDS :: int where "DEFAULT_INTERVAL_SECONDS = 60"
definition MAX_TIMEOUT_SECONDS :: int where "MAX_TIMEOUT_SECONDS = 30"
definition CONFIRM_FAILS :: int where "CONFIRM_FAILS = 2"

definition monitor_ok :: "monitor \<Rightarrow> bool" where   \<comment> \<open>\<open>CHECK\<close> constraints\<close>
  "monitor_ok m \<longleftrightarrow> 60 \<le> mon_interval m \<and> mon_interval m \<le> 900 \<and> 1 \<le> mon_timeout m \<and> mon_timeout m \<le> 30"

definition insert_monitor :: "monitor \<Rightarrow> up_db \<Rightarrow> up_db result" where
  "insert_monitor m s =
     (if monitor_ok m \<and> mon_id m \<notin> mon_id ` set (monitors s)
        \<and> (mon_asset m = None \<or> mon_asset m \<notin> mon_asset ` set (monitors s) \<and> the (mon_asset m) \<in> set (up_assets s))
      then Inr (s\<lparr>monitors := monitors s @ [m]\<rparr>) else Inl IntegrityError)"

definition save_monitor :: "monitor \<Rightarrow> up_db \<Rightarrow> up_db" where
  "save_monitor m s = s\<lparr>monitors := row_upd mon_id (mon_id m) (\<lambda>_. m) (monitors s)\<rparr>"

abbreviation get_monitor :: "up_db \<Rightarrow> uuid \<Rightarrow> monitor option" where
  "get_monitor s k \<equiv> row_get mon_id k (monitors s)"

subsection \<open>Request bodies\<close>

text \<open>\<open>_HOST_RE\<close>, \<open>^[a-zA-Z0-9._\-]+$\<close>: the dollar also matches before a final line feed.\<close>

definition host_char :: "char \<Rightarrow> bool" where
  "host_char c = (let n = of_char c :: nat in
     (97 \<le> n \<and> n \<le> 122) \<or> (65 \<le> n \<and> n \<le> 90) \<or> (48 \<le> n \<and> n \<le> 57) \<or> c \<in> set ''._-'')"

definition host_re :: "string \<Rightarrow> bool" where
  "host_re s = (let t = (if s \<noteq> [] \<and> last s = CHR 0x0A then butlast s else s) in t \<noteq> [] \<and> list_all host_char t)"

record url_parts =
  url_scheme :: string
  url_hostname :: "string option"
  url_username :: "string option"
  url_password :: "string option"

text \<open>What the standard library answers: \<open>urlparse\<close> and whether an address is in a blocked range.\<close>

record up_lib =
  lib_urlparse :: "string \<Rightarrow> url_parts result"
  lib_blocked :: "string \<Rightarrow> bool"

record up_cfg =
  cfg_enabled :: bool
  cfg_allow_private :: bool
  cfg_icmp :: bool
  cfg_frontend :: string

definition blocked_ip :: "up_lib \<Rightarrow> bool \<Rightarrow> string \<Rightarrow> bool" where
  "blocked_ip L allow_private host = (if allow_private then False else lib_blocked L host)"

definition assert_public_host :: "up_lib \<Rightarrow> up_cfg \<Rightarrow> string \<Rightarrow> unit result" where
  "assert_public_host L C host =
     ebind (raise_if (\<not> cfg_allow_private C \<and> lower host \<in> {''localhost'', ''metadata.google.internal''})
       (PyError ''uptime_host_not_allowed'')) (\<lambda>_.
     raise_if (blocked_ip L (cfg_allow_private C) host) (PyError ''uptime_target_private''))"

definition truthy_str :: "string option \<Rightarrow> bool" where
  "truthy_str v \<longleftrightarrow> v \<noteq> None \<and> v \<noteq> Some []"

definition normalize_http_target :: "up_lib \<Rightarrow> up_cfg \<Rightarrow> string \<Rightarrow> string result" where
  "normalize_http_target L C raw = (let v = strip raw in
     ebind (lib_urlparse L v) (\<lambda>p.
     ebind (raise_if (url_scheme p \<notin> {''http'', ''https''}) (PyError ''uptime_http_url_invalid'')) (\<lambda>_.
     ebind (raise_if (\<not> truthy_str (url_hostname p)) (PyError ''uptime_http_host_missing'')) (\<lambda>_.
     ebind (raise_if (truthy_str (url_username p) \<or> truthy_str (url_password p)) (PyError ''uptime_credentials_not_allowed'')) (\<lambda>_.
     ebind (assert_public_host L C (the (url_hostname p))) (\<lambda>_. Inr v))))))"

definition normalize_tcp_target :: "up_lib \<Rightarrow> up_cfg \<Rightarrow> string \<Rightarrow> string result" where
  "normalize_tcp_target L C raw = (let v = strip raw in
     ebind (raise_if (count_where (\<lambda>c. c = CHR '':'') v \<noteq> 1) (PyError ''uptime_tcp_target_invalid'')) (\<lambda>_.
     let host = takeWhile (\<lambda>c. c \<noteq> CHR '':'') v; port_s = tl (dropWhile (\<lambda>c. c \<noteq> CHR '':'') v) in
     ebind (raise_if (host = [] \<or> \<not> host_re host) (PyError ''uptime_tcp_host_invalid'')) (\<lambda>_.
     ebind (get_or (PyError ''uptime_tcp_port_invalid'') (int_literal port_s)) (\<lambda>port.
     ebind (raise_if (port < 1 \<or> 65535 < port) (PyError ''uptime_tcp_port_range'')) (\<lambda>_.
     ebind (assert_public_host L C host) (\<lambda>_. Inr (lower host @ CHR '':'' # show_int port)))))))"

definition normalize_dns_target :: "up_lib \<Rightarrow> up_cfg \<Rightarrow> string \<Rightarrow> string result" where
  "normalize_dns_target L C raw = (let v = lower (rstrip_dots (strip raw)) in
     ebind (raise_if (v = [] \<or> \<not> host_re v) (PyError ''uptime_dns_target_invalid'')) (\<lambda>_.
     ebind (assert_public_host L C v) (\<lambda>_. Inr v)))"

definition normalize_ping_target :: "up_lib \<Rightarrow> up_cfg \<Rightarrow> string \<Rightarrow> string result" where
  "normalize_ping_target L C raw = (let v = lower (strip raw) in
     ebind (raise_if (v = [] \<or> \<not> host_re v) (PyError ''uptime_ping_target_invalid'')) (\<lambda>_.
     ebind (assert_public_host L C v) (\<lambda>_. Inr v)))"

definition HEARTBEAT_PLACEHOLDER :: string where "HEARTBEAT_PLACEHOLDER = ''heartbeat://pending''"

text \<open>\<open>mint_heartbeat_token\<close>; the random token is an argument.\<close>

definition mint_heartbeat_token :: "(string \<Rightarrow> string) \<Rightarrow> string \<Rightarrow> string \<times> string \<times> string" where
  "mint_heartbeat_token hash token = (token, hash token, take 8 token)"

definition BLOCKED_HEADER_NAMES :: "string list" where
  "BLOCKED_HEADER_NAMES = [''host'', ''content-length'', ''transfer-encoding'', ''connection'']"

definition dict_put :: "string \<Rightarrow> 'a \<Rightarrow> (string \<times> 'a) list \<Rightarrow> (string \<times> 'a) list" where
  "dict_put key v d = (if key \<in> fst ` set d then map (\<lambda>p. if fst p = key then (key, v) else p) d else d @ [(key, v)])"

definition sanitize_headers :: "(string \<times> string) list option \<Rightarrow> (string \<times> string) list option result" where
  "sanitize_headers raw = (case raw of None \<Rightarrow> Inr None | Some [] \<Rightarrow> Inr None | Some h \<Rightarrow>
     ebind (raise_if (16 < length h) (PyError ''uptime_headers_limit'')) (\<lambda>_.
     ebind (efold (\<lambda>(key, v) out. let name = strip key in
       ebind (raise_if (name = [] \<or> lower name \<in> set BLOCKED_HEADER_NAMES) (PyError ''uptime_header_name_invalid'')) (\<lambda>_.
       ebind (raise_if (1024 < length v) (PyError ''uptime_header_value_too_long'')) (\<lambda>_.
       Inr (dict_put name v out)))) h []) (\<lambda>out. Inr (Some out))))"

record monitor_create_body =
  mcb_name :: string
  mcb_check :: check_type
  mcb_target :: string
  mcb_interval :: int
  mcb_timeout :: int
  mcb_expect_status :: "int option"
  mcb_keyword :: "string option"
  mcb_keyword_invert :: bool
  mcb_method :: string
  mcb_headers :: "(string \<times> string) list option"
  mcb_body :: "string option"
  mcb_dns_record :: "string option"
  mcb_expected :: "string list option"
  mcb_notify :: "string option"
  mcb_asset :: "uuid option"
  mcb_enabled :: bool

definition max_len :: "nat \<Rightarrow> string option \<Rightarrow> bool" where
  "max_len n v \<longleftrightarrow> opt_all (\<lambda>s. length s \<le> n) v"

definition upper_method :: "string \<Rightarrow> string result" where
  "upper_method v = (let m = upper (strip v) in
     if m \<in> {''GET'', ''HEAD'', ''POST'', ''PUT'', ''PATCH''} then Inr m else Inl (PyError ''http_method_invalid''))"

text \<open>The fields one by one, then \<open>normalize_target\<close>.\<close>

definition create_fields :: "monitor_create_body \<Rightarrow> monitor_create_body result" where
  "create_fields b =
     ebind (raise_if (\<not> (1 \<le> length (mcb_name b) \<and> length (mcb_name b) \<le> 255 \<and> length (mcb_target b) \<le> 2048
         \<and> MIN_INTERVAL_SECONDS \<le> mcb_interval b \<and> mcb_interval b \<le> MAX_INTERVAL_SECONDS
         \<and> 1 \<le> mcb_timeout b \<and> mcb_timeout b \<le> MAX_TIMEOUT_SECONDS
         \<and> opt_all (\<lambda>x. 100 \<le> x \<and> x \<le> 599) (mcb_expect_status b) \<and> max_len 512 (mcb_keyword b)
         \<and> max_len 8192 (mcb_body b) \<and> max_len 255 (mcb_notify b))) (PyError ''ValidationError'')) (\<lambda>_.
     ebind (upper_method (mcb_method b)) (\<lambda>meth.
     Inr (b\<lparr>mcb_name := strip (mcb_name b), mcb_method := meth\<rparr>)))"

definition normalize_target :: "up_lib \<Rightarrow> up_cfg \<Rightarrow> monitor_create_body \<Rightarrow> monitor_create_body result" where
  "normalize_target L C b =
     ebind (raise_if (mcb_check b \<noteq> HttpCheck \<and> (mcb_expect_status b \<noteq> None \<or> truthy_str (mcb_keyword b)
         \<or> (mcb_headers b \<noteq> None \<and> mcb_headers b \<noteq> Some []) \<or> truthy_str (mcb_body b)
         \<or> (mcb_method b \<noteq> [] \<and> mcb_method b \<noteq> ''GET''))) (PyError ''uptime_http_only'')) (\<lambda>_.
     case mcb_check b of
       HttpCheck \<Rightarrow>
         ebind (raise_if (strip (mcb_target b) = []) (PyError ''uptime_http_target_required'')) (\<lambda>_.
         ebind (normalize_http_target L C (mcb_target b)) (\<lambda>t.
         ebind (sanitize_headers (mcb_headers b)) (\<lambda>h.
         ebind (raise_if (mcb_method b \<in> {''GET'', ''HEAD''} \<and> truthy_str (mcb_body b)) (PyError ''uptime_body_not_allowed'')) (\<lambda>_.
         Inr (b\<lparr>mcb_target := t, mcb_headers := h\<rparr>)))))
     | TcpCheck \<Rightarrow> ebind (normalize_tcp_target L C (mcb_target b)) (\<lambda>t. Inr (b\<lparr>mcb_target := t\<rparr>))
     | DnsCheck \<Rightarrow>
         ebind (normalize_dns_target L C (mcb_target b)) (\<lambda>t.
         let r = upper (case mcb_dns_record b of None \<Rightarrow> ''A'' | Some [] \<Rightarrow> ''A'' | Some v \<Rightarrow> v) in
         ebind (raise_if (r \<notin> {''A'', ''AAAA'', ''CNAME'', ''MX'', ''TXT''}) (PyError ''uptime_dns_record_invalid'')) (\<lambda>_.
         Inr (b\<lparr>mcb_target := t, mcb_dns_record := Some r\<rparr>)))
     | PingCheck \<Rightarrow> ebind (normalize_ping_target L C (mcb_target b)) (\<lambda>t. Inr (b\<lparr>mcb_target := t\<rparr>))
     | HeartbeatCheck \<Rightarrow> Inr (b\<lparr>mcb_target := HEARTBEAT_PLACEHOLDER\<rparr>))"

definition validate_create :: "up_lib \<Rightarrow> up_cfg \<Rightarrow> monitor_create_body \<Rightarrow> monitor_create_body result" where
  "validate_create L C b = ebind (create_fields b) (normalize_target L C)"

text \<open>An update names some fields (\<open>exclude_unset\<close>); a named field may be \<open>null\<close>.\<close>

record monitor_update_body =
  mub_name :: "string option option"
  mub_interval :: "int option option"
  mub_timeout :: "int option option"
  mub_expect_status :: "int option option"
  mub_keyword :: "string option option"
  mub_keyword_invert :: "bool option option"
  mub_method :: "string option option"
  mub_headers :: "(string \<times> string) list option option"
  mub_body :: "string option option"
  mub_dns_record :: "string option option"
  mub_expected :: "string list option option"
  mub_notify :: "string option option"
  mub_enabled :: "bool option option"

definition given_all :: "('a \<Rightarrow> bool) \<Rightarrow> 'a option option \<Rightarrow> bool" where   \<comment> \<open>a constraint on a field that may be absent or null\<close>
  "given_all P v \<longleftrightarrow> (case v of Some (Some x) \<Rightarrow> P x | _ \<Rightarrow> True)"

definition validate_update :: "monitor_update_body \<Rightarrow> monitor_update_body result" where
  "validate_update b =
     ebind (raise_if (\<not> (given_all (\<lambda>s. 1 \<le> length s \<and> length s \<le> 255) (mub_name b)
         \<and> given_all (\<lambda>n. MIN_INTERVAL_SECONDS \<le> n \<and> n \<le> MAX_INTERVAL_SECONDS) (mub_interval b)
         \<and> given_all (\<lambda>n. 1 \<le> n \<and> n \<le> MAX_TIMEOUT_SECONDS) (mub_timeout b)
         \<and> given_all (\<lambda>n. 100 \<le> n \<and> n \<le> 599) (mub_expect_status b) \<and> given_all (\<lambda>s. length s \<le> 512) (mub_keyword b)
         \<and> given_all (\<lambda>s. length s \<le> 8192) (mub_body b) \<and> given_all (\<lambda>s. length s \<le> 255) (mub_notify b)))
         (PyError ''ValidationError'')) (\<lambda>_.
     ebind (case mub_method b of Some (Some v) \<Rightarrow> ebind (upper_method v) (\<lambda>x. Inr (Some (Some x))) | v \<Rightarrow> Inr v) (\<lambda>meth.
     ebind (case mub_headers b of Some v \<Rightarrow> ebind (sanitize_headers v) (\<lambda>h. Inr (Some h)) | None \<Rightarrow> Inr None) (\<lambda>h.
     Inr (b\<lparr>mub_name := map_option (map_option strip) (mub_name b), mub_method := meth, mub_headers := h\<rparr>))))"

subsection \<open>The service\<close>

definition up_on :: "up_cfg \<Rightarrow> unit result" where   \<comment> \<open>\<open>_enabled\<close>\<close>
  "up_on C = raise_if (\<not> cfg_enabled C) (HTTPError 404 ''Uptime is disabled'')"

definition up_org :: "up_db \<Rightarrow> uuid \<Rightarrow> organization result" where
  "up_org s o' = get_or (HTTPError 404 ''Organization not found'') (get_org (up_core s) o')"

definition uptime_limit :: "up_db \<Rightarrow> organization \<Rightarrow> int result" where
  "uptime_limit s r = ebind (tier_limits (up_core s) (org_sku r)) (\<lambda>limits. Inr (limits Uptime))"

definition hour_us :: int where "hour_us = 3600000000"

text \<open>The percentage over a set of samples: none of no sample, otherwise how many of how many were good.\<close>

definition ok_share :: "up_sample list \<Rightarrow> (nat \<times> nat) option" where
  "ok_share xs = (if xs = [] then None else Some (count_where smp_ok xs, length xs))"

definition uptime_24h :: "uuid \<Rightarrow> datetime \<Rightarrow> up_db \<Rightarrow> (nat \<times> nat) option" where
  "uptime_24h mid now s = ok_share (filter (\<lambda>x. smp_monitor x = mid \<and> now - 24 * hour_us \<le> smp_at x) (samples s))"

text \<open>A monitor with the tier of its organization, the limit of the tier and its share of good samples.\<close>

type_synonym mon_view = "monitor \<times> sku \<times> int \<times> (nat \<times> nat) option"

definition monitor_view :: "monitor \<Rightarrow> datetime \<Rightarrow> up_db \<Rightarrow> mon_view result" where
  "monitor_view m now s =
     ebind (up_org s (mon_org m)) (\<lambda>r.
     ebind (uptime_limit s r) (\<lambda>limit. Inr (m, org_sku r, limit, uptime_24h (mon_id m) now s)))"

definition list_monitors :: "up_cfg \<Rightarrow> user \<Rightarrow> uuid option \<Rightarrow> datetime \<Rightarrow> up_db \<Rightarrow> mon_view list result" where
  "list_monitors C u oid now s =
     ebind (up_on C) (\<lambda>_.
     ebind (get_or (HTTPError 400 ''Active organization required'') oid) (\<lambda>o'.
     ebind (require_membership (up_core s) o' (user_id u) Viewer) (\<lambda>_.
     ebind (up_org s o') (\<lambda>r.
     ebind (uptime_limit s r) (\<lambda>limit.
     Inr (map (\<lambda>m. (m, org_sku r, limit, uptime_24h (mon_id m) now s))
       (desc_by mon_created_at (filter (\<lambda>m. mon_org m = o') (monitors s)))))))))"

definition enabled_count :: "up_db \<Rightarrow> uuid \<Rightarrow> nat" where
  "enabled_count s o' = count_where (\<lambda>m. mon_org m = o' \<and> mon_enabled m) (monitors s)"

definition same_watch :: "uuid \<Rightarrow> check_type \<Rightarrow> string \<Rightarrow> monitor \<Rightarrow> bool" where
  "same_watch o' c t m \<longleftrightarrow> mon_org m = o' \<and> mon_check m = c \<and> mon_target m = t \<and> mon_enabled m"

definition monitor_of_body ::
    "uuid \<Rightarrow> (string \<Rightarrow> string) \<Rightarrow> string \<Rightarrow> user \<Rightarrow> uuid \<Rightarrow> monitor_create_body \<Rightarrow> datetime \<Rightarrow> monitor" where
  "monitor_of_body mid hash token u o' b now = (let http = (mcb_check b = HttpCheck); hb = (mcb_check b = HeartbeatCheck);
       dns = (mcb_check b = DnsCheck); (tok, tok_hash, tok_prefix) = mint_heartbeat_token hash token in
     \<lparr>mon_id = mid, mon_org = o', mon_created_by = user_id u, mon_asset = mcb_asset b, mon_name = mcb_name b,
       mon_check = mcb_check b, mon_target = (if hb then HEARTBEAT_PLACEHOLDER else mcb_target b),
       mon_method = (if http then mcb_method b else ''GET''), mon_headers = (if http then mcb_headers b else None),
       mon_body = (if http then mcb_body b else None), mon_hb_hash = (if hb then Some tok_hash else None),
       mon_hb_prefix = (if hb then Some tok_prefix else None), mon_last_hb = None,
       mon_dns_record = (if dns then mcb_dns_record b else None), mon_expected = (if dns then mcb_expected b else None),
       mon_interval = (if mcb_interval b = 0 then DEFAULT_INTERVAL_SECONDS else mcb_interval b), mon_timeout = mcb_timeout b,
       mon_expect_status = mcb_expect_status b, mon_keyword = mcb_keyword b, mon_keyword_invert = mcb_keyword_invert b,
       mon_enabled = mcb_enabled b, mon_state = Unknown, mon_fails = 0, mon_last_checked = None, mon_last_status = None,
       mon_last_latency = None, mon_last_error = None, mon_next_check = now,
       mon_notify = or_str (mcb_notify b) (Some (user_email u)), mon_last_tls_warn = None,
       mon_created_at = now, mon_updated_at = now\<rparr>)"

definition rstrip_slashes :: "string \<Rightarrow> string" where
  "rstrip_slashes s = rev (dropWhile (\<lambda>c. c = CHR ''/'') (rev s))"

definition heartbeat_url :: "up_cfg \<Rightarrow> string \<Rightarrow> string" where
  "heartbeat_url C token = rstrip_slashes (cfg_frontend C) @ ''/api/uptime/heartbeat/'' @ token"

text \<open>The answer names the token (of a heartbeat monitor, this once) and whether a check was queued.\<close>

definition monitor_create ::
    "up_cfg \<Rightarrow> uuid \<Rightarrow> (string \<Rightarrow> string) \<Rightarrow> string \<Rightarrow> user \<Rightarrow> uuid option \<Rightarrow> monitor_create_body \<Rightarrow> datetime \<Rightarrow> up_db
      \<Rightarrow> ((mon_view \<times> (string \<times> string) option \<times> bool) \<times> up_db) result" where
  "monitor_create C mid hash token u oid b now s =
     ebind (up_on C) (\<lambda>_.
     ebind (get_or (HTTPError 400 ''Active organization required'') oid) (\<lambda>o'.
     ebind (require_membership (up_core s) o' (user_id u) Member) (\<lambda>_.
     ebind (up_org s o') (\<lambda>r.
     ebind (uptime_limit s r) (\<lambda>limit.
     ebind (raise_if (mcb_check b = PingCheck \<and> \<not> cfg_icmp C) (HTTPError 501 ''ICMP ping is disabled'')) (\<lambda>_.
     ebind (raise_if (mcb_enabled b \<and> limit \<le> int (enabled_count s o'))
       (ApiError 400 ''uptime_seat_limit'' (''Uptime seat limit for '' @ org_sku r @ '' tier is '' @ show_int limit))) (\<lambda>_.
     ebind (if mcb_enabled b then scalar_one_or_none (filter (same_watch o' (mcb_check b) (mcb_target b)) (monitors s))
       else Inr None) (\<lambda>existing.
     ebind (raise_if (existing \<noteq> None) (HTTPError 409 ''Monitor already exists for this target'')) (\<lambda>_.
     let m = monitor_of_body mid hash token u o' b now in
     ebind (insert_monitor m s) (\<lambda>s'.
     Inr (((m, org_sku r, limit, None),
       (if mcb_check b = HeartbeatCheck then Some (token, heartbeat_url C token) else None), mon_enabled m), s')))))))))))"

definition monitor_in_org :: "up_db \<Rightarrow> uuid \<Rightarrow> uuid option \<Rightarrow> uuid \<Rightarrow> monitor result" where   \<comment> \<open>\<open>_get_in_org\<close>\<close>
  "monitor_in_org s mid oid uid = (let missing = HTTPError 404 ''Monitor not found'' in
     ebind (get_or missing (get_monitor s mid)) (\<lambda>m.
     ebind (get_or missing (get_membership (up_core s) (mon_org m) uid)) (\<lambda>mem.
     ebind (raise_if (\<not> role_at_least (Some (mem_role mem)) Viewer) missing) (\<lambda>_.
     ebind (raise_if (oid \<noteq> None \<and> oid \<noteq> Some (mon_org m)) missing) (\<lambda>_. Inr m)))))"

definition monitor_get :: "up_cfg \<Rightarrow> user \<Rightarrow> uuid option \<Rightarrow> uuid \<Rightarrow> datetime \<Rightarrow> up_db \<Rightarrow> mon_view result" where
  "monitor_get C u oid mid now s =
     ebind (up_on C) (\<lambda>_.
     ebind (monitor_in_org s mid oid (user_id u)) (\<lambda>m. monitor_view m now s))"

text \<open>\<open>setattr\<close> on a column that may be null, and on one that may not: the flush refuses a null there.\<close>

definition set_null :: "'a option option \<Rightarrow> 'a option \<Rightarrow> 'a option" where
  "set_null v old = (case v of None \<Rightarrow> old | Some x \<Rightarrow> x)"

definition set_column :: "'a option option \<Rightarrow> 'a \<Rightarrow> 'a result" where
  "set_column v old = (case v of None \<Rightarrow> Inr old | Some None \<Rightarrow> Inl IntegrityError | Some (Some x) \<Rightarrow> Inr x)"

definition updated_monitor :: "monitor_update_body \<Rightarrow> datetime \<Rightarrow> monitor \<Rightarrow> monitor result" where
  "updated_monitor b now m =
     ebind (set_column (mub_name b) (mon_name m)) (\<lambda>nm.
     ebind (set_column (mub_interval b) (mon_interval m)) (\<lambda>iv.
     ebind (set_column (mub_timeout b) (mon_timeout m)) (\<lambda>tm.
     ebind (set_column (mub_keyword_invert b) (mon_keyword_invert m)) (\<lambda>ki.
     ebind (set_column (mub_method b) (mon_method m)) (\<lambda>me.
     ebind (set_column (mub_enabled b) (mon_enabled m)) (\<lambda>en.
     Inr (m\<lparr>mon_name := nm, mon_interval := iv, mon_timeout := tm,
       mon_expect_status := set_null (mub_expect_status b) (mon_expect_status m),
       mon_keyword := set_null (mub_keyword b) (mon_keyword m), mon_keyword_invert := ki, mon_method := me,
       mon_headers := set_null (mub_headers b) (mon_headers m), mon_body := set_null (mub_body b) (mon_body m),
       mon_dns_record := set_null (mub_dns_record b) (mon_dns_record m),
       mon_expected := set_null (mub_expected b) (mon_expected m), mon_notify := set_null (mub_notify b) (mon_notify m),
       mon_enabled := en, mon_updated_at := now,
       mon_next_check := (if en \<and> \<not> mon_enabled m then now else mon_next_check m)\<rparr>)))))))"

definition member_of :: "up_db \<Rightarrow> monitor \<Rightarrow> user \<Rightarrow> membership result" where   \<comment> \<open>with the \<open>assert\<close> after it\<close>
  "member_of s m u = get_or (PyError ''AssertionError'') (get_membership (up_core s) (mon_org m) (user_id u))"

definition enable_check :: "monitor \<Rightarrow> up_db \<Rightarrow> unit result" where
  "enable_check m s =
     ebind (up_org s (mon_org m)) (\<lambda>r.
     ebind (uptime_limit s r) (\<lambda>limit.
     ebind (raise_if (limit \<le> int (enabled_count s (mon_org m)))
       (HTTPError 400 (''Uptime seat limit for '' @ org_sku r @ '' tier is '' @ show_int limit))) (\<lambda>_.
     ebind (scalar_one_or_none (filter (\<lambda>x. same_watch (mon_org m) (mon_check m) (mon_target m) x \<and> mon_id x \<noteq> mon_id m)
       (monitors s))) (\<lambda>dup.
     raise_if (dup \<noteq> None) (HTTPError 409 ''Monitor already exists for this target'')))))"

text \<open>The update commits before it builds its answer, so it returns the stored rows next to it.\<close>

definition monitor_update ::
    "up_cfg \<Rightarrow> user \<Rightarrow> uuid option \<Rightarrow> uuid \<Rightarrow> monitor_update_body \<Rightarrow> datetime \<Rightarrow> up_db
      \<Rightarrow> (mon_view result \<times> bool \<times> up_db) result" where
  "monitor_update C u oid mid b now s =
     ebind (up_on C) (\<lambda>_.
     ebind (monitor_in_org s mid oid (user_id u)) (\<lambda>m.
     ebind (member_of s m u) (\<lambda>mem.
     ebind (raise_if (\<not> role_at_least (Some (mem_role mem)) Admin
         \<and> \<not> (role_at_least (Some (mem_role mem)) Member \<and> mon_created_by m = user_id u))
       (HTTPError 403 ''Insufficient organization role'')) (\<lambda>_.
     ebind (raise_if (set_null (mub_expect_status b) None \<noteq> None \<and> mon_check m \<noteq> HttpCheck)
       (HTTPError 422 ''HTTP options apply to HTTP only'')) (\<lambda>_.
     ebind (if mub_enabled b = Some (Some True) \<and> \<not> mon_enabled m then enable_check m s else Inr ()) (\<lambda>_.
     ebind (updated_monitor b now m) (\<lambda>m'.
     ebind (raise_if (\<not> monitor_ok m') IntegrityError) (\<lambda>_.
     let s' = save_monitor m' s in
     Inr (monitor_view m' now s', mon_enabled m' \<and> (\<not> mon_enabled m \<or> mon_state m' = Unknown), s')))))))))"

definition enabled_update :: "bool \<Rightarrow> monitor_update_body" where
  "enabled_update e = \<lparr>mub_name = None, mub_interval = None, mub_timeout = None, mub_expect_status = None, mub_keyword = None,
     mub_keyword_invert = None, mub_method = None, mub_headers = None, mub_body = None, mub_dns_record = None,
     mub_expected = None, mub_notify = None, mub_enabled = Some (Some e)\<rparr>"

definition monitor_pause ::
    "up_cfg \<Rightarrow> user \<Rightarrow> uuid option \<Rightarrow> uuid \<Rightarrow> bool \<Rightarrow> datetime \<Rightarrow> up_db \<Rightarrow> (mon_view result \<times> bool \<times> up_db) result" where
  "monitor_pause C u oid mid enabled now s = monitor_update C u oid mid (enabled_update enabled) now s"

definition rotate_heartbeat ::
    "up_cfg \<Rightarrow> (string \<Rightarrow> string) \<Rightarrow> string \<Rightarrow> user \<Rightarrow> uuid option \<Rightarrow> uuid \<Rightarrow> datetime \<Rightarrow> up_db
      \<Rightarrow> ((mon_view result \<times> string \<times> string) \<times> up_db) result" where
  "rotate_heartbeat C hash token u oid mid now s =
     ebind (up_on C) (\<lambda>_.
     ebind (monitor_in_org s mid oid (user_id u)) (\<lambda>m.
     ebind (member_of s m u) (\<lambda>mem.
     ebind (raise_if (\<not> role_at_least (Some (mem_role mem)) Member) (HTTPError 403 ''Insufficient organization role'')) (\<lambda>_.
     ebind (raise_if (mon_check m \<noteq> HeartbeatCheck) (HTTPError 400 ''Not a heartbeat monitor'')) (\<lambda>_.
     let (tok, tok_hash, tok_prefix) = mint_heartbeat_token hash token;
         m' = m\<lparr>mon_hb_hash := Some tok_hash, mon_hb_prefix := Some tok_prefix, mon_updated_at := now\<rparr>;
         s' = save_monitor m' s in
     Inr ((monitor_view m' now s', tok, heartbeat_url C tok), s'))))))"

definition ingest_heartbeat :: "up_cfg \<Rightarrow> (string \<Rightarrow> string) \<Rightarrow> string \<Rightarrow> datetime \<Rightarrow> up_db \<Rightarrow> up_db result" where
  "ingest_heartbeat C hash token now s =
     ebind (up_on C) (\<lambda>_.
     ebind (scalar_one_or_none (filter (\<lambda>m. mon_check m = HeartbeatCheck \<and> mon_hb_hash m = Some (hash token) \<and> mon_enabled m)
       (monitors s))) (\<lambda>found.
     ebind (get_or (HTTPError 404 ''Unknown heartbeat token'') found) (\<lambda>m.
     Inr (save_monitor (m\<lparr>mon_last_hb := Some now, mon_updated_at := now\<rparr>) s))))"

definition monitor_delete :: "up_cfg \<Rightarrow> user \<Rightarrow> uuid option \<Rightarrow> uuid \<Rightarrow> up_db \<Rightarrow> up_db result" where
  "monitor_delete C u oid mid s =
     ebind (up_on C) (\<lambda>_.
     ebind (monitor_in_org s mid oid (user_id u)) (\<lambda>m.
     ebind (member_of s m u) (\<lambda>mem.
     ebind (raise_if (\<not> role_at_least (Some (mem_role mem)) Admin) (HTTPError 403 ''Insufficient organization role'')) (\<lambda>_.
     Inr (s\<lparr>monitors := row_del mon_id mid (monitors s),
       samples := filter (\<lambda>x. smp_monitor x \<noteq> mid) (samples s),
       up_events := filter (\<lambda>e. uev_monitor e \<noteq> mid) (up_events s)\<rparr>)))))"

subsection \<open>History\<close>

definition aware :: "pydatetime \<Rightarrow> datetime" where   \<comment> \<open>\<open>_aware\<close>: a naive instant is UTC\<close>
  "aware dt = (case dt of Naive w \<Rightarrow> w | Aware w off \<Rightarrow> w - off)"

definition sample_window :: "pydatetime option \<Rightarrow> pydatetime option \<Rightarrow> datetime \<Rightarrow> datetime \<times> datetime" where
  "sample_window since until now = (let floor = now - 7 * day_us;
       until_at = (case until of Some t \<Rightarrow> aware t | None \<Rightarrow> now);
       since_at = (case since of Some t \<Rightarrow> aware t | None \<Rightarrow> floor) in
     (if since_at < floor then floor else since_at, if now < until_at then now else until_at))"

definition window_samples :: "uuid \<Rightarrow> datetime \<times> datetime \<Rightarrow> up_db \<Rightarrow> up_sample list" where
  "window_samples mid w s = filter (\<lambda>x. smp_monitor x = mid \<and> fst w \<le> smp_at x \<and> smp_at x \<le> snd w) (samples s)"

definition list_samples ::
    "up_cfg \<Rightarrow> user \<Rightarrow> uuid option \<Rightarrow> uuid \<Rightarrow> pydatetime option \<Rightarrow> pydatetime option \<Rightarrow> nat \<Rightarrow> nat \<Rightarrow> datetime \<Rightarrow> up_db
      \<Rightarrow> (up_sample list \<times> nat) result" where
  "list_samples C u oid mid since until limit offset now s =
     ebind (up_on C) (\<lambda>_.
     ebind (monitor_in_org s mid oid (user_id u)) (\<lambda>m.
     let xs = window_samples (mon_id m) (sample_window since until now) s in
     Inr (take limit (drop offset (desc_by smp_at xs)), length xs)))"

definition range_stats ::
    "up_cfg \<Rightarrow> user \<Rightarrow> uuid option \<Rightarrow> uuid \<Rightarrow> pydatetime option \<Rightarrow> pydatetime option \<Rightarrow> datetime \<Rightarrow> up_db
      \<Rightarrow> ((nat \<times> nat) option \<times> nat \<times> nat \<times> datetime \<times> datetime) result" where
  "range_stats C u oid mid since until now s =
     ebind (up_on C) (\<lambda>_.
     ebind (monitor_in_org s mid oid (user_id u)) (\<lambda>m.
     let w = sample_window since until now; xs = window_samples (mon_id m) w s in
     Inr (ok_share xs, count_where smp_ok xs, length xs, fst w, snd w)))"

definition asc_by :: "('a \<Rightarrow> int) \<Rightarrow> 'a list \<Rightarrow> 'a list" where "asc_by f xs = sort_key f xs"

definition list_events ::
    "up_cfg \<Rightarrow> user \<Rightarrow> uuid option \<Rightarrow> uuid \<Rightarrow> pydatetime option \<Rightarrow> pydatetime option \<Rightarrow> nat \<Rightarrow> up_db \<Rightarrow> up_event list result" where
  "list_events C u oid mid since until limit s =
     ebind (up_on C) (\<lambda>_.
     ebind (monitor_in_org s mid oid (user_id u)) (\<lambda>m.
     let own = filter (\<lambda>e. uev_monitor e = mon_id m) (up_events s);
         window = filter (\<lambda>e. opt_all (\<lambda>t. uev_at e \<le> aware t) until \<and> opt_all (\<lambda>t. aware t \<le> uev_at e) since) own;
         rows = take limit (if since \<noteq> None then asc_by uev_at window else desc_by uev_at window);
         prior = (case since of None \<Rightarrow> None | Some t \<Rightarrow> first_row (desc_by uev_at (filter (\<lambda>e. uev_at e < aware t) own)));
         rows' = (case prior of Some p \<Rightarrow> if list_all (\<lambda>e. uev_id e \<noteq> uev_id p) rows then rows @ [p] else rows | None \<Rightarrow> rows) in
     Inr (desc_by uev_at rows')))"

subsection \<open>Probes\<close>

record probe_result =
  prb_ok :: bool
  prb_latency :: "int option"
  prb_status :: "int option"
  prb_error :: "string option"
  prb_tls_days :: "int option"

datatype addr_family = Inet | Inet6

text \<open>What the network answers: addresses of a name, a connection (\<open>None\<close> when it is made), the code and the first
  64 KiB of an HTTP answer, the days left of a certificate, the exit code of \<open>ping\<close>. A failure is the text of its exception.\<close>

record up_net =
  net_addrs :: "addr_family option \<Rightarrow> string \<Rightarrow> string + string list"
  net_connect :: "string \<Rightarrow> int \<Rightarrow> int \<Rightarrow> string option"
  net_http :: "string \<Rightarrow> (string \<times> string) list \<Rightarrow> string option \<Rightarrow> string \<Rightarrow> int \<Rightarrow> string + int \<times> string"
  net_tls_days :: "string \<Rightarrow> int \<Rightarrow> int option"
  net_ping :: "string \<Rightarrow> int \<Rightarrow> string + int"
  net_ms :: int

definition probe_failed :: "up_net \<Rightarrow> string \<Rightarrow> probe_result" where   \<comment> \<open>the \<open>except\<close> branch\<close>
  "probe_failed N msg = \<lparr>prb_ok = False, prb_latency = Some (net_ms N), prb_status = None, prb_error = Some (take 200 msg),
     prb_tls_days = None\<rparr>"

definition probed_in :: "up_net \<Rightarrow> bool \<Rightarrow> string \<Rightarrow> probe_result" where
  "probed_in N good msg = \<lparr>prb_ok = good, prb_latency = Some (net_ms N), prb_status = None,
     prb_error = (if good then None else Some msg), prb_tls_days = None\<rparr>"

definition resolve_public :: "up_lib \<Rightarrow> up_cfg \<Rightarrow> up_net \<Rightarrow> string \<Rightarrow> string + string" where
  "resolve_public L C N host = (case net_addrs N None host of
     Inl e \<Rightarrow> Inl e
   | Inr [] \<Rightarrow> Inl ''host did not resolve''
   | Inr (a # _) \<Rightarrow> if blocked_ip L (cfg_allow_private C) a then Inl ''resolved address is not allowed'' else Inr a)"

definition probe_tcp :: "up_lib \<Rightarrow> up_cfg \<Rightarrow> up_net \<Rightarrow> string \<Rightarrow> int \<Rightarrow> probe_result result" where
  "probe_tcp L C N target timeout =
     (let r = rev target; host = rev (tl (dropWhile (\<lambda>c. c \<noteq> CHR '':'') r)); port_s = rev (takeWhile (\<lambda>c. c \<noteq> CHR '':'') r) in
      ebind (raise_if (CHR '':'' \<notin> set target) (ValueError ''not enough values to unpack'')) (\<lambda>_.
      ebind (get_or (ValueError ''invalid literal for int()'') (int_literal port_s)) (\<lambda>port.
      Inr (case resolve_public L C N host of
        Inl e \<Rightarrow> probe_failed N e
      | Inr ip \<Rightarrow> (case net_connect N ip port timeout of Some e \<Rightarrow> probe_failed N e | None \<Rightarrow> probed_in N True [])))))"

definition status_verdict :: "int option \<Rightarrow> int \<Rightarrow> bool \<times> string" where
  "status_verdict expect code = (case expect of
     Some e \<Rightarrow> (code = e, ''expected '' @ show_int e @ '' got '' @ show_int code)
   | None \<Rightarrow> (200 \<le> code \<and> code < 400, ''status '' @ show_int code))"

text \<open>\<open>needle in hay\<close>\<close>

fun contains_str :: "string \<Rightarrow> string \<Rightarrow> bool" where
  "contains_str needle [] \<longleftrightarrow> needle = []"
| "contains_str needle (c # s) \<longleftrightarrow> take (length needle) (c # s) = needle \<or> contains_str needle s"

definition keyword_verdict :: "string option \<Rightarrow> bool \<Rightarrow> string \<Rightarrow> bool \<times> string \<Rightarrow> bool \<times> string" where
  "keyword_verdict keyword invert content v =
     (if fst v \<and> truthy_str keyword then (let found = contains_str (lower (the keyword)) (lower content) in
        if invert then (\<not> found, ''keyword present'') else (found, ''keyword missing'')) else v)"

definition probe_http ::
    "up_lib \<Rightarrow> up_cfg \<Rightarrow> up_net \<Rightarrow> string \<Rightarrow> int \<Rightarrow> int option \<Rightarrow> string option \<Rightarrow> bool \<Rightarrow> string \<Rightarrow> (string \<times> string) list option
      \<Rightarrow> string option \<Rightarrow> probe_result result" where
  "probe_http L C N target timeout expect keyword invert meth headers body =
     ebind (lib_urlparse L target) (\<lambda>p. let host = str_or_empty (url_hostname p) in
     Inr (case resolve_public L C N host of
       Inl e \<Rightarrow> probe_failed N e
     | Inr _ \<Rightarrow>
       let hs = fold (\<lambda>(k, v). dict_put k v) (or_else headers []) [(''User-Agent'', ''SinexisUptime/1.0'')] in
       (case net_http N meth hs body target timeout of
          Inl e \<Rightarrow> probe_failed N e
        | Inr (code, content) \<Rightarrow>
          let (good, msg) = keyword_verdict keyword invert content (status_verdict expect code) in
          \<lparr>prb_ok = good, prb_latency = Some (net_ms N), prb_status = Some code, prb_error = (if good then None else Some msg),
            prb_tls_days = (if url_scheme p = ''https'' then net_tls_days N host timeout else None)\<rparr>)))"

definition probe_dns :: "up_lib \<Rightarrow> up_net \<Rightarrow> string \<Rightarrow> string option \<Rightarrow> string list option \<Rightarrow> probe_result" where
  "probe_dns L N target dns_record expected =
     (let rtype = upper (case dns_record of None \<Rightarrow> ''A'' | Some [] \<Rightarrow> ''A'' | Some v \<Rightarrow> v) in
      case net_addrs N (Some (if rtype = ''AAAA'' then Inet6 else Inet)) target of
        Inl e \<Rightarrow> probe_failed N e
      | Inr [] \<Rightarrow> probe_failed N ''host did not resolve''
      | Inr addrs \<Rightarrow>
          if list_ex (blocked_ip L False) addrs then probe_failed N ''resolved address is not allowed''
          else (case or_else expected [] of
              [] \<Rightarrow> probed_in N True []
            | want \<Rightarrow> probed_in N (sort (remdups (map lower addrs))
                = sort (map (\<lambda>v. lower (rstrip_dots (strip v))) (filter (\<lambda>v. strip v \<noteq> []) want))) ''dns mismatch''))"

definition no_latency :: "bool \<Rightarrow> string \<Rightarrow> probe_result" where
  "no_latency good msg = \<lparr>prb_ok = good, prb_latency = None, prb_status = None,
     prb_error = (if good then None else Some msg), prb_tls_days = None\<rparr>"

definition probe_ping :: "up_lib \<Rightarrow> up_cfg \<Rightarrow> up_net \<Rightarrow> string \<Rightarrow> int \<Rightarrow> probe_result" where
  "probe_ping L C N target timeout =
     (if \<not> cfg_icmp C then no_latency False ''ICMP ping is disabled''
      else case resolve_public L C N target of
        Inl e \<Rightarrow> probe_failed N e
      | Inr ip \<Rightarrow> (case net_ping N ip (max timeout 1) of
            Inl e \<Rightarrow> probe_failed N e
          | Inr rc \<Rightarrow> probed_in N (rc = 0) ''ping failed''))"

definition second_us :: int where "second_us = 1000000"

definition probe_heartbeat :: "datetime option \<Rightarrow> int \<Rightarrow> datetime \<Rightarrow> probe_result" where
  "probe_heartbeat last_at interval now = (case last_at of
     None \<Rightarrow> no_latency False ''waiting for heartbeat''
   | Some t \<Rightarrow> no_latency (now - t \<le> (interval + 60) * second_us) ''heartbeat stale'')"

definition tls_warn_due :: "datetime option \<Rightarrow> int option \<Rightarrow> datetime \<Rightarrow> bool" where
  "tls_warn_due last_warn days_left now = (case days_left of
     None \<Rightarrow> False
   | Some d \<Rightarrow> d \<le> 14 \<and> (case last_warn of None \<Rightarrow> True | Some t \<Rightarrow> 24 * hour_us \<le> now - t))"

definition run_probe :: "up_lib \<Rightarrow> up_cfg \<Rightarrow> up_net \<Rightarrow> monitor \<Rightarrow> datetime \<Rightarrow> probe_result result" where
  "run_probe L C N m now = (case mon_check m of
     TcpCheck \<Rightarrow> probe_tcp L C N (mon_target m) (mon_timeout m)
   | DnsCheck \<Rightarrow> Inr (probe_dns L N (mon_target m) (mon_dns_record m) (mon_expected m))
   | PingCheck \<Rightarrow> Inr (probe_ping L C N (mon_target m) (mon_timeout m))
   | HeartbeatCheck \<Rightarrow> Inr (probe_heartbeat (mon_last_hb m) (mon_interval m) now)
   | HttpCheck \<Rightarrow> probe_http L C N (mon_target m) (mon_timeout m) (mon_expect_status m) (mon_keyword m) (mon_keyword_invert m)
       (if mon_method m = [] then ''GET'' else mon_method m) (mon_headers m) (mon_body m))"

subsection \<open>The effect of a probe\<close>

definition uptime_event :: "uuid \<Rightarrow> monitor \<Rightarrow> mon_state \<Rightarrow> datetime \<Rightarrow> string option \<Rightarrow> up_event" where
  "uptime_event eid m to now detail = \<lparr>uev_id = eid, uev_monitor = mon_id m, uev_from = mon_state m, uev_to = to, uev_at = now,
     uev_notified = False, uev_detail = detail\<rparr>"

definition probe_seen :: "monitor \<Rightarrow> probe_result \<Rightarrow> datetime \<Rightarrow> monitor" where
  "probe_seen m r now = m\<lparr>mon_last_checked := Some now, mon_last_status := prb_status r, mon_last_latency := prb_latency r,
     mon_last_error := prb_error r, mon_next_check := now + mon_interval m * second_us\<rparr>"

text \<open>The counter, the state and the event of a change of state.\<close>

definition probe_state :: "uuid \<Rightarrow> monitor \<Rightarrow> probe_result \<Rightarrow> datetime \<Rightarrow> monitor \<times> up_event option" where
  "probe_state eid m r now =
     (if prb_ok r then (m\<lparr>mon_fails := 0, mon_state := Up\<rparr>, if mon_state m \<noteq> Up then Some (uptime_event eid m Up now None) else None)
      else let m1 = m\<lparr>mon_fails := mon_fails m + 1\<rparr> in
        if CONFIRM_FAILS \<le> mon_fails m1 \<and> mon_state m \<noteq> Down
        then (m1\<lparr>mon_state := Down\<rparr>, Some (uptime_event eid m Down now (prb_error r))) else (m1, None))"

definition probe_tls :: "uuid \<Rightarrow> monitor \<Rightarrow> probe_result \<Rightarrow> datetime \<Rightarrow> monitor \<times> up_event option" where
  "probe_tls wid m r now =
     (if prb_ok r \<and> tls_warn_due (mon_last_tls_warn m) (prb_tls_days r) now
      then (m\<lparr>mon_last_tls_warn := Some now, mon_state := (if mon_state m \<noteq> Down then Degraded else mon_state m)\<rparr>,
        Some (uptime_event wid m Degraded now (Some (''TLS expires in '' @ show_int (the (prb_tls_days r)) @ '' days''))))
      else (m, None))"

text \<open>Both: the monitor, the events written, and the event that is returned (and mailed).\<close>

definition probe_effect ::
    "uuid \<Rightarrow> uuid \<Rightarrow> monitor \<Rightarrow> probe_result \<Rightarrow> datetime \<Rightarrow> monitor \<times> up_event list \<times> up_event option" where
  "probe_effect eid wid m r now =
     (let (m1, ev) = probe_state eid (probe_seen m r now) r now; (m2, warn) = probe_tls wid m1 r now in
      (m2\<lparr>mon_updated_at := now\<rparr>,
       (case ev of Some e \<Rightarrow> [e] | None \<Rightarrow> []) @ (case warn of Some w \<Rightarrow> [w] | None \<Rightarrow> []),
       case ev of Some e \<Rightarrow> Some e | None \<Rightarrow> warn))"

definition purge_old :: "datetime \<Rightarrow> up_db \<Rightarrow> up_db" where
  "purge_old stamp s = s\<lparr>samples := filter (\<lambda>x. stamp - 7 * day_us \<le> smp_at x) (samples s),
     up_events := filter (\<lambda>e. stamp - 90 * day_us \<le> uev_at e) (up_events s)\<rparr>"

definition apply_probe ::
    "uuid \<Rightarrow> uuid \<Rightarrow> monitor \<Rightarrow> probe_result \<Rightarrow> datetime \<Rightarrow> up_db \<Rightarrow> up_event option \<times> monitor \<times> up_db" where
  "apply_probe eid wid m r now s =
     (let x = \<lparr>smp_monitor = mon_id m, smp_at = now, smp_ok = prb_ok r, smp_latency = prb_latency r, smp_status = prb_status r,
          smp_error = prb_error r\<rparr>;
        (m', evs, returned) = probe_effect eid wid m r now;
        s1 = save_monitor m' (s\<lparr>samples := samples s @ [x], up_events := up_events s @ evs\<rparr>) in
      (returned, m', purge_old now s1))"

subsection \<open>The worker\<close>

definition run_due :: "datetime \<Rightarrow> up_db \<Rightarrow> uuid list" where
  "run_due now s = map mon_id (take 50 (asc_by mon_next_check (filter (\<lambda>m. mon_enabled m \<and> mon_next_check m \<le> now) (monitors s))))"

datatype check_outcome = CheckMissing | IcmpOff | Checked mon_state bool | CheckError error

datatype mail_kind = TlsMail | DownMail | UpMail

definition mail_kind :: "up_event \<Rightarrow> mail_kind" where
  "mail_kind e = (case uev_to e of Degraded \<Rightarrow> TlsMail | Down \<Rightarrow> DownMail | _ \<Rightarrow> UpMail)"

text \<open>\<open>check_one\<close>. \<open>icmp_env\<close> is the worker's own switch; \<open>mail\<close> is whether the mail of a kind was accepted, or its exception.
  The probe and its effect are one step: two checks of one monitor do not overlap.\<close>

definition check_one ::
    "up_lib \<Rightarrow> up_cfg \<Rightarrow> up_net \<Rightarrow> bool \<Rightarrow> (mail_kind \<Rightarrow> bool result) \<Rightarrow> uuid \<Rightarrow> uuid \<Rightarrow> uuid \<Rightarrow> datetime \<Rightarrow> up_db \<Rightarrow> check_outcome \<times> up_db" where
  "check_one L C N icmp_env mail eid wid mid now s = (case get_monitor s mid of
     None \<Rightarrow> (CheckMissing, s)
   | Some m \<Rightarrow>
     if \<not> mon_enabled m then (CheckMissing, s)
     else if mon_check m = PingCheck \<and> \<not> icmp_env then (IcmpOff, s)
     else (case run_probe L C N m now of
       Inl e \<Rightarrow> (CheckError e, s)
     | Inr r \<Rightarrow>
       (let (ev, m', s') = apply_probe eid wid m r now s; finished = Checked (mon_state m') (prb_ok r) in
        if ev \<noteq> None \<and> truthy_str (mon_notify m')
        then (case mail (mail_kind (the ev)) of
            Inl e \<Rightarrow> (CheckError e, s')
          | Inr sent \<Rightarrow> (finished, s'\<lparr>up_events := row_upd uev_id (uev_id (the ev)) (\<lambda>e. e\<lparr>uev_notified := sent\<rparr>) (up_events s')\<rparr>))
        else (finished, s'))))"

end
