(* ===== verification/UptimeHistory.thy ===== *)
theory UptimeHistory
  imports Uptime
begin

text \<open>
  What the uptime handlers keep: one live monitor per target, a state that is down exactly after two failed probes in a
  row, and a log of events that reads as a path of states. Steps are the handlers and the checks of the worker, under a
  clock that does not go back.
\<close>

subsection \<open>Invariant\<close>

text \<open>Events read as a path of states.\<close>

fun follow :: "mon_state \<Rightarrow> up_event list \<Rightarrow> mon_state option" where
  "follow a [] = Some a"
| "follow a (e # es) = (if uev_from e = a \<and> uev_to e \<noteq> a then follow (uev_to e) es else None)"

definition events_of :: "uuid \<Rightarrow> up_event list \<Rightarrow> up_event list" where
  "events_of k es = filter (\<lambda>e. uev_monitor e = k) es"

text \<open>The log of each monitor is a path that ends in its state; it is in the order of time, up to \<open>t\<close>.\<close>

definition history_ok :: "datetime \<Rightarrow> monitor list \<Rightarrow> up_event list \<Rightarrow> bool" where
  "history_ok t ms es \<longleftrightarrow> sorted (map uev_at es) \<and> (\<forall>e\<in>set es. uev_at e \<le> t \<and> uev_monitor e \<in> mon_id ` set ms)
     \<and> (\<forall>m\<in>set ms. \<exists>a. follow a (events_of (mon_id m) es) = Some (mon_state m))"

definition monitor_sound :: "monitor \<Rightarrow> bool" where
  "monitor_sound m \<longleftrightarrow> monitor_ok m \<and> 0 \<le> mon_fails m \<and> (mon_state m = Down \<longleftrightarrow> CONFIRM_FAILS \<le> mon_fails m)
     \<and> (mon_check m = HeartbeatCheck \<longleftrightarrow> mon_hb_hash m \<noteq> None)"

abbreviation watch_key :: "monitor \<Rightarrow> uuid \<times> check_type \<times> string" where
  "watch_key m \<equiv> (mon_org m, mon_check m, mon_target m)"

definition monitors_good :: "monitor list \<Rightarrow> bool" where
  "monitors_good ms \<longleftrightarrow> unique_by mon_id ms \<and> (\<forall>m\<in>set ms. monitor_sound m)
     \<and> unique_by watch_key (filter mon_enabled ms)"

definition up_inv :: "datetime \<Rightarrow> up_db \<Rightarrow> bool" where
  "up_inv t s \<longleftrightarrow> monitors_good (monitors s) \<and> history_ok t (monitors s) (up_events s)"

lemma history_path: "history_ok t ms es \<Longrightarrow> m \<in> set ms \<Longrightarrow> \<exists>a. follow a (events_of (mon_id m) es) = Some (mon_state m)"
  unfolding history_ok_def by (elim conjE) (rule bspec)

lemma follow_append: "follow a (xs @ ys) = (case follow a xs of None \<Rightarrow> None | Some b \<Rightarrow> follow b ys)"
  by (induction xs arbitrary: a) auto

lemma follow_suffix: "follow a (xs @ ys) = Some c \<Longrightarrow> \<exists>b. follow b ys = Some c"
  by (auto simp: follow_append split: option.splits)

lemma later_is_suffix:
  assumes "sorted (map f xs)" shows "\<exists>ys. xs = ys @ filter (\<lambda>e. (c::int) \<le> f e) xs"
  using assms
proof (induction xs)
  case (Cons x xs)
  show ?case
  proof (cases "c \<le> f x")
    case True
    with Cons.prems have "filter (\<lambda>e. c \<le> f e) xs = xs" by (auto simp: filter_id_conv)
    with True show ?thesis by auto
  next
    case False
    with Cons show ?thesis by (auto intro: exI [of _ "x # _"])
  qed
qed simp

lemma events_of_append [simp]: "events_of k (xs @ ys) = events_of k xs @ events_of k ys"
  by (simp add: events_of_def)

lemma history_later: "history_ok t ms es \<Longrightarrow> t \<le> t' \<Longrightarrow> history_ok t' ms es"
  unfolding history_ok_def by (meson order_trans)

lemma history_purged:
  assumes "history_ok t ms es" shows "history_ok t ms (filter (\<lambda>e. c \<le> uev_at e) es)"
proof -
  have "\<exists>a. follow a (events_of (mon_id m) (filter (\<lambda>e. c \<le> uev_at e) es)) = Some (mon_state m)" if m: "m \<in> set ms" for m
  proof -
    have "sorted (map uev_at (events_of (mon_id m) es))"
      using assms by (simp add: history_ok_def events_of_def sorted_filter)
    from later_is_suffix [OF this] obtain ys where
      "events_of (mon_id m) es = ys @ filter (\<lambda>e. c \<le> uev_at e) (events_of (mon_id m) es)" ..
    moreover have "filter (\<lambda>e. c \<le> uev_at e) (events_of (mon_id m) es) = events_of (mon_id m) (filter (\<lambda>e. c \<le> uev_at e) es)"
      unfolding events_of_def filter_filter by (rule filter_cong) auto
    moreover obtain a where "follow a (events_of (mon_id m) es) = Some (mon_state m)"
      using history_path [OF assms m] ..
    ultimately show ?thesis by (metis follow_suffix)
  qed
  then have "\<forall>m\<in>set ms. \<exists>a. follow a (events_of (mon_id m) (filter (\<lambda>e. c \<le> uev_at e) es)) = Some (mon_state m)" ..
  moreover have "sorted (map uev_at (filter (\<lambda>e. c \<le> uev_at e) es))"
    "\<forall>e\<in>set (filter (\<lambda>e. c \<le> uev_at e) es). uev_at e \<le> t \<and> uev_monitor e \<in> mon_id ` set ms"
    using assms by (simp_all add: history_ok_def sorted_filter)
  ultimately show ?thesis unfolding history_ok_def by blast
qed

text \<open>What a probe does to one monitor.\<close>

definition same_watchman :: "monitor \<Rightarrow> monitor \<Rightarrow> bool" where
  "same_watchman m m' \<longleftrightarrow> mon_id m' = mon_id m \<and> watch_key m' = watch_key m \<and> mon_enabled m' = mon_enabled m"

lemma probe_effect_path:
  assumes "probe_effect eid wid m r now = (m', evs, ret)"
  shows "follow (mon_state m) evs = Some (mon_state m')" "\<forall>e\<in>set evs. uev_monitor e = mon_id m \<and> uev_at e = now"
    "same_watchman m m'"
  using assms unfolding probe_effect_def probe_state_def probe_tls_def probe_seen_def
  by (auto simp: uptime_event_def Let_def same_watchman_def split: if_splits)

lemma probe_effect_sound:
  assumes "probe_effect eid wid m r now = (m', evs, ret)" "monitor_sound m"
  shows "monitor_sound m'"
  using assms unfolding probe_effect_def probe_state_def probe_tls_def probe_seen_def
  by (auto simp: uptime_event_def Let_def monitor_sound_def monitor_ok_def CONFIRM_FAILS_def split: if_splits)

text \<open>A rewrite of one row.\<close>

lemma watch_keys_replace:
  assumes "unique_by mon_id ms" "m \<in> set ms" "mon_id m' = mon_id m"
    "unique_by watch_key (filter mon_enabled ms)"
    "mon_enabled m' \<Longrightarrow> \<forall>x\<in>set ms. mon_enabled x \<and> mon_id x \<noteq> mon_id m \<longrightarrow> watch_key x \<noteq> watch_key m'"
  shows "unique_by watch_key (filter mon_enabled (row_upd mon_id (mon_id m') (\<lambda>_. m') ms))"
  using assms
proof (induction ms)
  case (Cons x ms)
  let ?up = "row_upd mon_id (mon_id m') (\<lambda>_. m')"
  have split: "?up (x # ms) = (if mon_id x = mon_id m' then m' else x) # ?up ms" by (simp add: row_upd_def)
  have IH: "unique_by watch_key (filter mon_enabled (?up ms))"
  proof (cases "m \<in> set ms")
    case True
    with Cons show ?thesis by (simp split: if_splits)
  next
    case False
    with Cons.prems have "x = m" by auto
    then have "mon_id m' \<notin> mon_id ` set ms" using Cons.prems by auto
    then have "?up ms = ms" by (rule row_upd_absent)
    with Cons.prems show ?thesis by (simp split: if_splits)
  qed
  show ?case
  proof (cases "mon_id x = mon_id m'")
    case True
    with Cons.prems have absent: "mon_id m' \<notin> mon_id ` set ms" by auto
    then have "?up ms = ms" by (rule row_upd_absent)
    moreover have "watch_key m' \<notin> watch_key ` set (filter mon_enabled ms)" if "mon_enabled m'"
    proof
      assume "watch_key m' \<in> watch_key ` set (filter mon_enabled ms)"
      then obtain y where y: "y \<in> set ms" "mon_enabled y" "watch_key y = watch_key m'" by auto
      then have "mon_id y \<noteq> mon_id m" using absent Cons.prems(3) by (auto simp: image_iff)
      with Cons.prems(5) [OF that] y show False by (simp; metis)
    qed
    ultimately show ?thesis using IH True unfolding split by simp
  next
    case False
    then have xm: "x \<noteq> m" "mon_id x \<noteq> mon_id m" using Cons.prems(3) by auto
    have "watch_key x \<notin> watch_key ` set (filter mon_enabled (?up ms))" if "mon_enabled x"
    proof
      assume "watch_key x \<in> watch_key ` set (filter mon_enabled (?up ms))"
      then obtain y where y: "y \<in> set (?up ms)" "mon_enabled y" "watch_key y = watch_key x" by auto
      from y(1) consider "y \<in> set ms" | "y = m'" by (auto simp: set_row_upd)
      then show False
      proof cases
        case 1
        with y(2) have "watch_key y \<in> watch_key ` set (filter mon_enabled ms)" by simp
        with y(3) Cons.prems(4) that show False by simp
      next
        case 2
        with Cons.prems(5) y xm(2) that show False by auto
      qed
    qed
    with IH False show ?thesis unfolding split by simp
  qed
qed simp

lemma monitors_good_replace:
  assumes "monitors_good ms" "m \<in> set ms" "mon_id m' = mon_id m" "monitor_sound m'"
    "mon_enabled m' \<Longrightarrow> \<forall>x\<in>set ms. mon_enabled x \<and> mon_id x \<noteq> mon_id m \<longrightarrow> watch_key x \<noteq> watch_key m'"
  shows "monitors_good (row_upd mon_id (mon_id m') (\<lambda>_. m') ms)"
proof -
  have "unique_by mon_id (row_upd mon_id (mon_id m') (\<lambda>_. m') ms)"
    using assms(1) unfolding monitors_good_def unique_by_def
    by (simp add: row_upd_def comp_def if_distrib cong: if_cong)
  moreover have "unique_by watch_key (filter mon_enabled (row_upd mon_id (mon_id m') (\<lambda>_. m') ms))"
    using assms unfolding monitors_good_def by (intro watch_keys_replace) auto
  moreover have "\<forall>x\<in>set (row_upd mon_id (mon_id m') (\<lambda>_. m') ms). monitor_sound x"
    using assms(1,4) by (auto simp: monitors_good_def set_row_upd)
  ultimately show ?thesis by (simp add: monitors_good_def)
qed

lemma monitors_good_kept:
  assumes "monitors_good ms" "m \<in> set ms" "same_watchman m m'" "monitor_sound m'"
  shows "monitors_good (row_upd mon_id (mon_id m') (\<lambda>_. m') ms)"
proof (rule monitors_good_replace [OF assms(1,2) _ assms(4)])
  show "mon_id m' = mon_id m" using assms(3) by (simp add: same_watchman_def)
next
  assume "mon_enabled m'"
  then have "mon_enabled m" "watch_key m' = watch_key m" using assms(3) by (auto simp: same_watchman_def)
  moreover have u: "unique_by watch_key (filter mon_enabled ms)" using assms(1) by (simp add: monitors_good_def)
  ultimately show "\<forall>x\<in>set ms. mon_enabled x \<and> mon_id x \<noteq> mon_id m \<longrightarrow> watch_key x \<noteq> watch_key m'"
    using unique_byD [OF u, of _ m] assms(2) by auto
qed

lemma history_replace:
  assumes "history_ok t ms es" "unique_by mon_id ms" "m \<in> set ms" "mon_id m' = mon_id m" "t \<le> t'"
    "follow (mon_state m) evs = Some (mon_state m')" "\<forall>e\<in>set evs. uev_monitor e = mon_id m \<and> uev_at e = t'"
  shows "history_ok t' (row_upd mon_id (mon_id m') (\<lambda>_. m') ms) (es @ evs)"
proof -
  have own: "events_of (mon_id m) evs = evs" using assms(7) by (simp add: events_of_def filter_id_conv)
  have "\<exists>a. follow a (events_of (mon_id x) (es @ evs)) = Some (mon_state x)"
    if x: "x \<in> set (row_upd mon_id (mon_id m') (\<lambda>_. m') ms)" for x
  proof (cases "mon_id x = mon_id m")
    case True
    then have "x = m'" using x assms(4) by (auto simp: set_row_upd)
    moreover obtain a where "follow a (events_of (mon_id m) es) = Some (mon_state m)"
      using history_path [OF assms(1,3)] ..
    ultimately have "follow a (events_of (mon_id x) (es @ evs)) = Some (mon_state x)"
      using assms(4,6) own by (simp add: follow_append)
    then show ?thesis ..
  next
    case False
    then have "x \<in> set ms" using x assms(4) by (auto simp: set_row_upd)
    moreover have "events_of (mon_id x) evs = []" using assms(7) False by (auto simp: events_of_def filter_empty_conv)
    ultimately show ?thesis using history_path [OF assms(1)] by simp
  qed
  moreover have "sorted (map uev_at (es @ evs))"
    using assms(1,5,7) by (force simp: history_ok_def sorted_append map_idI intro: sorted_iff_nth_mono [THEN iffD2])
  moreover have "mon_id ` set (row_upd mon_id (mon_id m') (\<lambda>_. m') ms) = mon_id ` set ms"
    unfolding row_upd_def set_map image_image by (rule image_cong) auto
  ultimately show ?thesis using assms(1,3,5,7) unfolding history_ok_def by (auto; force)
qed

subsection \<open>Steps\<close>

text \<open>A request is validated before its handler runs.\<close>

definition post_monitor ::
    "up_lib \<Rightarrow> up_cfg \<Rightarrow> uuid \<Rightarrow> (string \<Rightarrow> string) \<Rightarrow> string \<Rightarrow> user \<Rightarrow> uuid option \<Rightarrow> monitor_create_body \<Rightarrow> datetime \<Rightarrow> up_db
      \<Rightarrow> ((mon_view \<times> (string \<times> string) option \<times> bool) \<times> up_db) result" where
  "post_monitor L C mid hash token u oid b now s =
     ebind (validate_create L C b) (\<lambda>v. monitor_create C mid hash token u oid v now s)"

definition patch_monitor ::
    "up_cfg \<Rightarrow> user \<Rightarrow> uuid option \<Rightarrow> uuid \<Rightarrow> monitor_update_body \<Rightarrow> datetime \<Rightarrow> up_db \<Rightarrow> (mon_view result \<times> bool \<times> up_db) result" where
  "patch_monitor C u oid mid b now s = ebind (validate_update b) (\<lambda>v. monitor_update C u oid mid v now s)"

text \<open>\<open>pause_monitor\<close> reads the monitor and asks for the opposite.\<close>

definition pause_route ::
    "up_cfg \<Rightarrow> user \<Rightarrow> uuid option \<Rightarrow> uuid \<Rightarrow> datetime \<Rightarrow> up_db \<Rightarrow> (mon_view result \<times> bool \<times> up_db) result" where
  "pause_route C u oid mid now s =
     ebind (monitor_get C u oid mid now s) (\<lambda>(m, _). monitor_pause C u oid mid (\<not> mon_enabled m) now s)"

inductive up_step :: "datetime \<Rightarrow> up_db \<Rightarrow> up_db \<Rightarrow> bool" where
  create: "post_monitor L C mid hash token u oid b now s = Inr (x, s') \<Longrightarrow> up_step now s s'"
| update: "patch_monitor C u oid mid b now s = Inr (x, q, s') \<Longrightarrow> up_step now s s'"
| pause: "pause_route C u oid mid now s = Inr (x, q, s') \<Longrightarrow> up_step now s s'"
| rotate: "rotate_heartbeat C hash token u oid mid now s = Inr (x, s') \<Longrightarrow> up_step now s s'"
| beat: "ingest_heartbeat C hash token now s = Inr s' \<Longrightarrow> up_step now s s'"
| delete: "monitor_delete C u oid mid s = Inr s' \<Longrightarrow> up_step now s s'"
| check: "check_one L C N icmp_env mail eid wid mid now s = (out, s') \<Longrightarrow> up_step now s s'"
| purge: "up_step now s (purge_old now s)"

inductive up_run :: "datetime \<Rightarrow> up_db \<Rightarrow> bool" where
  start: "monitors s = [] \<Longrightarrow> up_events s = [] \<Longrightarrow> up_run t s"
| step: "up_run t s \<Longrightarrow> t \<le> t' \<Longrightarrow> up_step t' s s' \<Longrightarrow> up_run t' s'"
| others: "up_run t s \<Longrightarrow> up_run t (s\<lparr>up_core := d, up_assets := as\<rparr>)"   \<comment> \<open>other services write their tables\<close>

lemma insert_monitor_Inr [errs]: "insert_monitor m s = Inr s' \<longleftrightarrow>
    monitor_ok m \<and> mon_id m \<notin> mon_id ` set (monitors s)
    \<and> (mon_asset m = None \<or> mon_asset m \<notin> mon_asset ` set (monitors s) \<and> the (mon_asset m) \<in> set (up_assets s))
    \<and> s' = s\<lparr>monitors := monitors s @ [m]\<rparr>"
  by (auto simp: insert_monitor_def)

lemma validate_create_target: "validate_create L C b = Inr v \<Longrightarrow> mcb_check v = HeartbeatCheck \<Longrightarrow> mcb_target v = HEARTBEAT_PLACEHOLDER"
  unfolding validate_create_def normalize_target_def Let_def
  by (elim guardE) (auto split: check_type.splits elim!: guardE)

lemma monitor_of_body_fields:
  fixes b :: monitor_create_body
  assumes "mcb_check b = HeartbeatCheck \<Longrightarrow> mcb_target b = HEARTBEAT_PLACEHOLDER"
  shows "mon_id (monitor_of_body mid hash token u o' b now) = mid"
    "watch_key (monitor_of_body mid hash token u o' b now) = (o', mcb_check b, mcb_target b)"
    "mon_enabled (monitor_of_body mid hash token u o' b now) = mcb_enabled b"
    "mon_state (monitor_of_body mid hash token u o' b now) = Unknown"
    "monitor_ok (monitor_of_body mid hash token u o' b now) \<Longrightarrow> monitor_sound (monitor_of_body mid hash token u o' b now)"
  using assms by (auto simp: monitor_of_body_def mint_heartbeat_token_def monitor_sound_def CONFIRM_FAILS_def monitor_ok_def Let_def)

lemma monitor_of_body_id [simp]: "mon_id (monitor_of_body mid hash token u o' b now) = mid"
  by (simp add: monitor_of_body_def mint_heartbeat_token_def Let_def)

lemma monitor_create_Inr:
  assumes "monitor_create C mid hash token u oid b now s = Inr (x, s')"
  obtains o' m r limit where "oid = Some o'" "m = monitor_of_body mid hash token u o' b now" "monitor_ok m"
    "mid \<notin> mon_id ` set (monitors s)" "s' = s\<lparr>monitors := monitors s @ [m]\<rparr>"
    "mcb_enabled b \<Longrightarrow> filter (same_watch o' (mcb_check b) (mcb_target b)) (monitors s) = []"
    "up_org s o' = Inr r" "uptime_limit s r = Inr limit" "mcb_enabled b \<Longrightarrow> int (enabled_count s o') < limit"
    "\<exists>mem. get_membership (up_core s) o' (user_id u) = Some mem \<and> role_at_least (Some (mem_role mem)) Member"
proof -
  from assms show thesis
    unfolding monitor_create_def Let_def require_membership_def
    apply (elim guardE)
    apply (rule that, assumption, rule refl)
    apply (auto simp: errs)[1]
    apply (auto simp: errs)[1]
    apply (auto simp: errs)[1]
    apply (auto simp: errs)[1]
    apply (assumption)
    apply (assumption)
    apply (auto simp: errs)[1]
    apply (auto simp: errs)[1]
    done
qed

lemma monitor_create_keeps:
  assumes "post_monitor L C mid hash token u oid b now s = Inr (x, s')" "up_inv t s" "t \<le> now"
  shows "up_inv now s'"
proof -
  from assms(1) obtain v where v: "validate_create L C b = Inr v" "monitor_create C mid hash token u oid v now s = Inr (x, s')"
    unfolding post_monitor_def by (auto simp: errs)
  obtain o' m where m: "m = monitor_of_body mid hash token u o' v now" "monitor_ok m"
    "mid \<notin> mon_id ` set (monitors s)" "s' = s\<lparr>monitors := monitors s @ [m]\<rparr>"
    "mcb_enabled v \<Longrightarrow> filter (same_watch o' (mcb_check v) (mcb_target v)) (monitors s) = []"
    by (rule monitor_create_Inr [OF v(2)]) (rule that)
  note f = monitor_of_body_fields [OF validate_create_target [OF v(1)], of mid hash token u o' now, folded m(1)]
  have "watch_key m \<notin> watch_key ` set (filter mon_enabled (monitors s))" if "mon_enabled m"
    using m(5) f(2,3) that by (auto simp: same_watch_def filter_empty_conv)
  then have good: "monitors_good (monitors s')"
    using assms(2) m f by (auto simp: up_inv_def monitors_good_def unique_by_append1)
  have h: "history_ok now (monitors s) (up_events s)" using assms(2,3) history_later by (auto simp: up_inv_def)
  then have "events_of mid (up_events s) = []" using m(3) by (auto simp: history_ok_def events_of_def filter_empty_conv)
  then have "\<exists>a. follow a (events_of (mon_id m) (up_events s)) = Some (mon_state m)" using f(1) by simp
  moreover have "\<forall>x\<in>set (monitors s). \<exists>a. follow a (events_of (mon_id x) (up_events s)) = Some (mon_state x)"
    using history_path [OF h] by blast
  ultimately have "history_ok now (monitors s') (up_events s')" using h m(4) unfolding history_ok_def by simp
  with good show ?thesis by (simp add: up_inv_def)
qed

text \<open>A rewrite of one monitor with no event.\<close>

lemma save_keeps:
  assumes "up_inv t s" "m \<in> set (monitors s)" "mon_id m' = mon_id m" "monitor_sound m'" "mon_state m' = mon_state m" "t \<le> t'"
    "mon_enabled m' \<Longrightarrow> \<forall>x\<in>set (monitors s). mon_enabled x \<and> mon_id x \<noteq> mon_id m \<longrightarrow> watch_key x \<noteq> watch_key m'"
  shows "up_inv t' (save_monitor m' s)"
proof -
  have "unique_by mon_id (monitors s)" using assms(1) by (simp add: up_inv_def monitors_good_def)
  then have "history_ok t' (row_upd mon_id (mon_id m') (\<lambda>_. m') (monitors s)) (up_events s @ [])"
    using assms by (intro history_replace) (auto simp: up_inv_def)
  moreover have "monitors_good (row_upd mon_id (mon_id m') (\<lambda>_. m') (monitors s))"
    using assms by (intro monitors_good_replace) (auto simp: up_inv_def)
  ultimately show ?thesis by (simp add: up_inv_def save_monitor_def)
qed

lemma live_apart:
  assumes "up_inv t s" "m \<in> set (monitors s)" "mon_enabled m" "watch_key m' = watch_key m"
  shows "\<forall>x\<in>set (monitors s). mon_enabled x \<and> mon_id x \<noteq> mon_id m \<longrightarrow> watch_key x \<noteq> watch_key m'"
proof -
  have u: "unique_by watch_key (filter mon_enabled (monitors s))" using assms(1) by (simp add: up_inv_def monitors_good_def)
  show ?thesis using unique_byD [OF u, of _ m] assms(2-4) by auto
qed

lemma inv_sound: "up_inv t s \<Longrightarrow> m \<in> set (monitors s) \<Longrightarrow> monitor_sound m"
  by (simp add: up_inv_def monitors_good_def)

lemma monitor_in_org_Inr [errs]: "monitor_in_org s mid oid uid = Inr m \<longleftrightarrow>
    get_monitor s mid = Some m \<and> (oid = None \<or> oid = Some (mon_org m))
    \<and> (\<exists>mem. get_membership (up_core s) (mon_org m) uid = Some mem \<and> role_at_least (Some (mem_role mem)) Viewer)"
  by (auto simp: monitor_in_org_def Let_def errs)

lemma set_column_Inr [errs]: "set_column v old = Inr x \<longleftrightarrow> v = None \<and> x = old \<or> v = Some (Some x)"
  by (auto simp: set_column_def split: option.splits)

lemma set_column_true: "set_column v old = Inr True \<Longrightarrow> \<not> old \<Longrightarrow> v = Some (Some True)"
  by (auto simp: errs)

lemma updated_monitor_Inr:
  assumes "updated_monitor b now m = Inr m'"
  shows "mon_id m' = mon_id m" "watch_key m' = watch_key m" "mon_state m' = mon_state m" "mon_fails m' = mon_fails m"
    "mon_hb_hash m' = mon_hb_hash m" "mon_created_by m' = mon_created_by m"
  using assms unfolding updated_monitor_def
  by (elim guardE; clarsimp)+

lemma updated_monitor_enabled:
  assumes "updated_monitor b now m = Inr m'" "mon_enabled m'"
  shows "mon_enabled m \<or> mub_enabled b = Some (Some True)"
  using assms unfolding updated_monitor_def by (elim guardE) (clarsimp, blast dest: set_column_true)

lemma monitor_update_Inr:
  assumes "monitor_update C u oid mid b now s = Inr (x, q, s')"
  obtains m m' mem where "get_monitor s mid = Some m" "updated_monitor b now m = Inr m'" "monitor_ok m'" "s' = save_monitor m' s"
    "get_membership (up_core s) (mon_org m) (user_id u) = Some mem"
    "role_at_least (Some (mem_role mem)) Admin \<or> role_at_least (Some (mem_role mem)) Member \<and> mon_created_by m = user_id u"
    "\<not> mon_enabled m \<Longrightarrow> mub_enabled b = Some (Some True) \<Longrightarrow> enable_check m s = Inr ()"
proof -
  from assms show thesis
    unfolding monitor_update_def Let_def member_of_def
    apply (elim guardE)
    apply (rule that)
    apply (auto simp: errs)[1]
    apply assumption
    apply (auto simp: errs)[1]
    apply (auto simp: errs)[1]
    apply assumption
    apply (auto simp: errs)[1]
    apply (auto simp: errs)[1]
    done
qed

lemma enable_check_Inr:
  assumes "enable_check m s = Inr ()"
  obtains r limit where "up_org s (mon_org m) = Inr r" "uptime_limit s r = Inr limit" "int (enabled_count s (mon_org m)) < limit"
    "filter (\<lambda>x. same_watch (mon_org m) (mon_check m) (mon_target m) x \<and> mon_id x \<noteq> mon_id m) (monitors s) = []"
  using assms unfolding enable_check_def by (auto simp: errs)

lemma update_keeps:
  assumes "monitor_update C u oid mid b now s = Inr (x, q, s')" "up_inv t s" "t \<le> now"
  shows "up_inv now s'"
proof -
  obtain m m' where m: "get_monitor s mid = Some m" "updated_monitor b now m = Inr m'" "monitor_ok m'"
    "s' = save_monitor m' s" "\<not> mon_enabled m \<Longrightarrow> mub_enabled b = Some (Some True) \<Longrightarrow> enable_check m s = Inr ()"
    by (rule monitor_update_Inr [OF assms(1)]) (rule that)
  note f = updated_monitor_Inr [OF m(2)]
  have mem: "m \<in> set (monitors s)" using m(1) row_get_Some by metis
  have apart: "\<forall>x\<in>set (monitors s). mon_enabled x \<and> mon_id x \<noteq> mon_id m \<longrightarrow> watch_key x \<noteq> watch_key m'" if "mon_enabled m'"
  proof (cases "mon_enabled m")
    case True
    show ?thesis by (rule live_apart [OF assms(2) mem True f(2)])
  next
    case False
    then have "enable_check m s = Inr ()" using updated_monitor_enabled [OF m(2) that] m(5) by blast
    then have "filter (\<lambda>x. same_watch (mon_org m) (mon_check m) (mon_target m) x \<and> mon_id x \<noteq> mon_id m) (monitors s) = []"
      by (rule enable_check_Inr)
    then show ?thesis using f(2) by (auto simp: same_watch_def filter_empty_conv)
  qed
  have "monitor_sound m'" using inv_sound [OF assms(2) mem] m(3) f by (auto simp: monitor_sound_def)
  then show ?thesis unfolding m(4) using save_keeps [OF assms(2) mem f(1) _ f(3) assms(3)] apart by blast
qed

text \<open>The handlers that only touch the beat of a monitor.\<close>

lemma touch_keeps:
  assumes "up_inv t s" "m \<in> set (monitors s)" "same_watchman m m'" "mon_state m' = mon_state m" "mon_fails m' = mon_fails m"
    "monitor_ok m' = monitor_ok m" "mon_hb_hash m' = None \<longleftrightarrow> mon_hb_hash m = None" "t \<le> now"
  shows "up_inv now (save_monitor m' s)"
proof (rule save_keeps [OF assms(1,2) _ _ assms(4,8)])
  show "mon_id m' = mon_id m" using assms(3) by (simp add: same_watchman_def)
  show "monitor_sound m'"
    using inv_sound [OF assms(1,2)] assms(3-7) by (auto simp: monitor_sound_def same_watchman_def)
next
  assume "mon_enabled m'"
  then show "\<forall>x\<in>set (monitors s). mon_enabled x \<and> mon_id x \<noteq> mon_id m \<longrightarrow> watch_key x \<noteq> watch_key m'"
    using live_apart [OF assms(1,2)] assms(3) by (simp add: same_watchman_def)
qed

lemma rotate_keeps:
  assumes "rotate_heartbeat C hash token u oid mid now s = Inr (x, s')" "up_inv t s" "t \<le> now"
  shows "up_inv now s'"
proof -
  obtain m where m: "get_monitor s mid = Some m" "mon_check m = HeartbeatCheck"
    "s' = save_monitor (m\<lparr>mon_hb_hash := Some (hash token), mon_hb_prefix := Some (take 8 token), mon_updated_at := now\<rparr>) s"
    using assms(1) unfolding rotate_heartbeat_def mint_heartbeat_token_def Let_def prod.case
    by (elim guardE) (auto simp: errs)
  have "m \<in> set (monitors s)" using m(1) row_get_Some by metis
  moreover have "mon_hb_hash m \<noteq> None" using inv_sound [OF assms(2) calculation] m(2) by (simp add: monitor_sound_def)
  ultimately show ?thesis unfolding m(3)
    by (intro touch_keeps [OF assms(2) _ _ _ _ _ _ assms(3)]) (auto simp: same_watchman_def monitor_ok_def)
qed

lemma beat_keeps:
  assumes "ingest_heartbeat C hash token now s = Inr s'" "up_inv t s" "t \<le> now"
  shows "up_inv now s'"
proof -
  obtain m where m: "filter (\<lambda>m. mon_check m = HeartbeatCheck \<and> mon_hb_hash m = Some (hash token) \<and> mon_enabled m) (monitors s) = [m]"
    "s' = save_monitor (m\<lparr>mon_last_hb := Some now, mon_updated_at := now\<rparr>) s"
    using assms(1) unfolding ingest_heartbeat_def by (elim guardE) (auto simp: errs)
  then have "m \<in> set (monitors s)" by (metis filter_eq_ConsD in_set_conv_decomp)
  then show ?thesis unfolding m(2)
    by (intro touch_keeps [OF assms(2) _ _ _ _ _ _ assms(3)]) (auto simp: same_watchman_def monitor_ok_def)
qed

lemma unique_by_filter: "unique_by f xs \<Longrightarrow> unique_by f (filter P xs)"
  unfolding unique_by_def by (rule distinct_map_filter)

lemma events_of_other: "k \<noteq> mid \<Longrightarrow> events_of k (filter (\<lambda>e. uev_monitor e \<noteq> mid) es) = events_of k es"
  unfolding events_of_def filter_filter by (rule filter_cong) auto

lemma delete_keeps:
  assumes "monitor_delete C u oid mid s = Inr s'" "up_inv t s" "t \<le> now"
  shows "up_inv now s'"
proof -
  have s': "monitors s' = row_del mon_id mid (monitors s)" "up_events s' = filter (\<lambda>e. uev_monitor e \<noteq> mid) (up_events s)"
    using assms(1) unfolding monitor_delete_def by (auto elim!: guardE)
  have h: "history_ok now (monitors s) (up_events s)" using assms(2,3) history_later by (auto simp: up_inv_def)
  have swap: "filter mon_enabled (row_del mon_id mid (monitors s)) = filter (\<lambda>m. mon_id m \<noteq> mid) (filter mon_enabled (monitors s))"
    unfolding row_del_def filter_filter by (rule filter_cong) auto
  have g: "unique_by mon_id (monitors s)" "\<forall>m\<in>set (monitors s). monitor_sound m" "unique_by watch_key (filter mon_enabled (monitors s))"
    using assms(2) by (auto simp: up_inv_def monitors_good_def)
  have "unique_by watch_key (filter mon_enabled (row_del mon_id mid (monitors s)))" unfolding swap by (rule unique_by_filter [OF g(3)])
  then have "monitors_good (monitors s')" using g(2) unique_by_row_del [OF g(1)] by (simp add: s' monitors_good_def)
  moreover have "\<exists>a. follow a (events_of (mon_id m) (up_events s')) = Some (mon_state m)" if "m \<in> set (monitors s')" for m
    using history_path [OF h, of m] that by (simp add: s' events_of_other)
  moreover have "sorted (map uev_at (up_events s'))" "\<forall>e\<in>set (up_events s'). uev_at e \<le> now \<and> uev_monitor e \<in> mon_id ` set (monitors s')"
    using h by (force simp: s' history_ok_def sorted_filter)+
  ultimately show ?thesis by (simp add: up_inv_def history_ok_def)
qed

text \<open>Marking an event as notified leaves the path alone.\<close>

lemma follow_cong: "map (\<lambda>e. (uev_from e, uev_to e)) es = map (\<lambda>e. (uev_from e, uev_to e)) es' \<Longrightarrow> follow a es = follow a es'"
proof (induction es arbitrary: a es')
  case (Cons e es)
  then obtain e' es'' where "es' = e' # es''" by (cases es') auto
  with Cons show ?case by auto
qed simp

lemma events_of_row_upd:
  assumes "\<And>e. uev_monitor (f e) = uev_monitor e"
  shows "events_of k (row_upd uev_id i f es) = row_upd uev_id i f (events_of k es)"
  using assms by (induction es) (auto simp: events_of_def row_upd_def)

lemma history_notified:
  assumes "history_ok t ms es"
  shows "history_ok t ms (row_upd uev_id i (\<lambda>e. e\<lparr>uev_notified := b\<rparr>) es)"
proof -
  let ?up = "row_upd uev_id i (\<lambda>e. e\<lparr>uev_notified := b\<rparr>)"
  have "map uev_at (?up es) = map uev_at es" by (rule map_key_row_upd) simp
  moreover have "follow a (events_of k (?up es)) = follow a (events_of k es)" for a k
  proof -
    have "map (\<lambda>e. (uev_from e, uev_to e)) (?up (events_of k es)) = map (\<lambda>e. (uev_from e, uev_to e)) (events_of k es)"
      by (rule map_key_row_upd) simp
    then show ?thesis by (subst events_of_row_upd) (auto intro: follow_cong)
  qed
  ultimately show ?thesis using assms by (force simp: history_ok_def set_row_upd)
qed

lemma apply_probe_keeps:
  assumes "apply_probe eid wid m r now s = (ev, m', s')" "up_inv t s" "m \<in> set (monitors s)" "t \<le> now"
  shows "up_inv now s'"
proof -
  obtain evs where e: "probe_effect eid wid m r now = (m', evs, ev)"
    and s': "monitors s' = row_upd mon_id (mon_id m') (\<lambda>_. m') (monitors s)"
      "up_events s' = filter (\<lambda>e. now - 90 * day_us \<le> uev_at e) (up_events s @ evs)"
    using assms(1) by (auto simp: apply_probe_def Let_def purge_old_def save_monitor_def split: prod.splits)
  note p = probe_effect_path [OF e]
  have g: "monitors_good (monitors s)" "unique_by mon_id (monitors s)" "history_ok t (monitors s) (up_events s)"
    using assms(2) by (auto simp: up_inv_def monitors_good_def)
  have "monitors_good (monitors s')" unfolding s'
    by (rule monitors_good_kept [OF g(1) assms(3) p(3) probe_effect_sound [OF e inv_sound [OF assms(2,3)]]])
  moreover have "history_ok now (monitors s') (up_events s @ evs)" unfolding s'
    using p(3) by (intro history_replace [OF g(3,2) assms(3) _ assms(4) p(1,2)]) (simp add: same_watchman_def)
  ultimately show ?thesis unfolding up_inv_def s'(2) by (blast intro: history_purged)
qed

lemma check_keeps:
  assumes "check_one L C N icmp_env mail eid wid mid now s = (out, s')" "up_inv t s" "t \<le> now"
  shows "up_inv now s'"
proof -
  have same: "up_inv now s" using assms(2,3) history_later by (auto simp: up_inv_def)
  show ?thesis
  proof (cases "get_monitor s mid")
    case None
    with assms(1) same show ?thesis by (simp add: check_one_def)
  next
    case (Some m)
    then have m: "m \<in> set (monitors s)" using row_get_Some by metis
    show ?thesis
    proof (cases "\<not> mon_enabled m \<or> mon_check m = PingCheck \<and> \<not> icmp_env \<or> isl (run_probe L C N m now)")
      case True
      with assms(1) same Some show ?thesis by (auto simp: check_one_def split: if_splits sum.splits)
    next
      case False
      then obtain r where r: "run_probe L C N m now = Inr r" by (cases "run_probe L C N m now") auto
      obtain ev m' s1 where a: "apply_probe eid wid m r now s = (ev, m', s1)" by (metis surj_pair)
      have "s' = s1 \<or> (\<exists>sent. s' = s1\<lparr>up_events := row_upd uev_id (uev_id (the ev)) (\<lambda>e. e\<lparr>uev_notified := sent\<rparr>) (up_events s1)\<rparr>)"
        using assms(1) False by (simp add: check_one_def Some r a Let_def split: if_splits sum.splits) auto
      with apply_probe_keeps [OF a assms(2) m assms(3)] history_notified show ?thesis by (auto simp: up_inv_def)
    qed
  qed
qed

lemma up_step_keeps: "up_step now s s' \<Longrightarrow> up_inv t s \<Longrightarrow> t \<le> now \<Longrightarrow> up_inv now s'"
proof (induction rule: up_step.induct)
  case (create L C mid hash token u oid b now s x s')
  then show ?case using monitor_create_keeps by blast
next
  case (update C u oid mid b now s x q s')
  then show ?case unfolding patch_monitor_def by (elim guardE) (rule update_keeps)
next
  case (pause C u oid mid now s x q s')
  then show ?case unfolding pause_route_def monitor_pause_def by (elim guardE) (auto intro: update_keeps split: prod.splits)
next
  case (rotate C hash token u oid mid now s x s')
  then show ?case using rotate_keeps by blast
next
  case (beat C hash token now s s')
  then show ?case using beat_keeps by blast
next
  case (delete C u oid mid s s' now)
  then show ?case using delete_keeps by blast
next
  case (check L C N icmp_env mail eid wid mid now s out s')
  then show ?case using check_keeps by blast
next
  case (purge now s)
  then show ?case using history_purged history_later by (simp add: up_inv_def purge_old_def) blast
qed

lemma up_run_inv: "up_run t s \<Longrightarrow> up_inv t s"
proof (induction rule: up_run.induct)
  case (start s t)
  then show ?case by (simp add: up_inv_def monitors_good_def history_ok_def)
next
  case (step t s t' s')
  then show ?case using up_step_keeps by blast
next
  case (others t s d as)
  then show ?case by (simp add: up_inv_def)
qed

subsection \<open>Alarms\<close>

text \<open>A monitor under a sequence of results, with the events they write.\<close>

type_synonym probe_run = "(uuid \<times> uuid \<times> probe_result \<times> datetime) list"

fun probe_all :: "monitor \<Rightarrow> probe_run \<Rightarrow> monitor \<times> up_event list" where
  "probe_all m [] = (m, [])"
| "probe_all m ((eid, wid, r, now) # ps) = (let (m1, evs, _) = probe_effect eid wid m r now; (m2, es) = probe_all m1 ps in
     (m2, evs @ es))"

text \<open>The reference: how many of the last results were failures.\<close>

definition trailing :: "probe_run \<Rightarrow> nat" where
  "trailing ps = length (takeWhile (\<lambda>(eid, wid, r, now). \<not> prb_ok r) (rev ps))"

definition alarms :: "up_event list \<Rightarrow> nat" where
  "alarms evs = count_where (\<lambda>e. uev_to e = Down) evs"

lemma trailing_snoc: "trailing (ps @ [(eid, wid, r, now)]) = (if prb_ok r then 0 else Suc (trailing ps))"
  by (simp add: trailing_def)

lemma probe_all_snoc: "probe_all m (ps @ [(eid, wid, r, now)]) =
    (let (m1, es) = probe_all m ps; (m2, evs, _) = probe_effect eid wid m1 r now in (m2, es @ evs))"
  by (induction m ps rule: probe_all.induct) (auto simp: Let_def split: prod.splits)

lemma probe_effect_alarm:
  assumes "probe_effect eid wid m r now = (m', evs, ret)" "mon_state m = Down \<longleftrightarrow> CONFIRM_FAILS \<le> mon_fails m"
  shows "mon_fails m' = (if prb_ok r then 0 else mon_fails m + 1)" "mon_state m' = Down \<longleftrightarrow> CONFIRM_FAILS \<le> mon_fails m'"
    "alarms evs = (if mon_fails m' = CONFIRM_FAILS then 1 else 0)"
  using assms unfolding probe_effect_def probe_state_def probe_tls_def probe_seen_def
  by (auto simp: uptime_event_def Let_def alarms_def CONFIRM_FAILS_def split: if_splits)

lemma probe_all_alarms:
  assumes "mon_fails m = 0" "mon_state m \<noteq> Down"
  shows "mon_fails (fst (probe_all m ps)) = int (trailing ps)
    \<and> (mon_state (fst (probe_all m ps)) = Down \<longleftrightarrow> CONFIRM_FAILS \<le> int (trailing ps))
    \<and> alarms (snd (probe_all m ps)) = length (filter (\<lambda>k. int (trailing (take (Suc k) ps)) = CONFIRM_FAILS) [0..<length ps])"
proof (induction ps rule: rev_induct)
  case Nil
  with assms show ?case by (simp add: trailing_def alarms_def CONFIRM_FAILS_def)
next
  case (snoc p ps)
  obtain eid wid r now where p: "p = (eid, wid, r, now)" by (metis surj_pair)
  obtain m1 es where a: "probe_all m ps = (m1, es)" by force
  obtain m2 evs ret where e: "probe_effect eid wid m1 r now = (m2, evs, ret)" by (metis surj_pair)
  from snoc.IH have h: "mon_fails m1 = int (trailing ps)" "mon_state m1 = Down \<longleftrightarrow> CONFIRM_FAILS \<le> mon_fails m1"
    "alarms es = length (filter (\<lambda>k. int (trailing (take (Suc k) ps)) = CONFIRM_FAILS) [0..<length ps])" by (simp_all add: a)
  note x = probe_effect_alarm [OF e h(2)]
  have t: "mon_fails m2 = int (trailing (ps @ [p]))" using x(1) h(1) by (simp add: p trailing_snoc)
  have run: "probe_all m (ps @ [p]) = (m2, es @ evs)" by (simp add: p probe_all_snoc a e)
  have "filter (\<lambda>k. int (trailing (take (Suc k) (ps @ [p]))) = CONFIRM_FAILS) [0..<length ps]
      = filter (\<lambda>k. int (trailing (take (Suc k) ps)) = CONFIRM_FAILS) [0..<length ps]"
    by (rule filter_cong) auto
  then have "alarms (es @ evs) = length (filter (\<lambda>k. int (trailing (take (Suc k) (ps @ [p]))) = CONFIRM_FAILS) [0..<length (ps @ [p])])"
    using h(3) x(3) t by (simp add: alarms_def)
  with t x(2) show ?case by (simp add: run)
qed

text \<open>C14: One alarm per outage. Whatever the results of its probes, a monitor that starts healthy is down exactly while the
  last two or more results were failures, and it has raised one alarm for each time a run of failures reached its second
  failure: none for a single failure, no second one while the outage lasts. The TLS warnings and recoveries in between
  change nothing of that.\<close>

theorem one_alarm_per_outage:
  assumes "mon_fails m = 0" "mon_state m \<noteq> Down" "probe_all m ps = (m', evs)"
  shows "(mon_state m' = Down \<longleftrightarrow> 2 \<le> trailing ps)
    \<and> alarms evs = length (filter (\<lambda>k. trailing (take (Suc k) ps) = 2) [0..<length ps])
    \<and> follow (mon_state m) evs = Some (mon_state m')"
proof -
  have "follow (mon_state m) (snd (probe_all m ps)) = Some (mon_state (fst (probe_all m ps)))"
  proof (induction m ps rule: probe_all.induct)
    case (2 m eid wid r now ps)
    obtain m1 evs ret where e: "probe_effect eid wid m r now = (m1, evs, ret)" by (metis surj_pair)
    from 2 [OF refl e [symmetric] refl] probe_effect_path(1) [OF e] show ?case
      by (cases "probe_all m1 ps") (simp add: e follow_append)
  qed simp
  with probe_all_alarms [OF assms(1,2), of ps] assms(3) show ?thesis by (simp add: CONFIRM_FAILS_def)
qed

subsection \<open>A workspace with one monitor\<close>

definition beat_body :: monitor_create_body where
  "beat_body = \<lparr>mcb_name = ''nightly'', mcb_check = HeartbeatCheck, mcb_target = [], mcb_interval = 60, mcb_timeout = 10,
     mcb_expect_status = None, mcb_keyword = None, mcb_keyword_invert = False, mcb_method = ''GET'', mcb_headers = None,
     mcb_body = None, mcb_dns_record = None, mcb_expected = None, mcb_notify = None, mcb_asset = None, mcb_enabled = True\<rparr>"

definition up_on_cfg :: up_cfg where
  "up_on_cfg = \<lparr>cfg_enabled = True, cfg_allow_private = False, cfg_icmp = False, cfg_frontend = ''https://x.id/''\<rparr>"

definition no_lib :: up_lib where
  "no_lib = \<lparr>lib_urlparse = (\<lambda>_. Inl (ValueError ''url'')), lib_blocked = (\<lambda>_. False)\<rparr>"

definition no_net :: up_net where
  "no_net = \<lparr>net_addrs = (\<lambda>_ _. Inl ''off''), net_connect = (\<lambda>_ _ _. Some ''off''), net_http = (\<lambda>_ _ _ _ _. Inl ''off''),
     net_tls_days = (\<lambda>_ _. None), net_ping = (\<lambda>_ _. Inl ''off''), net_ms = 1\<rparr>"

definition up_db0 :: up_db where
  "up_db0 = \<lparr>up_core = team_db, up_assets = [], monitors = [], samples = [], up_events = []\<rparr>"

definition up_db1 :: up_db where   \<comment> \<open>user 1 of organization 7 adds a heartbeat monitor\<close>
  "up_db1 = projr (map_sum id snd (post_monitor no_lib up_on_cfg 500 ((#) CHR ''h'') ''secret-token'' (team_user 1) (Some 7) beat_body 2000 up_db0))"

definition up_db3 :: up_db where   \<comment> \<open>two checks without a beat\<close>
  "up_db3 = snd (check_one no_lib up_on_cfg no_net False (\<lambda>_. Inr True) 602 603 500 4000
     (snd (check_one no_lib up_on_cfg no_net False (\<lambda>_. Inr True) 600 601 500 3000 up_db1)))"

lemma checked_run: "up_run t s \<Longrightarrow> t \<le> t' \<Longrightarrow> up_run t' (snd (check_one L C N icmp_env mail eid wid mid t' s))"
  by (rule up_run.step [OF _ _ up_step.check [OF prod.collapse [symmetric]]])

lemma up_samples: "up_run 2000 up_db1" "up_run 4000 up_db3"
proof -
  have "\<not> isl (post_monitor no_lib up_on_cfg 500 ((#) CHR ''h'') ''secret-token'' (team_user 1) (Some 7) beat_body 2000 up_db0)"
    by code_simp
  then obtain x s where "post_monitor no_lib up_on_cfg 500 ((#) CHR ''h'') ''secret-token'' (team_user 1) (Some 7) beat_body 2000 up_db0 = Inr (x, s)"
    by (cases "post_monitor no_lib up_on_cfg 500 ((#) CHR ''h'') ''secret-token'' (team_user 1) (Some 7) beat_body 2000 up_db0") auto
  then have "up_step 2000 up_db0 up_db1" using up_step.create by (simp add: up_db1_def)
  moreover have "up_run 2000 up_db0" by (rule up_run.start) (simp_all add: up_db0_def)
  ultimately show one: "up_run 2000 up_db1" by (metis order_refl up_run.step)
  show "up_run 4000 up_db3" unfolding up_db3_def
    using checked_run [OF checked_run [OF one, of 3000], of 4000] by simp
qed

theorem one_alarm_per_outage_witness:
  "\<exists>m m' evs. monitors up_db1 = [m] \<and> probe_all m (replicate 3 (1, 2, no_latency False ''late'', 5)) = (m', evs)
     \<and> mon_state m' = Down \<and> alarms evs = 1"
proof -
  have "length (monitors up_db1) = 1" "list_all (\<lambda>m. mon_fails m = 0 \<and> mon_state m = Unknown) (monitors up_db1)" by code_simp+
  then obtain m where m: "monitors up_db1 = [m]" "mon_fails m = 0" "mon_state m \<noteq> Down"
    by (cases "monitors up_db1") auto
  obtain m' evs where run: "probe_all m (replicate 3 (1, 2, no_latency False ''late'', 5)) = (m', evs)" by force
  have "trailing (replicate 3 (1, 2, no_latency False ''late'', 5)) = 3"
    "filter (\<lambda>k. trailing (take (Suc k) (replicate 3 (1, 2, no_latency False ''late'', 5))) = 2) [0..<3] = [1]" by code_simp+
  with one_alarm_per_outage [OF m(2,3) run] m(1) run show ?thesis by simp
qed




subsection \<open>Who may change what, and how much\<close>

lemma enabled_count_append: "enabled_count (s\<lparr>monitors := monitors s @ [m]\<rparr>) o'
    = enabled_count s o' + (if mon_org m = o' \<and> mon_enabled m then 1 else 0)"
  by (simp add: enabled_count_def)

lemma enabled_count_save:
  assumes "unique_by mon_id (monitors s)" "get_monitor s (mon_id m') = Some m" "mon_org m' = mon_org m"
  shows "enabled_count (save_monitor m' s) o' + (if mon_org m = o' \<and> mon_enabled m then 1 else 0)
    = enabled_count s o' + (if mon_org m = o' \<and> mon_enabled m' then 1 else 0)"
  using count_row_replace [OF assms(1,2), of "\<lambda>m. mon_org m = o' \<and> mon_enabled m" "\<lambda>_. m'"] assms(3)
  by (simp add: enabled_count_def save_monitor_def)

lemma update_seats:
  assumes "monitor_update C u oid mid b now s = Inr (x, q, s')" "unique_by mon_id (monitors s)"
    "up_org s o' = Inr r" "uptime_limit s r = Inr limit"
  shows "int (enabled_count s' o') \<le> max (int (enabled_count s o')) limit"
proof -
  obtain m m' where m: "get_monitor s mid = Some m" "updated_monitor b now m = Inr m'" "s' = save_monitor m' s"
    "\<not> mon_enabled m \<Longrightarrow> mub_enabled b = Some (Some True) \<Longrightarrow> enable_check m s = Inr ()"
    by (rule monitor_update_Inr [OF assms(1)]) (rule that)
  have id: "mon_id m' = mid" "mon_org m' = mon_org m" using updated_monitor_Inr [OF m(2)] row_get_Some [OF m(1)] by auto
  have c: "enabled_count s' o' + (if mon_org m = o' \<and> mon_enabled m then 1 else 0)
      = enabled_count s o' + (if mon_org m = o' \<and> mon_enabled m' then 1 else 0)"
    unfolding m(3) using enabled_count_save [OF assms(2) _ id(2)] m(1) id(1) by blast
  show ?thesis
  proof (cases "mon_org m = o' \<and> mon_enabled m' \<and> \<not> mon_enabled m")
    case True
    then have "enable_check m s = Inr ()" using updated_monitor_enabled [OF m(2)] m(4) by blast
    then obtain r1 l1 where "up_org s (mon_org m) = Inr r1" "uptime_limit s r1 = Inr l1" "int (enabled_count s (mon_org m)) < l1"
      by (rule enable_check_Inr) (rule that)
    then show ?thesis using True assms(3,4) c by auto
  next
    case False
    then show ?thesis using c by (auto split: if_splits)
  qed
qed

text \<open>Seats. Adding or changing a monitor never takes the live monitors of an organization above the uptime limit of its
  tier; an organization that is above it already, after a downgrade, can only shrink.\<close>

theorem uptime_seats:
  assumes "up_inv t s"
    "post_monitor L C mid hash token u oid b now s = Inr (x, s') \<or> patch_monitor C u oid mid ub now s = Inr (y, q, s')
      \<or> pause_route C u oid mid now s = Inr (y, q, s')"
    "up_org s o' = Inr r" "uptime_limit s r = Inr limit"
  shows "int (enabled_count s' o') \<le> max (int (enabled_count s o')) limit"
proof -
  have u: "unique_by mon_id (monitors s)" using assms(1) by (simp add: up_inv_def monitors_good_def)
  from assms(2) consider v where "monitor_create C mid hash token u oid v now s = Inr (x, s')" "validate_create L C b = Inr v"
    | v where "monitor_update C u oid mid v now s = Inr (y, q, s')"
    unfolding post_monitor_def patch_monitor_def pause_route_def monitor_pause_def
    by (auto elim!: guardE split: prod.splits)
  then show ?thesis
  proof cases
    case 1
    obtain o2 m r2 l2 where m: "m = monitor_of_body mid hash token u o2 v now" "s' = s\<lparr>monitors := monitors s @ [m]\<rparr>"
      "up_org s o2 = Inr r2" "uptime_limit s r2 = Inr l2" "mcb_enabled v \<Longrightarrow> int (enabled_count s o2) < l2"
      by (rule monitor_create_Inr [OF 1(1)]) (rule that)
    have "mon_org m = o2" "mon_enabled m = mcb_enabled v"
      unfolding m(1) using monitor_of_body_fields(2,3) [OF validate_create_target [OF 1(2)]] by auto
    with m(3-5) assms(3,4) show ?thesis unfolding m(2) enabled_count_append by (cases "o' = o2") auto
  next
    case 2
    then show ?thesis by (rule update_seats [OF _ u assms(3,4)])
  qed
qed

subsection \<open>Where the code does not do what it means to\<close>

text \<open>All heartbeat monitors have the same target, so an organization can have only one live one: the second is refused as a
  duplicate.\<close>

lemma second_heartbeat_is_refused:
  assumes "up_inv t s" "m \<in> set (monitors s)" "same_watch o' HeartbeatCheck HEARTBEAT_PLACEHOLDER m"
    "mcb_check b = HeartbeatCheck" "mcb_enabled b"
  shows "post_monitor L C mid hash token u (Some o') b now s \<noteq> Inr (x, s')"
proof
  assume "post_monitor L C mid hash token u (Some o') b now s = Inr (x, s')"
  then obtain v where v: "validate_create L C b = Inr v" "monitor_create C mid hash token u (Some o') v now s = Inr (x, s')"
    unfolding post_monitor_def by (auto elim!: guardE)
  have k: "mcb_check v = HeartbeatCheck" "mcb_enabled v"
    using v(1) assms(4,5) unfolding validate_create_def create_fields_def normalize_target_def
    by (auto elim!: guardE split: check_type.splits)
  have "filter (same_watch o' (mcb_check v) (mcb_target v)) (monitors s) = []"
    by (rule monitor_create_Inr [OF v(2)]) (use k(2) in simp)
  then show False using validate_create_target [OF v(1) k(1)] k(1) assms(2,3) by (auto simp: filter_empty_conv)
qed

text \<open>When a probe both recovers a monitor and finds a certificate about to expire, the warning is written and the next one put
  off for a day, but it is the recovery that is returned, so no TLS mail is sent.\<close>

lemma tls_warning_is_not_mailed:
  assumes "prb_ok r" "tls_warn_due (mon_last_tls_warn m) (prb_tls_days r) now" "mon_state m \<noteq> Up"
    "probe_effect eid wid m r now = (m', evs, ret)"
  shows "map uev_to evs = [Up, Degraded] \<and> mon_last_tls_warn m' = Some now \<and> map_option mail_kind ret = Some UpMail"
  using assms unfolding probe_effect_def probe_state_def probe_tls_def probe_seen_def
  by (auto simp: uptime_event_def mail_kind_def Let_def)

text \<open>A ping monitor that the worker skips stays due: fifty of them take the whole batch of every sweep.\<close>

lemma skipped_ping_stays_due:
  "get_monitor s mid = Some m \<Longrightarrow> mon_check m = PingCheck \<Longrightarrow> mon_enabled m \<Longrightarrow>
   check_one L C N False mail eid wid mid now s = (IcmpOff, s)"
  by (simp add: check_one_def)

text \<open>The record type of a DNS monitor has no effect, except that AAAA asks for IPv6: a monitor of MX or TXT records compares the
  addresses of the name.\<close>

lemma dns_record_type_is_ignored:
  "upper r \<noteq> ''AAAA'' \<Longrightarrow> probe_dns L N target (Some r) expected = probe_dns L N target (Some ''A'') expected"
proof -
  assume r: "upper r \<noteq> ''AAAA''"
  have "upper ''A'' \<noteq> ''AAAA''" by code_simp
  with r show ?thesis by (cases r) (simp_all add: probe_dns_def)
qed

text \<open>The dollar of the host pattern lets a line feed through.\<close>

lemma line_feed_in_host: "normalize_tcp_target no_lib up_on_cfg (''a'' @ [CHR 0x0A] @ '':80'') = Inr (''a'' @ [CHR 0x0A] @ '':80'')"
  by code_simp

end
