(* ===== verification/Scans.thy ===== *)
theory Scans
  imports Orgs Json "HOL-Library.List_Lexorder" "HOL-Library.Char_ord"
begin

text \<open>
  Scan jobs and their findings: starting a scan, the reads (\<open>services/scanner.py\<close>, \<open>api/scan_routes.py\<close>), the comparison with
  the previous scan of the same target (\<open>services/baseline_diff.py\<close>) and the sweep that fails stuck jobs and refunds their
  credits (\<open>workers/tasks/maintenance.py\<close>). Sending a task to Celery is a parameter; so is the text of a list or an object.
  A CVSS score is only compared, so it is an integer here.
\<close>

subsection \<open>Rows\<close>

datatype job_status = JPending | JRunning | JCompleted | JFailed

record scan_job =
  job_id :: uuid
  job_type :: string
  job_target :: string
  job_status :: job_status
  job_progress :: int
  job_summary :: "json_dict option"
  job_task :: "string option"
  job_user :: uuid
  job_org :: "uuid option"
  job_cost :: int
  job_started_at :: "datetime option"
  job_completed_at :: "datetime option"
  job_created_at :: datetime

record finding =
  fnd_id :: uuid
  fnd_job :: uuid
  fnd_severity :: string
  fnd_category :: "string option"
  fnd_title :: string
  fnd_description :: "string option"
  fnd_cve :: "string option"
  fnd_cvss :: "int option"
  fnd_remediation :: "string option"
  fnd_impact :: "string option"
  fnd_attacker_benefit :: "string option"
  fnd_raw :: "json_dict option"
  fnd_found_at :: datetime

record credit_log =
  crl_user :: uuid
  crl_amount :: int
  crl_kind :: string
  crl_description :: string
  crl_reference :: "uuid option"
  crl_created_at :: datetime

record scan_schedule =
  sch_id :: uuid
  sch_user :: uuid
  sch_org :: "uuid option"
  sch_asset :: "uuid option"
  sch_name :: "string option"
  sch_type :: string
  sch_target :: string
  sch_cadence :: string
  sch_timezone :: string
  sch_next_run :: datetime
  sch_last_run :: "datetime option"
  sch_last_job :: "uuid option"
  sch_enabled :: bool
  sch_notify :: "string option"
  sch_last_error :: "string option"
  sch_created_at :: datetime
  sch_updated_at :: datetime

record scan_db =
  sc_core :: db
  jobs :: "scan_job list"
  findings :: "finding list"
  credit_logs :: "credit_log list"
  schedules :: "scan_schedule list"

interpretation job_tbl: row_store jobs jobs_update job_id
  by unfold_locales simp

interpretation schedule_tbl: row_store schedules schedules_update sch_id
  by unfold_locales simp

definition job_ok :: "scan_job \<Rightarrow> bool" where
  "job_ok j \<longleftrightarrow> job_type j \<in> {''ip'', ''domain'', ''apk'', ''ipa''}"

definition insert_job :: "scan_job \<Rightarrow> scan_db \<Rightarrow> scan_db result" where
  "insert_job j s = (if job_ok j \<and> job_id j \<notin> job_id ` set (jobs s) then Inr (s\<lparr>jobs := jobs s @ [j]\<rparr>) else Inl IntegrityError)"

definition save_job :: "scan_job \<Rightarrow> scan_db \<Rightarrow> scan_db" where
  "save_job j s = s\<lparr>jobs := row_upd job_id (job_id j) (\<lambda>_. j) (jobs s)\<rparr>"

abbreviation get_job_row :: "scan_db \<Rightarrow> uuid \<Rightarrow> scan_job option" where
  "get_job_row s k \<equiv> row_get job_id k (jobs s)"

subsection \<open>Starting a scan\<close>

text \<open>A task for a queue: its name and arguments. Sending answers with the id of the task, or raises.\<close>

record scan_task =
  tsk_name :: string
  tsk_args :: "string list"
  tsk_queue :: string

definition or_text :: "string option \<Rightarrow> string \<Rightarrow> string" where   \<comment> \<open>\<open>x or text\<close>\<close>
  "or_text v d = (case v of None \<Rightarrow> d | Some [] \<Rightarrow> d | Some s \<Rightarrow> s)"

definition scan_task_for ::
    "string \<Rightarrow> string \<Rightarrow> string \<Rightarrow> string option \<Rightarrow> string option \<Rightarrow> string option \<Rightarrow> scan_task result" where
  "scan_task_for jid scan_type target ports platform file_path =
     (if scan_type = ''ip'' then Inr \<lparr>tsk_name = ''ip_scan.run'', tsk_args = [jid, target, or_text ports ''1-1000''], tsk_queue = ''ip_scan''\<rparr>
      else if scan_type = ''domain'' then Inr \<lparr>tsk_name = ''domain_scan.run'', tsk_args = [jid, target], tsk_queue = ''domain_scan''\<rparr>
      else if scan_type \<in> {''apk'', ''ipa''} then Inr \<lparr>tsk_name = ''mobile_scan.run'',
        tsk_args = [jid, or_text file_path target, or_text platform ''unknown''], tsk_queue = ''mobile_scan''\<rparr>
      else Inl (ValueError (''Unknown scan type: '' @ scan_type)))"

definition new_job :: "uuid \<Rightarrow> uuid \<Rightarrow> string \<Rightarrow> string \<Rightarrow> uuid option \<Rightarrow> datetime \<Rightarrow> scan_job" where
  "new_job jid uid scan_type target oid now = \<lparr>job_id = jid, job_type = scan_type, job_target = target, job_status = JPending,
     job_progress = 0, job_summary = None, job_task = None, job_user = uid, job_org = oid, job_cost = 0,
     job_started_at = None, job_completed_at = None, job_created_at = now\<rparr>"

definition org_write_check :: "db \<Rightarrow> uuid option \<Rightarrow> uuid \<Rightarrow> unit result" where
  "org_write_check d oid uid = (case oid of None \<Rightarrow> Inr ()
     | Some o' \<Rightarrow>
       ebind (get_or (HTTPError 404 ''Organization not found'') (get_membership d o' uid)) (\<lambda>m.
       raise_if (\<not> role_at_least (Some (mem_role m)) Member) (HTTPError 403 ''Insufficient organization role'')))"

text \<open>A refused dispatch commits the job before it raises, so the database stands next to the result. \<open>str_of\<close> is the text
  of an id; \<open>send\<close> answers \<open>None\<close> for a \<open>CeleryError\<close>.\<close>

definition start_scan ::
    "(uuid \<Rightarrow> string) \<Rightarrow> (scan_task \<Rightarrow> string option) \<Rightarrow> uuid \<Rightarrow> user \<Rightarrow> string \<Rightarrow> string \<Rightarrow> string option \<Rightarrow> string option
      \<Rightarrow> string option \<Rightarrow> uuid option \<Rightarrow> datetime \<Rightarrow> scan_db \<Rightarrow> scan_job result \<times> scan_db" where
  "start_scan str_of send jid u scan_type target ports platform file_path oid now s =
     (case ebind (org_write_check (sc_core s) oid (user_id u)) (\<lambda>_.
        let j = new_job jid (user_id u) scan_type target oid now in
        ebind (insert_job j s) (\<lambda>s1.
        ebind (scan_task_for (str_of jid) scan_type target ports platform file_path) (\<lambda>task.
        Inr (j, s1, task)))) of
      Inl e \<Rightarrow> (Inl e, s)
    | Inr (j, s1, task) \<Rightarrow>
      (case send task of
        None \<Rightarrow> (Inl (HTTPError 500 ''Failed to dispatch scan task''), s1)
      | Some tid \<Rightarrow> (Inr (j\<lparr>job_task := Some tid\<rparr>), save_job (j\<lparr>job_task := Some tid\<rparr>) s1)))"

subsection \<open>Reads\<close>

definition can_access_job :: "db \<Rightarrow> scan_job \<Rightarrow> uuid \<Rightarrow> bool" where
  "can_access_job d j uid \<longleftrightarrow> job_user j = uid \<or> (case job_org j of None \<Rightarrow> False
     | Some o' \<Rightarrow> (case get_membership d o' uid of None \<Rightarrow> False | Some m \<Rightarrow> role_at_least (Some (mem_role m)) Viewer))"

definition without_raw :: "finding \<Rightarrow> finding" where "without_raw f = f\<lparr>fnd_raw := None\<rparr>"

definition get_job :: "scan_db \<Rightarrow> uuid \<Rightarrow> uuid \<Rightarrow> bool \<Rightarrow> (scan_job \<times> finding list) option" where
  "get_job s jid uid include_raw = (case get_job_row s jid of None \<Rightarrow> None | Some j \<Rightarrow>
     if \<not> can_access_job (sc_core s) j uid then None
     else Some (j, if include_raw then filter (\<lambda>f. fnd_job f = jid) (findings s) else []))"

definition job_for :: "scan_db \<Rightarrow> uuid \<Rightarrow> uuid \<Rightarrow> scan_job result" where
  "job_for s jid uid = (case get_job_row s jid of
     None \<Rightarrow> Inl (HTTPError 404 ''Scan job not found'')
   | Some j \<Rightarrow> if can_access_job (sc_core s) j uid then Inr j else Inl (HTTPError 404 ''Scan job not found''))"

definition ilike_column :: "string \<Rightarrow> string option \<Rightarrow> bool" where
  "ilike_column pat v = (case v of None \<Rightarrow> False | Some t \<Rightarrow> ilike pat t)"

definition finding_matches :: "string \<Rightarrow> finding \<Rightarrow> bool" where
  "finding_matches term f = (let pat = CHR ''%'' # term @ ''%'' in
     ilike pat (fnd_title f) \<or> ilike_column pat (fnd_description f) \<or> ilike_column pat (fnd_category f) \<or> ilike_column pat (fnd_cve f))"

definition FINDING_SEVERITIES :: "string list" where
  "FINDING_SEVERITIES = [''critical'', ''high'', ''medium'', ''low'', ''info'']"

definition severity_order :: "string \<Rightarrow> int" where   \<comment> \<open>\<open>SEVERITY_RANK\<close> of the service\<close>
  "severity_order v = (if v = ''critical'' then 0 else if v = ''high'' then 1 else if v = ''medium'' then 2
     else if v = ''low'' then 3 else if v = ''info'' then 4 else 99)"

text \<open>\<open>ORDER BY primary, id DESC\<close>: a stable sort by the primary key of the rows sorted by id.\<close>

definition by_key :: "bool \<Rightarrow> ('a \<Rightarrow> 'k::linorder) \<Rightarrow> 'a list \<Rightarrow> 'a list" where
  "by_key desc f xs = (if desc then rev (sort_key f (rev xs)) else sort_key f xs)"

text \<open>Nulls of the CVSS score stand at the low end in both directions.\<close>

definition cvss_key :: "finding \<Rightarrow> nat \<times> int" where
  "cvss_key f = (case fnd_cvss f of None \<Rightarrow> (0, 0) | Some v \<Rightarrow> (1, v))"

definition cvss_sorted :: "bool \<Rightarrow> finding list \<Rightarrow> finding list" where
  "cvss_sorted desc xs = (let none = filter (\<lambda>f. fnd_cvss f = None) xs; some = filter (\<lambda>f. fnd_cvss f \<noteq> None) xs;
     sorted_some = by_key desc (\<lambda>f. the (fnd_cvss f)) some in if desc then sorted_some @ none else none @ sorted_some)"

definition sorted_findings :: "string \<Rightarrow> bool \<Rightarrow> finding list \<Rightarrow> finding list" where
  "sorted_findings field desc xs = (let ys = by_key True fnd_id xs in
     if field = ''severity'' then by_key desc (severity_order \<circ> fnd_severity) ys
     else if field = ''title'' then by_key desc fnd_title ys
     else if field = ''category'' then by_key desc (\<lambda>f. str_or_empty (fnd_category f)) ys
     else cvss_sorted desc ys)"

text \<open>A page of rows, with the total and the number of pages. PostgreSQL refuses a negative offset or limit.\<close>

definition sql_page :: "int \<Rightarrow> int \<Rightarrow> 'a list \<Rightarrow> 'a list result" where
  "sql_page page limit xs = (if limit < 0 \<or> (page - 1) * limit < 0 then Inl OperationalError
     else Inr (take (nat limit) (drop (nat ((page - 1) * limit)) xs)))"

definition page_count :: "nat \<Rightarrow> int \<Rightarrow> int result" where   \<comment> \<open>\<open>math.ceil(total / limit) if total > 0 else 0\<close>\<close>
  "page_count n limit = (if n = 0 then Inr 0 else if limit = 0 then Inl (PyError ''ZeroDivisionError'')
     else Inr (- ((- int n) div limit)))"

definition get_findings ::
    "scan_db \<Rightarrow> uuid \<Rightarrow> uuid \<Rightarrow> int \<Rightarrow> int \<Rightarrow> string option \<Rightarrow> string option \<Rightarrow> string option \<Rightarrow> string
      \<Rightarrow> (finding list \<times> nat \<times> int \<times> nat) result" where
  "get_findings s jid uid page limit severity q sort_by sort_dir =
     ebind (job_for s jid uid) (\<lambda>j.
     let own = filter (\<lambda>f. fnd_job f = jid) (findings s); sev = str_or_empty severity; term = strip (str_or_empty q);
         direction = lower sort_dir; field = strip (str_or_empty sort_by) in
     ebind (raise_if (sev \<noteq> [] \<and> sev \<notin> set FINDING_SEVERITIES) (HTTPError 400 ''Invalid severity'')) (\<lambda>_.
     let hits = filter (\<lambda>f. (sev = [] \<or> fnd_severity f = sev) \<and> (term = [] \<or> finding_matches term f)) own in
     ebind (raise_if (direction \<notin> {''asc'', ''desc''}) (HTTPError 400 ''Invalid sort_dir'')) (\<lambda>_.
     ebind (raise_if (field \<noteq> [] \<and> field \<notin> {''severity'', ''title'', ''category'', ''cvss_score''}) (HTTPError 400 ''Invalid sort_by'')) (\<lambda>_.
     let rows = (if field = [] then by_key True fnd_found_at (by_key True fnd_id hits)
           else sorted_findings field (direction = ''desc'') hits) in
     ebind (sql_page page limit rows) (\<lambda>items.
     ebind (page_count (length hits) limit) (\<lambda>pages.
     Inr (map without_raw items, length hits, pages, count_where (\<lambda>f. str_or_empty (fnd_remediation f) \<noteq> []) own)))))))"

definition get_finding :: "scan_db \<Rightarrow> uuid \<Rightarrow> uuid \<Rightarrow> uuid \<Rightarrow> finding result" where
  "get_finding s jid fid uid =
     ebind (job_for s jid uid) (\<lambda>j.
     get_or (HTTPError 404 ''Finding not found'') (find (\<lambda>f. fnd_id f = fid \<and> fnd_job f = job_id j) (findings s)))"

definition get_history ::
    "scan_db \<Rightarrow> int \<Rightarrow> int \<Rightarrow> string option \<Rightarrow> uuid option \<Rightarrow> uuid option \<Rightarrow> (scan_job list \<times> nat \<times> int) result" where
  "get_history s page limit scan_type uid oid =
     (let ty = str_or_empty scan_type in
     ebind (raise_if (ty \<noteq> [] \<and> ty \<notin> {''ip'', ''domain'', ''apk'', ''ipa''}) (HTTPError 400 ''Invalid scan type'')) (\<lambda>_.
     ebind (case oid of None \<Rightarrow> Inr ()
       | Some o' \<Rightarrow> (case uid of None \<Rightarrow> Inl (HTTPError 401 ''Authentication required'')
          | Some v \<Rightarrow> (case get_membership (sc_core s) o' v of None \<Rightarrow> Inl (HTTPError 404 ''Organization not found'')
             | Some m \<Rightarrow> raise_if (\<not> role_at_least (Some (mem_role m)) Viewer) (HTTPError 404 ''Organization not found'')))) (\<lambda>_.
     let hits = filter (\<lambda>j. (ty = [] \<or> job_type j = ty) \<and> (case oid of Some o' \<Rightarrow> job_org j = Some o'
            | None \<Rightarrow> (case uid of Some v \<Rightarrow> job_user j = v | None \<Rightarrow> True))) (jobs s) in
     ebind (sql_page page limit (desc_by job_created_at hits)) (\<lambda>items.
     ebind (page_count (length hits) limit) (\<lambda>pages. Inr (items, length hits, pages))))))"

subsection \<open>Comparison with the previous scan\<close>

definition severity_rank :: "string option \<Rightarrow> nat" where
  "severity_rank sev = (let v = strip (lower (str_or_empty sev)) in
     if v = ''low'' then 1 else if v = ''medium'' then 2 else if v = ''high'' then 3 else if v = ''critical'' then 4 else 0)"

text \<open>\<open>str(value)\<close> of a decoded value; \<open>repr\<close> is the text of a list or an object.\<close>

fun py_str :: "(json \<Rightarrow> string) \<Rightarrow> json \<Rightarrow> string" where
  "py_str repr JsonNull = ''None''"
| "py_str repr (JsonBool b) = (if b then ''True'' else ''False'')"
| "py_str repr (JsonInt n) = show_int n"
| "py_str repr (JsonFloat t) = t"
| "py_str repr (JsonStr t) = t"
| "py_str repr v = repr v"

fun raw_field :: "(json \<Rightarrow> string) \<Rightarrow> json_dict option \<Rightarrow> string list \<Rightarrow> string" where
  "raw_field repr None keys = []"
| "raw_field repr (Some raw) [] = []"
| "raw_field repr (Some raw) (k # ks) = (if jget k raw \<noteq> JsonNull then py_str repr (jget k raw) else raw_field repr (Some raw) ks)"

text \<open>\<open>re.sub(r"\s+", " ", s)\<close>\<close>

function collapse_spaces :: "string \<Rightarrow> string" where
  "collapse_spaces [] = []"
| "collapse_spaces (c # s) = (if is_space c then CHR '' '' # collapse_spaces (dropWhile is_space s) else c # collapse_spaces s)"
  by pat_completeness auto

termination
  by (relation "measure length") (auto simp: le_imp_less_Suc length_dropWhile_le)

definition finding_fingerprint :: "(json \<Rightarrow> string) \<Rightarrow> finding \<Rightarrow> string" where
  "finding_fingerprint repr f =
     (let title_norm = strip (collapse_spaces (lower (fnd_title f)));
          cve = strip (upper (str_or_empty (fnd_cve f)));
          category = strip (lower (str_or_empty (fnd_category f)));
          port = raw_field repr (fnd_raw f) [''port'', ''Port'', ''portid''];
          path = raw_field repr (fnd_raw f) [''path'', ''url'', ''endpoint''] in
      category @ ''|'' @ cve @ ''|'' @ port @ ''|'' @ path @ ''|'' @ title_norm)"

text \<open>The first finding of each fingerprint, in the order met.\<close>

definition index_by_fingerprint :: "(json \<Rightarrow> string) \<Rightarrow> finding list \<Rightarrow> (string \<times> finding) list" where
  "index_by_fingerprint repr fs = fold (\<lambda>f acc. let fp = finding_fingerprint repr f in
     if fp \<in> fst ` set acc then acc else acc @ [(fp, f)]) fs []"

record diff_result =
  dif_new_critical :: nat
  dif_new_high :: nat
  dif_resolved :: nat
  dif_worsened :: nat
  dif_unchanged :: nat
  dif_new_ids :: "uuid list"
  dif_resolved_ids :: "uuid list"

definition diff_findings :: "(json \<Rightarrow> string) \<Rightarrow> finding list \<Rightarrow> finding list \<Rightarrow> diff_result" where
  "diff_findings repr baseline current =
     (let base_map = index_by_fingerprint repr baseline; curr_map = index_by_fingerprint repr current;
          base_of = (\<lambda>fp. the (map_of base_map fp)); curr_of = (\<lambda>fp. the (map_of curr_map fp));
          new_fps = filter (\<lambda>fp. fp \<notin> fst ` set base_map) (map fst curr_map);
          resolved_fps = filter (\<lambda>fp. fp \<notin> fst ` set curr_map) (map fst base_map);
          shared_fps = filter (\<lambda>fp. fp \<in> fst ` set base_map) (map fst curr_map);
          sev = (\<lambda>fp. strip (lower (fnd_severity (curr_of fp))));
          worse = (\<lambda>fp. severity_rank (Some (fnd_severity (base_of fp))) < severity_rank (Some (fnd_severity (curr_of fp)))) in
      \<lparr>dif_new_critical = count_where (\<lambda>fp. sev fp = ''critical'') new_fps,
        dif_new_high = count_where (\<lambda>fp. sev fp = ''high'') new_fps,
        dif_resolved = length resolved_fps, dif_worsened = count_where worse shared_fps,
        dif_unchanged = count_where (\<lambda>fp. \<not> worse fp) shared_fps,
        dif_new_ids = map (\<lambda>fp. fnd_id (curr_of fp)) (sort new_fps),
        dif_resolved_ids = map (\<lambda>fp. fnd_id (base_of fp)) (sort resolved_fps)\<rparr>)"

definition empty_diff :: diff_result where
  "empty_diff = \<lparr>dif_new_critical = 0, dif_new_high = 0, dif_resolved = 0, dif_worsened = 0, dif_unchanged = 0,
     dif_new_ids = [], dif_resolved_ids = []\<rparr>"

definition job_anchor :: "scan_job \<Rightarrow> datetime" where
  "job_anchor j = (case job_completed_at j of Some t \<Rightarrow> t | None \<Rightarrow> job_created_at j)"

text \<open>The candidates in the order of the sort key: with a completion time first, latest first. Python sorts by the tuple;
  here by its last component first, then stably by the others.\<close>

definition prior_candidates :: "scan_job \<Rightarrow> uuid \<Rightarrow> scan_job list \<Rightarrow> scan_job list" where
  "prior_candidates j uid js =
     (let cs = filter (\<lambda>c. job_type c = job_type j \<and> job_target c = job_target j \<and> job_status c = JCompleted \<and> job_id c \<noteq> job_id j
            \<and> (case job_org j of Some o' \<Rightarrow> job_org c = Some o' | None \<Rightarrow> job_user c = uid)) js in
      sort_key (\<lambda>c. if job_completed_at c = None then 1 else 0 :: nat)
        (sort_key (\<lambda>c. case job_completed_at c of Some t \<Rightarrow> - t | None \<Rightarrow> 0) (sort_key (\<lambda>c. - job_created_at c) cs)))"

definition prior_job :: "scan_job \<Rightarrow> uuid \<Rightarrow> scan_job list \<Rightarrow> scan_job option" where
  "prior_job j uid js = find (\<lambda>c. job_anchor c < job_anchor j) (prior_candidates j uid js)"

text \<open>\<open>parse\<close> is \<open>uuid.UUID\<close> on the text of the path.\<close>

definition get_scan_diff ::
    "(json \<Rightarrow> string) \<Rightarrow> (string \<Rightarrow> uuid option) \<Rightarrow> scan_db \<Rightarrow> string \<Rightarrow> uuid \<Rightarrow> (uuid option \<times> diff_result) result" where
  "get_scan_diff repr parse s jid uid =
     ebind (get_or (HTTPError 404 ''Scan job not found'') (parse jid)) (\<lambda>k.
     ebind (job_for s k uid) (\<lambda>j.
     ebind (raise_if (job_status j \<noteq> JCompleted) (HTTPError 400 ''Scan job must be completed to compute diff'')) (\<lambda>_.
     case prior_job j uid (jobs s) of
       None \<Rightarrow> Inr (None, empty_diff)
     | Some p \<Rightarrow> Inr (Some (job_id p), diff_findings repr (filter (\<lambda>f. fnd_job f = job_id p) (findings s))
         (filter (\<lambda>f. fnd_job f = job_id j) (findings s))))))"

subsection \<open>Stuck jobs\<close>

definition STALE_PENDING_MINUTES :: int where "STALE_PENDING_MINUTES = 30"
definition STALE_RUNNING_MINUTES :: int where "STALE_RUNNING_MINUTES = 45"
definition minute_us :: int where "minute_us = 60000000"

definition stale_age :: "job_status \<Rightarrow> scan_job \<Rightarrow> datetime" where
  "stale_age st j = (if st = JPending then job_created_at j
     else (case job_started_at j of Some t \<Rightarrow> t | None \<Rightarrow> job_created_at j))"

definition stale_jobs :: "job_status \<Rightarrow> datetime \<Rightarrow> scan_db \<Rightarrow> scan_job list" where
  "stale_jobs st cutoff s = filter (\<lambda>j. job_status j = st \<and> stale_age st j < cutoff) (jobs s)"

definition refund_of :: "scan_job list \<Rightarrow> uuid \<Rightarrow> int" where
  "refund_of js uid = sum_list (map job_cost (filter (\<lambda>j. job_user j = uid \<and> 0 < job_cost j) js))"

text \<open>One statement: the jobs it fails, the users it pays back, the log rows, and its two counts.\<close>

definition fail_stale_and_refund ::
    "job_status \<Rightarrow> datetime \<Rightarrow> string \<Rightarrow> string \<Rightarrow> datetime \<Rightarrow> scan_db \<Rightarrow> (nat \<times> nat) \<times> scan_db" where
  "fail_stale_and_refund st cutoff summary reason now s =
     (let stale = stale_jobs st cutoff s; refundable = filter (\<lambda>j. 0 < job_cost j) stale;
          failed = (\<lambda>j. if job_status j = st \<and> stale_age st j < cutoff
            then j\<lparr>job_status := JFailed, job_summary := Some [(''error'', JsonStr summary)], job_completed_at := Some now\<rparr> else j);
          log = (\<lambda>j. \<lparr>crl_user = job_user j, crl_amount = job_cost j, crl_kind = ''refund'',
            crl_description = ''Refund: '' @ job_type j @ '' scan auto-failed ('' @ reason @ '')'',
            crl_reference = Some (job_id j), crl_created_at = now\<rparr>) in
      ((length stale, length refundable),
       s\<lparr>jobs := map failed (jobs s), credit_logs := credit_logs s @ map log refundable,
         sc_core := (sc_core s)\<lparr>users := map (\<lambda>u. u\<lparr>user_credits := user_credits u + refund_of stale (user_id u)\<rparr>) (users (sc_core s))\<rparr>\<rparr>))"

definition fail_stale_pending :: "datetime \<Rightarrow> scan_db \<Rightarrow> (nat \<times> nat) \<times> scan_db" where
  "fail_stale_pending now s = fail_stale_and_refund JPending (now - STALE_PENDING_MINUTES * minute_us)
     ''auto-failed: stuck pending > 30 minutes'' ''stuck pending'' now s"

definition fail_stale_running :: "datetime \<Rightarrow> scan_db \<Rightarrow> (nat \<times> nat) \<times> scan_db" where
  "fail_stale_running now s = fail_stale_and_refund JRunning (now - STALE_RUNNING_MINUTES * minute_us)
     ''auto-failed: stuck running > 45 minutes'' ''stuck running'' now s"

subsection \<open>The comparison\<close>

lemma index_fold:
  "distinct (map fst acc) \<Longrightarrow>
   distinct (map fst (fold (\<lambda>f acc. let fp = finding_fingerprint repr f in
     if fp \<in> fst ` set acc then acc else acc @ [(fp, f)]) fs acc))
   \<and> fst ` set (fold (\<lambda>f acc. let fp = finding_fingerprint repr f in
     if fp \<in> fst ` set acc then acc else acc @ [(fp, f)]) fs acc) = fst ` set acc \<union> finding_fingerprint repr ` set fs"
proof (induction fs arbitrary: acc)
  case (Cons f fs)
  let ?fp = "finding_fingerprint repr f"
  show ?case
  proof (cases "?fp \<in> fst ` set acc")
    case True
    with Cons.IH [OF Cons.prems] show ?thesis by (auto simp: Let_def)
  next
    case False
    with Cons.prems have "distinct (map fst (acc @ [(?fp, f)]))" by auto
    from Cons.IH [OF this] False show ?thesis by (auto simp: Let_def)
  qed
qed simp

lemma index_keys:
  "distinct (map fst (index_by_fingerprint repr fs))" "fst ` set (index_by_fingerprint repr fs) = finding_fingerprint repr ` set fs"
  using index_fold [of "[]" repr fs] by (simp_all add: index_by_fingerprint_def)

lemma length_filter_card: "distinct xs \<Longrightarrow> length (filter P xs) = card {x \<in> set xs. P x}"
  by (metis distinct_card distinct_filter set_filter)

lemma count_split: "count_where P xs + count_where (\<lambda>x. \<not> P x) xs = length xs"
  by (induction xs) auto

lemma count_disjoint: "(\<And>x. \<not> (P x \<and> Q x)) \<Longrightarrow> count_where P xs + count_where Q xs \<le> length xs"
  by (induction xs) auto

definition prints :: "(json \<Rightarrow> string) \<Rightarrow> finding list \<Rightarrow> string set" where
  "prints repr fs = finding_fingerprint repr ` set fs"


subsection \<open>The previous scan\<close>

lemma find_first: "find P xs = Some x \<Longrightarrow> \<exists>ys zs. xs = ys @ x # zs \<and> P x \<and> (\<forall>y\<in>set ys. \<not> P y)"
proof (induction xs)
  case (Cons a xs)
  show ?case
  proof (cases "P a")
    case True
    with Cons.prems show ?thesis by (auto intro: exI [of _ "[]"])
  next
    case False
    with Cons obtain ys zs where "xs = ys @ x # zs" "P x" "\<forall>y\<in>set ys. \<not> P y" by auto
    with False show ?thesis by (intro exI [of _ "a # ys"] exI [of _ zs]) simp
  qed
qed simp

text \<open>The baseline of a scan is the right one: a completed job of the same kind and target, in the same organization or of
  the same user, that ended before it, and no other such job ended later and still before it.\<close>

theorem baseline_is_latest:
  assumes "prior_job j uid js = Some p" "\<forall>c\<in>set js. job_status c = JCompleted \<longrightarrow> job_completed_at c \<noteq> None"
  shows "p \<in> set js \<and> job_status p = JCompleted \<and> job_type p = job_type j \<and> job_target p = job_target j \<and> job_anchor p < job_anchor j
    \<and> (\<forall>c\<in>set js. c \<in> set (prior_candidates j uid js) \<and> job_anchor c < job_anchor j \<longrightarrow> job_anchor c \<le> job_anchor p)"
proof -
  let ?k = "\<lambda>c. case job_completed_at c of Some t \<Rightarrow> - t | None \<Rightarrow> 0"
  let ?cs = "prior_candidates j uid js"
  have mem: "c \<in> set js \<and> job_status c = JCompleted \<and> job_type c = job_type j \<and> job_target c = job_target j \<and> job_completed_at c \<noteq> None"
    if "c \<in> set ?cs" for c using that assms(2) by (auto simp: prior_candidates_def Let_def)
  define xs where "xs = sort_key ?k (sort_key (\<lambda>c. - job_created_at c) (filter (\<lambda>c. job_type c = job_type j
      \<and> job_target c = job_target j \<and> job_status c = JCompleted \<and> job_id c \<noteq> job_id j
      \<and> (case job_org j of Some o' \<Rightarrow> job_org c = Some o' | None \<Rightarrow> job_user c = uid)) js))"
  have same: "set ?cs = set xs" by (auto simp: prior_candidates_def xs_def Let_def)
  have "sort_key (\<lambda>c. if job_completed_at c = None then 1 else 0 :: nat) xs = xs"
  proof (rule sort_key_id_if_sorted)
    have "map (\<lambda>c. if job_completed_at c = None then 1 else 0 :: nat) xs = map (\<lambda>_. 0) xs"
      using mem same by (intro map_cong) auto
    then show "sorted (map (\<lambda>c. if job_completed_at c = None then 1 else 0 :: nat) xs)" by (simp add: map_replicate_const)
  qed
  then have cs: "?cs = xs" by (simp add: prior_candidates_def xs_def Let_def)
  have sorted: "sorted (map ?k xs)" by (simp add: xs_def)
  obtain ys zs where s: "xs = ys @ p # zs" "job_anchor p < job_anchor j" "\<forall>y\<in>set ys. \<not> job_anchor y < job_anchor j"
    using find_first [OF assms(1) [unfolded prior_job_def cs]] by blast
  have "job_anchor c \<le> job_anchor p" if "c \<in> set xs" "job_anchor c < job_anchor j" for c
  proof -
    have "c = p \<or> c \<in> set zs" using that s by auto
    then have "?k p \<le> ?k c" using sorted by (auto simp: s(1) sorted_append)
    then show ?thesis using mem [of c] mem [of p] that(1) s(1) by (auto simp: cs job_anchor_def)
  qed
  then show ?thesis using mem [of p] s by (auto simp: cs)
qed

definition sample_job :: "uuid \<Rightarrow> datetime \<Rightarrow> uuid option \<Rightarrow> scan_job" where
  "sample_job k t oid = (new_job k 5 ''ip'' ''10.0.0.1'' oid t)\<lparr>job_status := JCompleted, job_completed_at := Some (t + 10)\<rparr>"

subsection \<open>Refunds\<close>

lemma logged_refund:
  "sum_list (map crl_amount (filter (\<lambda>l. crl_user l = u) (map (\<lambda>j. \<lparr>crl_user = job_user j, crl_amount = job_cost j,
     crl_kind = k, crl_description = d j, crl_reference = Some (job_id j), crl_created_at = now\<rparr>) (filter (\<lambda>j. 0 < job_cost j) js)))) = refund_of js u"
  by (induction js) (auto simp: refund_of_def)


definition stuck_db :: scan_db where
  "stuck_db = \<lparr>sc_core = team_db, jobs = [(new_job 1 1 ''ip'' ''10.0.0.1'' None 0)\<lparr>job_cost := 3\<rparr>], findings = [], credit_logs = [], schedules = []\<rparr>"


subsection \<open>Where the code does not do what it means to\<close>

text \<open>The search term is put into the pattern as it is: a percent sign finds everything.\<close>

lemma percent_finds_everything: "finding_matches ''%'' f"
proof -
  have "ilike ''%'' t" for t by (induction t) simp_all
  then have "ilike ''%%'' t" for t by (cases t) simp_all
  then have "ilike ''%%%'' t" for t by (cases t) simp_all
  then show ?thesis by (simp add: finding_matches_def)
qed

text \<open>The history route does not bound its page: a limit of zero divides by it, page zero gives a negative offset.\<close>

lemma history_limit_zero_crashes:
  assumes "j \<in> set (jobs s)" "job_user j = uid"
  shows "get_history s 1 0 None (Some uid) None = Inl (PyError ''ZeroDivisionError'')"
    and "0 < limit \<Longrightarrow> get_history s 0 limit None (Some uid) None = Inl OperationalError"
proof -
  have "filter (\<lambda>j. job_user j = uid) (jobs s) \<noteq> []" using assms by (auto simp: filter_empty_conv)
  then show "get_history s 1 0 None (Some uid) None = Inl (PyError ''ZeroDivisionError'')"
    by (simp add: get_history_def str_or_empty_def sql_page_def page_count_def Let_def)
  show "0 < limit \<Longrightarrow> get_history s 0 limit None (Some uid) None = Inl OperationalError"
    by (simp add: get_history_def str_or_empty_def sql_page_def Let_def)
qed

text \<open>A personal scan is compared with any scan of its user, also one in an organization.\<close>

lemma personal_baseline_from_organization:
  "prior_job (sample_job 4 400 None) 5 [sample_job 1 100 (Some 9)] = Some (sample_job 1 100 (Some 9))"
  by (simp add: prior_job_def prior_candidates_def sample_job_def new_job_def job_anchor_def Let_def)

end
