(* ===== verification/ScanSchedules.thy ===== *)
theory ScanSchedules
  imports Scans InvoiceMath
begin

text \<open>
  Scan schedules: the request bodies (\<open>schemas/schedule.py\<close>), when a schedule runs next and the service
  (\<open>services/schedule.py\<close>), and the sweep that starts due scans (\<open>workers/tasks/schedules.py\<close>). Local wall clocks are
  instants without an offset; \<open>ZoneInfo\<close> is a parameter that answers, for a name, the two conversions of its zone.
\<close>

subsection \<open>Request bodies\<close>

definition is_alpha :: "char \<Rightarrow> bool" where
  "is_alpha c = (let n = of_char c :: nat in (97 \<le> n \<and> n \<le> 122) \<or> (65 \<le> n \<and> n \<le> 90))"

definition is_alnum :: "char \<Rightarrow> bool" where "is_alnum c \<longleftrightarrow> is_alpha c \<or> is_digit c"

text \<open>\<open>TARGET_PATTERN\<close> on a stripped text: four groups of one to three digits, or labels of at most 63 letters, digits and inner
  dashes before a last label of at least two letters.\<close>

definition ipv4_text :: "string \<Rightarrow> bool" where
  "ipv4_text s = (let ps = split_on (CHR ''.'') s in
     length ps = 4 \<and> list_all (\<lambda>p. 1 \<le> length p \<and> length p \<le> 3 \<and> list_all is_digit p) ps)"

definition label_ok :: "string \<Rightarrow> bool" where
  "label_ok p \<longleftrightarrow> p \<noteq> [] \<and> length p \<le> 63 \<and> is_alnum (hd p) \<and> is_alnum (last p) \<and> list_all (\<lambda>c. is_alnum c \<or> c = CHR ''-'') p"

definition domain_text :: "string \<Rightarrow> bool" where
  "domain_text s = (let ps = split_on (CHR ''.'') s in
     2 \<le> length ps \<and> list_all label_ok (butlast ps) \<and> 2 \<le> length (last ps) \<and> list_all is_alpha (last ps))"

definition target_pattern :: "string \<Rightarrow> bool" where
  "target_pattern s \<longleftrightarrow> ipv4_text s \<or> domain_text s"

definition host_text :: "string \<Rightarrow> bool" where   \<comment> \<open>\<open>^[a-zA-Z0-9._\-]+$\<close>\<close>
  "host_text s \<longleftrightarrow> s \<noteq> [] \<and> list_all (\<lambda>c. is_alnum c \<or> c \<in> set ''._-'') s"

record schedule_create_body =
  scb_name :: "string option"
  scb_type :: string
  scb_target :: string
  scb_cadence :: string
  scb_timezone :: string
  scb_notify :: "string option"
  scb_enabled :: bool

definition create_target :: "string \<Rightarrow> string \<Rightarrow> string result" where   \<comment> \<open>\<open>validate_target\<close>\<close>
  "create_target scan_type v = (let raw = strip v in
     if scan_type = ''domain'' then
       ebind (raise_if (253 < length raw \<or> CHR ''.'' \<notin> set raw) (PyError ''domain_invalid'')) (\<lambda>_.
       ebind (raise_if (\<not> host_text raw) (PyError ''domain_chars'')) (\<lambda>_.
       ebind (raise_if (list_ex (\<lambda>p. p = [] \<or> 63 < length p \<or> hd p = CHR ''-'' \<or> last p = CHR ''-'') (split_on (CHR ''.'') raw))
         (PyError ''domain_invalid'')) (\<lambda>_. Inr (lower raw))))
     else if target_pattern raw then Inr raw else Inl (PyError ''target_invalid''))"

definition validate_schedule_create :: "schedule_create_body \<Rightarrow> schedule_create_body result" where
  "validate_schedule_create b =
     ebind (raise_if (\<not> (opt_all (\<lambda>n. length n \<le> 255) (scb_name b) \<and> scb_type b \<in> {''ip'', ''domain''}
         \<and> 1 \<le> length (scb_target b) \<and> length (scb_target b) \<le> 512 \<and> scb_cadence b \<in> {''weekly'', ''monthly''}
         \<and> length (scb_timezone b) \<le> 64 \<and> opt_all (\<lambda>n. length n \<le> 255) (scb_notify b))) (PyError ''ValidationError'')) (\<lambda>_.
     ebind (create_target (scb_type b) (scb_target b)) (\<lambda>t. Inr (b\<lparr>scb_target := t\<rparr>)))"

text \<open>An update names some fields; a named field may be null.\<close>

record schedule_update_body =
  sub_name :: "string option option"
  sub_target :: "string option option"
  sub_cadence :: "string option option"
  sub_timezone :: "string option option"
  sub_notify :: "string option option"
  sub_enabled :: "bool option option"

definition named_all :: "('a \<Rightarrow> bool) \<Rightarrow> 'a option option \<Rightarrow> bool" where
  "named_all P v \<longleftrightarrow> (case v of Some (Some x) \<Rightarrow> P x | _ \<Rightarrow> True)"

definition validate_schedule_update :: "schedule_update_body \<Rightarrow> schedule_update_body result" where
  "validate_schedule_update b =
     ebind (raise_if (\<not> (named_all (\<lambda>n. length n \<le> 255) (sub_name b) \<and> named_all (\<lambda>t. 1 \<le> length t \<and> length t \<le> 512) (sub_target b)
         \<and> named_all (\<lambda>c. c \<in> {''weekly'', ''monthly''}) (sub_cadence b) \<and> named_all (\<lambda>z. length z \<le> 64) (sub_timezone b)
         \<and> named_all (\<lambda>n. length n \<le> 255) (sub_notify b))) (PyError ''ValidationError'')) (\<lambda>_.
     ebind (raise_if (\<not> named_all (\<lambda>t. target_pattern (strip t)) (sub_target b)) (PyError ''target_invalid'')) (\<lambda>_.
     Inr (b\<lparr>sub_target := map_option (map_option strip) (sub_target b)\<rparr>)))"

subsection \<open>The next run\<close>

record zone =
  zone_local :: "datetime \<Rightarrow> int"     \<comment> \<open>\<open>astimezone(tz)\<close>\<close>
  zone_utc :: "int \<Rightarrow> datetime"       \<comment> \<open>\<open>astimezone(UTC)\<close> of a wall clock\<close>

definition tz_of :: "(string \<Rightarrow> zone result) \<Rightarrow> string \<Rightarrow> zone result" where
  "tz_of zones tz_name = (case zones tz_name of
     Inl e \<Rightarrow> if e = PyError ''ZoneInfoNotFoundError'' then zones ''Asia/Jakarta'' else Inl e
   | Inr z \<Rightarrow> Inr z)"

definition run_hour_us :: int where "run_hour_us = 2 * 3600000000"

definition at_two :: "int \<Rightarrow> int" where   \<comment> \<open>\<open>replace(hour=2, minute=0, second=0, microsecond=0)\<close>\<close>
  "at_two w = date_of w * day_us + run_hour_us"

definition weekday :: "int \<Rightarrow> int" where "weekday w = (date_of w + 6) mod 7"   \<comment> \<open>Monday is 0\<close>

definition day_of :: "int \<Rightarrow> int" where "day_of w = date_of w - ymd2ord (year_of w) (month_of w) 1 + 1"

definition next_candidate :: "int \<Rightarrow> int" where
  "next_candidate now_local = (if at_two now_local \<le> now_local then at_two now_local + day_us else at_two now_local)"

definition first_of_next_month :: "int \<Rightarrow> int" where
  "first_of_next_month w = datetime_ymd (if month_of w = 12 then year_of w + 1 else year_of w)
     (if month_of w = 12 then 1 else month_of w + 1) 1 + run_hour_us"

definition next_run_local :: "string \<Rightarrow> int \<Rightarrow> int result" where
  "next_run_local cadence now_local = (let c = next_candidate now_local in
     if cadence = ''weekly'' then
       let days0 = (0 - weekday c) mod 7; days = (if days0 = 0 \<and> c \<le> now_local then 7 else days0) in
       Inr (if weekday c \<noteq> 0 then at_two (c + (if days \<noteq> 0 then days else 7) * day_us)
         else if c \<le> now_local then c + 7 * day_us else c)
     else if cadence = ''monthly'' then
       Inr (if day_of c \<noteq> 1 \<or> c \<le> now_local then first_of_next_month c else c)
     else Inl (ValueError (''Unknown cadence: '' @ cadence)))"

definition compute_next_run_at :: "(string \<Rightarrow> zone result) \<Rightarrow> string \<Rightarrow> string \<Rightarrow> datetime \<Rightarrow> datetime result" where
  "compute_next_run_at zones cadence tz_name now =
     ebind (tz_of zones tz_name) (\<lambda>tz.
     ebind (next_run_local cadence (zone_local tz now)) (\<lambda>w. Inr (zone_utc tz w)))"

definition advance_local :: "string \<Rightarrow> int \<Rightarrow> int" where
  "advance_local cadence w = (if cadence = ''weekly'' then w + 7 * day_us
     else datetime_ymd (if month_of w = 12 then year_of w + 1 else year_of w) (if month_of w = 12 then 1 else month_of w + 1)
        (min (day_of w) 28) + w mod day_us)"

definition advance_next_run :: "(string \<Rightarrow> zone result) \<Rightarrow> string \<Rightarrow> string \<Rightarrow> datetime \<Rightarrow> datetime result" where
  "advance_next_run zones cadence tz_name last_next =
     ebind (tz_of zones tz_name) (\<lambda>tz. Inr (zone_utc tz (advance_local cadence (zone_local tz last_next))))"

subsection \<open>The service\<close>

definition MAX_SCHEDULES_PER_ORG :: nat where "MAX_SCHEDULES_PER_ORG = 10"

definition in_scope :: "uuid option \<Rightarrow> uuid \<Rightarrow> scan_schedule \<Rightarrow> bool" where
  "in_scope oid uid r \<longleftrightarrow> (case oid of Some o' \<Rightarrow> sch_org r = Some o' | None \<Rightarrow> sch_user r = uid \<and> sch_org r = None)"

definition count_enabled_in_scope :: "scan_db \<Rightarrow> uuid option \<Rightarrow> uuid \<Rightarrow> uuid option \<Rightarrow> nat" where
  "count_enabled_in_scope s oid uid exclude =
     count_where (\<lambda>r. in_scope oid uid r \<and> sch_enabled r \<and> exclude \<noteq> Some (sch_id r)) (schedules s)"

definition schedule_readable :: "db \<Rightarrow> scan_schedule \<Rightarrow> uuid \<Rightarrow> bool" where   \<comment> \<open>\<open>_can_read\<close>\<close>
  "schedule_readable d r uid \<longleftrightarrow> sch_user r = uid \<or> (case sch_org r of None \<Rightarrow> False
     | Some o' \<Rightarrow> (case get_membership d o' uid of None \<Rightarrow> False | Some m \<Rightarrow> role_at_least (Some (mem_role m)) Viewer))"

definition schedule_mutable :: "db \<Rightarrow> scan_schedule \<Rightarrow> uuid \<Rightarrow> bool" where   \<comment> \<open>\<open>_can_mutate\<close>\<close>
  "schedule_mutable d r uid \<longleftrightarrow> (case sch_org r of None \<Rightarrow> sch_user r = uid
     | Some o' \<Rightarrow> (case get_membership d o' uid of None \<Rightarrow> False
        | Some m \<Rightarrow> role_at_least (Some (mem_role m)) Admin \<or> role_at_least (Some (mem_role m)) Member \<and> sch_user r = uid))"

definition list_schedules :: "scan_db \<Rightarrow> uuid \<Rightarrow> uuid option \<Rightarrow> scan_schedule list result" where
  "list_schedules s uid oid = (case oid of
     Some o' \<Rightarrow> (case get_membership (sc_core s) o' uid of None \<Rightarrow> Inl (HTTPError 404 ''Organization not found'')
       | Some m \<Rightarrow> ebind (raise_if (\<not> role_at_least (Some (mem_role m)) Viewer) (HTTPError 404 ''Organization not found'')) (\<lambda>_.
           Inr (desc_by sch_created_at (filter (\<lambda>r. sch_org r = Some o') (schedules s)))))
   | None \<Rightarrow> Inr (desc_by sch_created_at (filter (\<lambda>r. sch_user r = uid) (schedules s))))"

definition too_many :: "uuid option \<Rightarrow> error" where
  "too_many oid = HTTPError 400 (''Maximum 10 enabled schedules per '' @ (if oid \<noteq> None then ''organization'' else ''user''))"

definition schedule_ok :: "scan_schedule \<Rightarrow> bool" where
  "schedule_ok r \<longleftrightarrow> sch_type r \<in> {''ip'', ''domain''} \<and> sch_cadence r \<in> {''weekly'', ''monthly''}"

definition schedule_create ::
    "(string \<Rightarrow> zone result) \<Rightarrow> uuid \<Rightarrow> user \<Rightarrow> schedule_create_body \<Rightarrow> uuid option \<Rightarrow> datetime \<Rightarrow> scan_db
      \<Rightarrow> (scan_schedule \<times> scan_db) result" where
  "schedule_create zones sid u b oid now s =
     ebind (org_write_check (sc_core s) oid (user_id u)) (\<lambda>_.
     ebind (raise_if (scb_enabled b \<and> MAX_SCHEDULES_PER_ORG \<le> count_enabled_in_scope s oid (user_id u) None) (too_many oid)) (\<lambda>_.
     ebind (compute_next_run_at zones (scb_cadence b) (scb_timezone b) now) (\<lambda>next_run.
     let r = \<lparr>sch_id = sid, sch_user = user_id u, sch_org = oid, sch_asset = None, sch_name = scb_name b, sch_type = scb_type b,
       sch_target = scb_target b, sch_cadence = scb_cadence b, sch_timezone = scb_timezone b, sch_next_run = next_run,
       sch_last_run = None, sch_last_job = None, sch_enabled = scb_enabled b,
       sch_notify = or_str (scb_notify b) (Some (user_email u)), sch_last_error = None, sch_created_at = now, sch_updated_at = now\<rparr> in
     ebind (raise_if (\<not> schedule_ok r \<or> sid \<in> sch_id ` set (schedules s)) IntegrityError) (\<lambda>_.
     Inr (r, s\<lparr>schedules := schedules s @ [r]\<rparr>)))))"

definition schedule_owned :: "scan_db \<Rightarrow> uuid \<Rightarrow> uuid \<Rightarrow> scan_schedule result" where   \<comment> \<open>\<open>get_owned\<close>\<close>
  "schedule_owned s sid uid = (case row_get sch_id sid (schedules s) of
     None \<Rightarrow> Inl (HTTPError 404 ''Schedule not found'')
   | Some r \<Rightarrow> if schedule_readable (sc_core s) r uid then Inr r else Inl (HTTPError 404 ''Schedule not found''))"

definition set_null_column :: "'a option option \<Rightarrow> 'a option \<Rightarrow> 'a option" where
  "set_null_column v old = (case v of None \<Rightarrow> old | Some x \<Rightarrow> x)"

definition set_not_null :: "'a option option \<Rightarrow> 'a \<Rightarrow> 'a result" where
  "set_not_null v old = (case v of None \<Rightarrow> Inr old | Some None \<Rightarrow> Inl IntegrityError | Some (Some x) \<Rightarrow> Inr x)"

text \<open>A null cadence is not one of the two; a null time zone is no name for \<open>ZoneInfo\<close>.\<close>

definition rescheduled ::
    "(string \<Rightarrow> zone result) \<Rightarrow> schedule_update_body \<Rightarrow> scan_schedule \<Rightarrow> datetime \<Rightarrow> datetime result" where
  "rescheduled zones b r now =
     (if sub_cadence b = None \<and> sub_timezone b = None then Inr (sch_next_run r)
      else ebind (get_or (PyError ''TypeError'') (set_null_column (sub_timezone b) (Some (sch_timezone r)))) (\<lambda>tz_name.
        ebind (tz_of zones tz_name) (\<lambda>_.
        ebind (get_or (ValueError ''Unknown cadence: None'') (set_null_column (sub_cadence b) (Some (sch_cadence r)))) (\<lambda>cadence.
        compute_next_run_at zones cadence tz_name now))))"

definition schedule_update ::
    "(string \<Rightarrow> zone result) \<Rightarrow> uuid \<Rightarrow> uuid \<Rightarrow> schedule_update_body \<Rightarrow> datetime \<Rightarrow> scan_db \<Rightarrow> (scan_schedule \<times> scan_db) result" where
  "schedule_update zones sid uid b now s =
     ebind (schedule_owned s sid uid) (\<lambda>r.
     ebind (raise_if (\<not> schedule_mutable (sc_core s) r uid) (HTTPError 403 ''Insufficient organization role'')) (\<lambda>_.
     let enabling = (sub_enabled b = Some (Some True) \<and> \<not> sch_enabled r) in
     ebind (raise_if (enabling \<and> MAX_SCHEDULES_PER_ORG \<le> count_enabled_in_scope s (sch_org r) uid (Some sid)) (too_many (sch_org r))) (\<lambda>_.
     ebind (rescheduled zones b r now) (\<lambda>next_run.
     ebind (set_not_null (sub_target b) (sch_target r)) (\<lambda>target.
     ebind (set_not_null (sub_cadence b) (sch_cadence r)) (\<lambda>cadence.
     ebind (set_not_null (sub_timezone b) (sch_timezone r)) (\<lambda>tz_name.
     ebind (set_not_null (sub_enabled b) (sch_enabled r)) (\<lambda>en.
     let r' = r\<lparr>sch_last_error := (if enabling then None else sch_last_error r), sch_next_run := next_run, sch_target := target,
       sch_cadence := cadence, sch_timezone := tz_name, sch_enabled := en, sch_name := set_null_column (sub_name b) (sch_name r),
       sch_notify := set_null_column (sub_notify b) (sch_notify r), sch_updated_at := now\<rparr> in
     ebind (raise_if (\<not> schedule_ok r') IntegrityError) (\<lambda>_.
     Inr (r', s\<lparr>schedules := row_upd sch_id sid (\<lambda>_. r') (schedules s)\<rparr>))))))))))"

definition schedule_delete :: "uuid \<Rightarrow> uuid \<Rightarrow> scan_db \<Rightarrow> scan_db result" where
  "schedule_delete sid uid s =
     ebind (schedule_owned s sid uid) (\<lambda>r.
     ebind (raise_if (\<not> schedule_mutable (sc_core s) r uid) (HTTPError 403 ''Insufficient organization role'')) (\<lambda>_.
     Inr (s\<lparr>schedules := row_del sch_id sid (schedules s)\<rparr>)))"

definition list_runs :: "scan_db \<Rightarrow> uuid \<Rightarrow> uuid \<Rightarrow> nat \<Rightarrow> scan_job list result" where
  "list_runs s sid uid limit =
     ebind (schedule_owned s sid uid) (\<lambda>r.
     Inr (take limit (desc_by job_created_at (filter (\<lambda>j. job_type j = sch_type r \<and> job_target j = sch_target r
       \<and> (case sch_org r of Some o' \<Rightarrow> job_org j = Some o' | None \<Rightarrow> job_user j = uid)) (jobs s)))))"

subsection \<open>The sweep\<close>

text \<open>The rows a sweep selects, as it reads them; \<open>locked\<close> are those another transaction holds.\<close>

definition due_rows :: "uuid set \<Rightarrow> nat \<Rightarrow> datetime \<Rightarrow> scan_db \<Rightarrow> scan_schedule list" where
  "due_rows locked limit now s = take limit (sort_key sch_next_run
     (filter (\<lambda>r. sch_enabled r \<and> sch_next_run r \<le> now \<and> sch_id r \<notin> locked) (schedules s)))"

definition scheduled_task :: "string \<Rightarrow> string \<Rightarrow> string \<Rightarrow> scan_task option" where   \<comment> \<open>\<open>_dispatch_scan\<close>\<close>
  "scheduled_task jid scan_type target =
     (if scan_type = ''ip'' then Some \<lparr>tsk_name = ''ip_scan.run'', tsk_args = [jid, target, ''1-1000''], tsk_queue = ''ip_scan''\<rparr>
      else if scan_type = ''domain'' then Some \<lparr>tsk_name = ''domain_scan.run'', tsk_args = [jid, target], tsk_queue = ''domain_scan''\<rparr>
      else None)"

datatype sweep_outcome = Enqueued | Skipped | DispatchError

definition update_schedule :: "uuid \<Rightarrow> (scan_schedule \<Rightarrow> scan_schedule) \<Rightarrow> scan_db \<Rightarrow> scan_db" where
  "update_schedule sid f s = s\<lparr>schedules := row_upd sch_id sid f (schedules s)\<rparr>"

definition dispatch_failed :: "datetime \<Rightarrow> scan_schedule \<Rightarrow> scan_schedule" where
  "dispatch_failed now r = r\<lparr>sch_last_error := Some ''Failed to dispatch scan task'', sch_updated_at := now\<rparr>"

definition dispatched :: "datetime \<Rightarrow> uuid \<Rightarrow> datetime \<Rightarrow> scan_schedule \<Rightarrow> scan_schedule" where
  "dispatched now jid next_run r = r\<lparr>sch_last_run := Some now, sch_last_job := Some jid, sch_next_run := next_run,
     sch_last_error := None, sch_updated_at := now\<rparr>"

text \<open>One row of the batch. It ends with a commit, except when it is skipped. \<open>send\<close> answers the id of the task, if it is sent.\<close>

definition run_schedule ::
    "(string \<Rightarrow> zone result) \<Rightarrow> (uuid \<Rightarrow> string) \<Rightarrow> (scan_task \<Rightarrow> string option) \<Rightarrow> uuid \<Rightarrow> datetime \<Rightarrow> scan_schedule \<Rightarrow> scan_db
      \<Rightarrow> (sweep_outcome \<times> scan_db) result" where
  "run_schedule zones str_of send jid now row s =
     (let last_job = (case sch_last_job row of None \<Rightarrow> None | Some k \<Rightarrow> get_job_row s k) in
      if (case last_job of None \<Rightarrow> False | Some j \<Rightarrow> job_status j \<in> {JPending, JRunning}) then Inr (Skipped, s)
      else
        let j = new_job jid (sch_user row) (sch_type row) (sch_target row) (sch_org row) now in
        ebind (insert_job j s) (\<lambda>s1.
        case (case scheduled_task (str_of jid) (sch_type row) (sch_target row) of None \<Rightarrow> None | Some t \<Rightarrow> send t) of
          None \<Rightarrow> Inr (DispatchError,
            update_schedule (sch_id row) (dispatch_failed now)
              (save_job (j\<lparr>job_status := JFailed, job_summary := Some [(''error'', JsonStr ''failed to dispatch scheduled scan'')],
                 job_completed_at := Some now\<rparr>) s1))
        | Some tid \<Rightarrow>
            ebind (advance_next_run zones (sch_cadence row) (or_text (Some (sch_timezone row)) ''Asia/Jakarta'') (sch_next_run row)) (\<lambda>next_run.
            Inr (Enqueued,
              update_schedule (sch_id row) (dispatched now jid next_run)
                (save_job (j\<lparr>job_task := Some tid\<rparr>) s1)))))"

text \<open>The loop, over rows read before it; an exception ends it with what was committed.\<close>

fun run_batch ::
    "(string \<Rightarrow> zone result) \<Rightarrow> (uuid \<Rightarrow> string) \<Rightarrow> (scan_task \<Rightarrow> string option) \<Rightarrow> (nat \<Rightarrow> uuid) \<Rightarrow> datetime \<Rightarrow> nat \<Rightarrow> scan_schedule list
      \<Rightarrow> scan_db \<Rightarrow> sweep_outcome list result \<times> scan_db" where
  "run_batch zones str_of send ids now k [] s = (Inr [], s)"
| "run_batch zones str_of send ids now k (row # rows) s =
     (case run_schedule zones str_of send (ids k) now row s of
       Inl e \<Rightarrow> (Inl e, s)
     | Inr (out, s1) \<Rightarrow> (case run_batch zones str_of send ids now (Suc k) rows s1 of (res, s2) \<Rightarrow> (map_sum id ((#) out) res, s2)))"

definition run_due_schedules ::
    "(string \<Rightarrow> zone result) \<Rightarrow> (uuid \<Rightarrow> string) \<Rightarrow> (scan_task \<Rightarrow> string option) \<Rightarrow> (nat \<Rightarrow> uuid) \<Rightarrow> datetime \<Rightarrow> scan_db
      \<Rightarrow> sweep_outcome list result \<times> scan_db" where
  "run_due_schedules zones str_of send ids now s = run_batch zones str_of send ids now 0 (due_rows {} 50 now s) s"

subsection \<open>The next run is the next due instant\<close>

text \<open>A wall clock at which a schedule of this cadence is due.\<close>

definition due_day :: "string \<Rightarrow> int \<Rightarrow> bool" where
  "due_day cadence w \<longleftrightarrow> at_two w = w \<and> (if cadence = ''weekly'' then weekday w = 0 else day_of w = 1)"

lemmas day_number = day_us_def run_hour_us_def

lemma date_of_bounds: "date_of w * day_us \<le> w \<and> w < (date_of w + 1) * day_us"
  using date_of_ge [of "date_of w" w] date_of_less [of w "date_of w + 1"] by simp

lemma date_of_hour: "0 \<le> h \<Longrightarrow> h < day_us \<Longrightarrow> date_of (k * day_us + h) = k"
  unfolding date_of_def using day_us_pos by simp

lemma date_at_two [simp]: "date_of (at_two w) = date_of w"
  unfolding at_two_def by (rule date_of_hour) (simp_all add: day_number)

lemma at_two_idem [simp]: "at_two (at_two w) = at_two w"
  by (simp add: at_two_def [of "at_two w"]) (simp add: at_two_def)

lemma date_of_shift: "date_of (w + k * day_us) = date_of w + k"
  unfolding date_of_def using day_us_pos by simp

lemma at_two_shift: "at_two (w + k * day_us) = at_two w + k * day_us"
  by (simp add: at_two_def date_of_shift distrib_right)

lemma candidate:
  "n < next_candidate n" "at_two (next_candidate n) = next_candidate n" "n < v \<Longrightarrow> at_two v = v \<Longrightarrow> next_candidate n \<le> v"
proof -
  have shift: "at_two (at_two n + day_us) = at_two n + day_us" using at_two_shift [of "at_two n" 1] by simp
  show "n < next_candidate n"
    using date_of_bounds [of n] by (simp add: next_candidate_def at_two_def day_number)
  show "at_two (next_candidate n) = next_candidate n" by (simp add: next_candidate_def shift)
  assume v: "n < v" "at_two v = v"
  have b: "v = date_of v * day_us + run_hour_us" using v(2) by (simp add: at_two_def)
  have "date_of n \<le> date_of v" using date_of_ge [of "date_of n" v] date_of_bounds [of n] v(1) by simp
  moreover have "date_of n < date_of v" if "at_two n \<le> n"
  proof (rule ccontr)
    assume "\<not> date_of n < date_of v"
    with \<open>date_of n \<le> date_of v\<close> have "date_of v = date_of n" by simp
    with b v(1) that show False by (simp add: at_two_def)
  qed
  ultimately show "next_candidate n \<le> v" using b by (auto simp: next_candidate_def at_two_def day_number)
qed

lemma day_of_first: "1 \<le> m \<Longrightarrow> m \<le> 12 \<Longrightarrow> date_of w = ymd2ord y m 1 \<Longrightarrow> year_of w = y \<and> month_of w = m \<and> day_of w = 1"
proof -
  assume m: "1 \<le> m" "m \<le> 12" "date_of w = ymd2ord y m 1"
  have "0 < days_in_month y m" by (simp add: days_in_month_def)
  then have "year_of w = y \<and> month_of w = m"
    using ord_unique [OF m(1,2), of y "date_of w"] m(3) by (simp add: year_of_def month_of_def)
  with m(3) show ?thesis by (simp add: day_of_def)
qed

lemma first_of_next_month:
  "at_two (first_of_next_month w) = first_of_next_month w" "day_of (first_of_next_month w) = 1"
  "date_of (first_of_next_month w) = ymd2ord (year_of w) (month_of w) 1 + days_in_month (year_of w) (month_of w)"
proof -
  let ?y = "if month_of w = 12 then year_of w + 1 else year_of w"
  let ?m = "if month_of w = 12 then 1 else month_of w + 1"
  have v: "1 \<le> month_of w" "month_of w \<le> 12" using month_valid [of w] by auto
  have eq: "first_of_next_month w = ymd2ord ?y ?m 1 * day_us + run_hour_us"
    by (simp add: first_of_next_month_def datetime_ymd_def)
  have d: "date_of (first_of_next_month w) = ymd2ord ?y ?m 1"
    unfolding eq by (rule date_of_hour) (simp_all add: day_number)
  show "at_two (first_of_next_month w) = first_of_next_month w" unfolding at_two_def d by (simp only: eq)
  have "1 \<le> ?m" "?m \<le> 12" using v by auto
  from day_of_first [OF this d] show "day_of (first_of_next_month w) = 1" by blast
  show "date_of (first_of_next_month w) = ymd2ord (year_of w) (month_of w) 1 + days_in_month (year_of w) (month_of w)"
    unfolding d next_month_start [OF v] by simp
qed

lemma weekly_run:
  assumes "next_run_local ''weekly'' n = Inr w"
  shows "n < w \<and> due_day ''weekly'' w \<and> (\<forall>v. n < v \<and> due_day ''weekly'' v \<longrightarrow> w \<le> v)"
proof -
  define c where "c = next_candidate n"
  define k where "k = (0 - weekday c) mod 7"
  have c: "n < c" "at_two c = c" using candidate [of n] by (simp_all add: c_def)
  have w: "w = c + k * day_us"
  proof -
    have "weekday c = 0 \<longleftrightarrow> k = 0" unfolding k_def weekday_def by presburger
    then show ?thesis using assms c at_two_shift [of c k]
      unfolding next_run_local_def Let_def k_def [symmetric] c_def [symmetric] by (auto split: if_splits)
  qed
  have k: "0 \<le> k" "k < 7" "(date_of c + k + 6) mod 7 = 0" unfolding k_def weekday_def by presburger+
  have "at_two w = w" unfolding w at_two_shift c(2) ..
  moreover have "weekday w = 0" unfolding w weekday_def date_of_shift using k(3) by simp
  moreover have "w \<le> v" if v: "n < v" "due_day ''weekly'' v" for v
  proof -
    have a: "at_two v = v" "(date_of v + 6) mod 7 = 0" using v(2) by (simp_all add: due_day_def weekday_def)
    have "c \<le> v" unfolding c_def by (rule candidate(3) [OF v(1) a(1)])
    then have "date_of c \<le> date_of v" unfolding date_of_def by (rule zdiv_mono1) (rule day_us_pos)
    then have "date_of c + k \<le> date_of v" using k a(2) by presburger
    then show ?thesis unfolding w using a(1) c(2) by (simp add: at_two_def) (simp add: day_number)
  qed
  ultimately show ?thesis using c k(1) by (auto simp: due_day_def w day_us_def)
qed

lemma monthly_run:
  assumes "next_run_local ''monthly'' n = Inr w"
  shows "n < w \<and> due_day ''monthly'' w \<and> (\<forall>v. n < v \<and> due_day ''monthly'' v \<longrightarrow> w \<le> v)"
proof -
  define c where "c = next_candidate n"
  have c: "n < c" "at_two c = c" using candidate [of n] by (simp_all add: c_def)
  have w: "w = (if day_of c \<noteq> 1 then first_of_next_month c else c)"
    using assms c by (simp add: next_run_local_def Let_def c_def [symmetric] split: if_splits)
  have mv: "1 \<le> month_of c" "month_of c \<le> 12" "ymd2ord (year_of c) (month_of c) 1 \<le> date_of c"
    "date_of c < ymd2ord (year_of c) (month_of c) 1 + days_in_month (year_of c) (month_of c)" using month_valid [of c] by auto
  show ?thesis
  proof (cases "day_of c = 1")
    case True
    with w c candidate(3) [of n] show ?thesis by (auto simp: due_day_def c_def)
  next
    case False
    note f = first_of_next_month [of c]
    have w: "w = first_of_next_month c" using w False by simp
    have "date_of c < date_of w" using mv(4) f(3) w by simp
    then have "c < w" using c(2) f(1) unfolding w by (simp add: at_two_def) (simp add: day_number)
    moreover have "w \<le> v" if v: "n < v" "due_day ''monthly'' v" for v
    proof -
      have a: "at_two v = v" "day_of v = 1" using v(2) by (simp_all add: due_day_def)
      have "c \<le> v" unfolding c_def by (rule candidate(3) [OF v(1) a(1)])
      then have cv: "date_of c \<le> date_of v" unfolding date_of_def by (rule zdiv_mono1) (rule day_us_pos)
      have "date_of w \<le> date_of v"
      proof (rule ccontr)
        assume "\<not> date_of w \<le> date_of v"
        then have "date_of v < ymd2ord (year_of c) (month_of c) 1 + days_in_month (year_of c) (month_of c)" using f(3) w by simp
        from ord_unique [OF mv(1,2) _ this] have "year_of v = year_of c" "month_of v = month_of c"
          using mv(3) cv by (auto simp: year_of_def month_of_def)
        with a(2) have "date_of v = ymd2ord (year_of c) (month_of c) 1" by (simp add: day_of_def)
        with cv mv(3) False show False by (simp add: day_of_def)
      qed
      then show ?thesis using a(1) f(1) unfolding w by (simp add: at_two_def) (simp add: day_number)
    qed
    ultimately show ?thesis using c f w by (auto simp: due_day_def)
  qed
qed

text \<open>C16: A schedule runs next at the first two o'clock in its time zone, after now, that falls on a Monday (weekly) or on the
  first of a month (monthly): none in between is missed. The zone must turn every wall clock into an instant that shows it.\<close>

theorem next_run_is_first_due:
  assumes "tz_of zones tz_name = Inr tz" "\<forall>w. zone_local tz (zone_utc tz w) = w" "cadence = ''weekly'' \<or> cadence = ''monthly''"
  shows "\<exists>t. compute_next_run_at zones cadence tz_name now = Inr t \<and> zone_local tz now < zone_local tz t
    \<and> due_day cadence (zone_local tz t)
    \<and> (\<forall>v. zone_local tz now < v \<and> due_day cadence v \<longrightarrow> zone_local tz t \<le> v)"
proof -
  obtain w where w: "next_run_local cadence (zone_local tz now) = Inr w"
    using assms(3) by (auto simp: next_run_local_def Let_def)
  have "compute_next_run_at zones cadence tz_name now = Inr (zone_utc tz w)" by (simp add: compute_next_run_at_def assms(1) w)
  with weekly_run [of "zone_local tz now" w] monthly_run [of "zone_local tz now" w] w assms(2,3) show ?thesis by auto
qed

definition jakarta :: zone where
  "jakarta = \<lparr>zone_local = (\<lambda>t. t + 7 * 3600000000), zone_utc = (\<lambda>w. w - 7 * 3600000000)\<rparr>"

definition zones0 :: "string \<Rightarrow> zone result" where
  "zones0 tz_name = (if tz_name = ''Asia/Jakarta'' then Inr jakarta else Inl (PyError ''ZoneInfoNotFoundError''))"

text \<open>From a Sunday noon in Jakarta: Monday the second of March 2026 at two.\<close>

theorem next_run_is_first_due_witness:
  "compute_next_run_at zones0 ''weekly'' ''Mars/Base'' (datetime_ymd 2026 3 1 + 5 * 3600000000) = Inr (datetime_ymd 2026 3 1 + 19 * 3600000000)
   \<and> due_day ''weekly'' (datetime_ymd 2026 3 2 + 2 * 3600000000)"
proof -
  let ?now = "datetime_ymd 2026 3 1 + 5 * 3600000000"
  have z: "tz_of zones0 ''Mars/Base'' = Inr jakarta" "\<forall>w. zone_local jakarta (zone_utc jakarta w) = w"
    by (simp_all add: tz_of_def zones0_def jakarta_def)
  have r: "compute_next_run_at zones0 ''weekly'' ''Mars/Base'' ?now = Inr (datetime_ymd 2026 3 1 + 19 * 3600000000)" by code_simp
  have "zone_local jakarta (datetime_ymd 2026 3 1 + 19 * 3600000000) = datetime_ymd 2026 3 2 + 2 * 3600000000" by code_simp
  with next_run_is_first_due [OF z, of "''weekly''" ?now] r show ?thesis by auto
qed

text \<open>Moving a schedule on after a run is the same as computing its next run at the instant it was due: the two routines,
  one in the service and one in the worker, agree on every due instant.\<close>

theorem advance_agrees:
  assumes "due_day cadence w" "cadence = ''weekly'' \<or> cadence = ''monthly''"
  shows "next_run_local cadence w = Inr (advance_local cadence w)"
proof -
  have t: "at_two w = w" using assms(1) by (simp add: due_day_def)
  then have c: "next_candidate w = w + day_us" by (simp add: next_candidate_def)
  have d: "date_of (w + day_us) = date_of w + 1" using date_of_shift [of w 1] by simp
  show ?thesis
  proof (cases "cadence = ''weekly''")
    case True
    then have "(date_of w + 6) mod 7 = 0" using assms(1) by (simp add: due_day_def weekday_def)
    then have k: "weekday (w + day_us) = 1" unfolding weekday_def d by presburger
    have "at_two (w + day_us + 6 * day_us) = w + 7 * day_us" using at_two_shift [of w 7] t by (simp add: algebra_simps)
    with k show ?thesis using True by (simp add: next_run_local_def c advance_local_def Let_def)
  next
    case False
    then have m: "day_of w = 1" "cadence = ''monthly''" using assms by (auto simp: due_day_def)
    then have f: "date_of w = ymd2ord (year_of w) (month_of w) 1" by (simp add: day_of_def)
    have v: "1 \<le> month_of w" "month_of w \<le> 12" using month_valid [of w] by auto
    have "2 \<le> days_in_month (year_of w) (month_of w)" by (simp add: days_in_month_def)
    then have "year_of_ord (date_of w + 1) = year_of w \<and> month_of_ord (date_of w + 1) = month_of w"
      using f by (intro ord_unique [OF v]) linarith+
    then have ym: "year_of (w + day_us) = year_of w" "month_of (w + day_us) = month_of w"
      by (simp_all add: year_of_def [of "w + day_us"] month_of_def [of "w + day_us"] d)
    then have "day_of (w + day_us) = 2" using f by (simp add: day_of_def d)
    moreover have "w mod day_us = run_hour_us"
    proof -
      have "(date_of w * day_us + run_hour_us) mod day_us = run_hour_us" by (simp add: day_number)
      with t show ?thesis by (simp add: at_two_def)
    qed
    ultimately show ?thesis using m ym
      by (simp add: next_run_local_def c advance_local_def first_of_next_month_def Let_def)
  qed
qed

subsection \<open>Caps\<close>

definition schedules_capped :: "scan_db \<Rightarrow> bool" where
  "schedules_capped s \<longleftrightarrow> unique_by sch_id (schedules s)
     \<and> (\<forall>oid uid. count_enabled_in_scope s oid uid None \<le> MAX_SCHEDULES_PER_ORG)"

inductive schedule_step :: "scan_db \<Rightarrow> scan_db \<Rightarrow> bool" where
  create: "schedule_create zones sid u b oid now s = Inr (r, s') \<Longrightarrow> schedule_step s s'"
| update: "schedule_update zones sid uid b now s = Inr (r, s') \<Longrightarrow> schedule_step s s'"
| delete: "schedule_delete sid uid s = Inr s' \<Longrightarrow> schedule_step s s'"
| run: "run_schedule zones str_of send jid now row s = Inr (out, s') \<Longrightarrow> schedule_step s s'"
| scan: "start_scan str_of send jid u ty target ports platform path oid now s = (res, s') \<Longrightarrow> schedule_step s s'"
| sweep: "fail_stale_and_refund st cutoff summary reason now s = (c, s') \<Longrightarrow> schedule_step s s'"

lemma schedule_create_Inr:
  assumes "schedule_create zones sid u b oid now s = Inr (r, s')"
  shows "sid \<notin> sch_id ` set (schedules s)" "s' = s\<lparr>schedules := schedules s @ [r]\<rparr>" "sch_id r = sid" "sch_org r = oid"
    "sch_user r = user_id u" "sch_enabled r \<Longrightarrow> count_enabled_in_scope s oid (user_id u) None < MAX_SCHEDULES_PER_ORG"
  using assms unfolding schedule_create_def Let_def by (elim bindE guard_E; auto)+

lemma schedule_update_Inr:
  assumes "schedule_update zones sid uid b now s = Inr (r', s')"
  obtains r where "row_get sch_id sid (schedules s) = Some r" "schedule_mutable (sc_core s) r uid"
    "s' = s\<lparr>schedules := row_upd sch_id sid (\<lambda>_. r') (schedules s)\<rparr>" "sch_id r' = sch_id r" "sch_org r' = sch_org r"
    "sch_user r' = sch_user r"
    "sch_enabled r' \<Longrightarrow> \<not> sch_enabled r \<Longrightarrow> count_enabled_in_scope s (sch_org r) uid (Some sid) < MAX_SCHEDULES_PER_ORG"
proof -
  from assms obtain r where r: "schedule_owned s sid uid = Inr r" "schedule_mutable (sc_core s) r uid"
    "\<not> (sub_enabled b = Some (Some True) \<and> \<not> sch_enabled r \<and> MAX_SCHEDULES_PER_ORG \<le> count_enabled_in_scope s (sch_org r) uid (Some sid))"
    "s' = s\<lparr>schedules := row_upd sch_id sid (\<lambda>_. r') (schedules s)\<rparr>" "sch_id r' = sch_id r" "sch_org r' = sch_org r"
    "sch_user r' = sch_user r" "set_not_null (sub_enabled b) (sch_enabled r) = Inr (sch_enabled r')"
    unfolding schedule_update_def Let_def by (elim bindE guard_E) auto
  have "row_get sch_id sid (schedules s) = Some r"
    using r(1) by (auto simp: schedule_owned_def split: option.splits if_splits)
  then show thesis using r(2-8) by (intro that) (auto simp: set_not_null_def split: option.splits)
qed

lemma mutable_scope: "schedule_mutable d r uid \<Longrightarrow> in_scope (sch_org r) uid r"
  by (auto simp: schedule_mutable_def in_scope_def split: option.splits)

lemma count_scope_eq:
  assumes "\<And>r. sch_id (f r) = sch_id r \<and> sch_user (f r) = sch_user r \<and> sch_org (f r) = sch_org r \<and> sch_enabled (f r) = sch_enabled r"
  shows "count_enabled_in_scope (update_schedule k f s) oid uid x = count_enabled_in_scope s oid uid x"
  unfolding count_enabled_in_scope_def update_schedule_def using assms
  by (simp, intro count_row_upd_same) (simp add: in_scope_def split: option.split)

lemma capped_cong: "schedules s' = schedules s \<Longrightarrow> schedules_capped s' = schedules_capped s"
  by (simp add: schedules_capped_def count_enabled_in_scope_def)

lemma capped_touch:
  assumes "schedules_capped s" "\<And>r. sch_id (f r) = sch_id r \<and> sch_user (f r) = sch_user r \<and> sch_org (f r) = sch_org r \<and> sch_enabled (f r) = sch_enabled r"
  shows "schedules_capped (update_schedule k f s)"
  using assms count_scope_eq [of f] unfolding schedules_capped_def update_schedule_def
  by (simp add: unique_by_row_upd)

abbreviation scheduled_job :: "uuid \<Rightarrow> datetime \<Rightarrow> scan_schedule \<Rightarrow> scan_job" where
  "scheduled_job jid now row \<equiv> new_job jid (sch_user row) (sch_type row) (sch_target row) (sch_org row) now"

definition sent_for :: "(uuid \<Rightarrow> string) \<Rightarrow> (scan_task \<Rightarrow> string option) \<Rightarrow> uuid \<Rightarrow> scan_schedule \<Rightarrow> string option" where
  "sent_for str_of send jid row = (case scheduled_task (str_of jid) (sch_type row) (sch_target row) of None \<Rightarrow> None | Some t \<Rightarrow> send t)"

definition last_job_live :: "scan_db \<Rightarrow> scan_schedule \<Rightarrow> bool" where
  "last_job_live s row \<longleftrightarrow> (case (case sch_last_job row of None \<Rightarrow> None | Some k \<Rightarrow> get_job_row s k) of None \<Rightarrow> False
     | Some j \<Rightarrow> job_status j \<in> {JPending, JRunning})"

lemma run_schedule_eq:
  "run_schedule zones str_of send jid now row s = (if last_job_live s row then Inr (Skipped, s)
     else ebind (insert_job (scheduled_job jid now row) s) (\<lambda>s1. case sent_for str_of send jid row of
       None \<Rightarrow> Inr (DispatchError, update_schedule (sch_id row) (dispatch_failed now)
         (save_job ((scheduled_job jid now row)\<lparr>job_status := JFailed,
            job_summary := Some [(''error'', JsonStr ''failed to dispatch scheduled scan'')], job_completed_at := Some now\<rparr>) s1))
     | Some tid \<Rightarrow> ebind (advance_next_run zones (sch_cadence row) (or_text (Some (sch_timezone row)) ''Asia/Jakarta'') (sch_next_run row))
         (\<lambda>n. Inr (Enqueued, update_schedule (sch_id row) (dispatched now jid n) (save_job ((scheduled_job jid now row)\<lparr>job_task := Some tid\<rparr>) s1)))))"
  unfolding run_schedule_def Let_def last_job_live_def sent_for_def ..

lemma run_schedule_cases:
  assumes "run_schedule zones str_of send jid now row s = Inr (out, s')"
  obtains (skipped) "out = Skipped" "s' = s" "last_job_live s row"
  | (failed) s1 j where "out = DispatchError" "\<not> last_job_live s row" "insert_job (scheduled_job jid now row) s = Inr s1"
      "sent_for str_of send jid row = None" "s' = update_schedule (sch_id row) (dispatch_failed now) (save_job j s1)" "job_id j = jid"
  | (enqueued) s1 tid n where "out = Enqueued" "\<not> last_job_live s row" "insert_job (scheduled_job jid now row) s = Inr s1"
      "sent_for str_of send jid row = Some tid"
      "advance_next_run zones (sch_cadence row) (or_text (Some (sch_timezone row)) ''Asia/Jakarta'') (sch_next_run row) = Inr n"
      "s' = update_schedule (sch_id row) (dispatched now jid n) (save_job ((scheduled_job jid now row)\<lparr>job_task := Some tid\<rparr>) s1)"
proof (cases "last_job_live s row")
  case True
  with assms show thesis by (intro skipped) (simp_all add: run_schedule_eq)
next
  case live: False
  with assms obtain s1 where s1: "insert_job (scheduled_job jid now row) s = Inr s1"
    by (auto simp: run_schedule_eq elim: bindE)
  show thesis
  proof (cases "sent_for str_of send jid row")
    case None
    with assms s1 live show thesis by (intro failed [of s1]) (auto simp: run_schedule_eq new_job_def)
  next
    case (Some tid)
    with assms s1 live obtain n where
      "advance_next_run zones (sch_cadence row) (or_text (Some (sch_timezone row)) ''Asia/Jakarta'') (sch_next_run row) = Inr n"
      by (auto simp: run_schedule_eq elim: bindE)
    with Some assms s1 live show thesis by (intro enqueued [of s1 tid n]) (auto simp: run_schedule_eq)
  qed
qed

lemma insert_job_Inr:
  assumes "insert_job j s = Inr s1"
  shows "job_ok j" "job_id j \<notin> job_id ` set (jobs s)" "s1 = s\<lparr>jobs := jobs s @ [j]\<rparr>"
  using assms by (auto simp: insert_job_def split: if_splits)

lemma saved_schedules [simp]: "schedules (save_job j s) = schedules s" "jobs (update_schedule k f s) = jobs s"
    "length (jobs (save_job j s)) = length (jobs s)"
  by (simp_all add: save_job_def update_schedule_def)

lemma run_schedule_schedules:
  assumes "run_schedule zones str_of send jid now row s = Inr (out, s')"
  obtains "schedules s' = schedules s" | k f where "schedules s' = row_upd sch_id k f (schedules s)"
    "\<And>r. sch_id (f r) = sch_id r \<and> sch_user (f r) = sch_user r \<and> sch_org (f r) = sch_org r \<and> sch_enabled (f r) = sch_enabled r"
proof (rule run_schedule_cases [OF assms])
  assume "s' = s" then show thesis using that(1) by simp
next
  fix s1 j assume "insert_job (scheduled_job jid now row) s = Inr s1" "s' = update_schedule (sch_id row) (dispatch_failed now) (save_job j s1)"
  then have "schedules s' = row_upd sch_id (sch_id row) (dispatch_failed now) (schedules s)"
    by (auto simp: update_schedule_def dest: insert_job_Inr(3))
  then show thesis by (rule that(2)) (simp add: dispatch_failed_def)
next
  fix s1 tid n assume "insert_job (scheduled_job jid now row) s = Inr s1"
    "s' = update_schedule (sch_id row) (dispatched now jid n) (save_job ((scheduled_job jid now row)\<lparr>job_task := Some tid\<rparr>) s1)"
  then have "schedules s' = row_upd sch_id (sch_id row) (dispatched now jid n) (schedules s)"
    by (auto simp: update_schedule_def dest: insert_job_Inr(3))
  then show thesis by (rule that(2)) (simp add: dispatched_def)
qed

lemma schedule_step_capped: "schedule_step s s' \<Longrightarrow> schedules_capped s \<Longrightarrow> schedules_capped s'"
proof (induction rule: schedule_step.induct)
  case (create zones sid u b oid now s r s')
  note c = schedule_create_Inr [OF create.hyps]
  have "count_enabled_in_scope s' o2 v None \<le> MAX_SCHEDULES_PER_ORG" for o2 v
  proof (cases "sch_enabled r \<and> in_scope o2 v r")
    case True
    then have "count_enabled_in_scope s o2 v None = count_enabled_in_scope s oid (user_id u) None"
      using c(4,5) by (auto simp: count_enabled_in_scope_def in_scope_def split: option.splits)
    with True c(2,6) show ?thesis by (simp add: count_enabled_in_scope_def)
  next
    case False
    then have "count_enabled_in_scope s' o2 v None = count_enabled_in_scope s o2 v None" using c(2) by (auto simp: count_enabled_in_scope_def)
    then show ?thesis using create.prems by (simp add: schedules_capped_def)
  qed
  moreover have "unique_by sch_id (schedules s')" using create.prems c by (simp add: schedules_capped_def unique_by_append1)
  ultimately show ?case by (simp add: schedules_capped_def)
next
  case (update zones sid uid b now s r' s')
  obtain r where r: "row_get sch_id sid (schedules s) = Some r" "schedule_mutable (sc_core s) r uid"
    "s' = s\<lparr>schedules := row_upd sch_id sid (\<lambda>_. r') (schedules s)\<rparr>" "sch_id r' = sch_id r" "sch_org r' = sch_org r"
    "sch_user r' = sch_user r"
    "sch_enabled r' \<Longrightarrow> \<not> sch_enabled r \<Longrightarrow> count_enabled_in_scope s (sch_org r) uid (Some sid) < MAX_SCHEDULES_PER_ORG"
    by (rule schedule_update_Inr [OF update.hyps]) (rule that)
  have u: "unique_by sch_id (schedules s)" using update.prems by (simp add: schedules_capped_def)
  have id: "sch_id r = sid" using row_get_Some [OF r(1)] by simp
  have scope: "in_scope o2 v r' = in_scope o2 v r" for o2 v using r(5,6) by (simp add: in_scope_def split: option.split)
  have "count_enabled_in_scope s' o2 v None \<le> MAX_SCHEDULES_PER_ORG" for o2 v
  proof -
    have n: "count_enabled_in_scope s' o2 v None + (if in_scope o2 v r \<and> sch_enabled r then 1 else 0)
        = count_enabled_in_scope s o2 v None + (if in_scope o2 v r \<and> sch_enabled r' then 1 else 0)"
      using count_row_replace [OF u r(1), of "\<lambda>r. in_scope o2 v r \<and> sch_enabled r" "\<lambda>_. r'"] r(3)
      by (simp add: count_enabled_in_scope_def scope)
    show ?thesis
    proof (cases "in_scope o2 v r \<and> sch_enabled r' \<and> \<not> sch_enabled r")
      case True
      have "in_scope (sch_org r) uid r" using mutable_scope [OF r(2)] .
      then have same: "in_scope o2 v x = in_scope (sch_org r) uid x" for x
        using True by (auto simp: in_scope_def split: option.splits)
      have "count_enabled_in_scope s o2 v None = count_enabled_in_scope s (sch_org r) uid (Some sid)"
        unfolding count_enabled_in_scope_def
      proof (rule count_where_cong)
        fix x assume "x \<in> set (schedules s)"
        then have "sch_id x = sid \<Longrightarrow> x = r" using unique_byD [OF u, of x r] row_get_Some [OF r(1)] by simp
        with True show "(in_scope o2 v x \<and> sch_enabled x \<and> None \<noteq> Some (sch_id x)) = (in_scope (sch_org r) uid x \<and> sch_enabled x \<and> Some sid \<noteq> Some (sch_id x))"
          using same by auto
      qed
      with n True r(7) show ?thesis by auto
    next
      case False
      then have "count_enabled_in_scope s' o2 v None \<le> count_enabled_in_scope s o2 v None" using n by (auto split: if_splits)
      then show ?thesis using update.prems unfolding schedules_capped_def by (metis le_trans)
    qed
  qed
  moreover have "unique_by sch_id (schedules s')"
    using u r(3,4) id unfolding unique_by_def by (simp add: row_upd_def comp_def if_distrib cong: if_cong)
  ultimately show ?case by (simp add: schedules_capped_def)
next
  case (delete sid uid s s')
  then have s': "schedules s' = row_del sch_id sid (schedules s)" unfolding schedule_delete_def by (elim bindE) auto
  have "count_enabled_in_scope s' o2 v None \<le> count_enabled_in_scope s o2 v None" for o2 v
  proof -
    have "count_where P (row_del sch_id sid xs) \<le> count_where P xs" for P xs by (induction xs) (auto simp: row_del_def)
    then show ?thesis by (simp add: count_enabled_in_scope_def s')
  qed
  then show ?case using delete.prems s' unique_by_row_del unfolding schedules_capped_def by (metis le_trans)
next
  case (run zones str_of send jid now row s out s')
  show ?case
  proof (rule run_schedule_schedules [OF run.hyps])
    assume "schedules s' = schedules s"
    with capped_cong run.prems show ?thesis by blast
  next
    fix k f assume f: "schedules s' = row_upd sch_id k f (schedules s)"
      "\<And>r. sch_id (f r) = sch_id r \<and> sch_user (f r) = sch_user r \<and> sch_org (f r) = sch_org r \<and> sch_enabled (f r) = sch_enabled r"
    then have "schedules s' = schedules (update_schedule k f s)" by (simp add: update_schedule_def)
    with capped_cong capped_touch [OF run.prems f(2)] show ?thesis by blast
  qed
next
  case (scan str_of send jid u ty target ports platform path oid now s res s')
  then have "schedules s' = schedules s"
    unfolding start_scan_def Let_def insert_job_def save_job_def by (auto simp: errs split: sum.splits option.splits if_splits)
  with capped_cong scan.prems show ?case by blast
next
  case (sweep st cutoff summary reason now s c s')
  then have "schedules s' = schedules s" by (auto simp: fail_stale_and_refund_def Let_def)
  with capped_cong sweep.prems show ?case by blast
qed

text \<open>Ten live schedules per organization, and ten personal ones per user, whatever the handlers and the workers do: no
  creation, no change (a schedule that is enabled again counts itself only once), no run and no sweep leads beyond the cap.\<close>

theorem schedule_cap:
  assumes "schedule_step\<^sup>*\<^sup>* s s'" "unique_by sch_id (schedules s)" "\<forall>oid uid. count_enabled_in_scope s oid uid None \<le> 10"
  shows "count_enabled_in_scope s' oid uid None \<le> 10"
proof -
  have "schedules_capped s" using assms(2,3) by (simp add: schedules_capped_def MAX_SCHEDULES_PER_ORG_def)
  with assms(1) have "schedules_capped s'" by (induction rule: rtranclp_induct) (auto intro: schedule_step_capped)
  then show ?thesis by (simp add: schedules_capped_def MAX_SCHEDULES_PER_ORG_def)
qed

subsection \<open>Where the code does not do what it means to\<close>

text \<open>The sweep commits after each row, which gives up its locks on the rest of the batch; a second sweep may then select one of
  these rows. Both run it, since both look at the last job they read with the row: two scans are pending.\<close>

lemma row_get_overwrite:
  "key c = k' \<Longrightarrow> k \<noteq> k' \<Longrightarrow> row_get key k (row_upd key k' (\<lambda>_. c) rows) = row_get key k rows"
  by (induction rows) (auto simp: row_get_def row_upd_def)

lemma overlapping_sweeps_run_twice:
  assumes "run_schedule zones str_of send j1 now row s = Inr (Enqueued, s1)" "sch_last_job row \<noteq> Some j1"
    "j2 \<notin> job_id ` set (jobs s1)" "sent_for str_of send j2 row \<noteq> None"
  shows "\<exists>s2. run_schedule zones str_of send j2 now row s1 = Inr (Enqueued, s2)"
proof (rule run_schedule_cases [OF assms(1)])
  fix x tid n
  assume h: "\<not> last_job_live s row" "insert_job (scheduled_job j1 now row) s = Inr x"
    "advance_next_run zones (sch_cadence row) (or_text (Some (sch_timezone row)) ''Asia/Jakarta'') (sch_next_run row) = Inr n"
    "s1 = update_schedule (sch_id row) (dispatched now j1 n) (save_job ((scheduled_job j1 now row)\<lparr>job_task := Some tid\<rparr>) x)"
  note ins = insert_job_Inr [OF h(2)]
  have "get_job_row s1 k = get_job_row s k" if "k \<noteq> j1" for k
    using that h(4) ins(3) by (simp add: update_schedule_def save_job_def row_get_overwrite new_job_def row_get_append split: option.split)
  then have "last_job_live s1 row = last_job_live s row"
    using assms(2) by (auto simp: last_job_live_def split: option.split)
  moreover have "job_ok (scheduled_job j2 now row)" using ins(1) by (simp add: job_ok_def new_job_def)
  moreover have "job_id (scheduled_job j2 now row) = j2" by (simp add: new_job_def)
  ultimately show ?thesis using h(1,3) assms(3,4) by (auto simp: run_schedule_eq insert_job_def)
qed simp_all

text \<open>A schedule whose scan could not be sent stays due, and each sweep adds a failed job for it.\<close>

lemma failed_dispatch_stays_due:
  assumes "run_schedule zones str_of send jid now row s = Inr (DispatchError, s')" "r \<in> set (schedules s)"
  shows "\<exists>r'\<in>set (schedules s'). sch_id r' = sch_id r \<and> sch_enabled r' = sch_enabled r \<and> sch_next_run r' = sch_next_run r"
    "length (jobs s') = Suc (length (jobs s))"
proof (atomize (full), rule run_schedule_cases [OF assms(1)])
  fix s1 j
  assume h: "insert_job (scheduled_job jid now row) s = Inr s1" "s' = update_schedule (sch_id row) (dispatch_failed now) (save_job j s1)"
  let ?r = "if sch_id r = sch_id row then dispatch_failed now r else r"
  have "?r \<in> set (schedules s')" using assms(2) h insert_job_Inr(3) [OF h(1)] by (auto simp: update_schedule_def row_upd_def)
  moreover have "sch_id ?r = sch_id r \<and> sch_enabled ?r = sch_enabled r \<and> sch_next_run ?r = sch_next_run r" by (simp add: dispatch_failed_def)
  moreover have "length (jobs s') = Suc (length (jobs s))" using h(2) insert_job_Inr(3) [OF h(1)] by simp
  ultimately show "(\<exists>r'\<in>set (schedules s'). sch_id r' = sch_id r \<and> sch_enabled r' = sch_enabled r \<and> sch_next_run r' = sch_next_run r)
    \<and> length (jobs s') = Suc (length (jobs s))" by blast
qed simp_all

text \<open>Creation writes a domain in lower case and allows an underscore in it; an update does neither.\<close>

lemma update_checks_target_differently:
  "create_target ''domain'' ''API.example.com'' = Inr ''api.example.com''" "create_target ''domain'' ''a_b.example.com'' = Inr ''a_b.example.com''"
  "target_pattern ''API.example.com''" "\<not> target_pattern ''a_b.example.com''" "target_pattern ''10.0.0.999''"
  by code_simp+

end
