(* ===== verification/RateLimit.thy ===== *)
theory RateLimit
  imports Prelude
begin

text \<open>
  Request limits: the limiter of a route (\<open>middleware/rate_limit.py\<close>) and the middleware in front of the API, which checks an
  API key and counts requests per address and per key (\<open>middleware/auth.py\<close>). The counters live in Redis: a map from keys to a
  count and an expiry, in microseconds. Each command may fail; the arguments \<open>up\<close> say which of them succeed.
\<close>

subsection \<open>Counters\<close>

type_synonym counters = "string \<Rightarrow> (int \<times> int option) option"

definition counter_at :: "int \<Rightarrow> string \<Rightarrow> counters \<Rightarrow> (int \<times> int option) option" where
  "counter_at t k R = (case R k of Some (n, Some e) \<Rightarrow> if e \<le> t then None else Some (n, Some e) | x \<Rightarrow> x)"

definition incr :: "string \<Rightarrow> int \<Rightarrow> counters \<Rightarrow> int \<times> counters" where
  "incr k t R = (case counter_at t k R of None \<Rightarrow> (1, R(k \<mapsto> (1, None))) | Some (n, e) \<Rightarrow> (n + 1, R(k \<mapsto> (n + 1, e))))"

definition expire_in :: "string \<Rightarrow> int \<Rightarrow> int \<Rightarrow> counters \<Rightarrow> counters" where
  "expire_in k secs t R = (case counter_at t k R of None \<Rightarrow> R | Some (n, _) \<Rightarrow> R(k \<mapsto> (n, Some (t + secs * 1000000))))"

definition ttl :: "string \<Rightarrow> int \<Rightarrow> counters \<Rightarrow> int" where   \<comment> \<open>seconds, rounded; -1 without an expiry, -2 without the key\<close>
  "ttl k t R = (case counter_at t k R of None \<Rightarrow> -2 | Some (_, None) \<Rightarrow> -1
     | Some (_, Some e) \<Rightarrow> ((e - t) div 1000 + 500) div 1000)"

definition RedisError :: error where "RedisError = PyError ''RedisError''"

text \<open>\<open>INCR\<close>, then \<open>EXPIRE\<close> for a new key: the pair the limiter and the three checks of the middleware share.\<close>

definition count_request :: "(nat \<Rightarrow> bool) \<Rightarrow> string \<Rightarrow> int \<Rightarrow> int \<Rightarrow> counters \<Rightarrow> int result \<times> counters" where
  "count_request up key window t R =
     (if \<not> up 0 then (Inl RedisError, R)
      else case incr key t R of (n, R1) \<Rightarrow>
        if n \<noteq> 1 then (Inr n, R1)
        else if \<not> up 1 then (Inl RedisError, R1)
        else (Inr n, expire_in key window t R1))"

subsection \<open>The limiter of a route\<close>

record limiter =
  lim_max :: int
  lim_window :: int
  lim_prefix :: string
  lim_bypass :: bool

record limited_request =
  rq_method :: string
  rq_path :: string
  rq_ip :: "string option"
  rq_api_key :: "string option"
  rq_authorization :: "string option"
  rq_e2e :: "string option"

definition header_set :: "string option \<Rightarrow> bool" where "header_set h \<longleftrightarrow> h \<noteq> None \<and> h \<noteq> Some []"

definition client_ip :: "limited_request \<Rightarrow> string" where
  "client_ip rq = (case rq_ip rq of Some ip \<Rightarrow> ip | None \<Rightarrow> ''unknown'')"

datatype refusal = TooMany (retry_after: int) (limit_of: int) (reset_at: int) | Unavailable

definition limit_key :: "limiter \<Rightarrow> limited_request \<Rightarrow> string" where
  "limit_key lim rq = lim_prefix lim @ '':'' @ client_ip rq"

definition rate_limit :: "limiter \<Rightarrow> (nat \<Rightarrow> bool) \<Rightarrow> limited_request \<Rightarrow> int \<Rightarrow> counters \<Rightarrow> refusal option \<times> counters" where
  "rate_limit lim up rq t R =
     (if lim_bypass lim \<and> header_set (rq_e2e rq) then (None, R)
      else let key = limit_key lim rq in
        case count_request up key (lim_window lim) t R of
          (Inl _, R1) \<Rightarrow> (Some Unavailable, R1)
        | (Inr n, R1) \<Rightarrow>
            if lim_max lim < n then
              let left = (if up 2 then ttl key t R1 else -1); after = (if 0 < left then left else lim_window lim) in
              (Some (TooMany after (lim_max lim) ((t + after * 1000000) div 1000000)), R1)
            else (None, R1))"

subsection \<open>The middleware\<close>

definition starts :: "string \<Rightarrow> string \<Rightarrow> bool" where "starts p s \<longleftrightarrow> take (length p) s = p"

definition EXCLUDED_PATHS :: "string list" where
  "EXCLUDED_PATHS = [''/health'', ''/health/queues'', ''/api/health'', ''/docs'', ''/openapi.json'', ''/redoc'', ''/api/auth/register'',
     ''/api/auth/login'', ''/api/auth/google'', ''/api/auth/google/config'', ''/api/auth/verify-email'', ''/api/auth/refresh'',
     ''/api/auth/forgot-password'', ''/api/auth/reset-password'', ''/api/auth/resend-verification'', ''/api/guard/enroll'',
     ''/api/webhooks/ses'']"

definition is_public :: "string \<Rightarrow> bool" where
  "is_public path \<longleftrightarrow> path \<in> set EXCLUDED_PATHS \<or> starts ''/api/webhooks/payments/'' path \<or> starts ''/ws/'' path
     \<or> starts ''/api/blog'' path \<or> path = ''/blog'' \<or> starts ''/blog/'' path \<or> path \<in> {''/terms'', ''/privacy''}
     \<or> path = ''/sitemap.xml'' \<or> path = ''/status'' \<or> starts ''/status/'' path \<or> path = ''/install/sinexis-install.sh'' \<or> path = ''/''
     \<or> starts ''/api/uptime/heartbeat/'' path \<or> path = ''/api/host/agent/results'' \<or> path = ''/api/host/agent/jobs''
     \<or> path = ''/api/host/agent/watch-sites'' \<or> path = ''/api/host/agent/commands/ack'' \<or> path = ''/api/host/agent/request-scan''
     \<or> path = ''/api/host/agent/waf-events'' \<or> starts ''/v1/'' path \<or> path = ''/v1''"

record platform_key =
  apk_id :: uuid
  apk_hash :: string
  apk_active :: bool
  apk_rate_limit :: int

text \<open>What reaches the route, with the rate headers the answer will carry (limit, remaining, reset), or the answer.\<close>

datatype gate = Forward "(int \<times> int \<times> int) option" | Deny nat string

definition IP_LIMIT :: int where "IP_LIMIT = 300"

definition check_rate_and_forward ::
    "(nat \<Rightarrow> bool) \<Rightarrow> limited_request \<Rightarrow> string \<Rightarrow> int \<Rightarrow> int \<Rightarrow> counters \<Rightarrow> gate \<times> counters" where
  "check_rate_and_forward up rq key_id limit t R =
     (if header_set (rq_e2e rq) then (Forward (Some (limit, limit, 0)), R)
      else case count_request up (''ratelimit:key:'' @ key_id) 3600 t R of
        (Inl _, R1) \<Rightarrow> (Deny 503 ''Service temporarily unavailable. Rate limit infrastructure down.'', R1)
      | (Inr n, R1) \<Rightarrow>
          if limit < n then (Deny 429 (''Rate limit exceeded. Max '' @ show_int limit @ '' requests/hour.''), R1)
          else (Forward (Some (limit, max 0 (limit - n), t div 1000000 + 3600)), R1))"

definition jwt_rate_limit :: "int \<Rightarrow> int \<Rightarrow> (nat \<Rightarrow> bool) \<Rightarrow> limited_request \<Rightarrow> int \<Rightarrow> counters \<Rightarrow> gate \<times> counters" where
  "jwt_rate_limit limit window up rq t R =
     (if header_set (rq_e2e rq) then (Forward None, R)
      else case count_request up (''ratelimit:jwt:'' @ client_ip rq) window t R of
        (Inl _, R1) \<Rightarrow> (Deny 503 ''Service temporarily unavailable. Rate limit infrastructure down.'', R1)
      | (Inr n, R1) \<Rightarrow>
          if limit < n then (Deny 429 ''Too many requests. Try again later.'', R1)
          else (Forward (Some (limit, max 0 (limit - n), t div 1000000 + window)), R1))"

record middleware =
  mw_master :: string
  mw_jwt_limit :: int
  mw_jwt_window :: int
  mw_keys :: "platform_key list result"      \<comment> \<open>the table, or the failure of its query\<close>
  mw_hash :: "string \<Rightarrow> string"          \<comment> \<open>\<open>hash_key\<close>\<close>
  mw_str :: "uuid \<Rightarrow> string"

text \<open>The checks that follow the count of the address; \<open>up\<close> from its third command.\<close>

definition check_api_key :: "middleware \<Rightarrow> (nat \<Rightarrow> bool) \<Rightarrow> limited_request \<Rightarrow> string \<Rightarrow> int \<Rightarrow> counters \<Rightarrow> gate \<times> counters" where
  "check_api_key mw up rq key t R =
     (if key = mw_master mw then check_rate_and_forward up rq ''__master__'' 1000 t R
      else case ebind (mw_keys mw) (\<lambda>ks. scalar_one_or_none (filter (\<lambda>k. apk_hash k = mw_hash mw key) ks)) of
        Inl _ \<Rightarrow> (Deny 401 ''Invalid API key'', R)
      | Inr None \<Rightarrow> (Deny 401 ''Invalid API key'', R)
      | Inr (Some k) \<Rightarrow>
          if \<not> apk_active k then (Deny 401 ''API key is revoked'', R)
          else check_rate_and_forward up rq (mw_str mw (apk_id k)) (apk_rate_limit k) t R)"

definition dispatch :: "middleware \<Rightarrow> (nat \<Rightarrow> bool) \<Rightarrow> limited_request \<Rightarrow> int \<Rightarrow> counters \<Rightarrow> gate \<times> counters" where
  "dispatch mw up rq t R =
     (if is_public (rq_path rq) \<or> rq_method rq = ''OPTIONS'' then (Forward None, R)
      else if \<not> header_set (rq_api_key rq) then
        (if starts ''Bearer '' (case rq_authorization rq of None \<Rightarrow> [] | Some a \<Rightarrow> a)
         then jwt_rate_limit (mw_jwt_limit mw) (mw_jwt_window mw) up rq t R
         else (Deny 401 ''Missing API key'', R))
      else let key = the (rq_api_key rq) in
        if header_set (rq_e2e rq) then check_api_key mw up rq key t R
        else case count_request up (''ratelimit:ip:'' @ client_ip rq) 3600 t R of
          (Inl _, R1) \<Rightarrow> (Deny 503 ''Service temporarily unavailable. Rate limit infrastructure down.'', R1)
        | (Inr n, R1) \<Rightarrow>
            if IP_LIMIT < n then (Deny 429 ''IP rate limit exceeded. Max 300 requests/hour.'', R1)
            else check_api_key mw (\<lambda>i. up (i + 2)) rq key t R1)"

subsection \<open>A window admits exactly its limit\<close>

text \<open>The requests of one address at the given instants, one after the other, with Redis up.\<close>

fun serve :: "limiter \<Rightarrow> limited_request \<Rightarrow> int list \<Rightarrow> counters \<Rightarrow> bool list" where
  "serve lim rq [] R = []"
| "serve lim rq (t # ts) R = (case rate_limit lim (\<lambda>_. True) rq t R of (r, R1) \<Rightarrow> (r = None) # serve lim rq ts R1)"

lemma rate_limit_counted:
  assumes "\<not> header_set (rq_e2e rq)" "counter_at t (limit_key lim rq) R = Some (n, e)" "n \<noteq> 0"
  shows "fst (rate_limit lim (\<lambda>_. True) rq t R) = None \<longleftrightarrow> n < lim_max lim"
    "snd (rate_limit lim (\<lambda>_. True) rq t R) = R(limit_key lim rq \<mapsto> (n + 1, e))"
  using assms by (auto simp: rate_limit_def count_request_def incr_def Let_def)

lemma rate_limit_fresh:
  assumes "\<not> header_set (rq_e2e rq)" "counter_at t (limit_key lim rq) R = None" "0 < lim_window lim"
  shows "fst (rate_limit lim (\<lambda>_. True) rq t R) = None \<longleftrightarrow> 1 \<le> lim_max lim"
    "snd (rate_limit lim (\<lambda>_. True) rq t R) = R(limit_key lim rq \<mapsto> (1, Some (t + lim_window lim * 1000000)))"
  using assms by (auto simp: rate_limit_def count_request_def incr_def expire_in_def counter_at_def Let_def
    split: option.splits)

lemma serve_counted:
  assumes "\<not> header_set (rq_e2e rq)" "R (limit_key lim rq) = Some (n, Some e)" "0 < n" "\<forall>t\<in>set ts. t < e"
  shows "serve lim rq ts R = map (\<lambda>i. n + int i < lim_max lim) [0..<length ts]"
  using assms(2,3,4)
proof (induction ts arbitrary: R n)
  case (Cons t ts)
  have c: "counter_at t (limit_key lim rq) R = Some (n, Some e)" using Cons.prems by (simp add: counter_at_def)
  have ne: "n \<noteq> 0" using Cons.prems(2) by simp
  note step = rate_limit_counted [OF assms(1) c ne]
  have "serve lim rq ts (R(limit_key lim rq \<mapsto> (n + 1, Some e))) = map (\<lambda>i. n + 1 + int i < lim_max lim) [0..<length ts]"
    using Cons.prems by (intro Cons.IH) simp_all
  also have "\<dots> = map ((\<lambda>i. n + int i < lim_max lim) \<circ> Suc) [0..<length ts]" by (simp add: add.assoc)
  finally show ?case using step
    by (simp add: case_prod_beta upt_conv_Cons map_Suc_upt [symmetric] del: upt_Suc)
qed simp


definition login_limiter :: limiter where
  "login_limiter = \<lparr>lim_max = 5, lim_window = 60, lim_prefix = ''ratelimit:login'', lim_bypass = True\<rparr>"

definition plain_request :: limited_request where
  "plain_request = \<lparr>rq_method = ''POST'', rq_path = ''/api/auth/login'', rq_ip = Some ''10.0.0.9'', rq_api_key = None,
     rq_authorization = None, rq_e2e = None\<rparr>"


subsection \<open>Where the code does not do what it means to\<close>

text \<open>If Redis fails between \<open>INCR\<close> and \<open>EXPIRE\<close>, the counter has no expiry, and nothing gives it one later: the address is
  refused for ever once the limit is used up.\<close>

lemma lost_expiry_blocks_for_ever:
  assumes "\<not> header_set (rq_e2e rq)" "R (limit_key lim rq) = Some (n, None)" "0 < n" "lim_max lim \<le> n"
  shows "list_all Not (serve lim rq ts R)"
  using assms(2-4)
proof (induction ts arbitrary: R n)
  case (Cons t ts)
  have c: "counter_at t (limit_key lim rq) R = Some (n, None)" using Cons.prems(1) by (simp add: counter_at_def)
  have ne: "n \<noteq> 0" using Cons.prems(2) by simp
  note step = rate_limit_counted [OF assms(1) c ne]
  have "list_all Not (serve lim rq ts (R(limit_key lim rq \<mapsto> (n + 1, None))))"
    using Cons.prems by (intro Cons.IH [of _ "n + 1"]) simp_all
  with step Cons.prems(3) show ?case by (simp add: case_prod_beta)
qed simp

lemma failed_expire_leaves_no_expiry:
  assumes "\<not> header_set (rq_e2e rq)" "counter_at t (limit_key lim rq) R = None"
  shows "rate_limit lim (\<lambda>i. i = 0) rq t R = (Some Unavailable, R(limit_key lim rq \<mapsto> (1, None)))"
  using assms by (auto simp: rate_limit_def count_request_def incr_def Let_def)

text \<open>A header meant for the end-to-end tests switches off every limit, in any environment: whoever sends it is not counted.\<close>

lemma test_header_lifts_limits:
  assumes "header_set (rq_e2e rq)" "lim_bypass lim"
  shows "rate_limit lim up rq t R = (None, R)"
    "jwt_rate_limit limit window up rq t R = (Forward None, R)"
    "check_rate_and_forward up rq key_id limit t R = (Forward (Some (limit, limit, 0)), R)"
  using assms by (simp_all add: rate_limit_def jwt_rate_limit_def check_rate_and_forward_def)

text \<open>Without an API key it is enough that an authorization header starts with \<open>Bearer\<close>: the middleware does not look at the token.\<close>

lemma any_bearer_is_forwarded:
  assumes "rq_api_key rq = None" "rq_authorization rq = Some (''Bearer '' @ token)" "\<not> header_set (rq_e2e rq)"
    "counter_at t (''ratelimit:jwt:'' @ client_ip rq) R = None" "1 \<le> mw_jwt_limit mw"
  shows "\<exists>h R'. dispatch mw (\<lambda>_. True) rq t R = (Forward h, R')"
  using assms by (auto simp: dispatch_def header_set_def starts_def jwt_rate_limit_def count_request_def incr_def)

text \<open>Every request that is not public and comes without a key and without a bearer token is refused; a key that is not the master
  key must be an active key of the table.\<close>

lemma forwarded_has_credentials:
  assumes "dispatch mw up rq t R = (Forward h, R')" "\<not> is_public (rq_path rq)" "rq_method rq \<noteq> ''OPTIONS''"
  shows "starts ''Bearer '' (case rq_authorization rq of None \<Rightarrow> [] | Some a \<Rightarrow> a) \<and> \<not> header_set (rq_api_key rq)
    \<or> (\<exists>key. rq_api_key rq = Some key \<and> (key = mw_master mw
        \<or> (\<exists>ks. mw_keys mw = Inr ks \<and> (\<exists>k\<in>set ks. apk_hash k = mw_hash mw key \<and> apk_active k))))"
proof (cases "header_set (rq_api_key rq)")
  case False
  with assms show ?thesis by (auto simp: dispatch_def split: if_splits)
next
  case True
  then obtain key where key: "rq_api_key rq = Some key" by (auto simp: header_set_def)
  have "\<exists>up' R1. check_api_key mw up' rq key t R1 = (Forward h, R')"
    using assms True key by (auto simp: dispatch_def Let_def split: if_splits sum.splits prod.splits)
  then obtain up' R1 where c: "check_api_key mw up' rq key t R1 = (Forward h, R')" by blast
  have "key = mw_master mw \<or> (\<exists>ks. mw_keys mw = Inr ks \<and> (\<exists>k\<in>set ks. apk_hash k = mw_hash mw key \<and> apk_active k))"
  proof (cases "key = mw_master mw")
    case False
    with c obtain ks k where k: "mw_keys mw = Inr ks" "scalar_one_or_none (filter (\<lambda>k. apk_hash k = mw_hash mw key) ks) = Inr (Some k)" "apk_active k"
      by (auto simp: check_api_key_def errs split: sum.splits option.splits if_splits)
    then have "filter (\<lambda>k. apk_hash k = mw_hash mw key) ks = [k]" by (simp add: errs)
    then have "k \<in> set (filter (\<lambda>k. apk_hash k = mw_hash mw key) ks)" by simp
    then have "k \<in> set ks \<and> apk_hash k = mw_hash mw key" by simp
    with k show ?thesis by blast
  qed simp
  with key show ?thesis by blast
qed

end
