(* ===== verification/Auth.thy ===== *)
theory Auth
  imports Scans "HOL-Library.AList"
begin

text \<open>
  Accounts and tokens: passwords, the tokens a client holds, their revocation and who a request is from
  (\<open>services/auth.py\<close>). SHA-256, bcrypt and the JWT signature are parameters. A process keeps what it knows to be revoked in memory;
  Redis holds it for all processes, with an expiry. The columns of a user that only this part reads are a row of their own.
\<close>

subsection \<open>Passwords\<close>

record crypto =
  digest :: "string \<Rightarrow> string"                       \<comment> \<open>\<open>_password_digest\<close>\<close>
  hashpw :: "string \<Rightarrow> string \<Rightarrow> string"              \<comment> \<open>\<open>bcrypt.hashpw\<close>: password, salt\<close>
  checkpw :: "string \<Rightarrow> string \<Rightarrow> bool result"        \<comment> \<open>\<open>bcrypt.checkpw\<close>: password, hash\<close>

definition hash_password :: "crypto \<Rightarrow> string \<Rightarrow> string \<Rightarrow> string" where
  "hash_password c salt password = hashpw c (digest c password) salt"

definition false_on_ValueError :: "bool result \<Rightarrow> bool result" where
  "false_on_ValueError r = (case r of Inl (ValueError _) \<Rightarrow> Inr False | x \<Rightarrow> x)"

definition verify_password :: "crypto \<Rightarrow> string \<Rightarrow> string option \<Rightarrow> bool result" where
  "verify_password c plain hashed = (case hashed of
     None \<Rightarrow> Inr False
   | Some h \<Rightarrow> if h = [] then Inl (ValueError ''Invalid password hash'')
       else ebind (checkpw c (digest c plain) h) (\<lambda>ok. if ok then Inr True else false_on_ValueError (checkpw c plain h)))"

definition password_needs_rehash :: "crypto \<Rightarrow> string \<Rightarrow> string \<Rightarrow> bool result" where
  "password_needs_rehash c plain h =
     (if h = [] then Inr False
      else case checkpw c (digest c plain) h of
        Inl (ValueError _) \<Rightarrow> Inr False
      | Inl e \<Rightarrow> Inl e
      | Inr ok \<Rightarrow> if ok then Inr False else false_on_ValueError (checkpw c plain h))"

subsection \<open>Tokens\<close>

record claims =
  cl_sub :: "string option"
  cl_type :: "string option"
  cl_exp :: "int option"             \<comment> \<open>seconds\<close>
  cl_jti :: "string option"
  cl_org :: "string option"
  cl_email :: "string option"
  cl_admin :: bool

record auth_settings =
  access_minutes :: int
  refresh_days :: int
  register_credits :: int
  google_client_id :: string

record jwt =
  jwt_encode :: "claims \<Rightarrow> string"
  jwt_open :: "string \<Rightarrow> claims option"   \<comment> \<open>the payload, if the signature is that of the secret\<close>

definition PyJWTError :: "string \<Rightarrow> error" where "PyJWTError m = PyError (''PyJWTError: '' @ m)"
definition AuthRedisError :: error where "AuthRedisError = PyError ''RedisError''"

definition jwt_decode :: "jwt \<Rightarrow> string \<Rightarrow> datetime \<Rightarrow> claims result" where
  "jwt_decode J token now = (case jwt_open J token of
     None \<Rightarrow> Inl (PyJWTError ''Signature verification failed'')
   | Some c \<Rightarrow> if (case cl_exp c of None \<Rightarrow> False | Some e \<Rightarrow> e * 1000000 \<le> now) then Inl (PyJWTError ''Signature has expired'') else Inr c)"

definition access_claims :: "auth_settings \<Rightarrow> string \<Rightarrow> string \<Rightarrow> bool \<Rightarrow> string option \<Rightarrow> string \<Rightarrow> datetime \<Rightarrow> claims" where
  "access_claims cfg uid email is_admin oid jti now =
     \<lparr>cl_sub = Some uid, cl_type = Some ''access'', cl_exp = Some ((now + access_minutes cfg * 60 * 1000000) div 1000000),
      cl_jti = Some jti, cl_org = oid, cl_email = Some email, cl_admin = is_admin\<rparr>"

definition create_access_token :: "jwt \<Rightarrow> auth_settings \<Rightarrow> string \<Rightarrow> string \<Rightarrow> bool \<Rightarrow> string option \<Rightarrow> string \<Rightarrow> datetime \<Rightarrow> string" where
  "create_access_token J cfg uid email is_admin oid jti now = jwt_encode J (access_claims cfg uid email is_admin oid jti now)"

definition refresh_claims :: "auth_settings \<Rightarrow> string \<Rightarrow> string \<Rightarrow> datetime \<Rightarrow> claims" where
  "refresh_claims cfg uid jti now =
     \<lparr>cl_sub = Some uid, cl_type = Some ''refresh'', cl_exp = Some ((now + refresh_days cfg * 86400 * 1000000) div 1000000),
      cl_jti = Some jti, cl_org = None, cl_email = None, cl_admin = False\<rparr>"

definition create_refresh_token :: "jwt \<Rightarrow> auth_settings \<Rightarrow> string \<Rightarrow> string \<Rightarrow> datetime \<Rightarrow> string" where
  "create_refresh_token J cfg uid jti now = jwt_encode J (refresh_claims cfg uid jti now)"

subsection \<open>Revocation\<close>

record auth_cache =
  rev_tokens :: "(string \<times> string) list"   \<comment> \<open>\<open>_revoked_tokens\<close>: id of a token, user\<close>
  rev_users :: "string list"                \<comment> \<open>\<open>_revoked_users\<close>\<close>

datatype rv_key = RevokedToken string | RevokedUser string

type_synonym rv_redis = "rv_key \<Rightarrow> (string \<times> datetime) option"

definition rv_get :: "rv_key \<Rightarrow> datetime \<Rightarrow> rv_redis \<Rightarrow> string option" where
  "rv_get k now R = (case R k of Some (v, e) \<Rightarrow> if e \<le> now then None else Some v | None \<Rightarrow> None)"

definition REVOKE_TTL :: "auth_settings \<Rightarrow> int" where
  "REVOKE_TTL cfg = max (access_minutes cfg * 60) (refresh_days cfg * 86400)"

definition rv_set :: "auth_settings \<Rightarrow> rv_key \<Rightarrow> string \<Rightarrow> datetime \<Rightarrow> rv_redis \<Rightarrow> rv_redis" where
  "rv_set cfg k v now R = R(k \<mapsto> (v, now + REVOKE_TTL cfg * 1000000))"

definition cache_token :: "string \<Rightarrow> string \<Rightarrow> auth_cache \<Rightarrow> auth_cache" where
  "cache_token jti uid c = c\<lparr>rev_tokens := AList.update jti uid (rev_tokens c)\<rparr>"

definition cache_user :: "string \<Rightarrow> auth_cache \<Rightarrow> auth_cache" where
  "cache_user uid c = c\<lparr>rev_users := List.insert uid (rev_users c)\<rparr>"

definition is_token_revoked :: "string \<Rightarrow> auth_cache \<Rightarrow> bool" where
  "is_token_revoked jti c \<longleftrightarrow> jti \<in> fst ` set (rev_tokens c)"

definition decode_jwt_and_cache :: "jwt \<Rightarrow> auth_cache \<Rightarrow> string \<Rightarrow> datetime \<Rightarrow> claims result" where
  "decode_jwt_and_cache J c token now =
     ebind (jwt_decode J token now) (\<lambda>p.
     ebind (raise_if (case cl_jti p of None \<Rightarrow> False | Some j \<Rightarrow> is_token_revoked j c) (PyJWTError ''Token has been revoked'')) (\<lambda>_.
     ebind (raise_if (case cl_sub p of None \<Rightarrow> False | Some u \<Rightarrow> u \<in> set (rev_users c))
       (PyJWTError ''Token has been revoked (user logged out)'')) (\<lambda>_. Inr p)))"

text \<open>The two lookups; \<open>up1\<close> and \<open>up2\<close> say whether each of them is answered.\<close>

definition check_redis_revocation ::
    "bool \<Rightarrow> bool \<Rightarrow> string option \<Rightarrow> string option \<Rightarrow> datetime \<Rightarrow> rv_redis \<Rightarrow> auth_cache \<Rightarrow> unit result \<times> auth_cache" where
  "check_redis_revocation up1 up2 jti sub now R c =
     (let by_user = (case sub of None \<Rightarrow> (Inr (), c)
        | Some u \<Rightarrow> if \<not> up2 then (Inl AuthRedisError, c)
            else (case rv_get (RevokedUser u) now R of None \<Rightarrow> (Inr (), c)
              | Some _ \<Rightarrow> (Inl (PyJWTError ''Token has been revoked (user logged out)''), cache_user u c)))
      in case jti of None \<Rightarrow> by_user
        | Some j \<Rightarrow> if \<not> up1 then (Inl AuthRedisError, c)
            else (case rv_get (RevokedToken j) now R of None \<Rightarrow> by_user
              | Some u \<Rightarrow> (Inl (PyJWTError ''Token has been revoked''), cache_token j u c)))"

definition decode_token :: "bool \<Rightarrow> bool \<Rightarrow> jwt \<Rightarrow> string \<Rightarrow> datetime \<Rightarrow> rv_redis \<Rightarrow> auth_cache \<Rightarrow> claims result \<times> auth_cache" where
  "decode_token up1 up2 J token now R c = (case decode_jwt_and_cache J c token now of
     Inl e \<Rightarrow> (Inl e, c)
   | Inr p \<Rightarrow> (Inr p, snd (check_redis_revocation up1 up2 (cl_jti p) (cl_sub p) now R c)))"

definition decode_token_async ::
    "bool \<Rightarrow> bool \<Rightarrow> jwt \<Rightarrow> string \<Rightarrow> datetime \<Rightarrow> rv_redis \<Rightarrow> auth_cache \<Rightarrow> claims result \<times> auth_cache" where
  "decode_token_async up1 up2 J token now R c = (case decode_jwt_and_cache J c token now of
     Inl e \<Rightarrow> (Inl e, c)
   | Inr p \<Rightarrow> if cl_jti p = None \<and> cl_sub p = None then (Inr p, c)
       else (case check_redis_revocation up1 up2 (cl_jti p) (cl_sub p) now R c of
         (Inl e, c') \<Rightarrow> (if e = AuthRedisError then Inr p else Inl e, c')
       | (Inr _, c') \<Rightarrow> (Inr p, c')))"

definition revoke_token :: "auth_settings \<Rightarrow> bool \<Rightarrow> string \<Rightarrow> string \<Rightarrow> datetime \<Rightarrow> rv_redis \<times> auth_cache \<Rightarrow> rv_redis \<times> auth_cache" where
  "revoke_token cfg up jti uid now st = (case st of (R, c) \<Rightarrow>
     (if up then rv_set cfg (RevokedToken jti) uid now R else R, cache_token jti uid c))"

definition logout_all ::
    "auth_settings \<Rightarrow> bool \<Rightarrow> string \<Rightarrow> datetime \<Rightarrow> rv_redis \<times> auth_cache \<Rightarrow> nat \<times> rv_redis \<times> auth_cache" where
  "logout_all cfg up uid now st = (case st of (R, c) \<Rightarrow>
     (count_where (\<lambda>x. snd x = uid) (rev_tokens c),
      if up then rv_set cfg (RevokedUser uid) ''1'' now R else R, cache_user uid c))"

subsection \<open>Accounts\<close>

record credential =
  cre_user :: uuid
  cre_hash :: string
  cre_google :: "string option"
  cre_verified_at :: "datetime option"
  cre_last_login :: "datetime option"

record mail_token =     \<comment> \<open>\<open>EmailVerificationToken\<close>, \<open>PasswordResetToken\<close>\<close>
  mtk_user :: uuid
  mtk_token :: string
  mtk_expires :: datetime

record auth_db =
  au_core :: db
  credentials :: "credential list"
  email_tokens :: "mail_token list"
  reset_tokens :: "mail_token list"
  au_credit_logs :: "credit_log list"

definition user_by_email :: "auth_db \<Rightarrow> string \<Rightarrow> user option" where
  "user_by_email s email = row_get user_email email (users (au_core s))"

definition user_by_id :: "auth_db \<Rightarrow> uuid \<Rightarrow> user option" where
  "user_by_id s uid = row_get user_id uid (users (au_core s))"

definition credential_of :: "auth_db \<Rightarrow> uuid \<Rightarrow> credential option" where
  "credential_of s uid = row_get cre_user uid (credentials s)"

definition set_core :: "db \<Rightarrow> auth_db \<Rightarrow> auth_db" where "set_core d s = s\<lparr>au_core := d\<rparr>"

definition user_row_ok :: "user \<Rightarrow> bool" where
  "user_row_ok u \<longleftrightarrow> 0 \<le> user_credits u \<and> user_locale u \<in> {''id'', ''en''}"

text \<open>The two halves of a new row, with its unique columns.\<close>

definition insert_account :: "user \<Rightarrow> credential \<Rightarrow> auth_db \<Rightarrow> auth_db result" where
  "insert_account u c s =
     (if user_id u \<notin> user_id ` set (users (au_core s)) \<and> user_email u \<notin> user_email ` set (users (au_core s))
         \<and> (cre_google c = None \<or> cre_google c \<notin> cre_google ` set (credentials s)) \<and> user_row_ok u
      then Inr (s\<lparr>au_core := (au_core s)\<lparr>users := users (au_core s) @ [u]\<rparr>, credentials := credentials s @ [c]\<rparr>)
      else Inl IntegrityError)"

definition save_account :: "user \<Rightarrow> auth_db \<Rightarrow> auth_db" where
  "save_account u s = set_core (save_user u (au_core s)) s"

definition insert_mail_token :: "mail_token \<Rightarrow> mail_token list \<Rightarrow> mail_token list result" where
  "insert_mail_token t ts = (if mtk_user t \<notin> mtk_user ` set ts \<and> mtk_token t \<notin> mtk_token ` set ts
     then Inr (ts @ [t]) else Inl IntegrityError)"

subsection \<open>The user of a request\<close>

text \<open>What a call draws: ids, a random tail, random texts.\<close>

record draws =
  dr_user :: uuid
  dr_org :: uuid
  dr_member :: uuid
  dr_tail :: string
  dr_token :: string
  dr_password :: string
  dr_salt :: string
  dr_access_jti :: string
  dr_refresh_jti :: string

definition split_first :: "char \<Rightarrow> string \<Rightarrow> string \<times> string" where   \<comment> \<open>\<open>partition\<close>, without the separator\<close>
  "split_first ch s = (takeWhile (\<lambda>c. c \<noteq> ch) s, drop 1 (dropWhile (\<lambda>c. c \<noteq> ch) s))"

definition bearer_token :: "string option \<Rightarrow> string result" where
  "bearer_token header =
     ebind (raise_if (header = None \<or> header = Some []) (ApiError 401 ''auth_missing_token'' ''Missing Authorization header'')) (\<lambda>_.
     case split_first (CHR '' '') (the header) of (scheme, token) \<Rightarrow>
       ebind (raise_if (lower scheme \<noteq> ''bearer'' \<or> token = [])
         (HTTPError 401 ''Invalid Authorization header format. Expected: Bearer <token>'')) (\<lambda>_. Inr token))"

definition user_of_claims :: "(string \<Rightarrow> uuid option) \<Rightarrow> auth_db \<Rightarrow> claims \<Rightarrow> user result" where
  "user_of_claims parse s p =
     ebind (raise_if (cl_type p \<noteq> Some ''access'') (HTTPError 401 ''Invalid token type: access token required'')) (\<lambda>_.
     ebind (raise_if (cl_sub p = None \<or> cl_sub p = Some []) (HTTPError 401 ''Token missing subject claim'')) (\<lambda>_.
     ebind (get_or (HTTPError 401 ''Invalid user identifier in token'') (parse (the (cl_sub p)))) (\<lambda>uid.
     get_or (HTTPError 401 ''User not found'') (user_by_id s uid))))"

definition claimed_org :: "(string \<Rightarrow> uuid option) \<Rightarrow> auth_db \<Rightarrow> user \<Rightarrow> string \<Rightarrow> (uuid \<times> role) result" where
  "claimed_org parse s u raw =
     ebind (get_or (HTTPError 401 ''Invalid organization identifier in token'') (parse raw)) (\<lambda>oid.
     ebind (get_or (HTTPError 401 ''Token organization is not a current membership'') (get_membership (au_core s) oid (user_id u))) (\<lambda>m.
     Inr (oid, mem_role m)))"

text \<open>Without an organization in the token the default is used; a user without any gets a personal one.\<close>

definition default_org :: "draws \<Rightarrow> datetime \<Rightarrow> auth_db \<Rightarrow> user \<Rightarrow> (uuid \<times> auth_db) result" where
  "default_org dr now s u = (case resolve_default_org_id (au_core s) u of
     Some oid \<Rightarrow> Inr (oid, s)
   | None \<Rightarrow> ebind (ensure_personal_org (dr_org dr) (dr_member dr) (dr_tail dr) u now (au_core s)) (\<lambda>(r, d).
       Inr (org_id r, set_core d s)))"

definition active_org ::
    "(string \<Rightarrow> uuid option) \<Rightarrow> draws \<Rightarrow> datetime \<Rightarrow> auth_db \<Rightarrow> user \<Rightarrow> string option \<Rightarrow> ((uuid \<times> role option) \<times> auth_db) result" where
  "active_org parse dr now s u raw =
     (if raw \<noteq> None \<and> strip (the raw) \<noteq> [] then ebind (claimed_org parse s u (the raw)) (\<lambda>(oid, r). Inr ((oid, Some r), s))
      else ebind (default_org dr now s u) (\<lambda>(oid, s'). Inr ((oid, map_option mem_role (get_membership (au_core s') oid (user_id u))), s')))"

text \<open>The lookup in Redis may change the cache also when the request is refused.\<close>

definition get_current_user ::
    "jwt \<Rightarrow> (string \<Rightarrow> uuid option) \<Rightarrow> bool \<Rightarrow> bool \<Rightarrow> draws \<Rightarrow> string option \<Rightarrow> datetime \<Rightarrow> rv_redis \<Rightarrow> auth_cache \<Rightarrow> auth_db
      \<Rightarrow> ((user \<times> uuid \<times> role option) \<times> auth_db) result \<times> auth_cache" where
  "get_current_user J parse up1 up2 dr header now R c s = (case bearer_token header of
     Inl e \<Rightarrow> (Inl e, c)
   | Inr token \<Rightarrow> (case decode_token_async up1 up2 J token now R c of
       (Inl e, c') \<Rightarrow> (Inl (ApiError 401 ''auth_invalid_token'' ''Invalid or expired token''), c')
     | (Inr p, c') \<Rightarrow> (ebind (user_of_claims parse s p) (\<lambda>u.
         ebind (active_org parse dr now s u (cl_org p)) (\<lambda>((oid, r), s'). Inr ((u, oid, r), s'))), c')))"

definition get_current_admin :: "user \<Rightarrow> user result" where
  "get_current_admin u = ebind (raise_if (\<not> user_is_admin u) (HTTPError 403 ''Admin access required'')) (\<lambda>_. Inr u)"

end
