(* ===== verification/AuthRoutes.thy ===== *)
theory AuthRoutes
  imports Auth
begin

text \<open>
  The handlers of \<open>api/auth_routes.py\<close> behind their limiters (theory \<open>RateLimit\<close>), with the request bodies of
  \<open>schemas/auth.py\<close> and the check of a Google token (\<open>services/google_oauth.py\<close>). Whether a mail could be sent is an argument; the
  text of an answer is left out, its \<open>email_sent\<close> is kept.
\<close>

subsection \<open>Request bodies\<close>

definition in_range :: "nat \<Rightarrow> nat \<Rightarrow> char \<Rightarrow> bool" where
  "in_range a b c = (let n = of_char c :: nat in a \<le> n \<and> n \<le> b)"

definition SPECIAL_CHARS :: "char list" where
  "SPECIAL_CHARS = ''!@#$%^&*()-_=+[]{}|;:'' @ [CHR 0x27] @ '',.<>?/~`'' @ [CHR 0x22]"

definition validate_password_strength :: "string \<Rightarrow> string result" where
  "validate_password_strength v =
     ebind (raise_if (\<not> list_ex (in_range 65 90) v) (PyError ''password_uppercase'')) (\<lambda>_.
     ebind (raise_if (\<not> list_ex (in_range 97 122) v) (PyError ''password_lowercase'')) (\<lambda>_.
     ebind (raise_if (\<not> list_ex is_digit v) (PyError ''password_digit'')) (\<lambda>_.
     ebind (raise_if (\<not> list_ex (\<lambda>c. c \<in> set SPECIAL_CHARS) v) (PyError ''password_special'')) (\<lambda>_. Inr v))))"

definition new_password_field :: "string \<Rightarrow> string result" where
  "new_password_field v =
     ebind (raise_if (\<not> (8 \<le> length v \<and> length v \<le> 128)) (PyError ''ValidationError'')) (\<lambda>_. validate_password_strength v)"

subsection \<open>Signing in\<close>

record login_response =
  lr_access :: string
  lr_refresh :: string
  lr_expires_in :: int
  lr_cookie :: "string \<times> int"        \<comment> \<open>value and \<open>max_age\<close>\<close>
  lr_user :: user
  lr_orgs :: "(organization \<times> sku_tier \<times> role) list"
  lr_active :: uuid

definition reload :: "auth_db \<Rightarrow> user \<Rightarrow> user" where
  "reload s u = (case user_by_id s (user_id u) of Some x \<Rightarrow> x | None \<Rightarrow> u)"

definition touch_login :: "uuid \<Rightarrow> datetime \<Rightarrow> auth_db \<Rightarrow> auth_db" where
  "touch_login uid now s = s\<lparr>credentials := row_upd cre_user uid (\<lambda>c. c\<lparr>cre_last_login := Some now\<rparr>) (credentials s)\<rparr>"

text \<open>\<open>ensure_personal_org\<close>, then the organization the tokens will name.\<close>

definition settle_org :: "draws \<Rightarrow> datetime \<Rightarrow> auth_db \<Rightarrow> user \<Rightarrow> (uuid \<times> user \<times> auth_db) result" where
  "settle_org dr now s u =
     ebind (ensure_personal_org (dr_org dr) (dr_member dr) (dr_tail dr) u now (au_core s)) (\<lambda>(personal, d).
     let s1 = set_core d s; u1 = reload s1 u;
         oid = (case resolve_default_org_id d u1 of Some oid \<Rightarrow> oid | None \<Rightarrow> org_id personal) in
     Inr (oid, u1, s1))"

text \<open>\<open>s0\<close> is what is stored before the handler, \<open>s\<close> what it has changed so far; the answer is built after the commit.\<close>

definition issue_login_response ::
    "jwt \<Rightarrow> auth_settings \<Rightarrow> (uuid \<Rightarrow> string) \<Rightarrow> draws \<Rightarrow> datetime \<Rightarrow> auth_db \<Rightarrow> auth_db \<Rightarrow> user \<Rightarrow> login_response result \<times> auth_db" where
  "issue_login_response J cfg str_of dr now s0 s u = (case settle_org dr now s u of
     Inl e \<Rightarrow> (Inl e, s0)
   | Inr (oid, u1, s1) \<Rightarrow>
       let u2 = u1\<lparr>user_last_active := Some oid\<rparr>; s2 = touch_login (user_id u) now (save_account u2 s1);
           refresh = create_refresh_token J cfg (str_of (user_id u)) (dr_refresh_jti dr) now in
       (ebind (list_my_orgs u2 (au_core s2)) (\<lambda>os.
          Inr \<lparr>lr_access = create_access_token J cfg (str_of (user_id u)) (user_email u2) (user_is_admin u2) (Some (str_of oid)) (dr_access_jti dr) now,
            lr_refresh = refresh, lr_expires_in = access_minutes cfg * 60, lr_cookie = (refresh, refresh_days cfg * 86400),
            lr_user = u2, lr_orgs = os, lr_active = oid\<rparr>), s2))"

definition set_password :: "uuid \<Rightarrow> string \<Rightarrow> auth_db \<Rightarrow> auth_db" where
  "set_password uid h s = s\<lparr>credentials := row_upd cre_user uid (\<lambda>c. c\<lparr>cre_hash := h\<rparr>) (credentials s)\<rparr>"

definition check_login :: "crypto \<Rightarrow> draws \<Rightarrow> string \<Rightarrow> string \<Rightarrow> auth_db \<Rightarrow> (user \<times> auth_db) result" where
  "check_login C dr email password s =
     ebind (get_or (HTTPError 401 ''Email atau kata sandi salah'') (user_by_email s email)) (\<lambda>u.
     ebind (verify_password C password (map_option cre_hash (credential_of s (user_id u)))) (\<lambda>ok.
     ebind (raise_if (\<not> ok) (HTTPError 401 ''Email atau kata sandi salah'')) (\<lambda>_.
     ebind (raise_if (\<not> user_is_verified u) (HTTPError 403 ''Email belum diverifikasi'')) (\<lambda>_.
     ebind (password_needs_rehash C password (cre_hash (the (credential_of s (user_id u))))) (\<lambda>stale.
     Inr (u, if stale then set_password (user_id u) (hash_password C (dr_salt dr) password) s else s))))))"

definition login ::
    "crypto \<Rightarrow> jwt \<Rightarrow> auth_settings \<Rightarrow> (uuid \<Rightarrow> string) \<Rightarrow> draws \<Rightarrow> string \<Rightarrow> string \<Rightarrow> datetime \<Rightarrow> auth_db
      \<Rightarrow> login_response result \<times> auth_db" where
  "login C J cfg str_of dr email password now s = (case check_login C dr email password s of
     Inl e \<Rightarrow> (Inl e, s)
   | Inr (u, s1) \<Rightarrow> issue_login_response J cfg str_of dr now s s1 u)"

subsection \<open>Registration\<close>

definition new_account :: "uuid \<Rightarrow> string \<Rightarrow> bool \<Rightarrow> int \<Rightarrow> user" where
  "new_account uid email verified credits = \<lparr>user_id = uid, user_email = email, user_is_verified = verified, user_is_admin = False,
     user_credits = credits, user_locale = ''id'', user_last_active = None\<rparr>"

definition new_credential :: "uuid \<Rightarrow> string \<Rightarrow> string option \<Rightarrow> datetime option \<Rightarrow> credential" where
  "new_credential uid h sub verified_at = \<lparr>cre_user = uid, cre_hash = h, cre_google = sub, cre_verified_at = verified_at, cre_last_login = None\<rparr>"

definition welcome_bonus :: "uuid \<Rightarrow> int \<Rightarrow> datetime \<Rightarrow> credit_log" where
  "welcome_bonus uid amount now = \<lparr>crl_user = uid, crl_amount = amount, crl_kind = ''credit'', crl_description = ''Welcome bonus'',
     crl_reference = None, crl_created_at = now\<rparr>"

definition hours_us :: "int \<Rightarrow> int" where "hours_us n = n * 3600000000"

definition verification_for :: "uuid \<Rightarrow> string \<Rightarrow> datetime \<Rightarrow> mail_token" where
  "verification_for uid token now = \<lparr>mtk_user = uid, mtk_token = token, mtk_expires = now + hours_us 24\<rparr>"

text \<open>The answer says whether the mail was sent; \<open>sent\<close> is \<open>False\<close> also when sending raises.\<close>

definition register ::
    "crypto \<Rightarrow> auth_settings \<Rightarrow> draws \<Rightarrow> string \<Rightarrow> string \<Rightarrow> string \<Rightarrow> bool \<Rightarrow> datetime \<Rightarrow> auth_db \<Rightarrow> (bool \<times> auth_db) result" where
  "register C cfg dr email password confirm sent now s =
     ebind (raise_if (password \<noteq> confirm) (ApiError 400 ''auth_password_mismatch'' ''Kata sandi tidak cocok'')) (\<lambda>_.
     ebind (raise_if (user_by_email s email \<noteq> None) (HTTPError 409 ''Email sudah terdaftar'')) (\<lambda>_.
     let u = new_account (dr_user dr) email False (register_credits cfg) in
     ebind (insert_account u (new_credential (dr_user dr) (hash_password C (dr_salt dr) password) None None) s) (\<lambda>s1.
     ebind (ensure_personal_org (dr_org dr) (dr_member dr) (dr_tail dr) u now (au_core s1)) (\<lambda>(_, d).
     ebind (insert_mail_token (verification_for (dr_user dr) (dr_token dr) now) (email_tokens s1)) (\<lambda>ts.
     Inr (sent, s1\<lparr>au_core := d, email_tokens := ts,
       au_credit_logs := au_credit_logs s1 @ [welcome_bonus (dr_user dr) (register_credits cfg) now]\<rparr>))))))"

text \<open>\<open>verify_google_id_token\<close>: \<open>fetch\<close> answers the status and the decoded body, or fails.\<close>

definition email_asserted :: "json \<Rightarrow> bool" where   \<comment> \<open>\<open>in (True, "true", "1")\<close>; a number one equals \<open>True\<close>\<close>
  "email_asserted v = (case v of JsonBool b \<Rightarrow> b | JsonInt n \<Rightarrow> n = 1 | JsonStr t \<Rightarrow> t \<in> {''true'', ''1''}
     | JsonFloat t \<Rightarrow> (case decimal_of t of None \<Rightarrow> False | Some (m, e) \<Rightarrow> if 0 \<le> e then m * 10 ^ nat e = 1 else m = 10 ^ nat (- e))
     | _ \<Rightarrow> False)"

definition verify_google_id_token ::
    "(json \<Rightarrow> string) \<Rightarrow> auth_settings \<Rightarrow> (string \<Rightarrow> (nat \<times> json_dict) option) \<Rightarrow> string \<Rightarrow> (string \<times> string) result" where
  "verify_google_id_token repr cfg fetch id_token =
     (let client_id = strip (google_client_id cfg); or_empty = (\<lambda>v. if truthy v then py_str repr v else []) in
     ebind (raise_if (client_id = []) (HTTPError 503 ''Google sign-in is not configured'')) (\<lambda>_.
     ebind (get_or (HTTPError 502 ''Could not verify Google token'') (fetch id_token)) (\<lambda>(status, payload).
     ebind (raise_if (status \<noteq> 200) (HTTPError 401 ''Invalid Google token'')) (\<lambda>_.
     ebind (raise_if (jget ''aud'' payload \<noteq> JsonStr client_id) (HTTPError 401 ''Invalid Google token audience'')) (\<lambda>_.
     ebind (raise_if (or_empty (jget ''iss'' payload) \<notin> {''accounts.google.com'', ''https://accounts.google.com''})
       (HTTPError 401 ''Invalid Google token issuer'')) (\<lambda>_.
     let email = lower (strip (or_empty (jget ''email'' payload))); sub = strip (or_empty (jget ''sub'' payload));
         verified = email_asserted (jget ''email_verified'' payload) in
     ebind (raise_if (email = [] \<or> sub = [] \<or> \<not> verified) (HTTPError 401 ''Google account email is not verified'')) (\<lambda>_.
     Inr (sub, email))))))))"

definition link_google :: "string \<Rightarrow> datetime \<Rightarrow> user \<Rightarrow> auth_db \<Rightarrow> user \<times> auth_db" where
  "link_google sub now u s =
     (let u' = u\<lparr>user_is_verified := True\<rparr>; s1 = save_account u' s in
      (u', s1\<lparr>credentials := row_upd cre_user (user_id u) (\<lambda>c. c\<lparr>cre_google := Some sub,
         cre_verified_at := (if user_is_verified u then cre_verified_at c else Some now)\<rparr>) (credentials s1)\<rparr>))"

definition google_account ::
    "crypto \<Rightarrow> auth_settings \<Rightarrow> draws \<Rightarrow> string \<Rightarrow> string \<Rightarrow> datetime \<Rightarrow> auth_db \<Rightarrow> (user \<times> auth_db) result" where
  "google_account C cfg dr sub email now s =
     (case row_get cre_google (Some sub) (credentials s) of
       Some c \<Rightarrow> Inr (the (user_by_id s (cre_user c)), s)
     | None \<Rightarrow> (case user_by_email s email of
         Some u \<Rightarrow> (let g = cre_google (the (credential_of s (user_id u))) in
           ebind (raise_if (g \<noteq> None \<and> g \<noteq> Some [] \<and> g \<noteq> Some sub) (HTTPError 409 ''Email already linked to another Google account'')) (\<lambda>_.
           Inr (link_google sub now u s)))
       | None \<Rightarrow>
           let u = new_account (dr_user dr) email True (register_credits cfg) in
           ebind (insert_account u (new_credential (dr_user dr) (hash_password C (dr_salt dr) (dr_password dr)) (Some sub) (Some now)) s) (\<lambda>s1.
           Inr (u, s1\<lparr>au_credit_logs := au_credit_logs s1 @ [welcome_bonus (dr_user dr) (register_credits cfg) now]\<rparr>))))"

definition google_auth ::
    "(json \<Rightarrow> string) \<Rightarrow> (string \<Rightarrow> (nat \<times> json_dict) option) \<Rightarrow> crypto \<Rightarrow> jwt \<Rightarrow> auth_settings \<Rightarrow> (uuid \<Rightarrow> string) \<Rightarrow> draws \<Rightarrow> string \<Rightarrow> datetime
      \<Rightarrow> auth_db \<Rightarrow> login_response result \<times> auth_db" where
  "google_auth repr fetch C J cfg str_of dr id_token now s =
     (case ebind (verify_google_id_token repr cfg fetch id_token) (\<lambda>(sub, email). google_account C cfg dr sub email now s) of
       Inl e \<Rightarrow> (Inl e, s)
     | Inr (u, s1) \<Rightarrow> issue_login_response J cfg str_of dr now s s1 u)"

subsection \<open>Mailed tokens\<close>

definition verify_email :: "string \<Rightarrow> datetime \<Rightarrow> auth_db \<Rightarrow> auth_db result" where
  "verify_email token now s =
     ebind (get_or (HTTPError 400 ''Token verifikasi tidak valid atau kadaluarsa'') (row_get mtk_token token (email_tokens s))) (\<lambda>t.
     ebind (raise_if (mtk_expires t < now) (HTTPError 400 ''Token verifikasi tidak valid atau kadaluarsa'')) (\<lambda>_.
     ebind (get_or (HTTPError 400 ''Pengguna tidak ditemukan'') (user_by_id s (mtk_user t))) (\<lambda>u.
     let s1 = save_account (u\<lparr>user_is_verified := True\<rparr>) s in
     Inr (s1\<lparr>credentials := row_upd cre_user (user_id u) (\<lambda>c. c\<lparr>cre_verified_at := Some now\<rparr>) (credentials s1),
       email_tokens := row_del mtk_token token (email_tokens s1)\<rparr>))))"

text \<open>A token replaces the one its user has: the old row is deleted and flushed first.\<close>

definition replace_token :: "mail_token \<Rightarrow> mail_token list \<Rightarrow> mail_token list result" where
  "replace_token t ts =
     ebind (scalar_one_or_none (filter (\<lambda>x. mtk_user x = mtk_user t) ts)) (\<lambda>old.
     insert_mail_token t (case old of None \<Rightarrow> ts | Some x \<Rightarrow> row_del mtk_token (mtk_token x) ts))"

definition resend_verification :: "draws \<Rightarrow> string \<Rightarrow> bool \<Rightarrow> datetime \<Rightarrow> auth_db \<Rightarrow> (bool \<times> auth_db) result" where
  "resend_verification dr email sent now s = (case user_by_email s email of
     None \<Rightarrow> Inr (True, s)
   | Some u \<Rightarrow> if user_is_verified u then Inr (True, s)
       else ebind (replace_token (verification_for (user_id u) (dr_token dr) now) (email_tokens s)) (\<lambda>ts.
         Inr (sent, s\<lparr>email_tokens := ts\<rparr>)))"

definition forgot_password :: "draws \<Rightarrow> string \<Rightarrow> datetime \<Rightarrow> auth_db \<Rightarrow> auth_db result" where
  "forgot_password dr email now s = (case user_by_email s email of
     None \<Rightarrow> Inr s
   | Some u \<Rightarrow> ebind (replace_token \<lparr>mtk_user = user_id u, mtk_token = dr_token dr, mtk_expires = now + hours_us 1\<rparr> (reset_tokens s)) (\<lambda>ts.
       Inr (s\<lparr>reset_tokens := ts\<rparr>)))"

definition reset_password :: "crypto \<Rightarrow> draws \<Rightarrow> string \<Rightarrow> string \<Rightarrow> string \<Rightarrow> datetime \<Rightarrow> auth_db \<Rightarrow> auth_db result" where
  "reset_password C dr token new_password confirm now s =
     ebind (raise_if (new_password \<noteq> confirm) (HTTPError 400 ''Kata sandi tidak cocok'')) (\<lambda>_.
     ebind (get_or (HTTPError 400 ''Token reset tidak valid atau kadaluarsa'') (row_get mtk_token token (reset_tokens s))) (\<lambda>t.
     ebind (raise_if (mtk_expires t < now) (HTTPError 400 ''Token reset tidak valid atau kadaluarsa'')) (\<lambda>_.
     ebind (get_or (HTTPError 400 ''Pengguna tidak ditemukan'') (user_by_id s (mtk_user t))) (\<lambda>u.
     let s1 = set_password (user_id u) (hash_password C (dr_salt dr) new_password) s in
     Inr (s1\<lparr>reset_tokens := row_del mtk_token token (reset_tokens s1)\<rparr>)))))"

subsection \<open>A signed-in user\<close>

text \<open>The token of the body, or else the cookie.\<close>

definition refresh_text :: "string option \<Rightarrow> string option \<Rightarrow> string option" where
  "refresh_text body cookie = (if body \<noteq> None \<and> body \<noteq> Some [] then body else cookie)"

definition refresh_user :: "(string \<Rightarrow> uuid option) \<Rightarrow> auth_db \<Rightarrow> claims \<Rightarrow> user result" where
  "refresh_user parse s p =
     ebind (raise_if (cl_type p \<noteq> Some ''refresh'') (HTTPError 401 ''Tipe token tidak valid'')) (\<lambda>_.
     ebind (raise_if (cl_sub p = None \<or> cl_sub p = Some []) (HTTPError 401 ''Token tidak memiliki subject'')) (\<lambda>_.
     ebind (get_or (HTTPError 401 ''Identifier pengguna dalam token tidak valid'') (parse (the (cl_sub p)))) (\<lambda>uid.
     get_or (HTTPError 401 ''Pengguna tidak ditemukan'') (user_by_id s uid))))"

text \<open>Only a change of the active organization is committed.\<close>

definition refresh ::
    "jwt \<Rightarrow> auth_settings \<Rightarrow> (string \<Rightarrow> uuid option) \<Rightarrow> (uuid \<Rightarrow> string) \<Rightarrow> (nat \<Rightarrow> bool) \<Rightarrow> draws \<Rightarrow> string option \<Rightarrow> string option \<Rightarrow> datetime
      \<Rightarrow> rv_redis \<times> auth_cache \<Rightarrow> auth_db \<Rightarrow> (string \<times> string) result \<times> (rv_redis \<times> auth_cache) \<times> auth_db" where
  "refresh J cfg parse str_of up dr body cookie now st s = (case st of (R, c) \<Rightarrow>
     (case refresh_text body cookie of
       None \<Rightarrow> (Inl (HTTPError 400 ''Refresh token diperlukan''), (R, c), s)
     | Some token \<Rightarrow> (case decode_token_async (up 0) (up 1) J token now R c of
         (Inl e, c1) \<Rightarrow> (Inl (HTTPError 401 ''Refresh token tidak valid atau kadaluarsa''), (R, c1), s)
       | (Inr p, c1) \<Rightarrow> (case refresh_user parse s p of
           Inl e \<Rightarrow> (Inl e, (R, c1), s)
         | Inr u \<Rightarrow>
             let sub = the (cl_sub p);
                 st1 = (case cl_jti p of None \<Rightarrow> (R, c1) | Some j \<Rightarrow> revoke_token cfg (up 2) j sub now (R, c1)) in
             (case settle_org dr now s u of
               Inl e \<Rightarrow> (Inl e, st1, s)
             | Inr (oid, u1, s1) \<Rightarrow>
                 (Inr (create_access_token J cfg sub (user_email u1) (user_is_admin u1) (Some (str_of oid)) (dr_access_jti dr) now,
                    create_refresh_token J cfg sub (dr_refresh_jti dr) now), st1,
                  if user_last_active u1 = Some oid then s else save_account (u1\<lparr>user_last_active := Some oid\<rparr>) s1))))))"

definition current_password_ok :: "crypto \<Rightarrow> auth_db \<Rightarrow> user \<Rightarrow> string \<Rightarrow> unit result" where
  "current_password_ok C s u password =
     ebind (verify_password C password (map_option cre_hash (credential_of s (user_id u)))) (\<lambda>ok.
     raise_if (\<not> ok) (HTTPError 401 ''Kata sandi saat ini salah''))"

definition update_profile ::
    "crypto \<Rightarrow> draws \<Rightarrow> user \<Rightarrow> string \<Rightarrow> string \<Rightarrow> bool \<Rightarrow> datetime \<Rightarrow> auth_db \<Rightarrow> (bool option \<times> auth_db) result" where
  "update_profile C dr u email password sent now s =
     ebind (current_password_ok C s u password) (\<lambda>_.
     if email = user_email u then Inr (None, s)
     else
       ebind (raise_if (user_by_email s email \<noteq> None) (HTTPError 409 ''Email sudah digunakan'')) (\<lambda>_.
       ebind (insert_mail_token (verification_for (user_id u) (dr_token dr) now) (email_tokens s)) (\<lambda>ts.
       let s1 = save_account (u\<lparr>user_email := email, user_is_verified := False\<rparr>) s in
       Inr (Some sent, s1\<lparr>email_tokens := ts,
         credentials := row_upd cre_user (user_id u) (\<lambda>c. c\<lparr>cre_verified_at := None\<rparr>) (credentials s1)\<rparr>))))"

definition change_password ::
    "crypto \<Rightarrow> auth_settings \<Rightarrow> (uuid \<Rightarrow> string) \<Rightarrow> bool \<Rightarrow> draws \<Rightarrow> user \<Rightarrow> string \<Rightarrow> string \<Rightarrow> string \<Rightarrow> datetime
      \<Rightarrow> rv_redis \<times> auth_cache \<Rightarrow> auth_db \<Rightarrow> ((rv_redis \<times> auth_cache) \<times> auth_db) result" where
  "change_password C cfg str_of up dr u current new_password confirm now st s =
     ebind (current_password_ok C s u current) (\<lambda>_.
     ebind (raise_if (new_password \<noteq> confirm) (HTTPError 400 ''Kata sandi tidak cocok'')) (\<lambda>_.
     ebind (verify_password C new_password (map_option cre_hash (credential_of s (user_id u)))) (\<lambda>same.
     ebind (raise_if same (HTTPError 400 ''Kata sandi baru tidak boleh sama dengan kata sandi saat ini'')) (\<lambda>_.
     Inr (snd (logout_all cfg up (str_of (user_id u)) now st), set_password (user_id u) (hash_password C (dr_salt dr) new_password) s)))))"

definition patch_me :: "user \<Rightarrow> string \<Rightarrow> auth_db \<Rightarrow> auth_db result" where
  "patch_me u locale s = (let raw = lower (strip locale) in
     ebind (raise_if (raw \<notin> {''id'', ''en''}) (HTTPError 400 ''locale must be id or en'')) (\<lambda>_.
     Inr (save_account (u\<lparr>user_locale := raw\<rparr>) s)))"

definition revoke ::
    "jwt \<Rightarrow> auth_settings \<Rightarrow> (uuid \<Rightarrow> string) \<Rightarrow> (nat \<Rightarrow> bool) \<Rightarrow> user \<Rightarrow> string \<Rightarrow> datetime \<Rightarrow> rv_redis \<times> auth_cache
      \<Rightarrow> unit result \<times> rv_redis \<times> auth_cache" where
  "revoke J cfg str_of up u token now st = (case st of (R, c) \<Rightarrow>
     (case decode_token_async (up 0) (up 1) J token now R c of
       (Inl e, c1) \<Rightarrow> (Inl (HTTPError 400 ''Token tidak valid atau kadaluarsa''), R, c1)
     | (Inr p, c1) \<Rightarrow> (case cl_jti p of
         None \<Rightarrow> (Inl (HTTPError 400 ''Token tidak memiliki JTI''), R, c1)
       | Some j \<Rightarrow> (Inr (), revoke_token cfg (up 2) j (str_of (user_id u)) now (R, c1)))))"

text \<open>An admin verifies an account by hand, which removes its pending token (\<open>api/admin_routes.py\<close>).\<close>

definition force_verify :: "uuid \<Rightarrow> datetime \<Rightarrow> auth_db \<Rightarrow> auth_db result" where
  "force_verify uid now s =
     ebind (get_or (HTTPError 404 ''User not found'') (user_by_id s uid)) (\<lambda>u.
     if user_is_verified u then Inr s
     else ebind (scalar_one_or_none (filter (\<lambda>t. mtk_user t = uid) (email_tokens s))) (\<lambda>old.
       let s1 = save_account (u\<lparr>user_is_verified := True\<rparr>) s in
       Inr (s1\<lparr>credentials := row_upd cre_user uid (\<lambda>c. c\<lparr>cre_verified_at := Some now\<rparr>) (credentials s1),
         email_tokens := (case old of None \<Rightarrow> email_tokens s1 | Some t \<Rightarrow> row_del mtk_token (mtk_token t) (email_tokens s1))\<rparr>)))"

end
