(* ===== verification/AuthSafety.thy ===== *)
theory AuthSafety
  imports AuthRoutes
begin

text \<open>
  What tokens are good for: a revoked token stays refused, a request acts for the user and in the organization its token names.
\<close>

subsection \<open>Revocation lasts\<close>

text \<open>Redis between two instants: time passes, any process revokes.\<close>

inductive rv_step :: "auth_settings \<Rightarrow> datetime \<times> rv_redis \<Rightarrow> datetime \<times> rv_redis \<Rightarrow> bool" for cfg where
  wait: "t \<le> t' \<Longrightarrow> rv_step cfg (t, R) (t', R)"
| set: "rv_step cfg (t, R) (t, rv_set cfg k v t R)"

lemma rv_steps_keep:
  assumes "(rv_step cfg)\<^sup>*\<^sup>* (t0, R0) (t, R)" "R0 k = Some (v, x)" "x \<le> t0 + REVOKE_TTL cfg * 1000000"
  shows "t0 \<le> t \<and> (\<exists>v' x'. R k = Some (v', x') \<and> x \<le> x')"
  using assms(1)
proof (induction "(t, R)" arbitrary: t R rule: rtranclp_induct)
  case (step y)
  obtain t1 R1 where y: "y = (t1, R1)" by (cases y)
  from step.hyps(3) [OF y] obtain v' x' where ih: "t0 \<le> t1" "R1 k = Some (v', x')" "x \<le> x'" by blast
  from step.hyps(2) [unfolded y] show ?case
  proof cases
    case wait
    with ih show ?thesis by auto
  next
    case (set k' w)
    with ih assms(3) show ?thesis by (cases "k' = k") (auto simp: rv_set_def)
  qed
qed (use assms(2) in auto)

lemma rv_steps_live:
  assumes "(rv_step cfg)\<^sup>*\<^sup>* (t0, rv_set cfg k v t0 R) (t, R')" "t < t0 + REVOKE_TTL cfg * 1000000"
  shows "rv_get k t R' \<noteq> None"
proof -
  have "(rv_set cfg k v t0 R) k = Some (v, t0 + REVOKE_TTL cfg * 1000000)" by (simp add: rv_set_def)
  from rv_steps_keep [OF assms(1) this] assms(2) show ?thesis by (auto simp: rv_get_def)
qed

lemma is_token_revoked_simps [simp]:
  "is_token_revoked j (cache_token j u c)" "is_token_revoked j c \<Longrightarrow> is_token_revoked j (cache_token k u c)"
  "is_token_revoked j (cache_user u c) = is_token_revoked j c"
  by (auto simp: is_token_revoked_def cache_token_def cache_user_def update_conv' dom_update)

lemma revoked_in_cache:
  assumes "jwt_open J token = Some p" "cl_jti p = Some j" "is_token_revoked j c"
  shows "\<exists>m. decode_jwt_and_cache J c token t = Inl (PyJWTError m)"
  using assms by (auto simp: decode_jwt_and_cache_def jwt_decode_def)

lemma decode_refused:
  "decode_jwt_and_cache J c token t = Inl e \<Longrightarrow> decode_token_async up1 up2 J token t R c = (Inl e, c)"
  by (simp add: decode_token_async_def)

lemma found_is_refused:
  assumes "cl_jti p = Some j" "jwt_open J token = Some p" "rv_get (RevokedToken j) t R \<noteq> None"
  shows "\<exists>m c'. decode_token_async True up2 J token t R c = (Inl (PyJWTError m), c')"
proof (cases "decode_jwt_and_cache J c token t")
  case (Inl e)
  then have "\<exists>m. e = PyJWTError m"
    using assms(2) by (auto simp: decode_jwt_and_cache_def jwt_decode_def raise_if_def split: if_splits)
  with decode_refused [OF Inl] show ?thesis by blast
next
  case (Inr q)
  then have "q = p" using assms(2)
    by (auto simp: decode_jwt_and_cache_def jwt_decode_def raise_if_def split: if_splits)
  then show ?thesis using Inr assms(1,3)
    by (auto simp: decode_token_async_def check_redis_revocation_def PyJWTError_def AuthRedisError_def split: option.splits)
qed

definition issued_claims :: "auth_settings \<Rightarrow> string \<Rightarrow> datetime \<Rightarrow> claims \<Rightarrow> bool" where
  "issued_claims cfg j t p \<longleftrightarrow> (\<exists>uid email adm oid. p = access_claims cfg uid email adm oid j t) \<or> (\<exists>uid. p = refresh_claims cfg uid j t)"

lemma issued_expiry:
  assumes "issued_claims cfg j t p"
  shows "cl_jti p = Some j" "\<exists>e. cl_exp p = Some e \<and> e * 1000000 \<le> t + REVOKE_TTL cfg * 1000000"
proof -
  have "x div 1000000 * 1000000 \<le> x" for x :: int using minus_mod_eq_div_mult [of x 1000000] pos_mod_sign [of 1000000 x] by linarith
  from this [of "t + access_minutes cfg * 60 * 1000000"] this [of "t + refresh_days cfg * 86400 * 1000000"]
  show "\<exists>e. cl_exp p = Some e \<and> e * 1000000 \<le> t + REVOKE_TTL cfg * 1000000"
    using assms unfolding issued_claims_def access_claims_def refresh_claims_def REVOKE_TTL_def by auto
  show "cl_jti p = Some j" using assms by (auto simp: issued_claims_def access_claims_def refresh_claims_def)
qed

text \<open>C11: A token that was revoked is refused from then on, by every process whose lookup in Redis is answered: the record in Redis
  outlives every token issued before the revocation, whatever is revoked in between and however long a client waits.\<close>

theorem revoked_token_is_refused:
  assumes "jwt_open J token = Some p" "issued_claims cfg j t_iss p" "t_iss \<le> t0"
    "revoke_token cfg True j uid t0 (R, c0) = (R1, c1)" "(rv_step cfg)\<^sup>*\<^sup>* (t0, R1) (t, R')"
  shows "\<exists>m c'. decode_token_async True up2 J token t R' c = (Inl (PyJWTError m), c')"
proof -
  obtain e where e: "cl_exp p = Some e" "e * 1000000 \<le> t0 + REVOKE_TTL cfg * 1000000"
    using issued_expiry(2) [OF assms(2)] assms(3) by force
  show ?thesis
  proof (cases "e * 1000000 \<le> t")
    case True
    then have "decode_jwt_and_cache J c token t = Inl (PyJWTError ''Signature has expired'')"
      using assms(1) e(1) by (simp add: decode_jwt_and_cache_def jwt_decode_def)
    from decode_refused [OF this] show ?thesis by blast
  next
    case False
    have "(rv_step cfg)\<^sup>*\<^sup>* (t0, rv_set cfg (RevokedToken j) uid t0 R) (t, R')" using assms(4,5) by (simp add: revoke_token_def)
    from rv_steps_live [OF this] False e(2) have "rv_get (RevokedToken j) t R' \<noteq> None" by simp
    from found_is_refused [OF issued_expiry(1) [OF assms(2)] assms(1) this] show ?thesis .
  qed
qed

text \<open>The process that revokes does not depend on Redis: its memory only grows.\<close>

lemma cache_only_grows:
  assumes "is_token_revoked j c"
  shows "is_token_revoked j (snd (check_redis_revocation up1 up2 jti sub t R c))"
    "is_token_revoked j (snd (decode_token_async up1 up2 J token t R c))"
    "is_token_revoked j (snd (revoke_token cfg up k uid t (R, c)))"
    "is_token_revoked j (snd (snd (logout_all cfg up uid t (R, c))))"
proof -
  show c: "is_token_revoked j (snd (check_redis_revocation up1 up2 jti sub t R c))" for jti sub
    using assms by (auto simp: check_redis_revocation_def Let_def split: option.split)
  show "is_token_revoked j (snd (decode_token_async up1 up2 J token t R c))"
    using assms c by (auto simp: decode_token_async_def split: sum.split prod.split) (metis snd_conv)+
  show "is_token_revoked j (snd (revoke_token cfg up k uid t (R, c)))" "is_token_revoked j (snd (snd (logout_all cfg up uid t (R, c))))"
    using assms by (simp_all add: revoke_token_def logout_all_def)
qed

subsection \<open>Who a request acts for\<close>

lemma personal_org_member:
  assumes "personal_org d v b = Some r"
  shows "get_membership d (org_id r) v \<noteq> None"
proof -
  obtain m where "m \<in> set (memberships d)" "mem_user m = v" "row_get org_id (mem_org m) (orgs d) = Some r"
    using first_row_Some [OF assms [unfolded personal_org_def]] by (auto split: if_splits option.splits)
  then have "(org_id r, v) \<in> mkey ` set (memberships d)" using row_get_Some by force
  then show ?thesis by (simp add: get_membership_def row_get_None)
qed

lemma default_org_member:
  assumes "resolve_default_org_id d u = Some oid"
  shows "get_membership d oid (user_id u) \<noteq> None"
proof (cases "(case user_last_active u of None \<Rightarrow> None | Some o' \<Rightarrow> map_option (\<lambda>_. o') (get_membership d o' (user_id u)))")
  case (Some x)
  with assms show ?thesis by (auto simp: resolve_default_org_id_def split: option.splits)
next
  case None
  show ?thesis
  proof (cases "personal_org d (user_id u) False")
    case (Some r)
    with None assms have "oid = org_id r" by (simp add: resolve_default_org_id_def)
    with personal_org_member [OF Some] show ?thesis by simp
  next
    case none: None
    with None assms obtain m where "first_row (sort_key mem_created_at (filter (\<lambda>m. mem_user m = user_id u) (memberships d))) = Some m" "oid = mem_org m"
      by (auto simp: resolve_default_org_id_def)
    with first_row_Some have "m \<in> set (memberships d)" "mkey m = (oid, user_id u)" by fastforce+
    then show ?thesis by (auto simp: get_membership_def row_get_None image_iff)
  qed
qed

lemma ensured_org_member:
  assumes "ensure_personal_org oid mid tail u now d = Inr (r, d')"
  shows "get_membership d' (org_id r) (user_id u) \<noteq> None"
proof (cases "personal_org d (user_id u) True")
  case (Some x)
  with assms have "x = r" "d' = d" by (simp_all add: ensure_personal_org_def)
  with personal_org_member [OF Some] show ?thesis by simp
next
  case None
  have "\<exists>m\<in>set (memberships d'). mkey m = (org_id r, user_id u)"
    using assms unfolding ensure_personal_org_def None option.case Let_def ebind_eq_Inr insert_org_Inr insert_membership_Inr
    by (elim exE conjE Inr_PairE) (auto simp: new_org_def)
  then show ?thesis by (auto simp: get_membership_def row_get_None image_iff) metis
qed

lemma active_org_member:
  assumes "active_org parse dr now s u raw = Inr ((oid, r), s')"
  shows "\<exists>m. get_membership (au_core s') oid (user_id u) = Some m \<and> r = Some (mem_role m)"
proof (cases "raw \<noteq> None \<and> strip (the raw) \<noteq> []")
  case True
  with assms show ?thesis by (auto simp: active_org_def claimed_org_def errs)
next
  case False
  then have d: "default_org dr now s u = Inr (oid, s')" "r = map_option mem_role (get_membership (au_core s') oid (user_id u))"
    using assms by (auto simp: active_org_def errs split: prod.splits)
  have "get_membership (au_core s') oid (user_id u) \<noteq> None"
  proof (cases "resolve_default_org_id (au_core s) u")
    case (Some x)
    with d(1) default_org_member [OF Some] show ?thesis by (simp add: default_org_def)
  next
    case None
    with d(1) obtain x d' where "ensure_personal_org (dr_org dr) (dr_member dr) (dr_tail dr) u now (au_core s) = Inr (x, d')"
      "oid = org_id x" "s' = set_core d' s"
      by (auto simp: default_org_def errs)
    with ensured_org_member show ?thesis by (simp add: set_core_def)
  qed
  with d(2) show ?thesis by auto
qed

lemma decode_async_Inr:
  assumes "decode_token_async up1 up2 J token now R c = (Inr p, c')"
  shows "jwt_open J token = Some p" "\<forall>e. cl_exp p = Some e \<longrightarrow> now < e * 1000000" "\<forall>j. cl_jti p = Some j \<longrightarrow> \<not> is_token_revoked j c"
    "\<forall>v. cl_sub p = Some v \<longrightarrow> v \<notin> set (rev_users c)"
proof -
  have "decode_jwt_and_cache J c token now = Inr p"
    using assms by (auto simp: decode_token_async_def split: sum.splits prod.splits if_splits)
  then show "jwt_open J token = Some p" "\<forall>e. cl_exp p = Some e \<longrightarrow> now < e * 1000000" "\<forall>j. cl_jti p = Some j \<longrightarrow> \<not> is_token_revoked j c"
    "\<forall>v. cl_sub p = Some v \<longrightarrow> v \<notin> set (rev_users c)"
    by (auto simp: decode_jwt_and_cache_def jwt_decode_def errs split: option.splits if_splits)
qed

text \<open>C12: A request acts for the user its token names. It carries a token with a good signature, not expired, an access token, not
  known to be revoked, whose subject is a stored user; and the organization it acts in is always one that user is a member of, with
  the role of that membership, the one the token names if it names one.\<close>

theorem current_user_authentic:
  assumes "get_current_user J parse up1 up2 dr header now R c s = (Inr ((u, oid, r), s'), c')"
  shows "\<exists>token p m. bearer_token header = Inr token \<and> jwt_open J token = Some p \<and> cl_type p = Some ''access''
    \<and> (\<forall>e. cl_exp p = Some e \<longrightarrow> now < e * 1000000) \<and> (\<forall>j. cl_jti p = Some j \<longrightarrow> \<not> is_token_revoked j c)
    \<and> (\<exists>v. cl_sub p = Some v \<and> v \<notin> set (rev_users c) \<and> parse v = Some (user_id u)) \<and> u \<in> set (users (au_core s))
    \<and> get_membership (au_core s') oid (user_id u) = Some m \<and> r = Some (mem_role m)
    \<and> (\<forall>w. cl_org p = Some w \<and> strip w \<noteq> [] \<longrightarrow> parse w = Some oid \<and> s' = s)"
proof -
  obtain token p where t: "bearer_token header = Inr token" "decode_token_async up1 up2 J token now R c = (Inr p, c')"
    "user_of_claims parse s p = Inr u" "active_org parse dr now s u (cl_org p) = Inr ((oid, r), s')"
    using assms by (auto simp: get_current_user_def errs split: sum.splits prod.splits)
  note d = decode_async_Inr [OF t(2)]
  obtain v where v: "cl_type p = Some ''access''" "cl_sub p = Some v" "parse v = Some (user_id u)" "u \<in> set (users (au_core s))"
    using t(3) by (auto simp: user_of_claims_def user_by_id_def errs dest: row_get_Some)
  obtain m where m: "get_membership (au_core s') oid (user_id u) = Some m" "r = Some (mem_role m)"
    using active_org_member [OF t(4)] by blast
  have "\<forall>w. cl_org p = Some w \<and> strip w \<noteq> [] \<longrightarrow> parse w = Some oid \<and> s' = s"
    using t(4) by (auto simp: active_org_def claimed_org_def errs)
  with t(1) d v m show ?thesis by blast
qed

definition sample_settings :: auth_settings where
  "sample_settings = \<lparr>access_minutes = 30, refresh_days = 7, register_credits = 30, google_client_id = []\<rparr>"

definition sample_claims :: claims where
  "sample_claims = access_claims sample_settings ''1'' ''u1@acme.id'' False (Some ''7'') ''j0'' 0"

definition sample_jwt :: jwt where
  "sample_jwt = \<lparr>jwt_encode = (\<lambda>_. ''tok''), jwt_open = (\<lambda>t. if t = ''tok'' then Some sample_claims else None)\<rparr>"

definition no_revocations :: auth_cache where "no_revocations = \<lparr>rev_tokens = [], rev_users = []\<rparr>"

theorem revoked_token_is_refused_witness:
  "decode_token_async True True sample_jwt ''tok'' 20 (\<lambda>_. None) no_revocations = (Inr sample_claims, no_revocations)
   \<and> (\<exists>m c'. decode_token_async True True sample_jwt ''tok'' 20 (fst (revoke_token sample_settings True ''j0'' ''1'' 10 (\<lambda>_. None, no_revocations))) no_revocations
        = (Inl (PyJWTError m), c'))"
proof -
  have i: "issued_claims sample_settings ''j0'' 0 sample_claims" unfolding issued_claims_def sample_claims_def by blast
  have o: "jwt_open sample_jwt ''tok'' = Some sample_claims" by (simp add: sample_jwt_def)
  obtain R1 c1 where r: "revoke_token sample_settings True ''j0'' ''1'' 10 (\<lambda>_. None, no_revocations) = (R1, c1)" by (metis surj_pair)
  have w: "(rv_step sample_settings)\<^sup>*\<^sup>* (10, R1) (20, R1)" by (rule r_into_rtranclp) (rule rv_step.wait, simp)
  have "decode_token_async True True sample_jwt ''tok'' 20 (\<lambda>_. None) no_revocations = (Inr sample_claims, no_revocations)"
    by (simp add: decode_token_async_def decode_jwt_and_cache_def jwt_decode_def sample_jwt_def sample_claims_def access_claims_def
      sample_settings_def no_revocations_def is_token_revoked_def check_redis_revocation_def rv_get_def)
  with revoked_token_is_refused [OF o i _ r w] show ?thesis by (simp add: r)
qed

definition sample_request :: "((user \<times> uuid \<times> role option) \<times> auth_db) result \<times> auth_cache" where
  "sample_request = get_current_user sample_jwt (\<lambda>t. if t = ''1'' then Some 1 else if t = ''7'' then Some 7 else None) True True
     \<lparr>dr_user = 0, dr_org = 20, dr_member = 21, dr_tail = [], dr_token = [], dr_password = [], dr_salt = [], dr_access_jti = [], dr_refresh_jti = []\<rparr>
     (Some ''Bearer tok'') 20 (\<lambda>_. None) no_revocations
     \<lparr>au_core = team_db, credentials = [], email_tokens = [], reset_tokens = [], au_credit_logs = []\<rparr>"

theorem current_user_authentic_witness:
  "\<exists>u oid r s'. sample_request = (Inr ((u, oid, r), s'), no_revocations) \<and> u \<in> set (users team_db)
     \<and> r = map_option mem_role (get_membership (au_core s') oid (user_id u))"
proof -
  have e: "\<not> isl (fst sample_request) \<and> snd sample_request = no_revocations" by code_simp
  obtain res c where rc: "sample_request = (res, c)" by (cases sample_request)
  from e have c: "c = no_revocations" and "\<not> isl res" unfolding rc by simp_all
  then obtain y where y: "res = Inr y" by (cases res) simp_all
  obtain u oid r s' where "y = ((u, oid, r), s')" by (metis surj_pair)
  with rc y c have g: "sample_request = (Inr ((u, oid, r), s'), no_revocations)" by simp
  from current_user_authentic [OF g [unfolded sample_request_def]]
  obtain m where "u \<in> set (users team_db)" "get_membership (au_core s') oid (user_id u) = Some m" "r = Some (mem_role m)"
    unfolding auth_db.simps by blast
  with g show ?thesis by (intro exI [of _ u] exI [of _ oid] exI [of _ r] exI [of _ s']) simp
qed

end
