(* ===== verification/AccountSafety.thy ===== *)
theory AccountSafety
  imports AuthSafety
begin

text \<open>
  What the account handlers keep, each of them and any run of them between handlers of the other services: accounts stay
  well-formed, an address is only verified by a token that was mailed to it, a refresh token works once, a reset changes one
  password. The last section runs the places where the code does not do what it means to.
\<close>

subsection \<open>Accounts stay well-formed\<close>

definition users_ok :: "user list \<Rightarrow> bool" where
  "users_ok us \<longleftrightarrow> unique_by user_id us \<and> unique_by user_email us \<and> list_all user_row_ok us"

definition credentials_ok :: "user list \<Rightarrow> credential list \<Rightarrow> bool" where
  "credentials_ok us cs \<longleftrightarrow> map cre_user cs = map user_id us
     \<and> (\<forall>c\<in>set cs. \<forall>c'\<in>set cs. cre_google c \<noteq> None \<and> cre_google c = cre_google c' \<longrightarrow> cre_user c = cre_user c')"

definition tokens_ok :: "user list \<Rightarrow> mail_token list \<Rightarrow> bool" where
  "tokens_ok us ts \<longleftrightarrow> unique_by mtk_user ts \<and> unique_by mtk_token ts \<and> mtk_user ` set ts \<subseteq> user_id ` set us"

definition accounts_ok :: "auth_db \<Rightarrow> bool" where
  "accounts_ok s \<longleftrightarrow> users_ok (users (au_core s)) \<and> credentials_ok (users (au_core s)) (credentials s)
     \<and> tokens_ok (users (au_core s)) (email_tokens s) \<and> tokens_ok (users (au_core s)) (reset_tokens s)"

text \<open>What a user row says apart from the active organization.\<close>

definition person :: "user \<Rightarrow> user" where "person u = u\<lparr>user_last_active := None\<rparr>"

definition stored :: "db \<Rightarrow> user \<Rightarrow> bool" where "stored d u \<longleftrightarrow> row_get user_id (user_id u) (users d) = Some u"

lemma person_fields:
  "person u = person v \<Longrightarrow> user_id u = user_id v \<and> user_email u = user_email v \<and> user_row_ok u = user_row_ok v
    \<and> user_is_verified u = user_is_verified v"
  by (cases u; cases v) (auto simp: person_def user_row_ok_def)

lemma map_person:
  assumes "map person us' = map person us" "\<And>u v. person u = person v \<Longrightarrow> f u = f v"
  shows "map f us' = map f us"
  using assms(1)
proof (induction us arbitrary: us')
  case (Cons u us)
  then obtain v vs where v: "us' = v # vs" "person v = person u" "map person vs = map person us" unfolding list.map map_eq_Cons_conv by blast
  show ?case unfolding v(1) list.map using Cons.IH [OF v(3)] assms(2) [OF v(2)] by (simp only:)
qed simp

lemma same_people:
  assumes "map person us' = map person us"
  shows "map user_id us' = map user_id us" "map user_email us' = map user_email us" "map user_row_ok us' = map user_row_ok us"
    "map user_is_verified us' = map user_is_verified us"
  by (rule map_person [OF assms], use person_fields in blast)+

lemma list_all_map_bool: "list_all P xs \<longleftrightarrow> False \<notin> set (map P xs)"
  by (induction xs) auto

lemma same_people_ok:
  assumes "map person us' = map person us"
  shows "users_ok us' = users_ok us" "credentials_ok us' cs = credentials_ok us cs" "tokens_ok us' ts = tokens_ok us ts"
proof -
  note p = same_people [OF assms]
  have i: "user_id ` set us' = user_id ` set us" using arg_cong [OF p(1), of set] by simp
  show "users_ok us' = users_ok us" unfolding users_ok_def unique_by_def list_all_map_bool p ..
  show "credentials_ok us' cs = credentials_ok us cs" unfolding credentials_ok_def p ..
  show "tokens_ok us' ts = tokens_ok us ts" unfolding tokens_ok_def i ..
qed

lemma storedI: "unique_by user_id (users d) \<Longrightarrow> u \<in> set (users d) \<Longrightarrow> stored d u"
  by (simp add: stored_def row_get_unique)

lemma storedD: "stored d u \<Longrightarrow> u \<in> set (users d)"
  using row_get_Some unfolding stored_def by fast

lemma people_save_user:
  assumes "unique_by user_id (users d)" "stored d u" "person u' = person u"
  shows "map person (users (save_user u' d)) = map person (users d)"
proof -
  have "user_id u' = user_id u" using person_fields [OF assms(3)] by simp
  then have "person (if user_id x = user_id u' then u' else x) = person x" if "x \<in> set (users d)" for x
    using unique_byD [OF assms(1) that storedD [OF assms(2)]] assms(3) by (cases "user_id x = user_id u'") simp_all
  then show ?thesis by (simp add: save_user_def row_upd_def)
qed

lemma ensure_users:
  assumes "ebind m (\<lambda>t. ebind (insert_org (f t) d) (\<lambda>d1. ebind (insert_membership x d1) (\<lambda>d2.
      Inr (f t, if c then save_user v d2 else d2)))) = Inr (r, d')"
  shows "users d' = users d \<or> users d' = users (save_user v d)"
  using assms by (auto simp: errs save_user_def split: if_splits)

lemma people_ensure:
  assumes "ensure_personal_org oid mid tail u now d = Inr (r, d')" "unique_by user_id (users d)" "stored d u"
  shows "map person (users d') = map person (users d)"
proof (cases "personal_org d (user_id u) True")
  case (Some x)
  with assms(1) show ?thesis by (simp add: ensure_personal_org_def)
next
  case None
  have "users d' = users d \<or> users d' = users (save_user (u\<lparr>user_last_active := Some oid\<rparr>) d)"
    using assms(1) unfolding ensure_personal_org_def None option.case Let_def by (rule ensure_users)
  moreover have "map person (users (save_user (u\<lparr>user_last_active := Some oid\<rparr>) d)) = map person (users d)"
    by (rule people_save_user [OF assms(2,3)]) (simp add: person_def)
  ultimately show ?thesis by (elim disjE) (simp_all only:)
qed

text \<open>What matters to \<open>accounts_ok\<close>, and does not change in most handlers.\<close>

definition same_accounts :: "auth_db \<Rightarrow> auth_db \<Rightarrow> bool" where
  "same_accounts s s' \<longleftrightarrow> map person (users (au_core s')) = map person (users (au_core s))
     \<and> map (\<lambda>c. (cre_user c, cre_google c)) (credentials s') = map (\<lambda>c. (cre_user c, cre_google c)) (credentials s)
     \<and> email_tokens s' = email_tokens s \<and> reset_tokens s' = reset_tokens s"

lemma same_accounts_refl [simp]: "same_accounts s s" by (simp add: same_accounts_def)

lemma same_accounts_trans: "same_accounts s s' \<Longrightarrow> same_accounts s' s'' \<Longrightarrow> same_accounts s s''"
  by (simp add: same_accounts_def)

lemma credentials_ok_cong:
  assumes "map (\<lambda>c. (cre_user c, cre_google c)) cs' = map (\<lambda>c. (cre_user c, cre_google c)) cs"
  shows "credentials_ok us cs' = credentials_ok us cs"
proof -
  have "map cre_user cs' = map cre_user cs" using arg_cong [OF assms, of "map fst"] by (simp add: comp_def)
  moreover have "(\<lambda>c. (cre_user c, cre_google c)) ` set cs' = (\<lambda>c. (cre_user c, cre_google c)) ` set cs" using assms by (metis set_map)
  moreover have q: "(\<forall>c\<in>set xs. \<forall>c'\<in>set xs. cre_google c \<noteq> None \<and> cre_google c = cre_google c' \<longrightarrow> cre_user c = cre_user c')
      \<longleftrightarrow> (\<forall>(a, g)\<in>(\<lambda>c. (cre_user c, cre_google c)) ` set xs. \<forall>(b, h)\<in>(\<lambda>c. (cre_user c, cre_google c)) ` set xs. g \<noteq> None \<and> g = h \<longrightarrow> a = b)" for xs
    by auto
  ultimately show ?thesis unfolding credentials_ok_def q by (simp only:)
qed

lemma same_accounts_ok:
  assumes "same_accounts s s'"
  shows "accounts_ok s' = accounts_ok s"
proof -
  have p: "map person (users (au_core s')) = map person (users (au_core s))" and t: "email_tokens s' = email_tokens s" "reset_tokens s' = reset_tokens s"
    and c: "map (\<lambda>c. (cre_user c, cre_google c)) (credentials s') = map (\<lambda>c. (cre_user c, cre_google c)) (credentials s)"
    using assms by (simp_all only: same_accounts_def)
  show ?thesis unfolding accounts_ok_def same_people_ok [OF p] credentials_ok_cong [OF c] t ..
qed

lemma same_accounts_set_core: "map person (users d) = map person (users (au_core s)) \<Longrightarrow> same_accounts s (set_core d s)"
  by (simp add: same_accounts_def set_core_def)

lemma same_accounts_credentials:
  "(\<And>c. cre_user (f c) = cre_user c \<and> cre_google (f c) = cre_google c) \<Longrightarrow> same_accounts s (s\<lparr>credentials := row_upd cre_user k f (credentials s)\<rparr>)"
  by (simp add: same_accounts_def row_upd_def)

lemma settle_org_same:
  assumes "settle_org dr now s u = Inr (oid, u1, s1)" "accounts_ok s" "stored (au_core s) u"
  shows "same_accounts s s1" "stored (au_core s1) u1" "user_id u1 = user_id u" "user_email u1 = user_email u"
proof -
  have u: "unique_by user_id (users (au_core s))" using assms(2) by (simp add: accounts_ok_def users_ok_def)
  obtain r d where d: "ensure_personal_org (dr_org dr) (dr_member dr) (dr_tail dr) u now (au_core s) = Inr (r, d)"
    "s1 = set_core d s" "u1 = reload s1 u"
    using assms(1) by (auto simp: settle_org_def Let_def errs)
  have p: "map person (users d) = map person (users (au_core s))" by (rule people_ensure [OF d(1) u assms(3)])
  then show "same_accounts s s1" unfolding d(2) by (rule same_accounts_set_core)
  have u': "unique_by user_id (users d)" using u same_people(1) [OF p] by (simp add: unique_by_def)
  have "user_id u \<in> user_id ` set (users d)" using storedD [OF assms(3)] same_people(1) [OF p] by (metis image_eqI set_map)
  then have "row_get user_id (user_id u) (users d) \<noteq> None" by (simp add: row_get_None)
  then obtain v where v: "row_get user_id (user_id u) (users d) = Some v" by blast
  then have u1: "u1 = v" by (simp add: d(2,3) reload_def user_by_id_def set_core_def)
  with v row_get_Some [OF v] show "stored (au_core s1) u1" "user_id u1 = user_id u" by (simp_all add: stored_def d(2) set_core_def)
  have "person v \<in> person ` set (users (au_core s))" using row_get_Some [OF v] p by (metis image_eqI set_map)
  then obtain w where w: "w \<in> set (users (au_core s))" "person v = person w" by blast
  then have "w = u" using unique_byD [OF u w(1) storedD [OF assms(3)]] person_fields [OF w(2)] row_get_Some [OF v] by simp
  with w(2) person_fields u1 show "user_email u1 = user_email u" by blast
qed

lemma save_last_active_same:
  assumes "accounts_ok s" "stored (au_core s) u"
  shows "same_accounts s (save_account (u\<lparr>user_last_active := x\<rparr>) s)"
  unfolding save_account_def using assms
  by (intro same_accounts_set_core people_save_user [of _ u]) (simp_all add: accounts_ok_def users_ok_def person_def)

lemma issue_login_same:
  assumes "issue_login_response J cfg str_of dr now s0 s u = (res, s')" "accounts_ok s" "stored (au_core s) u"
  shows "s' = s0 \<or> same_accounts s s'"
proof (cases "settle_org dr now s u")
  case (Inl e)
  with assms(1) show ?thesis by (simp add: issue_login_response_def)
next
  case (Inr x)
  obtain oid u1 s1 where x: "x = (oid, u1, s1)" by (cases x)
  note st = settle_org_same [OF Inr [unfolded x] assms(2,3)]
  have "accounts_ok s1" using same_accounts_ok [OF st(1)] assms(2) by simp
  note a = save_last_active_same [OF this st(2), of "Some oid"]
  have "same_accounts t (touch_login k now t)" for t k by (simp add: touch_login_def same_accounts_credentials)
  moreover have "s' = touch_login (user_id u) now (save_account (u1\<lparr>user_last_active := Some oid\<rparr>) s1)"
    using assms(1) by (simp add: issue_login_response_def Inr x Let_def)
  ultimately show ?thesis using st(1) a same_accounts_trans by blast
qed

lemma default_org_same:
  assumes "active_org parse dr now s u raw = Inr (x, s')" "accounts_ok s" "stored (au_core s) u"
  shows "same_accounts s s'"
proof (cases "s' = s")
  case False
  then obtain r d where "ensure_personal_org (dr_org dr) (dr_member dr) (dr_tail dr) u now (au_core s) = Inr (r, d)" "s' = set_core d s"
    using assms(1) by (auto simp: active_org_def default_org_def claimed_org_def errs split: if_splits option.splits)
  with people_ensure assms(2,3) same_accounts_set_core show ?thesis unfolding accounts_ok_def users_ok_def by blast
qed simp

subsection \<open>The handlers as steps\<close>

text \<open>The second component is what was mailed so far for verification: address and token, also when the mail server refused.\<close>

type_synonym mailed = "(string \<times> string) list"

inductive auth_step :: "auth_db \<times> mailed \<Rightarrow> auth_db \<times> mailed \<Rightarrow> bool" where
  register: "register C cfg dr email password confirm sent now s = Inr (b, s') \<Longrightarrow> auth_step (s, L) (s', (email, dr_token dr) # L)"
| login: "login C J cfg str_of dr email password now s = (res, s') \<Longrightarrow> auth_step (s, L) (s', L)"
| google: "google_auth repr fetch C J cfg str_of dr id_token now s = (res, s') \<Longrightarrow> auth_step (s, L) (s', L)"
| verify: "verify_email token now s = Inr s' \<Longrightarrow> auth_step (s, L) (s', L)"
| resend: "resend_verification dr email sent now s = Inr (b, s') \<Longrightarrow>
    auth_step (s, L) (s', if email_tokens s' = email_tokens s then L else (email, dr_token dr) # L)"
| forgot: "forgot_password dr email now s = Inr s' \<Longrightarrow> auth_step (s, L) (s', L)"
| reset: "reset_password C dr token p confirm now s = Inr s' \<Longrightarrow> auth_step (s, L) (s', L)"
| refresh: "refresh J cfg parse str_of up dr body cookie now st s = (res, st', s') \<Longrightarrow> auth_step (s, L) (s', L)"
| profile: "update_profile C dr u email password sent now s = Inr (b, s') \<Longrightarrow> stored (au_core s) u \<Longrightarrow>
    auth_step (s, L) (s', if b = None then L else (email, dr_token dr) # L)"
| change: "change_password C cfg str_of up dr u cur p confirm now st s = Inr (st', s') \<Longrightarrow> auth_step (s, L) (s', L)"
| language: "patch_me u l s = Inr s' \<Longrightarrow> stored (au_core s) u \<Longrightarrow> auth_step (s, L) (s', L)"
| admin: "force_verify uid now s = Inr s' \<Longrightarrow> auth_step (s, L) (s', L)"
| request: "get_current_user J parse up1 up2 dr header now R c s = (Inr (who, s'), c') \<Longrightarrow> auth_step (s, L) (s', L)"
| other: "map person (users d) = map person (users (au_core s)) \<Longrightarrow> auth_step (s, L) (set_core d s, L)"   \<comment> \<open>any handler elsewhere\<close>

definition addresses :: "user list \<Rightarrow> (uuid \<times> string) set" where
  "addresses us = (\<lambda>u. (user_id u, user_email u)) ` set us"

definition mail_ok :: "user list \<Rightarrow> mail_token list \<Rightarrow> mailed \<Rightarrow> bool" where
  "mail_ok us ts L \<longleftrightarrow> (\<forall>t\<in>set ts. \<exists>e. (mtk_user t, e) \<in> addresses us \<and> (e, mtk_token t) \<in> set L)"

definition auth_good :: "auth_db \<times> mailed \<Rightarrow> bool" where
  "auth_good x \<longleftrightarrow> accounts_ok (fst x) \<and> mail_ok (users (au_core (fst x))) (email_tokens (fst x)) (snd x)"

subsection \<open>What the parts of a step keep\<close>

lemma tokens_ok_insert:
  assumes "insert_mail_token t ts = Inr ts'" "tokens_ok us ts" "mtk_user t \<in> user_id ` set us"
  shows "tokens_ok us ts'" "ts' = ts @ [t]" "mtk_user t \<notin> mtk_user ` set ts"
proof -
  have t: "mtk_user t \<notin> mtk_user ` set ts" "mtk_token t \<notin> mtk_token ` set ts" "ts' = ts @ [t]"
    using assms(1) by (simp_all add: insert_mail_token_def split: if_splits)
  then show "tokens_ok us ts'" using assms(2,3) by (simp add: tokens_ok_def unique_by_append1)
  from t show "ts' = ts @ [t]" "mtk_user t \<notin> mtk_user ` set ts" by simp_all
qed

lemma tokens_ok_del: "tokens_ok us ts \<Longrightarrow> tokens_ok us (row_del key k ts)"
  by (auto simp: tokens_ok_def unique_by_row_del)

lemma tokens_ok_users: "user_id ` set us \<subseteq> user_id ` set us' \<Longrightarrow> tokens_ok us ts \<Longrightarrow> tokens_ok us' ts"
  unfolding tokens_ok_def by blast

lemma replace_token_Inr:
  assumes "replace_token t ts = Inr ts'" "tokens_ok us ts" "mtk_user t \<in> user_id ` set us"
  shows "tokens_ok us ts'" "set ts' \<subseteq> insert t (set ts)"
proof -
  obtain old :: "mail_token option" where "insert_mail_token t (case old of None \<Rightarrow> ts | Some x \<Rightarrow> row_del mtk_token (mtk_token x) ts) = Inr ts'"
    using assms(1) unfolding replace_token_def ebind_eq_Inr by (elim exE conjE) (rule that, assumption)
  moreover define ts0 where "ts0 = (case old of None \<Rightarrow> ts | Some x \<Rightarrow> row_del mtk_token (mtk_token x) ts)"
  ultimately have t0: "insert_mail_token t ts0 = Inr ts'" "ts0 = ts \<or> (\<exists>x. ts0 = row_del mtk_token x ts)"
    by (auto split: option.split)
  from t0(2) have "tokens_ok us ts0" using tokens_ok_del [OF assms(2), of mtk_token] assms(2) by (elim disjE exE) simp_all
  note ins = tokens_ok_insert [OF t0(1) this assms(3)]
  show "tokens_ok us ts'" by (rule ins(1))
  show "set ts' \<subseteq> insert t (set ts)" using ins(2) t0(2) by auto
qed

lemma users_ok_append:
  "users_ok us \<Longrightarrow> user_id u \<notin> user_id ` set us \<Longrightarrow> user_email u \<notin> user_email ` set us \<Longrightarrow> user_row_ok u \<Longrightarrow> users_ok (us @ [u])"
  by (simp add: users_ok_def unique_by_append1)

lemma credentials_ok_append:
  assumes "credentials_ok us cs" "cre_user c = user_id u" "cre_google c = None \<or> cre_google c \<notin> cre_google ` set cs"
  shows "credentials_ok (us @ [u]) (cs @ [c])"
proof -
  have old: "\<forall>a\<in>set cs. \<forall>b\<in>set cs. cre_google a \<noteq> None \<and> cre_google a = cre_google b \<longrightarrow> cre_user a = cre_user b"
    and ids: "map cre_user cs = map user_id us"
    using assms(1) unfolding credentials_ok_def by blast+
  have new: "cre_google c \<noteq> None \<Longrightarrow> a \<in> set cs \<Longrightarrow> cre_google a \<noteq> cre_google c" for a using assms(3) by force
  have "cre_user a = cre_user b" if "a \<in> set (cs @ [c])" "b \<in> set (cs @ [c])" "cre_google a \<noteq> None" "cre_google a = cre_google b" for a b
  proof (cases "a = c \<or> b = c")
    case True
    then have "a = c \<and> b = c" using that new [of a] new [of b] by (metis Un_iff empty_iff empty_set insert_iff list.simps(15) set_append)
    then show ?thesis by simp
  next
    case False
    then have "a \<in> set cs" "b \<in> set cs" using that(1,2) by simp_all
    with that(3,4) old show ?thesis by blast
  qed
  then show ?thesis unfolding credentials_ok_def
    by (intro conjI ballI impI) (simp add: ids assms(2), blast)
qed

lemma ids_cong:
  assumes "map user_id us' = map user_id us"
  shows "credentials_ok us' cs = credentials_ok us cs" "tokens_ok us' ts = tokens_ok us ts"
proof -
  have i: "user_id ` set us' = user_id ` set us" using arg_cong [OF assms, of set] by simp
  show "credentials_ok us' cs = credentials_ok us cs" unfolding credentials_ok_def assms ..
  show "tokens_ok us' ts = tokens_ok us ts" unfolding tokens_ok_def i ..
qed

lemma row_upd_user:
  assumes "users_ok us" "u \<in> set us" "user_id u' = user_id u" "user_row_ok u'"
    "user_email u' = user_email u \<or> user_email u' \<notin> user_email ` set us"
  shows "users_ok (row_upd user_id (user_id u') (\<lambda>_. u') us)" "map user_id (row_upd user_id (user_id u') (\<lambda>_. u') us) = map user_id us"
    "user_email u' = user_email u \<Longrightarrow> addresses (row_upd user_id (user_id u') (\<lambda>_. u') us) = addresses us"
    "\<And>x. x \<noteq> user_id u \<Longrightarrow> (x, e) \<in> addresses (row_upd user_id (user_id u') (\<lambda>_. u') us) \<longleftrightarrow> (x, e) \<in> addresses us"
    "(user_id u, user_email u') \<in> addresses (row_upd user_id (user_id u') (\<lambda>_. u') us)"
proof -
  let ?us = "row_upd user_id (user_id u') (\<lambda>_. u') us"
  have uid: "unique_by user_id us" and uem: "unique_by user_email us" and ok: "\<forall>x\<in>set us. user_row_ok x"
    using assms(1) by (simp_all add: users_ok_def list_all_iff)
  show ids: "map user_id ?us = map user_id us" by (simp add: row_upd_def)
  have only: "x \<in> set us \<Longrightarrow> user_id x = user_id u \<Longrightarrow> x = u" for x using unique_byD [OF uid _ assms(2)] by blast
  have em: "x \<in> set us \<Longrightarrow> user_email x = user_email u \<Longrightarrow> x = u" for x using unique_byD [OF uem _ assms(2)] by blast
  define g where "g x = (if user_id x = user_id u' then u' else x)" for x
  have up: "?us = map g us" by (simp add: row_upd_def g_def)
  have g: "x \<in> set us \<Longrightarrow> g x = (if x = u then u' else x)" for x using only assms(3) by (auto simp: g_def)
  have set_eq: "set ?us = insert u' (set us - {u})" using assms(2) g unfolding up by (auto simp: image_iff)
  have "distinct (map user_email ?us)"
  proof -
    have "distinct us" using uid unfolding unique_by_def distinct_map by (rule conjunct1)
    moreover have "x = y" if "x \<in> set us" "y \<in> set us" "user_email (g x) = user_email (g y)" for x y
    proof -
      have ne: "user_email u' \<noteq> user_email z" if "z \<in> set us" "z \<noteq> u" for z using assms(5) em that by auto
      consider "x = u" "y = u" | "x = u" "y \<noteq> u" | "x \<noteq> u" "y = u" | "x \<noteq> u" "y \<noteq> u" by blast
      then show ?thesis
      proof cases
        case 2
        with that g ne [of y] show ?thesis by simp
      next
        case 3
        with that g ne [of x] show ?thesis by (metis)
      next
        case 4
        with that g unique_byD [OF uem that(1,2)] show ?thesis by simp
      qed simp
    qed
    ultimately show ?thesis unfolding up distinct_map map_map comp_def by (auto intro: inj_onI)
  qed
  moreover have "list_all user_row_ok ?us" using ok assms(4) unfolding list_all_iff set_eq by blast
  ultimately show "users_ok ?us" using uid ids by (simp add: users_ok_def unique_by_def)
  have addr: "addresses ?us = insert (user_id u, user_email u') ((\<lambda>x. (user_id x, user_email x)) ` (set us - {u}))"
    unfolding addresses_def set_eq using assms(3) by simp
  show "(user_id u, user_email u') \<in> addresses ?us" unfolding addr by simp
  show "\<And>x. x \<noteq> user_id u \<Longrightarrow> (x, e) \<in> addresses ?us \<longleftrightarrow> (x, e) \<in> addresses us"
    unfolding addr unfolding addresses_def by auto
  show "addresses ?us = addresses us" if "user_email u' = user_email u"
    unfolding addr unfolding addresses_def that using assms(2) by blast
qed

lemma same_accounts_good:
  assumes "same_accounts s s'" "auth_good (s, L)"
  shows "auth_good (s', L)"
proof -
  have p: "map person (users (au_core s')) = map person (users (au_core s))" "email_tokens s' = email_tokens s"
    using assms(1) by (simp_all only: same_accounts_def)
  have "map (\<lambda>u. (user_id u, user_email u)) (users (au_core s')) = map (\<lambda>u. (user_id u, user_email u)) (users (au_core s))"
    by (rule map_person [OF p(1)]) (use person_fields in blast)
  then have "addresses (users (au_core s')) = addresses (users (au_core s))" unfolding addresses_def by (metis set_map)
  then show ?thesis using assms p(2) by (simp add: auth_good_def same_accounts_ok mail_ok_def)
qed

lemma save_account_good:
  assumes "auth_good (s, L)" "stored (au_core s) u" "user_id u' = user_id u" "user_email u' = user_email u" "user_row_ok u'"
  shows "auth_good (save_account u' s, L)"
proof -
  let ?us = "users (au_core s)"
  have "users_ok ?us" using assms(1) by (simp add: auth_good_def accounts_ok_def)
  note r = row_upd_user [OF this storedD [OF assms(2)] assms(3) assms(5) disjI1 [OF assms(4)]]
  from assms(1) show ?thesis using r(1) r(3) [OF assms(4)] ids_cong [OF r(2)]
    by (simp add: auth_good_def accounts_ok_def save_account_def set_core_def save_user_def mail_ok_def)
qed

lemma credentials_good:
  "auth_good (s, L) \<Longrightarrow> (\<And>c. cre_user (f c) = cre_user c \<and> cre_google (f c) = cre_google c) \<Longrightarrow>
    auth_good (s\<lparr>credentials := row_upd cre_user k f (credentials s)\<rparr>, L)"
  by (rule same_accounts_good [OF same_accounts_credentials])

lemma email_tokens_good:
  assumes "auth_good (s, L)" "tokens_ok (users (au_core s)) ts" "mail_ok (users (au_core s)) ts L'"
  shows "auth_good (s\<lparr>email_tokens := ts\<rparr>, L')"
  using assms by (simp add: auth_good_def accounts_ok_def)

lemma reset_tokens_good:
  assumes "auth_good (s, L)" "tokens_ok (users (au_core s)) ts"
  shows "auth_good (s\<lparr>reset_tokens := ts\<rparr>, L)"
  using assms by (simp add: auth_good_def accounts_ok_def)

lemma mail_ok_mono: "mail_ok us ts L \<Longrightarrow> set ts' \<subseteq> set ts \<Longrightarrow> set L \<subseteq> set L' \<Longrightarrow> mail_ok us ts' L'"
  unfolding mail_ok_def by blast

lemma email_tokens_del_good: "auth_good (s, L) \<Longrightarrow> auth_good (s\<lparr>email_tokens := row_del key k (email_tokens s)\<rparr>, L)"
  by (rule email_tokens_good) (auto simp: auth_good_def accounts_ok_def tokens_ok_del elim: mail_ok_mono)

lemma good_stored: "auth_good (s, L) \<Longrightarrow> u \<in> set (users (au_core s)) \<Longrightarrow> stored (au_core s) u"
  by (rule storedI) (simp_all add: auth_good_def accounts_ok_def users_ok_def)

lemma good_row_ok: "auth_good (s, L) \<Longrightarrow> stored (au_core s) u \<Longrightarrow> user_row_ok u"
  using storedD by (auto simp: auth_good_def accounts_ok_def users_ok_def list_all_iff)

lemma user_by_email_Some: "user_by_email s email = Some u \<Longrightarrow> u \<in> set (users (au_core s)) \<and> user_email u = email"
  unfolding user_by_email_def by (rule row_get_Some)

lemma user_by_id_stored: "user_by_id s k = Some u \<Longrightarrow> stored (au_core s) u \<and> user_id u = k"
  using row_get_Some unfolding user_by_id_def stored_def by fastforce

lemma auth_good_logs [simp]: "auth_good (s\<lparr>au_credit_logs := x\<rparr>, L) = auth_good (s, L)"
  by (simp add: auth_good_def accounts_ok_def)

lemma insert_account_good:
  assumes "insert_account u c s = Inr s1" "cre_user c = user_id u" "auth_good (s, L)"
  shows "auth_good (s1, L)" "stored (au_core s1) u" "email_tokens s1 = email_tokens s" "credentials s1 = credentials s @ [c]"
proof -
  let ?us = "users (au_core s)"
  have new: "user_id u \<notin> user_id ` set ?us" "user_email u \<notin> user_email ` set ?us" "user_row_ok u"
    "cre_google c = None \<or> cre_google c \<notin> cre_google ` set (credentials s)"
    and s1: "s1 = s\<lparr>au_core := (au_core s)\<lparr>users := ?us @ [u]\<rparr>, credentials := credentials s @ [c]\<rparr>"
    using assms(1) unfolding insert_account_def by (simp_all split: if_splits)
  have g: "users_ok ?us" "credentials_ok ?us (credentials s)" "tokens_ok ?us (email_tokens s)" "tokens_ok ?us (reset_tokens s)"
    "mail_ok ?us (email_tokens s) L"
    using assms(3) by (simp_all add: auth_good_def accounts_ok_def)
  have u: "users_ok (?us @ [u])" by (rule users_ok_append) (use g(1) new in simp_all)
  have c: "credentials_ok (?us @ [u]) (credentials s @ [c])" by (rule credentials_ok_append [OF g(2) assms(2) new(4)])
  have t: "tokens_ok (?us @ [u]) ts" if "tokens_ok ?us ts" for ts by (rule tokens_ok_users [OF _ that]) auto
  have m: "mail_ok (?us @ [u]) (email_tokens s) L" using g(5) unfolding mail_ok_def addresses_def by fastforce
  show "auth_good (s1, L)" using u c t [OF g(3)] t [OF g(4)] m by (simp add: auth_good_def accounts_ok_def s1)
  show "stored (au_core s1) u" using u by (intro storedI) (simp_all add: s1 users_ok_def)
  show "email_tokens s1 = email_tokens s" "credentials s1 = credentials s @ [c]" by (simp_all add: s1)
qed

lemma set_password_same: "same_accounts s (set_password k h s)"
  unfolding set_password_def by (rule same_accounts_credentials) simp

lemma register_good:
  assumes "register C cfg dr email password confirm sent now s = Inr (b, s')" "auth_good (s, L)"
  shows "auth_good (s', (email, dr_token dr) # L)"
proof -
  let ?u = "new_account (dr_user dr) email False (register_credits cfg)"
  let ?c = "new_credential (dr_user dr) (hash_password C (dr_salt dr) password) None None"
  let ?t = "verification_for (dr_user dr) (dr_token dr) now"
  obtain s1 r d ts where h: "insert_account ?u ?c s = Inr s1"
    "ensure_personal_org (dr_org dr) (dr_member dr) (dr_tail dr) ?u now (au_core s1) = Inr (r, d)"
    "insert_mail_token ?t (email_tokens s1) = Inr ts"
    "s' = s1\<lparr>au_core := d, email_tokens := ts, au_credit_logs := au_credit_logs s1 @ [welcome_bonus (dr_user dr) (register_credits cfg) now]\<rparr>"
    using assms(1) unfolding register_def Let_def by (elim bindE guard_E) (auto elim: bindE)
  have i: "cre_user ?c = user_id ?u" by (simp add: new_credential_def new_account_def)
  note ins = insert_account_good [OF h(1) i assms(2)]
  have uniq: "unique_by user_id (users (au_core s1))" using ins(1) by (simp add: auth_good_def accounts_ok_def users_ok_def)
  have p: "map person (users d) = map person (users (au_core s1))" by (rule people_ensure [OF h(2) uniq ins(2)])
  have same: "same_accounts s1 (set_core d s1)" by (rule same_accounts_set_core [OF p])
  have g: "auth_good (set_core d s1, L)" by (rule same_accounts_good [OF same ins(1)])
  have us: "user_id ` set (users d) = user_id ` set (users (au_core s1))" using arg_cong [OF same_people(1) [OF p], of set] by simp
  have mem: "mtk_user ?t \<in> user_id ` set (users d)"
    unfolding us using storedD [OF ins(2)] by (force simp: verification_for_def new_account_def)
  have "tokens_ok (users d) (email_tokens s1)" using g by (simp add: auth_good_def accounts_ok_def set_core_def)
  note tok = tokens_ok_insert [OF h(3) this mem]
  have "map (\<lambda>u. (user_id u, user_email u)) (users d) = map (\<lambda>u. (user_id u, user_email u)) (users (au_core s1))"
    by (rule map_person [OF p]) (use person_fields in blast)
  then have addr: "addresses (users d) = addresses (users (au_core s1))" unfolding addresses_def by (metis set_map)
  have "(dr_user dr, email) \<in> addresses (users d)"
    unfolding addr unfolding addresses_def using storedD [OF ins(2)] by (force simp: new_account_def)
  then have "mail_ok (users d) ts ((email, dr_token dr) # L)"
    using g tok(2) by (auto simp: auth_good_def set_core_def mail_ok_def verification_for_def)
  with email_tokens_good [OF g, of ts "(email, dr_token dr) # L"] tok(1) show ?thesis
    by (simp add: h(4) set_core_def)
qed

lemma check_login_same:
  assumes "check_login C dr email password s = Inr (u, s1)" "auth_good (s, L)"
  shows "same_accounts s s1" "stored (au_core s1) u" "u \<in> set (users (au_core s))" "user_email u = email" "user_is_verified u"
proof -
  obtain stale where h: "user_by_email s email = Some u" "user_is_verified u"
    "s1 = (if stale then set_password (user_id u) (hash_password C (dr_salt dr) password) s else s)"
    using assms(1) unfolding check_login_def by (elim bindE guard_E get_E) auto
  then show "same_accounts s s1" "u \<in> set (users (au_core s))" "user_email u = email" "user_is_verified u"
    using set_password_same user_by_email_Some [OF h(1)] by simp_all
  then show "stored (au_core s1) u" using good_stored [OF assms(2)] h(3) by (simp add: set_password_def)
qed

lemma issue_login_good:
  assumes "issue_login_response J cfg str_of dr now s0 s u = (res, s')" "auth_good (s, L)" "stored (au_core s) u" "auth_good (s0, L)"
  shows "auth_good (s', L)"
  using issue_login_same [OF assms(1) _ assms(3)] assms(2,4) same_accounts_good unfolding auth_good_def by (metis fst_conv)

lemma login_good:
  assumes "login C J cfg str_of dr email password now s = (res, s')" "auth_good (s, L)"
  shows "auth_good (s', L)"
proof (cases "check_login C dr email password s")
  case (Inl e)
  with assms show ?thesis by (simp add: login_def)
next
  case (Inr x)
  obtain u s1 where x: "x = (u, s1)" by (cases x)
  note c = check_login_same [OF Inr [unfolded x] assms(2)]
  have "issue_login_response J cfg str_of dr now s s1 u = (res, s')" using assms(1) by (simp add: login_def Inr x)
  from issue_login_good [OF this same_accounts_good [OF c(1) assms(2)] c(2) assms(2)] show ?thesis .
qed

lemma credentials_ok_google:
  assumes "credentials_ok us cs" "Some sub \<notin> cre_google ` set cs" "\<And>c. cre_user (f c) = cre_user c \<and> cre_google (f c) = Some sub"
  shows "credentials_ok us (row_upd cre_user k f cs)"
proof -
  have old: "\<forall>a\<in>set cs. \<forall>b\<in>set cs. cre_google a \<noteq> None \<and> cre_google a = cre_google b \<longrightarrow> cre_user a = cre_user b"
    and ids: "map cre_user cs = map user_id us"
    using assms(1) unfolding credentials_ok_def by blast+
  define g where "g c = (if cre_user c = k then f c else c)" for c
  have gu: "cre_user (g c) = cre_user c" and gg: "cre_google (g c) = (if cre_user c = k then Some sub else cre_google c)" for c
    using assms(3) by (simp_all add: g_def)
  have no: "c \<in> set cs \<Longrightarrow> cre_google c \<noteq> Some sub" for c using assms(2) by force
  have up: "row_upd cre_user k f cs = map g cs" by (simp add: row_upd_def g_def)
  have "cre_user a = cre_user b" if "a \<in> set cs" "b \<in> set cs" "cre_google (g a) \<noteq> None" "cre_google (g a) = cre_google (g b)" for a b
  proof (cases "cre_user a = k \<or> cre_user b = k")
    case True
    then show ?thesis using that(4) no [OF that(1)] no [OF that(2)] unfolding gg by (metis (full_types))
  next
    case False
    then have "cre_google (g a) = cre_google a" "cre_google (g b) = cre_google b" by (simp_all add: gg)
    then show ?thesis using that old by metis
  qed
  then have "\<forall>a\<in>set (map g cs). \<forall>b\<in>set (map g cs). cre_google a \<noteq> None \<and> cre_google a = cre_google b \<longrightarrow> cre_user a = cre_user b"
    unfolding set_map ball_simps gu by blast
  moreover have "map cre_user (map g cs) = map user_id us" using ids by (simp add: comp_def gu)
  ultimately show ?thesis unfolding credentials_ok_def up by blast
qed

lemma google_account_good:
  assumes "google_account C cfg dr sub email now s = Inr (u, s1)" "auth_good (s, L)"
  shows "auth_good (s1, L)" "stored (au_core s1) u"
proof -
  let ?us = "users (au_core s)"
  have cs: "credentials_ok ?us (credentials s)" using assms(2) by (simp add: auth_good_def accounts_ok_def)
  have "auth_good (s1, L) \<and> stored (au_core s1) u"
  proof (cases "row_get cre_google (Some sub) (credentials s)")
    case (Some c)
    have "cre_user c \<in> user_id ` set ?us"
      using row_get_Some [OF Some] cs unfolding credentials_ok_def by (metis image_eqI set_map)
    then obtain v where "user_by_id s (cre_user c) = Some v" by (metis not_Some_eq row_get_None user_by_id_def)
    with assms Some user_by_id_stored show ?thesis by (auto simp: google_account_def)
  next
    case none: None
    then have no: "Some sub \<notin> cre_google ` set (credentials s)" by (simp add: row_get_None)
    show ?thesis
    proof (cases "user_by_email s email")
      case (Some v)
      have v: "stored (au_core s) v" using good_stored [OF assms(2)] user_by_email_Some [OF Some] by blast
      have ls: "(u, s1) = link_google sub now v s"
        using assms(1) none Some by (auto simp: google_account_def Let_def errs)
      let ?v = "v\<lparr>user_is_verified := True\<rparr>"
      let ?f = "\<lambda>c. c\<lparr>cre_google := Some sub, cre_verified_at := (if user_is_verified v then cre_verified_at c else Some now)\<rparr>"
      have u: "u = ?v" and s1: "s1 = (save_account ?v s)\<lparr>credentials := row_upd cre_user (user_id v) ?f (credentials s)\<rparr>"
        using ls by (simp_all add: link_google_def Let_def save_account_def set_core_def)
      have "user_row_ok ?v" using good_row_ok [OF assms(2) v] by (simp add: user_row_ok_def)
      then have g: "auth_good (save_account ?v s, L)" by (intro save_account_good [OF assms(2) v]) simp_all
      have c: "credentials (save_account ?v s) = credentials s" by (simp add: save_account_def set_core_def)
      have "credentials_ok (users (au_core (save_account ?v s))) (row_upd cre_user (user_id v) ?f (credentials s))"
        by (rule credentials_ok_google [OF _ no]) (use g c in \<open>simp_all add: auth_good_def accounts_ok_def\<close>)
      then have "auth_good (s1, L)" using g by (simp add: s1 auth_good_def accounts_ok_def)
      moreover have "?v \<in> set (users (au_core s1))"
        using storedD [OF v] by (force simp: s1 save_account_def set_core_def save_user_def row_upd_def)
      ultimately show ?thesis using good_stored u by blast
    next
      case None
      let ?u = "new_account (dr_user dr) email True (register_credits cfg)"
      let ?c = "new_credential (dr_user dr) (hash_password C (dr_salt dr) (dr_password dr)) (Some sub) (Some now)"
      obtain s2 where s2: "insert_account ?u ?c s = Inr s2" "u = ?u"
        "s1 = s2\<lparr>au_credit_logs := au_credit_logs s2 @ [welcome_bonus (dr_user dr) (register_credits cfg) now]\<rparr>"
        using assms(1) none None unfolding google_account_def Let_def by (auto elim: bindE)
      have "cre_user ?c = user_id ?u" by (simp add: new_credential_def new_account_def)
      from insert_account_good [OF s2(1) this assms(2)] s2(2,3) show ?thesis by simp
    qed
  qed
  then show "auth_good (s1, L)" "stored (au_core s1) u" by simp_all
qed

lemma google_good:
  assumes "google_auth repr fetch C J cfg str_of dr id_token now s = (res, s')" "auth_good (s, L)"
  shows "auth_good (s', L)"
proof (cases "ebind (verify_google_id_token repr cfg fetch id_token) (\<lambda>(sub, email). google_account C cfg dr sub email now s)")
  case (Inl e)
  with assms show ?thesis by (simp add: google_auth_def)
next
  case (Inr x)
  obtain u s1 where x: "x = (u, s1)" by (cases x)
  obtain sub email where "google_account C cfg dr sub email now s = Inr (u, s1)"
    using Inr [unfolded x] by (auto elim: bindE)
  note g = google_account_good [OF this assms(2)]
  have "issue_login_response J cfg str_of dr now s s1 u = (res, s')" using assms(1) unfolding google_auth_def Inr x by simp
  from issue_login_good [OF this g assms(2)] show ?thesis .
qed

lemma verified_row: "user_row_ok (u\<lparr>user_is_verified := b\<rparr>) = user_row_ok u" "user_row_ok (u\<lparr>user_email := e\<rparr>) = user_row_ok u"
  by (simp_all add: user_row_ok_def)

lemma verify_email_Inr:
  assumes "verify_email token now s = Inr s'"
  obtains t u where "row_get mtk_token token (email_tokens s) = Some t" "now \<le> mtk_expires t" "user_by_id s (mtk_user t) = Some u"
    "s' = (save_account (u\<lparr>user_is_verified := True\<rparr>) s)
       \<lparr>credentials := row_upd cre_user (user_id u) (\<lambda>c. c\<lparr>cre_verified_at := Some now\<rparr>) (credentials s),
        email_tokens := row_del mtk_token token (email_tokens s)\<rparr>"
  using assms unfolding verify_email_def Let_def
  by (elim bindE guard_E get_E) (rule that, auto simp: save_account_def set_core_def)

lemma verified_good:
  assumes "auth_good (s, L)" "stored (au_core s) u"
  shows "auth_good ((save_account (u\<lparr>user_is_verified := b\<rparr>) s)
       \<lparr>credentials := row_upd cre_user k (\<lambda>c. c\<lparr>cre_verified_at := v\<rparr>) (credentials s)\<rparr>, L)"
proof -
  have "auth_good (save_account (u\<lparr>user_is_verified := b\<rparr>) s, L)"
    by (rule save_account_good [OF assms]) (simp_all add: verified_row good_row_ok [OF assms])
  from credentials_good [OF this, of "\<lambda>c. c\<lparr>cre_verified_at := v\<rparr>" k] show ?thesis by (simp add: save_account_def set_core_def)
qed

lemma verify_email_good:
  assumes "verify_email token now s = Inr s'" "auth_good (s, L)"
  shows "auth_good (s', L)"
proof (rule verify_email_Inr [OF assms(1)])
  fix t u
  assume u: "user_by_id s (mtk_user t) = Some u" and s': "s' = (save_account (u\<lparr>user_is_verified := True\<rparr>) s)
       \<lparr>credentials := row_upd cre_user (user_id u) (\<lambda>c. c\<lparr>cre_verified_at := Some now\<rparr>) (credentials s),
        email_tokens := row_del mtk_token token (email_tokens s)\<rparr>"
  have "stored (au_core s) u" using user_by_id_stored [OF u] by simp
  from email_tokens_del_good [OF verified_good [OF assms(2) this, of "user_id u" "Some now" True], of mtk_token token]
  show ?thesis by (simp add: s' save_account_def set_core_def)
qed

lemma force_verify_good:
  assumes "force_verify uid now s = Inr s'" "auth_good (s, L)"
  shows "auth_good (s', L)"
proof -
  obtain u where u: "user_by_id s uid = Some u" using assms(1) unfolding force_verify_def by (elim bindE get_E)
  show ?thesis
  proof (cases "user_is_verified u")
    case True
    with assms u show ?thesis by (simp add: force_verify_def)
  next
    case False
    let ?s = "(save_account (u\<lparr>user_is_verified := True\<rparr>) s)
       \<lparr>credentials := row_upd cre_user uid (\<lambda>c. c\<lparr>cre_verified_at := Some now\<rparr>) (credentials s)\<rparr>"
    have g: "auth_good (?s, L)" using user_by_id_stored [OF u] by (intro verified_good [OF assms(2)]) simp
    have "s' = ?s\<lparr>email_tokens := email_tokens s\<rparr> \<or> (\<exists>k. s' = ?s\<lparr>email_tokens := row_del mtk_token k (email_tokens s)\<rparr>)"
      using assms(1) u False by (auto simp: force_verify_def save_account_def set_core_def Let_def errs split: option.splits)
    moreover have t: "?s\<lparr>email_tokens := email_tokens s\<rparr> = ?s" "email_tokens ?s = email_tokens s" by (simp_all add: save_account_def set_core_def)
    ultimately consider "s' = ?s" | k where "s' = ?s\<lparr>email_tokens := row_del mtk_token k (email_tokens ?s)\<rparr>" by (metis (no_types))
    then show ?thesis
    proof cases
      case 1
      with g show ?thesis by (simp only:)
    next
      case 2
      with email_tokens_del_good [OF g] show ?thesis by (simp only:)
    qed
  qed
qed

lemma resend_good:
  assumes "resend_verification dr email sent now s = Inr (b, s')" "auth_good (s, L)"
  shows "auth_good (s', if email_tokens s' = email_tokens s then L else (email, dr_token dr) # L)"
proof (cases "s' = s")
  case False
  then obtain u ts where h: "user_by_email s email = Some u"
    "replace_token (verification_for (user_id u) (dr_token dr) now) (email_tokens s) = Inr ts" "s' = s\<lparr>email_tokens := ts\<rparr>"
    using assms(1) by (auto simp: resend_verification_def errs split: option.splits if_splits)
  have u: "u \<in> set (users (au_core s))" "user_email u = email" using user_by_email_Some [OF h(1)] by simp_all
  have g: "tokens_ok (users (au_core s)) (email_tokens s)" "mail_ok (users (au_core s)) (email_tokens s) L"
    using assms(2) by (simp_all add: auth_good_def accounts_ok_def)
  have "mtk_user (verification_for (user_id u) (dr_token dr) now) \<in> user_id ` set (users (au_core s))" using u by (simp add: verification_for_def)
  note rt = replace_token_Inr [OF h(2) g(1) this]
  have "(user_id u, email) \<in> addresses (users (au_core s))" unfolding addresses_def using u by force
  then have "mail_ok (users (au_core s)) ts ((email, dr_token dr) # L)"
    using rt(2) g(2) unfolding mail_ok_def by (fastforce simp: verification_for_def)
  with rt(1) have m: "auth_good (s', (email, dr_token dr) # L)" unfolding h(3) by (intro email_tokens_good [OF assms(2)])
  show ?thesis
  proof (cases "email_tokens s' = email_tokens s")
    case True
    with h(3) have "s' = s" by simp
    with assms(2) show ?thesis by simp
  qed (use m in simp)
qed (use assms in simp)

lemma forgot_good:
  assumes "forgot_password dr email now s = Inr s'" "auth_good (s, L)"
  shows "auth_good (s', L)"
proof (cases "user_by_email s email")
  case (Some u)
  let ?t = "\<lparr>mtk_user = user_id u, mtk_token = dr_token dr, mtk_expires = now + hours_us 1\<rparr>"
  obtain ts where h: "replace_token ?t (reset_tokens s) = Inr ts" "s' = s\<lparr>reset_tokens := ts\<rparr>"
    using assms(1) Some by (auto simp: forgot_password_def errs)
  have "tokens_ok (users (au_core s)) (reset_tokens s)" using assms(2) by (simp add: auth_good_def accounts_ok_def)
  from replace_token_Inr(1) [OF h(1) this] user_by_email_Some [OF Some] have "tokens_ok (users (au_core s)) ts" by simp
  with reset_tokens_good [OF assms(2)] h(2) show ?thesis by simp
qed (use assms in \<open>simp add: forgot_password_def\<close>)

lemma reset_Inr:
  assumes "reset_password C dr token p confirm now s = Inr s'"
  obtains t u where "row_get mtk_token token (reset_tokens s) = Some t" "now \<le> mtk_expires t" "user_by_id s (mtk_user t) = Some u"
    "p = confirm" "s' = (set_password (user_id u) (hash_password C (dr_salt dr) p) s)\<lparr>reset_tokens := row_del mtk_token token (reset_tokens s)\<rparr>"
  using assms unfolding reset_password_def Let_def
  by (elim bindE guard_E get_E) (rule that, auto simp: set_password_def)

lemma reset_good:
  assumes "reset_password C dr token p confirm now s = Inr s'" "auth_good (s, L)"
  shows "auth_good (s', L)"
proof (rule reset_Inr [OF assms(1)])
  fix u
  assume s': "s' = (set_password (user_id u) (hash_password C (dr_salt dr) p) s)\<lparr>reset_tokens := row_del mtk_token token (reset_tokens s)\<rparr>"
  have g: "auth_good (set_password (user_id u) (hash_password C (dr_salt dr) p) s, L)" by (rule same_accounts_good [OF set_password_same assms(2)])
  have "reset_tokens (set_password (user_id u) (hash_password C (dr_salt dr) p) s) = reset_tokens s" by (simp add: set_password_def)
  moreover have "tokens_ok (users (au_core x)) (row_del mtk_token token (reset_tokens x))" if "auth_good (x, L)" for x
    using that by (simp add: auth_good_def accounts_ok_def tokens_ok_del)
  ultimately show ?thesis using reset_tokens_good [OF g] g unfolding s' by metis
qed

lemma refresh_good:
  assumes "refresh J cfg parse str_of up dr body cookie now st s = (res, st', s')" "auth_good (s, L)"
  shows "auth_good (s', L)"
proof (cases "s' = s")
  case False
  obtain R c where st: "st = (R, c)" by (cases st)
  from False assms(1) obtain p u oid u1 s1 where h: "refresh_user parse s p = Inr u" "settle_org dr now s u = Inr (oid, u1, s1)"
    "s' = save_account (u1\<lparr>user_last_active := Some oid\<rparr>) s1"
    by (auto simp: refresh_def st Let_def split: option.splits prod.splits sum.splits if_splits)
  have "stored (au_core s) u" using h(1) by (auto simp: refresh_user_def errs dest: user_by_id_stored)
  moreover have ok: "accounts_ok s" using assms(2) by (simp add: auth_good_def)
  ultimately have so: "same_accounts s s1" "stored (au_core s1) u1" using settle_org_same [OF h(2)] by blast+
  have "accounts_ok s1" using ok same_accounts_ok [OF so(1)] by simp
  from save_last_active_same [OF this so(2)] so(1) have "same_accounts s s'" unfolding h(3) using same_accounts_trans by blast
  from same_accounts_good [OF this assms(2)] show ?thesis .
qed (use assms in simp)

lemma profile_good:
  assumes "update_profile C dr u email password sent now s = Inr (b, s')" "stored (au_core s) u" "auth_good (s, L)"
  shows "auth_good (s', if b = None then L else (email, dr_token dr) # L)"
proof (cases "email = user_email u")
  case True
  with assms show ?thesis by (auto simp: update_profile_def elim: bindE)
next
  case False
  let ?u = "u\<lparr>user_email := email, user_is_verified := False\<rparr>" and ?us = "users (au_core s)"
  let ?t = "verification_for (user_id u) (dr_token dr) now" and ?L = "(email, dr_token dr) # L"
  obtain ts where h: "user_by_email s email = None" "insert_mail_token ?t (email_tokens s) = Inr ts" "b = Some sent"
    "s' = (save_account ?u s)\<lparr>credentials := row_upd cre_user (user_id u) (\<lambda>c. c\<lparr>cre_verified_at := None\<rparr>) (credentials s), email_tokens := ts\<rparr>"
    using assms(1) False unfolding update_profile_def Let_def by (elim bindE) (auto simp: save_account_def set_core_def elim!: bindE guard_E)
  have g: "users_ok ?us" "tokens_ok ?us (email_tokens s)" "mail_ok ?us (email_tokens s) L"
    using assms(3) by (simp_all add: auth_good_def accounts_ok_def)
  have mem: "u \<in> set ?us" by (rule storedD [OF assms(2)])
  have fresh: "user_email ?u \<notin> user_email ` set ?us" using h(1) by (simp add: user_by_email_def row_get_None)
  have ok: "user_row_ok ?u" using good_row_ok [OF assms(3,2)] by (simp add: verified_row)
  have uid: "user_id ?u = user_id u" by simp
  let ?us' = "row_upd user_id (user_id u) (\<lambda>_. ?u) ?us"
  note r = row_upd_user [OF g(1) mem uid ok disjI2 [OF fresh], unfolded uid]
  have "mtk_user ?t \<in> user_id ` set ?us" using mem by (simp add: verification_for_def)
  note ins = tokens_ok_insert [OF h(2) g(2) this]
  have "mail_ok ?us' ts ?L"
  proof -
    have "\<exists>e. (mtk_user t, e) \<in> addresses ?us' \<and> (e, mtk_token t) \<in> set ?L" if "t \<in> set (email_tokens s)" for t
    proof -
      have "mtk_user t \<noteq> user_id u" using ins(3) that by (force simp: verification_for_def)
      with g(3) that r(4) show ?thesis unfolding mail_ok_def by (metis list.set_intros(2))
    qed
    moreover have "(mtk_user ?t, email) \<in> addresses ?us'" using r(5) by (simp add: verification_for_def)
    ultimately show ?thesis unfolding mail_ok_def ins(2) by (auto simp: verification_for_def)
  qed
  moreover have "credentials_ok ?us' (row_upd cre_user (user_id u) (\<lambda>c. c\<lparr>cre_verified_at := None\<rparr>) (credentials s))"
    using assms(3) ids_cong(1) [OF r(2)] credentials_ok_cong [of "row_upd cre_user (user_id u) (\<lambda>c. c\<lparr>cre_verified_at := None\<rparr>) (credentials s)" "credentials s"]
    by (simp add: auth_good_def accounts_ok_def row_upd_def)
  moreover have "tokens_ok ?us' ts" "tokens_ok ?us' (reset_tokens s)"
    using ids_cong(2) [OF r(2)] ins(1) assms(3) by (simp_all add: auth_good_def accounts_ok_def)
  ultimately show ?thesis using r(1) h(3)
    by (simp add: h(4) auth_good_def accounts_ok_def save_account_def set_core_def save_user_def)
qed

lemma current_user_good:
  assumes "get_current_user J parse up1 up2 dr header now R c s = (Inr (who, s'), c')" "auth_good (s, L)"
  shows "auth_good (s', L)"
proof -
  obtain p u x where "user_of_claims parse s p = Inr u" "active_org parse dr now s u (cl_org p) = Inr (x, s')"
    using assms(1) by (auto simp: get_current_user_def errs split: sum.splits prod.splits)
  moreover then have "stored (au_core s) u" by (auto simp: user_of_claims_def errs dest: user_by_id_stored)
  ultimately have "same_accounts s s'" using default_org_same assms(2) unfolding auth_good_def by (metis fst_conv)
  from same_accounts_good [OF this assms(2)] show ?thesis .
qed

lemma patch_me_good:
  assumes "patch_me u l s = Inr s'" "stored (au_core s) u" "auth_good (s, L)"
  shows "auth_good (s', L)"
proof -
  obtain raw where "raw \<in> {''id'', ''en''}" "s' = save_account (u\<lparr>user_locale := raw\<rparr>) s"
    using assms(1) by (auto simp: patch_me_def Let_def errs)
  with good_row_ok [OF assms(3,2)] show ?thesis by (auto intro!: save_account_good [OF assms(3,2)] simp: user_row_ok_def)
qed

lemma change_good:
  assumes "change_password C cfg str_of up dr u cur p confirm now st s = Inr (st', s')" "auth_good (s, L)"
  shows "auth_good (s', L)"
proof -
  have "s' = set_password (user_id u) (hash_password C (dr_salt dr) p) s"
    using assms(1) unfolding change_password_def by (elim bindE) simp
  with same_accounts_good [OF set_password_same assms(2)] show ?thesis by simp
qed

lemma auth_step_good: "auth_step x y \<Longrightarrow> auth_good x \<Longrightarrow> auth_good y"
proof (induction rule: auth_step.induct)
  case (other d s L)
  from same_accounts_good [OF same_accounts_set_core [OF other(1)] other(2)] show ?case .
qed (fact register_good login_good google_good verify_email_good resend_good forgot_good reset_good refresh_good profile_good change_good
    patch_me_good force_verify_good current_user_good)+

subsection \<open>Accounts and addresses\<close>

lemma auth_steps_good:
  assumes "auth_step\<^sup>*\<^sup>* (s0, []) (s, L)" "accounts_ok s0" "email_tokens s0 = []"
  shows "auth_good (s, L)"
proof -
  have "auth_good (s0, [])" using assms(2,3) by (simp add: auth_good_def mail_ok_def)
  with assms(1) show ?thesis by (induction rule: rtranclp_induct) (blast intro: auth_step_good)+
qed



definition crypto0 :: crypto where
  "crypto0 = \<lparr>digest = (\<lambda>p. p), hashpw = (\<lambda>p salt. CHR ''#'' # p), checkpw = (\<lambda>p h. Inr (h = CHR ''#'' # p))\<rparr>"

definition settings0 :: auth_settings where
  "settings0 = \<lparr>access_minutes = 30, refresh_days = 7, register_credits = 30, google_client_id = []\<rparr>"

definition draws0 :: draws where
  "draws0 = \<lparr>dr_user = 1, dr_org = 20, dr_member = 21, dr_tail = ''a1'', dr_token = ''t0'', dr_password = [], dr_salt = [],
     dr_access_jti = ''j1'', dr_refresh_jti = ''j2''\<rparr>"

definition auth_db0 :: auth_db where
  "auth_db0 = \<lparr>au_core = seed_db, credentials = [], email_tokens = [], reset_tokens = [], au_credit_logs = []\<rparr>"

definition auth_db1 :: auth_db where
  "auth_db1 = (case register crypto0 settings0 draws0 ''a@x.id'' ''Secret1!'' ''Secret1!'' True 0 auth_db0 of Inl _ \<Rightarrow> auth_db0 | Inr (_, s) \<Rightarrow> s)"

lemma auth_sample_run: "auth_step\<^sup>*\<^sup>* (auth_db0, []) (auth_db1, [(''a@x.id'', ''t0'')])" "accounts_ok auth_db0" "email_tokens auth_db0 = []"
proof -
  have "\<not> isl (register crypto0 settings0 draws0 ''a@x.id'' ''Secret1!'' ''Secret1!'' True 0 auth_db0)" by code_simp
  then obtain b s where r: "register crypto0 settings0 draws0 ''a@x.id'' ''Secret1!'' ''Secret1!'' True 0 auth_db0 = Inr (b, s)"
    by (metis isl_def obj_sumE surj_pair)
  have db1: "auth_db1 = s" unfolding auth_db1_def r by simp
  have tok: "[(''a@x.id'', ''t0'')] = [(''a@x.id'', dr_token draws0)]" by (simp add: draws0_def)
  from auth_step.register [OF r, of "[]"] show "auth_step\<^sup>*\<^sup>* (auth_db0, []) (auth_db1, [(''a@x.id'', ''t0'')])"
    unfolding db1 tok by (rule r_into_rtranclp)
  show "accounts_ok auth_db0" "email_tokens auth_db0 = []"
    by (simp_all add: accounts_ok_def auth_db0_def seed_db_def empty_db_def users_ok_def credentials_ok_def tokens_ok_def)
qed



subsection \<open>A refresh token is used once\<close>

lemma refresh_revokes:
  assumes "refresh J cfg parse str_of up dr body cookie now (R, c) s = (Inr x, (R1, c1), s1)" "refresh_text body cookie = Some token"
    "jwt_open J token = Some p" "cl_jti p = Some j"
  shows "is_token_revoked j c1" "up 2 \<Longrightarrow> \<exists>sub. R1 = rv_set cfg (RevokedToken j) sub now R"
proof -
  obtain q c0 where d: "decode_token_async (up 0) (up 1) J token now R c = (Inr q, c0)"
    using assms(1,2) unfolding refresh_def by (auto split: prod.splits sum.splits)
  then have q: "q = p" using decode_async_Inr(1) [OF d] assms(3) by simp
  have "(R1, c1) = revoke_token cfg (up 2) j (the (cl_sub p)) now (R, c0)"
    using assms(1,2,4) d q by (auto simp: refresh_def Let_def split: sum.splits prod.splits)
  then show "is_token_revoked j c1" "up 2 \<Longrightarrow> \<exists>sub. R1 = rv_set cfg (RevokedToken j) sub now R" by (auto simp: revoke_token_def)
qed


definition jwt0 :: jwt where
  "jwt0 = \<lparr>jwt_encode = (\<lambda>_. ''tok''), jwt_open = (\<lambda>t. if t = ''tok'' then Some (refresh_claims settings0 ''1'' ''j0'' 0) else None)\<rparr>"

definition refresh0 :: "auth_cache \<Rightarrow> auth_db \<Rightarrow> (string \<times> string) result \<times> (rv_redis \<times> auth_cache) \<times> auth_db" where
  "refresh0 c s = refresh jwt0 settings0 (\<lambda>t. if t = ''1'' then Some 1 else None) (\<lambda>_. ''1'') (\<lambda>_. True) draws0 (Some ''tok'') None 10
     (\<lambda>_. None, c) s"


subsection \<open>A reset sets one password\<close>

lemma credential_set_password:
  "credential_of (set_password k h s) v = (if v = k then map_option (\<lambda>c. c\<lparr>cre_hash := h\<rparr>) (credential_of s v) else credential_of s v)"
  by (simp add: credential_of_def set_password_def row_get_upd)

lemma account_has_credential:
  assumes "accounts_ok s" "user_by_id s k = Some u"
  shows "credential_of s k \<noteq> None"
proof -
  have "k \<in> user_id ` set (users (au_core s))" using row_get_Some [OF assms(2) [unfolded user_by_id_def]] by auto
  then have "k \<in> cre_user ` set (credentials s)" using assms(1) unfolding accounts_ok_def credentials_ok_def by (metis set_map)
  then show ?thesis by (simp add: credential_of_def row_get_None)
qed

text \<open>A reset needs an unexpired token and changes one thing, the password of the user it was issued to: the new password signs in,
  the credentials of everybody else and all user rows stay, and the token is spent, so that no later reset can use it.\<close>

theorem reset_sets_one_password:
  assumes "reset_password C dr token p confirm now s = Inr s'" "accounts_ok s"
    "\<forall>x salt. hashpw C x salt \<noteq> [] \<and> checkpw C x (hashpw C x salt) = Inr True"
  shows "\<exists>t u. t \<in> set (reset_tokens s) \<and> mtk_token t = token \<and> now \<le> mtk_expires t \<and> user_by_id s (mtk_user t) = Some u
    \<and> verify_password C p (map_option cre_hash (credential_of s' (user_id u))) = Inr True
    \<and> (\<forall>v. v \<noteq> user_id u \<longrightarrow> credential_of s' v = credential_of s v) \<and> users (au_core s') = users (au_core s)
    \<and> (\<forall>dr' p' q' now'. \<exists>m. reset_password C dr' token p' q' now' s' = Inl (HTTPError 400 m))"
proof (rule reset_Inr [OF assms(1)])
  fix t u
  assume t: "row_get mtk_token token (reset_tokens s) = Some t" "now \<le> mtk_expires t" "user_by_id s (mtk_user t) = Some u"
    and s': "s' = (set_password (user_id u) (hash_password C (dr_salt dr) p) s)\<lparr>reset_tokens := row_del mtk_token token (reset_tokens s)\<rparr>"
  have id: "user_id u = mtk_user t" using user_by_id_stored [OF t(3)] by simp
  have c: "credential_of s' v = credential_of (set_password (user_id u) (hash_password C (dr_salt dr) p) s) v" for v
    by (simp add: s' credential_of_def)
  obtain k where k: "credential_of s (user_id u) = Some k" using account_has_credential [OF assms(2) t(3)] id by auto
  have h: "map_option cre_hash (credential_of s' (user_id u)) = Some (hash_password C (dr_salt dr) p)"
    by (simp add: c credential_set_password k)
  have "verify_password C p (map_option cre_hash (credential_of s' (user_id u))) = Inr True"
    unfolding h using assms(3) by (simp add: verify_password_def hash_password_def)
  moreover have "\<forall>v. v \<noteq> user_id u \<longrightarrow> credential_of s' v = credential_of s v" by (simp add: c credential_set_password)
  moreover have "users (au_core s') = users (au_core s)" by (simp add: s' set_password_def)
  moreover have "\<exists>m. reset_password C dr' token p' q' now' s' = Inl (HTTPError 400 m)" for dr' p' q' now'
  proof -
    have "row_get mtk_token token (reset_tokens s') = None" by (simp add: s' row_get_del)
    then show ?thesis by (simp add: reset_password_def raise_if_def)
  qed
  ultimately show ?thesis using t row_get_Some [OF t(1)] by blast
qed

subsection \<open>Where the code does not do what it means to\<close>

text \<open>Signing out everywhere (also after a change of the password) revokes the user, not the tokens he has: nothing removes the mark, so
  in that process also every token he is given later is refused, although signing in succeeds.\<close>

lemma logout_all_locks_out:
  assumes "\<forall>cl. jwt_open J (jwt_encode J cl) = Some cl" "logout_all cfg up uid t0 (R, c) = (n, R1, c1)"
  shows "\<exists>m. decode_token_async up1 up2 J (create_access_token J cfg uid email adm oid j t) now R' c1 = (Inl (PyJWTError m), c1)"
proof -
  have "uid \<in> set (rev_users c1)" using assms(2) by (auto simp: logout_all_def cache_user_def)
  then have "\<exists>m. decode_jwt_and_cache J c1 (create_access_token J cfg uid email adm oid j t) now = Inl (PyJWTError m)"
    using assms(1) by (auto simp: decode_jwt_and_cache_def jwt_decode_def create_access_token_def access_claims_def raise_if_def)
  with decode_refused show ?thesis by blast
qed

text \<open>The synchronous check swallows its own refusal: a token that Redis reports as revoked is accepted once more.\<close>

lemma sync_decode_accepts_revoked:
  "decode_jwt_and_cache J c token now = Inr p \<Longrightarrow> fst (decode_token up1 up2 J token now R c) = Inr p"
  by (simp add: decode_token_def)

text \<open>Signing in with Google verifies an account somebody else may have registered with that address, and keeps its password.\<close>

lemma google_keeps_foreign_password:
  assumes "google_account C cfg dr sub email now s = Inr (u', s1)" "row_get cre_google (Some sub) (credentials s) = None"
    "user_by_email s email = Some u"
  shows "user_is_verified u'" "user_id u' = user_id u" "map_option cre_hash (credential_of s1 v) = map_option cre_hash (credential_of s v)"
proof -
  have l: "(u', s1) = link_google sub now u s" using assms by (auto simp: google_account_def Let_def errs)
  then show "user_is_verified u'" "user_id u' = user_id u" by (simp_all add: link_google_def Let_def)
  show "map_option cre_hash (credential_of s1 v) = map_option cre_hash (credential_of s v)"
    using l by (simp add: link_google_def Let_def credential_of_def save_account_def set_core_def row_get_upd option.map_comp comp_def)
qed

text \<open>While a verification is pending the address can not be changed again: the second token violates the unique column, unhandled.\<close>

lemma second_email_change_crashes:
  assumes "current_password_ok C s u password = Inr ()" "email \<noteq> user_email u" "user_by_email s email = None"
    "user_id u \<in> mtk_user ` set (email_tokens s)"
  shows "update_profile C dr u email password sent now s = Inl IntegrityError"
  using assms by (simp add: update_profile_def insert_mail_token_def verification_for_def)

text \<open>Google's address is put in lower case, stored addresses are not: an account with an upper-case letter is not found, and a second
  account is opened.\<close>

lemma google_misses_upper_case:
  assumes "row_get cre_google (Some sub) (credentials s) = None" "lower email \<noteq> email" "users (au_core s) = [u]" "user_email u = email"
    "dr_user dr \<noteq> user_id u" "0 \<le> register_credits cfg"
  shows "\<exists>s1. google_account C cfg dr sub (lower email) now s = Inr (new_account (dr_user dr) (lower email) True (register_credits cfg), s1)"
proof -
  have none: "user_by_email s (lower email) = None" using assms(2-4) by (auto simp: user_by_email_def row_get_None)
  have "Some sub \<notin> cre_google ` set (credentials s)" using assms(1) by (simp add: row_get_None)
  then obtain s2 where "insert_account (new_account (dr_user dr) (lower email) True (register_credits cfg))
      (new_credential (dr_user dr) (hash_password C (dr_salt dr) (dr_password dr)) (Some sub) (Some now)) s = Inr s2"
    using assms(2-6) by (simp add: insert_account_def new_account_def new_credential_def user_row_ok_def)
  then show ?thesis using assms(1) none by (simp add: google_account_def Let_def)
qed

end
