(* ===== verification/CustomHostnames.thy ===== *)
theory CustomHostnames
  imports Orgs Json
begin

text \<open>
  Custom hostnames of status pages at Cloudflare (\<open>services/cloudflare_custom_hostnames.py\<close>). The HTTP client is a
  parameter: what it answers to a request, or that it fails. \<open>str\<close> of a JSON value that is not a string is a
  parameter of the settings.
\<close>

record cf_settings =
  cf_api_token :: string
  cf_zone_id :: string
  cf_stub_active :: bool
  cf_py_str :: "json \<Rightarrow> string"

record cf_request =
  cfq_method :: string
  cfq_path :: string
  cfq_query :: "(string \<times> string) list"
  cfq_body :: "json option"
  cfq_auth :: string

datatype cf_reply = CfNoReply | CfReply nat "json option"   \<comment> \<open>status code and body, none if it is not JSON\<close>

type_synonym cf_transport = "cf_request \<Rightarrow> cf_reply"

record cf_hostname =
  cfh_id :: string
  cfh_hostname :: string
  cfh_status :: string
  cfh_ssl :: "string option"
  cfh_txt_name :: "string option"
  cfh_txt_value :: "string option"

datatype host_status = HostNone | HostPendingTxt | HostActive | HostFailed | HostSuspended

definition cf_configured :: "cf_settings \<Rightarrow> bool" where
  "cf_configured C \<longleftrightarrow> strip (cf_api_token C) \<noteq> [] \<and> strip (cf_zone_id C) \<noteq> []"

definition map_hostname_status :: "string option \<Rightarrow> string option \<Rightarrow> host_status" where
  "map_hostname_status ssl_status hostname_status =
     (let ssl = lower (str_or_empty ssl_status); host = lower (str_or_empty hostname_status) in
      if ssl \<in> {''expired'', ''deleted''} \<or> host \<in> {''deleted'', ''moved'', ''blocked''} then HostFailed
      else if infix_of ''error'' ssl \<or> infix_of ''timed_out'' ssl then HostFailed
      else if ssl = ''active'' then HostActive
      else HostPendingTxt)"

definition named_value :: "json \<Rightarrow> json \<Rightarrow> (string \<times> string) option" where   \<comment> \<open>two strings, neither empty\<close>
  "named_value name v = (case (name, v) of
     (JsonStr n, JsonStr x) \<Rightarrow> if n \<noteq> [] \<and> x \<noteq> [] then Some (n, x) else None
   | _ \<Rightarrow> None)"

definition jor :: "json \<Rightarrow> json \<Rightarrow> json" where "jor a b = (if truthy a then a else b)"

fun first_record :: "json list \<Rightarrow> (string \<times> string) option" where
  "first_record [] = None"
| "first_record (JsonObject rec # rest) =
     (case named_value (jor (jget ''txt_name'' rec) (jget ''name'' rec)) (jor (jget ''txt_value'' rec) (jget ''value'' rec)) of
        Some x \<Rightarrow> Some x | None \<Rightarrow> first_record rest)"
| "first_record (_ # rest) = first_record rest"

definition txt_from_result :: "json_dict \<Rightarrow> (string \<times> string) option" where
  "txt_from_result data =
     (case (case jget ''ownership_verification'' data of
          JsonObject own \<Rightarrow> named_value (jget ''name'' own) (jget ''value'' own) | _ \<Rightarrow> None) of
        Some x \<Rightarrow> Some x
      | None \<Rightarrow> (case jget ''ssl'' data of
          JsonObject ssl \<Rightarrow> (case jget ''validation_records'' ssl of JsonArray records \<Rightarrow> first_record records | _ \<Rightarrow> None)
        | _ \<Rightarrow> None))"

definition json_text :: "cf_settings \<Rightarrow> json \<Rightarrow> string" where   \<comment> \<open>\<open>str(v)\<close>\<close>
  "json_text C v = (case v of JsonStr s \<Rightarrow> s | _ \<Rightarrow> cf_py_str C v)"

definition parse_hostname :: "cf_settings \<Rightarrow> json_dict \<Rightarrow> cf_hostname result" where
  "parse_hostname C data =
     (let ssl = (case jget ''ssl'' data of JsonObject x \<Rightarrow> x | _ \<Rightarrow> []);
          ssl_status = jget ''status'' ssl;
          txt = txt_from_result data in
      ebind (case jget ''id'' data of JsonStr (c # s) \<Rightarrow> Inr (c # s)
             | _ \<Rightarrow> Inl (CloudflareHostnameError ''Cloudflare response missing id'' None)) (\<lambda>hid.
      ebind (case jget ''hostname'' data of JsonStr (c # s) \<Rightarrow> Inr (c # s)
             | _ \<Rightarrow> Inl (CloudflareHostnameError ''Cloudflare response missing hostname'' None)) (\<lambda>host.
      Inr \<lparr>cfh_id = hid, cfh_hostname = rstrip_dots (lower host),
        cfh_status = (if truthy (jget ''status'' data) then json_text C (jget ''status'' data) else []),
        cfh_ssl = (if truthy ssl_status then Some (json_text C ssl_status) else None),
        cfh_txt_name = map_option fst txt, cfh_txt_value = map_option snd txt\<rparr>)))"

definition cf_headers :: "cf_settings \<Rightarrow> string result" where
  "cf_headers C = (let token = strip (cf_api_token C) in
     if token = [] then Inl (CloudflareHostnameError ''Cloudflare API token not configured'' None)
     else Inr (''Bearer '' @ token))"

definition cf_zone :: "cf_settings \<Rightarrow> string result" where
  "cf_zone C = (let zone = strip (cf_zone_id C) in
     if zone = [] then Inl (CloudflareHostnameError ''Cloudflare zone id not configured'' None) else Inr zone)"

definition cf_error_message :: "json_dict \<Rightarrow> string" where
  "cf_error_message payload = (case jget ''errors'' payload of
     JsonArray (JsonObject first # _) \<Rightarrow>
       (case jget ''message'' first of JsonStr s \<Rightarrow> s | _ \<Rightarrow> ''Cloudflare custom hostname error'')
   | _ \<Rightarrow> ''Cloudflare custom hostname error'')"

text \<open>The checked payload's \<open>result\<close>, an object or a list.\<close>

definition cf_call ::
    "cf_settings \<Rightarrow> cf_transport \<Rightarrow> string \<Rightarrow> string \<Rightarrow> (string \<times> string) list \<Rightarrow> json option \<Rightarrow> json result" where
  "cf_call C net verb path query body =
     ebind (cf_headers C) (\<lambda>auth.
     case net \<lparr>cfq_method = verb, cfq_path = path, cfq_query = query, cfq_body = body, cfq_auth = auth\<rparr> of
       CfNoReply \<Rightarrow> Inl (CloudflareHostnameError ''Cloudflare request failed'' None)
     | CfReply code None \<Rightarrow> Inl (CloudflareHostnameError ''Cloudflare returned non-JSON'' (Some code))
     | CfReply code (Some (JsonObject payload)) \<Rightarrow>
         if 400 \<le> code \<or> jget ''success'' payload = JsonBool False
         then Inl (CloudflareHostnameError (cf_error_message payload) (Some code))
         else (case jget ''result'' payload of
             JsonNull \<Rightarrow> Inl (CloudflareHostnameError ''Cloudflare response missing result'' None)
           | JsonObject r \<Rightarrow> Inr (JsonObject r)
           | JsonArray r \<Rightarrow> Inr (JsonArray r)
           | _ \<Rightarrow> Inl (CloudflareHostnameError ''Cloudflare result type unexpected'' None))
     | CfReply code (Some _) \<Rightarrow> Inl (CloudflareHostnameError ''Cloudflare returned unexpected payload'' (Some code)))"

definition cf_path :: "string \<Rightarrow> string" where "cf_path zone = ''/zones/'' @ zone @ ''/custom_hostnames''"

definition cf_create :: "cf_settings \<Rightarrow> cf_transport \<Rightarrow> string \<Rightarrow> cf_hostname result" where
  "cf_create C net hostname =
     ebind (cf_zone C) (\<lambda>zone.
     ebind (cf_call C net ''POST'' (cf_path zone) [] (Some (JsonObject [(''hostname'', JsonStr hostname),
       (''ssl'', JsonObject [(''method'', JsonStr ''txt''), (''type'', JsonStr ''dv'')])]))) (\<lambda>r.
     case r of JsonObject data \<Rightarrow> parse_hostname C data
     | _ \<Rightarrow> Inl (CloudflareHostnameError ''Cloudflare create result unexpected'' None)))"

definition cf_get :: "cf_settings \<Rightarrow> cf_transport \<Rightarrow> string \<Rightarrow> cf_hostname result" where
  "cf_get C net hid =
     ebind (cf_zone C) (\<lambda>zone.
     ebind (cf_call C net ''GET'' (cf_path zone @ ''/'' @ hid) [] None) (\<lambda>r.
     case r of JsonObject data \<Rightarrow> parse_hostname C data
     | _ \<Rightarrow> Inl (CloudflareHostnameError ''Cloudflare get result unexpected'' None)))"

definition cf_find :: "cf_settings \<Rightarrow> cf_transport \<Rightarrow> string \<Rightarrow> cf_hostname option result" where   \<comment> \<open>\<open>find_by_hostname\<close>\<close>
  "cf_find C net hostname =
     ebind (cf_zone C) (\<lambda>zone.
     ebind (cf_call C net ''GET'' (cf_path zone) [(''hostname'', hostname)] None) (\<lambda>r.
     case r of JsonArray (JsonObject first # _) \<Rightarrow> ebind (parse_hostname C first) (\<lambda>h. Inr (Some h))
     | _ \<Rightarrow> Inr None))"

definition cf_ensure :: "cf_settings \<Rightarrow> cf_transport \<Rightarrow> string \<Rightarrow> cf_hostname result" where
  "cf_ensure C net hostname = (case cf_create C net hostname of
     Inr h \<Rightarrow> Inr h
   | Inl e \<Rightarrow> (if (case e of CloudflareHostnameError _ (Some code) \<Rightarrow> code \<in> {409, 400} | _ \<Rightarrow> False)
       then ebind (cf_find C net hostname) (\<lambda>existing. case existing of None \<Rightarrow> Inl e | Some h \<Rightarrow> Inr h)
       else Inl e))"

definition cf_delete :: "cf_settings \<Rightarrow> cf_transport \<Rightarrow> string \<Rightarrow> unit result" where
  "cf_delete C net hid =
     ebind (cf_zone C) (\<lambda>zone.
     case cf_call C net ''DELETE'' (cf_path zone @ ''/'' @ hid) [] None of
       Inr _ \<Rightarrow> Inr ()
     | Inl e \<Rightarrow> if (case e of CloudflareHostnameError _ (Some code) \<Rightarrow> code = 404 | _ \<Rightarrow> False) then Inr () else Inl e)"

text \<open>The service calls the client only when the account is configured and not stubbed.\<close>

definition cf_off :: "cf_settings \<Rightarrow> bool" where "cf_off C \<longleftrightarrow> cf_stub_active C \<or> \<not> cf_configured C"

definition ensure_hostname :: "cf_settings \<Rightarrow> cf_transport \<Rightarrow> string \<Rightarrow> cf_hostname option result" where   \<comment> \<open>\<open>_cf_ensure\<close>\<close>
  "ensure_hostname C net hostname = (if cf_off C then Inr None else ebind (cf_ensure C net hostname) (\<lambda>h. Inr (Some h)))"

definition fetch_hostname :: "cf_settings \<Rightarrow> cf_transport \<Rightarrow> string \<Rightarrow> string \<Rightarrow> cf_hostname option result" where   \<comment> \<open>\<open>_cf_get\<close>\<close>
  "fetch_hostname C net hid hostname = (if cf_off C then Inr None
     else if hid \<noteq> [] then ebind (cf_get C net hid) (\<lambda>h. Inr (Some h)) else cf_find C net hostname)"

text \<open>A failing request is only logged.\<close>

definition drop_hostname :: "cf_settings \<Rightarrow> cf_transport \<Rightarrow> string option \<Rightarrow> unit result" where   \<comment> \<open>\<open>_cf_delete\<close>\<close>
  "drop_hostname C net hid =
     (if str_or_empty hid = [] \<or> cf_off C then Inr ()
      else case cf_delete C net (str_or_empty hid) of
        Inl (CloudflareHostnameError _ _) \<Rightarrow> Inr () | r \<Rightarrow> r)"

lemma cf_delete_errors: "cf_delete C net hid = Inl e \<Longrightarrow> \<exists>msg code. e = CloudflareHostnameError msg code"
  by (auto simp: cf_delete_def cf_zone_def cf_call_def cf_headers_def Let_def ebind_def
      split: sum.splits cf_reply.splits option.splits json.splits if_splits)

lemma drop_hostname_total [simp]: "drop_hostname C net hid = Inr ()"
  using cf_delete_errors by (fastforce simp: drop_hostname_def split: sum.split error.split)

end
