(* ===== verification/StatusPage.thy ===== *)
theory StatusPage
  imports CustomHostnames Uptime
begin

text \<open>
  Status pages: request bodies (\<open>schemas/status_page.py\<close>), rows (\<open>models/status_page.py\<close>) and the service
  (\<open>services/status_page.py\<close>) with its routes (\<open>api/status_page_routes.py\<close>). The monitors are those of \<open>Uptime\<close>; other
  components change them, which deletes the components that show a deleted one. The \<open>PydanticCustomError\<close>s
  are \<open>PyError\<close>s with their type.
\<close>

subsection \<open>Request bodies\<close>

definition slug_char :: "char \<Rightarrow> bool" where   \<comment> \<open>\<open>[a-z0-9]\<close>\<close>
  "slug_char c = (let n = of_char c :: nat in (97 \<le> n \<and> n \<le> 122) \<or> (48 \<le> n \<and> n \<le> 57))"

text \<open>\<open>[a-z0-9](?:[a-z0-9-]{0,n}[a-z0-9])?\<close>.\<close>

definition label_re :: "nat \<Rightarrow> string \<Rightarrow> bool" where
  "label_re n s \<longleftrightarrow> s \<noteq> [] \<and> length s \<le> n + 2 \<and> slug_char (hd s) \<and> slug_char (last s)
     \<and> list_all (\<lambda>c. slug_char c \<or> c = CHR ''-'') s"

definition normalize_slug :: "string \<Rightarrow> string result" where
  "normalize_slug raw = (let v = lower (strip raw) in
     if label_re 62 v then Inr v else Inl (PyError ''status_slug_invalid''))"

text \<open>\<open>_HOST_RE\<close>: labels, each with a dot after it, and a last one of letters. The dollar also matches before a final line
  feed.\<close>

definition name_re :: "string \<Rightarrow> bool" where
  "name_re s = (let t = (if s \<noteq> [] \<and> last s = CHR 0x0A then butlast s else s); labels = split_on CHR ''.'' t in
     1 \<le> length t \<and> length t \<le> 253 \<and> 2 \<le> length labels \<and> list_all (label_re 61) (butlast labels)
     \<and> 2 \<le> length (last labels) \<and> list_all (\<lambda>c. let n = of_char c :: nat in 97 \<le> n \<and> n \<le> 122) (last labels))"

definition normalize_hostname :: "string \<Rightarrow> string result" where
  "normalize_hostname raw = (let v = rstrip_dots (lower (strip raw)) in
     if name_re v then Inr v else Inl (PyError ''hostname_invalid''))"

definition blank_or :: "(string \<Rightarrow> string result) \<Rightarrow> string option \<Rightarrow> string option result" where
  "blank_or f v = (case v of None \<Rightarrow> Inr None
     | Some s \<Rightarrow> if strip s = [] then Inr None else ebind (f s) (\<lambda>x. Inr (Some x)))"

definition text_field :: "nat \<Rightarrow> string \<Rightarrow> unit result" where   \<comment> \<open>\<open>Field(min_length=1, max_length=n)\<close>\<close>
  "text_field n s = raise_if (s = [] \<or> n < length s) (PyError ''ValidationError'')"

record page_create_body =
  pcb_slug :: string
  pcb_title :: string

definition validate_page_create :: "page_create_body \<Rightarrow> page_create_body result" where
  "validate_page_create b =
     ebind (normalize_slug (pcb_slug b)) (\<lambda>slug.
     ebind (text_field 255 (pcb_title b)) (\<lambda>_. Inr (b\<lparr>pcb_slug := slug\<rparr>)))"

record page_update_body =
  pub_title :: "string option"
  pub_slug :: "string option"
  pub_published :: "bool option"
  pub_hostname :: "string option option"   \<comment> \<open>none when the body does not name it\<close>

definition validate_page_update :: "page_update_body \<Rightarrow> page_update_body result" where
  "validate_page_update b =
     ebind (case pub_title b of None \<Rightarrow> Inr () | Some t \<Rightarrow> text_field 255 t) (\<lambda>_.
     ebind (blank_or normalize_slug (pub_slug b)) (\<lambda>slug.
     ebind (case pub_hostname b of None \<Rightarrow> Inr None
            | Some h \<Rightarrow> ebind (blank_or normalize_hostname h) (\<lambda>x. Inr (Some x))) (\<lambda>host.
     Inr (b\<lparr>pub_slug := slug, pub_hostname := host\<rparr>))))"

datatype impact = ImpactNone | ImpactMinor | ImpactMajor | ImpactCritical
datatype inc_status = Investigating | Identified | Monitoring | Resolved

fun impact_name :: "impact \<Rightarrow> string" where
  "impact_name ImpactNone = ''none''"
| "impact_name ImpactMinor = ''minor''"
| "impact_name ImpactMajor = ''major''"
| "impact_name ImpactCritical = ''critical''"

fun inc_status_name :: "inc_status \<Rightarrow> string" where
  "inc_status_name Investigating = ''investigating''"
| "inc_status_name Identified = ''identified''"
| "inc_status_name Monitoring = ''monitoring''"
| "inc_status_name Resolved = ''resolved''"

definition read_impact :: "string \<Rightarrow> impact result" where
  "read_impact v = get_or (PyError ''status_impact_invalid'')
     (find (\<lambda>i. impact_name i = v) [ImpactNone, ImpactMinor, ImpactMajor, ImpactCritical])"

definition read_inc_status :: "string \<Rightarrow> inc_status result" where
  "read_inc_status v = get_or (PyError ''status_value_invalid'')
     (find (\<lambda>i. inc_status_name i = v) [Investigating, Identified, Monitoring, Resolved])"

record incident_body =
  icb_title :: string
  icb_impact :: impact
  icb_status :: inc_status
  icb_body :: string

definition validate_incident :: "string \<Rightarrow> string \<Rightarrow> string \<Rightarrow> string \<Rightarrow> incident_body result" where
  "validate_incident title imp st body =
     ebind (text_field 255 title) (\<lambda>_.
     ebind (read_impact imp) (\<lambda>i.
     ebind (read_inc_status st) (\<lambda>v.
     ebind (text_field 4000 body) (\<lambda>_.
     Inr \<lparr>icb_title = title, icb_impact = i, icb_status = v, icb_body = body\<rparr>))))"

definition validate_incident_patch :: "string option \<Rightarrow> string option \<Rightarrow> (string option \<times> impact option) result" where
  "validate_incident_patch title imp =
     ebind (case title of None \<Rightarrow> Inr () | Some t \<Rightarrow> text_field 255 t) (\<lambda>_.
     ebind (case imp of None \<Rightarrow> Inr None | Some v \<Rightarrow> ebind (read_impact v) (\<lambda>i. Inr (Some i))) (\<lambda>i.
     Inr (title, i)))"

definition validate_incident_update :: "string \<Rightarrow> string \<Rightarrow> (string \<times> inc_status) result" where
  "validate_incident_update body st =
     ebind (text_field 4000 body) (\<lambda>_. ebind (read_inc_status st) (\<lambda>v. Inr (body, v)))"

subsection \<open>Rows\<close>

record status_page =
  pg_id :: uuid
  pg_org :: uuid
  pg_created_by :: uuid
  pg_slug :: string
  pg_title :: string
  pg_published :: bool
  pg_hostname :: "string option"
  pg_host_status :: host_status
  pg_cf_id :: "string option"
  pg_txt_name :: "string option"
  pg_txt_value :: "string option"
  pg_ssl :: "string option"
  pg_created_at :: datetime
  pg_updated_at :: datetime

record status_component =
  cmp_id :: uuid
  cmp_page :: uuid
  cmp_monitor :: uuid
  cmp_name :: string
  cmp_order :: int

record status_incident =
  inc_id :: uuid
  inc_page :: uuid
  inc_created_by :: uuid
  inc_title :: string
  inc_impact :: impact
  inc_status :: inc_status
  inc_started_at :: datetime
  inc_resolved_at :: "datetime option"
  inc_created_at :: datetime

record incident_update =
  iup_id :: uuid
  iup_incident :: uuid
  iup_created_by :: uuid
  iup_body :: string
  iup_status :: inc_status
  iup_created_at :: datetime

record sp_db =
  sp_core :: db
  sp_monitors :: "monitor list"
  pages :: "status_page list"
  components :: "status_component list"
  incidents :: "status_incident list"
  inc_updates :: "incident_update list"

interpretation page_tbl: row_store pages pages_update pg_id
  by unfold_locales simp

interpretation incident_tbl: row_store incidents incidents_update inc_id
  by unfold_locales simp

text \<open>The unique keys of the pages: the organization, the slug, the hostname.\<close>

definition page_clash :: "status_page \<Rightarrow> status_page \<Rightarrow> bool" where
  "page_clash p q \<longleftrightarrow> pg_org q = pg_org p \<or> pg_slug q = pg_slug p
     \<or> (pg_hostname p \<noteq> None \<and> pg_hostname q = pg_hostname p)"

definition insert_page :: "status_page \<Rightarrow> sp_db \<Rightarrow> sp_db result" where
  "insert_page p s =
     (if pg_id p \<in> pg_id ` set (pages s) \<or> list_ex (page_clash p) (pages s) then Inl IntegrityError
      else Inr (s\<lparr>pages := pages s @ [p]\<rparr>))"

text \<open>A flush writes the row, and its \<open>updated_at\<close>, only when an attribute has changed.\<close>

definition save_page :: "datetime \<Rightarrow> status_page \<Rightarrow> status_page \<Rightarrow> sp_db \<Rightarrow> sp_db result" where
  "save_page now p p' s =
     (if p' = p then Inr s
      else if list_ex (\<lambda>q. pg_id q \<noteq> pg_id p \<and> page_clash p' q) (pages s) then Inl IntegrityError
      else Inr (s\<lparr>pages := row_upd pg_id (pg_id p) (\<lambda>_. p'\<lparr>pg_updated_at := now\<rparr>) (pages s)\<rparr>))"

subsection \<open>What a page shows\<close>

datatype overall = Operational | DegradedOverall | PartialOutage | MajorOutage

definition overall_of :: "mon_state list \<Rightarrow> status_incident list \<Rightarrow> overall" where
  "overall_of states open_incidents =
     (if list_ex (\<lambda>i. inc_impact i = ImpactCritical \<and> inc_status i \<noteq> Resolved) open_incidents then MajorOutage
      else if Down \<in> set states then (if Up \<in> set states then PartialOutage else MajorOutage)
      else if Degraded \<in> set states \<or> list_ex (\<lambda>i. inc_status i \<noteq> Resolved) open_incidents then DegradedOverall
      else Operational)"

record component_view =
  cv_id :: uuid
  cv_monitor :: uuid
  cv_name :: string
  cv_order :: int
  cv_state :: "mon_state option"

record update_view =
  uv_id :: uuid
  uv_body :: string
  uv_status :: inc_status
  uv_created_at :: datetime

record incident_view =
  iv_id :: uuid
  iv_title :: string
  iv_impact :: impact
  iv_status :: inc_status
  iv_started_at :: datetime
  iv_resolved_at :: "datetime option"
  iv_created_at :: datetime
  iv_updates :: "update_view list"

record page_view =
  pv_id :: uuid
  pv_org :: uuid
  pv_slug :: string
  pv_title :: string
  pv_published :: bool
  pv_hostname :: "string option"
  pv_host_status :: host_status
  pv_cname_target :: string
  pv_txt_name :: "string option"
  pv_txt_value :: "string option"
  pv_ssl :: "string option"
  pv_public_path :: string
  pv_created_at :: datetime
  pv_updated_at :: datetime
  pv_components :: "component_view list"
  pv_incidents :: "incident_view list"
  pv_overall :: overall

record sp_cfg =
  sp_enabled :: bool
  sp_cname :: string
  sp_cf :: cf_settings

definition cname_target :: "sp_cfg \<Rightarrow> string" where
  "cname_target C = rstrip_dots (lower (strip (sp_cname C)))"

definition component_view_of :: "sp_db \<Rightarrow> status_component \<Rightarrow> component_view" where
  "component_view_of s c = \<lparr>cv_id = cmp_id c, cv_monitor = cmp_monitor c, cv_name = cmp_name c, cv_order = cmp_order c,
     cv_state = map_option mon_state (row_get mon_id (cmp_monitor c) (sp_monitors s))\<rparr>"

definition update_view_of :: "incident_update \<Rightarrow> update_view" where
  "update_view_of u = \<lparr>uv_id = iup_id u, uv_body = iup_body u, uv_status = iup_status u, uv_created_at = iup_created_at u\<rparr>"

definition updates_of :: "sp_db \<Rightarrow> uuid \<Rightarrow> incident_update list" where
  "updates_of s k = filter (\<lambda>u. iup_incident u = k) (inc_updates s)"

definition incident_view_of :: "sp_db \<Rightarrow> status_incident \<Rightarrow> incident_view" where
  "incident_view_of s i = \<lparr>iv_id = inc_id i, iv_title = inc_title i, iv_impact = inc_impact i, iv_status = inc_status i,
     iv_started_at = inc_started_at i, iv_resolved_at = inc_resolved_at i, iv_created_at = inc_created_at i,
     iv_updates = map update_view_of (sort_key iup_created_at (updates_of s (inc_id i)))\<rparr>"

definition components_of :: "sp_db \<Rightarrow> uuid \<Rightarrow> status_component list" where
  "components_of s k = filter (\<lambda>c. cmp_page c = k) (components s)"

definition incidents_of :: "sp_db \<Rightarrow> uuid \<Rightarrow> status_incident list" where
  "incidents_of s k = filter (\<lambda>i. inc_page i = k) (incidents s)"

definition to_response :: "sp_cfg \<Rightarrow> sp_db \<Rightarrow> status_page \<Rightarrow> page_view" where
  "to_response C s p =
     (let comps = map (component_view_of s) (sort_key cmp_order (components_of s (pg_id p)));
          states = concat (map (\<lambda>c. case cv_state c of None \<Rightarrow> [] | Some x \<Rightarrow> [x]) comps) in
      \<lparr>pv_id = pg_id p, pv_org = pg_org p, pv_slug = pg_slug p, pv_title = pg_title p, pv_published = pg_published p,
       pv_hostname = pg_hostname p, pv_host_status = pg_host_status p, pv_cname_target = cname_target C,
       pv_txt_name = pg_txt_name p, pv_txt_value = pg_txt_value p, pv_ssl = pg_ssl p,
       pv_public_path = ''/status/'' @ pg_slug p, pv_created_at = pg_created_at p, pv_updated_at = pg_updated_at p,
       pv_components = comps,
       pv_incidents = map (incident_view_of s) (desc_by inc_created_at (incidents_of s (pg_id p))),
       pv_overall = overall_of states (filter (\<lambda>i. inc_status i \<noteq> Resolved) (incidents_of s (pg_id p)))\<rparr>)"

subsection \<open>The service\<close>

definition sp_on :: "sp_cfg \<Rightarrow> unit result" where   \<comment> \<open>\<open>_enabled\<close>\<close>
  "sp_on C = raise_if (\<not> sp_enabled C) (HTTPError 404 ''Status page is disabled'')"

definition sp_org :: "sp_db \<Rightarrow> uuid \<Rightarrow> organization result" where
  "sp_org s o' = get_or (HTTPError 404 ''Organization not found'') (get_org (sp_core s) o')"

definition slug_free :: "sp_db \<Rightarrow> string \<Rightarrow> uuid option \<Rightarrow> unit result" where
  "slug_free s slug page_id =
     ebind (scalar_one_or_none (filter (\<lambda>p. pg_slug p = slug \<and> page_id \<noteq> Some (pg_id p)) (pages s))) (\<lambda>clash.
     raise_if (clash \<noteq> None) (HTTPError 409 ''slug already in use''))"

definition page_for_org :: "sp_db \<Rightarrow> uuid \<Rightarrow> status_page option result" where
  "page_for_org s o' = scalar_one_or_none (filter (\<lambda>p. pg_org p = o') (pages s))"

text \<open>The beginning of every handler: the feature is on, an organization is active, its member is of a sufficient role.\<close>

definition sp_gate :: "sp_cfg \<Rightarrow> user \<Rightarrow> uuid option \<Rightarrow> role \<Rightarrow> sp_db \<Rightarrow> uuid result" where
  "sp_gate C u oid min_role s =
     ebind (sp_on C) (\<lambda>_.
     ebind (get_or (HTTPError 400 ''Active organization required'') oid) (\<lambda>o'.
     ebind (require_membership (sp_core s) o' (user_id u) min_role) (\<lambda>_. Inr o')))"

definition own_page :: "sp_db \<Rightarrow> uuid \<Rightarrow> status_page result" where
  "own_page s o' = ebind (page_for_org s o') (get_or (HTTPError 404 ''Status page not found''))"

text \<open>The page read again after the commit, as the answer shows it.\<close>

definition reloaded :: "sp_cfg \<Rightarrow> uuid \<Rightarrow> sp_db \<Rightarrow> (page_view \<times> sp_db) result" where
  "reloaded C o' s = ebind (page_for_org s o') (\<lambda>found.
     ebind (get_or (PyError ''AssertionError'') found) (\<lambda>p. Inr (to_response C s p, s)))"

definition get_mine :: "sp_cfg \<Rightarrow> user \<Rightarrow> uuid option \<Rightarrow> sp_db \<Rightarrow> page_view option result" where
  "get_mine C u oid s =
     ebind (sp_gate C u oid Viewer s) (\<lambda>o'.
     ebind (page_for_org s o') (\<lambda>p. Inr (map_option (to_response C s) p)))"

definition page_tier :: "sp_db \<Rightarrow> uuid \<Rightarrow> sku_tier result" where
  "page_tier s o' = ebind (sp_org s o') (\<lambda>r. tier_get (sp_core s) (org_sku r))"

definition need_status_page :: "sku_tier \<Rightarrow> unit result" where
  "need_status_page t = raise_if (\<not> tier_allow_status_page t)
     (HTTPError 403 (''Status page is not available on the '' @ tier_label t @ '' tier''))"

definition new_page :: "uuid \<Rightarrow> uuid \<Rightarrow> user \<Rightarrow> page_create_body \<Rightarrow> datetime \<Rightarrow> status_page" where
  "new_page k o' u b now = \<lparr>pg_id = k, pg_org = o', pg_created_by = user_id u, pg_slug = pcb_slug b, pg_title = pcb_title b,
     pg_published = False, pg_hostname = None, pg_host_status = HostNone, pg_cf_id = None, pg_txt_name = None,
     pg_txt_value = None, pg_ssl = None, pg_created_at = now, pg_updated_at = now\<rparr>"

definition page_upsert ::
    "sp_cfg \<Rightarrow> uuid \<Rightarrow> user \<Rightarrow> uuid option \<Rightarrow> page_create_body \<Rightarrow> datetime \<Rightarrow> sp_db \<Rightarrow> (page_view \<times> sp_db) result" where
  "page_upsert C k u oid b now s =
     ebind (sp_gate C u oid Member s) (\<lambda>o'.
     ebind (page_tier s o') (\<lambda>t.
     ebind (need_status_page t) (\<lambda>_.
     ebind (page_for_org s o') (\<lambda>existing.
     case existing of
       Some p \<Rightarrow>
         ebind (if pcb_slug b \<noteq> pg_slug p then slug_free s (pcb_slug b) (Some (pg_id p)) else Inr ()) (\<lambda>_.
         ebind (save_page now p (p\<lparr>pg_title := pcb_title b, pg_slug := pcb_slug b\<rparr>) s) (reloaded C o'))
     | None \<Rightarrow>
         ebind (slug_free s (pcb_slug b) None) (\<lambda>_.
         ebind (insert_page (new_page k o' u b now) s) (reloaded C o'))))))"

definition PLATFORM_HOSTS :: "string list" where
  "PLATFORM_HOSTS = [''sinexis.app'', ''www.sinexis.app'', ''appmedia.id'', ''www.appmedia.id'', ''vs.appmedia.id'',
     ''www.vs.appmedia.id'']"

definition reserved_host :: "string \<Rightarrow> bool" where
  "reserved_host h \<longleftrightarrow> h \<in> set PLATFORM_HOSTS \<or> ends_with ''.sinexis.app'' h"

definition assert_custom_hostname :: "string \<Rightarrow> unit result" where
  "assert_custom_hostname h = raise_if (reserved_host h) (HTTPError 400 ''hostname is reserved'')"

text \<open>\<open>_set_hostname\<close>, and the same checks in \<open>update\<close>: the tier, the reserved names, the other pages.\<close>

definition set_hostname :: "sku_tier \<Rightarrow> status_page \<Rightarrow> string \<Rightarrow> sp_db \<Rightarrow> status_page result" where
  "set_hostname t p h s =
     ebind (raise_if (\<not> tier_allow_custom_host t)
       (HTTPError 403 (''Custom domain is not available on the '' @ tier_label t @ '' tier''))) (\<lambda>_.
     ebind (assert_custom_hostname h) (\<lambda>_.
     ebind (scalar_one_or_none (filter (\<lambda>q. pg_hostname q = Some h \<and> pg_id q \<noteq> pg_id p) (pages s))) (\<lambda>other.
     ebind (raise_if (other \<noteq> None) (HTTPError 409 ''hostname already in use'')) (\<lambda>_.
     Inr (p\<lparr>pg_hostname := Some h, pg_host_status := HostPendingTxt\<rparr>)))))"

definition page_update ::
    "sp_cfg \<Rightarrow> user \<Rightarrow> uuid option \<Rightarrow> page_update_body \<Rightarrow> datetime \<Rightarrow> sp_db \<Rightarrow> (page_view \<times> sp_db) result" where
  "page_update C u oid b now s =
     ebind (sp_gate C u oid Member s) (\<lambda>o'.
     ebind (page_tier s o') (\<lambda>t.
     ebind (own_page s o') (\<lambda>p.
     let p1 = p\<lparr>pg_title := or_else (pub_title b) (pg_title p)\<rparr> in
     ebind (case pub_slug b of None \<Rightarrow> Inr p1
       | Some slug \<Rightarrow> if slug = pg_slug p then Inr p1
           else ebind (slug_free s slug (Some (pg_id p))) (\<lambda>_. Inr (p1\<lparr>pg_slug := slug\<rparr>))) (\<lambda>p2.
     ebind (case pub_published b of None \<Rightarrow> Inr p2
       | Some v \<Rightarrow> ebind (if v then need_status_page t else Inr ()) (\<lambda>_. Inr (p2\<lparr>pg_published := v\<rparr>))) (\<lambda>p3.
     ebind (case pub_hostname b of None \<Rightarrow> Inr p3
       | Some h \<Rightarrow> if str_or_empty h = [] then Inr (p3\<lparr>pg_hostname := None, pg_host_status := HostNone\<rparr>)
           else set_hostname t p3 (str_or_empty h) s) (\<lambda>p4.
     ebind (save_page now p p4 s) (reloaded C o')))))))"

definition apply_cf :: "cf_hostname \<Rightarrow> status_page \<Rightarrow> status_page" where
  "apply_cf h p = p\<lparr>pg_cf_id := Some (cfh_id h), pg_txt_name := cfh_txt_name h, pg_txt_value := cfh_txt_value h,
     pg_ssl := cfh_ssl h, pg_host_status := map_hostname_status (cfh_ssl h) (Some (cfh_status h))\<rparr>"

definition apply_found :: "cf_hostname option \<Rightarrow> status_page \<Rightarrow> status_page" where   \<comment> \<open>\<open>if cf is not None\<close>\<close>
  "apply_found h p = (case h of None \<Rightarrow> p | Some x \<Rightarrow> apply_cf x p)"

definition clear_cf :: "status_page \<Rightarrow> status_page" where
  "clear_cf p = p\<lparr>pg_cf_id := None, pg_txt_name := None, pg_txt_value := None, pg_ssl := None\<rparr>"

definition or_502 :: "string \<Rightarrow> 'a result \<Rightarrow> 'a result" where   \<comment> \<open>\<open>except CloudflareHostnameError\<close>\<close>
  "or_502 msg r = (case r of Inl (CloudflareHostnameError _ _) \<Rightarrow> Inl (HTTPError 502 msg) | _ \<Rightarrow> r)"

definition attach_hostname ::
    "sp_cfg \<Rightarrow> cf_transport \<Rightarrow> user \<Rightarrow> uuid option \<Rightarrow> string \<Rightarrow> datetime \<Rightarrow> sp_db \<Rightarrow> (page_view \<times> sp_db) result" where
  "attach_hostname C net u oid h now s =
     ebind (sp_gate C u oid Member s) (\<lambda>o'.
     ebind (sp_org s o') (\<lambda>r.
     ebind (own_page s o') (\<lambda>p.
     ebind (raise_if (str_or_empty (pg_hostname p) \<noteq> []) (HTTPError 409 ''hostname already attached; use update'')) (\<lambda>_.
     ebind (tier_get (sp_core s) (org_sku r)) (\<lambda>t.
     ebind (set_hostname t p h s) (\<lambda>p1.
     ebind (or_502 ''Cloudflare hostname create failed'' (ensure_hostname (sp_cf C) net h)) (\<lambda>found.
     ebind (save_page now p (apply_found found p1) s) (reloaded C o'))))))))"

definition replace_hostname ::
    "sp_cfg \<Rightarrow> cf_transport \<Rightarrow> user \<Rightarrow> uuid option \<Rightarrow> string \<Rightarrow> datetime \<Rightarrow> sp_db \<Rightarrow> (page_view \<times> sp_db) result" where
  "replace_hostname C net u oid h now s =
     ebind (sp_gate C u oid Member s) (\<lambda>o'.
     ebind (sp_org s o') (\<lambda>r.
     ebind (own_page s o') (\<lambda>p.
     ebind (raise_if (str_or_empty (pg_hostname p) = []) (HTTPError 400 ''No custom hostname set'')) (\<lambda>_.
     ebind (tier_get (sp_core s) (org_sku r)) (\<lambda>t.
     ebind (set_hostname t p h s) (\<lambda>p1.
     ebind (drop_hostname (sp_cf C) net (pg_cf_id p)) (\<lambda>_.
     ebind (or_502 ''Cloudflare hostname create failed'' (ensure_hostname (sp_cf C) net h)) (\<lambda>found.
     ebind (save_page now p (apply_found found (clear_cf p1)) s) (reloaded C o')))))))))"

definition detach_hostname ::
    "sp_cfg \<Rightarrow> cf_transport \<Rightarrow> user \<Rightarrow> uuid option \<Rightarrow> datetime \<Rightarrow> sp_db \<Rightarrow> (page_view \<times> sp_db) result" where
  "detach_hostname C net u oid now s =
     ebind (sp_gate C u oid Member s) (\<lambda>o'.
     ebind (own_page s o') (\<lambda>p.
     ebind (drop_hostname (sp_cf C) net (pg_cf_id p)) (\<lambda>_.
     ebind (save_page now p (clear_cf (p\<lparr>pg_hostname := None, pg_host_status := HostNone\<rparr>)) s) (reloaded C o'))))"

text \<open>A check that Cloudflare does not answer is recorded before the error is raised.\<close>

definition checked_page :: "sp_cfg \<Rightarrow> cf_transport \<Rightarrow> status_page \<Rightarrow> status_page result" where
  "checked_page C net p =
     (if cf_stub_active (sp_cf C) then Inr (p\<lparr>pg_host_status := HostActive, pg_ssl := Some ''active''\<rparr>)
      else if cf_configured (sp_cf C) then
        ebind (fetch_hostname (sp_cf C) net (str_or_empty (pg_cf_id p)) (str_or_empty (pg_hostname p))) (\<lambda>found.
        Inr (case found of None \<Rightarrow> p\<lparr>pg_host_status := HostPendingTxt\<rparr> | Some h \<Rightarrow> apply_cf h p))
      else Inr (p\<lparr>pg_host_status := HostPendingTxt\<rparr>))"

definition check_hostname ::
    "sp_cfg \<Rightarrow> cf_transport \<Rightarrow> user \<Rightarrow> uuid option \<Rightarrow> datetime \<Rightarrow> sp_db \<Rightarrow> page_view result \<times> sp_db" where
  "check_hostname C net u oid now s =
     (case ebind (sp_gate C u oid Member s) (\<lambda>o'. ebind (page_for_org s o') (\<lambda>found.
        ebind (get_or (HTTPError 400 ''No custom hostname set'') found) (\<lambda>p.
        ebind (raise_if (str_or_empty (pg_hostname p) = []) (HTTPError 400 ''No custom hostname set'')) (\<lambda>_. Inr (o', p))))) of
        Inl e \<Rightarrow> (Inl e, s)
      | Inr (o', p) \<Rightarrow> (case checked_page C net p of
          Inl e \<Rightarrow> (case save_page now p (p\<lparr>pg_host_status := HostFailed\<rparr>) s of
              Inl e' \<Rightarrow> (Inl e', s)
            | Inr s' \<Rightarrow> (Inl (HTTPError 502 ''Cloudflare hostname check failed''), s'))
        | Inr p' \<Rightarrow> (case ebind (save_page now p p' s) (reloaded C o') of
              Inl e \<Rightarrow> (Inl e, s)
            | Inr (v, s') \<Rightarrow> (Inr v, s'))))"

definition add_component ::
    "sp_cfg \<Rightarrow> uuid \<Rightarrow> user \<Rightarrow> uuid option \<Rightarrow> uuid \<Rightarrow> string \<Rightarrow> int \<Rightarrow> sp_db \<Rightarrow> (page_view \<times> sp_db) result" where
  "add_component C k u oid mid name order s =
     ebind (sp_gate C u oid Member s) (\<lambda>o'.
     ebind (own_page s o') (\<lambda>p.
     ebind (scalar_one_or_none (filter (\<lambda>m. mon_id m = mid \<and> mon_org m = o') (sp_monitors s))) (\<lambda>found.
     ebind (get_or (HTTPError 404 ''Monitor not found'') found) (\<lambda>m.
     ebind (raise_if (list_ex (\<lambda>c. cmp_id c = k \<or> cmp_page c = pg_id p \<and> cmp_monitor c = mon_id m) (components s))
       (HTTPError 409 ''component already exists'')) (\<lambda>_.
     reloaded C o' (s\<lparr>components := components s @
       [\<lparr>cmp_id = k, cmp_page = pg_id p, cmp_monitor = mon_id m, cmp_name = name, cmp_order = order\<rparr>]\<rparr>))))))"

definition delete_component :: "sp_cfg \<Rightarrow> user \<Rightarrow> uuid option \<Rightarrow> uuid \<Rightarrow> sp_db \<Rightarrow> sp_db result" where
  "delete_component C u oid k s =
     ebind (sp_gate C u oid Member s) (\<lambda>o'.
     ebind (own_page s o') (\<lambda>p.
     ebind (get_or (HTTPError 404 ''Component not found'') (find (\<lambda>c. cmp_id c = k) (components_of s (pg_id p)))) (\<lambda>c.
     Inr (s\<lparr>components := row_del cmp_id (cmp_id c) (components s)\<rparr>))))"

text \<open>The primary keys of a new incident and of its first update are fresh.\<close>

definition insert_incident :: "status_incident \<Rightarrow> sp_db \<Rightarrow> sp_db result" where
  "insert_incident i s = (if inc_id i \<in> inc_id ` set (incidents s) then Inl IntegrityError
     else Inr (s\<lparr>incidents := incidents s @ [i]\<rparr>))"

definition insert_update :: "incident_update \<Rightarrow> sp_db \<Rightarrow> sp_db result" where
  "insert_update x s = (if iup_id x \<in> iup_id ` set (inc_updates s) then Inl IntegrityError
     else Inr (s\<lparr>inc_updates := inc_updates s @ [x]\<rparr>))"

definition create_incident ::
    "sp_cfg \<Rightarrow> uuid \<Rightarrow> uuid \<Rightarrow> user \<Rightarrow> uuid option \<Rightarrow> incident_body \<Rightarrow> datetime \<Rightarrow> sp_db \<Rightarrow> (page_view \<times> sp_db) result" where
  "create_incident C k uk u oid b now s =
     ebind (sp_gate C u oid Member s) (\<lambda>o'.
     ebind (own_page s o') (\<lambda>p.
     ebind (insert_incident \<lparr>inc_id = k, inc_page = pg_id p, inc_created_by = user_id u, inc_title = icb_title b,
         inc_impact = icb_impact b, inc_status = icb_status b, inc_started_at = now,
         inc_resolved_at = (if icb_status b = Resolved then Some now else None), inc_created_at = now\<rparr> s) (\<lambda>s1.
     ebind (insert_update \<lparr>iup_id = uk, iup_incident = k, iup_created_by = user_id u, iup_body = icb_body b,
         iup_status = icb_status b, iup_created_at = now\<rparr> s1) (reloaded C o'))))"

definition own_incident :: "sp_db \<Rightarrow> status_page \<Rightarrow> uuid \<Rightarrow> status_incident result" where
  "own_incident s p k = get_or (HTTPError 404 ''Incident not found'') (find (\<lambda>i. inc_id i = k) (incidents_of s (pg_id p)))"

definition save_incident :: "status_incident \<Rightarrow> sp_db \<Rightarrow> sp_db" where
  "save_incident i s = s\<lparr>incidents := row_upd inc_id (inc_id i) (\<lambda>_. i) (incidents s)\<rparr>"

definition add_incident_update ::
    "sp_cfg \<Rightarrow> uuid \<Rightarrow> user \<Rightarrow> uuid option \<Rightarrow> uuid \<Rightarrow> string \<Rightarrow> inc_status \<Rightarrow> datetime \<Rightarrow> sp_db \<Rightarrow> (page_view \<times> sp_db) result" where
  "add_incident_update C uk u oid k body st now s =
     ebind (sp_gate C u oid Member s) (\<lambda>o'.
     ebind (own_page s o') (\<lambda>p.
     ebind (own_incident s p k) (\<lambda>i.
     ebind (insert_update \<lparr>iup_id = uk, iup_incident = inc_id i, iup_created_by = user_id u, iup_body = body,
         iup_status = st, iup_created_at = now\<rparr>
       (save_incident (i\<lparr>inc_status := st, inc_resolved_at := (if st = Resolved then Some now else None)\<rparr>) s))
       (reloaded C o'))))"

definition patch_incident ::
    "sp_cfg \<Rightarrow> user \<Rightarrow> uuid option \<Rightarrow> uuid \<Rightarrow> string option \<Rightarrow> impact option \<Rightarrow> sp_db \<Rightarrow> (page_view \<times> sp_db) result" where
  "patch_incident C u oid k title imp s =
     ebind (sp_gate C u oid Member s) (\<lambda>o'.
     ebind (own_page s o') (\<lambda>p.
     ebind (own_incident s p k) (\<lambda>i.
     reloaded C o' (save_incident (i\<lparr>inc_title := or_else title (inc_title i), inc_impact := or_else imp (inc_impact i)\<rparr>) s))))"

definition delete_incident :: "sp_cfg \<Rightarrow> user \<Rightarrow> uuid option \<Rightarrow> uuid \<Rightarrow> sp_db \<Rightarrow> sp_db result" where
  "delete_incident C u oid k s =
     ebind (sp_gate C u oid Admin s) (\<lambda>o'.
     ebind (own_page s o') (\<lambda>p.
     ebind (own_incident s p k) (\<lambda>i.
     Inr (s\<lparr>incidents := row_del inc_id (inc_id i) (incidents s),
       inc_updates := filter (\<lambda>x. iup_incident x \<noteq> inc_id i) (inc_updates s)\<rparr>))))"

definition public_by_slug :: "sp_cfg \<Rightarrow> string \<Rightarrow> sp_db \<Rightarrow> page_view result" where
  "public_by_slug C slug s =
     ebind (sp_on C) (\<lambda>_.
     ebind (scalar_one_or_none (filter (\<lambda>p. pg_slug p = slug \<and> pg_published p) (pages s))) (\<lambda>found.
     ebind (get_or (HTTPError 404 ''Not found'') found) (\<lambda>p. Inr (to_response C s p))))"

definition public_by_host :: "sp_cfg \<Rightarrow> string \<Rightarrow> sp_db \<Rightarrow> page_view result" where
  "public_by_host C host s =
     ebind (sp_on C) (\<lambda>_.
     let hostname = rstrip_dots (lower (text_before CHR '':'' host)) in
     ebind (scalar_one_or_none (filter (\<lambda>p. pg_hostname p = Some hostname \<and> pg_published p \<and> pg_host_status p = HostActive)
       (pages s))) (\<lambda>found.
     ebind (get_or (HTTPError 404 ''Not found'') found) (\<lambda>p. Inr (to_response C s p))))"

end
