(* ===== verification/StatusHtml.thy ===== *)
theory StatusHtml
  imports StatusPage
begin

text \<open>
  The public page as HTML (\<open>render_status_html\<close> of \<open>services/status_page.py\<close>) and the routes that serve it
  (\<open>api/status_html.py\<close>). The constant style sheet and scripts are arguments. Strings are code points below 256, so the
  middle dot is \<open>CHR 0xB7\<close>.
\<close>

subsection \<open>Text\<close>

definition escape_char :: "char \<Rightarrow> string" where
  "escape_char c = (if c = CHR ''&'' then ''&amp;'' else if c = CHR ''<'' then ''&lt;'' else if c = CHR ''>'' then ''&gt;''
     else if c = CHR 0x22 then ''&quot;'' else if c = CHR 0x27 then ''&#x27;'' else [c])"

definition html_escape :: "string \<Rightarrow> string" where   \<comment> \<open>\<open>html.escape(text, quote=True)\<close>\<close>
  "html_escape s = concat (map escape_char s)"

definition MONTH_ABBR :: "string list" where
  "MONTH_ABBR = [''Jan'', ''Feb'', ''Mar'', ''Apr'', ''May'', ''Jun'', ''Jul'', ''Aug'', ''Sep'', ''Oct'', ''Nov'', ''Dec'']"

definition format_time :: "datetime \<Rightarrow> string" where   \<comment> \<open>\<open>strftime("%d %b %Y %H:%M UTC")\<close>\<close>
  "format_time t = (let y = year_of t; m = month_of t; minute = (t mod day_us) div 60000000 in
     zpad 2 (nat (date_of t - ymd2ord y m 1 + 1)) @ '' '' @ MONTH_ABBR ! nat (m - 1) @ '' '' @ show_int y @ '' ''
     @ zpad 2 (nat (minute div 60)) @ '':'' @ zpad 2 (nat (minute mod 60)) @ '' UTC'')"

fun state_name :: "mon_state \<Rightarrow> string" where
  "state_name Unknown = ''unknown''"
| "state_name Up = ''up''"
| "state_name Down = ''down''"
| "state_name Degraded = ''degraded''"

fun state_label :: "mon_state \<Rightarrow> string" where   \<comment> \<open>\<open>_STATE_LABEL\<close>\<close>
  "state_label Unknown = ''Unknown''"
| "state_label Up = ''Operational''"
| "state_label Down = ''Down''"
| "state_label Degraded = ''Degraded''"

fun overall_name :: "overall \<Rightarrow> string" where
  "overall_name Operational = ''operational''"
| "overall_name DegradedOverall = ''degraded''"
| "overall_name PartialOutage = ''partial''"
| "overall_name MajorOutage = ''major''"

fun overall_copy :: "overall \<Rightarrow> string \<times> string" where   \<comment> \<open>\<open>_OVERALL_COPY\<close>\<close>
  "overall_copy Operational = (''All systems operational'', ''Outside-in checks are succeeding.'')"
| "overall_copy DegradedOverall = (''Degraded performance'', ''Some checks are slower or flaky.'')"
| "overall_copy PartialOutage = (''Partial outage'', ''At least one component is down.'')"
| "overall_copy MajorOutage = (''Major outage'', ''A critical incident or widespread outage is in progress.'')"

subsection \<open>The page\<close>

definition squote :: string where "squote = [CHR 0x27]"
definition dot :: string where "dot = [CHR '' '', CHR 0xB7, CHR '' '']"
definition nl :: string where "nl = [CHR 0x0A]"

definition component_html :: "component_view \<Rightarrow> string" where
  "component_html c = (let st = or_else (cv_state c) Unknown in
     ''<li><span>'' @ html_escape (cv_name c) @ ''</span><span class='' @ squote @ ''pill '' @ html_escape (state_name st)
     @ squote @ ''>'' @ html_escape (state_label st) @ ''</span></li>'')"

definition para :: "string \<Rightarrow> string \<Rightarrow> string" where   \<comment> \<open>a paragraph of a class\<close>
  "para cls inner = ''<p class='' @ squote @ cls @ squote @ ''>'' @ inner @ ''</p>''"

definition update_html :: "update_view \<Rightarrow> string" where
  "update_html u = ''<div class='' @ squote @ ''upd'' @ squote @ ''>''
     @ para ''when'' (html_escape (inc_status_name (uv_status u)) @ dot @ html_escape (format_time (uv_created_at u)))
     @ ''<p>'' @ html_escape (uv_body u) @ ''</p></div>''"

definition incident_html :: "incident_view \<Rightarrow> string" where
  "incident_html i = ''<article class='' @ squote @ ''inc'' @ squote @ ''><h3>'' @ html_escape (iv_title i) @ ''</h3>''
     @ para ''meta'' (html_escape (inc_status_name (iv_status i)) @ dot @ html_escape (impact_name (iv_impact i)) @ dot
         @ html_escape (format_time (iv_started_at i)))
     @ concat (map update_html (iv_updates i)) @ ''</article>''"

definition open_incidents :: "page_view \<Rightarrow> incident_view list" where
  "open_incidents v = filter (\<lambda>i. iv_status i \<noteq> Resolved) (pv_incidents v)"

definition past_incidents :: "page_view \<Rightarrow> incident_view list" where
  "past_incidents v = take 8 (filter (\<lambda>i. iv_status i = Resolved) (pv_incidents v))"

definition or_empty :: "string \<Rightarrow> string \<Rightarrow> string" where   \<comment> \<open>\<open>text or para('empty', msg)\<close>\<close>
  "or_empty s msg = (if s = [] then para ''empty'' msg else s)"

definition components_html :: "page_view \<Rightarrow> string" where
  "components_html v = (let inner = or_empty (concat (map component_html (pv_components v))) ''No components published.'' in
     if pv_components v \<noteq> [] then ''<ul class='' @ squote @ ''comps'' @ squote @ ''>'' @ inner @ ''</ul>'' else inner)"

definition past_html :: "page_view \<Rightarrow> string" where
  "past_html v = (let block = concat (map incident_html (past_incidents v)) in
     if block = [] then [] else ''<section class='' @ squote @ ''panel'' @ squote @ ''><h2>Past incidents</h2>'' @ block @ ''</section>'')"

record page_assets =
  asset_css :: string       \<comment> \<open>\<open>_STATUS_CSS\<close>\<close>
  asset_boot :: string      \<comment> \<open>\<open>_THEME_BOOT\<close>\<close>
  asset_foot :: string      \<comment> \<open>\<open>_THEME_FOOT\<close>\<close>

definition tagq :: "string \<Rightarrow> string \<Rightarrow> string \<Rightarrow> string" where   \<comment> \<open>an attribute in double quotes, and what follows\<close>
  "tagq a v rest = a @ CHR ''='' # CHR 0x22 # v @ CHR 0x22 # rest"

definition head_html :: "page_assets \<Rightarrow> string \<Rightarrow> string" where
  "head_html A title = ''<!DOCTYPE html>'' @ nl @ tagq ''<html lang'' ''en'' (tagq '' class'' ''dark'' ''>'') @ nl @ ''<head>'' @ nl
     @ tagq ''<meta charset'' ''utf-8'' ''/>'' @ nl
     @ tagq ''<meta name'' ''viewport'' (tagq '' content'' ''width=device-width, initial-scale=1'' ''/>'') @ nl
     @ tagq ''<meta name'' ''theme-color'' (tagq '' content'' ''#0a0a0a'' ''/>'') @ nl
     @ ''<title>'' @ title @ dot @ ''Status</title>'' @ nl
     @ tagq ''<meta name'' ''robots'' (tagq '' content'' ''noindex'' ''/>'') @ nl
     @ ''<style>'' @ asset_css A @ ''</style>'' @ nl @ asset_boot A @ nl @ ''</head>'' @ nl"

definition switch_html :: string where
  "switch_html = tagq ''  <div class'' ''theme-row'' ''>'' @ nl
     @ tagq ''    <span class'' ''theme-switch'' (tagq '' role'' ''group'' (tagq '' aria-label'' ''Theme'' ''>'')) @ nl
     @ tagq ''      <button type'' ''button'' (tagq '' data-theme-set'' ''dark'' (tagq '' aria-pressed'' ''true'' ''>Dark</button>'')) @ nl
     @ tagq ''      <button type'' ''button'' (tagq '' data-theme-set'' ''light'' (tagq '' aria-pressed'' ''false'' ''>Light</button>'')) @ nl
     @ ''    </span>'' @ nl @ ''  </div>'' @ nl"

definition banner_html :: "overall \<Rightarrow> string" where
  "banner_html o' = tagq ''  <div class'' (''banner '' @ html_escape (overall_name o')) ''>'' @ nl
     @ tagq ''    <span class'' ''dot'' (tagq '' aria-hidden'' ''true'' ''></span>'') @ nl @ ''    <div>'' @ nl
     @ ''      <strong>'' @ html_escape (fst (overall_copy o')) @ ''</strong>'' @ nl
     @ ''      <span>'' @ html_escape (snd (overall_copy o')) @ ''</span>'' @ nl @ ''    </div>'' @ nl @ ''  </div>'' @ nl"

definition panel_html :: "string \<Rightarrow> string \<Rightarrow> string" where
  "panel_html heading inner = tagq ''  <section class'' ''panel'' ''>'' @ nl @ ''    <h2>'' @ heading @ ''</h2>'' @ nl @ ''    ''
     @ inner @ nl @ ''  </section>'' @ nl"

definition render_status_html :: "page_assets \<Rightarrow> page_view \<Rightarrow> string" where
  "render_status_html A v = (let title = html_escape (pv_title v) in
     head_html A title @ ''<body>'' @ nl @ tagq ''<main class'' ''rail'' ''>'' @ nl @ switch_html
     @ tagq ''  <p class'' ''eyebrow'' ''>Status</p>'' @ nl @ ''  <h1>'' @ title @ ''</h1>'' @ nl
     @ banner_html (pv_overall v) @ panel_html ''Components'' (components_html v)
     @ panel_html ''Active incidents'' (or_empty (concat (map incident_html (open_incidents v))) ''No active incidents.'')
     @ ''  '' @ past_html v @ nl
     @ tagq ''  <p class'' ''disclaimer'' ''>Best-effort outside-in checks. Not an SLA. Monitor URLs and IPs are never shown.</p>'' @ nl
     @ ''</main>'' @ nl @ asset_foot A @ nl @ ''</body>'' @ nl @ ''</html>'')"

subsection \<open>The routes\<close>

definition HTML_PLATFORM_HOSTS :: "string list" where
  "HTML_PLATFORM_HOSTS = [''sinexis.app'', ''www.sinexis.app'', ''vs.appmedia.id'', ''status-edge.sinexis.app'',
     ''customers.sinexis.app'', ''localhost'', ''127.0.0.1'', ''testserver'']"

definition first_host :: "string option \<Rightarrow> string" where
  "first_host v = (case v of None \<Rightarrow> [] | Some s \<Rightarrow> lower (text_before CHR '':'' (strip (text_before CHR '','' s))))"

definition request_host :: "string option \<Rightarrow> string option \<Rightarrow> string" where
  "request_host host_header forwarded_header =
     (let host = first_host host_header; forwarded = first_host forwarded_header in
      if host \<in> set HTML_PLATFORM_HOSTS \<and> forwarded \<noteq> [] \<and> forwarded \<notin> set HTML_PLATFORM_HOSTS then forwarded else host)"

datatype html_answer = Page string | Plain nat string

definition html_for_custom_host ::
    "sp_cfg \<Rightarrow> page_assets \<Rightarrow> bool \<Rightarrow> string option \<Rightarrow> string option \<Rightarrow> sp_db \<Rightarrow> html_answer result" where
  "html_for_custom_host C A limited host_header forwarded_header s =
     (if limited then Inr (Plain 429 ''Too many requests'')
      else if \<not> sp_enabled C then Inr (Plain 404 ''Not found'')
      else let host = request_host host_header forwarded_header in
        if host \<in> set HTML_PLATFORM_HOSTS then Inr (Plain 404 ''Not found'')
        else ebind (public_by_host C host s) (\<lambda>v. Inr (Page (render_status_html A v))))"

definition html_by_slug :: "sp_cfg \<Rightarrow> page_assets \<Rightarrow> bool \<Rightarrow> string \<Rightarrow> sp_db \<Rightarrow> html_answer result" where
  "html_by_slug C A limited slug s =
     (if limited then Inr (Plain 429 ''Too many requests'')
      else if \<not> sp_enabled C then Inr (Plain 404 ''Not found'')
      else ebind (public_by_slug C slug s) (\<lambda>v. Inr (Page (render_status_html A v))))"

subsection \<open>Escaped text is only text\<close>

fun unescape :: "string \<Rightarrow> string" where
  "unescape [] = []"
| "unescape (c # s) =
     (if c \<noteq> CHR ''&'' then c # unescape s
      else if take 4 s = ''amp;'' then CHR ''&'' # unescape (drop 4 s)
      else if take 3 s = ''lt;'' then CHR ''<'' # unescape (drop 3 s)
      else if take 3 s = ''gt;'' then CHR ''>'' # unescape (drop 3 s)
      else if take 5 s = ''quot;'' then CHR 0x22 # unescape (drop 5 s)
      else if take 5 s = ''#x27;'' then CHR 0x27 # unescape (drop 5 s)
      else c # unescape s)"

lemma html_escape_simps:
  "html_escape [] = []" "html_escape (c # s) = escape_char c @ html_escape s"
  by (simp_all add: html_escape_def)

lemma unescape_escape_char: "unescape (escape_char c @ s) = c # unescape s"
  by (simp add: escape_char_def)

text \<open>A reader that decodes the five entities sees the text that was escaped.\<close>

lemma unescape_escape: "unescape (html_escape s) = s"
  by (induction s) (simp_all add: html_escape_simps unescape_escape_char)

definition markup :: "char \<Rightarrow> bool" where   \<comment> \<open>what opens or closes a tag or an attribute\<close>
  "markup c \<longleftrightarrow> c \<in> {CHR ''<'', CHR ''>'', CHR 0x22, CHR 0x27}"

lemma escape_no_markup: "filter markup (html_escape s) = []"
  by (induction s) (auto simp: html_escape_simps escape_char_def markup_def)

lemma filter_concat_map: "filter P (concat (map f xs)) = concat (map (\<lambda>x. filter P (f x)) xs)"
  by (simp add: filter_concat o_def)

lemma concat_const: "concat (map (\<lambda>_. k) xs) = concat (replicate (length xs) k)"
  by (induction xs) simp_all

definition component_marks :: string where
  "component_marks = filter markup (component_html \<lparr>cv_id = 0, cv_monitor = 0, cv_name = [], cv_order = 0, cv_state = None\<rparr>)"

lemma component_html_marks: "filter markup (component_html c) = component_marks"
  by (simp add: component_marks_def component_html_def Let_def escape_no_markup)

definition update_marks :: string where
  "update_marks = filter markup (update_html \<lparr>uv_id = 0, uv_body = [], uv_status = Resolved, uv_created_at = 0\<rparr>)"

lemma update_html_marks: "filter markup (update_html u) = update_marks"
  by (simp add: update_marks_def update_html_def para_def escape_no_markup)

definition incident_marks :: "nat \<Rightarrow> string" where
  "incident_marks n = filter markup (''<article class='' @ squote @ ''inc'' @ squote @ ''><h3></h3>'' @ para ''meta'' (dot @ dot))
     @ concat (replicate n update_marks) @ filter markup ''</article>''"

lemma incident_html_marks: "filter markup (incident_html i) = incident_marks (length (iv_updates i))"
  by (simp add: incident_marks_def incident_html_def para_def escape_no_markup filter_concat_map update_html_marks concat_const)

lemma or_empty_concat: "(\<And>x. f x \<noteq> []) \<Longrightarrow> or_empty (concat (map f xs)) msg = (if xs = [] then para ''empty'' msg else concat (map f xs))"
  by (cases xs) (simp_all add: or_empty_def)

lemma html_nonempty: "component_html c \<noteq> []" "incident_html i \<noteq> []"
  by (simp_all add: component_html_def Let_def incident_html_def)

lemma head_marks: "filter markup (head_html A (html_escape t)) = filter markup (head_html A [])"
  by (simp only: head_html_def filter_append escape_no_markup filter.simps(1))

lemma tagq_marks: "filter markup (tagq a v rest) = filter markup a @ [CHR 0x22] @ filter markup v @ [CHR 0x22] @ filter markup rest"
  by (simp add: tagq_def markup_def)

lemma banner_marks: "filter markup (banner_html o') = filter markup (banner_html Operational)"
  by (simp only: banner_html_def filter_append tagq_marks escape_no_markup)

lemma component_list_marks: "filter markup (concat (map component_html cs)) = concat (replicate (length cs) component_marks)"
  by (simp only: filter_concat_map component_html_marks concat_const)

lemma components_html_eq: "components_html v = (if pv_components v = [] then para ''empty'' ''No components published.''
    else (''<ul class='' @ squote @ ''comps'' @ squote @ ''>'') @ concat (map component_html (pv_components v)) @ ''</ul>'')"
  by (simp add: components_html_def Let_def or_empty_concat html_nonempty)

lemma components_marks:
  assumes "length (pv_components v) = length (pv_components w)"
  shows "filter markup (components_html v) = filter markup (components_html w)"
proof (cases "pv_components v = []")
  case True
  with assms have "pv_components w = []" by simp
  with True show ?thesis by (simp only: components_html_eq)
next
  case False
  with assms have "pv_components w \<noteq> []" by auto
  with False assms show ?thesis by (simp only: components_html_eq if_False filter_append component_list_marks)
qed

lemma incidents_marks: "map (\<lambda>i. length (iv_updates i)) xs = map (\<lambda>i. length (iv_updates i)) ys \<Longrightarrow>
    filter markup (concat (map incident_html xs)) = filter markup (concat (map incident_html ys))"
proof -
  have "filter markup (concat (map incident_html zs)) = concat (map incident_marks (map (\<lambda>i. length (iv_updates i)) zs))" for zs
    by (simp add: filter_concat_map incident_html_marks o_def)
  then show "map (\<lambda>i. length (iv_updates i)) xs = map (\<lambda>i. length (iv_updates i)) ys \<Longrightarrow>
      filter markup (concat (map incident_html xs)) = filter markup (concat (map incident_html ys))" by (simp only:)
qed

lemma past_marks: "map (\<lambda>i. length (iv_updates i)) (past_incidents v) = map (\<lambda>i. length (iv_updates i)) (past_incidents w) \<Longrightarrow>
    filter markup (past_html v) = filter markup (past_html w)" (is "_ \<Longrightarrow> ?thesis")
proof -
  assume *: "map (\<lambda>i. length (iv_updates i)) (past_incidents v) = map (\<lambda>i. length (iv_updates i)) (past_incidents w)"
  have e: "concat (map incident_html zs) = [] \<longleftrightarrow> zs = []" for zs
    using html_nonempty(2) by (cases zs) simp_all
  show ?thesis
  proof (cases "past_incidents v = []")
    case True
    with * have "past_incidents w = []" by simp
    with True show ?thesis by (simp only: past_html_def)
  next
    case False
    with * have "past_incidents w \<noteq> []" by auto
    with False show ?thesis using incidents_marks [OF *] by (simp only: past_html_def Let_def e if_False filter_append)
  qed
qed

lemma open_marks:
  assumes "map (\<lambda>i. length (iv_updates i)) xs = map (\<lambda>i. length (iv_updates i)) ys"
  shows "filter markup (or_empty (concat (map incident_html xs)) msg) = filter markup (or_empty (concat (map incident_html ys)) msg)"
proof (cases "xs = []")
  case True
  with assms show ?thesis by simp
next
  case False
  with assms have "ys \<noteq> []" by auto
  with False show ?thesis using incidents_marks [OF assms] by (simp only: or_empty_concat [OF html_nonempty(2)] if_False)
qed


definition view0 :: "string \<Rightarrow> page_view" where
  "view0 name = \<lparr>pv_id = 30, pv_org = 9, pv_slug = ''acme'', pv_title = name, pv_published = True, pv_hostname = None,
     pv_host_status = HostNone, pv_cname_target = [], pv_txt_name = None, pv_txt_value = None, pv_ssl = None,
     pv_public_path = ''/status/acme'', pv_created_at = 5, pv_updated_at = 5,
     pv_components = [\<lparr>cv_id = 31, cv_monitor = 32, cv_name = name, cv_order = 0, cv_state = Some Up\<rparr>],
     pv_incidents = [], pv_overall = Operational\<rparr>"


end
