(* ===== verification/StatusSafety.thy ===== *)
theory StatusSafety
  imports StatusHtml
begin

text \<open>
  What the handlers of the status pages keep: the keys of the pages, well-formed names, components that show monitors of
  their own organization, incidents whose status is that of their last update; and when a hostname becomes active.
\<close>

subsection \<open>The invariant\<close>

definition page_good :: "status_page \<Rightarrow> bool" where
  "page_good p \<longleftrightarrow> label_re 62 (pg_slug p) \<and> (pg_hostname p = None) = (pg_host_status p = HostNone)
     \<and> opt_all (\<lambda>h. name_re h \<and> \<not> reserved_host h) (pg_hostname p)"

definition page_keys :: "sp_db \<Rightarrow> (uuid \<times> uuid) set" where
  "page_keys s = (\<lambda>p. (pg_id p, pg_org p)) ` set (pages s)"

definition component_good :: "sp_db \<Rightarrow> status_component \<Rightarrow> bool" where
  "component_good s c \<longleftrightarrow> (\<exists>m\<in>set (sp_monitors s). mon_id m = cmp_monitor c \<and> (cmp_page c, mon_org m) \<in> page_keys s)"

definition incident_good :: "sp_db \<Rightarrow> status_incident \<Rightarrow> bool" where
  "incident_good s i \<longleftrightarrow> inc_page i \<in> fst ` page_keys s \<and> (inc_status i = Resolved) = (inc_resolved_at i \<noteq> None)
     \<and> updates_of s (inc_id i) \<noteq> [] \<and> iup_status (last (updates_of s (inc_id i))) = inc_status i"

abbreviation shown :: "status_component \<Rightarrow> uuid \<times> uuid" where
  "shown c \<equiv> (cmp_page c, cmp_monitor c)"

definition status_inv :: "sp_db \<Rightarrow> bool" where
  "status_inv s \<longleftrightarrow> unique_by pg_id (pages s)
     \<and> (\<forall>p\<in>set (pages s). \<forall>q\<in>set (pages s). pg_id q \<noteq> pg_id p \<longrightarrow> \<not> page_clash p q)
     \<and> (\<forall>p\<in>set (pages s). page_good p)
     \<and> unique_by cmp_id (components s) \<and> unique_by shown (components s) \<and> (\<forall>c\<in>set (components s). component_good s c)
     \<and> unique_by inc_id (incidents s) \<and> (\<forall>i\<in>set (incidents s). incident_good s i)
     \<and> (\<forall>u\<in>set (inc_updates s). iup_incident u \<in> inc_id ` set (incidents s))"

text \<open>Changes of the pages alone, of the components alone, of the incidents alone.\<close>

lemma status_inv_pages:
  assumes "status_inv s" "s' = s\<lparr>pages := ps\<rparr>" "page_keys s \<subseteq> page_keys s'" "unique_by pg_id ps"
    "\<And>p q. p \<in> set ps \<Longrightarrow> q \<in> set ps \<Longrightarrow> pg_id q \<noteq> pg_id p \<Longrightarrow> \<not> page_clash p q" "\<And>p. p \<in> set ps \<Longrightarrow> page_good p"
  shows "status_inv s'"
proof -
  have "component_good s' c" if "component_good s c" for c
    using that assms(2,3) by (auto simp: component_good_def)
  moreover have "incident_good s' i" if "incident_good s i" for i
    using that assms(2,3) by (auto simp: incident_good_def updates_of_def)
  ultimately show ?thesis using assms by (simp add: status_inv_def)
qed

lemma page_clash_sym: "page_clash p q = page_clash q p"
  by (auto simp: page_clash_def)

lemma page_clash_touched [simp]: "page_clash (p\<lparr>pg_updated_at := t\<rparr>) = page_clash p" "page_clash q (p\<lparr>pg_updated_at := t\<rparr>) = page_clash q p"
  by (auto simp: page_clash_def fun_eq_iff)

lemma page_good_touched [simp]: "page_good (p\<lparr>pg_updated_at := t\<rparr>) = page_good p"
  by (simp add: page_good_def)

lemma save_page_cases:
  assumes "save_page now p p' s = Inr s'"
  obtains "s' = s" | "p' \<noteq> p" "s' = s\<lparr>pages := row_upd pg_id (pg_id p) (\<lambda>_. p'\<lparr>pg_updated_at := now\<rparr>) (pages s)\<rparr>"
    "\<And>q. q \<in> set (pages s) \<Longrightarrow> pg_id q \<noteq> pg_id p \<Longrightarrow> \<not> page_clash p' q"
  using assms by (auto simp: save_page_def list_ex_iff split: if_splits)

lemma save_page_inv:
  assumes "save_page now p p' s = Inr s'" "status_inv s" "p \<in> set (pages s)" "pg_id p' = pg_id p" "pg_org p' = pg_org p" "page_good p'"
  shows "status_inv s'"
  using assms(1)
proof (cases rule: save_page_cases)
  case 1
  with assms(2) show ?thesis by simp
next
  case 2
  let ?p = "p'\<lparr>pg_updated_at := now\<rparr>" and ?ps = "row_upd pg_id (pg_id p) (\<lambda>_. p'\<lparr>pg_updated_at := now\<rparr>) (pages s)"
  have u: "unique_by pg_id (pages s)" using assms(2) by (simp add: status_inv_def)
  have mem: "x \<in> set ?ps \<longleftrightarrow> x = ?p \<or> x \<in> set (pages s) \<and> pg_id x \<noteq> pg_id p" for x
    using assms(3) by (auto simp: set_row_upd)
  show ?thesis
  proof (rule status_inv_pages [OF assms(2) 2(2)])
    show "page_keys s \<subseteq> page_keys s'"
    proof
      fix k assume "k \<in> page_keys s"
      then obtain x where x: "x \<in> set (pages s)" "k = (pg_id x, pg_org x)" by (auto simp: page_keys_def)
      show "k \<in> page_keys s'"
      proof (cases "pg_id x = pg_id p")
        case True
        with x(1) assms(3) have "x = p" using unique_byD [OF u] by blast
        with x(2) assms(4,5) have "k = (pg_id ?p, pg_org ?p)" by simp
        moreover have "?p \<in> set (pages s')" using mem by (simp add: 2(2))
        ultimately show ?thesis unfolding page_keys_def by blast
      next
        case False
        with x mem show ?thesis by (auto simp: page_keys_def 2(2))
      qed
    qed
    show "unique_by pg_id ?ps"
      using u assms(4) by (intro unique_by_row_replace [where c = "pg_id p"]) auto
    show "\<not> page_clash x y" if "x \<in> set ?ps" "y \<in> set ?ps" "pg_id y \<noteq> pg_id x" for x y
    proof -
      have old: "\<not> page_clash x y" if "x \<in> set (pages s)" "y \<in> set (pages s)" "pg_id y \<noteq> pg_id x" for x y
        using assms(2) that by (simp add: status_inv_def)
      have new: "\<not> page_clash ?p y" if "y \<in> set (pages s)" "pg_id y \<noteq> pg_id p" for y
        using 2(3) that by simp
      show ?thesis using that assms(4) old new page_clash_sym unfolding mem by metis
    qed
    show "page_good x" if "x \<in> set ?ps" for x
      using that assms(2,6) unfolding mem by (auto simp: status_inv_def)
  qed
qed

lemma insert_page_inv:
  assumes "insert_page p s = Inr s'" "status_inv s" "page_good p"
  shows "status_inv s'"
proof -
  have new: "pg_id p \<notin> pg_id ` set (pages s)" "\<And>q. q \<in> set (pages s) \<Longrightarrow> \<not> page_clash p q" "s' = s\<lparr>pages := pages s @ [p]\<rparr>"
    using assms(1) by (auto simp: insert_page_def list_ex_iff split: if_splits)
  show ?thesis
  proof (rule status_inv_pages [OF assms(2) new(3)])
    show "page_keys s \<subseteq> page_keys s'" by (auto simp: page_keys_def new(3))
    show "unique_by pg_id (pages s @ [p])" using assms(2) new(1) by (simp add: unique_by_append1 status_inv_def)
    show "\<not> page_clash x y" if "x \<in> set (pages s @ [p])" "y \<in> set (pages s @ [p])" "pg_id y \<noteq> pg_id x" for x y
      using that assms(2) new(2) page_clash_sym by (auto simp: status_inv_def)
    show "page_good x" if "x \<in> set (pages s @ [p])" for x
      using that assms(2,3) by (auto simp: status_inv_def)
  qed
qed

lemma status_inv_components:
  assumes "status_inv s" "s' = s\<lparr>components := cs\<rparr>" "unique_by cmp_id cs" "unique_by shown cs" "\<And>c. c \<in> set cs \<Longrightarrow> component_good s c"
  shows "status_inv s'"
  using assms by (simp add: status_inv_def component_good_def incident_good_def page_keys_def updates_of_def)

lemma status_inv_incidents:
  assumes "status_inv s" "s' = s\<lparr>incidents := is, inc_updates := us\<rparr>" "unique_by inc_id is" "\<And>i. i \<in> set is \<Longrightarrow> incident_good s' i"
    "\<And>u. u \<in> set us \<Longrightarrow> iup_incident u \<in> inc_id ` set is"
  shows "status_inv s'"
  using assms by (simp add: status_inv_def component_good_def page_keys_def)

lemma updates_of_append: "updates_of (s\<lparr>inc_updates := us @ [u]\<rparr>) k = updates_of (s\<lparr>inc_updates := us\<rparr>) k @ (if iup_incident u = k then [u] else [])"
  by (simp add: updates_of_def)

subsection \<open>The handlers\<close>

lemma reloaded_Inr: "reloaded C o' s1 = Inr (v, s') \<Longrightarrow> s' = s1"
  by (auto simp: reloaded_def ebind_eq_Inr)

lemma page_for_org_Some: "page_for_org s o' = Inr (Some p) \<Longrightarrow> p \<in> set (pages s) \<and> pg_org p = o'" (is "_ \<Longrightarrow> ?thesis")
proof -
  assume "page_for_org s o' = Inr (Some p)"
  then have "p \<in> set (filter (\<lambda>p. pg_org p = o') (pages s))" by (simp add: page_for_org_def scalar_one_or_none_Some)
  then show ?thesis by simp
qed

lemma own_page_Inr: "own_page s o' = Inr p \<Longrightarrow> p \<in> set (pages s) \<and> pg_org p = o'"
  unfolding own_page_def by (elim guardE) (metis get_or_Inr page_for_org_Some)

lemma set_hostname_Inr:
  "set_hostname t p h s = Inr p' \<Longrightarrow> p' = p\<lparr>pg_hostname := Some h, pg_host_status := HostPendingTxt\<rparr> \<and> \<not> reserved_host h"
  unfolding set_hostname_def assert_custom_hostname_def by (elim guardE) simp

lemma normalize_slug_Inr: "normalize_slug raw = Inr v \<Longrightarrow> label_re 62 v"
  by (auto simp: normalize_slug_def Let_def split: if_splits)

lemma normalize_hostname_Inr: "normalize_hostname raw = Inr v \<Longrightarrow> name_re v"
  by (auto simp: normalize_hostname_def Let_def split: if_splits)

lemma blank_or_Inr: "blank_or f v = Inr (Some x) \<Longrightarrow> \<exists>s. f s = Inr x"
  by (auto simp: blank_or_def ebind_eq_Inr split: option.splits if_splits)

lemma validate_page_update_Inr:
  assumes "validate_page_update b0 = Inr b"
  shows "pub_slug b = Some slug \<Longrightarrow> label_re 62 slug" "pub_hostname b = Some (Some h) \<Longrightarrow> name_re h"
  using assms unfolding validate_page_update_def
  by (elim guardE; auto simp: ebind_eq_Inr split: option.splits dest!: blank_or_Inr normalize_slug_Inr normalize_hostname_Inr)+

lemma name_re_nonempty: "name_re h \<Longrightarrow> h \<noteq> []"
  by (auto simp: name_re_def)

definition named_as :: "status_page \<Rightarrow> status_page \<Rightarrow> bool" where
  "named_as p q \<longleftrightarrow> pg_id q = pg_id p \<and> pg_org q = pg_org p \<and> (page_good p \<longrightarrow> page_good q)"

lemma named_as_simps [simp]:
  "named_as p p" "named_as p (q\<lparr>pg_title := t\<rparr>) = named_as p q" "named_as p (q\<lparr>pg_published := b\<rparr>) = named_as p q"
  by (simp_all add: named_as_def page_good_def)

lemma named_as_slug: "named_as p q \<Longrightarrow> label_re 62 t \<Longrightarrow> named_as p (q\<lparr>pg_slug := t\<rparr>)"
  by (simp add: named_as_def page_good_def)

lemma named_as_unhosted: "named_as p q \<Longrightarrow> named_as p (q\<lparr>pg_hostname := None, pg_host_status := HostNone\<rparr>)"
  by (simp add: named_as_def page_good_def)

lemma named_as_hosted:
  "named_as p q \<Longrightarrow> set_hostname t q h s = Inr q' \<Longrightarrow> name_re h \<Longrightarrow> named_as p q'"
  by (auto dest!: set_hostname_Inr simp: named_as_def page_good_def)

lemma map_status_some [simp]: "map_hostname_status a b \<noteq> HostNone"
  by (simp add: map_hostname_status_def Let_def)

lemma named_as_cf: "named_as p q \<Longrightarrow> pg_hostname q \<noteq> None \<Longrightarrow> named_as p (apply_cf x q)"
  by (auto simp: named_as_def page_good_def apply_cf_def)

lemma named_as_found: "named_as p q \<Longrightarrow> pg_hostname q \<noteq> None \<Longrightarrow> named_as p (apply_found x q)"
  by (auto simp: apply_found_def named_as_cf split: option.split)

lemma named_as_clear [simp]: "named_as p (clear_cf q) = named_as p q"
  by (simp add: named_as_def page_good_def clear_cf_def)

lemma named_as_status: "named_as p q \<Longrightarrow> pg_hostname q \<noteq> None \<Longrightarrow> x \<noteq> HostNone \<Longrightarrow> named_as p (q\<lparr>pg_host_status := x\<rparr>)"
  by (auto simp: named_as_def page_good_def)

lemma save_named:
  assumes "save_page now p q s = Inr s'" "named_as p q" "p \<in> set (pages s)" "status_inv s"
  shows "status_inv s'"
proof -
  have "page_good p" using assms(3,4) by (simp add: status_inv_def)
  with assms(2) show ?thesis using save_page_inv [OF assms(1,4,3)] by (simp add: named_as_def)
qed

text \<open>A handler that writes the page \<open>q\<close> in place of \<open>p\<close>.\<close>

definition host_kept :: "status_page \<Rightarrow> status_page \<Rightarrow> bool" where
  "host_kept p q \<longleftrightarrow> pg_id q = pg_id p \<and> pg_hostname q = pg_hostname p \<and> pg_host_status q = pg_host_status p"

lemma page_upsert_cases:
  assumes "page_upsert C k u oid b now s = Inr (v, s')" "validate_page_create b0 = Inr b"
  obtains p where "insert_page p s = Inr s'" "page_good p" "pg_host_status p = HostNone"
  | p q where "p \<in> set (pages s)" "save_page now p q s = Inr s'" "named_as p q" "host_kept p q"
proof -
  have slug: "label_re 62 (pcb_slug b)"
    using assms(2) unfolding validate_page_create_def by (elim guardE) (auto dest: normalize_slug_Inr)
  from assms(1) obtain o' x where g: "page_for_org s o' = Inr x"
    and r: "(case x of Some p \<Rightarrow> ebind (if pcb_slug b \<noteq> pg_slug p then slug_free s (pcb_slug b) (Some (pg_id p)) else Inr ()) (\<lambda>_.
         ebind (save_page now p (p\<lparr>pg_title := pcb_title b, pg_slug := pcb_slug b\<rparr>) s) (reloaded C o'))
       | None \<Rightarrow> ebind (slug_free s (pcb_slug b) None) (\<lambda>_. ebind (insert_page (new_page k o' u b now) s) (reloaded C o'))) = Inr (v, s')"
    unfolding page_upsert_def by (elim guardE)
  show ?thesis
  proof (cases x)
    case None
    with r have "insert_page (new_page k o' u b now) s = Inr s'" by (auto simp: ebind_eq_Inr dest: reloaded_Inr)
    then show ?thesis by (rule that(1)) (use slug in \<open>simp_all add: page_good_def new_page_def\<close>)
  next
    case (Some p)
    with g have p: "p \<in> set (pages s)" using page_for_org_Some by blast
    from r Some have "save_page now p (p\<lparr>pg_title := pcb_title b, pg_slug := pcb_slug b\<rparr>) s = Inr s'"
      by (auto simp: ebind_eq_Inr dest: reloaded_Inr)
    with p show ?thesis by (rule that(2)) (simp_all add: named_as_slug slug host_kept_def)
  qed
qed

lemma page_update_cases:
  assumes "page_update C u oid b now s = Inr (v, s')" "validate_page_update b0 = Inr b"
  obtains p q where "p \<in> set (pages s)" "save_page now p q s = Inr s'" "named_as p q" "host_kept p q \<or> pg_host_status q \<noteq> HostActive"
proof -
  from assms(1) obtain o' t p p2 p3 p4 s1 where p: "own_page s o' = Inr p"
    and p2: "(case pub_slug b of None \<Rightarrow> Inr (p\<lparr>pg_title := or_else (pub_title b) (pg_title p)\<rparr>)
       | Some slug \<Rightarrow> if slug = pg_slug p then Inr (p\<lparr>pg_title := or_else (pub_title b) (pg_title p)\<rparr>)
           else ebind (slug_free s slug (Some (pg_id p))) (\<lambda>_. Inr (p\<lparr>pg_title := or_else (pub_title b) (pg_title p)\<rparr>\<lparr>pg_slug := slug\<rparr>))) = Inr p2"
    and p3: "(case pub_published b of None \<Rightarrow> Inr p2
       | Some v \<Rightarrow> ebind (if v then need_status_page t else Inr ()) (\<lambda>_. Inr (p2\<lparr>pg_published := v\<rparr>))) = Inr p3"
    and p4: "(case pub_hostname b of None \<Rightarrow> Inr p3
       | Some h \<Rightarrow> if str_or_empty h = [] then Inr (p3\<lparr>pg_hostname := None, pg_host_status := HostNone\<rparr>)
           else set_hostname t p3 (str_or_empty h) s) = Inr p4"
    and s1: "save_page now p p4 s = Inr s1" "s' = s1"
    unfolding page_update_def Let_def by (elim guardE) (drule reloaded_Inr, blast)
  have "named_as p p2 \<and> host_kept p p2"
    using p2 validate_page_update_Inr(1) [OF assms(2)]
    by (auto simp: ebind_eq_Inr host_kept_def split: option.splits if_splits intro: named_as_slug)
  then have n3: "named_as p p3" "host_kept p p3"
    using p3 by (auto simp: ebind_eq_Inr host_kept_def split: option.splits)
  have "named_as p p4 \<and> (host_kept p p4 \<or> pg_host_status p4 \<noteq> HostActive)"
  proof (cases "pub_hostname b")
    case (Some h)
    show ?thesis
    proof (cases "str_or_empty h = []")
      case False
      then obtain h' where h': "h = Some h'" by (cases h) (auto simp: str_or_empty_def)
      with Some validate_page_update_Inr(2) [OF assms(2)] have "name_re h'" by simp
      moreover have "set_hostname t p3 h' s = Inr p4" using p4 Some False h' by (simp add: str_or_empty_def)
      ultimately show ?thesis using named_as_hosted [OF n3(1)] set_hostname_Inr by fastforce
    next
      case True
      with p4 Some have "p4 = p3\<lparr>pg_hostname := None, pg_host_status := HostNone\<rparr>" by simp
      with n3(1) show ?thesis by (simp add: named_as_unhosted)
    qed
  qed (use p4 n3 in simp)
  with s1 own_page_Inr [OF p] show ?thesis using that by blast
qed

text \<open>What Cloudflare said of a hostname.\<close>

definition ssl_active :: "cf_hostname \<Rightarrow> bool" where
  "ssl_active x \<longleftrightarrow> lower (str_or_empty (cfh_ssl x)) = ''active''"

lemma map_active: "map_hostname_status a b = HostActive \<Longrightarrow> lower (str_or_empty a) = ''active''"
  by (auto simp: map_hostname_status_def Let_def split: if_splits)

lemma ensure_found:
  assumes "or_502 msg (ensure_hostname C net h) = Inr x" "pg_host_status q = HostPendingTxt" "pg_host_status (apply_found x q) = HostActive"
  shows "\<exists>y. cf_ensure C net h = Inr y \<and> ssl_active y"
proof (cases x)
  case None
  with assms(2,3) show ?thesis by (simp add: apply_found_def)
next
  case (Some y)
  have "ensure_hostname C net h = Inr (Some y)"
    using assms(1) Some by (auto simp: or_502_def split: sum.splits error.splits)
  then have "cf_ensure C net h = Inr y" by (auto simp: ensure_hostname_def ebind_eq_Inr split: if_splits)
  moreover have "ssl_active y" using assms(3) Some by (auto simp: apply_found_def apply_cf_def ssl_active_def dest: map_active)
  ultimately show ?thesis by blast
qed

lemma attach_cases:
  assumes "attach_hostname C net u oid h now s = Inr (v, s')" "name_re h"
  obtains p q where "p \<in> set (pages s)" "save_page now p q s = Inr s'" "named_as p q" "pg_hostname q = Some h"
    "pg_host_status q = HostActive \<Longrightarrow> \<exists>x. cf_ensure (sp_cf C) net h = Inr x \<and> ssl_active x"
proof -
  from assms(1) obtain o' t p p1 x s1 where p: "own_page s o' = Inr p" "set_hostname t p h s = Inr p1"
    and x: "or_502 ''Cloudflare hostname create failed'' (ensure_hostname (sp_cf C) net h) = Inr x"
    and s1: "save_page now p (apply_found x p1) s = Inr s1" "s' = s1"
    unfolding attach_hostname_def by (elim guardE) (drule reloaded_Inr, blast)
  note p1 = set_hostname_Inr [OF p(2)]
  have "named_as p p1" using named_as_hosted [OF named_as_simps(1) p(2) assms(2)] .
  then have "named_as p (apply_found x p1)" using p1 by (intro named_as_found) simp_all
  moreover have "pg_hostname (apply_found x p1) = Some h" using p1 by (simp add: apply_found_def apply_cf_def split: option.split)
  moreover have "pg_host_status p1 = HostPendingTxt" using p1 by simp
  ultimately show ?thesis using that own_page_Inr [OF p(1)] s1 ensure_found [OF x] by blast
qed

lemma replace_cases:
  assumes "replace_hostname C net u oid h now s = Inr (v, s')" "name_re h"
  obtains p q where "p \<in> set (pages s)" "save_page now p q s = Inr s'" "named_as p q" "pg_hostname q = Some h"
    "pg_host_status q = HostActive \<Longrightarrow> \<exists>x. cf_ensure (sp_cf C) net h = Inr x \<and> ssl_active x"
proof -
  from assms(1) obtain o' t p p1 x s1 where p: "own_page s o' = Inr p" "set_hostname t p h s = Inr p1"
    and x: "or_502 ''Cloudflare hostname create failed'' (ensure_hostname (sp_cf C) net h) = Inr x"
    and s1: "save_page now p (apply_found x (clear_cf p1)) s = Inr s1" "s' = s1"
    unfolding replace_hostname_def by (elim guardE) (drule reloaded_Inr, blast)
  note p1 = set_hostname_Inr [OF p(2)]
  have c: "pg_hostname (clear_cf p1) = Some h" "pg_host_status (clear_cf p1) = HostPendingTxt" using p1 by (simp_all add: clear_cf_def)
  have "named_as p p1" using named_as_hosted [OF named_as_simps(1) p(2) assms(2)] .
  then have "named_as p (apply_found x (clear_cf p1))" using c by (intro named_as_found) (simp, simp)
  moreover have "pg_hostname (apply_found x (clear_cf p1)) = Some h" using c by (simp add: apply_found_def apply_cf_def split: option.split)
  ultimately show ?thesis using that own_page_Inr [OF p(1)] s1 ensure_found [OF x c(2)] by blast
qed

lemma detach_cases:
  assumes "detach_hostname C net u oid now s = Inr (v, s')"
  obtains p q where "p \<in> set (pages s)" "save_page now p q s = Inr s'" "named_as p q" "pg_host_status q = HostNone"
proof -
  from assms(1) obtain o' p s1 where p: "own_page s o' = Inr p"
    and s1: "save_page now p (clear_cf (p\<lparr>pg_hostname := None, pg_host_status := HostNone\<rparr>)) s = Inr s1" "s' = s1"
    unfolding detach_hostname_def by (elim guardE) (drule reloaded_Inr, blast)
  have "named_as p (clear_cf (p\<lparr>pg_hostname := None, pg_host_status := HostNone\<rparr>))" by (simp add: named_as_unhosted)
  moreover have "pg_host_status (clear_cf (p\<lparr>pg_hostname := None, pg_host_status := HostNone\<rparr>)) = HostNone" by (simp add: clear_cf_def)
  ultimately show ?thesis using that own_page_Inr [OF p] s1 by blast
qed

lemma check_hostname_cases:
  assumes "check_hostname C net u oid now s = (r, s')"
  obtains "s' = s"
  | o' p e where "page_for_org s o' = Inr (Some p)" "pg_hostname p \<noteq> None" "checked_page C net p = Inl e"
      "save_page now p (p\<lparr>pg_host_status := HostFailed\<rparr>) s = Inr s'"
  | o' p p' where "page_for_org s o' = Inr (Some p)" "pg_hostname p \<noteq> None" "checked_page C net p = Inr p'"
      "save_page now p p' s = Inr s'"
proof -
  let ?g = "ebind (sp_gate C u oid Member s) (\<lambda>o'. ebind (page_for_org s o') (\<lambda>found.
        ebind (get_or (HTTPError 400 ''No custom hostname set'') found) (\<lambda>p.
        ebind (raise_if (str_or_empty (pg_hostname p) = []) (HTTPError 400 ''No custom hostname set'')) (\<lambda>_. Inr (o', p)))))"
  show ?thesis
  proof (cases ?g)
    case (Inl e)
    with assms that(1) show ?thesis by (simp add: check_hostname_def)
  next
    case (Inr x)
    obtain o' p where x: "x = (o', p)" by (cases x)
    from Inr x have p: "page_for_org s o' = Inr (Some p)" "str_or_empty (pg_hostname p) \<noteq> []"
      by (auto simp: ebind_eq_Inr get_or_Inr raise_if_Inr)
    then have p: "page_for_org s o' = Inr (Some p)" "pg_hostname p \<noteq> None" by (cases "pg_hostname p"; simp add: str_or_empty_def)+
    show ?thesis
    proof (cases "checked_page C net p")
      case (Inl e)
      with assms Inr x show ?thesis using that(1) that(2) [OF p Inl]
        by (cases "save_page now p (p\<lparr>pg_host_status := HostFailed\<rparr>) s") (simp_all add: check_hostname_def)
    next
      case c: (Inr p')
      show ?thesis
      proof (cases "ebind (save_page now p p' s) (reloaded C o')")
        case (Inl e)
        with assms Inr x c that(1) show ?thesis by (simp add: check_hostname_def)
      next
        case r: (Inr y)
        obtain v s2 where y: "y = (v, s2)" by (cases y)
        with r have "save_page now p p' s = Inr s2" by (auto simp: ebind_eq_Inr dest: reloaded_Inr)
        moreover have "s' = s2" using assms Inr x c r y by (simp add: check_hostname_def)
        ultimately show ?thesis using that(3) [OF p c] by simp
      qed
    qed
  qed
qed

lemma checked_page_named:
  assumes "checked_page C net p = Inr p'" "pg_hostname p \<noteq> None"
  shows "named_as p p'"
  using assms unfolding checked_page_def
  by (auto simp: ebind_eq_Inr named_as_def page_good_def apply_cf_def split: if_splits option.splits)

lemma Inr_E: "Inr x = Inr y \<Longrightarrow> (y = x \<Longrightarrow> P) \<Longrightarrow> P"
  by simp

lemma components_of_mem: "find (\<lambda>c. cmp_id c = k) (components_of s pid) = Some c \<Longrightarrow> c \<in> set (components s)"
  by (auto simp: find_Some_iff components_of_def dest: nth_mem)

lemma add_component_inv:
  assumes "add_component C k u oid mid name order s = Inr (v, s')" "status_inv s"
  shows "status_inv s'"
proof -
  from assms(1) obtain o' p found m where p: "own_page s o' = Inr p"
    and f: "scalar_one_or_none (filter (\<lambda>m. mon_id m = mid \<and> mon_org m = o') (sp_monitors s)) = Inr found" "found = Some m"
    and new: "\<not> list_ex (\<lambda>c. cmp_id c = k \<or> cmp_page c = pg_id p \<and> cmp_monitor c = mon_id m) (components s)"
    and s': "s' = s\<lparr>components := components s @
       [\<lparr>cmp_id = k, cmp_page = pg_id p, cmp_monitor = mon_id m, cmp_name = name, cmp_order = order\<rparr>]\<rparr>"
    unfolding add_component_def by (elim guardE) (drule reloaded_Inr, blast)
  from f have "m \<in> set (filter (\<lambda>m. mon_id m = mid \<and> mon_org m = o') (sp_monitors s))" by (simp add: scalar_one_or_none_Some)
  then have m: "m \<in> set (sp_monitors s)" "mon_org m = o'" by simp_all
  have key: "(pg_id p, mon_org m) \<in> page_keys s"
    using own_page_Inr [OF p] m(2) by (force simp: page_keys_def)
  show ?thesis
    by (rule status_inv_components [OF assms(2) s'])
      (use assms(2) new m key in \<open>auto simp: status_inv_def unique_by_append1 list_ex_iff component_good_def\<close>)
qed

lemma delete_component_inv:
  assumes "delete_component C u oid k s = Inr s'" "status_inv s"
  shows "status_inv s'"
proof -
  from assms(1) obtain c :: status_component where s': "s' = s\<lparr>components := row_del cmp_id (cmp_id c) (components s)\<rparr>"
    unfolding delete_component_def by (elim guardE Inr_E) blast
  show ?thesis
    by (rule status_inv_components [OF assms(2) s']) (use assms(2) in \<open>auto simp: status_inv_def intro: unique_by_row_del\<close>)
qed

lemma insert_incident_Inr: "insert_incident i s = Inr s' \<Longrightarrow> inc_id i \<notin> inc_id ` set (incidents s) \<and> s' = s\<lparr>incidents := incidents s @ [i]\<rparr>"
  by (simp add: insert_incident_def split: if_splits)

lemma insert_update_Inr: "insert_update u s = Inr s' \<Longrightarrow> s' = s\<lparr>inc_updates := inc_updates s @ [u]\<rparr>"
  by (simp add: insert_update_def split: if_splits)

lemma updates_other: "iup_incident u \<noteq> k \<Longrightarrow> updates_of (s\<lparr>inc_updates := us @ [u]\<rparr>) k = updates_of (s\<lparr>inc_updates := us\<rparr>) k"
  by (simp add: updates_of_def)

lemma create_incident_inv:
  assumes "create_incident C k uk u oid b now s = Inr (v, s')" "status_inv s"
  shows "status_inv s'"
proof -
  from assms(1) obtain o' p s1 where p: "own_page s o' = Inr p"
    and s1: "insert_incident \<lparr>inc_id = k, inc_page = pg_id p, inc_created_by = user_id u, inc_title = icb_title b,
         inc_impact = icb_impact b, inc_status = icb_status b, inc_started_at = now,
         inc_resolved_at = (if icb_status b = Resolved then Some now else None), inc_created_at = now\<rparr> s = Inr s1"
       (is "insert_incident ?i s = _")
    and s': "insert_update \<lparr>iup_id = uk, iup_incident = k, iup_created_by = user_id u, iup_body = icb_body b,
         iup_status = icb_status b, iup_created_at = now\<rparr> s1 = Inr s'" (is "insert_update ?u s1 = _")
    unfolding create_incident_def by (elim guardE) (drule reloaded_Inr, blast)
  have new: "k \<notin> inc_id ` set (incidents s)" "s' = s\<lparr>incidents := incidents s @ [?i], inc_updates := inc_updates s @ [?u]\<rparr>"
    using insert_incident_Inr [OF s1] insert_update_Inr [OF s'] by simp_all
  have ups: "updates_of s' j = (if j = k then [?u] else updates_of s j)" for j
  proof -
    have "updates_of s k = []" using assms(2) new(1) by (auto simp: status_inv_def updates_of_def filter_empty_conv)
    then show ?thesis by (simp add: updates_of_def new(2))
  qed
  have keys: "page_keys s' = page_keys s" by (simp add: page_keys_def new(2))
  have "pg_id p \<in> fst ` page_keys s" using own_page_Inr [OF p] by (force simp: page_keys_def)
  then have i: "incident_good s' ?i" by (simp add: incident_good_def ups keys)
  have old: "incident_good s' j" if "j \<in> set (incidents s)" for j
  proof -
    have "inc_id j \<noteq> k" using that new(1) by auto
    moreover have "incident_good s j" using that assms(2) by (simp add: status_inv_def)
    ultimately show ?thesis by (simp add: incident_good_def ups keys)
  qed
  show ?thesis
    by (rule status_inv_incidents [OF assms(2) new(2)]) (use assms(2) new(1) i old in \<open>auto simp: status_inv_def unique_by_append1\<close>)
qed

lemma own_incident_Inr: "own_incident s p k = Inr i \<Longrightarrow> i \<in> set (incidents s) \<and> inc_page i = pg_id p"
  by (auto simp: own_incident_def get_or_Inr find_Some_iff incidents_of_def dest: nth_mem)

text \<open>An incident rewritten under its own key, and the updates of the incidents after it.\<close>

lemma rewrite_incident:
  assumes "status_inv s" "i \<in> set (incidents s)" "inc_id j = inc_id i"
    "s' = s\<lparr>incidents := row_upd inc_id (inc_id i) (\<lambda>_. j) (incidents s), inc_updates := inc_updates s @ us\<rparr>"
    "\<forall>u\<in>set us. iup_incident u = inc_id i" "incident_good s' j"
  shows "status_inv s'"
proof (rule status_inv_incidents [OF assms(1,4)])
  have u: "unique_by inc_id (incidents s)" using assms(1) by (simp add: status_inv_def)
  show "unique_by inc_id (row_upd inc_id (inc_id i) (\<lambda>_. j) (incidents s))"
    using u assms(3) by (intro unique_by_row_replace [where c = "inc_id i"]) auto
  show "incident_good s' x" if "x \<in> set (row_upd inc_id (inc_id i) (\<lambda>_. j) (incidents s))" for x
  proof -
    from that consider "x = j" | "x \<in> set (incidents s)" "inc_id x \<noteq> inc_id i" by (auto simp: set_row_upd)
    then show ?thesis
    proof cases
      case 2
      have "updates_of s' (inc_id x) = updates_of s (inc_id x)"
        using assms(5) 2(2) by (auto simp: updates_of_def assms(4) filter_empty_conv)
      moreover have "incident_good s x" using 2 assms(1) by (simp add: status_inv_def)
      moreover have "page_keys s' = page_keys s" by (simp add: page_keys_def assms(4))
      ultimately show ?thesis by (simp add: incident_good_def)
    qed (use assms(6) in simp)
  qed
  have ids: "inc_id ` set (row_upd inc_id (inc_id i) (\<lambda>_. j) (incidents s)) = inc_id ` set (incidents s)"
  proof -
    have "map inc_id (row_upd inc_id (inc_id i) (\<lambda>_. j) (incidents s)) = map inc_id (incidents s)"
      using assms(3) by (auto simp: row_upd_def)
    then show ?thesis by (metis list.set_map)
  qed
  show "iup_incident x \<in> inc_id ` set (row_upd inc_id (inc_id i) (\<lambda>_. j) (incidents s))" if "x \<in> set (inc_updates s @ us)" for x
    using that assms(1,2,5) unfolding ids by (auto simp: status_inv_def)
qed

lemma add_update_inv:
  assumes "add_incident_update C uk u oid k body st now s = Inr (v, s')" "status_inv s"
  shows "status_inv s'"
proof -
  from assms(1) obtain o' p i where i: "own_incident s p k = Inr i"
    and s': "insert_update \<lparr>iup_id = uk, iup_incident = inc_id i, iup_created_by = user_id u, iup_body = body,
         iup_status = st, iup_created_at = now\<rparr>
       (save_incident (i\<lparr>inc_status := st, inc_resolved_at := (if st = Resolved then Some now else None)\<rparr>) s) = Inr s'"
       (is "insert_update ?u (save_incident ?j s) = _")
    unfolding add_incident_update_def by (elim guardE) (drule reloaded_Inr, blast)
  have s'': "s' = s\<lparr>incidents := row_upd inc_id (inc_id i) (\<lambda>_. ?j) (incidents s), inc_updates := inc_updates s @ [?u]\<rparr>"
    using insert_update_Inr [OF s'] by (simp add: save_incident_def)
  have m: "i \<in> set (incidents s)" using own_incident_Inr [OF i] by simp
  then have "inc_page i \<in> fst ` page_keys s" using assms(2) by (simp add: status_inv_def incident_good_def)
  moreover have "page_keys s' = page_keys s" by (simp add: page_keys_def s'')
  ultimately have "incident_good s' ?j" by (simp add: incident_good_def) (simp add: s'' updates_of_def)
  then show ?thesis using rewrite_incident [OF assms(2) m _ s''] by simp
qed

lemma patch_incident_inv:
  assumes "patch_incident C u oid k title imp s = Inr (v, s')" "status_inv s"
  shows "status_inv s'"
proof -
  from assms(1) obtain o' p i where i: "own_incident s p k = Inr i"
    and s': "s' = save_incident (i\<lparr>inc_title := or_else title (inc_title i), inc_impact := or_else imp (inc_impact i)\<rparr>) s"
       (is "_ = save_incident ?j s")
    unfolding patch_incident_def by (elim guardE) (drule reloaded_Inr, blast)
  have s'': "s' = s\<lparr>incidents := row_upd inc_id (inc_id i) (\<lambda>_. ?j) (incidents s), inc_updates := inc_updates s @ []\<rparr>"
    using s' by (simp add: save_incident_def)
  have m: "i \<in> set (incidents s)" using own_incident_Inr [OF i] by simp
  then have "incident_good s i" using assms(2) by (simp add: status_inv_def)
  moreover have "page_keys s' = page_keys s" by (simp add: page_keys_def s'')
  ultimately have "incident_good s' ?j" by (simp add: incident_good_def) (simp add: s'' updates_of_def)
  then show ?thesis using rewrite_incident [OF assms(2) m _ s''] by simp
qed

lemma delete_incident_inv:
  assumes "delete_incident C u oid k s = Inr s'" "status_inv s"
  shows "status_inv s'"
proof -
  from assms(1) obtain i :: status_incident where s': "s' = s\<lparr>incidents := row_del inc_id (inc_id i) (incidents s),
       inc_updates := filter (\<lambda>x. iup_incident x \<noteq> inc_id i) (inc_updates s)\<rparr>"
    unfolding delete_incident_def by (elim guardE Inr_E) blast
  have "incident_good s' x" if "x \<in> set (incidents s)" "inc_id x \<noteq> inc_id i" for x
  proof -
    have "updates_of s' (inc_id x) = updates_of s (inc_id x)"
      using that(2) by (auto simp: updates_of_def s' intro: filter_cong)
    moreover have "incident_good s x" using that assms(2) by (simp add: status_inv_def)
    moreover have "page_keys s' = page_keys s" by (simp add: page_keys_def s')
    ultimately show ?thesis by (simp add: incident_good_def)
  qed
  then show ?thesis
    by (intro status_inv_incidents [OF assms(2) s']) (use assms(2) in \<open>auto simp: status_inv_def intro: unique_by_row_del\<close>)
qed

subsection \<open>Every operation\<close>

text \<open>\<open>env\<close> is what the rest of the program does: it changes the other tables, and a monitor that goes away takes the components
  that show it along. A monitor never moves to another organization.\<close>

inductive status_step :: "sp_cfg \<Rightarrow> cf_transport \<Rightarrow> sp_db \<Rightarrow> sp_db \<Rightarrow> bool" for C net where
  upsert: "validate_page_create b0 = Inr b \<Longrightarrow> page_upsert C k u oid b now s = Inr (v, s') \<Longrightarrow> status_step C net s s'"
| update: "validate_page_update b0 = Inr b \<Longrightarrow> page_update C u oid b now s = Inr (v, s') \<Longrightarrow> status_step C net s s'"
| attach: "normalize_hostname raw = Inr h \<Longrightarrow> attach_hostname C net u oid h now s = Inr (v, s') \<Longrightarrow> status_step C net s s'"
| replace: "normalize_hostname raw = Inr h \<Longrightarrow> replace_hostname C net u oid h now s = Inr (v, s') \<Longrightarrow> status_step C net s s'"
| detach: "detach_hostname C net u oid now s = Inr (v, s') \<Longrightarrow> status_step C net s s'"
| check: "check_hostname C net u oid now s = (r, s') \<Longrightarrow> status_step C net s s'"
| component: "add_component C k u oid mid name order s = Inr (v, s') \<Longrightarrow> status_step C net s s'"
| uncomponent: "delete_component C u oid k s = Inr s' \<Longrightarrow> status_step C net s s'"
| incident: "create_incident C k uk u oid ib now s = Inr (v, s') \<Longrightarrow> status_step C net s s'"
| progress: "add_incident_update C uk u oid k body st now s = Inr (v, s') \<Longrightarrow> status_step C net s s'"
| patch: "patch_incident C u oid k title imp s = Inr (v, s') \<Longrightarrow> status_step C net s s'"
| unincident: "delete_incident C u oid k s = Inr s' \<Longrightarrow> status_step C net s s'"
| env: "(\<And>m m'. m \<in> set ms \<Longrightarrow> m' \<in> set (sp_monitors s) \<Longrightarrow> mon_id m = mon_id m' \<Longrightarrow> mon_org m = mon_org m') \<Longrightarrow>
    s' = s\<lparr>sp_core := d, sp_monitors := ms, components := filter (\<lambda>c. cmp_monitor c \<in> mon_id ` set ms) (components s)\<rparr> \<Longrightarrow>
    status_step C net s s'"

lemma env_inv:
  assumes "\<And>m m'. m \<in> set ms \<Longrightarrow> m' \<in> set (sp_monitors s) \<Longrightarrow> mon_id m = mon_id m' \<Longrightarrow> mon_org m = mon_org m'"
    "s' = s\<lparr>sp_core := d, sp_monitors := ms, components := filter (\<lambda>c. cmp_monitor c \<in> mon_id ` set ms) (components s)\<rparr>"
    "status_inv s"
  shows "status_inv s'"
proof -
  have "component_good s' c" if c: "c \<in> set (components s)" "cmp_monitor c \<in> mon_id ` set ms" for c
  proof -
    obtain m where m: "m \<in> set ms" "mon_id m = cmp_monitor c" using c(2) by auto
    have "component_good s c" using c(1) assms(3) by (simp add: status_inv_def)
    then obtain m' where m': "m' \<in> set (sp_monitors s)" "mon_id m' = cmp_monitor c" "(cmp_page c, mon_org m') \<in> page_keys s"
      by (auto simp: component_good_def)
    have "mon_org m = mon_org m'" using assms(1) m m' by simp
    with m m'(3) show ?thesis by (auto simp: component_good_def assms(2) page_keys_def)
  qed
  then show ?thesis
    using assms(3) unfolding status_inv_def
    by (simp add: assms(2) distinct_map_filter unique_by_def incident_good_def page_keys_def updates_of_def)
qed

lemma status_step_inv: "status_step C net s s' \<Longrightarrow> status_inv s \<Longrightarrow> status_inv s'"
proof (induction rule: status_step.induct)
  case (upsert b0 b k u oid now s v s')
  then show ?case by (elim page_upsert_cases) (blast intro: insert_page_inv save_named)+
next
  case (update b0 b u oid now s v s')
  then show ?case by (elim page_update_cases) (blast intro: save_named)+
next
  case (attach raw h u oid now s v s')
  show ?case using attach(2) normalize_hostname_Inr [OF attach(1)] by (rule attach_cases) (use attach(3) save_named in blast)
next
  case (replace raw h u oid now s v s')
  show ?case using replace(2) normalize_hostname_Inr [OF replace(1)] by (rule replace_cases) (use replace(3) save_named in blast)
next
  case (detach u oid now s v s')
  show ?case using detach(1) by (rule detach_cases) (use detach(2) save_named in blast)
next
  case (check u oid now s r s')
  from check(1) show ?case
  proof (cases rule: check_hostname_cases)
    case (2 o' p e)
    have "named_as p (p\<lparr>pg_host_status := HostFailed\<rparr>)" using 2(2) by (intro named_as_status) simp_all
    with 2 check(2) show ?thesis using save_named page_for_org_Some by blast
  next
    case (3 o' p p')
    with check(2) show ?thesis using save_named page_for_org_Some checked_page_named by blast
  qed (use check(2) in simp)
next
  case (env ms s s' d)
  then show ?case using env_inv by blast
qed (blast intro: add_component_inv delete_component_inv create_incident_inv add_update_inv patch_incident_inv delete_incident_inv)+


subsection \<open>When a hostname is served\<close>

definition confirmed :: "sp_cfg \<Rightarrow> cf_transport \<Rightarrow> sp_db \<Rightarrow> status_page \<Rightarrow> bool" where
  "confirmed C net s q \<longleftrightarrow> (\<exists>p\<in>set (pages s). host_kept p q) \<or> cf_stub_active (sp_cf C)
     \<or> (\<exists>h x. pg_hostname q = Some h \<and> ssl_active x \<and> (cf_ensure (sp_cf C) net h = Inr x \<or> cf_find (sp_cf C) net h = Inr (Some x)
          \<or> (\<exists>p\<in>set (pages s). \<exists>k. pg_id p = pg_id q \<and> pg_hostname p = Some h \<and> pg_cf_id p = Some k \<and> cf_get (sp_cf C) net k = Inr x)))"

lemma confirmed_touched [simp]: "confirmed C net s (q\<lparr>pg_updated_at := t\<rparr>) = confirmed C net s q"
  by (simp add: confirmed_def host_kept_def)

lemma save_confirmed:
  assumes "save_page now p q s = Inr s'" "pg_host_status q = HostActive \<Longrightarrow> confirmed C net s q"
    "p' \<in> set (pages s')" "pg_host_status p' = HostActive"
  shows "confirmed C net s p'"
proof -
  have old: "confirmed C net s x" if "x \<in> set (pages s)" for x using that by (auto simp: confirmed_def host_kept_def)
  from assms(1) show ?thesis
  proof (cases rule: save_page_cases)
    case 1
    with assms(3) old show ?thesis by simp
  next
    case 2
    then have "p' \<in> set (pages s) \<or> p' = q\<lparr>pg_updated_at := now\<rparr>" using assms(3) by (auto simp: set_row_upd)
    with old assms(2,4) show ?thesis by auto
  qed
qed

lemma checked_confirmed:
  assumes "checked_page C net p = Inr q" "p \<in> set (pages s)" "pg_hostname p \<noteq> None" "pg_host_status q = HostActive"
  shows "confirmed C net s q"
proof (cases "cf_stub_active (sp_cf C)")
  case False
  with assms(1,4) obtain found where f: "fetch_hostname (sp_cf C) net (str_or_empty (pg_cf_id p)) (str_or_empty (pg_hostname p)) = Inr found"
    and q: "q = (case found of None \<Rightarrow> p\<lparr>pg_host_status := HostPendingTxt\<rparr> | Some h \<Rightarrow> apply_cf h p)"
    by (auto simp: checked_page_def ebind_eq_Inr split: if_splits)
  from q assms(4) obtain x where x: "found = Some x" "q = apply_cf x p" by (auto split: option.splits)
  then have act: "ssl_active x" using assms(4) by (auto simp: apply_cf_def ssl_active_def dest: map_active)
  obtain h where h: "pg_hostname p = Some h" using assms(3) by blast
  then have q': "pg_hostname q = Some h" "pg_id q = pg_id p" using x(2) by (simp_all add: apply_cf_def)
  have "cf_find (sp_cf C) net h = Inr (Some x) \<or> (\<exists>k. pg_cf_id p = Some k \<and> cf_get (sp_cf C) net k = Inr x)"
    using f x(1) h by (cases "pg_cf_id p") (auto simp: fetch_hostname_def str_or_empty_def ebind_eq_Inr split: if_splits)
  then show ?thesis using q' act h assms(2) unfolding confirmed_def by metis
qed (simp add: confirmed_def)

text \<open>C36: A page becomes active under its hostname only when Cloudflare, asked for that hostname or for the record stored with
  the page, reported its certificate active (or the stub of the test setup is on); otherwise it was active under that
  hostname before.\<close>

theorem active_is_confirmed:
  assumes "status_step C net s s'" "p' \<in> set (pages s')" "pg_host_status p' = HostActive"
  shows "confirmed C net s p'"
proof -
  have kept: "confirmed C net s q" if "p \<in> set (pages s)" "host_kept p q" for p q using that by (auto simp: confirmed_def)
  have same: "confirmed C net s p'" if "pages s' = pages s" using that assms(2) kept [of p' p'] by (simp add: host_kept_def)
  have ensured: "confirmed C net s q" if "pg_hostname q = Some h" "\<exists>x. cf_ensure (sp_cf C) net h = Inr x \<and> ssl_active x" for q h
    using that unfolding confirmed_def by blast
  note saved = save_confirmed [OF _ _ assms(2,3)]
  from assms(1) show ?thesis
  proof cases
    case (upsert b0 b k u oid now v)
    from upsert(2,1) show ?thesis
    proof (cases rule: page_upsert_cases)
      case (1 p)
      then have "p' \<in> set (pages s)" using assms(2,3) by (auto simp: insert_page_def split: if_splits)
      then show ?thesis using kept [of p' p'] by (simp add: host_kept_def)
    qed (use saved kept in blast)
  next
    case (update b0 b u oid now v)
    from update(2,1) show ?thesis by (rule page_update_cases) (use saved kept in blast)
  next
    case (attach raw h u oid now v)
    from attach(2) normalize_hostname_Inr [OF attach(1)] show ?thesis by (rule attach_cases) (use saved ensured in blast)
  next
    case (replace raw h u oid now v)
    from replace(2) normalize_hostname_Inr [OF replace(1)] show ?thesis by (rule replace_cases) (use saved ensured in blast)
  next
    case (detach u oid now v)
    from detach show ?thesis
    proof (rule detach_cases)
      fix p q :: status_page assume q: "save_page now p q s = Inr s'" "pg_host_status q = HostNone"
      show ?thesis by (rule saved [OF q(1)]) (use q(2) in simp)
    qed
  next
    case (check u oid now r)
    then show ?thesis
    proof (cases rule: check_hostname_cases)
      case (2 o' p e)
      show ?thesis by (rule saved [OF 2(4)]) simp
    next
      case (3 o' p q)
      show ?thesis by (rule saved [OF 3(4)]) (use checked_confirmed [OF 3(3) _ 3(2)] page_for_org_Some [OF 3(1)] in blast)
    qed (rule same, simp)
  next
    case (component k u oid mid name order v)
    from component show ?thesis unfolding add_component_def by (elim guardE) (drule reloaded_Inr, rule same, simp)
  next
    case (uncomponent u oid k)
    from uncomponent show ?thesis unfolding delete_component_def by (elim guardE Inr_E) (rule same, simp)
  next
    case (incident k uk u oid ib now v)
    from incident show ?thesis unfolding create_incident_def
      by (elim guardE) (drule reloaded_Inr, drule insert_incident_Inr, drule insert_update_Inr, rule same, simp)
  next
    case (progress uk u oid k body st now v)
    from progress show ?thesis unfolding add_incident_update_def
      by (elim guardE) (drule reloaded_Inr, drule insert_update_Inr, rule same, simp add: save_incident_def)
  next
    case (patch u oid k title imp v)
    from patch show ?thesis unfolding patch_incident_def by (elim guardE) (drule reloaded_Inr, rule same, simp add: save_incident_def)
  next
    case (unincident u oid k)
    from unincident show ?thesis unfolding delete_incident_def by (elim guardE Inr_E) (rule same, simp)
  next
    case (env ms d)
    then show ?thesis by (intro same) simp
  qed
qed

subsection \<open>What the public sees of a monitor\<close>

lemma state_of_pairs: "map_option mon_state (row_get mon_id k ms) = map_of (map (\<lambda>m. (mon_id m, mon_state m)) ms) k"
  by (induction ms) (auto simp: row_get_def)

text \<open>Targets, headers, tokens and errors of the monitors are never shown: the public answer, by slug or by host, is the
  same for any two databases whose monitors have the same ids and states.\<close>

theorem public_page_hides_monitors:
  assumes "pages s' = pages s" "components s' = components s" "incidents s' = incidents s" "inc_updates s' = inc_updates s"
    "map (\<lambda>m. (mon_id m, mon_state m)) (sp_monitors s') = map (\<lambda>m. (mon_id m, mon_state m)) (sp_monitors s)"
  shows "public_by_slug C slug s' = public_by_slug C slug s \<and> html_for_custom_host C A limited host forwarded s' = html_for_custom_host C A limited host forwarded s"
proof -
  have "component_view_of s' = component_view_of s" "incident_view_of s' = incident_view_of s"
    "components_of s' = components_of s" "incidents_of s' = incidents_of s"
    using assms(2-5) by (auto simp: fun_eq_iff component_view_of_def incident_view_of_def updates_of_def components_of_def
        incidents_of_def state_of_pairs)
  then have "to_response C s' = to_response C s" by (intro ext) (simp add: to_response_def)
  with assms(1) have p: "public_by_slug C slug s' = public_by_slug C slug s" "public_by_host C h s' = public_by_host C h s" for h
    by (simp_all add: public_by_slug_def public_by_host_def)
  from p show ?thesis by (simp only: html_for_custom_host_def Let_def simp_thms)
qed

subsection \<open>A page\<close>

definition sp_tier :: sku_tier where
  "sp_tier = seed_tier\<lparr>tier_allow_status_page := True, tier_allow_custom_host := True\<rparr>"

definition page_owner :: user where
  "page_owner = \<lparr>user_id = 1, user_email = ''a@x'', user_is_verified = True, user_is_admin = False, user_credits = 0,
     user_locale = ''en'', user_last_active = None\<rparr>"

definition sp_db0 :: sp_db where
  "sp_db0 = \<lparr>sp_core = empty_db\<lparr>users := [page_owner],
       orgs := [\<lparr>org_id = 9, org_name = ''Acme'', org_slug = ''acme'', org_kind = ''team'', org_sku = ''FREE'',
         org_tag_colors = [], org_created_by = Some 1, org_created_at = 0, org_updated_at = 0\<rparr>],
       tiers := [sp_tier],
       memberships := [\<lparr>mem_id = 70, mem_org = 9, mem_user = 1, mem_role = Owner, mem_created_at = 0, mem_updated_at = 0\<rparr>]\<rparr>,
     sp_monitors = [], pages = [], components = [], incidents = [], inc_updates = []\<rparr>"

text \<open>Cloudflare knows one record, whose certificate is active.\<close>

definition cf_one :: cf_transport where
  "cf_one q = (if cfq_method q = ''POST'' \<or> cfq_path q = ''/zones/z/custom_hostnames/cf1''
     then CfReply 200 (Some (JsonObject [(''result'', JsonObject [(''id'', JsonStr ''cf1''), (''hostname'', JsonStr ''status.acme.com''),
       (''status'', JsonStr ''active''), (''ssl'', JsonObject [(''status'', JsonStr ''active'')])])]))
     else CfReply 200 (Some (JsonObject [(''result'', JsonArray [])])))"

definition sp_cfg0 :: sp_cfg where
  "sp_cfg0 = \<lparr>sp_enabled = True, sp_cname = ''status-edge.sinexis.app'',
     sp_cf = \<lparr>cf_api_token = ''t'', cf_zone_id = ''z'', cf_stub_active = False, cf_py_str = (\<lambda>_. [])\<rparr>\<rparr>"

definition sp_db_of :: "('a \<times> sp_db) result \<Rightarrow> sp_db" where
  "sp_db_of m = (case m of Inl _ \<Rightarrow> sp_db0 | Inr (_, s) \<Rightarrow> s)"

lemma sp_db_of_Inr: "\<not> isl m \<Longrightarrow> \<exists>x. m = Inr (x, sp_db_of m)"
  by (cases m) (auto simp: sp_db_of_def)

definition sp_db1 :: sp_db where   \<comment> \<open>a page, not yet published\<close>
  "sp_db1 = sp_db_of (page_upsert sp_cfg0 30 page_owner (Some 9) \<lparr>pcb_slug = ''acme'', pcb_title = ''<Acme>''\<rparr> 5 sp_db0)"

definition sp_db2 :: sp_db where   \<comment> \<open>with a hostname of its owner\<close>
  "sp_db2 = sp_db_of (attach_hostname sp_cfg0 cf_one page_owner (Some 9) ''status.acme.com'' 6 sp_db1)"

lemma upsert_runs: "\<not> isl (page_upsert sp_cfg0 30 page_owner (Some 9) \<lparr>pcb_slug = ''acme'', pcb_title = ''<Acme>''\<rparr> 5 sp_db0)"
  by code_simp

lemma attach_runs: "\<not> isl (attach_hostname sp_cfg0 cf_one page_owner (Some 9) ''status.acme.com'' 6 sp_db1)"
  by code_simp

lemma sp_steps: "status_step sp_cfg0 cf_one sp_db0 sp_db1" "status_step sp_cfg0 cf_one sp_db1 sp_db2"
proof -
  have v: "validate_page_create \<lparr>pcb_slug = '' Acme'', pcb_title = ''<Acme>''\<rparr> = Inr \<lparr>pcb_slug = ''acme'', pcb_title = ''<Acme>''\<rparr>"
    by code_simp
  have h: "normalize_hostname ''Status.acme.com.'' = Inr ''status.acme.com''" by code_simp
  from upsert_runs obtain x where "page_upsert sp_cfg0 30 page_owner (Some 9) \<lparr>pcb_slug = ''acme'', pcb_title = ''<Acme>''\<rparr> 5 sp_db0 = Inr (x, sp_db1)"
    unfolding sp_db1_def by (blast dest: sp_db_of_Inr)
  with v show "status_step sp_cfg0 cf_one sp_db0 sp_db1" by (rule status_step.upsert)
  from attach_runs obtain x where "attach_hostname sp_cfg0 cf_one page_owner (Some 9) ''status.acme.com'' 6 sp_db1 = Inr (x, sp_db2)"
    unfolding sp_db2_def by (blast dest: sp_db_of_Inr)
  with h show "status_step sp_cfg0 cf_one sp_db1 sp_db2" by (rule status_step.attach)
qed

lemma sp_shape: "map (\<lambda>p. (pg_id p, pg_hostname p, pg_host_status p)) (pages sp_db2) = [(30, Some ''status.acme.com'', HostActive)]"
  by code_simp


theorem active_is_confirmed_witness:
  "\<exists>p\<in>set (pages sp_db2). pg_host_status p = HostActive \<and> confirmed sp_cfg0 cf_one sp_db1 p"
proof -
  obtain p where p: "p \<in> set (pages sp_db2)" "pg_host_status p = HostActive" using sp_shape by (auto simp: map_eq_Cons_conv)
  from active_is_confirmed [OF sp_steps(2) p] p show ?thesis by blast
qed

definition live :: page_update_body where
  "live = \<lparr>pub_title = None, pub_slug = None, pub_published = Some True, pub_hostname = None\<rparr>"

definition sp_live :: sp_db where "sp_live = sp_db_of (page_update sp_cfg0 page_owner (Some 9) live 7 sp_db2)"

lemma live_page: "map_sum id pv_title (public_by_slug sp_cfg0 ''acme'' sp_live) = Inr ''<Acme>''"
  by code_simp

subsection \<open>Where the service does not do what it is meant to\<close>

text \<open>\<open>update\<close> changes the hostname and keeps the record of the old one; the check then asks Cloudflare for that record,
  and the new hostname, which nobody has proved to own, becomes active.\<close>

definition hijack :: page_update_body where
  "hijack = \<lparr>pub_title = None, pub_slug = None, pub_published = Some True, pub_hostname = Some (Some ''www.victim.com'')\<rparr>"

definition sp_db3 :: sp_db where "sp_db3 = sp_db_of (page_update sp_cfg0 page_owner (Some 9) hijack 7 sp_db2)"
definition sp_db4 :: sp_db where "sp_db4 = snd (check_hostname sp_cfg0 cf_one page_owner (Some 9) 8 sp_db3)"

lemma old_record_activates_new_hostname:
  "map (\<lambda>p. (pg_hostname p, pg_host_status p)) (pages sp_db4) = [(Some ''www.victim.com'', HostActive)]"
  "map_sum id pv_title (public_by_host sp_cfg0 ''www.victim.com'' sp_db4) = Inr ''<Acme>''"
  by code_simp+

text \<open>A check while Cloudflare is unreachable takes a page that was active off its hostname.\<close>

lemma unreachable_cloudflare_takes_page_down:
  "map pg_host_status (pages (snd (check_hostname sp_cfg0 (\<lambda>_. CfNoReply) page_owner (Some 9) 8 sp_db2))) = [HostFailed]"
  by code_simp

text \<open>The dot is stripped after the white space, so a line feed before it survives and the pattern's dollar lets it pass.\<close>

lemma line_feed_in_hostname: "normalize_hostname (''acme.com'' @ [CHR 0x0A, CHR ''.'']) = Inr (''acme.com'' @ [CHR 0x0A])"
  by code_simp

end
