(* ===== verification/HostPath.thy ===== *)
theory HostPath
  imports Prelude
begin

text \<open>
  Paths of a protected site and the signature scan of its files (\<open>services/host_path.py\<close>, \<open>services/host_engine.py\<close>).
  \<open>posixpath\<close> and the regular expressions are written out. The file system is a map from paths to nodes; whether the
  operating system refuses an operation is an argument. The parsed rule files and the output of the clam scanner are arguments.
\<close>

subsection \<open>Characters and paths\<close>

definition word_char :: "char \<Rightarrow> bool" where   \<comment> \<open>\<open>\w\<close>\<close>
  "word_char c = (let n = of_char c :: nat in
     (48 \<le> n \<and> n \<le> 57) \<or> (65 \<le> n \<and> n \<le> 90) \<or> n = 95 \<or> (97 \<le> n \<and> n \<le> 122))"

text \<open>\<open>^[...]+$\<close>: the dollar also matches before a final line feed.\<close>

definition all_of_re :: "(char \<Rightarrow> bool) \<Rightarrow> string \<Rightarrow> bool" where
  "all_of_re P s = (let t = (if s \<noteq> [] \<and> last s = CHR 0x0A then butlast s else s) in t \<noteq> [] \<and> list_all P t)"

definition path_chars :: "string \<Rightarrow> bool" where
  "path_chars = all_of_re (\<lambda>c. word_char c \<or> c = CHR ''.'' \<or> c = CHR ''/'' \<or> c = CHR ''-'')"

definition site_id_chars :: "string \<Rightarrow> bool" where
  "site_id_chars = all_of_re (\<lambda>c. word_char c \<or> c = CHR ''-'')"

definition basename_char :: "char \<Rightarrow> bool" where
  "basename_char c \<longleftrightarrow> word_char c \<or> c = CHR ''.'' \<or> c = CHR ''-''"

definition ALLOWED_PREFIXES :: "string list" where
  "ALLOWED_PREFIXES = [''/var/www'', ''/srv/www'', ''/home'']"

definition DEFAULT_QUARANTINE_ROOT :: string where "DEFAULT_QUARANTINE_ROOT = ''/var/lib/sinexis/quarantine''"

text \<open>\<open>posixpath.normpath\<close>: the components, those kept so far in reverse.\<close>

fun norm_comps :: "bool \<Rightarrow> string list \<Rightarrow> string list \<Rightarrow> string list" where
  "norm_comps absolute [] kept = rev kept"
| "norm_comps absolute (c # cs) kept =
     (if c = [] \<or> c = ''.'' then norm_comps absolute cs kept
      else if c \<noteq> ''..'' \<or> (\<not> absolute \<and> kept = []) \<or> (kept \<noteq> [] \<and> hd kept = ''..'')
        then norm_comps absolute cs (c # kept)
      else norm_comps absolute cs (tl kept))"

definition leading_slashes :: "string \<Rightarrow> nat" where
  "leading_slashes s = (if \<not> starts_with ''/'' s then 0
     else if starts_with ''//'' s \<and> \<not> starts_with ''///'' s then 2 else 1)"

definition normpath :: "string \<Rightarrow> string" where
  "normpath s = (if s = [] then ''.''
     else let r = replicate (leading_slashes s) (CHR ''/'')
            @ join_on (CHR ''/'') (norm_comps (0 < leading_slashes s) (split_on (CHR ''/'') s) [])
       in if r = [] then ''.'' else r)"

definition path_join :: "string \<Rightarrow> string \<Rightarrow> string" where   \<comment> \<open>\<open>posixpath.join(a, b)\<close>\<close>
  "path_join a b = (if starts_with ''/'' b then b
     else if a = [] \<or> last a = CHR ''/'' then a @ b else a @ ''/'' @ b)"

definition at_or_below :: "string \<Rightarrow> string \<Rightarrow> bool" where   \<comment> \<open>\<open>path == p or path.startswith(p + "/")\<close>\<close>
  "at_or_below p path \<longleftrightarrow> path = p \<or> starts_with (p @ ''/'') path"

definition validate_root_path :: "string \<Rightarrow> string result" where
  "validate_root_path raw =
     (let path = strip raw in
      ebind (raise_if (path = [] \<or> CHR 0x00 \<in> set path) (ValueError ''Invalid root path'')) (\<lambda>_.
      ebind (raise_if (\<not> starts_with ''/'' path) (ValueError ''root_path must be absolute'')) (\<lambda>_.
      ebind (raise_if (infix_of ''..'' path) (ValueError ''path traversal is not allowed'')) (\<lambda>_.
      ebind (raise_if (\<not> path_chars path) (ValueError ''root_path contains invalid characters'')) (\<lambda>_.
      let normalized = normpath path in
      ebind (raise_if (''..'' \<in> set (split_on (CHR ''/'') normalized)) (ValueError ''path traversal is not allowed'')) (\<lambda>_.
      ebind (raise_if (\<not> list_ex (\<lambda>p. at_or_below p normalized) ALLOWED_PREFIXES)
        (ValueError ''root_path is outside the allowlist'')) (\<lambda>_.
      Inr normalized)))))))"

definition lstrip_slashes :: "string \<Rightarrow> string" where "lstrip_slashes = dropWhile (\<lambda>c. c = CHR ''/'')"

definition jail_rel_path :: "string \<Rightarrow> string \<Rightarrow> string result" where
  "jail_rel_path root_path rel_path =
     ebind (validate_root_path root_path) (\<lambda>root.
     let rel = lstrip_slashes (strip rel_path) in
     ebind (raise_if (rel = [] \<or> CHR 0x00 \<in> set rel) (ValueError ''Invalid relative path'')) (\<lambda>_.
     ebind (raise_if (''..'' \<in> set (split_on (CHR ''/'') rel) \<or> infix_of ''..'' rel)
       (ValueError ''path traversal is not allowed'')) (\<lambda>_.
     ebind (raise_if (\<not> path_chars rel) (ValueError ''relative path contains invalid characters'')) (\<lambda>_.
     let joined = normpath (path_join root rel) in
     ebind (raise_if (joined \<noteq> root \<and> \<not> starts_with (root @ ''/'') joined) (ValueError ''path escapes site root'')) (\<lambda>_.
     ebind (raise_if (''..'' \<in> set (split_on (CHR ''/'') joined)) (ValueError ''path traversal is not allowed'')) (\<lambda>_.
     Inr joined))))))"

subsection \<open>Quarantine\<close>

text \<open>\<open>re.sub(r"[^...]+", "_", s)\<close>: each run of other characters becomes one underscore.\<close>

fun sub_runs :: "(char \<Rightarrow> bool) \<Rightarrow> bool \<Rightarrow> string \<Rightarrow> string" where
  "sub_runs P within [] = []"
| "sub_runs P within (c # s) =
     (if P c then c # sub_runs P False s else if within then sub_runs P True s else CHR ''_'' # sub_runs P True s)"

definition path_leaf :: "string \<Rightarrow> string" where   \<comment> \<open>\<open>posixpath.basename\<close>\<close>
  "path_leaf p = last (split_on (CHR ''/'') p)"

definition quarantine_basename :: "string \<Rightarrow> string \<Rightarrow> string" where
  "quarantine_basename hit_id rel_path =
     (let leaf = path_leaf (strip rel_path);
          safe = take 80 (sub_runs basename_char False (if leaf = [] then ''file'' else leaf))
      in take 8 hit_id @ ''_'' @ safe)"

definition quarantine_dir :: "string \<Rightarrow> string option \<Rightarrow> string result" where
  "quarantine_dir site_id base =
     (let given = strip (if str_or_empty base = [] then DEFAULT_QUARANTINE_ROOT else str_or_empty base);
          root = normpath (if given = [] then DEFAULT_QUARANTINE_ROOT else given);
          sid = strip site_id in
      ebind (raise_if (\<not> starts_with ''/'' root \<or> ''..'' \<in> set (split_on (CHR ''/'') root))
        (ValueError ''invalid quarantine root'')) (\<lambda>_.
      ebind (raise_if (\<not> site_id_chars sid) (ValueError ''invalid site id'')) (\<lambda>_.
      let dest = normpath (path_join root sid) in
      ebind (raise_if (dest \<noteq> root \<and> \<not> starts_with (root @ ''/'') dest) (ValueError ''quarantine path escapes'')) (\<lambda>_.
      ebind (raise_if (list_ex (\<lambda>p. at_or_below p dest) ALLOWED_PREFIXES)
        (ValueError ''quarantine must not sit under a web root'')) (\<lambda>_.
      Inr dest)))))"

subsection \<open>Files\<close>

datatype node = RegularFile string | OtherNode   \<comment> \<open>a file with its content; a directory or a special file\<close>

type_synonym files = "string \<rightharpoonup> node"
type_synonym os_refuses = "string \<Rightarrow> bool"   \<comment> \<open>an operation on this path raises \<open>OSError\<close>\<close>

abbreviation OSError :: "string \<Rightarrow> error" where "OSError msg \<equiv> PyError (''OSError: '' @ msg)"

definition isfile :: "files \<Rightarrow> string \<Rightarrow> bool" where
  "isfile fs p = (case fs p of Some (RegularFile _) \<Rightarrow> True | _ \<Rightarrow> False)"

lemma isfile_Some: "isfile fs p \<Longrightarrow> fs p \<noteq> None"
  by (cases "fs p") (auto simp: isfile_def)

text \<open>\<open>os.makedirs(d, exist_ok=True)\<close>: a file on the way, or one the system refuses, is an error.\<close>

definition dirs_to :: "string \<Rightarrow> string list" where
  "dirs_to d = map (\<lambda>k. take k d) (filter (\<lambda>k. 0 < k \<and> (k = length d \<or> d ! k = CHR ''/'')) [0 ..< Suc (length d)])"

definition makedirs :: "os_refuses \<Rightarrow> string \<Rightarrow> files \<Rightarrow> files result" where
  "makedirs refuses d fs = (if list_ex (\<lambda>p. isfile fs p \<or> refuses p) (dirs_to d) then Inl (OSError ''makedirs'')
     else Inr (\<lambda>p. if p \<in> set (dirs_to d) \<and> fs p = None then Some OtherNode else fs p))"

definition move_file :: "os_refuses \<Rightarrow> string \<Rightarrow> string \<Rightarrow> files \<Rightarrow> files result" where   \<comment> \<open>\<open>shutil.move\<close>\<close>
  "move_file refuses src dest fs = (if refuses src \<or> refuses dest then Inl (OSError ''move'')
     else Inr ((fs(dest := fs src))(src := None)))"

definition valid_basename :: "string \<Rightarrow> bool" where
  "valid_basename name \<longleftrightarrow> all_of_re basename_char name \<and> CHR ''/'' \<notin> set name"

definition move_to_quarantine :: "os_refuses \<Rightarrow> string \<Rightarrow> string \<Rightarrow> string \<Rightarrow> files \<Rightarrow> files result" where
  "move_to_quarantine refuses src dest_dir dest_basename fs =
     ebind (raise_if (\<not> valid_basename dest_basename) (ValueError ''invalid dest_basename'')) (\<lambda>_.
     ebind (raise_if (\<not> isfile fs src) (OSError ''source file missing'')) (\<lambda>_.
     ebind (makedirs refuses dest_dir fs) (\<lambda>fs1.
     let dest = path_join dest_dir dest_basename in
     ebind (raise_if (fs1 dest \<noteq> None) (OSError ''quarantine dest exists'')) (\<lambda>_.
     move_file refuses src dest fs1))))"

definition path_parent :: "string \<Rightarrow> string" where   \<comment> \<open>\<open>os.path.dirname\<close> of a path with one slash between components\<close>
  "path_parent p = join_on (CHR ''/'') (butlast (split_on (CHR ''/'') p))"

definition restore_from_quarantine :: "os_refuses \<Rightarrow> string \<Rightarrow> string \<Rightarrow> string \<Rightarrow> files \<Rightarrow> files result" where
  "restore_from_quarantine refuses dest_dir dest_basename original fs =
     ebind (raise_if (\<not> valid_basename dest_basename) (ValueError ''invalid dest_basename'')) (\<lambda>_.
     let src = path_join dest_dir dest_basename in
     ebind (raise_if (\<not> isfile fs src) (OSError ''quarantine file missing'')) (\<lambda>_.
     ebind (makedirs refuses (path_parent original) fs) (\<lambda>fs1.
     ebind (raise_if (fs1 original \<noteq> None) (OSError ''restore target exists'')) (\<lambda>_.
     move_file refuses src original fs1))))"


subsection \<open>A jailed path names a file below the site's root\<close>

text \<open>What the file system makes of an absolute path, component by component.\<close>

fun walk :: "string list \<Rightarrow> string list \<Rightarrow> string list" where
  "walk cwd [] = cwd"
| "walk cwd (c # cs) = walk (if c = [] \<or> c = ''.'' then cwd else if c = ''..'' then butlast cwd else cwd @ [c]) cs"

definition resolve :: "string \<Rightarrow> string list" where "resolve p = walk [] (split_on (CHR ''/'') p)"

definition real_comp :: "string \<Rightarrow> bool" where "real_comp c \<longleftrightarrow> c \<noteq> [] \<and> c \<noteq> ''.''"

lemma real_comp_empty [simp]: "\<not> real_comp []" "filter real_comp (replicate n []) = []"
  by (simp_all add: real_comp_def)

lemma walk_plain: "''..'' \<notin> set cs \<Longrightarrow> walk cwd cs = cwd @ filter real_comp cs"
  by (induction cs arbitrary: cwd) (auto simp: real_comp_def)

lemma norm_comps_plain: "''..'' \<notin> set cs \<Longrightarrow> norm_comps a cs kept = rev kept @ filter real_comp cs"
  by (induction cs arbitrary: kept) (auto simp: real_comp_def)

lemma infix_of_iff: "infix_of p s \<longleftrightarrow> (\<exists>a b. s = a @ p @ b)"
proof
  assume "infix_of p s"
  then obtain k where "take (length p) (drop k s) = p" by (auto simp: infix_of_def list_ex_iff simp del: upt_Suc)
  then have "s = take k s @ p @ drop (length p) (drop k s)" by (metis append_take_drop_id)
  then show "\<exists>a b. s = a @ p @ b" by blast
next
  assume "\<exists>a b. s = a @ p @ b"
  then obtain a b where "s = a @ p @ b" by blast
  then have "length a < Suc (length s)" "take (length p) (drop (length a) s) = p" by auto
  then show "infix_of p s" unfolding infix_of_def list_ex_iff by fastforce
qed

lemma split_on_infix: "p \<in> set (split_on c s) \<Longrightarrow> \<exists>a b. s = a @ p @ b"
proof (induction s arbitrary: p)
  case (Cons x s)
  show ?case
  proof (cases "x = c")
    case True
    with Cons.prems have "p = [] \<or> p \<in> set (split_on c s)" by simp
    with Cons.IH show ?thesis by (metis append_Cons append_Nil)
  next
    case False
    obtain q qs where q: "split_on c s = q # qs" by (metis list.exhaust split_on_nonempty)
    with False Cons.prems have "p = x # q \<or> p \<in> set qs" by simp
    moreover have "\<exists>b. s = q @ b" using q
    proof (induction s arbitrary: q qs)
      case (Cons y s)
      then show ?case by (cases "y = c") (auto split: list.splits)
    qed simp
    ultimately show ?thesis using Cons.IH q by (metis append_Cons append_Nil list.set_intros(2))
  qed
qed simp

lemma no_dots: "\<not> infix_of ''..'' s \<Longrightarrow> ''..'' \<notin> set (split_on c s)"
  unfolding infix_of_iff by (blast dest: split_on_infix)

lemma split_on_sep: "split_on c (p @ c # r) = split_on c p @ split_on c r"
  by (induction p) (auto split: list.splits)

lemma resolve_sep: "''..'' \<notin> set (split_on (CHR ''/'') (p @ ''/'' @ r)) \<Longrightarrow> resolve (p @ ''/'' @ r) = resolve p @ resolve r"
  by (simp add: resolve_def split_on_sep walk_plain)

lemma split_slashes: "split_on c (replicate k c @ s) = replicate k [] @ split_on c s"
  by (induction k) auto

lemma split_norm: "split_on (CHR ''/'') (replicate n (CHR ''/'') @ join_on (CHR ''/'') cs) =
    replicate n [] @ (if cs = [] then [[]] else cs)"
  if "\<And>c. c \<in> set cs \<Longrightarrow> CHR ''/'' \<notin> set c"
  using that split_join [of cs "CHR ''/''"] split_slashes [of "CHR ''/''" n "[]"] by (cases "cs = []") (simp_all add: split_slashes join_on_def [of _ "[]"])

lemma norm_plain:
  assumes "starts_with ''/'' s" "''..'' \<notin> set (split_on (CHR ''/'') s)"
  shows "normpath s = replicate (leading_slashes s) (CHR ''/'') @ join_on (CHR ''/'') (filter real_comp (split_on (CHR ''/'') s))"
  using assms by (auto simp: normpath_def norm_comps_plain Let_def leading_slashes_def starts_with_def)

lemma resolve_norm:
  assumes "starts_with ''/'' s" "''..'' \<notin> set (split_on (CHR ''/'') s)"
  shows "resolve (normpath s) = resolve s"
proof -
  let ?cs = "filter real_comp (split_on (CHR ''/'') s)"
  note n = norm_plain [OF assms]
  have "split_on (CHR ''/'') (normpath s) = replicate (leading_slashes s) [] @ (if ?cs = [] then [[]] else ?cs)"
    unfolding n using split_norm [of ?cs "leading_slashes s"] split_on_pieces by fastforce
  then have "resolve (normpath s) = filter real_comp (replicate (leading_slashes s) [] @ (if ?cs = [] then [[]] else ?cs))"
    using assms(2) by (simp add: resolve_def walk_plain)
  also have "\<dots> = ?cs" by simp
  finally show ?thesis using assms(2) by (simp add: resolve_def [of s] walk_plain)
qed

lemma at_or_below_resolve:
  assumes "at_or_below p n" "''..'' \<notin> set (split_on (CHR ''/'') n)"
  shows "\<exists>xs. resolve n = resolve p @ xs"
  using assms resolve_sep [of p] by (fastforce simp: at_or_below_def starts_with_append)

lemma validate_root_Inr:
  assumes "validate_root_path raw = Inr root"
  shows "starts_with ''/'' (strip raw)" "\<not> infix_of ''..'' (strip raw)" "root = normpath (strip raw)"
    "''..'' \<notin> set (split_on (CHR ''/'') root)" "\<exists>p\<in>set ALLOWED_PREFIXES. at_or_below p root"
  using assms by (auto simp: validate_root_path_def Let_def errs list_ex_iff)

lemma jail_Inr:
  assumes "jail_rel_path root_path rel_path = Inr p"
  obtains root rel where "validate_root_path root_path = Inr root" "rel = lstrip_slashes (strip rel_path)"
    "''..'' \<notin> set (split_on (CHR ''/'') rel)" "rel \<noteq> []" "p = normpath (path_join root rel)"
    "''..'' \<notin> set (split_on (CHR ''/'') p)"
  using assms that by (auto simp: jail_rel_path_def Let_def errs)

lemma resolve_lstrip: "resolve (lstrip_slashes s) = resolve s"
  by (induction s) (auto simp: lstrip_slashes_def resolve_def)

lemma lstrip_relative: "\<not> starts_with ''/'' (lstrip_slashes s)"
  by (induction s) (auto simp: lstrip_slashes_def starts_with_def)

lemma root_absolute:
  assumes "validate_root_path raw = Inr root" shows "starts_with ''/'' root"
  using validate_root_Inr [OF assms] by (auto simp: at_or_below_def ALLOWED_PREFIXES_def starts_with_append)

lemma allowed_root_plain: "validate_root_path raw = Inr root \<Longrightarrow> root \<noteq> [] \<and> ''..'' \<notin> set (split_on (CHR ''/'') root)"
  using root_absolute validate_root_Inr(4) by (fastforce simp: starts_with_def)

text \<open>A validated root validates to itself, so it does not matter how often the code validates.\<close>

lemma strip_last: "strip s \<noteq> [] \<Longrightarrow> \<not> is_space (last (strip s))"
proof -
  define d where "d = dropWhile is_space (rev (dropWhile is_space s))"
  assume "strip s \<noteq> []"
  then have "d \<noteq> []" "strip s = rev d" by (simp_all add: strip_def d_def)
  then show ?thesis using hd_dropWhile [of is_space "rev (dropWhile is_space s)"] by (simp add: last_rev d_def)
qed

lemma path_chars_nonspace: "path_chars (strip r) \<Longrightarrow> c \<in> set (strip r) \<Longrightarrow> \<not> is_space c"
proof -
  assume a: "path_chars (strip r)" "c \<in> set (strip r)"
  have "strip r \<noteq> []" using a(2) by auto
  then have "last (strip r) \<noteq> CHR 0x0A" using strip_last [of r] by (auto simp: is_space_def)
  with a have "word_char c \<or> c = CHR ''.'' \<or> c = CHR ''/'' \<or> c = CHR ''-''"
    by (auto simp: path_chars_def all_of_re_def Let_def list_all_iff)
  then show ?thesis by (auto simp: word_char_def is_space_def Let_def)
qed

lemma set_join_on: "set (join_on c ps) \<subseteq> \<Union> (set ` set ps) \<union> {c}"
  by (cases ps) (auto simp: join_on_def)

lemma set_norm:
  assumes "starts_with ''/'' s" "''..'' \<notin> set (split_on (CHR ''/'') s)" shows "set (normpath s) \<subseteq> set s"
proof -
  have "set p \<subseteq> set s" if "p \<in> set (split_on (CHR ''/'') s)" for p using split_on_infix [OF that] by auto
  moreover have "CHR ''/'' \<in> set s" using assms(1) by (auto simp: starts_with_append)
  ultimately show ?thesis unfolding norm_plain [OF assms] using set_join_on [of "CHR ''/''" "filter real_comp (split_on (CHR ''/'') s)"]
    by auto
qed

lemma allowed_one_slash:
  assumes "at_or_below p n" "p \<in> set ALLOWED_PREFIXES" shows "leading_slashes n = 1 \<and> \<not> starts_with ''//'' n"
proof -
  obtain r where "n = p @ r" using assms(1) by (auto simp: at_or_below_def starts_with_append)
  with assms(2) show ?thesis by (auto simp: ALLOWED_PREFIXES_def starts_with_def leading_slashes_def)
qed

lemma validate_twice:
  assumes "validate_root_path raw = Inr root" "validate_root_path root = Inr root'"
  shows "root' = root"
proof -
  let ?s = "strip raw" and ?cs = "filter real_comp (split_on (CHR ''/'') (strip raw))"
  note v = validate_root_Inr [OF assms(1)]
  have dots: "''..'' \<notin> set (split_on (CHR ''/'') ?s)" using no_dots [OF v(2)] .
  have "path_chars ?s" using assms(1) by (auto simp: validate_root_path_def Let_def errs)
  then have "\<forall>c\<in>set root. \<not> is_space c" using path_chars_nonspace set_norm [OF v(1) dots] v(3) by blast
  then have strip: "strip root = root" by (rule strip_nonspace)
  obtain pre where pre: "pre \<in> set ALLOWED_PREFIXES" "at_or_below pre root" using v(5) by blast
  note one = allowed_one_slash [OF pre(2,1)]
  have n: "root = replicate (leading_slashes ?s) (CHR ''/'') @ join_on (CHR ''/'') ?cs"
    using norm_plain [OF v(1) dots] v(3) by simp
  have "leading_slashes ?s = 1"
    using n one v(1) by (auto simp: leading_slashes_def starts_with_def numeral_2_eq_2 split: if_splits)
  with n have r: "root = CHR ''/'' # join_on (CHR ''/'') ?cs" by simp
  have "split_on (CHR ''/'') root = [] # (if ?cs = [] then [[]] else ?cs)"
    using split_norm [of ?cs 1] split_on_pieces unfolding r by fastforce
  then have "filter real_comp (split_on (CHR ''/'') root) = ?cs" by simp
  with norm_plain [of root] v(4) one r have "normpath root = root"
    by (simp add: starts_with_append)
  with validate_root_Inr(3) [OF assms(2)] strip show ?thesis by simp
qed

text \<open>C0: Wherever the agent or the backend is told to act on a file of a site, the path names a file under the root of the
  site, at the relative path given, and that root lies under one of the allowed web roots; no component of it steps up.\<close>

theorem jail_stays_below_root:
  assumes "jail_rel_path root_path rel_path = Inr p"
  shows "\<exists>root pre below. validate_root_path root_path = Inr root \<and> pre \<in> set ALLOWED_PREFIXES
     \<and> resolve root = resolve pre @ below \<and> resolve p = resolve root @ resolve (strip rel_path)
     \<and> ''..'' \<notin> set (resolve p)"
proof -
  obtain root rel where r: "validate_root_path root_path = Inr root" "rel = lstrip_slashes (strip rel_path)"
    "''..'' \<notin> set (split_on (CHR ''/'') rel)" "p = normpath (path_join root rel)" "''..'' \<notin> set (split_on (CHR ''/'') p)"
    using assms by (rule jail_Inr)
  note root = allowed_root_plain [OF r(1)] root_absolute [OF r(1)]
  have rel: "\<not> starts_with ''/'' rel" using lstrip_relative r(2) by simp
  have dots: "''..'' \<notin> set (split_on (CHR ''/'') (root @ ''/'' @ rel))" using root(1) r(3) by (simp add: split_on_sep)
  have joined: "resolve (path_join root rel) = resolve root @ resolve rel
      \<and> ''..'' \<notin> set (split_on (CHR ''/'') (path_join root rel))"
  proof (cases "last root = CHR ''/''")
    case False
    then have "path_join root rel = root @ ''/'' @ rel" using rel root(1) by (simp add: path_join_def)
    with dots resolve_sep [OF dots] show ?thesis by simp
  next
    case True
    then obtain q where q: "root = q @ ''/''" using root(1) by (metis append_butlast_last_id)
    then have pj: "path_join root rel = q @ ''/'' @ rel" using rel root(1) by (simp add: path_join_def)
    have d: "''..'' \<notin> set (split_on (CHR ''/'') q)" using root(1) unfolding q by (simp add: split_on_sep)
    then have "resolve root = resolve q" unfolding q by (simp add: resolve_def split_on_sep walk_plain real_comp_def)
    moreover have "''..'' \<notin> set (split_on (CHR ''/'') (q @ ''/'' @ rel))" using d r(3) by (simp add: split_on_sep)
    ultimately show ?thesis using pj resolve_sep by simp
  qed
  have "starts_with ''/'' (path_join root rel)" using root(2) rel by (auto simp: path_join_def starts_with_append)
  with joined have p: "resolve p = resolve root @ resolve (strip rel_path)"
    unfolding r(4) by (simp add: resolve_norm r(2) resolve_lstrip)
  have up: "''..'' \<notin> set (resolve p)" using r(5) by (simp add: resolve_def walk_plain)
  obtain pre where "pre \<in> set ALLOWED_PREFIXES" "at_or_below pre root" using validate_root_Inr(5) [OF r(1)] by blast
  with at_or_below_resolve root(1) r(1) p up show ?thesis by blast
qed

theorem jail_stays_below_root_witness:
  "resolve ''/home/acme/site/wp-content/a.php'' = resolve ''/home/acme/site'' @ [''wp-content'', ''a.php'']
   \<and> (\<exists>pre\<in>set ALLOWED_PREFIXES. \<exists>below. resolve ''/home/acme/site'' = resolve pre @ below)"
proof -
  have j: "jail_rel_path '' /home/acme//site/'' ''/wp-content/./a.php'' = Inr ''/home/acme/site/wp-content/a.php''"
    "validate_root_path '' /home/acme//site/'' = Inr ''/home/acme/site''" by code_simp+
  have "resolve (strip ''/wp-content/./a.php'') = [''wp-content'', ''a.php'']" by code_simp
  with jail_stays_below_root [OF j(1)] j(2) show ?thesis by auto
qed


subsection \<open>Quarantine and restore\<close>

lemma basename_char_plain: "basename_char c \<Longrightarrow> c \<noteq> CHR ''/'' \<and> c \<noteq> CHR 0x0A"
  by (auto simp: basename_char_def word_char_def)

lemma sub_runs_chars: "P (CHR ''_'') \<Longrightarrow> list_all P (sub_runs P within s)"
  by (induction P within s rule: sub_runs.induct) auto

text \<open>The name under which a hit is moved away is always one \<open>move_to_quarantine\<close> accepts.\<close>

lemma quarantine_basename_valid:
  assumes "list_all basename_char (take 8 hit_id)"
  shows "valid_basename (quarantine_basename hit_id rel_path)"
proof -
  let ?n = "quarantine_basename hit_id rel_path"
  have "list_all basename_char ?n"
    using assms sub_runs_chars [of basename_char False]
    by (auto simp: quarantine_basename_def Let_def basename_char_def [of "CHR ''_''"] word_char_def list_all_iff dest: in_set_takeD)
  moreover have "?n \<noteq> []" by (simp add: quarantine_basename_def Let_def)
  ultimately show ?thesis
    by (auto simp: valid_basename_def all_of_re_def Let_def list_all_iff dest: basename_char_plain last_in_set)
qed

lemma makedirs_frame: "makedirs refuses d fs = Inr fs' \<Longrightarrow> p \<notin> set (dirs_to d) \<or> fs p \<noteq> None \<Longrightarrow> fs' p = fs p"
  by (auto simp: makedirs_def split: if_splits)

lemma makedirs_file: "makedirs refuses d fs = Inr fs' \<Longrightarrow> isfile fs' p = isfile fs p"
  by (auto simp: makedirs_def isfile_def split: if_splits option.splits)

lemma move_to_quarantine_Inr:
  assumes "move_to_quarantine refuses src d name fs = Inr fs'"
  obtains fs1 where "isfile fs src" "makedirs refuses d fs = Inr fs1" "fs1 (path_join d name) = None" "src \<noteq> path_join d name"
    "fs' = (fs1(path_join d name := fs src))(src := None)"
proof -
  obtain fs1 where f: "isfile fs src" "makedirs refuses d fs = Inr fs1" "fs1 (path_join d name) = None"
    "move_file refuses src (path_join d name) fs1 = Inr fs'"
    using assms by (auto simp: move_to_quarantine_def Let_def errs)
  have k: "fs1 src = fs src" using makedirs_frame [OF f(2)] f(1) by (auto simp: isfile_def split: option.splits)
  then have "src \<noteq> path_join d name" using f(1,3) by (auto simp: isfile_def)
  with that [OF f(1-3)] f(4) k show thesis by (simp add: move_file_def split: if_splits)
qed

lemma restore_from_quarantine_Inr:
  assumes "restore_from_quarantine refuses d name original fs = Inr fs'"
  obtains fs1 where "isfile fs (path_join d name)" "makedirs refuses (path_parent original) fs = Inr fs1" "fs1 original = None"
    "fs' = (fs1(original := fs (path_join d name)))(path_join d name := None)"
proof -
  obtain fs1 where f: "isfile fs (path_join d name)" "makedirs refuses (path_parent original) fs = Inr fs1" "fs1 original = None"
    "move_file refuses (path_join d name) original fs1 = Inr fs'"
    using assms by (auto simp: restore_from_quarantine_def Let_def errs)
  have "fs1 (path_join d name) = fs (path_join d name)"
    using makedirs_frame [OF f(2)] f(1) by (auto simp: isfile_def split: option.splits)
  with that [OF f(1-3)] f(4) show thesis by (simp add: move_file_def split: if_splits)
qed

text \<open>C0: A quarantined file that is restored is back with its content, its copy in the quarantine is gone, and no other file
  was changed; only directories may have been made.\<close>

theorem quarantine_restore_roundtrip:
  assumes "move_to_quarantine refuses src d name fs = Inr fs1" "restore_from_quarantine refuses d name src fs1 = Inr fs2"
  shows "fs2 src = fs src \<and> fs1 src = None \<and> fs2 (path_join d name) = None
     \<and> (\<forall>p. fs p \<noteq> None \<longrightarrow> fs2 p = fs p) \<and> (\<forall>p. isfile fs2 p = isfile fs p)"
proof -
  let ?q = "path_join d name"
  obtain a where a: "isfile fs src" "makedirs refuses d fs = Inr a" "a ?q = None" "src \<noteq> ?q" "fs1 = (a(?q := fs src))(src := None)"
    using assms(1) by (rule move_to_quarantine_Inr)
  obtain b where b: "isfile fs1 ?q" "makedirs refuses (path_parent src) fs1 = Inr b" "b src = None" "fs2 = (b(src := fs1 ?q))(?q := None)"
    using assms(2) by (rule restore_from_quarantine_Inr)
  have q: "fs ?q = None" using makedirs_frame [OF a(2), of ?q] a(3) by (cases "fs ?q") auto
  have s: "fs1 ?q = fs src" using a(4,5) by simp
  have kept: "fs2 p = fs p" if "fs p \<noteq> None" for p
  proof (cases "p = src")
    case True
    with a(4) b(4) s show ?thesis by simp
  next
    case False
    with that q have p: "p \<noteq> ?q" "p \<noteq> src" by auto
    then have "fs1 p = fs p" using that a(5) makedirs_frame [OF a(2), of p] by simp
    with that p b(4) makedirs_frame [OF b(2), of p] show ?thesis by simp
  qed
  have files: "isfile fs2 p = isfile fs p" for p
  proof -
    consider "p = src" | "p = ?q" "p \<noteq> src" | "p \<noteq> src" "p \<noteq> ?q" by blast
    then show ?thesis
    proof cases
      case 1
      have "fs src \<noteq> None" using a(1) by (rule isfile_Some)
      with 1 kept [of src] show ?thesis by (simp add: isfile_def)
    next
      case 2
      with b(4) q show ?thesis by (simp add: isfile_def)
    next
      case 3
      then have "isfile fs2 p = isfile b p" "isfile fs1 p = isfile a p" using a(5) b(4) by (simp_all add: isfile_def)
      with makedirs_file [OF a(2), of p] makedirs_file [OF b(2), of p] show ?thesis by simp
    qed
  qed
  show ?thesis using isfile_Some [OF a(1)] a(5) b(4) kept files by simp
qed

definition disk0 :: files where "disk0 = [''/home/a/x.php'' \<mapsto> RegularFile ''shell'']"

definition files_of :: "files result \<Rightarrow> files" where "files_of m = (case m of Inl _ \<Rightarrow> Map.empty | Inr fs \<Rightarrow> fs)"

lemma files_of_Inr: "\<not> isl m \<Longrightarrow> m = Inr (files_of m)"
  by (cases m) (auto simp: files_of_def)

definition moved0 :: "files result" where
  "moved0 = move_to_quarantine (\<lambda>_. False) ''/home/a/x.php'' ''/q/s'' ''x'' disk0"

definition restored0 :: "files result" where
  "restored0 = restore_from_quarantine (\<lambda>_. False) ''/q/s'' ''x'' ''/home/a/x.php'' (files_of moved0)"

lemma disk_runs: "\<not> isl moved0" "\<not> isl restored0"
  by code_simp+

theorem quarantine_restore_roundtrip_witness:
  "files_of moved0 ''/home/a/x.php'' = None \<and> files_of restored0 ''/home/a/x.php'' = Some (RegularFile ''shell'')"
proof -
  have "move_to_quarantine (\<lambda>_. False) ''/home/a/x.php'' ''/q/s'' ''x'' disk0 = Inr (files_of moved0)"
    "restore_from_quarantine (\<lambda>_. False) ''/q/s'' ''x'' ''/home/a/x.php'' (files_of moved0) = Inr (files_of restored0)"
    using files_of_Inr [OF disk_runs(1)] files_of_Inr [OF disk_runs(2)] by (simp_all add: moved0_def restored0_def)
  from quarantine_restore_roundtrip [OF this] show ?thesis by (simp add: disk0_def)
qed

subsection \<open>The signature scan\<close>

datatype hit_class = Webshell | Backdoor | Malware | SpamSeo | Suspicious
datatype engine = Yara | Clam | Mock | Needles

fun hit_class_name :: "hit_class \<Rightarrow> string" where
  "hit_class_name Webshell = ''webshell''"
| "hit_class_name Backdoor = ''backdoor''"
| "hit_class_name Malware = ''malware''"
| "hit_class_name SpamSeo = ''spam_seo''"
| "hit_class_name Suspicious = ''suspicious''"

definition ingest_class :: "string \<Rightarrow> hit_class" where   \<comment> \<open>\<open>_INGEST_HIT_CLASS.get(raw, "suspicious")\<close>\<close>
  "ingest_class raw = (if raw = ''dropper'' then Malware
     else or_else (find (\<lambda>k. hit_class_name k = raw) [Webshell, Backdoor, Malware, SpamSeo]) Suspicious)"

text \<open>One rule of a rule file as the regular expressions find it: \<open>id\<close>, \<open>hit_class\<close> and the quoted strings.\<close>

record rule_source =
  rsc_id :: "string option"
  rsc_class :: "string option"
  rsc_strings :: "string list"

record signature =
  sig_rule :: string
  sig_class :: hit_class
  sig_needles :: "string list"

fun replace_pair :: "char \<Rightarrow> char \<Rightarrow> char \<Rightarrow> string \<Rightarrow> string" where   \<comment> \<open>\<open>s.replace(ab, c)\<close>\<close>
  "replace_pair a b c (x # y # s) = (if x = a \<and> y = b then c # replace_pair a b c s else x # replace_pair a b c (y # s))"
| "replace_pair a b c s = s"

definition unescape_needle :: "string \<Rightarrow> string" where
  "unescape_needle raw = replace_pair (CHR 0x5C) (CHR 0x5C) (CHR 0x5C) (replace_pair (CHR 0x5C) (CHR 0x22) (CHR 0x22) raw)"

definition load_signature_pack :: "rule_source list \<Rightarrow> signature list" where
  "load_signature_pack rules = concat (map (\<lambda>r. case rsc_id r of None \<Rightarrow> []
     | Some k \<Rightarrow> if rsc_strings r = [] then []
         else [\<lparr>sig_rule = k, sig_class = ingest_class (or_else (rsc_class r) ''suspicious''),
                sig_needles = map unescape_needle (rsc_strings r)\<rparr>]) rules)"

text \<open>A directory: its files, those that cannot be read marked, and its directories, links not followed.\<close>

datatype scan_file = Readable string | Unreadable
datatype dir_tree = Dir "(string \<times> scan_file) list" "(string \<times> dir_tree) list"

definition SKIP_DIRS :: "string list" where "SKIP_DIRS = [''.git'', ''node_modules'', ''__pycache__'', ''.quarantine'']"
definition MAX_FILES :: nat where "MAX_FILES = 500"
definition MAX_BYTES :: nat where "MAX_BYTES = 1048576"

fun walk_files :: "string \<Rightarrow> dir_tree \<Rightarrow> (string \<times> scan_file) list" where
  "walk_files prefix (Dir fs ds) = map (\<lambda>(n, f). (prefix @ n, f)) fs
     @ concat (map (\<lambda>(n, t). if n \<in> set SKIP_DIRS \<or> infix_of ''..'' n then [] else walk_files (prefix @ n @ ''/'') t) ds)"

record hit_spec =
  spec_path :: string
  spec_class :: hit_class
  spec_rule :: string
  spec_sha :: "string option"
  spec_engine :: "engine option"

definition jailed :: "string \<Rightarrow> string \<Rightarrow> bool" where   \<comment> \<open>\<open>jail_rel_path\<close> does not raise\<close>
  "jailed root rel \<longleftrightarrow> \<not> isl (jail_rel_path root rel)"

fun match_signatures :: "string \<Rightarrow> string \<Rightarrow> signature list \<Rightarrow> hit_spec list \<Rightarrow> hit_spec list" where
  "match_signatures rel blob [] hits = hits"
| "match_signatures rel blob (g # gs) hits = match_signatures rel blob gs
     (if list_ex (\<lambda>n. infix_of n blob) (sig_needles g) \<and> \<not> list_ex (\<lambda>h. spec_path h = rel \<and> spec_rule h = sig_rule g) hits
      then hits @ [\<lparr>spec_path = rel, spec_class = sig_class g, spec_rule = sig_rule g, spec_sha = None, spec_engine = None\<rparr>]
      else hits)"

fun scan_files :: "string \<Rightarrow> signature list \<Rightarrow> (string \<times> scan_file) list \<Rightarrow> hit_spec list \<Rightarrow> hit_spec list" where
  "scan_files root pack [] hits = hits"
| "scan_files root pack ((rel, f) # fs) hits = scan_files root pack fs
     (case f of Unreadable \<Rightarrow> hits
      | Readable blob \<Rightarrow>
          if \<not> jailed root rel \<or> blob = [] \<or> MAX_BYTES < length blob then hits else match_signatures rel blob pack hits)"

definition scan_local_root :: "string \<Rightarrow> dir_tree option \<Rightarrow> signature list \<Rightarrow> hit_spec list result" where
  "scan_local_root root_path tree pack =
     ebind (validate_root_path root_path) (\<lambda>root.
     case tree of None \<Rightarrow> Inr []   \<comment> \<open>no directory\<close>
     | Some t \<Rightarrow> Inr (scan_files root pack (take MAX_FILES (walk_files [] t)) []))"

text \<open>\<open>os.path.relpath\<close> of two absolute paths.\<close>

fun drop_common :: "string list \<Rightarrow> string list \<Rightarrow> string list \<times> string list" where
  "drop_common (a # as) (b # bs) = (if a = b then drop_common as bs else (a # as, b # bs))"
| "drop_common as bs = (as, bs)"

definition relpath :: "string \<Rightarrow> string \<Rightarrow> string" where
  "relpath path start =
     (let comps = (\<lambda>p. filter (\<lambda>c. c \<noteq> []) (split_on (CHR ''/'') (normpath p)));
          (ups, downs) = drop_common (comps start) (comps path);
          rel = join_on (CHR ''/'') (replicate (length ups) ''..'' @ downs)
      in if rel = [] then ''.'' else rel)"

definition rpartition_colon :: "string \<Rightarrow> string \<times> string" where   \<comment> \<open>first and last part of \<open>line.rpartition(":")\<close>\<close>
  "rpartition_colon line = (if CHR '':'' \<notin> set line then ([], line)
     else (rev (tl (dropWhile (\<lambda>c. c \<noteq> CHR '':'') (rev line))), rev (takeWhile (\<lambda>c. c \<noteq> CHR '':'') (rev line))))"

definition removesuffix :: "string \<Rightarrow> string \<Rightarrow> string" where
  "removesuffix e s = (if ends_with e s then take (length s - length e) s else s)"

definition clam_rule :: "string \<Rightarrow> string" where
  "clam_rule raw = (let safe = take 80 (sub_runs basename_char False (strip (removesuffix '' FOUND'' (strip raw))))
     in ''clam.'' @ (if safe = [] then ''hit'' else safe))"

fun clam_hits :: "string \<Rightarrow> (string \<Rightarrow> string option) \<Rightarrow> string list \<Rightarrow> hit_spec list \<Rightarrow> hit_spec list" where
  "clam_hits root digest [] hits = hits"
| "clam_hits root digest (line # rest) hits =
     (let (left, raw) = rpartition_colon line; path = strip left; rel = relpath path root in
      clam_hits root digest rest
        (if \<not> ends_with '' FOUND'' line \<or> \<not> at_or_below root path \<or> \<not> jailed root rel
            \<or> list_ex (\<lambda>h. spec_path h = rel) hits then hits
         else hits @ [\<lparr>spec_path = rel, spec_class = Malware, spec_rule = clam_rule raw,
                spec_sha = digest path, spec_engine = None\<rparr>]))"

text \<open>No binary, no directory, or a scanner that fails or does not end in time: no lines.\<close>

definition scan_clam :: "string \<Rightarrow> (string \<Rightarrow> string option) \<Rightarrow> string list option \<Rightarrow> hit_spec list result" where
  "scan_clam root_path digest out = (case out of None \<Rightarrow> Inr []
     | Some lines \<Rightarrow> ebind (validate_root_path root_path) (\<lambda>root. Inr (clam_hits root digest lines [])))"

subsection \<open>What a scan reports\<close>

lemma jailed_root: "validate_root_path raw = Inr root \<Longrightarrow> jailed root rel \<Longrightarrow> jailed raw rel"
  using validate_twice [of raw root]
  by (cases "validate_root_path root") (auto simp: jailed_def jail_rel_path_def)

lemma match_signatures_paths:
  "h \<in> set (match_signatures rel blob pack hits) \<Longrightarrow> h \<in> set hits \<or> spec_path h = rel"
  by (induction rel blob pack hits rule: match_signatures.induct) (auto split: if_splits)

lemma match_signatures_unique:
  "unique_by (\<lambda>h. (spec_path h, spec_rule h)) hits \<Longrightarrow>
   unique_by (\<lambda>h. (spec_path h, spec_rule h)) (match_signatures rel blob pack hits)"
proof (induction rel blob pack hits rule: match_signatures.induct)
  case (2 rel blob g gs hits)
  show ?case unfolding match_signatures.simps
    by (rule "2.IH") (use "2.prems" in \<open>auto simp: unique_by_append1 list_ex_iff\<close>)
qed simp

lemma scan_files_spec:
  assumes "\<forall>h\<in>set hits. jailed root (spec_path h)" "unique_by (\<lambda>h. (spec_path h, spec_rule h)) hits"
  shows "(\<forall>h\<in>set (scan_files root pack fs hits). jailed root (spec_path h))
     \<and> unique_by (\<lambda>h. (spec_path h, spec_rule h)) (scan_files root pack fs hits)"
  using assms
proof (induction root pack fs hits rule: scan_files.induct)
  case (2 root pack rel f fs hits)
  show ?case unfolding scan_files.simps
    by (rule "2.IH") (use "2.prems" in \<open>auto dest: match_signatures_paths intro: match_signatures_unique split: scan_file.split\<close>)
qed simp

lemma clam_hits_spec:
  assumes "\<forall>h\<in>set hits. jailed root (spec_path h)" "unique_by spec_path hits"
  shows "(\<forall>h\<in>set (clam_hits root digest lines hits). jailed root (spec_path h)) \<and> unique_by spec_path (clam_hits root digest lines hits)"
  using assms
proof (induction root digest lines hits rule: clam_hits.induct)
  case (2 root digest line rest hits)
  obtain left raw where p: "rpartition_colon line = (left, raw)" by fastforce
  show ?case unfolding clam_hits.simps p Let_def prod.case
    by (rule "2.IH" [OF p [symmetric] refl refl]) (use "2.prems" in \<open>auto simp: unique_by_append1 list_ex_iff\<close>)
qed simp

end
