(* ===== verification/Spec2Isabelle.thy ===== *)
theory Spec2Isabelle
  imports BillingWorkers AiStream UptimeHistory ScanSchedules RateLimit AccountSafety StatusSafety HostPath
begin

text \<open>
  A verification development for the core of VulnScanner, the backend that sells vulnerability
  scanning, host protection, uptime monitoring, guard agents and an AI gateway (\<open>src/backend/app\<close>, Python,
  FastAPI, SQLAlchemy on PostgreSQL, Redis). Paths below are relative to that directory.

  \<^bold>\<open>The program.\<close> An organization has members and invites (\<open>services/organization.py\<close>) and is on a tier of
  the catalog (\<open>services/sku_tier.py\<close>); admins maintain the tiers, their prices and promo codes
  (\<open>services/promo.py\<close>). An invoice (\<open>services/invoice.py\<close>) bills one product of one organization for a month
  or a year at the catalog price, less the discount of a code, plus tax (\<open>services/invoice_math.py\<close>,
  \<open>services/promo_math.py\<close>). It is paid by hand (\<open>services/billing.py\<close>) or at a payment gateway
  (\<open>services/payments/*.py\<close>, \<open>api/payment_webhook_routes.py\<close>); the payment puts the organization on the tier
  and activates its subscription. Members read their plan and ask for another (\<open>services/subscription.py\<close>).
  The worker ends periods, reminds of unpaid invoices, drafts renewals and reconciles checkouts (\<open>workers/tasks/billing.py\<close>).
  A person signs in with an account (\<open>services/auth.py\<close>) and acts in one of his organizations.
  The AI gateway (\<open>services/ai_*.py\<close>) sells model calls against a prepaid wallet: it prices a call, holds the
  money, calls providers in turn, and charges what the answer used.

  \<^bold>\<open>Foundations.\<close>
  \<^item> \<open>Prelude\<close>: results (\<open>error + 'a\<close>) and their sequencing, Python's string operations, list facts, and the
    collections of facts the component proofs use.
  \<^item> \<open>Rows\<close>: one table; the locale \<open>row_store\<close> is what a session promises about it, interpreted on the model's tables.
  \<^item> \<open>Decimals\<close>, \<open>Calendar\<close>, \<open>Json\<close>: \<open>decimal\<close> rounding, \<open>datetime\<close> and decoded JSON, as far as the services use them.
  \<^item> \<open>Schema\<close>: the rows (\<open>models/*.py\<close>) with their constraints, and the database, a record of tables.

  \<^bold>\<open>Billing.\<close>
  \<^item> \<open>InvoiceMath\<close>, \<open>SkuTier\<close>, \<open>Promo\<close>, \<open>Invoice\<close>: one theory per service of that name. \<open>BillingCore\<close> holds the part of
    \<open>services/billing.py\<close> that \<open>Invoice\<close> calls, \<open>Billing\<close> the events of the gateway, \<open>BillingOps\<close> the rest of it
    with the reminder schedule and the read-only gate (\<open>services/billing_reminders.py\<close>, \<open>services/billing_access.py\<close>).
  \<^item> \<open>Orgs\<close>, \<open>Subscription\<close>: \<open>services/organization.py\<close> and \<open>services/subscription.py\<close>.
  \<^item> \<open>Midtrans\<close>, \<open>Checkout\<close>: the adapter of the gateway; checkouts and the webhook.
  \<^item> \<open>BillingWorkers\<close>: the billing jobs of the worker, and the invariants over the services and the jobs together.

  \<^bold>\<open>Accounts.\<close>
  \<^item> \<open>RateLimit\<close>: the limiter of a route and the API key middleware (\<open>middleware/*.py\<close>).
  \<^item> \<open>Auth\<close>: passwords, tokens and their revocation, the user of a request (\<open>services/auth.py\<close>); \<open>AuthRoutes\<close>: the handlers
    (\<open>api/auth_routes.py\<close>, \<open>services/google_oauth.py\<close>); \<open>AuthSafety\<close>, \<open>AccountSafety\<close>: what tokens and accounts guarantee.

  \<^bold>\<open>The AI gateway.\<close>
  \<^item> \<open>AiPricing\<close>: prices, exchange rates, how many tokens a balance affords (\<open>services/ai_pricing.py\<close>, \<open>ai_fx.py\<close>).
  \<^item> \<open>AiWallet\<close>: the wallet, its ledger and the holds on it (\<open>services/ai_wallet.py\<close>), the reaper of expired holds.
  \<^item> \<open>AiLimits\<close>: rate limits and circuit breaker in Redis, API keys (\<open>services/ai_limits.py\<close>, \<open>ai_breaker.py\<close>, \<open>ai_keys.py\<close>).
  \<^item> \<open>AiUpstream\<close>, \<open>AiProxy\<close>, \<open>AiStream\<close>: \<open>services/ai_proxy.py\<close>: request bodies, candidates and failover; the paid call;
    the streamed call and the trial of an admin.

  \<^bold>\<open>Scanning.\<close>
  \<^item> \<open>Scans\<close>: scan jobs, their findings, the comparison with the scan before (\<open>services/scanner.py\<close>, \<open>services/baseline_diff.py\<close>)
    and the sweep over stuck jobs (\<open>workers/tasks/maintenance.py\<close>). \<open>ScanSchedules\<close>: recurring scans, their next run and the sweep
    that starts them (\<open>services/schedule.py\<close>, \<open>schemas/schedule.py\<close>, \<open>workers/tasks/schedules.py\<close>).

  \<^bold>\<open>Monitoring.\<close>
  \<^item> \<open>Uptime\<close>: monitors, their request bodies, probes, alarms and the worker (\<open>services/uptime*.py\<close>, \<open>schemas/uptime.py\<close>,
    \<open>workers/tasks/uptime.py\<close>); \<open>UptimeHistory\<close>: what its steps keep.
  \<^item> \<open>CustomHostnames\<close>: the Cloudflare client; \<open>StatusPage\<close>: pages, components and incidents (\<open>services/status_page.py\<close> with its
    schemas and models); \<open>StatusHtml\<close>: the public page (\<open>api/status_html.py\<close>); \<open>StatusSafety\<close>: what the pages guarantee.

  \<^bold>\<open>How a handler is modelled.\<close> A handler is a function from its arguments, the ids it draws, the clock and
  the database to an error or to its result and the committed database. An error leaves the stored database
  as it was, because the session is closed without a commit. Handlers that commit more than once, or that
  record a failure, return the database next to the result; those of the AI gateway run in a small state
  monad over the database and Redis (\<open>gwm\<close>), Redis commands in one of their own (\<open>cmd\<close>), where each command has its instant and
  may fail. One reading of the clock stands for all the readings of one call. \<open>with_for_update\<close> locks make a
  handler one step. Where the code commits in between or holds no lock, the steps are separate
  definitions, or the effect of the other transactions is an argument: the retry loop of invoice creation takes
  the database each attempt sees, \<open>leave\<close> and a checkout are split in two transactions, the debit rounds of a
  settlement take what commits between their statements.

  \<^bold>\<open>What is shown.\<close> For each service, an invariant that every operation keeps, the behaviour of its
  operations on every branch, and the properties that span operations:
  \<^item> catalog: exactly one default tier and complete prices; no tier in use is deleted; the batched count of uses agrees with
    the single one;
  \<^item> promo codes: none above the finance cap is live without an approver who is not its creator; terms are frozen by the
    first redemption; quotas hold for a code and for a code in one organization;
  \<^item> invoices: no two live ones of a product overlap; an invoice only moves forward and its terms never change; amounts and
    tax are exact up to the stated rounding; a free number is found and the retry loop ends;
  \<^item> payments: only a settled event pays, an event has its effect once, a failed one has none; attempts only move forward; the
    notification must carry the signature and name a known attempt; the outcome of a checkout on every branch;
  \<^item> billing jobs: these guarantees hold across every job too; at most three rounds of a reminder stage are sent and none after
    one was accepted; a renewal is drafted once;
  \<^item> accounts: a revoked token is refused by every process whose lookup is answered; a request acts for the user of its token in an
    organization he is a member of; accounts stay well-formed; an address is verified only by a token mailed to it; a
    refresh token is used once; a limiter admits exactly its limit in a window;
  \<^item> subscriptions: status moves only along the transition table; a workspace is never both paid and blocked; a change
    request is resolved once, by an admin, with the stated effect;
  \<^item> organizations: an owner remains, only an owner makes an owner, seat caps hold, an invite is used once;
  \<^item> AI gateway: the balance is the sum of the ledger and never negative, under any interleaving of the operations; the wallet
    refines an account of available and held money; a hold is closed once; a call costs at most its hold and what
    the settlement may add, and a failed one nothing; a stream closes its hold however it ends; the rate limiter takes
    exactly one slot or none; the breaker never leaves a model without candidates;
  \<^item> scans: a stuck job is failed and paid back once; a comparison accounts for every finding once, against the latest completed
    scan before; a schedule runs at the first due instant after now, the two routines that compute it agree, and the cap on live
    schedules holds;
  \<^item> uptime: one live monitor per target, one alarm per outage, an event log that is a path of states, seats within the tier;
  \<^item> status pages: organizations, slugs and hostnames are unique, an incident has a resolution time exactly when it is resolved; a page
    is active under a hostname only after Cloudflare said so; what people write is never markup.

  Lemmas whose name is not in the list of properties are steps of these, or record where the code does not
  do what its comments say (for instance \<open>tpm_counter_sticks\<close>, \<open>split_event_is_lost\<close>).

  \<^bold>\<open>Bounds and fuel.\<close> Amounts are unbounded integers. The \<open>CHECK\<close> constraints of the billing tables are kept, the overflow of
  their 32-bit columns is not modelled; the money columns of the AI wallet are, an update outside their range fails. The retry loop of
  invoice creation has three attempts and the debit loop two, as in the code. The binary searches for affordable tokens
  recurse on the width of their interval. No fuel is used.

  \<^bold>\<open>Parameters.\<close> The HTTP client of the gateway and of the model providers, SHA-512, SHA-256 and Fernet, \<open>json.loads\<close>,
  \<open>urlparse\<close>, \<open>ipaddress\<close>, \<open>ZoneInfo\<close>, Celery, bcrypt, the signature of a JWT, Google's and Cloudflare's answers, the mail
  server, the constant style sheet and scripts of the public page, the answers of the network to a probe, \<open>UUID(str)\<close>, \<open>datetime.fromisoformat\<close>, random tokens and fresh ids.

  \<^bold>\<open>Not modelled.\<close> HTTP binding of most routes, rendering (PDF, e-mail), metrics, the scanners and
  probes, and the remaining services: they are listed with their reasons in the manifest.
\<close>

end
